(* ===== verification/Prelude.thy ===== *)
theory Prelude
  imports Main "HOL-Library.AList" "HOL-Library.Char_ord" "HOL-Library.List_Lexorder"
    "HOL-Library.Product_Lexorder"
begin

text \<open>
  Shared material: the identifiers and instants every component uses, Python's dictionaries as
  association lists, results with an error value, the small list operations of Python's standard
  library (\<open>min\<close> with a key, \<open>str.strip\<close>, \<open>str.split\<close>) and the interface of a transition system
  whose invariants hold in every reachable state.
\<close>

section \<open>Identifiers, instants and results\<close>

text \<open>
  A UUID and a worker id are kept in their canonical spelling (\<open>str(uuid)\<close>); a \<open>datetime\<close> is the
  number of microseconds since the epoch in UTC and a \<open>timedelta\<close> a number of microseconds.
\<close>

type_synonym uuid = string
type_synonym instant = int
type_synonym duration = int

datatype py_error = KeyError | ValueError | IndexError

named_theorems dict_simps \<open>lookup after an update or a removal of a dictionary\<close>
named_theorems wf_intros \<open>every dictionary operation keeps the keys distinct\<close>

section \<open>Python dictionaries\<close>

text \<open>
  A Python dictionary keeps its keys in insertion order and an assignment to a present key keeps the
  key's place: exactly \<open>AList.update\<close>. Keys are distinct (\<open>dwf\<close>).
\<close>

type_synonym ('k, 'v) dict = "('k \<times> 'v) list"

abbreviation dget :: "('k, 'v) dict \<Rightarrow> 'k \<Rightarrow> 'v option" where
  "dget \<equiv> map_of"

abbreviation dset :: "'k \<Rightarrow> 'v \<Rightarrow> ('k, 'v) dict \<Rightarrow> ('k, 'v) dict" where
  "dset \<equiv> AList.update"

abbreviation dpop :: "'k \<Rightarrow> ('k, 'v) dict \<Rightarrow> ('k, 'v) dict" where
  "dpop \<equiv> AList.delete"

definition dkeys :: "('k, 'v) dict \<Rightarrow> 'k set" where
  "dkeys d = fst ` set d"

definition dwf :: "('k, 'v) dict \<Rightarrow> bool" where
  "dwf d \<longleftrightarrow> distinct (map fst d)"

definition dsubscript :: "('k, 'v) dict \<Rightarrow> 'k \<Rightarrow> py_error + 'v" where
  \<comment> \<open>\<open>d[k]\<close>: a missing key raises\<close>
  "dsubscript d k = (case dget d k of None \<Rightarrow> Inl KeyError | Some v \<Rightarrow> Inr v)"

definition dget_default :: "('k, 'v) dict \<Rightarrow> 'k \<Rightarrow> 'v \<Rightarrow> 'v" where
  \<comment> \<open>\<open>d.get(k, default)\<close>\<close>
  "dget_default d k v = (case dget d k of None \<Rightarrow> v | Some x \<Rightarrow> x)"

definition dset_missing :: "'k \<Rightarrow> 'v \<Rightarrow> ('k, 'v) dict \<Rightarrow> ('k, 'v) dict" where
  \<comment> \<open>\<open>d.setdefault(k, v)\<close>\<close>
  "dset_missing k v d = (case dget d k of None \<Rightarrow> dset k v d | Some _ \<Rightarrow> d)"

definition dvalues :: "('k, 'v) dict \<Rightarrow> 'v list" where
  "dvalues d = map snd d"

definition dmerge :: "('k, 'v) dict \<Rightarrow> ('k, 'v) dict \<Rightarrow> ('k, 'v) dict" where
  \<comment> \<open>\<open>{**a, **b}\<close>: the second wins\<close>
  "dmerge a b = fold (\<lambda>(k, v). dset k v) b a"

lemma dget_dset [simp, dict_simps]: "dget (dset k v d) k' = (if k' = k then Some v else dget d k')"
  by (simp add: update_conv')

lemma dget_dpop [simp, dict_simps]: "dget (dpop k d) k' = (if k' = k then None else dget d k')"
  by (simp add: delete_conv')

lemma dget_dset_missing [simp, dict_simps]:
  "dget (dset_missing k v d) k' = (if k' = k \<and> dget d k = None then Some v else dget d k')"
  by (simp add: dset_missing_def split: option.splits)

lemma dget_filter [simp, dict_simps]:
  "dget (filter (\<lambda>(k, v). P k) d) k' = (if P k' then dget d k' else None)"
  by (induction d) auto

lemma dget_filter_dwf: "dwf d \<Longrightarrow>
  dget (filter (\<lambda>(k, v). P k v) d) k' = (case dget d k' of None \<Rightarrow> None | Some v \<Rightarrow> if P k' v then Some v else None)"
  by (induction d) (force simp: dwf_def image_iff split: option.splits dest: map_of_SomeD)+

lemma dkeys_iff [simp]: "k \<in> dkeys d \<longleftrightarrow> dget d k \<noteq> None"
  by (induction d) (auto simp: dkeys_def)

lemma dkeys_dom: "dkeys d = dom (dget d)"
  by (simp add: dkeys_def dom_map_of_conv_image_fst)

lemma finite_dkeys [simp]: "finite (dkeys d)"
  by (simp add: dkeys_def)

lemma dwf_Nil [simp, wf_intros]: "dwf []"
  by (simp add: dwf_def)

lemma dwf_dset [simp, wf_intros]: "dwf d \<Longrightarrow> dwf (dset k v d)"
  by (simp add: dwf_def distinct_update)

lemma dwf_dpop [simp, wf_intros]: "dwf d \<Longrightarrow> dwf (dpop k d)"
  by (simp add: dwf_def distinct_delete)

lemma dwf_dset_missing [simp, wf_intros]: "dwf d \<Longrightarrow> dwf (dset_missing k v d)"
  by (simp add: dset_missing_def split: option.splits)

lemma dwf_filter [simp, wf_intros]: "dwf d \<Longrightarrow> dwf (filter P d)"
  by (simp add: dwf_def distinct_map_filter)

lemma dwf_dmerge [simp, wf_intros]: "dwf a \<Longrightarrow> dwf (dmerge a b)"
  unfolding dmerge_def by (induction b arbitrary: a) auto

lemma dget_dmerge: "dwf b \<Longrightarrow>
  dget (dmerge a b) k = (case dget b k of None \<Rightarrow> dget a k | Some v \<Rightarrow> Some v)"
  unfolding dmerge_def
proof (induction b arbitrary: a)
  case Nil
  then show ?case by simp
next
  case (Cons p b)
  obtain k' v' where p: "p = (k', v')" by (cases p)
  from Cons.prems p have wf: "dwf b" and nin: "dget b k' = None"
    by (auto simp: dwf_def map_of_eq_None_iff)
  show ?case
    using Cons.IH [OF wf, of "dset k' v' a"] nin by (auto simp: p split: option.splits)
qed

lemma dsubscript_Inr [simp]: "dsubscript d k = Inr v \<longleftrightarrow> dget d k = Some v"
  by (simp add: dsubscript_def split: option.splits)

lemma dsubscript_Some: "dget d k = Some v \<Longrightarrow> dsubscript d k = Inr v"
  by (simp add: dsubscript_def)

lemma length_dset: "length (dset k v d) = (if dget d k = None then Suc (length d) else length d)"
  by (induction d) auto

lemma length_dpop_le: "length (dpop k d) \<le> length d"
  by (simp add: length_delete_le)

lemma dpop_absent [simp]: "dget d k = None \<Longrightarrow> dpop k d = d"
  by (induction d) (auto simp: AList.delete_eq split: if_splits)

lemma length_dpop: "dwf d \<Longrightarrow> length (dpop k d) = (if dget d k = None then length d else length d - 1)"
proof (induction d)
  case (Cons p d)
  then have wf: "dwf d" and nin: "dget d (fst p) = None"
    by (auto simp: dwf_def map_of_eq_None_iff)
  show ?case
  proof (cases "fst p = k")
    case True
    with nin have "dpop k d = d" by simp
    with True show ?thesis by (auto simp: AList.delete_eq)
  next
    case False
    moreover have "dget d k \<noteq> None \<Longrightarrow> length d \<noteq> 0" by (cases d) auto
    ultimately show ?thesis
      using Cons.IH [OF wf] by (cases p) (auto simp: AList.delete_eq split: if_splits)
  qed
qed (simp add: dwf_def)

subsection \<open>Sums over the values of a dictionary\<close>

lemma sum_list_dvalues_dset_absent:
  "dget d k = None \<Longrightarrow> sum_list (dvalues (dset k v d)) = sum_list (dvalues d) + (v :: int)"
  by (induction d) (auto simp: dvalues_def)

lemma sum_list_dvalues_dset_present:
  "dget d k = Some u \<Longrightarrow> sum_list (dvalues (dset k v d)) = sum_list (dvalues d) - u + (v :: int)"
  by (induction d) (auto simp: dvalues_def split: if_splits)

lemma sum_list_dvalues_dpop:
  "dwf d \<Longrightarrow> sum_list (dvalues (dpop k d)) = sum_list (dvalues d) - (case dget d k of None \<Rightarrow> 0 | Some u \<Rightarrow> (u :: int))"
proof (induction d)
  case (Cons p d)
  then have wf: "dwf d" and nin: "dget d (fst p) = None"
    by (auto simp: dwf_def map_of_eq_None_iff)
  show ?case
  proof (cases "fst p = k")
    case True
    with nin have "dpop k d = d" by simp
    with True show ?thesis by (cases p) (auto simp: AList.delete_eq dvalues_def)
  next
    case False
    then show ?thesis using Cons.IH [OF wf]
      by (cases p) (auto simp: AList.delete_eq dvalues_def)
  qed
qed (simp add: dvalues_def)

subsection \<open>The contract of a dictionary\<close>

text \<open>
  What a client of a key-value store relies on: a lookup after a store, a lookup after a removal, and
  that both keep the representation well formed. The lemmas of the block are proved from these laws
  alone.
\<close>

locale key_value_store =
  fixes get :: "'m \<Rightarrow> 'k \<Rightarrow> 'v option"
    and put :: "'k \<Rightarrow> 'v \<Rightarrow> 'm \<Rightarrow> 'm"
    and remove :: "'k \<Rightarrow> 'm \<Rightarrow> 'm"
    and keys :: "'m \<Rightarrow> 'k set"
    and valid :: "'m \<Rightarrow> bool"
  assumes get_put: "get (put k v m) k' = (if k' = k then Some v else get m k')"
    and get_remove: "get (remove k m) k' = (if k' = k then None else get m k')"
    and keys_get: "k \<in> keys m \<longleftrightarrow> get m k \<noteq> None"
    and valid_put: "valid m \<Longrightarrow> valid (put k v m)"
    and valid_remove: "valid m \<Longrightarrow> valid (remove k m)"
begin

lemma keys_put: "keys (put k v m) = insert k (keys m)"
  by (auto simp: keys_get get_put split: if_splits)

lemma keys_remove: "keys (remove k m) = keys m - {k}"
  by (auto simp: keys_get get_remove split: if_splits)

lemma get_put_put: "get (put k v (put k u m)) = get (put k v m)"
  by (rule ext) (simp add: get_put)

lemma get_remove_put: "get m k = None \<Longrightarrow> get (remove k (put k v m)) = get m"
  by (rule ext) (simp add: get_put get_remove)

lemma valid_fold_put: "valid m \<Longrightarrow> valid (fold (\<lambda>(k, v). put k v) ps m)"
  by (induction ps arbitrary: m) (auto intro: valid_put)

end

interpretation pydict: key_value_store dget dset dpop dkeys dwf
  by unfold_locales (auto simp del: dkeys_iff simp: dkeys_iff)

lemmas dkeys_dset [simp, dict_simps] = pydict.keys_put
lemmas dkeys_dpop [simp, dict_simps] = pydict.keys_remove

section \<open>Transition systems\<close>

text \<open>
  A component whose operations may raise is a step function into \<open>'e + 's\<close>. A run stops at the first
  error, as an exception does. The interface asks that the start state satisfies the invariant and
  that every step from such a state succeeds and keeps it; then no run raises and every state it
  reaches satisfies the invariant.
\<close>

fun run_steps :: "('s \<Rightarrow> 'a \<Rightarrow> 'e + 's) \<Rightarrow> 's \<Rightarrow> 'a list \<Rightarrow> 'e + 's" where
  "run_steps step s [] = Inr s"
| "run_steps step s (a # as) =
     (case step s a of Inl e \<Rightarrow> Inl e | Inr s' \<Rightarrow> run_steps step s' as)"

lemma run_steps_append:
  "run_steps step s (as @ bs) =
     (case run_steps step s as of Inl e \<Rightarrow> Inl e | Inr s' \<Rightarrow> run_steps step s' bs)"
  by (induction as arbitrary: s) (auto split: sum.splits)

locale safe_system =
  fixes step :: "'s \<Rightarrow> 'a \<Rightarrow> 'e + 's"
    and inv :: "'s \<Rightarrow> bool"
    and ok :: "'a \<Rightarrow> bool"
  assumes step_safe: "inv s \<Longrightarrow> ok a \<Longrightarrow> \<exists>s'. step s a = Inr s' \<and> inv s'"
begin

lemma run_safe: "inv s \<Longrightarrow> list_all ok as \<Longrightarrow> \<exists>s'. run_steps step s as = Inr s' \<and> inv s'"
proof (induction as arbitrary: s)
  case Nil
  then show ?case by simp
next
  case (Cons a as)
  then obtain s1 where "step s a = Inr s1" "inv s1" using step_safe by fastforce
  then show ?case using Cons by auto
qed

lemma run_inv: "inv s \<Longrightarrow> list_all ok as \<Longrightarrow> run_steps step s as = Inr s' \<Longrightarrow> inv s'"
  using run_safe by fastforce

end

section \<open>Lists\<close>

text \<open>Python's \<open>min(xs, key=f)\<close>: the first element of a smallest key; an empty list raises.\<close>

fun min_by :: "('a \<Rightarrow> 'k :: linorder) \<Rightarrow> 'a \<Rightarrow> 'a list \<Rightarrow> 'a" where
  "min_by f best [] = best"
| "min_by f best (x # xs) = min_by f (if f x < f best then x else best) xs"

lemma min_by_in: "min_by f b xs \<in> set (b # xs)"
  by (induction xs arbitrary: b) auto

lemma min_by_le: "x \<in> set (b # xs) \<Longrightarrow> f (min_by f b xs) \<le> f x"
proof (induction xs arbitrary: b x)
  case Nil
  then show ?case by simp
next
  case (Cons y ys)
  have base: "f (min_by f (if f y < f b then y else b) ys) \<le> f (if f y < f b then y else b)"
    by (rule Cons.IH) simp
  consider "x = b" | "x = y" | "x \<in> set ys" using Cons.prems by auto
  then show ?case
  proof cases
    case 1
    with base show ?thesis by (auto split: if_splits)
  next
    case 2
    with base show ?thesis by (auto split: if_splits)
  next
    case 3
    then show ?thesis using Cons.IH [of x] by simp
  qed
qed

section \<open>Strings\<close>

text \<open>
  Python's whitespace restricted to ASCII: \<open>str.strip\<close> and \<open>str.split\<close> treat these characters (and
  the information separators) as blank.
\<close>

definition is_space :: "char \<Rightarrow> bool" where
  "is_space c \<longleftrightarrow> (let n = (of_char c :: nat) in n = 32 \<or> (9 \<le> n \<and> n \<le> 13) \<or> (28 \<le> n \<and> n \<le> 31))"

definition lstrip :: "string \<Rightarrow> string" where
  "lstrip s = dropWhile is_space s"

definition strip :: "string \<Rightarrow> string" where
  "strip s = rev (dropWhile is_space (rev (lstrip s)))"

lemma strip_Nil [simp]: "strip [] = []"
  by (simp add: strip_def lstrip_def)

lemma set_strip: "set (strip s) \<subseteq> set s"
proof
  fix x assume "x \<in> set (strip s)"
  then have "x \<in> set (rev (lstrip s))" unfolding strip_def by (metis set_dropWhileD set_rev)
  then show "x \<in> set s" unfolding lstrip_def by (metis set_dropWhileD set_rev)
qed

lemma lstrip_fixed: "lstrip s = s \<longleftrightarrow> s = [] \<or> \<not> is_space (hd s)"
proof
  assume "lstrip s = s"
  then show "s = [] \<or> \<not> is_space (hd s)"
    unfolding lstrip_def by (metis hd_dropWhile)
qed (cases s; simp add: lstrip_def)

lemma strip_Nil_iff: "strip s = [] \<longleftrightarrow> list_all is_space s"
proof
  assume "strip s = []"
  then have "\<forall>c \<in> set (lstrip s). is_space c" by (simp add: strip_def dropWhile_eq_Nil_conv)
  then have "lstrip s = []" by (metis hd_dropWhile hd_in_set lstrip_def)
  then show "list_all is_space s" by (simp add: lstrip_def dropWhile_eq_Nil_conv list_all_iff)
next
  assume "list_all is_space s"
  then have "lstrip s = []" by (simp add: lstrip_def dropWhile_eq_Nil_conv list_all_iff)
  then show "strip s = []" by (simp add: strip_def)
qed

lemma hd_rev_dropWhile_rev:
  assumes "dropWhile P (rev xs) \<noteq> []"
  shows "hd (rev (dropWhile P (rev xs))) = hd xs"
proof -
  obtain ys where ys: "rev xs = ys @ dropWhile P (rev xs)"
    by (metis takeWhile_dropWhile_id)
  then have "xs = rev (dropWhile P (rev xs)) @ rev ys" by (metis rev_append rev_rev_ident)
  then show ?thesis using assms by (metis hd_append2 rev_is_Nil_conv)
qed

lemma strip_idem [simp]: "strip (strip s) = strip s"
proof (cases "strip s = []")
  case False
  have "hd (strip s) = hd (lstrip s)"
    using False unfolding strip_def by (intro hd_rev_dropWhile_rev) simp
  moreover have "lstrip s \<noteq> []" using False by (auto simp: strip_def)
  ultimately have "\<not> is_space (hd (strip s))"
    by (metis hd_dropWhile lstrip_def)
  then have "lstrip (strip s) = strip s" by (simp add: lstrip_fixed)
  then have "strip (strip s) = rev (dropWhile is_space (rev (strip s)))" by (simp add: strip_def)
  also have "\<dots> = strip s" by (simp add: strip_def)
  finally show ?thesis .
qed simp

end
