(* ===== verification/Py_Float.thy ===== *)
theory Py_Float
  imports Prelude "HOL-Library.Log_Nat"
begin

text \<open>
  The double-precision arithmetic the program uses: products of integers with \<open>0.1\<close> and a division
  by a power of two. Every value involved is a non-negative dyadic rational \<open>m / 2 ^ k\<close>, far from the
  overflow and the subnormal range, so a float is a pair of its numerator and the exponent of its
  denominator, and an operation rounds the exact numerator to 53 significant bits, ties to even.
\<close>

type_synonym dyadic = "nat \<times> nat"

definition half_even :: "nat \<Rightarrow> nat \<Rightarrow> nat" where
  \<comment> \<open>\<open>m / 2 ^ e\<close> to the nearest integer, ties to even\<close>
  "half_even m e =
     (let q = m div 2 ^ e; r = m mod 2 ^ e
      in if 2 * r < 2 ^ e then q
         else if 2 ^ e < 2 * r then q + 1
         else if even q then q else q + 1)"

definition fl53 :: "nat \<Rightarrow> nat" where
  "fl53 m = (let e = floorlog 2 m - 53 in half_even m e * 2 ^ e)"

definition fl_of_int :: "nat \<Rightarrow> dyadic" where
  "fl_of_int n = (fl53 n, 0)"

definition fl_div_pow2 :: "nat \<Rightarrow> nat \<Rightarrow> dyadic" where
  \<comment> \<open>\<open>n / 2 ** k\<close> on integers: the correctly rounded quotient\<close>
  "fl_div_pow2 n k = (fl53 n, k)"

definition fl_mul :: "dyadic \<Rightarrow> dyadic \<Rightarrow> dyadic" where
  "fl_mul x y = (fl53 (fst x * fst y), snd x + snd y)"

definition fl_tenth :: dyadic where
  \<comment> \<open>the literal \<open>0.1\<close>: the double nearest to one tenth\<close>
  "fl_tenth = (3602879701896397, 55)"

definition fl_trunc :: "dyadic \<Rightarrow> nat" where
  \<comment> \<open>\<open>int(x)\<close>\<close>
  "fl_trunc x = fst x div 2 ^ snd x"

definition fl_round :: "dyadic \<Rightarrow> nat" where
  \<comment> \<open>\<open>round(x)\<close>: banker's rounding\<close>
  "fl_round x = half_even (fst x) (snd x)"

section \<open>Rounding\<close>

lemma half_even_0 [simp]: "half_even m 0 = m"
  by (simp add: half_even_def)

lemma half_even_lower: "m div 2 ^ e \<le> half_even m e"
  by (auto simp: half_even_def Let_def)

lemma half_even_upper: "2 * (half_even m e * 2 ^ e) \<le> 2 * m + 2 ^ e"
proof -
  define q where "q = m div 2 ^ e"
  define r where "r = m mod 2 ^ e"
  have "q * 2 ^ e + r = m" by (simp add: q_def r_def div_mult_mod_eq)
  moreover have "half_even m e = q \<or> half_even m e = q + 1 \<and> 2 ^ e \<le> 2 * r"
    by (auto simp: half_even_def q_def r_def Let_def)
  ultimately show ?thesis by (auto simp: algebra_simps)
qed

lemma half_even_mono_mult: "c * 2 ^ e \<le> m \<Longrightarrow> c \<le> half_even m e"
  using half_even_lower [of m e]
  by (metis div_le_mono le_trans nonzero_mult_div_cancel_right power_not_zero zero_neq_numeral)

lemma fl53_small: "m < 2 ^ 53 \<Longrightarrow> fl53 m = m"
  by (simp add: fl53_def floorlog_le_iff)

lemma fl53_0 [simp]: "fl53 0 = 0"
  by (simp add: fl53_small)

text \<open>Rounding never drops below a bound that itself has at most 53 significant bits.\<close>

lemma fl53_ge:
  assumes "a * 2 ^ b \<le> m" "floorlog 2 m \<le> b + 53"
  shows "a * 2 ^ b \<le> fl53 m"
proof -
  let ?e = "floorlog 2 m - 53"
  have "?e \<le> b" using assms(2) by simp
  then have split: "a * 2 ^ b = a * 2 ^ (b - ?e) * 2 ^ ?e"
    by (simp add: mult.assoc flip: power_add)
  with assms(1) have "a * 2 ^ (b - ?e) \<le> half_even m ?e"
    by (intro half_even_mono_mult) simp
  then show ?thesis by (simp add: fl53_def split Let_def)
qed

text \<open>The relative error of a rounding is at most \<open>2 ^ -53\<close>.\<close>

lemma fl53_upper: "2 ^ 53 * fl53 m \<le> 2 ^ 53 * m + m"
proof (cases "m < 2 ^ 53")
  case True
  then show ?thesis by (simp add: fl53_small)
next
  case False
  then have big: "2 ^ 53 \<le> m" by simp
  let ?n = "floorlog 2 m"
  have n: "53 < ?n" using big by (metis floorlog_le_iff leI le_less_trans not_less one_less_numeral_iff semiring_norm(76))
  have m0: "0 < m" using big by (metis gr0I le_zero_eq power_not_zero zero_neq_numeral)
  have "2 ^ (?n - 1) \<le> m" using floorlog_bounds [OF m0, of 2] by simp
  moreover have "?n - 1 = (?n - 53) + 52" using n by simp
  ultimately have low: "2 ^ (?n - 53) * 2 ^ 52 \<le> m" by (metis power_add)
  have "2 * fl53 m \<le> 2 * m + 2 ^ (?n - 53)"
    using half_even_upper [of m "?n - 53"] by (simp add: fl53_def Let_def)
  then have "2 ^ 52 * (2 * fl53 m) \<le> 2 ^ 52 * (2 * m + 2 ^ (?n - 53))" by (rule mult_le_mono2)
  then have "2 ^ 53 * fl53 m \<le> 2 ^ 53 * m + 2 ^ (?n - 53) * 2 ^ 52" by (simp add: algebra_simps)
  with low show ?thesis by linarith
qed

section \<open>Truncating a tenth\<close>

text \<open>
  \<open>0.1\<close> is a little more than a tenth, by a factor \<open>1 + 2 ^ -54\<close>; for the integers the program
  multiplies, truncating the rounded product is the integer division by ten.
\<close>

lemma fl_trunc_tenth:
  assumes "m < 2 ^ 50"
  shows "fl_trunc (fl_mul (fl_of_int m) fl_tenth) = m div 10"
proof -
  let ?A = "3602879701896397 :: nat"
  have of_int: "fl53 m = m" using assms by (intro fl53_small) simp
  define p where "p = m * ?A"
  define k where "k = m div 10"
  have ten: "10 * p = m * 2 ^ 55 + 2 * m" by (simp add: p_def)
  have k: "10 * k \<le> m" "m \<le> 10 * k + 9" by (simp_all add: k_def)
  have "m * ?A < 2 ^ 50 * 2 ^ 52" using assms by (intro mult_strict_mono) simp_all
  then have "floorlog 2 p \<le> 102" by (simp add: floorlog_le_iff p_def)
  moreover have "k * 2 ^ 55 \<le> p" using ten k by simp
  ultimately have low: "k * 2 ^ 55 \<le> fl53 p" by (intro fl53_ge) simp_all
  have "10 * p \<le> (10 * k + 9) * 2 ^ 55 + 2 * m"
    using ten k(2) by (metis add_le_mono1 mult_le_mono1)
  then have "10 * p + 2 ^ 55 \<le> 10 * (k + 1) * 2 ^ 55 + 2 ^ 51" using assms by simp
  moreover have "p < 2 ^ 102" using \<open>m * ?A < 2 ^ 50 * 2 ^ 52\<close> by (simp add: p_def)
  ultimately have "fl53 p < (k + 1) * 2 ^ 55" using fl53_upper [of p] by simp
  with low have "fl53 p div 2 ^ 55 = k"
    by (intro div_nat_eqI) (simp_all add: mult.commute)
  then show ?thesis
    by (simp add: fl_trunc_def fl_mul_def fl_of_int_def fl_tenth_def of_int p_def k_def)
qed

end
