(* ===== verification/Placement.thy ===== *)
theory Placement
  imports Prelude Py_Float
begin

text \<open>
  The fleet's value objects and entities and the greedy placement of a server on a worker
  (\<open>fleet/domain/value_objects.py\<close>, \<open>fleet/domain/entities.py\<close>, \<open>fleet/domain/placement.py\<close>).
\<close>

section \<open>Workers\<close>

type_synonym worker_id = string
type_synonym server_id = uuid

datatype driver_kind = CONTAINER

datatype worker_status = ONLINE | OFFLINE | DRAINING

datatype worker_id_error = InvalidWorkerIdError

definition mk_worker_id :: "string \<Rightarrow> worker_id_error + worker_id" where
  "mk_worker_id v = (if v = [] \<or> strip v = [] then Inl InvalidWorkerIdError else Inr v)"

record host_resources =
  cpu_cores :: int
  memory_bytes :: int

record worker_capabilities =
  drivers :: "driver_kind set"
  max_servers :: int
  resources :: host_resources

record worker =
  w_id :: worker_id
  w_version :: string
  w_capabilities :: worker_capabilities
  w_registered_at :: instant
  w_last_heartbeat_at :: instant
  w_disconnected :: bool
  w_draining :: bool

definition with_heartbeat :: "worker \<Rightarrow> instant \<Rightarrow> worker" where
  "with_heartbeat w t = w\<lparr>w_last_heartbeat_at := t, w_disconnected := False\<rparr>"

definition disconnect :: "worker \<Rightarrow> worker" where
  "disconnect w = w\<lparr>w_disconnected := True\<rparr>"

definition start_draining :: "worker \<Rightarrow> worker" where
  "start_draining w = w\<lparr>w_draining := True\<rparr>"

definition stop_draining :: "worker \<Rightarrow> worker" where
  "stop_draining w = w\<lparr>w_draining := False\<rparr>"

definition worker_status_at :: "worker \<Rightarrow> instant \<Rightarrow> duration \<Rightarrow> worker_status" where
  "worker_status_at w now timeout =
     (if w_disconnected w then OFFLINE
      else if now - w_last_heartbeat_at w > timeout then OFFLINE
      else if w_draining w then DRAINING
      else ONLINE)"

lemma worker_updates [simp]:
  "w_id (with_heartbeat w t) = w_id w" "w_id (disconnect w) = w_id w"
  "w_id (start_draining w) = w_id w" "w_id (stop_draining w) = w_id w"
  "w_capabilities (with_heartbeat w t) = w_capabilities w"
  "w_capabilities (disconnect w) = w_capabilities w"
  "w_capabilities (start_draining w) = w_capabilities w"
  "w_capabilities (stop_draining w) = w_capabilities w"
  "w_draining (with_heartbeat w t) = w_draining w" "w_draining (disconnect w) = w_draining w"
  "w_draining (start_draining w)" "\<not> w_draining (stop_draining w)"
  "w_disconnected (disconnect w)" "\<not> w_disconnected (with_heartbeat w t)"
  "w_disconnected (start_draining w) = w_disconnected w"
  "w_disconnected (stop_draining w) = w_disconnected w"
  by (simp_all add: with_heartbeat_def disconnect_def start_draining_def stop_draining_def)

lemma draining_not_online: "w_draining w \<Longrightarrow> worker_status_at w now t \<noteq> ONLINE"
  by (simp add: worker_status_at_def)

section \<open>The memory reserve of a host\<close>

definition MEMORY_RESERVE_MB :: int where
  "MEMORY_RESERVE_MB = 1024"

definition trunc_tenth :: "int \<Rightarrow> int" where
  \<comment> \<open>\<open>int(m * 0.1)\<close>: the product is rounded to a double, then truncated towards zero\<close>
  "trunc_tenth m =
     (let t = int (fl_trunc (fl_mul (fl_of_int (nat \<bar>m\<bar>)) fl_tenth)) in if m < 0 then - t else t)"

definition reserve_mb :: "int \<Rightarrow> int" where
  "reserve_mb memory_capacity_mb = max MEMORY_RESERVE_MB (trunc_tenth memory_capacity_mb)"

section \<open>Candidates\<close>

record candidate =
  worker_id :: worker_id
  c_drivers :: "driver_kind set"
  capacity :: int
  load :: int
  memory_capacity_mb :: int
  committed_memory_mb :: int
  committed_cpu_millis :: int

definition fits_memory :: "candidate \<Rightarrow> int option \<Rightarrow> bool" where
  "fits_memory c needed_memory_mb =
     (case needed_memory_mb of
        None \<Rightarrow> True
      | Some n \<Rightarrow>
          if n = 0 \<or> memory_capacity_mb c = 0 then True
          else committed_memory_mb c + n \<le> memory_capacity_mb c - reserve_mb (memory_capacity_mb c))"

definition can_host :: "candidate \<Rightarrow> driver_kind \<Rightarrow> int \<Rightarrow> int option \<Rightarrow> py_error + bool" where
  "can_host c required_driver needed needed_memory_mb =
     (if needed \<le> 0 then Inl ValueError
      else if required_driver \<notin> c_drivers c then Inr False
      else if capacity c \<noteq> 0 \<and> load c + needed > capacity c then Inr False
      else Inr (fits_memory c needed_memory_mb))"

datatype placement = Chosen worker_id | NoEligibleWorker

fun eligible_hosts :: "candidate list \<Rightarrow> driver_kind \<Rightarrow> int \<Rightarrow> int option \<Rightarrow> py_error + candidate list" where
  "eligible_hosts [] d n m = Inr []"
| "eligible_hosts (c # cs) d n m =
     (case can_host c d n m of
        Inl e \<Rightarrow> Inl e
      | Inr b \<Rightarrow>
          (case eligible_hosts cs d n m of
             Inl e \<Rightarrow> Inl e
           | Inr es \<Rightarrow> Inr (if b then c # es else es)))"

definition place_key :: "candidate \<Rightarrow> int \<times> int \<times> worker_id" where
  "place_key c = (load c, committed_cpu_millis c, worker_id c)"

definition place :: "candidate list \<Rightarrow> driver_kind \<Rightarrow> int \<Rightarrow> int option \<Rightarrow> py_error + placement" where
  "place candidates required_driver needed needed_memory_mb =
     (case eligible_hosts candidates required_driver needed needed_memory_mb of
        Inl e \<Rightarrow> Inl e
      | Inr [] \<Rightarrow> Inr NoEligibleWorker
      | Inr (c # cs) \<Rightarrow> Inr (Chosen (worker_id (min_by place_key c cs))))"

section \<open>What placement chooses\<close>

lemma eligible_hosts_pos:
  "0 < n \<Longrightarrow> eligible_hosts cs d n m = Inr (filter (\<lambda>c. can_host c d n m = Inr True) cs)"
  by (induction cs) (auto simp: can_host_def)

lemma eligible_hosts_nonpos: "n \<le> 0 \<Longrightarrow> eligible_hosts (c # cs) d n m = Inl ValueError"
  by (simp add: can_host_def)

lemma place_key_worker_id: "place_key c = place_key c' \<Longrightarrow> worker_id c = worker_id c'"
  by (simp add: place_key_def)

lemma place_Chosen:
  assumes "0 < n" "place cs d n m = Inr (Chosen w)"
  obtains c where "c \<in> set cs" "worker_id c = w" "can_host c d n m = Inr True"
    "\<And>c'. c' \<in> set cs \<Longrightarrow> can_host c' d n m = Inr True \<Longrightarrow> place_key c \<le> place_key c'"
proof -
  let ?E = "filter (\<lambda>c. can_host c d n m = Inr True) cs"
  from assms obtain e es where E: "?E = e # es" and w: "w = worker_id (min_by place_key e es)"
    by (auto simp: place_def eligible_hosts_pos split: list.splits)
  have in_E: "min_by place_key e es \<in> set ?E" unfolding E by (rule min_by_in)
  show thesis
  proof (rule that)
    show "min_by place_key e es \<in> set cs" "can_host (min_by place_key e es) d n m = Inr True"
      using in_E by auto
    show "worker_id (min_by place_key e es) = w" by (simp add: w)
    fix c' assume "c' \<in> set cs" "can_host c' d n m = Inr True"
    then have "c' \<in> set (e # es)" unfolding E [symmetric] by simp
    then show "place_key (min_by place_key e es) \<le> place_key c'" by (rule min_by_le)
  qed
qed

lemma place_None:
  "0 < n \<Longrightarrow> place cs d n m = Inr NoEligibleWorker \<longleftrightarrow> (\<forall>c \<in> set cs. can_host c d n m \<noteq> Inr True)"
  by (simp add: place_def eligible_hosts_pos filter_empty_conv [symmetric] split: list.splits)

lemma place_total: "0 < n \<Longrightarrow> \<exists>r. place cs d n m = Inr r"
  by (auto simp: place_def eligible_hosts_pos split: list.splits)

lemma place_iff:
  assumes n: "0 < n"
  shows "place cs d n m = Inr (Chosen w) \<longleftrightarrow>
    (\<exists>c \<in> set cs. worker_id c = w \<and> can_host c d n m = Inr True \<and>
       (\<forall>c' \<in> set cs. can_host c' d n m = Inr True \<longrightarrow> place_key c \<le> place_key c'))"
    (is "?L \<longleftrightarrow> ?R")
proof
  assume ?L
  then show ?R using place_Chosen [OF n, of cs d m w] by metis
next
  assume ?R
  then obtain c where c: "c \<in> set cs" "worker_id c = w" "can_host c d n m = Inr True"
    and least: "\<And>c'. c' \<in> set cs \<Longrightarrow> can_host c' d n m = Inr True \<Longrightarrow> place_key c \<le> place_key c'"
    by blast
  obtain r where r: "place cs d n m = Inr r" using place_total [OF n] by blast
  with c n have "r \<noteq> NoEligibleWorker" using place_None [of n cs d m] by auto
  then obtain w' where w': "r = Chosen w'" by (cases r) auto
  from place_Chosen [OF n r [unfolded w']] obtain c' where c': "c' \<in> set cs" "worker_id c' = w'"
    "can_host c' d n m = Inr True" "place_key c' \<le> place_key c"
    using c by metis
  with least have "place_key c = place_key c'" by (metis antisym)
  with c' c show ?L by (metis place_key_worker_id r w')
qed

section \<open>Properties of placement\<close>

text \<open>
  The host reserve. For every advertised memory below \<open>2 ^ 50\<close> MiB the floating-point expression
  \<open>max(1024, int(m * 0.1))\<close> is the larger of 1024 and the integer part of a tenth, so the reserve is
  at least a tenth rounded down and never exceeds what a host of at least 1024 MiB advertises.
\<close>

lemma reserve_mb_value: "0 \<le> m \<Longrightarrow> m < 2 ^ 50 \<Longrightarrow> reserve_mb m = max 1024 (m div 10)"
proof -
  assume m: "0 \<le> m" "m < 2 ^ 50"
  then have "nat m < 2 ^ 50" by (simp add: nat_less_iff)
  then have "int (fl_trunc (fl_mul (fl_of_int (nat m)) fl_tenth)) = m div 10"
    using m(1) by (simp add: fl_trunc_tenth zdiv_int)
  then show ?thesis using m(1) by (simp add: reserve_mb_def trunc_tenth_def MEMORY_RESERVE_MB_def Let_def)
qed

theorem reserve_mb_exact:
  assumes "0 \<le> m" "m < 2 ^ 50"
  shows "reserve_mb m = max 1024 (m div 10) \<and> (1024 \<le> m \<longrightarrow> reserve_mb m \<le> m)"
proof -
  have "m div 10 \<le> m" using assms(1) by simp
  then show ?thesis using reserve_mb_value [OF assms] by simp
qed

theorem reserve_mb_exact_witness: "reserve_mb 32768 = 3276 \<and> reserve_mb 4096 = 1024"
  using reserve_mb_exact [of 32768] reserve_mb_exact [of 4096] by simp

text \<open>What eligibility and the order of the candidates come to, over the fields of a candidate.\<close>

lemma can_host_iff:
  assumes "0 < n"
  shows "can_host c d n m = Inr True \<longleftrightarrow>
    d \<in> c_drivers c \<and> (capacity c = 0 \<or> load c + n \<le> capacity c) \<and>
    (m = None \<or> m = Some 0 \<or> memory_capacity_mb c = 0 \<or>
     committed_memory_mb c + the m \<le> memory_capacity_mb c - reserve_mb (memory_capacity_mb c))"
  using assms by (auto simp: can_host_def fits_memory_def split: option.splits)

lemma place_key_le_iff:
  "place_key c \<le> place_key c' \<longleftrightarrow>
    load c < load c' \<or> load c = load c' \<and>
      (committed_cpu_millis c < committed_cpu_millis c' \<or>
       committed_cpu_millis c = committed_cpu_millis c' \<and> worker_id c \<le> worker_id c')"
  unfolding place_key_def by (auto simp: less_eq_prod_def)

text \<open>
  C28. Placement is correct and deterministic. For a positive request \<open>place\<close> never raises. It answers a
  worker exactly when that worker is a candidate that offers the driver, has the slots free (or no limit) and
  fits the memory (no need stated, no capacity advertised, or the commitment and the need stay below the
  capacity less a reserve of a tenth, at least 1024), and no other such candidate has a lower load, or the same load and less
  committed CPU, or both the same and a smaller worker id; it answers \<open>NoEligibleWorker\<close> exactly when no
  candidate qualifies; and reordering the candidates does not change the answer. A request that is not
  positive is an error as soon as there is a candidate. (A capacity is a count of MiB below \<open>2 ^ 50\<close>.)
\<close>

theorem place_correct:
  fixes cs :: "candidate list"
  defines "qualifies \<equiv> \<lambda>d n m c. d \<in> c_drivers c \<and> (capacity c = 0 \<or> load c + n \<le> capacity c) \<and>
      (m = None \<or> m = Some 0 \<or> memory_capacity_mb c = 0 \<or>
       committed_memory_mb c + the m \<le> memory_capacity_mb c - max 1024 (memory_capacity_mb c div 10))"
  assumes "0 < n" and mem: "\<And>c. c \<in> set cs \<Longrightarrow> 0 \<le> memory_capacity_mb c \<and> memory_capacity_mb c < 2 ^ 50"
  shows "(place cs d n m = Inr (Chosen w) \<longleftrightarrow>
      (\<exists>c \<in> set cs. worker_id c = w \<and> qualifies d n m c \<and>
         (\<forall>c' \<in> set cs. qualifies d n m c' \<longrightarrow>
            load c < load c' \<or> load c = load c' \<and>
              (committed_cpu_millis c < committed_cpu_millis c' \<or>
               committed_cpu_millis c = committed_cpu_millis c' \<and> worker_id c \<le> worker_id c'))))
    \<and> (place cs d n m = Inr NoEligibleWorker \<longleftrightarrow> (\<forall>c \<in> set cs. \<not> qualifies d n m c))
    \<and> (set cs' = set cs \<longrightarrow> place cs' d n m = place cs d n m)
    \<and> (n' \<le> 0 \<longrightarrow> place (c # cs) d n' m = Inl ValueError)"
proof -
  have "reserve_mb (memory_capacity_mb c) = max 1024 (memory_capacity_mb c div 10)" if "c \<in> set cs" for c
    using reserve_mb_value mem [OF that] by blast
  then have q: "qualifies d n m c \<longleftrightarrow> can_host c d n m = Inr True" if "c \<in> set cs" for c
    using that by (simp add: qualifies_def can_host_iff [OF assms(2)])
  have "place cs' d n m = place cs d n m" if sets: "set cs' = set cs"
  proof -
    obtain r where r: "place cs d n m = Inr r" using place_total [OF assms(2)] by blast
    show ?thesis
    proof (cases r)
      case (Chosen v)
      then have "place cs' d n m = Inr (Chosen v)" using r place_iff [OF assms(2)] sets by metis
      with r Chosen show ?thesis by simp
    next
      case NoEligibleWorker
      then show ?thesis using r place_None [OF assms(2)] sets by metis
    qed
  qed
  moreover have "place (c # cs) d n' m = Inl ValueError" if "n' \<le> 0"
    using eligible_hosts_nonpos [OF that] by (simp add: place_def)
  ultimately show ?thesis
    using place_iff [OF assms(2), of cs d m w] place_None [OF assms(2), of cs d m]
    by (simp add: place_key_le_iff q cong: conj_cong)
qed

definition three_workers :: "candidate list" where
  \<comment> \<open>the idle one has no memory left for 1100 MiB above its reserve\<close>
  "three_workers =
     [\<lparr>worker_id = ''b'', c_drivers = {CONTAINER}, capacity = 0, load = 1, memory_capacity_mb = 0,
        committed_memory_mb = 0, committed_cpu_millis = 0\<rparr>,
      \<lparr>worker_id = ''a'', c_drivers = {CONTAINER}, capacity = 2, load = 1, memory_capacity_mb = 8192,
        committed_memory_mb = 2000, committed_cpu_millis = 0\<rparr>,
      \<lparr>worker_id = ''c'', c_drivers = {CONTAINER}, capacity = 0, load = 0, memory_capacity_mb = 4096,
        committed_memory_mb = 2000, committed_cpu_millis = 0\<rparr>]"

theorem place_correct_witness: "place three_workers CONTAINER 1 (Some 1100) = Inr (Chosen ''a'')"
proof -
  have "0 \<le> memory_capacity_mb c \<and> memory_capacity_mb c < 2 ^ 50" if "c \<in> set three_workers" for c
    using that by (auto simp: three_workers_def)
  note place_correct [of 1 three_workers CONTAINER "Some 1100" "''a''", OF _ this, THEN conjunct1]
  then show ?thesis by (simp add: three_workers_def)
qed

end
