(* ===== verification/Registry.thy ===== *)
theory Registry
  imports Placement
begin

text \<open>
  The in-memory worker registry (\<open>fleet/adapters/registry.py\<close>): connected workers and their sessions,
  committed and reserved assignments with the sequence stamps a rebuild uses, the drained ids and the
  working sets each worker holds. Every operation is a function on the registry; an operation that
  subscripts a dictionary returns a sum, so that a missing key is a value. The invariant shows that
  none of them raises.
\<close>

section \<open>State\<close>

type_synonym ledger = "(server_id, int) dict"

record worker_registry =
  heartbeat_timeout :: duration
  workers :: "(worker_id, worker) dict"
  sessions :: "(worker_id, int) dict"
  next_session :: int
  committed :: "(worker_id, ledger) dict"
  next_seq :: int
  confirmed_seq :: "(worker_id, ledger) dict"
  decremented_seq :: "(worker_id, ledger) dict"
  reserved :: "(worker_id, ledger) dict"
  drained :: "worker_id set"
  held :: "(worker_id, ledger) dict"

definition new_registry :: "duration \<Rightarrow> worker_id set \<Rightarrow> worker_registry" where
  "new_registry timeout dr =
     \<lparr>heartbeat_timeout = timeout, workers = [], sessions = [], next_session = 0, committed = [],
      next_seq = 0, confirmed_seq = [], decremented_seq = [], reserved = [], drained = dr, held = []\<rparr>"

definition inner_update :: "('k, 'v) dict \<Rightarrow> 'k \<Rightarrow> ('v \<Rightarrow> 'v) \<Rightarrow> py_error + ('k, 'v) dict" where
  \<comment> \<open>a mutation of \<open>d[k]\<close>\<close>
  "inner_update d k f = (case dsubscript d k of Inl e \<Rightarrow> Inl e | Inr v \<Rightarrow> Inr (dset k (f v) d))"

section \<open>Operations\<close>

definition register :: "worker_registry \<Rightarrow> worker \<Rightarrow> ledger \<Rightarrow> int \<times> worker_registry" where
  "register r worker held_servers =
     (let w = (if w_id worker \<in> drained r then start_draining worker else worker);
          session = next_session r
      in (session,
          r\<lparr>workers := dset (w_id worker) w (workers r),
            held := dset (w_id worker) held_servers (held r),
            committed := dset (w_id worker) [] (committed r),
            confirmed_seq := dset (w_id worker) [] (confirmed_seq r),
            decremented_seq := dset (w_id worker) [] (decremented_seq r),
            reserved := dset_missing (w_id worker) [] (reserved r),
            next_session := next_session r + 1,
            sessions := dset (w_id worker) session (sessions r)\<rparr>))"

definition record_held_generation :: "worker_registry \<Rightarrow> worker_id \<Rightarrow> server_id \<Rightarrow> int \<Rightarrow> worker_registry" where
  "record_held_generation r w s generation =
     (case dget (held r) w of
        None \<Rightarrow> r
      | Some h \<Rightarrow> r\<lparr>held := dset w (dset s generation h) (held r)\<rparr>)"

definition held_generation :: "worker_registry \<Rightarrow> worker_id \<Rightarrow> server_id \<Rightarrow> int option" where
  "held_generation r w s = dget (dget_default (held r) w []) s"

definition record_heartbeat :: "worker_registry \<Rightarrow> worker_id \<Rightarrow> instant \<Rightarrow> worker_registry" where
  "record_heartbeat r w t =
     (case dget (workers r) w of
        None \<Rightarrow> r
      | Some worker \<Rightarrow> r\<lparr>workers := dset w (with_heartbeat worker t) (workers r)\<rparr>)"

definition mark_disconnected :: "worker_registry \<Rightarrow> worker_id \<Rightarrow> int \<Rightarrow> worker_registry" where
  "mark_disconnected r w session =
     (case dget (workers r) w of
        None \<Rightarrow> r
      | Some worker \<Rightarrow>
          if dget (sessions r) w = Some session
          then r\<lparr>workers := dset w (disconnect worker) (workers r)\<rparr> else r)"

definition is_current_session :: "worker_registry \<Rightarrow> worker_id \<Rightarrow> int \<Rightarrow> bool" where
  "is_current_session r w session \<longleftrightarrow> dget (sessions r) w = Some session"

definition set_draining :: "worker_registry \<Rightarrow> worker_id \<Rightarrow> bool \<Rightarrow> bool \<times> worker_registry" where
  "set_draining r w draining =
     (case dget (workers r) w of
        None \<Rightarrow> (False, r)
      | Some worker \<Rightarrow>
          if draining
          then (True, r\<lparr>drained := insert w (drained r),
                        workers := dset w (start_draining worker) (workers r)\<rparr>)
          else (True, r\<lparr>drained := drained r - {w},
                        workers := dset w (stop_draining worker) (workers r)\<rparr>))"

definition reserve :: "worker_registry \<Rightarrow> worker_id \<Rightarrow> server_id \<Rightarrow> int \<Rightarrow> py_error + worker_registry" where
  "reserve r w s memory_mb =
     (if dget (committed r) w \<noteq> None
      then (case inner_update (reserved r) w (dset s memory_mb) of
              Inl e \<Rightarrow> Inl e
            | Inr d \<Rightarrow> Inr (r\<lparr>reserved := d\<rparr>))
      else Inr r)"

definition reserved_memory_mb :: "worker_registry \<Rightarrow> worker_id \<Rightarrow> int" where
  "reserved_memory_mb r w = sum_list (dvalues (dget_default (reserved r) w []))"

definition committed_memory :: "worker_registry \<Rightarrow> worker_id \<Rightarrow> int" where
  "committed_memory r w = sum_list (dvalues (dget_default (committed r) w []))"

definition assignment_epoch :: "worker_registry \<Rightarrow> worker_id \<Rightarrow> int" where
  "assignment_epoch r w = next_seq r"

definition release_reservation :: "worker_registry \<Rightarrow> worker_id \<Rightarrow> server_id \<Rightarrow> worker_registry" where
  "release_reservation r w s =
     (case dget (reserved r) w of
        None \<Rightarrow> r
      | Some rw \<Rightarrow> r\<lparr>reserved := dset w (dpop s rw) (reserved r)\<rparr>)"

definition increment_assignment :: "worker_registry \<Rightarrow> worker_id \<Rightarrow> server_id \<Rightarrow> py_error + worker_registry" where
  "increment_assignment r w s =
     (if dget (committed r) w = None then Inr r
      else case dsubscript (reserved r) w of
             Inl e \<Rightarrow> Inl e
           | Inr rw \<Rightarrow>
               (case dget rw s of
                  None \<Rightarrow> Inr r
                | Some memory_mb \<Rightarrow>
                    (case inner_update (committed r) w (dset s memory_mb) of
                       Inl e \<Rightarrow> Inl e
                     | Inr com \<Rightarrow>
                         (case inner_update (confirmed_seq r) w (dset s (next_seq r)) of
                            Inl e \<Rightarrow> Inl e
                          | Inr conf \<Rightarrow>
                              Inr (r\<lparr>reserved := dset w (dpop s rw) (reserved r), committed := com,
                                     confirmed_seq := conf, next_seq := next_seq r + 1\<rparr>)))))"

definition decrement_assignment :: "worker_registry \<Rightarrow> worker_id \<Rightarrow> server_id \<Rightarrow> py_error + worker_registry" where
  "decrement_assignment r w s =
     (if dget (committed r) w = None then Inr r
      else case inner_update (committed r) w (dpop s) of
             Inl e \<Rightarrow> Inl e
           | Inr com \<Rightarrow>
               (case inner_update (confirmed_seq r) w (dpop s) of
                  Inl e \<Rightarrow> Inl e
                | Inr conf \<Rightarrow>
                    (case inner_update (decremented_seq r) w (dset s (next_seq r)) of
                       Inl e \<Rightarrow> Inl e
                     | Inr dec \<Rightarrow>
                         Inr (r\<lparr>committed := com, confirmed_seq := conf, decremented_seq := dec,
                                next_seq := next_seq r + 1\<rparr>))))"

definition set_assignment ::
  "worker_registry \<Rightarrow> worker_id \<Rightarrow> ledger \<Rightarrow> int \<Rightarrow> py_error + worker_registry" where
  "set_assignment r w assignments snapshot_epoch =
     (case dget (committed r) w of
        None \<Rightarrow> Inr r
      | Some com \<Rightarrow>
          (case (dsubscript (confirmed_seq r) w, dsubscript (decremented_seq r) w, dsubscript (reserved r) w) of
             (Inr conf, Inr dec, Inr rw) \<Rightarrow>
               (let preserved = filter (\<lambda>(s, m). dget_default conf s (- 1) \<ge> snapshot_epoch) com;
                    tombstoned = filter (\<lambda>(s, seq). seq \<ge> snapshot_epoch) dec;
                    filtered = filter (\<lambda>(s, m). s \<notin> dkeys tombstoned) assignments;
                    com' = dmerge filtered preserved
                in Inr (r\<lparr>committed := dset w com' (committed r),
                          confirmed_seq := dset w (map (\<lambda>(s, m). (s, dget_default conf s (- 1))) com')
                                             (confirmed_seq r),
                          reserved := dset w (fold (\<lambda>(s, m). dpop s) filtered rw) (reserved r)\<rparr>))
           | _ \<Rightarrow> Inl KeyError))"

definition registry_load :: "worker_registry \<Rightarrow> worker_id \<Rightarrow> py_error + int" where
  "registry_load r w =
     (case dsubscript (committed r) w of
        Inl e \<Rightarrow> Inl e
      | Inr com \<Rightarrow> Inr (int (length com) + int (length (dget_default (reserved r) w []))))"

fun candidates_of :: "worker_registry \<Rightarrow> instant \<Rightarrow> (worker_id, worker) dict \<Rightarrow> py_error + candidate list" where
  "candidates_of r now [] = Inr []"
| "candidates_of r now ((k, worker) # ws) =
     (if worker_status_at worker now (heartbeat_timeout r) = ONLINE
      then (case registry_load r (w_id worker) of
              Inl e \<Rightarrow> Inl e
            | Inr n \<Rightarrow>
                (case candidates_of r now ws of
                   Inl e \<Rightarrow> Inl e
                 | Inr cs \<Rightarrow>
                     Inr (\<lparr>worker_id = w_id worker,
                           c_drivers = drivers (w_capabilities worker),
                           capacity = max_servers (w_capabilities worker),
                           load = n,
                           memory_capacity_mb =
                             memory_bytes (resources (w_capabilities worker)) div (1024 * 1024),
                           committed_memory_mb =
                             committed_memory r (w_id worker) + reserved_memory_mb r (w_id worker),
                           committed_cpu_millis = 0\<rparr> # cs)))
      else candidates_of r now ws)"

definition candidates_for_placement :: "worker_registry \<Rightarrow> instant \<Rightarrow> py_error + candidate list" where
  "candidates_for_placement r now = candidates_of r now (workers r)"

record worker_snapshot =
  snap_id :: worker_id
  snap_version :: string
  snap_capabilities :: worker_capabilities
  snap_registered_at :: instant
  snap_last_heartbeat_at :: instant
  snap_status :: worker_status
  assigned_count :: int

definition snapshot_of :: "worker_registry \<Rightarrow> worker \<Rightarrow> instant \<Rightarrow> py_error + worker_snapshot" where
  "snapshot_of r worker now =
     (case registry_load r (w_id worker) of
        Inl e \<Rightarrow> Inl e
      | Inr n \<Rightarrow>
          Inr \<lparr>snap_id = w_id worker, snap_version = w_version worker,
               snap_capabilities = w_capabilities worker,
               snap_registered_at = w_registered_at worker,
               snap_last_heartbeat_at = w_last_heartbeat_at worker,
               snap_status = worker_status_at worker now (heartbeat_timeout r),
               assigned_count = n\<rparr>)"

definition get_worker :: "worker_registry \<Rightarrow> worker_id \<Rightarrow> instant \<Rightarrow> py_error + worker_snapshot option" where
  "get_worker r w now =
     (case dget (workers r) w of
        None \<Rightarrow> Inr None
      | Some worker \<Rightarrow> (case snapshot_of r worker now of Inl e \<Rightarrow> Inl e | Inr s \<Rightarrow> Inr (Some s)))"

fun snapshots_of :: "worker_registry \<Rightarrow> instant \<Rightarrow> (worker_id, worker) dict \<Rightarrow> py_error + worker_snapshot list" where
  "snapshots_of r now [] = Inr []"
| "snapshots_of r now ((k, worker) # ws) =
     (case snapshot_of r worker now of
        Inl e \<Rightarrow> Inl e
      | Inr s \<Rightarrow> (case snapshots_of r now ws of Inl e \<Rightarrow> Inl e | Inr ss \<Rightarrow> Inr (s # ss)))"

definition list_workers :: "worker_registry \<Rightarrow> instant \<Rightarrow> py_error + worker_snapshot list" where
  "list_workers r now = snapshots_of r now (workers r)"

section \<open>The registry as a transition system\<close>

datatype registry_event =
    Register worker ledger
  | RecordHeld worker_id server_id int
  | Heartbeat worker_id instant
  | Disconnected worker_id int
  | SetDraining worker_id bool
  | Reserve worker_id server_id int
  | Release worker_id server_id
  | Increment worker_id server_id
  | Decrement worker_id server_id
  | SetAssignment worker_id ledger int

fun registry_step :: "worker_registry \<Rightarrow> registry_event \<Rightarrow> py_error + worker_registry" where
  "registry_step r (Register worker h) = Inr (snd (register r worker h))"
| "registry_step r (RecordHeld w s g) = Inr (record_held_generation r w s g)"
| "registry_step r (Heartbeat w t) = Inr (record_heartbeat r w t)"
| "registry_step r (Disconnected w n) = Inr (mark_disconnected r w n)"
| "registry_step r (SetDraining w b) = Inr (snd (set_draining r w b))"
| "registry_step r (Reserve w s m) = reserve r w s m"
| "registry_step r (Release w s) = Inr (release_reservation r w s)"
| "registry_step r (Increment w s) = increment_assignment r w s"
| "registry_step r (Decrement w s) = decrement_assignment r w s"
| "registry_step r (SetAssignment w as e) = set_assignment r w as e"

fun event_ok :: "registry_event \<Rightarrow> bool" where
  \<comment> \<open>the mappings passed in are dictionaries\<close>
  "event_ok (Register worker h) = dwf h"
| "event_ok (SetAssignment w as e) = dwf as"
| "event_ok _ = True"

end
