(* ===== verification/Registry_Inv.thy ===== *)
theory Registry_Inv
  imports Registry
begin

text \<open>
  The representation invariant of the worker registry and that every operation keeps it: all the
  per-worker dictionaries have the same keys, the inner dictionaries are well formed, exactly the
  committed rows carry a confirm stamp, every stamp lies below the sequence counter, every session
  token below the session counter, and a worker whose id is drained is marked draining.
\<close>

section \<open>The invariant\<close>

definition inner_all :: "('v \<Rightarrow> bool) \<Rightarrow> ('k, 'v) dict \<Rightarrow> bool" where
  "inner_all P d \<longleftrightarrow> (\<forall>k v. dget d k = Some v \<longrightarrow> P v)"

definition keys_agree :: "worker_registry \<Rightarrow> bool" where
  "keys_agree r \<longleftrightarrow> (\<forall>w.
     (dget (committed r) w = None \<longleftrightarrow> dget (workers r) w = None) \<and>
     (dget (reserved r) w = None \<longleftrightarrow> dget (workers r) w = None) \<and>
     (dget (confirmed_seq r) w = None \<longleftrightarrow> dget (workers r) w = None) \<and>
     (dget (decremented_seq r) w = None \<longleftrightarrow> dget (workers r) w = None) \<and>
     (dget (sessions r) w = None \<longleftrightarrow> dget (workers r) w = None) \<and>
     (dget (held r) w = None \<longleftrightarrow> dget (workers r) w = None))"

definition dicts_wf :: "worker_registry \<Rightarrow> bool" where
  "dicts_wf r \<longleftrightarrow>
     dwf (workers r) \<and> dwf (sessions r) \<and> dwf (committed r) \<and> dwf (reserved r) \<and>
     dwf (confirmed_seq r) \<and> dwf (decremented_seq r) \<and> dwf (held r) \<and>
     inner_all dwf (committed r) \<and> inner_all dwf (reserved r) \<and> inner_all dwf (confirmed_seq r) \<and>
     inner_all dwf (decremented_seq r) \<and> inner_all dwf (held r)"

definition stamps_below :: "int \<Rightarrow> ledger \<Rightarrow> bool" where
  "stamps_below k d \<longleftrightarrow> (\<forall>s n. dget d s = Some n \<longrightarrow> n < k)"

definition stamps_ok :: "worker_registry \<Rightarrow> bool" where
  "stamps_ok r \<longleftrightarrow>
     (\<forall>w com conf. dget (committed r) w = Some com \<longrightarrow> dget (confirmed_seq r) w = Some conf \<longrightarrow>
        (\<forall>s. dget conf s = None \<longleftrightarrow> dget com s = None)) \<and>
     inner_all (stamps_below (next_seq r)) (confirmed_seq r) \<and>
     inner_all (stamps_below (next_seq r)) (decremented_seq r) \<and> 0 \<le> next_seq r"

definition workers_ok :: "worker_registry \<Rightarrow> bool" where
  "workers_ok r \<longleftrightarrow>
     (\<forall>w wk. dget (workers r) w = Some wk \<longrightarrow> w_id wk = w \<and> (w \<in> drained r \<longrightarrow> w_draining wk)) \<and>
     (\<forall>w n. dget (sessions r) w = Some n \<longrightarrow> n < next_session r)"

definition registry_inv :: "worker_registry \<Rightarrow> bool" where
  "registry_inv r \<longleftrightarrow> keys_agree r \<and> dicts_wf r \<and> stamps_ok r \<and> workers_ok r"

lemmas registry_inv_defs = registry_inv_def keys_agree_def dicts_wf_def stamps_ok_def workers_ok_def

lemma inner_allD: "inner_all P d \<Longrightarrow> dget d k = Some v \<Longrightarrow> P v"
  by (auto simp: inner_all_def)

lemma inner_all_Nil [simp]: "inner_all P []"
  by (simp add: inner_all_def)

lemma inner_all_dset [intro]: "inner_all P d \<Longrightarrow> P v \<Longrightarrow> inner_all P (dset k v d)"
  by (auto simp: inner_all_def)

lemma inner_all_dset_missing [intro]: "inner_all P d \<Longrightarrow> P v \<Longrightarrow> inner_all P (dset_missing k v d)"
  by (auto simp: inner_all_def)

lemma inner_all_mono: "inner_all P d \<Longrightarrow> (\<And>v. P v \<Longrightarrow> Q v) \<Longrightarrow> inner_all Q d"
  by (auto simp: inner_all_def)

lemma stamps_below_Nil [simp]: "stamps_below k []"
  by (simp add: stamps_below_def)

lemma inner_update_Some [simp]: "dget d k = Some v \<Longrightarrow> inner_update d k f = Inr (dset k (f v) d)"
  by (simp add: inner_update_def dsubscript_Some)

text \<open>The rows of one worker, present in every dictionary or in none.\<close>

lemma keys_agree_cases:
  assumes "keys_agree r"
  obtains (absent) "dget (workers r) w = None" "dget (committed r) w = None" "dget (reserved r) w = None"
      "dget (confirmed_seq r) w = None" "dget (decremented_seq r) w = None"
      "dget (sessions r) w = None" "dget (held r) w = None"
  | (present) wk com res conf dec ses hld where
      "dget (workers r) w = Some wk" "dget (committed r) w = Some com" "dget (reserved r) w = Some res"
      "dget (confirmed_seq r) w = Some conf" "dget (decremented_seq r) w = Some dec"
      "dget (sessions r) w = Some ses" "dget (held r) w = Some hld"
proof (cases "dget (workers r) w")
  case None
  then show thesis using assms absent unfolding keys_agree_def by metis
next
  case (Some wk)
  then show thesis using assms present unfolding keys_agree_def by (metis not_None_eq)
qed

lemma registry_invD:
  assumes "registry_inv r"
  shows "keys_agree r" "dicts_wf r" "stamps_ok r" "workers_ok r"
  using assms by (simp_all add: registry_inv_def)

lemma keys_agreeD:
  assumes "keys_agree r"
  shows "dget (committed r) w = None \<longleftrightarrow> dget (workers r) w = None"
    "dget (reserved r) w = None \<longleftrightarrow> dget (workers r) w = None"
    "dget (confirmed_seq r) w = None \<longleftrightarrow> dget (workers r) w = None"
    "dget (decremented_seq r) w = None \<longleftrightarrow> dget (workers r) w = None"
    "dget (sessions r) w = None \<longleftrightarrow> dget (workers r) w = None"
    "dget (held r) w = None \<longleftrightarrow> dget (workers r) w = None"
  using assms by (simp_all add: keys_agree_def)

lemma dicts_wf_inner:
  assumes "dicts_wf r"
  shows "dget (committed r) w = Some x \<Longrightarrow> dwf x" "dget (reserved r) w = Some x \<Longrightarrow> dwf x"
    "dget (confirmed_seq r) w = Some x \<Longrightarrow> dwf x" "dget (decremented_seq r) w = Some x \<Longrightarrow> dwf x"
    "dget (held r) w = Some x \<Longrightarrow> dwf x"
  using assms by (auto simp: dicts_wf_def dest: inner_allD)

section \<open>Every operation keeps it\<close>

lemma inv_new: "registry_inv (new_registry t dr)"
  by (simp add: registry_inv_defs new_registry_def dkeys_def)

lemma inv_register:
  assumes "registry_inv r" "dwf h"
  shows "registry_inv (snd (register r worker h))"
proof -
  from assms(1) have k: "keys_agree r" and d: "dicts_wf r" and s: "stamps_ok r" and w: "workers_ok r"
    by (simp_all add: registry_inv_def)
  have "keys_agree (snd (register r worker h))"
    using k keys_agreeD(2) [OF k, of "w_id worker"]
    by (auto simp: keys_agree_def register_def Let_def simp del: not_None_eq)
  moreover have "dicts_wf (snd (register r worker h))"
    using d assms(2) by (auto simp: dicts_wf_def register_def Let_def)
  moreover have "stamps_ok (snd (register r worker h))"
    using s by (auto simp: stamps_ok_def register_def Let_def split: if_splits)
  moreover have "workers_ok (snd (register r worker h))"
    using w by (fastforce simp: workers_ok_def register_def Let_def split: if_splits)
  ultimately show ?thesis by (simp add: registry_inv_def)
qed

lemma inv_held: "registry_inv r \<Longrightarrow> registry_inv (record_held_generation r w s g)"
proof (cases "dget (held r) w")
  case (Some h)
  assume inv: "registry_inv r"
  let ?r' = "r\<lparr>held := dset w (dset s g h) (held r)\<rparr>"
  have "keys_agree ?r'" using inv Some using keys_agreeD [of r w] by (auto simp: registry_inv_def keys_agree_def)
  moreover have "dwf h" using inv Some by (blast dest: registry_invD dicts_wf_inner)
  then have "dicts_wf ?r'" using inv by (auto simp: registry_inv_def dicts_wf_def)
  moreover have "stamps_ok ?r'" "workers_ok ?r'"
    using inv by (simp_all add: registry_inv_def stamps_ok_def workers_ok_def)
  ultimately show ?thesis using Some by (simp add: record_held_generation_def registry_inv_def)
qed (simp add: record_held_generation_def)

lemma inv_workers_update:
  assumes "registry_inv r" "dget (workers r) w = Some wk" "w_id wk' = w_id wk"
    "w \<in> dr \<Longrightarrow> w_draining wk'" "dr - {w} \<subseteq> drained r"
  shows "registry_inv (r\<lparr>drained := dr, workers := dset w wk' (workers r)\<rparr>)"
proof -
  let ?r' = "r\<lparr>drained := dr, workers := dset w wk' (workers r)\<rparr>"
  have "keys_agree ?r'" using assms(1,2) keys_agreeD [of r w] by (auto simp: registry_inv_def keys_agree_def)
  moreover have "dicts_wf ?r'" using assms(1) by (simp add: registry_inv_def dicts_wf_def)
  moreover have "stamps_ok ?r'" using assms(1) by (simp add: registry_inv_def stamps_ok_def)
  moreover have "workers_ok ?r'" using assms by (auto simp: registry_inv_def workers_ok_def)
  ultimately show ?thesis by (simp add: registry_inv_def)
qed

lemma registry_inv_draining: "registry_inv r \<Longrightarrow> dget (workers r) w = Some wk \<Longrightarrow> w \<in> drained r \<Longrightarrow> w_draining wk"
  by (simp add: registry_inv_def workers_ok_def)

lemma inv_heartbeat: "registry_inv r \<Longrightarrow> registry_inv (record_heartbeat r w t)"
  using inv_workers_update [of r w _ _ "drained r"] registry_inv_draining [of r w]
  by (auto simp: record_heartbeat_def split: option.splits)

lemma inv_disconnected: "registry_inv r \<Longrightarrow> registry_inv (mark_disconnected r w n)"
  using inv_workers_update [of r w _ _ "drained r"] registry_inv_draining [of r w]
  by (auto simp: mark_disconnected_def split: option.splits)

lemma inv_draining: "registry_inv r \<Longrightarrow> registry_inv (snd (set_draining r w b))"
  using inv_workers_update [of r w _ _ "insert w (drained r)"] inv_workers_update [of r w _ _ "drained r - {w}"]
  by (auto simp: set_draining_def split: option.splits)

lemma inv_reserved_update:
  assumes "registry_inv r" "dget (reserved r) w = Some rw" "dwf rw'"
  shows "registry_inv (r\<lparr>reserved := dset w rw' (reserved r)\<rparr>)"
proof -
  let ?r' = "r\<lparr>reserved := dset w rw' (reserved r)\<rparr>"
  have "keys_agree ?r'" using assms(1,2) keys_agreeD [of r w] by (auto simp: registry_inv_def keys_agree_def)
  moreover have "dicts_wf ?r'" using assms(1,3) by (auto simp: registry_inv_def dicts_wf_def)
  moreover have "stamps_ok ?r'" "workers_ok ?r'"
    using assms(1) by (simp_all add: registry_inv_def stamps_ok_def workers_ok_def)
  ultimately show ?thesis by (simp add: registry_inv_def)
qed

lemma reserve_eq:
  assumes "dget (committed r) w = Some com" "dget (reserved r) w = Some rw"
  shows "reserve r w s m = Inr (r\<lparr>reserved := dset w (dset s m rw) (reserved r)\<rparr>)"
  using assms by (simp add: reserve_def)

lemma inv_reserve: "registry_inv r \<Longrightarrow> \<exists>r'. reserve r w s m = Inr r' \<and> registry_inv r'"
proof -
  assume inv: "registry_inv r"
  then have "keys_agree r" by (simp add: registry_inv_def)
  then show ?thesis
  proof (cases rule: keys_agree_cases [of r w])
    case absent
    then show ?thesis using inv by (simp add: reserve_def)
  next
    case (present wk com res conf dec ses hld)
    then have "dwf res" using inv by (meson dicts_wf_def inner_allD registry_inv_def)
    then show ?thesis using reserve_eq [OF present(2,3)] inv_reserved_update [OF inv present(3)] by simp
  qed
qed

lemma inv_release: "registry_inv r \<Longrightarrow> registry_inv (release_reservation r w s)"
proof (cases "dget (reserved r) w")
  case (Some rw)
  assume inv: "registry_inv r"
  with Some have "dwf rw" by (auto simp: registry_inv_def dicts_wf_def dest: inner_allD)
  then show ?thesis using Some inv_reserved_update [OF inv Some] by (simp add: release_reservation_def)
qed (simp add: release_reservation_def)

lemma increment_eq:
  assumes "dget (committed r) w = Some com" "dget (reserved r) w = Some rw"
    "dget (confirmed_seq r) w = Some conf"
  shows "increment_assignment r w s =
    (case dget rw s of
       None \<Rightarrow> Inr r
     | Some m \<Rightarrow> Inr (r\<lparr>reserved := dset w (dpop s rw) (reserved r),
         committed := dset w (dset s m com) (committed r),
         confirmed_seq := dset w (dset s (next_seq r) conf) (confirmed_seq r),
         next_seq := next_seq r + 1\<rparr>))"
  using assms by (simp add: increment_assignment_def dsubscript_Some split: option.splits)

lemma decrement_eq:
  assumes "dget (committed r) w = Some com" "dget (confirmed_seq r) w = Some conf"
    "dget (decremented_seq r) w = Some dec"
  shows "decrement_assignment r w s =
    Inr (r\<lparr>committed := dset w (dpop s com) (committed r),
         confirmed_seq := dset w (dpop s conf) (confirmed_seq r),
         decremented_seq := dset w (dset s (next_seq r) dec) (decremented_seq r),
         next_seq := next_seq r + 1\<rparr>)"
  using assms by (simp add: decrement_assignment_def)

lemma set_assignment_eq:
  assumes "dget (committed r) w = Some com" "dget (confirmed_seq r) w = Some conf"
    "dget (decremented_seq r) w = Some dec" "dget (reserved r) w = Some rw"
  shows "set_assignment r w as e =
    (let filtered = filter (\<lambda>(s, m). s \<notin> dkeys (filter (\<lambda>(s, seq). seq \<ge> e) dec)) as;
         com' = dmerge filtered (filter (\<lambda>(s, m). dget_default conf s (- 1) \<ge> e) com)
     in Inr (r\<lparr>committed := dset w com' (committed r),
          confirmed_seq := dset w (map (\<lambda>(s, m). (s, dget_default conf s (- 1))) com') (confirmed_seq r),
          reserved := dset w (fold (\<lambda>(s, m). dpop s) filtered rw) (reserved r)\<rparr>))"
  using assms by (simp add: set_assignment_def dsubscript_Some Let_def)

lemma stamps_below_mono: "stamps_below k d \<Longrightarrow> stamps_below (k + 1) d"
  by (force simp: stamps_below_def)

lemma stamps_below_dset: "stamps_below k d \<Longrightarrow> stamps_below (k + 1) (dset s k d)"
  by (force simp: stamps_below_def)

lemma stamps_below_dpop: "stamps_below k d \<Longrightarrow> stamps_below (k + 1) (dpop s d)"
  by (force simp: stamps_below_def)

lemma inner_stamps_mono: "inner_all (stamps_below k) d \<Longrightarrow> inner_all (stamps_below (k + 1)) d"
  by (erule inner_all_mono) (rule stamps_below_mono)

lemma inner_stamps_dset:
  "inner_all (stamps_below k) d \<Longrightarrow> stamps_below (k + 1) v \<Longrightarrow> inner_all (stamps_below (k + 1)) (dset w v d)"
  by (intro inner_all_dset inner_stamps_mono)

lemma inv_increment: "registry_inv r \<Longrightarrow> \<exists>r'. increment_assignment r w s = Inr r' \<and> registry_inv r'"
proof -
  assume inv: "registry_inv r"
  then have "keys_agree r" by (simp add: registry_inv_def)
  then show ?thesis
  proof (cases rule: keys_agree_cases [of r w])
    case absent
    then show ?thesis using inv by (simp add: increment_assignment_def)
  next
    case (present wk com res conf dec ses hld)
    show ?thesis
    proof (cases "dget res s")
      case None
      then show ?thesis using inv by (simp add: increment_eq [OF present(2,3,4)])
    next
      case (Some m)
      let ?r' = "r\<lparr>reserved := dset w (dpop s res) (reserved r),
         committed := dset w (dset s m com) (committed r),
         confirmed_seq := dset w (dset s (next_seq r) conf) (confirmed_seq r),
         next_seq := next_seq r + 1\<rparr>"
      have "keys_agree ?r'" using inv present by (auto simp: registry_inv_def keys_agree_def)
      moreover have "dwf com" "dwf res" "dwf conf"
        using present registry_invD(2) [OF inv] by (blast dest: dicts_wf_inner)+
      then have "dicts_wf ?r'" using inv by (auto simp: registry_inv_def dicts_wf_def)
      moreover have "stamps_below (next_seq r) conf" using inv present
        by (auto simp: registry_inv_def stamps_ok_def dest: inner_allD)
      then have "stamps_ok ?r'" using inv present
        by (auto simp: registry_inv_def stamps_ok_def 
          intro!: inner_stamps_dset stamps_below_dset intro: inner_stamps_mono)
      moreover have "workers_ok ?r'" using inv by (simp add: registry_inv_def workers_ok_def)
      ultimately show ?thesis using Some by (simp add: increment_eq [OF present(2,3,4)] registry_inv_def)
    qed
  qed
qed

lemma inv_decrement: "registry_inv r \<Longrightarrow> \<exists>r'. decrement_assignment r w s = Inr r' \<and> registry_inv r'"
proof -
  assume inv: "registry_inv r"
  then have "keys_agree r" by (simp add: registry_inv_def)
  then show ?thesis
  proof (cases rule: keys_agree_cases [of r w])
    case absent
    then show ?thesis using inv by (simp add: decrement_assignment_def)
  next
    case (present wk com res conf dec ses hld)
    let ?r' = "r\<lparr>committed := dset w (dpop s com) (committed r),
         confirmed_seq := dset w (dpop s conf) (confirmed_seq r),
         decremented_seq := dset w (dset s (next_seq r) dec) (decremented_seq r),
         next_seq := next_seq r + 1\<rparr>"
    have "keys_agree ?r'" using inv present by (auto simp: registry_inv_def keys_agree_def)
    moreover have "dwf com" "dwf conf" "dwf dec"
      using present registry_invD(2) [OF inv] by (blast dest: dicts_wf_inner)+
    then have "dicts_wf ?r'" using inv by (auto simp: registry_inv_def dicts_wf_def)
    moreover have "stamps_below (next_seq r) conf" "stamps_below (next_seq r) dec" using inv present
      by (auto simp: registry_inv_def stamps_ok_def dest: inner_allD)
    then have "stamps_ok ?r'" using inv present
      by (auto simp: registry_inv_def stamps_ok_def
          intro!: inner_stamps_dset stamps_below_dset stamps_below_dpop)
    moreover have "workers_ok ?r'" using inv by (simp add: registry_inv_def workers_ok_def)
    ultimately show ?thesis by (simp add: decrement_eq [OF present(2,4,5)] registry_inv_def)
  qed
qed

lemma dwf_fold_dpop: "dwf d \<Longrightarrow> dwf (fold (\<lambda>(s, m). dpop s) xs d)"
  by (induction xs arbitrary: d) auto

lemma dget_fold_dpop: "dget (fold (\<lambda>(s, m). dpop s) xs d) k = (if dget xs k = None then dget d k else None)"
  by (induction xs arbitrary: d) auto

lemma dget_map_stamp: "dget (map (\<lambda>(s, m). (s, f s)) d) k = (if dget d k = None then None else Some (f k))"
  by (induction d) auto

lemma dwf_map_stamp: "dwf d \<Longrightarrow> dwf (map (\<lambda>(s, m). (s, f s)) d)"
  by (simp add: dwf_def split_def comp_def)

lemma inv_set_assignment:
  assumes inv: "registry_inv r" and as: "dwf as"
  shows "\<exists>r'. set_assignment r w as e = Inr r' \<and> registry_inv r'"
proof -
  from inv have k: "keys_agree r" and d: "dicts_wf r" and st: "stamps_ok r" and wok: "workers_ok r"
    by (simp_all add: registry_inv_def)
  from k show ?thesis
  proof (cases rule: keys_agree_cases [of r w])
    case absent
    then show ?thesis using inv by (simp add: set_assignment_def)
  next
    case (present wk com res conf dec ses hld)
    define filtered where "filtered = filter (\<lambda>(s, m). s \<notin> dkeys (filter (\<lambda>(s, seq). seq \<ge> e) dec)) as"
    define com' where "com' = dmerge filtered (filter (\<lambda>(s, m). dget_default conf s (- 1) \<ge> e) com)"
    define conf' where "conf' = map (\<lambda>(s, m). (s, dget_default conf s (- 1))) com'"
    let ?r' = "r\<lparr>committed := dset w com' (committed r), confirmed_seq := dset w conf' (confirmed_seq r),
                reserved := dset w (fold (\<lambda>(s, m). dpop s) filtered res) (reserved r)\<rparr>"
    have eq: "set_assignment r w as e = Inr ?r'"
      by (simp only: set_assignment_eq [OF present(2,4,5,3)] Let_def filtered_def com'_def conf'_def)
    have wf: "dwf com'" unfolding com'_def filtered_def using as by simp
    have "dwf res" using d present by (auto simp: dicts_wf_def dest: inner_allD)
    then have "dicts_wf ?r'" using d wf
      by (auto simp: dicts_wf_def conf'_def dwf_map_stamp dwf_fold_dpop)
    moreover have "keys_agree ?r'" using k present by (auto simp: keys_agree_def)
    moreover have "stamps_below (next_seq r) conf" using st present
      by (auto simp: stamps_ok_def dest: inner_allD)
    then have "stamps_below (next_seq r) conf'" using st unfolding conf'_def stamps_below_def
      by (auto simp: dget_map_stamp dget_default_def stamps_ok_def split: if_splits option.splits)
    then have "stamps_ok ?r'" using st
      by (auto simp: stamps_ok_def conf'_def dget_map_stamp split: if_splits)
    moreover have "workers_ok ?r'" using wok by (simp add: workers_ok_def)
    ultimately show ?thesis using eq by (simp add: registry_inv_def)
  qed
qed

lemma registry_step_safe:
  assumes "registry_inv r" "event_ok ev"
  shows "\<exists>r'. registry_step r ev = Inr r' \<and> registry_inv r'"
  using assms
  by (cases ev) (auto intro: inv_register inv_held inv_heartbeat inv_disconnected inv_draining
      inv_reserve inv_release inv_increment inv_decrement inv_set_assignment)

interpretation registry_sys: safe_system registry_step registry_inv event_ok
  by unfold_locales (rule registry_step_safe)

end
