(* ===== verification/Registry_Props.thy ===== *)
theory Registry_Props
  imports Registry_Inv
begin

text \<open>
  Properties of the worker registry: no sequence of operations raises, a rebuild of the committed
  assignments agrees with every confirm and decrement that raced it, a stale session cannot take a
  reconnected worker offline, and a drained worker is never offered for placement.
\<close>

section \<open>No operation raises\<close>

text \<open>
  C26: starting from an empty registry, no sequence of operations, whatever worker, server and session
  ids it names, raises a \<open>KeyError\<close>, and the registry it ends in satisfies the representation
  invariant.
\<close>

theorem registry_never_raises:
  assumes "list_all event_ok evs"
  shows "\<exists>r. run_steps registry_step (new_registry timeout dr) evs = Inr r \<and> registry_inv r"
  using registry_sys.run_safe [OF inv_new assms] .

definition sample_worker :: worker where
  "sample_worker = \<lparr>w_id = ''w'', w_version = ''1'', w_capabilities =
     \<lparr>drivers = {CONTAINER}, max_servers = 1, resources = \<lparr>cpu_cores = 4, memory_bytes = 0\<rparr>\<rparr>,
     w_registered_at = 0, w_last_heartbeat_at = 0, w_disconnected = False, w_draining = False\<rparr>"

theorem registry_never_raises_witness:
  "\<exists>r. run_steps registry_step (new_registry 30 {})
        [Increment ''w'' ''s'', Register sample_worker [(''s'', 3)], Reserve ''w'' ''s'' 512,
         Increment ''w'' ''s'', SetAssignment ''w'' [(''t'', 1)] 0, Decrement ''w'' ''s''] = Inr r
     \<and> registry_inv r"
  using registry_never_raises [of "[Increment ''w'' ''s'', Register sample_worker [(''s'', 3)],
     Reserve ''w'' ''s'' 512, Increment ''w'' ''s'', SetAssignment ''w'' [(''t'', 1)] 0,
     Decrement ''w'' ''s'']" 30 "{}"]
  by (simp add: dwf_def)

section \<open>The rebuild after a reconnect\<close>

text \<open>
  What happened to the row of server \<open>s\<close> on worker \<open>w\<close> during a window of operations: nothing
  (\<open>None\<close>), it left (\<open>Some None\<close>), or it was confirmed with its memory (\<open>Some (Some m)\<close>). Only an
  increment that finds a reservation confirms.
\<close>

fun row_effect :: "worker_registry \<Rightarrow> worker_id \<Rightarrow> server_id \<Rightarrow> registry_event \<Rightarrow> int option option \<Rightarrow> int option option" where
  "row_effect r w s (Increment w' s') x =
     (if w' = w \<and> s' = s
      then (case dget (dget_default (reserved r) w []) s of None \<Rightarrow> x | Some m \<Rightarrow> Some (Some m))
      else x)"
| "row_effect r w s (Decrement w' s') x = (if w' = w \<and> s' = s then Some None else x)"
| "row_effect r w s _ x = x"

fun window_effect :: "worker_registry \<Rightarrow> worker_id \<Rightarrow> server_id \<Rightarrow> registry_event list \<Rightarrow> int option option \<Rightarrow> int option option" where
  "window_effect r w s [] x = x"
| "window_effect r w s (ev # evs) x =
     (case registry_step r ev of
        Inl e \<Rightarrow> x
      | Inr r' \<Rightarrow> window_effect r' w s evs (row_effect r w s ev x))"

fun rebuilds :: "worker_id \<Rightarrow> registry_event \<Rightarrow> bool" where
  \<comment> \<open>the operations that reset the assignments of \<open>w\<close>\<close>
  "rebuilds w (Register worker h) = (w_id worker = w)"
| "rebuilds w (SetAssignment w' as e) = (w' = w)"
| "rebuilds w _ = False"

definition row_state :: "int \<Rightarrow> server_id \<Rightarrow> int option option \<Rightarrow> ledger \<Rightarrow> ledger \<Rightarrow> ledger \<Rightarrow> bool" where
  "row_state e s x com conf dec \<longleftrightarrow>
     (case x of
        None \<Rightarrow> dget_default conf s (- 1) < e \<and> (\<forall>n. dget dec s = Some n \<longrightarrow> n < e)
      | Some None \<Rightarrow> dget com s = None \<and> (\<exists>n. dget dec s = Some n \<and> e \<le> n)
      | Some (Some m) \<Rightarrow> dget com s = Some m \<and> e \<le> dget_default conf s (- 1))"

lemma dget_default_simps [simp]:
  "dget_default (dset k v d) k' u = (if k' = k then v else dget_default d k' u)"
  "dget_default (dpop k d) k' u = (if k' = k then u else dget_default d k' u)"
  "dget_default [] k u = u"
  by (simp_all add: dget_default_def)

lemma dget_default_Some: "dget d k = Some v \<Longrightarrow> dget_default d k u = v"
  by (simp add: dget_default_def)

lemma row_state_confirm [simp]: "e \<le> n \<Longrightarrow> row_state e s (Some (Some m)) (dset s m com) (dset s n conf) dec"
  by (simp add: row_state_def)

lemma row_state_confirm_other [simp]:
  "s' \<noteq> s \<Longrightarrow> row_state e s x (dset s' m com) (dset s' n conf) dec = row_state e s x com conf dec"
  by (simp add: row_state_def split: option.splits)

lemma row_state_leave [simp]: "e \<le> n \<Longrightarrow> row_state e s (Some None) (dpop s com) conf (dset s n dec)"
  by (simp add: row_state_def)

lemma row_state_leave_other [simp]:
  "s' \<noteq> s \<Longrightarrow> row_state e s x (dpop s' com) (dpop s' conf) (dset s' n dec) = row_state e s x com conf dec"
  by (simp add: row_state_def split: option.splits)

definition tracks :: "worker_registry \<Rightarrow> worker_id \<Rightarrow> int \<Rightarrow> server_id \<Rightarrow> int option option \<Rightarrow> bool" where
  "tracks r w e s x \<longleftrightarrow>
     e \<le> next_seq r \<and>
     (\<exists>com conf dec. dget (committed r) w = Some com \<and> dget (confirmed_seq r) w = Some conf \<and>
        dget (decremented_seq r) w = Some dec \<and> row_state e s x com conf dec)"

lemma tracks_frame:
  assumes "tracks r w e s x" "next_seq r \<le> next_seq r'"
    "dget (committed r') w = dget (committed r) w" "dget (confirmed_seq r') w = dget (confirmed_seq r) w"
    "dget (decremented_seq r') w = dget (decremented_seq r) w"
  shows "tracks r' w e s x"
  using assms unfolding tracks_def by (auto intro: order_trans)

lemma tracks_start:
  assumes "registry_inv r" "dget (workers r) w = Some wk"
  shows "tracks r w (assignment_epoch r w) s None"
proof -
  have k: "keys_agree r" and st: "stamps_ok r" using assms(1) by (simp_all add: registry_inv_def)
  from k show ?thesis
  proof (cases rule: keys_agree_cases [of r w])
    case (present wk com res conf dec ses hld)
    with st have "stamps_below (next_seq r) conf" "stamps_below (next_seq r) dec" "0 \<le> next_seq r"
      by (auto simp: stamps_ok_def dest: inner_allD)
    then have "row_state (next_seq r) s None com conf dec"
      by (auto simp: row_state_def stamps_below_def dget_default_def split: option.splits)
    then show ?thesis using present by (simp add: tracks_def assignment_epoch_def)
  qed (use assms in simp)
qed

lemma tracks_increment:
  assumes inv: "registry_inv r" and tr: "tracks r w e s x" and r': "increment_assignment r w' s' = Inr r'"
  shows "tracks r' w e s (row_effect r w s (Increment w' s') x)"
proof -
  have k: "keys_agree r" using inv by (simp add: registry_inv_def)
  from k show ?thesis
  proof (cases rule: keys_agree_cases [of r w'])
    case absent
    then have "r' = r" "w' \<noteq> w" using r' tr by (auto simp: increment_assignment_def tracks_def)
    then show ?thesis using tr by simp
  next
    case (present wk com res conf dec ses hld)
    show ?thesis
    proof (cases "dget res s'")
      case None
      then have "r' = r" using r' by (simp add: increment_eq [OF present(2,3,4)])
      then show ?thesis using tr None present by (auto simp: dget_default_Some)
    next
      case (Some m)
      then have "r' = r\<lparr>reserved := dset w' (dpop s' res) (reserved r),
         committed := dset w' (dset s' m com) (committed r),
         confirmed_seq := dset w' (dset s' (next_seq r) conf) (confirmed_seq r),
         next_seq := next_seq r + 1\<rparr>"
        using r' by (simp add: increment_eq [OF present(2,3,4)])
      then show ?thesis using tr present Some
        by (cases "w' = w"; cases "s' = s") (auto simp: tracks_def dget_default_Some)
    qed
  qed
qed

lemma tracks_decrement:
  assumes inv: "registry_inv r" and tr: "tracks r w e s x" and r': "decrement_assignment r w' s' = Inr r'"
  shows "tracks r' w e s (row_effect r w s (Decrement w' s') x)"
proof -
  have k: "keys_agree r" using inv by (simp add: registry_inv_def)
  from k show ?thesis
  proof (cases rule: keys_agree_cases [of r w'])
    case absent
    then have "r' = r" "w' \<noteq> w" using r' tr by (auto simp: decrement_assignment_def tracks_def)
    then show ?thesis using tr by simp
  next
    case (present wk com res conf dec ses hld)
    then have "r' = r\<lparr>committed := dset w' (dpop s' com) (committed r),
         confirmed_seq := dset w' (dpop s' conf) (confirmed_seq r),
         decremented_seq := dset w' (dset s' (next_seq r) dec) (decremented_seq r),
         next_seq := next_seq r + 1\<rparr>"
      using r' by (simp add: decrement_eq [OF present(2,4,5)])
    then show ?thesis using tr present
      by (cases "w' = w"; cases "s' = s") (auto simp: tracks_def)
  qed
qed

lemma set_assignment_frame:
  assumes "registry_inv r" "set_assignment r w' as e' = Inr r'" "w' \<noteq> w"
  shows "next_seq r' = next_seq r \<and> dget (committed r') w = dget (committed r) w \<and>
    dget (confirmed_seq r') w = dget (confirmed_seq r) w \<and> decremented_seq r' = decremented_seq r"
proof -
  have k: "keys_agree r" using assms(1) by (simp add: registry_inv_def)
  from k show ?thesis
  proof (cases rule: keys_agree_cases [of r w'])
    case absent
    then show ?thesis using assms(2) by (simp add: set_assignment_def)
  next
    case (present wk com res conf dec ses hld)
    then show ?thesis using assms(2,3) by (auto simp: set_assignment_eq [OF present(2,4,5,3)] Let_def)
  qed
qed

lemma step_tracks:
  assumes inv: "registry_inv r" and tr: "tracks r w e s x" and ev: "\<not> rebuilds w ev"
    and r': "registry_step r ev = Inr r'"
  shows "tracks r' w e s (row_effect r w s ev x)"
proof (cases ev)
  case (Increment w' s')
  then show ?thesis using tracks_increment [OF inv tr] r' by simp
next
  case (Decrement w' s')
  then show ?thesis using tracks_decrement [OF inv tr] r' by simp
next
  case (SetAssignment w' as e')
  then have "set_assignment r w' as e' = Inr r'" "w' \<noteq> w" using r' ev by simp_all
  from set_assignment_frame [OF inv this] show ?thesis
    using SetAssignment by (simp add: tracks_frame [OF tr])
qed (use r' ev in \<open>auto simp: register_def record_held_generation_def record_heartbeat_def
    mark_disconnected_def set_draining_def reserve_def release_reservation_def Let_def
    intro!: tracks_frame [OF tr] split: option.splits if_splits sum.splits\<close>)

lemma run_tracks:
  assumes "registry_inv r" "tracks r w e s x" "list_all event_ok evs" "list_all (\<lambda>ev. \<not> rebuilds w ev) evs"
    "run_steps registry_step r evs = Inr r'"
  shows "registry_inv r' \<and> tracks r' w e s (window_effect r w s evs x)"
  using assms
proof (induction evs arbitrary: r x)
  case Nil
  then show ?case by simp
next
  case (Cons ev evs)
  then obtain r1 where r1: "registry_step r ev = Inr r1" by (auto split: sum.splits)
  then have "registry_inv r1" using Cons.prems registry_step_safe [of r ev] by auto
  moreover have "tracks r1 w e s (row_effect r w s ev x)" using Cons.prems r1 step_tracks by auto
  ultimately show ?case using Cons r1 by auto
qed

lemma rebuild_ledger:
  assumes "row_state e s x com conf dec" "dwf com" "dwf dec"
  shows "dget (dmerge (filter (\<lambda>(s, m). s \<notin> dkeys (filter (\<lambda>(s, seq). seq \<ge> e) dec)) as)
            (filter (\<lambda>(s, m). dget_default conf s (- 1) \<ge> e) com)) s
         = (case x of None \<Rightarrow> dget as s | Some y \<Rightarrow> y)"
proof -
  have stone: "s \<in> dkeys (filter (\<lambda>(s, seq). seq \<ge> e) dec) \<longleftrightarrow> (\<exists>n. dget dec s = Some n \<and> e \<le> n)"
    using assms(3) by (simp add: dget_filter_dwf split: option.splits)
  show ?thesis
    using assms(1,2) stone
    by (auto simp del: dkeys_iff simp add: dget_dmerge row_state_def split: option.splits)
qed

lemma rebuild_row:
  assumes inv: "registry_inv r" and tr: "tracks r w e s x"
    and r': "set_assignment r w as e = Inr r'"
  shows "dget (dget_default (committed r') w []) s = (case x of None \<Rightarrow> dget as s | Some y \<Rightarrow> y)
    \<and> (x = None \<longrightarrow> dget as s \<noteq> None \<longrightarrow> dget (dget_default (reserved r') w []) s = None)"
proof -
  have k: "keys_agree r" using inv by (simp add: registry_inv_def)
  from k show ?thesis
  proof (cases rule: keys_agree_cases [of r w])
    case absent
    then show ?thesis using tr by (simp add: tracks_def)
  next
    case (present wk com res conf dec ses hld)
    then have wfs: "dwf dec" "dwf com" using inv by (auto dest: registry_invD dicts_wf_inner)
    define filtered where "filtered = filter (\<lambda>(s, m). s \<notin> dkeys (filter (\<lambda>(s, seq). seq \<ge> e) dec)) as"
    have st: "row_state e s x com conf dec" using tr present by (simp add: tracks_def)
    have "dget (dget_default (committed r') w []) s = (case x of None \<Rightarrow> dget as s | Some y \<Rightarrow> y)"
      using r' rebuild_ledger [OF st wfs(2,1)] by (auto simp: set_assignment_eq [OF present(2,4,5,3)] Let_def)
    moreover have "dget (dget_default (reserved r') w []) s = (if dget filtered s = None then dget res s else None)"
      using r' by (auto simp: set_assignment_eq [OF present(2,4,5,3)] Let_def dget_fold_dpop filtered_def)
    moreover have "x = None \<Longrightarrow> dget filtered s = dget as s"
      using st wfs by (auto simp: filtered_def row_state_def dget_filter_dwf split: option.splits)
    ultimately show ?thesis by auto
  qed
qed

text \<open>
  C25: the rebuild of a worker's committed assignments is linearised with the operations that raced
  it. Take the epoch \<open>e\<close> from a registry that knows the worker, let any operations but another reset
  of that worker run, and then install a tally \<open>as\<close> under that epoch. For every server, if the
  window confirmed its row last, the row is committed with the confirmed memory; if it left last, it
  is not committed even when the tally lists it; otherwise it is committed exactly as the tally says,
  and then its reservation is gone, so that the pending confirm cannot count it twice.
\<close>

theorem rebuild_linearised:
  assumes "registry_inv r" "dget (workers r) w = Some wk"
    "list_all event_ok evs" "list_all (\<lambda>ev. \<not> rebuilds w ev) evs"
    "run_steps registry_step r (evs @ [SetAssignment w as (assignment_epoch r w)]) = Inr r'"
  shows "dget (dget_default (committed r') w []) s =
           (case window_effect r w s evs None of None \<Rightarrow> dget as s | Some row \<Rightarrow> row)
    \<and> (window_effect r w s evs None = None \<longrightarrow> dget as s \<noteq> None \<longrightarrow>
         dget (dget_default (reserved r') w []) s = None)"
proof -
  obtain r1 where run: "run_steps registry_step r evs = Inr r1"
    and set: "set_assignment r1 w as (assignment_epoch r w) = Inr r'"
    using assms(5) by (auto simp: run_steps_append split: sum.splits)
  have "registry_inv r1 \<and> tracks r1 w (assignment_epoch r w) s (window_effect r w s evs None)"
    by (rule run_tracks [OF assms(1) tracks_start [OF assms(1,2)] assms(3,4) run])
  then show ?thesis
    using rebuild_row [OF _ _ set] by blast
qed

text \<open>
  A start that commits between the tally read and the rebuild, and a stop in the same window: the
  started server is kept though the tally lacks it, the stopped one is dropped though it lists it.
\<close>

theorem rebuild_linearised_witness:
  "\<exists>r'. run_steps registry_step
       (snd (register (snd (register (new_registry 30 {}) sample_worker [])) sample_worker []))
       ([Reserve ''w'' ''new'' 512, Increment ''w'' ''new'', Decrement ''w'' ''old''] @
        [SetAssignment ''w'' [(''old'', 1), (''kept'', 2)]
          (assignment_epoch (snd (register (snd (register (new_registry 30 {}) sample_worker [])) sample_worker [])) ''w'')])
       = Inr r'
     \<and> dget (dget_default (committed r') ''w'' []) ''new'' = Some 512
     \<and> dget (dget_default (committed r') ''w'' []) ''old'' = None
     \<and> dget (dget_default (committed r') ''w'' []) ''kept'' = Some 2"
proof -
  let ?r = "snd (register (snd (register (new_registry 30 {}) sample_worker [])) sample_worker [])"
  let ?evs = "[Reserve ''w'' ''new'' 512, Increment ''w'' ''new'', Decrement ''w'' ''old'']"
  let ?as = "[(''old'', 1), (''kept'', 2)] :: ledger"
  have inv: "registry_inv ?r" by (intro inv_register inv_new) simp_all
  obtain r' where run: "run_steps registry_step ?r (?evs @ [SetAssignment ''w'' ?as (assignment_epoch ?r ''w'')]) = Inr r'"
    using registry_sys.run_safe [OF inv, of "?evs @ [SetAssignment ''w'' ?as (assignment_epoch ?r ''w'')]"]
    by (auto simp: dwf_def)
  have known: "dget (workers ?r) ''w'' = Some sample_worker"
    by (simp add: register_def sample_worker_def new_registry_def)
  note rebuild = rebuild_linearised [OF inv known _ _ run]
  have eff: "window_effect ?r ''w'' ''new'' ?evs None = Some (Some 512)"
    "window_effect ?r ''w'' ''old'' ?evs None = Some None"
    "window_effect ?r ''w'' ''kept'' ?evs None = None"
    by (simp_all add: register_def sample_worker_def new_registry_def reserve_def
        increment_assignment_def decrement_assignment_def inner_update_def dsubscript_def
        dget_default_def dset_missing_def)
  show ?thesis
    using run rebuild [of "''new''"] rebuild [of "''old''"] rebuild [of "''kept''"] eff
    by (auto simp: dwf_def)
qed

section \<open>Sessions\<close>

lemma step_session:
  assumes "dget (sessions r) w = Some n" "\<forall>worker h. ev = Register worker h \<longrightarrow> w_id worker \<noteq> w"
    "registry_step r ev = Inr r'"
  shows "dget (sessions r') w = Some n"
  using assms
  by (cases ev) (auto simp: register_def record_held_generation_def record_heartbeat_def
      mark_disconnected_def set_draining_def reserve_def release_reservation_def
      increment_assignment_def decrement_assignment_def set_assignment_def Let_def
      split: option.splits if_splits sum.splits)

lemma run_session:
  assumes "dget (sessions r) w = Some n" "list_all (\<lambda>ev. \<forall>worker h. ev = Register worker h \<longrightarrow> w_id worker \<noteq> w) evs"
    "run_steps registry_step r evs = Inr r'"
  shows "dget (sessions r') w = Some n"
  using assms by (induction evs arbitrary: r) (auto split: sum.splits dest: step_session)

text \<open>
  A stale session cannot take a reconnected worker offline. A registration mints a token that no
  earlier session holds, that token stays the current one through any operations but a further
  registration of the same worker, and a disconnect that carries any other token changes nothing.
\<close>

theorem stale_disconnect_ignored:
  assumes "registry_inv r" "register r worker h = (token, r0)"
    "list_all (\<lambda>ev. \<forall>worker' h'. ev = Register worker' h' \<longrightarrow> w_id worker' \<noteq> w_id worker) evs"
    "run_steps registry_step r0 evs = Inr r'"
  shows "is_current_session r' (w_id worker) token
    \<and> (\<forall>w. \<not> is_current_session r w token)
    \<and> (\<forall>stale. stale \<noteq> token \<longrightarrow> mark_disconnected r' (w_id worker) stale = r')"
proof -
  have tok: "token = next_session r" and now: "dget (sessions r0) (w_id worker) = Some token"
    using assms(2) by (auto simp: register_def Let_def)
  have "dget (sessions r') (w_id worker) = Some token" by (rule run_session [OF now assms(3,4)])
  moreover have "\<forall>w. \<not> is_current_session r w token"
    using assms(1) tok by (auto simp: registry_inv_def workers_ok_def is_current_session_def)
  ultimately show ?thesis by (auto simp: is_current_session_def mark_disconnected_def split: option.splits)
qed

theorem stale_disconnect_ignored_witness:
  "is_current_session (record_heartbeat (snd (register (snd (register (new_registry 30 {}) sample_worker [])) sample_worker [])) ''w'' 5) ''w'' 1
   \<and> mark_disconnected (record_heartbeat (snd (register (snd (register (new_registry 30 {}) sample_worker [])) sample_worker [])) ''w'' 5) ''w'' 0
       = record_heartbeat (snd (register (snd (register (new_registry 30 {}) sample_worker [])) sample_worker [])) ''w'' 5"
proof -
  let ?r = "snd (register (new_registry 30 {}) sample_worker [])"
  have inv: "registry_inv ?r" by (intro inv_register inv_new) simp_all
  have reg: "register ?r sample_worker [] = (1, snd (register ?r sample_worker []))"
    by (simp add: register_def new_registry_def)
  have id: "w_id sample_worker = ''w''" by (simp add: sample_worker_def)
  from stale_disconnect_ignored [OF inv reg, of "[Heartbeat ''w'' 5]" "record_heartbeat (snd (register ?r sample_worker [])) ''w'' 5"]
  show ?thesis by (simp add: id)
qed

section \<open>Draining\<close>

lemma step_drained:
  assumes "w \<in> drained r" "ev \<noteq> SetDraining w False" "registry_step r ev = Inr r'"
  shows "w \<in> drained r'"
  using assms
  by (cases ev) (auto simp: register_def record_held_generation_def record_heartbeat_def
      mark_disconnected_def set_draining_def reserve_def release_reservation_def
      increment_assignment_def decrement_assignment_def set_assignment_def Let_def
      split: option.splits if_splits sum.splits)

lemma run_drained:
  assumes "w \<in> drained r" "SetDraining w False \<notin> set evs" "run_steps registry_step r evs = Inr r'"
  shows "w \<in> drained r'"
  using assms
proof (induction evs arbitrary: r)
  case (Cons ev evs)
  then obtain r1 where r1: "registry_step r ev = Inr r1" by (auto split: sum.splits)
  have "ev \<noteq> SetDraining w False" using Cons.prems by auto
  then have "w \<in> drained r1" by (rule step_drained [OF Cons.prems(1) _ r1])
  with Cons r1 show ?case by auto
qed simp

lemma candidates_of_sound:
  "candidates_of r now ws = Inr cs \<Longrightarrow> c \<in> set cs \<Longrightarrow>
     \<exists>k worker n. (k, worker) \<in> set ws \<and> worker_status_at worker now (heartbeat_timeout r) = ONLINE \<and>
       registry_load r (w_id worker) = Inr n \<and>
       c = \<lparr>worker_id = w_id worker, c_drivers = drivers (w_capabilities worker),
            capacity = max_servers (w_capabilities worker), load = n,
            memory_capacity_mb = memory_bytes (resources (w_capabilities worker)) div (1024 * 1024),
            committed_memory_mb = committed_memory r (w_id worker) + reserved_memory_mb r (w_id worker),
            committed_cpu_millis = 0\<rparr>"
  by (induction ws arbitrary: cs) (fastforce split: if_splits sum.splits)+

lemma candidate_worker:
  assumes "registry_inv r" "candidates_for_placement r now = Inr cs" "c \<in> set cs"
  obtains worker where "dget (workers r) (worker_id c) = Some worker" "w_id worker = worker_id c"
    "worker_status_at worker now (heartbeat_timeout r) = ONLINE"
    "registry_load r (worker_id c) = Inr (load c)" "capacity c = max_servers (w_capabilities worker)"
    "memory_capacity_mb c = memory_bytes (resources (w_capabilities worker)) div (1024 * 1024)"
    "committed_memory_mb c = committed_memory r (worker_id c) + reserved_memory_mb r (worker_id c)"
proof -
  obtain k worker n where w: "(k, worker) \<in> set (workers r)" "worker_status_at worker now (heartbeat_timeout r) = ONLINE"
    "registry_load r (w_id worker) = Inr n"
    "c = \<lparr>worker_id = w_id worker, c_drivers = drivers (w_capabilities worker),
            capacity = max_servers (w_capabilities worker), load = n,
            memory_capacity_mb = memory_bytes (resources (w_capabilities worker)) div (1024 * 1024),
            committed_memory_mb = committed_memory r (w_id worker) + reserved_memory_mb r (w_id worker),
            committed_cpu_millis = 0\<rparr>"
    using candidates_of_sound assms(2,3) unfolding candidates_for_placement_def by blast
  have wf: "dwf (workers r)" using assms(1) by (simp add: registry_inv_def dicts_wf_def)
  then have "dget (workers r) k = Some worker" using w(1) by (simp add: dwf_def)
  moreover from this have "w_id worker = k" using assms(1) by (simp add: registry_inv_def workers_ok_def)
  ultimately show thesis using w by (intro that [of worker]) simp_all
qed

text \<open>
  The drain intent outlives connections. Once a known worker is drained, then after any operations
  that do not clear its drain, re-registrations of the worker included, the registry offers no
  placement candidate with that id.
\<close>

theorem drained_never_candidate:
  assumes "registry_inv r" "set_draining r w True = (True, r0)" "list_all event_ok evs"
    "SetDraining w False \<notin> set evs" "run_steps registry_step r0 evs = Inr r'"
    "candidates_for_placement r' now = Inr cs"
  shows "w \<notin> worker_id ` set cs"
proof
  assume "w \<in> worker_id ` set cs"
  then obtain c where c: "c \<in> set cs" "worker_id c = w" by auto
  have inv0: "registry_inv r0" using inv_draining [OF assms(1), of w True] assms(2) by simp
  have "w \<in> drained r0" using assms(2) by (auto simp: set_draining_def split: option.splits)
  then have dr: "w \<in> drained r'" by (rule run_drained [OF _ assms(4,5)])
  have inv: "registry_inv r'" by (rule registry_sys.run_inv [OF inv0 assms(3,5)])
  obtain worker where "dget (workers r') w = Some worker"
    and on: "worker_status_at worker now (heartbeat_timeout r') = ONLINE"
    using candidate_worker [OF inv assms(6) c(1)] c(2) by metis
  then have "w_draining worker" using registry_inv_draining [OF inv _ dr] by simp
  then show False using on draining_not_online by blast
qed

theorem drained_never_candidate_witness:
  "candidates_for_placement (snd (register (new_registry 30 {}) sample_worker [])) 0 \<noteq> Inr []
   \<and> (\<exists>r' cs. run_steps registry_step (snd (set_draining (snd (register (new_registry 30 {}) sample_worker [])) ''w'' True))
          [Disconnected ''w'' 0, Register sample_worker []] = Inr r'
        \<and> candidates_for_placement r' 0 = Inr cs \<and> ''w'' \<notin> worker_id ` set cs)"
proof -
  let ?r = "snd (register (new_registry 30 {}) sample_worker [])"
  let ?evs = "[Disconnected ''w'' 0, Register sample_worker []]"
  have inv: "registry_inv ?r" by (intro inv_register inv_new) simp_all
  have drain: "set_draining ?r ''w'' True = (True, snd (set_draining ?r ''w'' True))"
    by (simp add: set_draining_def register_def new_registry_def sample_worker_def)
  obtain r' where run: "run_steps registry_step (snd (set_draining ?r ''w'' True)) ?evs = Inr r'"
    by simp
  have cand: "candidates_for_placement r' 0 = Inr []"
    using run by (auto simp: candidates_for_placement_def register_def new_registry_def sample_worker_def
        set_draining_def mark_disconnected_def Let_def worker_status_at_def start_draining_def)
  have on: "candidates_for_placement ?r 0 \<noteq> Inr []"
    by (simp add: candidates_for_placement_def register_def new_registry_def sample_worker_def
        worker_status_at_def registry_load_def dsubscript_def dset_missing_def)
  from drained_never_candidate [OF inv drain, of ?evs r' 0 "[]"] show ?thesis
    using run cand on by auto
qed

end
