(* ===== verification/Control_Plane.thy ===== *)
theory Control_Plane
  imports Registry_Props
begin

text \<open>
  The adapter that binds the server lifecycle to the fleet (\<open>servers/adapters/control_plane.py\<close>):
  placement with its reservation in one step, the liveness and the held-working-set questions. The
  fleet's worker ids and the servers' worker ids are the same canonical UUID strings, so the
  conversions between them are the identity.
\<close>

section \<open>The adapter's operations\<close>

definition with_committed_cpu :: "candidate \<Rightarrow> (worker_id, int) dict \<Rightarrow> candidate" where
  "with_committed_cpu c committed_by_id =
     (case dget committed_by_id (worker_id c) of
        None \<Rightarrow> c
      | Some cpu \<Rightarrow> c\<lparr>committed_cpu_millis := cpu\<rparr>)"

definition cp_place ::
  "worker_registry \<Rightarrow> instant \<Rightarrow> server_id \<Rightarrow> int option \<Rightarrow> (worker_id, int) dict \<Rightarrow>
     py_error + (worker_id option \<times> worker_registry)" where
  "cp_place r now s memory_limit_mb committed_by_worker =
     (case candidates_for_placement r now of
        Inl e \<Rightarrow> Inl e
      | Inr cs \<Rightarrow>
          (case place (map (\<lambda>c. with_committed_cpu c committed_by_worker) cs) CONTAINER 1 memory_limit_mb of
             Inl e \<Rightarrow> Inl e
           | Inr NoEligibleWorker \<Rightarrow> Inr (None, r)
           | Inr (Chosen w) \<Rightarrow>
               (case reserve r w s (case memory_limit_mb of None \<Rightarrow> 0 | Some m \<Rightarrow> m) of
                  Inl e \<Rightarrow> Inl e
                | Inr r' \<Rightarrow> Inr (Some w, r'))))"

definition is_worker_connected :: "worker_registry \<Rightarrow> instant \<Rightarrow> worker_id \<Rightarrow> py_error + bool" where
  "is_worker_connected r now w =
     (case get_worker r w now of
        Inl e \<Rightarrow> Inl e
      | Inr None \<Rightarrow> Inr False
      | Inr (Some snap) \<Rightarrow> Inr (snap_status snap \<in> {ONLINE, DRAINING}))"

definition holds_fresh_working_set :: "worker_registry \<Rightarrow> worker_id \<Rightarrow> server_id \<Rightarrow> int \<Rightarrow> bool" where
  "holds_fresh_working_set r w s store_generation =
     (case held_generation r w s of None \<Rightarrow> False | Some g \<Rightarrow> g \<ge> store_generation)"

lemma is_worker_connected_eq:
  assumes "registry_inv r"
  shows "is_worker_connected r now w =
    Inr (case dget (workers r) w of
           None \<Rightarrow> False
         | Some wk \<Rightarrow> worker_status_at wk now (heartbeat_timeout r) \<noteq> OFFLINE)"
proof (cases "dget (workers r) w")
  case None
  then show ?thesis by (simp add: is_worker_connected_def get_worker_def)
next
  case (Some wk)
  then have id: "w_id wk = w" using assms by (simp add: registry_inv_def workers_ok_def)
  obtain com where "dget (committed r) w = Some com"
    using Some keys_agreeD(1) [OF registry_invD(1) [OF assms], of w] by auto
  then show ?thesis using Some id
    by (cases "worker_status_at wk now (heartbeat_timeout r)")
      (simp_all add: is_worker_connected_def get_worker_def snapshot_of_def registry_load_def dsubscript_Some)
qed

section \<open>The slots of a worker\<close>

text \<open>
  What a worker has promised: one slot per committed assignment and per reservation, and the memory
  they declare. The protocol of a placement is to place (which reserves), and then to confirm or to
  release; a stop departs. Liveness and drain events interleave freely.
\<close>

definition used_slots :: "worker_registry \<Rightarrow> worker_id \<Rightarrow> int" where
  "used_slots r w = int (length (dget_default (committed r) w [])) + int (length (dget_default (reserved r) w []))"

definition used_memory :: "worker_registry \<Rightarrow> worker_id \<Rightarrow> int" where
  "used_memory r w = committed_memory r w + reserved_memory_mb r w"

datatype slot_event =
    PlaceServer instant server_id "int option" "(worker_id, int) dict"
  | ConfirmPlacement worker_id server_id
  | ReleasePlacement worker_id server_id
  | DepartServer worker_id server_id
  | WorkerBeat worker_id instant
  | WorkerLost worker_id int
  | WorkerDrain worker_id bool

fun slot_step :: "worker_registry \<Rightarrow> slot_event \<Rightarrow> py_error + worker_registry" where
  "slot_step r (PlaceServer now s m cpu) =
     (case cp_place r now s m cpu of Inl e \<Rightarrow> Inl e | Inr (w, r') \<Rightarrow> Inr r')"
| "slot_step r (ConfirmPlacement w s) = increment_assignment r w s"
| "slot_step r (ReleasePlacement w s) = Inr (release_reservation r w s)"
| "slot_step r (DepartServer w s) = decrement_assignment r w s"
| "slot_step r (WorkerBeat w t) = Inr (record_heartbeat r w t)"
| "slot_step r (WorkerLost w n) = Inr (mark_disconnected r w n)"
| "slot_step r (WorkerDrain w b) = Inr (snd (set_draining r w b))"

fun slot_ok :: "slot_event \<Rightarrow> bool" where
  \<comment> \<open>a declared memory limit is not negative\<close>
  "slot_ok (PlaceServer now s m cpu) = (case m of None \<Rightarrow> True | Some n \<Rightarrow> 0 \<le> n)"
| "slot_ok _ = True"

definition host_memory :: "worker \<Rightarrow> int" where
  "host_memory wk = memory_bytes (resources (w_capabilities wk)) div (1024 * 1024)"

definition within_limits :: "worker_registry \<Rightarrow> bool" where
  "within_limits r \<longleftrightarrow> (\<forall>w wk. dget (workers r) w = Some wk \<longrightarrow>
     (0 < max_servers (w_capabilities wk) \<longrightarrow> used_slots r w \<le> max_servers (w_capabilities wk)) \<and>
     (host_memory wk \<noteq> 0 \<longrightarrow> used_memory r w \<le> max 0 (host_memory wk - reserve_mb (host_memory wk))))"

definition ledger_nonneg :: "ledger \<Rightarrow> bool" where
  "ledger_nonneg d \<longleftrightarrow> (\<forall>s m. dget d s = Some m \<longrightarrow> 0 \<le> m)"

definition slots_inv :: "worker_registry \<Rightarrow> bool" where
  "slots_inv r \<longleftrightarrow> registry_inv r \<and> within_limits r \<and>
     inner_all ledger_nonneg (committed r) \<and> inner_all ledger_nonneg (reserved r)"

section \<open>Every step of the protocol stays within the limits\<close>

text \<open>A step that only lowers what a worker has promised, and keeps its capabilities, stays within the limits.\<close>

lemma within_limits_mono:
  assumes "within_limits r"
    and "\<And>w wk'. dget (workers r') w = Some wk' \<Longrightarrow>
      \<exists>wk. dget (workers r) w = Some wk \<and> w_capabilities wk' = w_capabilities wk \<and>
        used_slots r' w \<le> used_slots r w \<and> used_memory r' w \<le> used_memory r w"
  shows "within_limits r'"
  unfolding within_limits_def
proof (intro allI impI)
  fix w wk'
  assume "dget (workers r') w = Some wk'"
  from assms(2) [OF this] obtain wk where "dget (workers r) w = Some wk"
    and cap: "w_capabilities wk' = w_capabilities wk"
    and le: "used_slots r' w \<le> used_slots r w" "used_memory r' w \<le> used_memory r w" by blast
  with assms(1) have "0 < max_servers (w_capabilities wk) \<longrightarrow> used_slots r w \<le> max_servers (w_capabilities wk)"
    "host_memory wk \<noteq> 0 \<longrightarrow> used_memory r w \<le> max 0 (host_memory wk - reserve_mb (host_memory wk))"
    by (auto simp: within_limits_def)
  with le cap show "(0 < max_servers (w_capabilities wk') \<longrightarrow> used_slots r' w \<le> max_servers (w_capabilities wk')) \<and>
     (host_memory wk' \<noteq> 0 \<longrightarrow> used_memory r' w \<le> max 0 (host_memory wk' - reserve_mb (host_memory wk')))"
    by (auto simp: host_memory_def)
qed

lemma ledger_nonneg_dset: "ledger_nonneg d \<Longrightarrow> 0 \<le> m \<Longrightarrow> ledger_nonneg (dset s m d)"
  by (auto simp: ledger_nonneg_def)

lemma ledger_nonneg_dpop: "ledger_nonneg d \<Longrightarrow> ledger_nonneg (dpop s d)"
  by (auto simp: ledger_nonneg_def)

lemma sum_dset_le:
  "ledger_nonneg d \<Longrightarrow> sum_list (dvalues (dset s m d)) \<le> sum_list (dvalues d) + m"
  by (cases "dget d s") (auto simp: sum_list_dvalues_dset_absent sum_list_dvalues_dset_present ledger_nonneg_def)

lemma sum_dpop_le:
  "dwf d \<Longrightarrow> ledger_nonneg d \<Longrightarrow> sum_list (dvalues (dpop s d)) \<le> sum_list (dvalues d)"
  by (auto simp: sum_list_dvalues_dpop ledger_nonneg_def split: option.splits)

lemma slots_invD:
  assumes "slots_inv r"
  shows "registry_inv r" "within_limits r" "inner_all ledger_nonneg (committed r)"
    "inner_all ledger_nonneg (reserved r)"
  using assms by (simp_all add: slots_inv_def)

lemma slots_same_ledgers:
  assumes "slots_inv r" "registry_inv r'" "committed r' = committed r" "reserved r' = reserved r"
    "\<And>w wk'. dget (workers r') w = Some wk' \<Longrightarrow>
       \<exists>wk. dget (workers r) w = Some wk \<and> w_capabilities wk' = w_capabilities wk"
  shows "slots_inv r'"
proof -
  have "within_limits r'"
    using assms(3-5) by (intro within_limits_mono [OF slots_invD(2) [OF assms(1)]])
      (auto simp: used_slots_def used_memory_def committed_memory_def reserved_memory_mb_def)
  then show ?thesis using assms(1-4) by (simp add: slots_inv_def)
qed

lemma slots_worker_update:
  assumes "slots_inv r" "dget (workers r) w = Some wk" "w_capabilities wk' = w_capabilities wk"
    "registry_inv (r\<lparr>drained := dr, workers := dset w wk' (workers r)\<rparr>)"
  shows "slots_inv (r\<lparr>drained := dr, workers := dset w wk' (workers r)\<rparr>)"
  using assms by (intro slots_same_ledgers [OF assms(1,4)]) (auto split: if_splits)

lemma slots_beat: "slots_inv r \<Longrightarrow> slots_inv (record_heartbeat r w t)"
  using slots_worker_update [of r w _ _ "drained r"] inv_heartbeat [of r w t] slots_invD(1) [of r]
  by (auto simp: record_heartbeat_def split: option.splits)

lemma slots_lost: "slots_inv r \<Longrightarrow> slots_inv (mark_disconnected r w n)"
  using slots_worker_update [of r w _ _ "drained r"] inv_disconnected [of r w n] slots_invD(1) [of r]
  by (auto simp: mark_disconnected_def split: option.splits if_splits)

lemma slots_drain: "slots_inv r \<Longrightarrow> slots_inv (snd (set_draining r w b))"
  using slots_worker_update [of r w] inv_draining [of r w b] slots_invD(1) [of r]
  by (auto simp: set_draining_def split: option.splits if_splits)

lemma slots_release: "slots_inv r \<Longrightarrow> slots_inv (release_reservation r w s)"
proof (cases "dget (reserved r) w")
  case (Some rw)
  assume sl: "slots_inv r"
  let ?r' = "r\<lparr>reserved := dset w (dpop s rw) (reserved r)\<rparr>"
  have rw: "dwf rw" "ledger_nonneg rw" using sl Some
    by (auto dest: slots_invD registry_invD dicts_wf_inner inner_allD)
  have "within_limits ?r'"
  proof (rule within_limits_mono [OF slots_invD(2) [OF sl]])
    fix w' wk' assume "dget (workers ?r') w' = Some wk'"
    moreover have "used_slots ?r' w' \<le> used_slots r w'" "used_memory ?r' w' \<le> used_memory r w'"
      using rw Some length_dpop_le [of s rw] sum_dpop_le [OF rw]
      by (auto simp: used_slots_def used_memory_def committed_memory_def reserved_memory_mb_def dget_default_Some)
    ultimately show "\<exists>wk. dget (workers r) w' = Some wk \<and> w_capabilities wk' = w_capabilities wk \<and>
        used_slots ?r' w' \<le> used_slots r w' \<and> used_memory ?r' w' \<le> used_memory r w'" by simp
  qed
  moreover have "registry_inv ?r'" using inv_release [OF slots_invD(1) [OF sl], of w s] Some
    by (simp add: release_reservation_def)
  ultimately show ?thesis using sl Some rw
    by (auto simp: slots_inv_def release_reservation_def intro: inner_all_dset ledger_nonneg_dpop)
qed (simp add: release_reservation_def)

lemma slots_depart:
  assumes sl: "slots_inv r"
  shows "\<exists>r'. decrement_assignment r w s = Inr r' \<and> slots_inv r'"
proof -
  note inv = slots_invD(1) [OF sl]
  from registry_invD(1) [OF inv] show ?thesis
  proof (cases rule: keys_agree_cases [of r w])
    case absent
    then show ?thesis using sl by (simp add: decrement_assignment_def)
  next
    case (present wk com res conf dec ses hld)
    have com: "dwf com" "ledger_nonneg com" using sl present
      by (auto dest: slots_invD registry_invD dicts_wf_inner inner_allD)
    obtain r' where r': "decrement_assignment r w s = Inr r'" "registry_inv r'" using inv_decrement [OF inv] by blast
    then have eq: "r' = r\<lparr>committed := dset w (dpop s com) (committed r),
         confirmed_seq := dset w (dpop s conf) (confirmed_seq r),
         decremented_seq := dset w (dset s (next_seq r) dec) (decremented_seq r),
         next_seq := next_seq r + 1\<rparr>" by (simp add: decrement_eq [OF present(2,4,5)])
    have "within_limits r'"
    proof (rule within_limits_mono [OF slots_invD(2) [OF sl]])
      fix w' wk' assume "dget (workers r') w' = Some wk'"
      moreover have "used_slots r' w' \<le> used_slots r w'" "used_memory r' w' \<le> used_memory r w'"
        using com present length_dpop_le [of s com] sum_dpop_le [OF com] eq
        by (auto simp: used_slots_def used_memory_def committed_memory_def reserved_memory_mb_def dget_default_Some)
      ultimately show "\<exists>wk. dget (workers r) w' = Some wk \<and> w_capabilities wk' = w_capabilities wk \<and>
        used_slots r' w' \<le> used_slots r w' \<and> used_memory r' w' \<le> used_memory r w'" by (simp add: eq)
    qed
    then show ?thesis using r' sl com eq
      by (auto simp: slots_inv_def intro: inner_all_dset ledger_nonneg_dpop)
  qed
qed

lemma slots_confirm:
  assumes sl: "slots_inv r"
  shows "\<exists>r'. increment_assignment r w s = Inr r' \<and> slots_inv r'"
proof -
  note inv = slots_invD(1) [OF sl]
  from registry_invD(1) [OF inv] show ?thesis
  proof (cases rule: keys_agree_cases [of r w])
    case absent
    then show ?thesis using sl by (simp add: increment_assignment_def)
  next
    case (present wk com res conf dec ses hld)
    have wf: "dwf com" "ledger_nonneg com" "dwf res" "ledger_nonneg res" using sl present
      by (auto dest: slots_invD registry_invD dicts_wf_inner inner_allD)
    show ?thesis
    proof (cases "dget res s")
      case None
      then show ?thesis using sl by (simp add: increment_eq [OF present(2,3,4)])
    next
      case (Some m)
      obtain r' where r': "increment_assignment r w s = Inr r'" "registry_inv r'" using inv_increment [OF inv] by blast
      then have eq: "r' = r\<lparr>reserved := dset w (dpop s res) (reserved r),
         committed := dset w (dset s m com) (committed r),
         confirmed_seq := dset w (dset s (next_seq r) conf) (confirmed_seq r),
         next_seq := next_seq r + 1\<rparr>" using Some by (simp add: increment_eq [OF present(2,3,4)])
      have m: "0 \<le> m" using Some wf by (auto simp: ledger_nonneg_def)
      obtain n where "length res = Suc n" using Some by (cases res) auto
      then have len: "int (length (dset s m com)) + int (length (dpop s res)) \<le> int (length com) + int (length res)"
        using Some by (simp add: length_dset length_dpop [OF wf(3)])
      have sum: "sum_list (dvalues (dset s m com)) + sum_list (dvalues (dpop s res))
          \<le> sum_list (dvalues com) + sum_list (dvalues res)"
        using sum_dset_le [OF wf(2), of s m] Some wf(3) by (simp add: sum_list_dvalues_dpop)
      have "within_limits r'"
      proof (rule within_limits_mono [OF slots_invD(2) [OF sl]])
        fix w' wk' assume "dget (workers r') w' = Some wk'"
        moreover have "used_slots r' w' \<le> used_slots r w'" "used_memory r' w' \<le> used_memory r w'"
          using present len sum eq
          by (auto simp: used_slots_def used_memory_def committed_memory_def reserved_memory_mb_def dget_default_Some)
        ultimately show "\<exists>wk. dget (workers r) w' = Some wk \<and> w_capabilities wk' = w_capabilities wk \<and>
          used_slots r' w' \<le> used_slots r w' \<and> used_memory r' w' \<le> used_memory r w'" by (simp add: eq)
      qed
      then show ?thesis using r' sl wf eq m
        by (auto simp: slots_inv_def intro: inner_all_dset ledger_nonneg_dpop ledger_nonneg_dset)
    qed
  qed
qed

lemma with_committed_cpu_fields [simp]:
  "worker_id (with_committed_cpu c d) = worker_id c" "capacity (with_committed_cpu c d) = capacity c"
  "load (with_committed_cpu c d) = load c" "c_drivers (with_committed_cpu c d) = c_drivers c"
  "memory_capacity_mb (with_committed_cpu c d) = memory_capacity_mb c"
  "committed_memory_mb (with_committed_cpu c d) = committed_memory_mb c"
  by (simp_all add: with_committed_cpu_def split: option.splits)

lemma candidates_total:
  assumes "registry_inv r"
  shows "\<exists>cs. candidates_for_placement r now = Inr cs"
proof -
  have "\<forall>(k, wk) \<in> set ws. \<exists>n. registry_load r (w_id wk) = Inr n \<Longrightarrow> \<exists>cs. candidates_of r now ws = Inr cs" for ws
    by (induction ws) auto
  moreover have "\<exists>n. registry_load r (w_id wk) = Inr n" if "(k, wk) \<in> set (workers r)" for k wk
  proof -
    have "dget (workers r) k = Some wk" using that assms by (simp add: registry_inv_def dicts_wf_def dwf_def)
    then have "w_id wk = k" "dget (committed r) k \<noteq> None"
      using assms keys_agreeD(1) [OF registry_invD(1) [OF assms], of k]
      by (auto simp: registry_inv_def workers_ok_def)
    then show ?thesis by (auto simp: registry_load_def dsubscript_Some)
  qed
  ultimately show ?thesis unfolding candidates_for_placement_def by fastforce
qed

lemma slots_reserve:
  assumes sl: "slots_inv r" and w: "dget (workers r) w = Some wk" and m: "0 \<le> m"
    and slots: "0 < max_servers (w_capabilities wk) \<longrightarrow> used_slots r w + 1 \<le> max_servers (w_capabilities wk)"
    and mem: "host_memory wk \<noteq> 0 \<and> m \<noteq> 0 \<longrightarrow> used_memory r w + m \<le> host_memory wk - reserve_mb (host_memory wk)"
  shows "\<exists>r'. reserve r w s m = Inr r' \<and> slots_inv r'"
proof -
  note inv = slots_invD(1) [OF sl]
  obtain com res where cr: "dget (committed r) w = Some com" "dget (reserved r) w = Some res"
    using w keys_agreeD(1,2) [OF registry_invD(1) [OF inv], of w] by auto
  have res: "ledger_nonneg res" using sl cr by (auto dest: slots_invD inner_allD)
  let ?r' = "r\<lparr>reserved := dset w (dset s m res) (reserved r)\<rparr>"
  have eq: "reserve r w s m = Inr ?r'" by (rule reserve_eq [OF cr])
  have "registry_inv ?r'" using inv_reserve [OF inv, of w s m] eq by simp
  moreover have "used_slots ?r' w \<le> used_slots r w + 1" "used_memory ?r' w \<le> used_memory r w + m"
    using cr sum_dset_le [OF res, of s m]
    by (auto simp: used_slots_def used_memory_def committed_memory_def reserved_memory_mb_def
        dget_default_Some length_dset)
  then have "within_limits ?r'" using sl w slots mem m
    unfolding slots_inv_def within_limits_def
    by (auto simp: used_slots_def used_memory_def committed_memory_def reserved_memory_mb_def split: if_splits) fastforce+
  moreover have "inner_all ledger_nonneg (reserved ?r')" using sl res m
    by (auto simp: slots_inv_def intro: inner_all_dset ledger_nonneg_dset)
  ultimately show ?thesis using sl eq by (auto simp: slots_inv_def)
qed

lemma slots_place:
  assumes sl: "slots_inv r" and ok: "slot_ok (PlaceServer now s m cpu)"
  shows "\<exists>w r'. cp_place r now s m cpu = Inr (w, r') \<and> slots_inv r'"
proof -
  note inv = slots_invD(1) [OF sl]
  obtain cs where cs: "candidates_for_placement r now = Inr cs" using candidates_total [OF inv] by blast
  let ?cs = "map (\<lambda>c. with_committed_cpu c cpu) cs"
  obtain p where p: "place ?cs CONTAINER 1 m = Inr p" using place_total [of 1 ?cs CONTAINER m] by auto
  show ?thesis
  proof (cases p)
    case NoEligibleWorker
    then show ?thesis using sl cs p by (simp add: cp_place_def)
  next
    case (Chosen w)
    then have "\<exists>c \<in> set ?cs. worker_id c = w \<and> can_host c CONTAINER 1 m = Inr True"
      using p place_iff [of 1 ?cs CONTAINER m w] by fastforce
    then obtain c where c: "c \<in> set cs" "worker_id c = w"
      and host: "can_host (with_committed_cpu c cpu) CONTAINER 1 m = Inr True" by auto
    obtain wk where wk: "dget (workers r) w = Some wk" and ld: "registry_load r w = Inr (load c)"
      and cap: "capacity c = max_servers (w_capabilities wk)" "memory_capacity_mb c = host_memory wk"
      and mem: "committed_memory_mb c = used_memory r w"
      using candidate_worker [OF inv cs c(1)] c(2) unfolding host_memory_def used_memory_def by metis
    have used: "load c = used_slots r w"
      using ld by (auto simp: registry_load_def used_slots_def dget_default_def dsubscript_def split: option.splits)
    let ?m = "case m of None \<Rightarrow> 0 | Some n \<Rightarrow> n"
    have "\<exists>r'. reserve r w s ?m = Inr r' \<and> slots_inv r'"
    proof (rule slots_reserve [OF sl wk])
      show "0 \<le> ?m" using ok by (simp split: option.splits)
      show "0 < max_servers (w_capabilities wk) \<longrightarrow> used_slots r w + 1 \<le> max_servers (w_capabilities wk)"
        using host by (auto simp: can_host_def cap used split: if_splits)
      show "host_memory wk \<noteq> 0 \<and> ?m \<noteq> 0 \<longrightarrow> used_memory r w + ?m \<le> host_memory wk - reserve_mb (host_memory wk)"
        using host by (auto simp: can_host_def fits_memory_def cap mem split: if_splits option.splits)
    qed
    then show ?thesis using cs p Chosen by (auto simp: cp_place_def)
  qed
qed

lemma slot_step_safe: "slots_inv r \<Longrightarrow> slot_ok ev \<Longrightarrow> \<exists>r'. slot_step r ev = Inr r' \<and> slots_inv r'"
proof (cases ev)
  case (PlaceServer now s m cpu)
  assume "slots_inv r" "slot_ok ev"
  then obtain w r' where "cp_place r now s m cpu = Inr (w, r')" "slots_inv r'"
    using slots_place [of r now s m cpu] PlaceServer by auto
  then show ?thesis by (simp add: PlaceServer)
qed (auto intro: slots_confirm slots_depart slots_release slots_beat slots_lost slots_drain)

interpretation slots_sys: safe_system slot_step slots_inv slot_ok
  by unfold_locales (rule slot_step_safe)

section \<open>Properties\<close>

text \<open>
  C15: no worker is oversubscribed. Start from a registry within its limits and interleave placements
  (each reserving in the step that decides), confirms, releases, departures, heartbeats, disconnects
  and drains in any order: no step raises, no worker with an advertised cap ever holds more committed
  and reserved servers than the cap, and no worker that advertises memory has promised more than its
  memory less the host reserve.
\<close>

theorem never_oversubscribed:
  assumes "slots_inv r" "list_all slot_ok evs"
  shows "\<exists>r'. run_steps slot_step r evs = Inr r' \<and>
    (\<forall>w wk. dget (workers r') w = Some wk \<longrightarrow>
       (0 < max_servers (w_capabilities wk) \<longrightarrow> used_slots r' w \<le> max_servers (w_capabilities wk)) \<and>
       (host_memory wk \<noteq> 0 \<longrightarrow> used_memory r' w \<le> max 0 (host_memory wk - reserve_mb (host_memory wk))))"
  using slots_sys.run_safe [OF assms] by (auto simp: slots_inv_def within_limits_def)

text \<open>Two starts race for the only slot of a worker: the second finds it reserved.\<close>

theorem never_oversubscribed_witness:
  "\<exists>r'. run_steps slot_step (snd (register (new_registry 30 {}) sample_worker []))
          [PlaceServer 0 ''s1'' None [], PlaceServer 0 ''s2'' None [], ConfirmPlacement ''w'' ''s1''] = Inr r'
     \<and> used_slots r' ''w'' = 1"
proof -
  let ?r = "snd (register (new_registry 30 {}) sample_worker [])"
  let ?evs = "[PlaceServer 0 ''s1'' None [], PlaceServer 0 ''s2'' None [], ConfirmPlacement ''w'' ''s1'']"
  have "registry_inv ?r" by (intro inv_register inv_new) simp_all
  then have inv: "slots_inv ?r"
    by (auto simp: slots_inv_def within_limits_def register_def new_registry_def sample_worker_def
        used_slots_def used_memory_def host_memory_def committed_memory_def reserved_memory_mb_def
        dset_missing_def inner_all_def ledger_nonneg_def dvalues_def dget_default_def)
  obtain r' where run: "run_steps slot_step ?r ?evs = Inr r'"
    and le: "\<forall>w wk. dget (workers r') w = Some wk \<longrightarrow>
       (0 < max_servers (w_capabilities wk) \<longrightarrow> used_slots r' w \<le> max_servers (w_capabilities wk))"
    using never_oversubscribed [OF inv, of ?evs] by auto
  have "dget (workers r') ''w'' = Some sample_worker \<and> 1 \<le> used_slots r' ''w''"
    using run by (auto simp: register_def new_registry_def sample_worker_def cp_place_def
        candidates_for_placement_def worker_status_at_def registry_load_def dsubscript_def
        dset_missing_def place_def can_host_def fits_memory_def with_committed_cpu_def reserve_def
        inner_update_def increment_assignment_def used_slots_def dget_default_def)
  moreover have "max_servers (w_capabilities sample_worker) = 1" by (simp add: sample_worker_def)
  ultimately show ?thesis using run le by fastforce
qed

end
