(* ===== verification/Player_Groups.thy ===== *)
theory Player_Groups
  imports Prelude
begin

text \<open>
  Player groups and the files they feed (\<open>servers/domain/groups.py\<close>, \<open>_render\<close> of
  \<open>servers/application/groups.py\<close>): the union of the groups attached to a server, ordered by uuid, and
  its rendering as \<open>ops.json\<close> or \<open>whitelist.json\<close> with \<open>json.dumps(entries, indent=2)\<close>. Text is
  ASCII; \<open>json.dumps\<close> writes the control characters, the quote and the backslash as escapes.
\<close>

section \<open>Groups\<close>

datatype group_kind = OP | WHITELIST

fun target_file :: "group_kind \<Rightarrow> string" where
  "target_file OP = ''ops.json''"
| "target_file WHITELIST = ''whitelist.json''"

datatype group_error = InvalidGroupNameError | InvalidPlayerError

definition mk_group_name :: "string \<Rightarrow> group_error + string" where
  "mk_group_name v = (let trimmed = strip v in if trimmed = [] then Inl InvalidGroupNameError else Inr trimmed)"

record player =
  p_uuid :: uuid
  username :: string

definition mk_player :: "uuid \<Rightarrow> string \<Rightarrow> group_error + player" where
  "mk_player u name =
     (let trimmed = strip name
      in if trimmed = [] then Inl InvalidPlayerError else Inr \<lparr>p_uuid = u, username = trimmed\<rparr>)"

record player_group =
  g_id :: uuid
  g_community :: uuid
  g_name :: string
  g_kind :: group_kind
  players :: "player list"

fun replace_player :: "player list \<Rightarrow> player \<Rightarrow> player list" where
  "replace_player [] p = [p]"
| "replace_player (q # qs) p = (if p_uuid q = p_uuid p then p # qs else q # replace_player qs p)"

definition upsert_player :: "player_group \<Rightarrow> player \<Rightarrow> player_group" where
  "upsert_player g p = g\<lparr>players := replace_player (players g) p\<rparr>"

fun drop_player :: "player list \<Rightarrow> uuid \<Rightarrow> bool \<times> player list" where
  "drop_player [] u = (False, [])"
| "drop_player (q # qs) u =
     (if p_uuid q = u then (True, qs) else (let (b, r) = drop_player qs u in (b, q # r)))"

definition remove_player :: "player_group \<Rightarrow> uuid \<Rightarrow> bool \<times> player_group" where
  "remove_player g u = (let (b, ps) = drop_player (players g) u in (b, g\<lparr>players := ps\<rparr>))"

record pending_group_sync =
  sync_kind :: group_kind
  token :: uuid

definition merge_players :: "player_group list \<Rightarrow> player list" where
  "merge_players groups =
     sort_key p_uuid
       (dvalues (fold (\<lambda>g by_uuid. fold (\<lambda>p. dset_missing (p_uuid p) p) (players g) by_uuid) groups []))"

section \<open>Rendering\<close>

datatype entry_value = EStr string | EInt int | EBool bool

type_synonym entry = "(string \<times> entry_value) list"

definition DEFAULT_OP_LEVEL :: int where
  "DEFAULT_OP_LEVEL = 4"

definition render_ops_json :: "player list \<Rightarrow> entry list" where
  "render_ops_json ps =
     map (\<lambda>p. [(''uuid'', EStr (p_uuid p)), (''name'', EStr (username p)),
               (''level'', EInt DEFAULT_OP_LEVEL), (''bypassesPlayerLimit'', EBool False)]) ps"

definition render_whitelist_json :: "player list \<Rightarrow> entry list" where
  "render_whitelist_json ps =
     map (\<lambda>p. [(''uuid'', EStr (p_uuid p)), (''name'', EStr (username p))]) ps"

definition hex_digit :: "nat \<Rightarrow> char" where
  "hex_digit n = char_of (if n < 10 then 48 + n else 87 + n)"

definition newline :: char where
  "newline = CHR 0x0A"

definition escape_char :: "char \<Rightarrow> string" where
  "escape_char c =
     (if c = CHR 0x22 then [CHR 0x5C, CHR 0x22]
      else if c = CHR 0x5C then [CHR 0x5C, CHR 0x5C]
      else if c = CHR 0x0A then [CHR 0x5C, CHR ''n'']
      else if c = CHR 0x0D then [CHR 0x5C, CHR ''r'']
      else if c = CHR 0x09 then [CHR 0x5C, CHR ''t'']
      else if c = CHR 0x0C then [CHR 0x5C, CHR ''f'']
      else if c = CHR 0x08 then [CHR 0x5C, CHR ''b'']
      else if (of_char c :: nat) < 32
           then [CHR 0x5C, CHR ''u'', CHR ''0'', CHR ''0'',
                 hex_digit (of_char c div 16), hex_digit (of_char c mod 16)]
      else [c])"

definition json_string :: "string \<Rightarrow> string" where
  "json_string s = [CHR 0x22] @ concat (map escape_char s) @ [CHR 0x22]"

fun digits :: "nat \<Rightarrow> string" where
  "digits n = (if n < 10 then [char_of (48 + n)] else digits (n div 10) @ [char_of (48 + n mod 10)])"

declare digits.simps [simp del]

fun json_value :: "entry_value \<Rightarrow> string" where
  "json_value (EStr s) = json_string s"
| "json_value (EInt n) = (if n < 0 then CHR ''-'' # digits (nat (- n)) else digits (nat n))"
| "json_value (EBool b) = (if b then ''true'' else ''false'')"

fun join_with :: "string \<Rightarrow> string list \<Rightarrow> string" where
  "join_with sep [] = []"
| "join_with sep [x] = x"
| "join_with sep (x # y # ys) = x @ sep @ join_with sep (y # ys)"

definition pad :: "nat \<Rightarrow> string" where
  "pad n = newline # replicate n CHR 0x20"

definition json_object :: "entry \<Rightarrow> string" where
  "json_object e =
     (if e = [] then ''{}''
      else ''{'' @ pad 4 @ join_with ('','' @ pad 4) (map (\<lambda>(k, v). json_string k @ '': '' @ json_value v) e)
             @ pad 2 @ ''}'')"

definition json_dumps :: "entry list \<Rightarrow> string" where
  \<comment> \<open>\<open>json.dumps(entries, indent=2)\<close>\<close>
  "json_dumps es =
     (if es = [] then ''[]''
      else ''['' @ pad 2 @ join_with ('','' @ pad 2) (map json_object es) @ pad 0 @ '']'')"

definition render_group_file :: "group_kind \<Rightarrow> player list \<Rightarrow> string" where
  "render_group_file k ps =
     json_dumps (case k of OP \<Rightarrow> render_ops_json ps | WHITELIST \<Rightarrow> render_whitelist_json ps) @ [newline]"

section \<open>The merged players\<close>

abbreviation all_players :: "player_group list \<Rightarrow> player list" where
  "all_players gs \<equiv> concat (map players gs)"

definition first_with :: "player list \<Rightarrow> uuid \<Rightarrow> player option" where
  "first_with ps u = List.find (\<lambda>p. p_uuid p = u) ps"

lemma merge_fold_concat:
  "fold (\<lambda>g d. fold (\<lambda>p. dset_missing (p_uuid p) p) (players g) d) gs d =
     fold (\<lambda>p. dset_missing (p_uuid p) p) (all_players gs) d"
  by (induction gs arbitrary: d) simp_all

lemma dget_merge_fold:
  "dget (fold (\<lambda>p. dset_missing (p_uuid p) p) ps d) u =
     (case dget d u of Some p \<Rightarrow> Some p | None \<Rightarrow> first_with ps u)"
  by (induction ps arbitrary: d) (auto simp: first_with_def split: option.splits)

lemma dwf_merge_fold: "dwf d \<Longrightarrow> dwf (fold (\<lambda>p. dset_missing (p_uuid p) p) ps d)"
  by (induction ps arbitrary: d) simp_all

lemma first_with_uuid: "first_with ps u = Some p \<Longrightarrow> p_uuid p = u \<and> p \<in> set ps"
  by (auto simp: first_with_def find_Some_iff)

lemma keyed_values:
  assumes "dwf d" "\<And>u p. dget d u = Some p \<Longrightarrow> p_uuid p = u"
  shows "map p_uuid (dvalues d) = map fst d"
proof -
  have "p_uuid (snd x) = fst x" if "x \<in> set d" for x
    using assms(2) [of "fst x" "snd x"] map_of_is_SomeI [of d "fst x" "snd x"] assms(1) that
    by (simp add: dwf_def)
  then show ?thesis by (simp add: dvalues_def)
qed

lemma merge_players_props:
  shows "sorted (map p_uuid (merge_players gs))"
    and "distinct (map p_uuid (merge_players gs))"
    and "p \<in> set (merge_players gs) \<longleftrightarrow> first_with (all_players gs) (p_uuid p) = Some p"
proof -
  define d where "d = fold (\<lambda>p. dset_missing (p_uuid p) p) (all_players gs) []"
  have m: "merge_players gs = sort_key p_uuid (dvalues d)"
    by (simp add: merge_players_def merge_fold_concat d_def)
  have wf: "dwf d" by (simp add: d_def dwf_merge_fold)
  have get: "dget d u = first_with (all_players gs) u" for u by (simp add: d_def dget_merge_fold)
  have key: "map p_uuid (dvalues d) = map fst d"
    using wf by (rule keyed_values) (auto simp: get dest: first_with_uuid)
  show "sorted (map p_uuid (merge_players gs))" by (simp add: m)
  have "distinct (map p_uuid (dvalues d))" using wf key by (simp add: dwf_def)
  then show "distinct (map p_uuid (merge_players gs))" by (simp add: m distinct_map)
  have "p \<in> set (dvalues d) \<longleftrightarrow> dget d (p_uuid p) = Some p"
  proof
    assume "p \<in> set (dvalues d)"
    then obtain u where u: "(u, p) \<in> set d" by (auto simp: dvalues_def)
    then have "dget d u = Some p" using wf by (simp add: dwf_def)
    then show "dget d (p_uuid p) = Some p" using get first_with_uuid by metis
  next
    assume "dget d (p_uuid p) = Some p"
    then show "p \<in> set (dvalues d)" by (force simp: dvalues_def dest: map_of_SomeD)
  qed
  then show "p \<in> set (merge_players gs) \<longleftrightarrow> first_with (all_players gs) (p_uuid p) = Some p"
    by (simp add: m get)
qed

end
