(* ===== verification/Prog.thy ===== *)
theory Prog
  imports Prelude
begin

text \<open>
  Coroutines that talk to ports. An \<open>async\<close> function is a tree: it returns, raises, or makes a call and
  goes on with the answer, an exception included. Nothing is assumed of what happens between a call and
  its answer, so a statement about every run of a tree holds under any interleaving with other tasks.
  \<open>wpm\<close> computes whether every run satisfies a postcondition on what a monitor saw; \<open>exec\<close> runs a tree against a handler that
  owns a state.
\<close>

section \<open>Programs\<close>

datatype ('c, 'r, 'e, 'a) prog =
    Return 'a
  | Raise 'e
  | Call 'c "'r \<Rightarrow> ('c, 'r, 'e, 'a) prog"

primrec bnd :: "('c, 'r, 'e, 'a) prog \<Rightarrow> ('a \<Rightarrow> ('c, 'r, 'e, 'b) prog) \<Rightarrow> ('c, 'r, 'e, 'b) prog" where
  "bnd (Return x) f = f x"
| "bnd (Raise e) f = Raise e"
| "bnd (Call c k) f = Call c (\<lambda>r. bnd (k r) f)"

primrec catch :: "('c, 'r, 'e, 'a) prog \<Rightarrow> ('e \<Rightarrow> ('c, 'r, 'e, 'a) prog) \<Rightarrow> ('c, 'r, 'e, 'a) prog" where
  \<comment> \<open>\<open>try: p except BaseException as e: h(e)\<close>\<close>
  "catch (Return x) h = Return x"
| "catch (Raise e) h = h e"
| "catch (Call c k) h = Call c (\<lambda>r. catch (k r) h)"

definition attempt :: "('c, 'r, 'e, 'a) prog \<Rightarrow> ('c, 'r, 'e, 'e + 'a) prog" where
  \<comment> \<open>the result or the exception as a value\<close>
  "attempt p = catch (bnd p (\<lambda>x. Return (Inr x))) (\<lambda>e. Return (Inl e))"

definition on_error :: "('c, 'r, 'e, 'a) prog \<Rightarrow> ('c, 'r, 'e, 'u) prog \<Rightarrow> ('c, 'r, 'e, 'a) prog" where
  \<comment> \<open>\<open>try: p except: h; raise\<close>\<close>
  "on_error p h = catch p (\<lambda>e. bnd h (\<lambda>_. Raise e))"

definition finally_do :: "('c, 'r, 'e, 'a) prog \<Rightarrow> ('c, 'r, 'e, 'u) prog \<Rightarrow> ('c, 'r, 'e, 'a) prog" where
  \<comment> \<open>\<open>try: p finally: h\<close>: an exception of \<open>h\<close> replaces the result\<close>
  "finally_do p h = bnd (attempt p) (\<lambda>r. bnd h (\<lambda>_. case r of Inl e \<Rightarrow> Raise e | Inr x \<Rightarrow> Return x))"

definition when_do :: "bool \<Rightarrow> ('c, 'r, 'e, unit) prog \<Rightarrow> ('c, 'r, 'e, unit) prog" where
  "when_do b p = (if b then p else Return ())"

primrec for_each :: "'x list \<Rightarrow> ('x \<Rightarrow> ('c, 'r, 'e, 'b) prog) \<Rightarrow> ('c, 'r, 'e, 'b list) prog" where
  "for_each [] f = Return []"
| "for_each (x # xs) f = bnd (f x) (\<lambda>y. bnd (for_each xs f) (\<lambda>ys. Return (y # ys)))"

section \<open>Runs\<close>

type_synonym ('c, 'r) trace = "('c \<times> 'r) list"

text \<open>\<open>ok c r\<close> says that \<open>r\<close> has the shape of an answer to \<open>c\<close>.\<close>

inductive runs :: "('c \<Rightarrow> 'r \<Rightarrow> bool) \<Rightarrow> ('c, 'r, 'e, 'a) prog \<Rightarrow> ('c, 'r) trace \<Rightarrow> 'e + 'a \<Rightarrow> bool"
  for ok where
  returned: "runs ok (Return x) [] (Inr x)"
| raised: "runs ok (Raise e) [] (Inl e)"
| called: "ok c r \<Longrightarrow> runs ok (k r) t res \<Longrightarrow> runs ok (Call c k) ((c, r) # t) res"

inductive_cases runs_ReturnE: "runs ok (Return x) t res"
inductive_cases runs_RaiseE: "runs ok (Raise e) t res"
inductive_cases runs_CallE: "runs ok (Call c k) t res"

inductive_simps runs_Return [simp]: "runs ok (Return x) t res"
inductive_simps runs_Raise [simp]: "runs ok (Raise e) t res"
inductive_simps runs_Call: "runs ok (Call c k) t res"

lemma runs_bndE:
  assumes "runs ok (bnd p f) t res"
  obtains e where "runs ok p t (Inl e)" "res = Inl e"
  | u v x where "t = u @ v" "runs ok p u (Inr x)" "runs ok (f x) v res"
  using assms
proof (induction p arbitrary: t thesis)
  case (Return x)
  from Return.prems(2) [of "[]" t x] Return.prems(3) show ?case by simp
next
  case (Raise e)
  from Raise.prems(1) [of e] Raise.prems(3) show ?case by simp
next
  case (Call c k)
  obtain r t' where t: "t = (c, r) # t'" and ok: "ok c r" and run: "runs ok (bnd (k r) f) t' res"
    using Call.prems(3) by (auto simp: runs_Call)
  show ?case
  proof (rule Call.IH [of "k r" t'])
    fix e assume "runs ok (k r) t' (Inl e)" "res = Inl e"
    then show ?case using Call.prems(1) [of e] runs.called [where ok = ok and c = c and r = r and k = k] ok t by simp
  next
    fix u v x assume "t' = u @ v" "runs ok (k r) u (Inr x)" "runs ok (f x) v res"
    then show ?case using Call.prems(2) [of "(c, r) # u" v x] runs.called [where ok = ok and c = c and r = r and k = k] ok t by simp
  qed (use run in simp_all)
qed

lemma runs_attempt: "runs ok (attempt p) t res \<Longrightarrow> \<exists>r. res = Inr r \<and> runs ok p t r"
proof (induction p arbitrary: t)
  case (Call c k)
  then show ?case by (fastforce simp: attempt_def runs_Call)
qed (auto simp: attempt_def)

lemma runs_catchE:
  assumes "runs ok (catch p h) t (Inr y)"
  obtains "runs ok p t (Inr y)"
  | u v e where "t = u @ v" "runs ok p u (Inl e)" "runs ok (h e) v (Inr y)"
  using assms
proof (induction p arbitrary: t thesis)
  case (Return x)
  from Return.prems(1,3) show ?case by simp
next
  case (Raise e)
  from Raise.prems(2) [of "[]" t e] Raise.prems(3) show ?case by simp
next
  case (Call c k)
  obtain r t' where t: "t = (c, r) # t'" and ok: "ok c r" and run: "runs ok (catch (k r) h) t' (Inr y)"
    using Call.prems(3) by (auto simp: runs_Call)
  show ?case
  proof (rule Call.IH [of "k r" t'])
    assume "runs ok (k r) t' (Inr y)"
    then show ?case using Call.prems(1) runs.called [where ok = ok and c = c and r = r and k = k] ok t by simp
  next
    fix u v e assume "t' = u @ v" "runs ok (k r) u (Inl e)" "runs ok (h e) v (Inr y)"
    then show ?case using Call.prems(2) [of "(c, r) # u" v e]
        runs.called [where ok = ok and c = c and r = r and k = k] ok t by simp
  qed (use run in simp_all)
qed

section \<open>Monitors\<close>

text \<open>
  A safety property of a trace is a fold of a monitor over it; \<open>wpm\<close> keeps the monitor's state instead
  of the trace.
\<close>

primrec wpm ::
  "('c \<Rightarrow> 'r \<Rightarrow> bool) \<Rightarrow> ('s \<Rightarrow> 'c \<Rightarrow> 'r \<Rightarrow> 's) \<Rightarrow> ('c, 'r, 'e, 'a) prog \<Rightarrow> ('s \<Rightarrow> 'e + 'a \<Rightarrow> bool) \<Rightarrow>
     's \<Rightarrow> bool" where
  "wpm ok m (Return x) Q s = Q s (Inr x)"
| "wpm ok m (Raise e) Q s = Q s (Inl e)"
| "wpm ok m (Call c k) Q s = (\<forall>r. ok c r \<longrightarrow> wpm ok m (k r) Q (m s c r))"

definition monitor :: "('s \<Rightarrow> 'c \<Rightarrow> 'r \<Rightarrow> 's) \<Rightarrow> 's \<Rightarrow> ('c, 'r) trace \<Rightarrow> 's" where
  "monitor m s t = foldl (\<lambda>s (c, r). m s c r) s t"

lemma monitor_Nil [simp]: "monitor m s [] = s"
  by (simp add: monitor_def)

lemma monitor_Cons [simp]: "monitor m s ((c, r) # t) = monitor m (m s c r) t"
  by (simp add: monitor_def)

lemma monitor_append [simp]: "monitor m s (t @ u) = monitor m (monitor m s t) u"
  by (simp add: monitor_def)

lemma wpm_iff: "wpm ok m p Q s \<longleftrightarrow> (\<forall>t res. runs ok p t res \<longrightarrow> Q (monitor m s t) res)"
proof (induction p arbitrary: s)
  case (Call c k)
  then show ?case by (auto simp: runs_Call) (metis monitor_Cons)
qed simp_all

lemma wpm_runs: "wpm ok m p Q s \<Longrightarrow> runs ok p t res \<Longrightarrow> Q (monitor m s t) res"
  by (simp add: wpm_iff)

lemma monitor_trace: "monitor (\<lambda>t c a. t @ [(c, a)]) u t = u @ t"
proof (induction t arbitrary: u)
  case (Cons x t)
  then show ?case by (cases x) simp
qed simp

lemma wpm_mono: "wpm ok m p Q s \<Longrightarrow> (\<And>s res. Q s res \<Longrightarrow> Q' s res) \<Longrightarrow> wpm ok m p Q' s"
  by (auto simp: wpm_iff)

lemma wpm_bnd [simp]:
  "wpm ok m (bnd p f) Q s =
     wpm ok m p (\<lambda>s res. case res of Inl e \<Rightarrow> Q s (Inl e) | Inr x \<Rightarrow> wpm ok m (f x) Q s) s"
  by (induction p arbitrary: s) auto

lemma wpm_bndI:
  assumes "wpm ok m p R s" "\<And>s x. R s (Inr x) \<Longrightarrow> wpm ok m (f x) Q s" "\<And>s e. R s (Inl e) \<Longrightarrow> Q s (Inl e)"
  shows "wpm ok m (bnd p f) Q s"
  unfolding wpm_bnd using assms(1) by (rule wpm_mono) (auto split: sum.splits intro: assms(2,3))

lemma wpm_catch [simp]:
  "wpm ok m (catch p h) Q s =
     wpm ok m p (\<lambda>s res. case res of Inl e \<Rightarrow> wpm ok m (h e) Q s | Inr x \<Rightarrow> Q s (Inr x)) s"
  by (induction p arbitrary: s) auto

lemma wpm_attempt [simp]: "wpm ok m (attempt p) Q s = wpm ok m p (\<lambda>s res. Q s (Inr res)) s"
proof -
  have "wpm ok m (attempt p) Q s =
    wpm ok m p (\<lambda>s res. case (case res of Inl e \<Rightarrow> Inl e | Inr x \<Rightarrow> Inr (Inr x)) of
            Inl e \<Rightarrow> Q s (Inr (Inl e)) | Inr x \<Rightarrow> Q s (Inr x)) s"
    unfolding attempt_def by (induction p arbitrary: s) auto
  also have "(\<lambda>s res. case (case res of Inl e \<Rightarrow> Inl e | Inr x \<Rightarrow> Inr (Inr x)) of
            Inl e \<Rightarrow> Q s (Inr (Inl e)) | Inr x \<Rightarrow> Q s (Inr x)) = (\<lambda>s res. Q s (Inr res))"
    by (intro ext) (simp split: sum.splits)
  finally show ?thesis .
qed

lemma wpm_on_error [simp]:
  "wpm ok m (on_error p h) Q s =
     wpm ok m p (\<lambda>s res. case res of
                Inl e \<Rightarrow> wpm ok m h (\<lambda>s r. case r of Inl e' \<Rightarrow> Q s (Inl e') | Inr _ \<Rightarrow> Q s (Inl e)) s
              | Inr x \<Rightarrow> Q s (Inr x)) s"
  by (simp add: on_error_def cong: sum.case_cong)

lemma wpm_finally [simp]:
  "wpm ok m (finally_do p h) Q s =
     wpm ok m p (\<lambda>s res. wpm ok m h (\<lambda>s r. case r of Inl e' \<Rightarrow> Q s (Inl e') | Inr _ \<Rightarrow> Q s res) s) s"
proof -
  have "wpm ok m (case res of Inl e \<Rightarrow> Raise e | Inr x \<Rightarrow> Return x) Q s = Q s res" for res s
    by (cases res) auto
  then show ?thesis by (simp add: finally_do_def)
qed

lemma wpm_when [simp]: "wpm ok m (when_do b p) Q s = (if b then wpm ok m p Q s else Q s (Inr ()))"
  by (simp add: when_do_def)

lemma wpm_for_each:
  assumes "\<And>x s. x \<in> set xs \<Longrightarrow> I s \<Longrightarrow> wpm ok m (f x) (\<lambda>s res. I s) s" "I s"
  shows "wpm ok m (for_each xs f) (\<lambda>s res. I s) s"
  using assms
proof (induction xs arbitrary: s)
  case (Cons x xs)
  have "wpm ok m (f x) (\<lambda>s res. I s) s" using Cons.prems by simp
  then show ?case unfolding for_each.simps wpm_bnd
  proof (rule wpm_mono)
    fix s' res
    assume i: "I s'"
    show "case res of Inl e \<Rightarrow> I s' | Inr y \<Rightarrow> wpm ok m (for_each xs f)
        (\<lambda>s res. case res of Inl e \<Rightarrow> I s | Inr ys \<Rightarrow> wpm ok m (Return (y # ys)) (\<lambda>s res. I s) s) s'"
    proof (cases res)
      case (Inr y)
      have "wpm ok m (for_each xs f) (\<lambda>s res. I s) s'" using Cons i by simp
      then show ?thesis unfolding Inr by (auto elim!: wpm_mono split: sum.splits)
    qed (simp add: i)
  qed
qed simp

section \<open>Programs restricted to some calls\<close>

text \<open>\<open>only K p\<close>: every call \<open>p\<close> can make satisfies \<open>K\<close>. A monitor that ignores \<open>K\<close> ignores \<open>p\<close>.\<close>

primrec only :: "('c \<Rightarrow> bool) \<Rightarrow> ('c, 'r, 'e, 'a) prog \<Rightarrow> bool" where
  "only K (Return x) = True"
| "only K (Raise e) = True"
| "only K (Call c k) = (K c \<and> (\<forall>r. only K (k r)))"

lemma only_runs: "only K p \<Longrightarrow> runs ok p t res \<Longrightarrow> (c, a) \<in> set t \<Longrightarrow> K c"
proof (induction p arbitrary: t)
  case (Call c' k)
  then show ?case by (fastforce simp: runs_Call)
qed auto

lemma only_bnd [intro!]: "only K p \<Longrightarrow> (\<And>x. only K (f x)) \<Longrightarrow> only K (bnd p f)"
  by (induction p) auto

lemma only_catch [intro!]: "only K p \<Longrightarrow> (\<And>x. only K (f x)) \<Longrightarrow> only K (catch p f)"
  by (induction p) auto

lemma only_attempt [intro!]: "only K p \<Longrightarrow> only K (attempt p)"
  by (auto simp: attempt_def)

lemma only_on_error [intro!]: "only K p \<Longrightarrow> only K h \<Longrightarrow> only K (on_error p h)"
  by (auto simp: on_error_def)

lemma only_finally [intro!]: "only K p \<Longrightarrow> only K h \<Longrightarrow> only K (finally_do p h)"
  by (auto simp: finally_do_def split: sum.splits)

lemma only_for_each [intro!]: "(\<And>x. only K (f x)) \<Longrightarrow> only K (for_each xs f)"
  by (induction xs) auto

lemma only_when [intro!]: "only K p \<Longrightarrow> only K (when_do b p)"
  by (auto simp: when_do_def)

lemma only_mono: "only K p \<Longrightarrow> (\<And>c. K c \<Longrightarrow> K' c) \<Longrightarrow> only K' p"
  by (induction p) auto

lemma wpm_quiet:
  assumes "only K p" "\<And>c a s. K c \<Longrightarrow> m s c a = s" "\<And>res. Q s res"
  shows "wpm ok m p Q s"
  using assms by (induction p) auto

lemma wpm_inv:
  assumes "only K p" "\<And>s c a. I s \<Longrightarrow> K c \<Longrightarrow> ok c a \<Longrightarrow> I (m s c a)" "I s"
  shows "wpm ok m p (\<lambda>s res. I s) s"
  using assms by (induction p arbitrary: s) auto

section \<open>A check at every call\<close>

text \<open>
  \<open>guarded f chk\<close> folds \<open>f\<close> and remembers whether \<open>chk\<close> held of the state before each call: a statement
  about every prefix of a trace.
\<close>

definition guarded ::
  "('s \<Rightarrow> 'c \<Rightarrow> 'r \<Rightarrow> 's) \<Rightarrow> ('s \<Rightarrow> 'c \<Rightarrow> bool) \<Rightarrow> 's \<times> bool \<Rightarrow> 'c \<Rightarrow> 'r \<Rightarrow> 's \<times> bool" where
  "guarded f chk s c a = (f (fst s) c a, snd s \<and> chk (fst s) c)"

lemma monitor_guarded_fst: "fst (monitor (guarded f chk) s t) = monitor f (fst s) t"
proof (induction t arbitrary: s)
  case (Cons x t)
  then show ?case by (cases x) (simp add: guarded_def)
qed simp

lemma monitor_guarded_mono: "snd (monitor (guarded f chk) s t) \<Longrightarrow> snd s"
proof (induction t arbitrary: s)
  case (Cons x t)
  obtain c a where x: "x = (c, a)" by (cases x)
  have "snd (guarded f chk s c a)" using Cons by (simp add: x)
  then show ?case by (simp add: guarded_def)
qed simp

lemma monitor_guarded_at:
  assumes "snd (monitor (guarded f chk) (s, b) (pre @ (c, a) # post))"
  shows "chk (monitor f s pre) c"
proof -
  let ?s = "monitor (guarded f chk) (s, b) pre"
  have "snd (monitor (guarded f chk) (guarded f chk ?s c a) post)" using assms by simp
  then have "snd (guarded f chk ?s c a)" by (rule monitor_guarded_mono)
  then show ?thesis by (simp add: guarded_def monitor_guarded_fst)
qed

section \<open>Execution against a handler\<close>

primrec exec :: "('c \<Rightarrow> 'w \<Rightarrow> 'r \<times> 'w) \<Rightarrow> ('c, 'r, 'e, 'a) prog \<Rightarrow> 'w \<Rightarrow> ('e + 'a) \<times> 'w" where
  "exec h (Return x) w = (Inr x, w)"
| "exec h (Raise e) w = (Inl e, w)"
| "exec h (Call c k) w = (let (r, w') = h c w in exec h (k r) w')"

primrec trace_of :: "('c \<Rightarrow> 'w \<Rightarrow> 'r \<times> 'w) \<Rightarrow> ('c, 'r, 'e, 'a) prog \<Rightarrow> 'w \<Rightarrow> ('c, 'r) trace" where
  "trace_of h (Return x) w = []"
| "trace_of h (Raise e) w = []"
| "trace_of h (Call c k) w = (let (r, w') = h c w in (c, r) # trace_of h (k r) w')"

lemma exec_runs:
  assumes "\<And>c w. I w \<Longrightarrow> ok c (fst (h c w)) \<and> I (snd (h c w))" "I w"
  shows "runs ok p (trace_of h p w) (fst (exec h p w))"
  using assms(2)
proof (induction p arbitrary: w)
  case (Call c k)
  obtain r w' where h: "h c w = (r, w')" by (cases "h c w")
  then have "ok c r" "I w'" using assms(1) [OF Call.prems, of c] by simp_all
  then show ?case using Call.IH [of "k r" w'] h by (auto intro: runs.called)
qed simp_all

lemma exec_catch [simp]:
  "exec h (catch p f) w =
     (case exec h p w of (Inl e, w') \<Rightarrow> exec h (f e) w' | (Inr x, w') \<Rightarrow> (Inr x, w'))"
  by (induction p arbitrary: w) (auto split: prod.splits)

lemma exec_attempt [simp]: "exec h (attempt p) w = (case exec h p w of (r, w') \<Rightarrow> (Inr r, w'))"
  unfolding attempt_def by (induction p arbitrary: w) (auto split: prod.splits)

lemma exec_bnd [simp]:
  "exec h (bnd p f) w =
     (case exec h p w of (Inl e, w') \<Rightarrow> (Inl e, w') | (Inr x, w') \<Rightarrow> exec h (f x) w')"
  by (induction p arbitrary: w) (auto split: prod.splits)

end
