(* ===== verification/Server_Model.thy ===== *)
theory Server_Model
  imports Control_Plane Py_Float
begin

text \<open>
  The authoritative server record and its persistence: the value objects and the entity of the servers
  context (\<open>servers/domain/value_objects.py\<close>, \<open>entities.py\<close>), the declared resources read from its
  configuration (\<open>memory_limit.py\<close>, \<open>cpu_allocation.py\<close>, \<open>committed_resources.py\<close>), the outcomes of
  the commands sent to a worker and the error built from them, and the repository
  (\<open>servers/adapters/repositories.py\<close>): the \<open>server\<close> table is a dictionary from server ids to rows, an
  \<open>UPDATE ... WHERE\<close> is a conditional update of the matching rows, and the status frames an update
  stages are returned with the table.
\<close>

section \<open>Value objects and the entity\<close>

type_synonym community_id = uuid

text \<open>A JSON document, as Python's \<open>json\<close> and the \<open>jsonb\<close> columns hold it.\<close>

datatype json =
    JNull
  | JBool bool
  | JInt int
  | JFloat dyadic
  | JStr string
  | JArr "json list"
  | JObj "(string \<times> json) list"

type_synonym config = "(string, json) dict"

definition JAR_KEY_CONFIG_FIELD :: string where
  "JAR_KEY_CONFIG_FIELD = ''resolved_jar_sha256''"

definition JAR_SOURCE_CONFIG_FIELD :: string where
  "JAR_SOURCE_CONFIG_FIELD = ''resolved_jar_source''"

datatype name_error = InvalidServerNameError

definition mk_server_name :: "string \<Rightarrow> name_error + string" where
  "mk_server_name v = (let trimmed = strip v in if trimmed = [] then Inl InvalidServerNameError else Inr trimmed)"

datatype server_type = VANILLA | PAPER | FABRIC | FORGE

datatype desired_state = RUNNING | STOPPED

datatype observed_state =
    OStarting | ORunning | OStopping | OStopped | ORestarting | OCrashed | OUnknown

record server =
  s_id :: server_id
  s_community :: community_id
  s_name :: string
  mc_edition :: string
  mc_version :: string
  s_type :: server_type
  s_config :: config
  desired :: desired_state
  observed :: observed_state
  observed_at :: "instant option"
  assigned :: "worker_id option"
  created_at :: instant
  updated_at :: instant
  game_port :: "int option"
  bedrock_port :: "int option"
  slug :: string
  backup_retention :: "(string, json) dict option"

definition is_at_rest :: "server \<Rightarrow> bool" where
  "is_at_rest s \<longleftrightarrow> desired s = STOPPED \<and> observed s \<in> {OStopped, OUnknown, OCrashed}"

section \<open>Declared resources\<close>

datatype resource_error = InvalidMemoryLimitError | InvalidCpuAllocationError

definition MEMORY_LIMIT_CONFIG_KEY :: string where
  "MEMORY_LIMIT_CONFIG_KEY = ''memory_limit_mb''"

definition MEMORY_LIMIT_FLOOR_MB :: int where
  "MEMORY_LIMIT_FLOOR_MB = 512"

definition MEMORY_LIMIT_CEILING_MB :: int where
  "MEMORY_LIMIT_CEILING_MB = 1024 * 1024"

definition memory_limit_from_config :: "config \<Rightarrow> int option \<Rightarrow> resource_error + int option" where
  "memory_limit_from_config c ceiling_mb =
     (let effective_ceiling = (case ceiling_mb of Some m \<Rightarrow> m | None \<Rightarrow> MEMORY_LIMIT_CEILING_MB)
      in case dget c MEMORY_LIMIT_CONFIG_KEY of
           None \<Rightarrow> Inr None
         | Some (JInt v) \<Rightarrow>
             if v < MEMORY_LIMIT_FLOOR_MB \<or> v > effective_ceiling then Inl InvalidMemoryLimitError
             else Inr (Some v)
         | Some _ \<Rightarrow> Inl InvalidMemoryLimitError)"

definition CPU_ALLOCATION_CONFIG_KEY :: string where
  "CPU_ALLOCATION_CONFIG_KEY = ''cpu_millis''"

definition CPU_ALLOCATION_FLOOR_MILLIS :: int where
  "CPU_ALLOCATION_FLOOR_MILLIS = 100"

definition CPU_ALLOCATION_CEILING_MILLIS :: int where
  "CPU_ALLOCATION_CEILING_MILLIS = 128000"

definition cpu_allocation_from_config :: "config \<Rightarrow> resource_error + int option" where
  "cpu_allocation_from_config c =
     (case dget c CPU_ALLOCATION_CONFIG_KEY of
        None \<Rightarrow> Inr None
      | Some (JInt v) \<Rightarrow>
          if v < CPU_ALLOCATION_FLOOR_MILLIS \<or> v > CPU_ALLOCATION_CEILING_MILLIS
          then Inl InvalidCpuAllocationError
          else Inr (Some v)
      | Some _ \<Rightarrow> Inl InvalidCpuAllocationError)"

definition or_zero :: "int option \<Rightarrow> int" where
  \<comment> \<open>\<open>value or 0\<close>\<close>
  "or_zero v = (case v of None \<Rightarrow> 0 | Some n \<Rightarrow> n)"

fun committed_resources_acc ::
  "(worker_id, int) dict \<Rightarrow> server list \<Rightarrow> resource_error + (worker_id, int) dict" where
  "committed_resources_acc cpu [] = Inr cpu"
| "committed_resources_acc cpu (s # ss) =
     (case assigned s of
        None \<Rightarrow> committed_resources_acc cpu ss
      | Some w \<Rightarrow>
          (case cpu_allocation_from_config (s_config s) of
             Inl e \<Rightarrow> Inl e
           | Inr c \<Rightarrow> committed_resources_acc (dset w (dget_default cpu w 0 + or_zero c) cpu) ss))"

definition committed_resources_by_worker :: "server list \<Rightarrow> resource_error + (worker_id, int) dict" where
  "committed_resources_by_worker servers = committed_resources_acc [] servers"

section \<open>Command outcomes\<close>

definition MAX_CONSOLE_LINE_BYTES :: nat where
  "MAX_CONSOLE_LINE_BYTES = 1446"

datatype command_status =
    COK | SERVER_NOT_FOUND | INVALID_STATE | DRIVER_UNAVAILABLE | FILE_ACCESS_DENIED
  | TRANSFER_FAILED | INTERNAL | PORT_CONFLICT | IMAGE_MISSING | BUSY | COMMAND_DROPPED
  | SERVER_PROPERTIES_UNREADABLE

fun status_value :: "command_status \<Rightarrow> string" where
  "status_value COK = ''ok''"
| "status_value SERVER_NOT_FOUND = ''server_not_found''"
| "status_value INVALID_STATE = ''invalid_state''"
| "status_value DRIVER_UNAVAILABLE = ''driver_unavailable''"
| "status_value FILE_ACCESS_DENIED = ''file_access_denied''"
| "status_value TRANSFER_FAILED = ''transfer_failed''"
| "status_value INTERNAL = ''internal''"
| "status_value PORT_CONFLICT = ''port_conflict''"
| "status_value IMAGE_MISSING = ''image_missing''"
| "status_value BUSY = ''busy''"
| "status_value COMMAND_DROPPED = ''command_dropped''"
| "status_value SERVER_PROPERTIES_UNREADABLE = ''server_properties_unreadable''"

text \<open>The fields of an outcome the lifecycle reads; the file payloads belong to the file operations.\<close>

record command_outcome =
  status :: command_status
  message :: string
  output_text :: string
  declared_generation :: "int option"

definition success :: "command_outcome \<Rightarrow> bool" where
  "success oc \<longleftrightarrow> status oc = COK"

definition WORKER_BUSY_REASON :: string where
  "WORKER_BUSY_REASON = ''worker_busy''"

definition FAILED_STOP_ORPHAN_REASON :: string where
  "FAILED_STOP_ORPHAN_REASON = ''failed_stop_orphan''"

fun sanitized_reason :: "command_status \<Rightarrow> string option" where
  "sanitized_reason PORT_CONFLICT = Some ''port_conflict''"
| "sanitized_reason IMAGE_MISSING = Some ''image_missing''"
| "sanitized_reason BUSY = Some WORKER_BUSY_REASON"
| "sanitized_reason COMMAND_DROPPED = Some ''command_dropped''"
| "sanitized_reason SERVER_PROPERTIES_UNREADABLE = Some ''server_properties_unreadable''"
| "sanitized_reason _ = None"

text \<open>
  The errors the lifecycle raises or passes on. \<open>CommandDispatchError\<close> carries its detail and the
  reason shown to the client; \<open>WorkerUnavailableError\<close> carries \<open>upload_may_be_live\<close>. A cancellation of
  the task is not an \<open>Exception\<close> in Python, so it is told apart from an ordinary failure of a port.
\<close>

datatype server_error =
    ServerNotFoundError
  | InvalidLifecycleTransitionError
  | LifecycleTransitionConflictError
  | NoEligibleWorkerError
  | EulaNotAcceptedError
  | ServerNotRunningError
  | ServerFileNotFoundError
  | ServerBusyError
  | WorkingSetSeedFailedError
  | CommandDispatchError string "string option"
  | WorkerUnavailableError bool
  | ResourceError resource_error
  | PortFailure string
  | CancelledError
  | IllTyped

definition dispatch_failure :: "command_outcome \<Rightarrow> string option \<Rightarrow> server_error" where
  "dispatch_failure oc reason =
     CommandDispatchError
       (if message oc = '''' then status_value (status oc) else message oc)
       (case reason of
          None \<Rightarrow> sanitized_reason (status oc)
        | Some r \<Rightarrow> if r = '''' then sanitized_reason (status oc) else Some r)"

definition WORKING_SET_ABSENT_MARKER :: string where
  "WORKING_SET_ABSENT_MARKER = ''working dir absent''"

definition WORKING_SET_ABSENT_REASON :: string where
  "WORKING_SET_ABSENT_REASON = ''working_set_absent''"

fun is_infix :: "string \<Rightarrow> string \<Rightarrow> bool" where
  \<comment> \<open>Python's \<open>p in s\<close> on strings\<close>
  "is_infix p [] = (p = [])"
| "is_infix p (c # s) = (take (length p) (c # s) = p \<or> is_infix p s)"

definition is_working_set_absent_refusal :: "command_outcome \<Rightarrow> bool" where
  "is_working_set_absent_refusal oc \<longleftrightarrow>
     status oc = SERVER_NOT_FOUND \<and> is_infix WORKING_SET_ABSENT_MARKER (message oc)"

lemma is_infix_iff: "is_infix p s \<longleftrightarrow> (\<exists>a b. s = a @ p @ b)"
proof (induction s)
  case (Cons c s)
  have "take (length p) (c # s) = p \<longleftrightarrow> (\<exists>b. c # s = p @ b)"
    by (metis append_eq_conv_conj append_take_drop_id)
  moreover have "(\<exists>a b. c # s = a @ p @ b) \<longleftrightarrow> (\<exists>b. c # s = p @ b) \<or> (\<exists>a b. s = a @ p @ b)"
    by (metis append_Cons append_Nil list.exhaust list.inject)
  ultimately show ?case using Cons by simp
qed simp

lemma absent_refusal_not_success [simp]: "is_working_set_absent_refusal oc \<Longrightarrow> \<not> success oc"
  by (simp add: is_working_set_absent_refusal_def success_def)

end
