(* ===== verification/Server_Repo.thy ===== *)
theory Server_Repo
  imports Server_Model
begin

text \<open>
  The server repository (\<open>servers/adapters/repositories.py\<close>) over a table of rows. An \<open>UPDATE ... WHERE\<close>
  changes every row its condition matches and reports how many there were; the compare-and-set writes
  of the lifecycle are such updates, so a lost race is a row count of zero. The status frames a write
  stages for the clients are returned in the order they are staged.
\<close>

section \<open>Tables\<close>

type_synonym table = "(server_id, server) dict"

definition table_wf :: "table \<Rightarrow> bool" where
  \<comment> \<open>the primary key: one row per id, stored under its own id\<close>
  "table_wf t \<longleftrightarrow> dwf t \<and> (\<forall>k row. dget t k = Some row \<longrightarrow> s_id row = k)"

definition sql_update :: "(server \<Rightarrow> bool) \<Rightarrow> (server \<Rightarrow> server) \<Rightarrow> table \<Rightarrow> table" where
  "sql_update P f t = map (\<lambda>(k, row). (k, if P row then f row else row)) t"

definition sql_select :: "(server \<Rightarrow> bool) \<Rightarrow> table \<Rightarrow> server list" where
  "sql_select P t = filter P (dvalues t)"

datatype status_frame =
    DesiredFrame desired_state
  | ObservedFrame observed_state string string "instant option"

type_synonym frames = "(server_id \<times> status_frame) list"

section \<open>Reads\<close>

definition repo_add :: "table \<Rightarrow> server \<Rightarrow> table" where
  "repo_add t s = t @ [(s_id s, s)]"

definition get_by_id :: "table \<Rightarrow> server_id \<Rightarrow> server option" where
  "get_by_id t sid = dget t sid"

definition list_for_community :: "table \<Rightarrow> community_id \<Rightarrow> server list" where
  "list_for_community t c = sql_select (\<lambda>s. s_community s = c) t"

definition list_game_ports :: "table \<Rightarrow> int set" where
  "list_game_ports t = set (List.map_filter game_port (dvalues t))"

definition list_bedrock_ports :: "table \<Rightarrow> int set" where
  "list_bedrock_ports t = set (List.map_filter bedrock_port (dvalues t))"

definition list_ids_missing_game_port :: "table \<Rightarrow> server_id list" where
  "list_ids_missing_game_port t = map s_id (sql_select (\<lambda>s. game_port s = None) t)"

definition list_slugs :: "table \<Rightarrow> string set" where
  "list_slugs t = set (map slug (sql_select (\<lambda>s. slug s \<noteq> '''') t))"

definition list_desired_running_assigned :: "table \<Rightarrow> server list" where
  "list_desired_running_assigned t =
     sql_select (\<lambda>s. desired s = RUNNING \<and> assigned s \<noteq> None) t"

definition existing_ids :: "table \<Rightarrow> server_id list \<Rightarrow> server_id set" where
  "existing_ids t ids = set (map s_id (sql_select (\<lambda>s. s_id s \<in> set ids) t))"

definition reconcilable :: "server \<Rightarrow> bool" where
  "reconcilable s \<longleftrightarrow>
     (desired s = RUNNING \<and> observed s \<notin> {OStarting, ORunning}) \<or>
     (desired s = RUNNING \<and> assigned s = None) \<or>
     (desired s = STOPPED \<and> observed s = ORunning) \<or>
     (desired s = STOPPED \<and> observed s = OStopped \<and> assigned s \<noteq> None) \<or>
     (desired s = STOPPED \<and> observed s = OUnknown \<and> assigned s \<noteq> None) \<or>
     (desired s = STOPPED \<and> observed s = OCrashed \<and> assigned s \<noteq> None) \<or>
     (desired s = STOPPED \<and> observed s = OStopping \<and> assigned s \<noteq> None)"

definition list_reconcilable :: "table \<Rightarrow> server list" where
  "list_reconcilable t = sql_select reconcilable t"

fun assignment_memory :: "server list \<Rightarrow> resource_error + ledger" where
  "assignment_memory [] = Inr []"
| "assignment_memory (s # ss) =
     (case memory_limit_from_config (s_config s) None of
        Inl e \<Rightarrow> Inl e
      | Inr m \<Rightarrow>
          (case assignment_memory ss of
             Inl e \<Rightarrow> Inl e
           | Inr d \<Rightarrow> Inr ((s_id s, or_zero m) # d)))"

definition running_assignment_ids_for_worker :: "table \<Rightarrow> worker_id \<Rightarrow> resource_error + ledger" where
  "running_assignment_ids_for_worker t w =
     assignment_memory (sql_select (\<lambda>s. assigned s = Some w \<and> desired s = RUNNING) t)"

section \<open>Writes\<close>

definition repo_update :: "table \<Rightarrow> server \<Rightarrow> table" where
  "repo_update t s =
     sql_update (\<lambda>row. s_id row = s_id s)
       (\<lambda>row. row\<lparr>s_name := s_name s, s_config := s_config s, game_port := game_port s,
                  bedrock_port := bedrock_port s, slug := slug s, updated_at := updated_at s\<rparr>) t"

definition update_backup_retention :: "table \<Rightarrow> server_id \<Rightarrow> (string, json) dict option \<Rightarrow> table" where
  "update_backup_retention t sid retention =
     sql_update (\<lambda>row. s_id row = sid) (\<lambda>row. row\<lparr>backup_retention := retention\<rparr>) t"

definition update_lifecycle ::
  "table \<Rightarrow> server \<Rightarrow> desired_state \<Rightarrow> bool \<Rightarrow> bool \<times> table \<times> frames" where
  "update_lifecycle t s expected_from require_unassigned =
     (let P = (\<lambda>row. s_id row = s_id s \<and> desired row = expected_from \<and>
                     (require_unassigned \<longrightarrow> assigned row = None));
          applied = (length (sql_select P t) = 1)
      in (applied,
          sql_update P (\<lambda>row. row\<lparr>desired := desired s, assigned := assigned s,
                                  s_config := s_config s, updated_at := updated_at s\<rparr>) t,
          if applied \<and> desired s \<noteq> expected_from then [(s_id s, DesiredFrame (desired s))] else []))"

definition write_observed_state ::
  "table \<Rightarrow> (server \<Rightarrow> bool) \<Rightarrow> observed_state \<Rightarrow> instant \<Rightarrow> bool \<Rightarrow> string \<Rightarrow> string \<Rightarrow>
     instant option \<Rightarrow> nat \<times> table \<times> frames" where
  "write_observed_state t P st now unassign detail reason emitted_at =
     (let locked = sort_key s_id (sql_select P t)
      in if locked = [] then (0, t, [])
         else (length locked,
               sql_update (\<lambda>row. s_id row \<in> s_id ` set locked)
                 (\<lambda>row. row\<lparr>observed := st, observed_at := Some now,
                            assigned := (if unassign then None else assigned row)\<rparr>) t,
               map (\<lambda>row. (s_id row, ObservedFrame st detail reason emitted_at))
                 (filter (\<lambda>row. \<not> (observed row = st \<and> detail = '''' \<and> reason = '''')) locked)))"

definition record_observed_state ::
  "table \<Rightarrow> server_id \<Rightarrow> observed_state \<Rightarrow> instant \<Rightarrow> bool \<Rightarrow> worker_id option \<Rightarrow> string \<Rightarrow> string \<Rightarrow>
     instant option \<Rightarrow> bool \<times> table \<times> frames" where
  "record_observed_state t sid st now unassign expected_worker detail reason emitted_at =
     (let (written, t', fs) =
            write_observed_state t
              (\<lambda>row. s_id row = sid \<and>
                     (case observed_at row of None \<Rightarrow> True | Some seen \<Rightarrow> seen < now) \<and>
                     (case expected_worker of None \<Rightarrow> True | Some w \<Rightarrow> assigned row = Some w))
              st now unassign detail reason emitted_at
      in (written = 1, t', fs))"

definition clear_assignment_after_final_snapshot ::
  "table \<Rightarrow> server_id \<Rightarrow> worker_id \<Rightarrow> bool \<times> table" where
  "clear_assignment_after_final_snapshot t sid w =
     (let P = (\<lambda>row. s_id row = sid \<and> desired row = STOPPED \<and> assigned row = Some w)
      in (length (sql_select P t) = 1, sql_update P (\<lambda>row. row\<lparr>assigned := None\<rparr>) t))"

definition mark_worker_servers_unknown :: "table \<Rightarrow> worker_id \<Rightarrow> instant \<Rightarrow> table \<times> frames" where
  "mark_worker_servers_unknown t w now =
     snd (write_observed_state t (\<lambda>row. assigned row = Some w) OUnknown now False '''' '''' None)"

definition reset_unverifiable_observed_states :: "table \<Rightarrow> instant \<Rightarrow> nat \<times> table \<times> frames" where
  "reset_unverifiable_observed_states t now =
     write_observed_state t
       (\<lambda>row. assigned row \<noteq> None \<and> observed row \<in> {OStarting, ORunning, OStopping, ORestarting})
       OUnknown now False '''' '''' None"

definition repo_delete :: "table \<Rightarrow> server_id \<Rightarrow> table" where
  "repo_delete t sid = filter (\<lambda>(k, row). s_id row \<noteq> sid) t"

section \<open>The writes of one row\<close>

named_theorems repo_simps \<open>the repository's writes as updates of one row\<close>

lemma table_wfD:
  assumes "table_wf t"
  shows "dwf t" "dget t k = Some row \<Longrightarrow> s_id row = k"
  using assms by (auto simp: table_wf_def)

lemma table_wf_Cons:
  "table_wf ((k, row) # t) \<longleftrightarrow> s_id row = k \<and> dget t k = None \<and> table_wf t"
  by (auto simp: table_wf_def dwf_def map_of_eq_None_iff image_iff split: if_splits) force

lemma dget_sql_update [simp]:
  "dget (sql_update P f t) k = map_option (\<lambda>row. if P row then f row else row) (dget t k)"
  by (induction t) (auto simp: sql_update_def)

lemma map_fst_sql_update [simp]: "map fst (sql_update P f t) = map fst t"
  by (auto simp: sql_update_def)

lemma table_wf_sql_update [wf_intros]:
  "table_wf t \<Longrightarrow> (\<And>row. s_id (f row) = s_id row) \<Longrightarrow> table_wf (sql_update P f t)"
  by (auto simp: table_wf_def dwf_def split: if_splits)

lemma table_wf_dset [wf_intros]: "table_wf t \<Longrightarrow> s_id row = k \<Longrightarrow> table_wf (dset k row t)"
  by (auto simp: table_wf_def split: if_splits)

lemma dset_same: "dget t k = Some row \<Longrightarrow> dset k row t = t"
  by (induction t) (auto split: if_splits)

lemma sql_select_none:
  "table_wf t \<Longrightarrow> dget t k = None \<Longrightarrow> sql_select (\<lambda>r. s_id r = k \<and> Q r) t = []"
  by (induction t) (auto simp: sql_select_def dvalues_def table_wf_Cons split: if_splits)

lemma sql_select_key [repo_simps]:
  "table_wf t \<Longrightarrow> sql_select (\<lambda>r. s_id r = k \<and> Q r) t =
     (case dget t k of None \<Rightarrow> [] | Some row \<Rightarrow> if Q row then [row] else [])"
proof (induction t)
  case (Cons p t)
  obtain k' row where p: "p = (k', row)" by (cases p)
  have wf: "s_id row = k'" "dget t k' = None" "table_wf t" using Cons.prems by (auto simp: p table_wf_Cons)
  show ?case
    using Cons.IH [OF wf(3)] sql_select_none [OF wf(3), of k' Q] wf
    by (auto simp: p sql_select_def dvalues_def split: option.splits)
qed (simp add: sql_select_def dvalues_def)

lemma sql_update_none:
  "table_wf t \<Longrightarrow> dget t k = None \<Longrightarrow> sql_update (\<lambda>r. s_id r = k \<and> Q r) f t = t"
  by (induction t) (auto simp: sql_update_def table_wf_Cons split: if_splits)

lemma sql_update_key [repo_simps]:
  "table_wf t \<Longrightarrow> sql_update (\<lambda>r. s_id r = k \<and> Q r) f t =
     (case dget t k of None \<Rightarrow> t | Some row \<Rightarrow> if Q row then dset k (f row) t else t)"
proof (induction t)
  case (Cons p t)
  obtain k' row where p: "p = (k', row)" by (cases p)
  have wf: "s_id row = k'" "dget t k' = None" "table_wf t" using Cons.prems by (auto simp: p table_wf_Cons)
  show ?case
  proof (cases "k' = k")
    case True
    then show ?thesis
      using sql_update_none [OF wf(3), of k' Q f] wf by (auto simp: p sql_update_def split: if_splits)
  next
    case False
    then show ?thesis using Cons.IH [OF wf(3)] wf
      by (auto simp: p sql_update_def split: option.splits if_splits)
  qed
qed (simp add: sql_update_def)

lemma update_lifecycle_eq [repo_simps]:
  assumes "table_wf t"
  shows "update_lifecycle t s expected_from ru =
    (case dget t (s_id s) of
       None \<Rightarrow> (False, t, [])
     | Some row \<Rightarrow>
         if desired row = expected_from \<and> (ru \<longrightarrow> assigned row = None)
         then (True,
               dset (s_id s) (row\<lparr>desired := desired s, assigned := assigned s,
                                  s_config := s_config s, updated_at := updated_at s\<rparr>) t,
               if desired s \<noteq> expected_from then [(s_id s, DesiredFrame (desired s))] else [])
         else (False, t, []))"
  using assms
  by (auto simp: update_lifecycle_def Let_def sql_select_key sql_update_key split: option.splits)

lemma write_observed_key [repo_simps]:
  assumes "table_wf t"
  shows "write_observed_state t (\<lambda>r. s_id r = k \<and> Q r) st now un d rs em =
    (case dget t k of
       None \<Rightarrow> (0, t, [])
     | Some row \<Rightarrow>
         if Q row
         then (1,
               dset k (row\<lparr>observed := st, observed_at := Some now,
                           assigned := (if un then None else assigned row)\<rparr>) t,
               if observed row = st \<and> d = [] \<and> rs = [] then []
               else [(k, ObservedFrame st d rs em)])
         else (0, t, []))"
proof (cases "dget t k")
  case None
  then show ?thesis using assms by (simp add: write_observed_state_def sql_select_key)
next
  case (Some row)
  then have "s_id row = k" using assms by (simp add: table_wfD)
  moreover have "sql_update (\<lambda>r. s_id r = k) f t = dset k (f row) t" for f
    using sql_update_key [OF assms, of k "\<lambda>_. True" f] Some by simp
  ultimately show ?thesis using Some assms
    by (auto simp: write_observed_state_def sql_select_key Let_def)
qed

lemma record_observed_eq [repo_simps]:
  assumes "table_wf t"
  shows "record_observed_state t k st now un ew d rs em =
    (case dget t k of
       None \<Rightarrow> (False, t, [])
     | Some row \<Rightarrow>
         if (case observed_at row of None \<Rightarrow> True | Some seen \<Rightarrow> seen < now) \<and>
            (case ew of None \<Rightarrow> True | Some w \<Rightarrow> assigned row = Some w)
         then (True,
               dset k (row\<lparr>observed := st, observed_at := Some now,
                           assigned := (if un then None else assigned row)\<rparr>) t,
               if observed row = st \<and> d = [] \<and> rs = [] then []
               else [(k, ObservedFrame st d rs em)])
         else (False, t, []))"
  unfolding record_observed_state_def write_observed_key [OF assms]
  by (simp split: option.splits)

lemma clear_assignment_eq [repo_simps]:
  assumes "table_wf t"
  shows "clear_assignment_after_final_snapshot t k w =
    (case dget t k of
       None \<Rightarrow> (False, t)
     | Some row \<Rightarrow>
         if desired row = STOPPED \<and> assigned row = Some w
         then (True, dset k (row\<lparr>assigned := None\<rparr>) t)
         else (False, t))"
  using assms
  by (auto simp: clear_assignment_after_final_snapshot_def Let_def sql_select_key sql_update_key
      split: option.splits)

end
