(* ===== verification/Lifecycle.thy ===== *)
theory Lifecycle
  imports Prog Server_Repo Player_Groups
begin

text \<open>
  The lifecycle use cases (\<open>servers/application/lifecycle.py\<close>) as programs over the ports they await: the
  unit of work and its repository, the control plane, storage, the clock, the lifecycle lock, the stop
  convergence guard (\<open>stop_convergence.py\<close>) and the journal of refused stops
  (\<open>stop_dispatch_refusals.py\<close>). Every \<open>await\<close> and every call that touches shared state is a call of
  the program; an awaited call may also answer with an exception, a cancellation included. A mutable
  entity is passed on updated; the \<open>_Dispatch\<close> marker is the first component of what \<open>launch\<close> returns,
  on both its paths.
\<close>

section \<open>Ports\<close>

record provisioned_jar =
  jar_key :: string
  jar_source :: "string option"

datatype (plugins only: code) call =
    Now
  | AcquireLock server_id
  | ReleaseLock server_id
  | TxBegin
  | TxEnd
  | Commit
  | GetById server_id
  | ListRunningAssigned
  | ListReconcilable
  | UpdateLifecycle server desired_state bool
  | RecordObserved server_id observed_state instant bool worker_id
  | ClearAssignment server_id worker_id
  | ListSyncPending server_id
  | ListGroups server_id group_kind
  | ClearSyncPending server_id "pending_group_sync list"
  | ReadFile community_id server_id string
  | WriteFile community_id server_id string string
  | EnsureJar server_type string "string option" "string option"
  | CurrentGeneration community_id server_id
  | Place server_id "int option" "(worker_id, int) dict"
  | HeldGeneration worker_id server_id
  | RecordHeld worker_id server_id int
  | IsConnected worker_id
  | Increment worker_id server_id
  | ReleaseReservation worker_id server_id
  | Decrement worker_id server_id
  | Hydrate worker_id community_id server_id
  | StartCmd worker_id server_id server_type string string int int
  | StopCmd worker_id server_id bool
  | SnapshotCmd worker_id community_id server_id bool
  | RestartCmd worker_id server_id
  | ConsoleCmd worker_id server_id string
  | TunnelSync server_id worker_id "int option" bool
  | InFlight server_id
  | AddClaim server_id
  | DiscardClaim server_id
  | ShieldBegin server_id
  | ShieldEnd server_id
  | AwaitShielded server_id
  | ForgetRefusal server_id
  | RecordRefusal server_id command_outcome instant
  | RefusedAt server_id

datatype (plugins only: code) answer =
    AUnit
  | ABool bool
  | ATime instant
  | AServer "server option"
  | AServers "server list"
  | AMarks "pending_group_sync list"
  | AGroups "player_group list"
  | ABytes string
  | AJar provisioned_jar
  | AGeneration int
  | AHeld "int option"
  | AWorker "worker_id option"
  | AOutcome command_outcome
  | ARefusal "instant option"
  | AExn server_error

type_synonym 'a lc = "(call, answer, server_error, 'a) prog"

text \<open>
  The calls made without an \<open>await\<close>: the clock, the synchronous registry operations, the guard and the
  journal. They do not suspend the task and do not raise.
\<close>

primrec synchronous :: "call \<Rightarrow> bool" where
  "synchronous Now = True"
| "synchronous (AcquireLock _) = False"
| "synchronous (ReleaseLock _) = False"
| "synchronous TxBegin = False"
| "synchronous TxEnd = False"
| "synchronous Commit = False"
| "synchronous (GetById _) = False"
| "synchronous ListRunningAssigned = False"
| "synchronous ListReconcilable = False"
| "synchronous (UpdateLifecycle _ _ _) = False"
| "synchronous (RecordObserved _ _ _ _ _) = False"
| "synchronous (ClearAssignment _ _) = False"
| "synchronous (ListSyncPending _) = False"
| "synchronous (ListGroups _ _) = False"
| "synchronous (ClearSyncPending _ _) = False"
| "synchronous (ReadFile _ _ _) = False"
| "synchronous (WriteFile _ _ _ _) = False"
| "synchronous (EnsureJar _ _ _ _) = False"
| "synchronous (CurrentGeneration _ _) = False"
| "synchronous (Place _ _ _) = False"
| "synchronous (HeldGeneration _ _) = True"
| "synchronous (RecordHeld _ _ _) = True"
| "synchronous (IsConnected _) = True"
| "synchronous (Increment _ _) = True"
| "synchronous (ReleaseReservation _ _) = True"
| "synchronous (Decrement _ _) = True"
| "synchronous (Hydrate _ _ _) = False"
| "synchronous (StartCmd _ _ _ _ _ _ _) = False"
| "synchronous (StopCmd _ _ _) = False"
| "synchronous (SnapshotCmd _ _ _ _) = False"
| "synchronous (RestartCmd _ _) = False"
| "synchronous (ConsoleCmd _ _ _) = False"
| "synchronous (TunnelSync _ _ _ _) = False"
| "synchronous (InFlight _) = True"
| "synchronous (AddClaim _) = True"
| "synchronous (DiscardClaim _) = True"
| "synchronous (ShieldBegin _) = True"
| "synchronous (ShieldEnd _) = True"
| "synchronous (AwaitShielded _) = False"
| "synchronous (ForgetRefusal _) = True"
| "synchronous (RecordRefusal _ _ _) = True"
| "synchronous (RefusedAt _) = True"

text \<open>The shape of the answer to each call.\<close>

datatype answer_kind =
    KUnit | KBool | KTime | KServer | KServers | KMarks | KGroups | KBytes | KJar | KGeneration | KHeld
  | KWorker | KOutcome | KRefusal

primrec kind_of :: "call \<Rightarrow> answer_kind" where
  "kind_of Now = KTime"
| "kind_of (AcquireLock _) = KUnit"
| "kind_of (ReleaseLock _) = KUnit"
| "kind_of TxBegin = KUnit"
| "kind_of TxEnd = KUnit"
| "kind_of Commit = KUnit"
| "kind_of (GetById _) = KServer"
| "kind_of ListRunningAssigned = KServers"
| "kind_of ListReconcilable = KServers"
| "kind_of (UpdateLifecycle _ _ _) = KBool"
| "kind_of (RecordObserved _ _ _ _ _) = KBool"
| "kind_of (ClearAssignment _ _) = KBool"
| "kind_of (ListSyncPending _) = KMarks"
| "kind_of (ListGroups _ _) = KGroups"
| "kind_of (ClearSyncPending _ _) = KUnit"
| "kind_of (ReadFile _ _ _) = KBytes"
| "kind_of (WriteFile _ _ _ _) = KUnit"
| "kind_of (EnsureJar _ _ _ _) = KJar"
| "kind_of (CurrentGeneration _ _) = KGeneration"
| "kind_of (Place _ _ _) = KWorker"
| "kind_of (HeldGeneration _ _) = KHeld"
| "kind_of (RecordHeld _ _ _) = KUnit"
| "kind_of (IsConnected _) = KBool"
| "kind_of (Increment _ _) = KUnit"
| "kind_of (ReleaseReservation _ _) = KUnit"
| "kind_of (Decrement _ _) = KUnit"
| "kind_of (Hydrate _ _ _) = KOutcome"
| "kind_of (StartCmd _ _ _ _ _ _ _) = KOutcome"
| "kind_of (StopCmd _ _ _) = KOutcome"
| "kind_of (SnapshotCmd _ _ _ _) = KOutcome"
| "kind_of (RestartCmd _ _) = KOutcome"
| "kind_of (ConsoleCmd _ _ _) = KOutcome"
| "kind_of (TunnelSync _ _ _ _) = KUnit"
| "kind_of (InFlight _) = KBool"
| "kind_of (AddClaim _) = KUnit"
| "kind_of (DiscardClaim _) = KUnit"
| "kind_of (ShieldBegin _) = KUnit"
| "kind_of (ShieldEnd _) = KUnit"
| "kind_of (AwaitShielded _) = KUnit"
| "kind_of (ForgetRefusal _) = KUnit"
| "kind_of (RecordRefusal _ _ _) = KUnit"
| "kind_of (RefusedAt _) = KRefusal"

primrec answers_kind :: "answer \<Rightarrow> answer_kind \<Rightarrow> bool" where
  "answers_kind AUnit k = (k = KUnit)"
| "answers_kind (ABool _) k = (k = KBool)"
| "answers_kind (ATime _) k = (k = KTime)"
| "answers_kind (AServer _) k = (k = KServer)"
| "answers_kind (AServers _) k = (k = KServers)"
| "answers_kind (AMarks _) k = (k = KMarks)"
| "answers_kind (AGroups _) k = (k = KGroups)"
| "answers_kind (ABytes _) k = (k = KBytes)"
| "answers_kind (AJar _) k = (k = KJar)"
| "answers_kind (AGeneration _) k = (k = KGeneration)"
| "answers_kind (AHeld _) k = (k = KHeld)"
| "answers_kind (AWorker _) k = (k = KWorker)"
| "answers_kind (AOutcome _) k = (k = KOutcome)"
| "answers_kind (ARefusal _) k = (k = KRefusal)"
| "answers_kind (AExn _) k = False"

definition answers :: "call \<Rightarrow> answer \<Rightarrow> bool" where
  "answers c a \<longleftrightarrow>
     (case a of
        AExn e \<Rightarrow> \<not> synchronous c
      | AServer (Some row) \<Rightarrow> c = GetById (s_id row)
      | _ \<Rightarrow> answers_kind a (kind_of c))"

text \<open>A call with the answer taken at its type; \<open>IllTyped\<close> is unreachable by \<open>answers\<close>.\<close>

definition do_call :: "call \<Rightarrow> (answer \<Rightarrow> 'a option) \<Rightarrow> 'a lc" where
  "do_call c f = Call c (\<lambda>a. case a of AExn e \<Rightarrow> Raise e
                             | _ \<Rightarrow> (case f a of Some x \<Rightarrow> Return x | None \<Rightarrow> Raise IllTyped))"

definition to_unit :: "answer \<Rightarrow> unit option" where
  "to_unit a = (case a of AUnit \<Rightarrow> Some () | _ \<Rightarrow> None)"

definition to_bool :: "answer \<Rightarrow> bool option" where
  "to_bool a = (case a of ABool b \<Rightarrow> Some b | _ \<Rightarrow> None)"

definition to_time :: "answer \<Rightarrow> instant option" where
  "to_time a = (case a of ATime n \<Rightarrow> Some n | _ \<Rightarrow> None)"

definition to_server :: "answer \<Rightarrow> server option option" where
  "to_server a = (case a of AServer s \<Rightarrow> Some s | _ \<Rightarrow> None)"

definition to_servers :: "answer \<Rightarrow> server list option" where
  "to_servers a = (case a of AServers s \<Rightarrow> Some s | _ \<Rightarrow> None)"

definition to_marks :: "answer \<Rightarrow> pending_group_sync list option" where
  "to_marks a = (case a of AMarks s \<Rightarrow> Some s | _ \<Rightarrow> None)"

definition to_groups :: "answer \<Rightarrow> player_group list option" where
  "to_groups a = (case a of AGroups s \<Rightarrow> Some s | _ \<Rightarrow> None)"

definition to_bytes :: "answer \<Rightarrow> string option" where
  "to_bytes a = (case a of ABytes s \<Rightarrow> Some s | _ \<Rightarrow> None)"

definition to_jar :: "answer \<Rightarrow> provisioned_jar option" where
  "to_jar a = (case a of AJar s \<Rightarrow> Some s | _ \<Rightarrow> None)"

definition to_generation :: "answer \<Rightarrow> int option" where
  "to_generation a = (case a of AGeneration s \<Rightarrow> Some s | _ \<Rightarrow> None)"

definition to_held :: "answer \<Rightarrow> int option option" where
  "to_held a = (case a of AHeld s \<Rightarrow> Some s | _ \<Rightarrow> None)"

definition to_worker :: "answer \<Rightarrow> worker_id option option" where
  "to_worker a = (case a of AWorker s \<Rightarrow> Some s | _ \<Rightarrow> None)"

definition to_outcome :: "answer \<Rightarrow> command_outcome option" where
  "to_outcome a = (case a of AOutcome s \<Rightarrow> Some s | _ \<Rightarrow> None)"

definition to_refusal :: "answer \<Rightarrow> instant option option" where
  "to_refusal a = (case a of ARefusal x \<Rightarrow> Some x | _ \<Rightarrow> None)"

abbreviation perform :: "call \<Rightarrow> unit lc" where
  "perform c \<equiv> do_call c to_unit"

abbreviation ask :: "call \<Rightarrow> bool lc" where
  "ask c \<equiv> do_call c to_bool"

abbreviation command :: "call \<Rightarrow> command_outcome lc" where
  "command c \<equiv> do_call c to_outcome"

abbreviation now :: "instant lc" where
  "now \<equiv> do_call Now to_time"

abbreviation get_row :: "server_id \<Rightarrow> server option lc" where
  "get_row sid \<equiv> do_call (GetById sid) to_server"

definition with_uow :: "'a lc \<Rightarrow> 'a lc" where
  \<comment> \<open>\<open>async with self.uow\<close>\<close>
  "with_uow p = bnd (perform TxBegin) (\<lambda>_. finally_do p (perform TxEnd))"

definition with_lock :: "server_id \<Rightarrow> 'a lc \<Rightarrow> 'a lc" where
  \<comment> \<open>\<open>async with self.lifecycle_lock.hold(server_id)\<close>\<close>
  "with_lock sid p = bnd (perform (AcquireLock sid)) (\<lambda>_. finally_do p (perform (ReleaseLock sid)))"

definition raise_resource :: "resource_error + 'a \<Rightarrow> 'a lc" where
  "raise_resource r = (case r of Inl e \<Rightarrow> Raise (ResourceError e) | Inr x \<Rightarrow> Return x)"

section \<open>The stop convergence guard\<close>

definition claim :: "server_id \<Rightarrow> 'a lc \<Rightarrow> 'a lc" where
  "claim sid p =
     bnd (ask (InFlight sid)) (\<lambda>busy.
       if busy then Raise LifecycleTransitionConflictError
       else bnd (perform (AddClaim sid)) (\<lambda>_. finally_do p (perform (DiscardClaim sid))))"

definition shield :: "server_id \<Rightarrow> 'a lc \<Rightarrow> 'a lc" where
  \<comment> \<open>the work runs in its own task; only the wait for it can be cancelled\<close>
  "shield sid work =
     bnd (perform (ShieldBegin sid)) (\<lambda>_.
     bnd (attempt work) (\<lambda>r.
     bnd (perform (ShieldEnd sid)) (\<lambda>_.
     bnd (perform (AwaitShielded sid)) (\<lambda>_.
       case r of Inl e \<Rightarrow> Raise e | Inr x \<Rightarrow> Return x))))"

section \<open>Owed player files\<close>

definition regenerate_one :: "community_id \<Rightarrow> server_id \<Rightarrow> pending_group_sync \<Rightarrow> unit lc" where
  "regenerate_one cid sid owed =
     bnd (do_call (ListGroups sid (sync_kind owed)) to_groups) (\<lambda>groups.
     let content = render_group_file (sync_kind owed) (merge_players groups);
         path = target_file (sync_kind owed)
     in catch
          (bnd (catch (bnd (do_call (ReadFile cid sid path) to_bytes) (\<lambda>b. Return (Some b)))
                 (\<lambda>e. if e = ServerFileNotFoundError then Return None else Raise e)) (\<lambda>current.
             if current \<noteq> Some content then perform (WriteFile cid sid path content) else Return ()))
          (\<lambda>e. if e = CancelledError then Raise e else Raise WorkingSetSeedFailedError))"

definition regenerate_pending_group_files :: "community_id \<Rightarrow> server_id \<Rightarrow> pending_group_sync list lc" where
  "regenerate_pending_group_files cid sid =
     bnd (do_call (ListSyncPending sid) to_marks) (\<lambda>pending.
     bnd (for_each pending (regenerate_one cid sid)) (\<lambda>_. Return pending))"

section \<open>Shared steps\<close>

definition load_server :: "community_id \<Rightarrow> server_id \<Rightarrow> server lc" where
  "load_server cid sid =
     bnd (get_row sid) (\<lambda>row.
       case row of
         None \<Rightarrow> Raise ServerNotFoundError
       | Some s \<Rightarrow> if s_community s \<noteq> cid then Raise ServerNotFoundError else Return s)"

definition mark_stopped :: "server \<Rightarrow> instant \<Rightarrow> (bool \<times> server) lc" where
  "mark_stopped s t =
     (let s' = s\<lparr>desired := STOPPED, updated_at := t\<rparr>
      in bnd (ask (UpdateLifecycle s' RUNNING False)) (\<lambda>applied. Return (applied, s')))"

datatype intent_action = RedispatchStop | ClearStaleAssignment | PlaceAndStart | RedispatchStart

definition stopped_intent_action :: "server \<Rightarrow> intent_action option lc" where
  "stopped_intent_action s =
     (case assigned s of
        None \<Rightarrow> Return None
      | Some w \<Rightarrow>
          if observed s \<in> {OStopped, OCrashed} then Return (Some ClearStaleAssignment)
          else if observed s \<in> {OUnknown, OStopping}
          then bnd (ask (IsConnected w)) (\<lambda>conn.
                 Return (Some (if conn then RedispatchStop else ClearStaleAssignment)))
          else bnd (ask (IsConnected w)) (\<lambda>conn.
                 Return (if conn then Some RedispatchStop else None)))"

section \<open>Launching\<close>

definition generation_before_hydrate :: "community_id \<Rightarrow> server_id \<Rightarrow> int option lc" where
  "generation_before_hydrate cid sid =
     catch (bnd (do_call (CurrentGeneration cid sid) to_generation) (\<lambda>g. Return (Some g)))
       (\<lambda>e. if e = CancelledError then Raise e else Return None)"

definition hydrate_phase :: "community_id \<Rightarrow> server_id \<Rightarrow> worker_id \<Rightarrow> command_outcome option lc" where
  \<comment> \<open>the hydrate of \<open>_launch\<close>; an outcome is the failed hydrate\<close>
  "hydrate_phase cid sid w =
     bnd (generation_before_hydrate cid sid) (\<lambda>hydrated_generation.
     bnd (command (Hydrate w cid sid)) (\<lambda>hydrate.
       if \<not> success hydrate then Return (Some hydrate)
       else case (case declared_generation hydrate of Some g \<Rightarrow> Some g | None \<Rightarrow> hydrated_generation) of
              None \<Rightarrow> Return None
            | Some g \<Rightarrow> bnd (perform (RecordHeld w sid g)) (\<lambda>_. Return None)))"

definition DEFAULT_JAR_RELPATH :: string where
  "DEFAULT_JAR_RELPATH = ''server.jar''"

definition start_limits :: "server \<Rightarrow> resource_error + (int \<times> int)" where
  "start_limits s =
     (case memory_limit_from_config (s_config s) None of
        Inl e \<Rightarrow> Inl e
      | Inr m \<Rightarrow>
          (case cpu_allocation_from_config (s_config s) of
             Inl e \<Rightarrow> Inl e
           | Inr c \<Rightarrow> Inr (case m of None \<Rightarrow> 0 | Some mb \<Rightarrow> mb * 1024 * 1024, or_zero c)))"

function launch ::
  "server \<Rightarrow> community_id \<Rightarrow> server_id \<Rightarrow> worker_id \<Rightarrow> bool \<Rightarrow> bool \<Rightarrow>
     (bool \<times> (server_error + command_outcome)) lc" where
  "launch s cid sid w attempted skip_hydrate =
     bnd (attempt (if skip_hydrate then Return None else hydrate_phase cid sid w)) (\<lambda>h.
       case h of
         Inl e \<Rightarrow> Return (attempted, Inl e)
       | Inr (Some failed) \<Rightarrow> Return (attempted, Inr failed)
       | Inr None \<Rightarrow>
           (case start_limits s of
              Inl e \<Rightarrow> Return (True, Inl (ResourceError e))
            | Inr (memory_limit_bytes, cpu_millis) \<Rightarrow>
                bnd (attempt (command (StartCmd w sid (s_type s) DEFAULT_JAR_RELPATH (mc_version s)
                                         memory_limit_bytes cpu_millis))) (\<lambda>r.
                  case r of
                    Inl e \<Rightarrow> Return (True, Inl e)
                  | Inr oc \<Rightarrow>
                      if skip_hydrate \<and> is_working_set_absent_refusal oc
                      then launch s cid sid w True False
                      else Return (True, Inr oc))))"
  by pat_completeness auto

termination
  by (relation "measure (\<lambda>(s, cid, sid, w, attempted, skip). if skip then 1 else 0)") auto

declare launch.simps [simp del]

section \<open>StartServer\<close>

definition as_string :: "json option \<Rightarrow> string option" where
  \<comment> \<open>\<open>v if isinstance(v, str) else None\<close>\<close>
  "as_string v = (case v of Some (JStr x) \<Rightarrow> Some x | _ \<Rightarrow> None)"

definition ensure_jar :: "server \<Rightarrow> provisioned_jar lc" where
  "ensure_jar s =
     do_call (EnsureJar (s_type s) (mc_version s)
                (as_string (dget (s_config s) JAR_KEY_CONFIG_FIELD))
                (as_string (dget (s_config s) JAR_SOURCE_CONFIG_FIELD))) to_jar"

definition place_server :: "server \<Rightarrow> worker_id option lc" where
  "place_server s =
     bnd (do_call ListRunningAssigned to_servers) (\<lambda>running.
     bnd (raise_resource (committed_resources_by_worker running)) (\<lambda>cpu.
     bnd (raise_resource (memory_limit_from_config (s_config s) None)) (\<lambda>memory_limit_mb.
       do_call (Place (s_id s) memory_limit_mb cpu) to_worker)))"

definition lower_char :: "char \<Rightarrow> char" where
  "lower_char c = (let n = (of_char c :: nat) in if 65 \<le> n \<and> n \<le> 90 then char_of (n + 32) else c)"

definition check_eula :: "community_id \<Rightarrow> server_id \<Rightarrow> unit lc" where
  "check_eula cid sid =
     bnd (catch (do_call (ReadFile cid sid ''eula.txt'') to_bytes)
            (\<lambda>e. if e = ServerFileNotFoundError then Raise EulaNotAcceptedError else Raise e)) (\<lambda>content.
       if is_infix ''eula=true'' (map lower_char content) then Return () else Raise EulaNotAcceptedError)"

definition eula_gate :: "community_id \<Rightarrow> server_id \<Rightarrow> bool \<Rightarrow> unit lc" where
  "eula_gate cid sid accept_eula =
     (if accept_eula
      then perform (WriteFile cid sid ''eula.txt'' (''eula=true'' @ [newline]))
      else check_eula cid sid)"

definition record_jar :: "config \<Rightarrow> provisioned_jar \<Rightarrow> config" where
  \<comment> \<open>the recorded key and, when known, the source fingerprint\<close>
  "record_jar c jar =
     (let c' = dset JAR_KEY_CONFIG_FIELD (JStr (jar_key jar)) c
      in case jar_source jar of
           None \<Rightarrow> c'
         | Some src \<Rightarrow> dset JAR_SOURCE_CONFIG_FIELD (JStr src) c')"

definition commit_placement ::
  "server \<Rightarrow> desired_state \<Rightarrow> worker_id \<Rightarrow> pending_group_sync list \<Rightarrow> unit lc" where
  \<comment> \<open>the guarded window from the compare-and-set to the confirmed reservation\<close>
  "commit_placement s expected_from w owed =
     on_error
       (bnd (ask (UpdateLifecycle s expected_from True)) (\<lambda>applied.
          if \<not> applied then Raise LifecycleTransitionConflictError
          else bnd (perform (ClearSyncPending (s_id s) owed)) (\<lambda>_.
               bnd (perform Commit) (\<lambda>_.
                 perform (Increment w (s_id s))))))
       (perform (ReleaseReservation w (s_id s)))"

definition place_and_commit ::
  "server \<Rightarrow> (worker_id \<Rightarrow> instant \<Rightarrow> server) \<Rightarrow> desired_state \<Rightarrow> pending_group_sync list \<Rightarrow>
     (server \<times> worker_id) lc" where
  \<comment> \<open>place, stamp the entity (\<open>upd\<close>) and commit it\<close>
  "place_and_commit s upd expected_from owed =
     bnd (place_server s) (\<lambda>placed.
       case placed of
         None \<Rightarrow> Raise NoEligibleWorkerError
       | Some w \<Rightarrow>
           bnd now (\<lambda>t.
           bnd (commit_placement (upd w t) expected_from w owed) (\<lambda>_. Return (upd w t, w))))"

definition compensate :: "community_id \<Rightarrow> server_id \<Rightarrow> worker_id \<Rightarrow> unit lc" where
  "compensate cid sid w =
     bnd (with_uow
            (bnd (get_row sid) (\<lambda>row.
               case row of
                 None \<Rightarrow> Return False
               | Some s \<Rightarrow>
                   if s_community s \<noteq> cid then Return False
                   else bnd now (\<lambda>t.
                        bnd (ask (UpdateLifecycle (s\<lparr>desired := STOPPED, assigned := None, updated_at := t\<rparr>)
                                    RUNNING False)) (\<lambda>reverted.
                        bnd (perform Commit) (\<lambda>_. Return reverted)))))) (\<lambda>reverted.
       when_do reverted (perform (Decrement w sid)))"

definition unassign :: "community_id \<Rightarrow> server_id \<Rightarrow> worker_id \<Rightarrow> unit lc" where
  "unassign cid sid w =
     bnd (with_uow
            (bnd (get_row sid) (\<lambda>row.
               case row of
                 None \<Rightarrow> Return False
               | Some s \<Rightarrow>
                   if s_community s \<noteq> cid \<or> assigned s \<noteq> Some w then Return False
                   else bnd now (\<lambda>t.
                        bnd (ask (UpdateLifecycle (s\<lparr>assigned := None, updated_at := t\<rparr>) RUNNING False)) (\<lambda>reverted.
                        bnd (perform Commit) (\<lambda>_. Return reverted)))))) (\<lambda>reverted.
       when_do reverted (perform (Decrement w sid)))"

definition converge_running :: "server \<Rightarrow> server_id \<Rightarrow> worker_id \<Rightarrow> server lc" where
  \<comment> \<open>the \<open>INVALID_STATE\<close> arm: the instance is live on the assigned worker\<close>
  "converge_running s sid w =
     bnd now (\<lambda>t.
     bnd (with_uow
            (bnd (ask (RecordObserved sid ORunning t False w)) (\<lambda>applied.
             bnd (perform Commit) (\<lambda>_. Return applied)))) (\<lambda>applied.
       if applied
       then bnd (perform (TunnelSync sid w (bedrock_port s) True)) (\<lambda>_.
              Return (s\<lparr>observed := ORunning, observed_at := Some t\<rparr>))
       else Return s))"

definition fresh_enough :: "int option \<Rightarrow> int \<Rightarrow> bool" where
  "fresh_enough held_gen store_gen \<longleftrightarrow>
     (case held_gen of None \<Rightarrow> False | Some g \<Rightarrow> g \<ge> store_gen)"

definition read_generations :: "community_id \<Rightarrow> server_id \<Rightarrow> worker_id \<Rightarrow> (int option \<times> int) lc" where
  "read_generations cid sid w =
     bnd (do_call (HeldGeneration w sid) to_held) (\<lambda>held_gen.
     bnd (do_call (CurrentGeneration cid sid) to_generation) (\<lambda>store_gen.
       Return (held_gen, store_gen)))"

definition settle_start ::
  "server \<Rightarrow> community_id \<Rightarrow> server_id \<Rightarrow> worker_id \<Rightarrow> bool \<Rightarrow> server_error + command_outcome \<Rightarrow> server lc" where
  \<comment> \<open>\<open>__call__\<close> after \<open>_launch\<close> returned or raised\<close>
  "settle_start s cid sid w attempted r =
     (case r of
        Inl e \<Rightarrow>
          (case e of
             WorkerUnavailableError live \<Rightarrow>
               if attempted then Raise e else bnd (compensate cid sid w) (\<lambda>_. Raise e)
           | _ \<Rightarrow> Raise e)
      | Inr oc \<Rightarrow>
          if success oc then Return s
          else if attempted \<and> status oc = INVALID_STATE then converge_running s sid w
          else if attempted \<and> status oc = BUSY then Raise (dispatch_failure oc None)
          else bnd (compensate cid sid w) (\<lambda>_. Raise (dispatch_failure oc None)))"

definition start_dispatch :: "server \<Rightarrow> community_id \<Rightarrow> server_id \<Rightarrow> worker_id \<Rightarrow> server lc" where
  \<comment> \<open>\<open>__call__\<close> after the commit\<close>
  "start_dispatch s cid sid w =
     bnd (attempt (read_generations cid sid w)) (\<lambda>gens.
       case gens of
         Inl e \<Rightarrow>
           if e = CancelledError then Raise e
           else bnd (compensate cid sid w) (\<lambda>_. Raise e)
       | Inr (held_gen, store_gen) \<Rightarrow>
           bnd (launch s cid sid w False (fresh_enough held_gen store_gen)) (\<lambda>(attempted, r).
             settle_start s cid sid w attempted r))"

definition start_commit :: "community_id \<Rightarrow> server_id \<Rightarrow> bool \<Rightarrow> (server \<times> worker_id) lc" where
  \<comment> \<open>\<open>__call__\<close> up to the end of its transaction\<close>
  "start_commit cid sid accept_eula =
     with_lock sid (with_uow
       (bnd (load_server cid sid) (\<lambda>s.
          if desired s = RUNNING then Raise InvalidLifecycleTransitionError
          else if assigned s \<noteq> None then Raise LifecycleTransitionConflictError
          else bnd (eula_gate cid sid accept_eula) (\<lambda>_.
               bnd (regenerate_pending_group_files cid sid) (\<lambda>owed.
               bnd (ensure_jar s) (\<lambda>jar.
                 place_and_commit s
                   (\<lambda>w t. s\<lparr>desired := RUNNING, assigned := Some w,
                             s_config := record_jar (s_config s) jar, updated_at := t\<rparr>)
                   STOPPED owed))))))"

definition start_server :: "community_id \<Rightarrow> server_id \<Rightarrow> bool \<Rightarrow> server lc" where
  "start_server cid sid accept_eula =
     bnd (start_commit cid sid accept_eula) (\<lambda>(s, w). start_dispatch s cid sid w)"

definition place_commit :: "community_id \<Rightarrow> server_id \<Rightarrow> (server \<times> worker_id) lc" where
  \<comment> \<open>\<open>place_and_start\<close> up to the end of its transaction\<close>
  "place_commit cid sid =
     with_lock sid (with_uow
       (bnd (load_server cid sid) (\<lambda>s.
          if desired s \<noteq> RUNNING \<or> assigned s \<noteq> None then Raise InvalidLifecycleTransitionError
          else bnd (regenerate_pending_group_files cid sid) (\<lambda>owed.
               bnd (ensure_jar s) (\<lambda>jar.
                 place_and_commit s
                   (\<lambda>w t. s\<lparr>assigned := Some w, s_config := record_jar (s_config s) jar,
                             updated_at := t\<rparr>)
                   RUNNING owed)))))"

definition settle_placed ::
  "server \<Rightarrow> community_id \<Rightarrow> server_id \<Rightarrow> worker_id \<Rightarrow> bool \<Rightarrow> server_error + command_outcome \<Rightarrow> server lc" where
  "settle_placed s cid sid w attempted r =
     (case r of
        Inl e \<Rightarrow>
          (case e of
             WorkerUnavailableError live \<Rightarrow>
               if attempted then Raise e else bnd (unassign cid sid w) (\<lambda>_. Raise e)
           | _ \<Rightarrow> Raise e)
      | Inr oc \<Rightarrow>
          if success oc then Return s
          else if attempted then Raise (dispatch_failure oc None)
          else bnd (unassign cid sid w) (\<lambda>_. Raise (dispatch_failure oc None)))"

definition place_dispatch :: "server \<Rightarrow> community_id \<Rightarrow> server_id \<Rightarrow> worker_id \<Rightarrow> server lc" where
  \<comment> \<open>\<open>place_and_start\<close> after the commit\<close>
  "place_dispatch s cid sid w =
     bnd (launch s cid sid w False False) (\<lambda>(attempted, r). settle_placed s cid sid w attempted r)"

definition place_and_start :: "community_id \<Rightarrow> server_id \<Rightarrow> server lc" where
  "place_and_start cid sid =
     bnd (place_commit cid sid) (\<lambda>(s, w). place_dispatch s cid sid w)"

definition redispatch_start :: "community_id \<Rightarrow> server_id \<Rightarrow> int option \<Rightarrow> server lc" where
  "redispatch_start cid sid store_generation =
     bnd (with_uow
            (bnd (load_server cid sid) (\<lambda>s.
               case assigned s of
                 Some w \<Rightarrow> if desired s = RUNNING then Return (s, w) else Raise InvalidLifecycleTransitionError
               | None \<Rightarrow> Raise InvalidLifecycleTransitionError))) (\<lambda>(s, w).
     bnd (do_call (HeldGeneration w sid) to_held) (\<lambda>held_gen.
     bnd (case store_generation of
            Some g \<Rightarrow> Return g
          | None \<Rightarrow> do_call (CurrentGeneration cid sid) to_generation) (\<lambda>store_gen.
     bnd (launch s cid sid w False (fresh_enough held_gen store_gen)) (\<lambda>(_, r).
       case r of
         Inl e \<Rightarrow> Raise e
       | Inr oc \<Rightarrow>
           if success oc then Return s
           else if status oc = INVALID_STATE then converge_running s sid w
           else Raise (dispatch_failure oc None)))))"

section \<open>StopServer\<close>

definition final_snapshot :: "worker_id \<Rightarrow> community_id \<Rightarrow> server_id \<Rightarrow> bool lc" where
  \<comment> \<open>whether the upload may still be live\<close>
  "final_snapshot w cid sid =
     catch (bnd (command (SnapshotCmd w cid sid True)) (\<lambda>_. Return False))
       (\<lambda>e. case e of WorkerUnavailableError live \<Rightarrow> Return live | _ \<Rightarrow> Raise e)"

definition clear_held_assignment :: "server \<Rightarrow> worker_id \<Rightarrow> server_id \<Rightarrow> server lc" where
  "clear_held_assignment s w sid =
     bnd (with_uow
            (bnd (ask (ClearAssignment sid w)) (\<lambda>cleared.
             bnd (perform Commit) (\<lambda>_. Return cleared)))) (\<lambda>cleared.
       Return (if cleared then s\<lparr>assigned := None\<rparr> else s))"

definition record_stopped_then_final_snapshot ::
  "server \<Rightarrow> worker_id \<Rightarrow> community_id \<Rightarrow> server_id \<Rightarrow> server lc" where
  "record_stopped_then_final_snapshot s w cid sid =
     bnd now (\<lambda>t.
     bnd (with_uow
            (bnd (ask (RecordObserved sid OStopped t False w)) (\<lambda>applied.
             bnd (perform Commit) (\<lambda>_. Return applied)))) (\<lambda>applied.
     bnd (if applied
          then bnd (perform (TunnelSync sid w (bedrock_port s) False)) (\<lambda>_.
                 Return (s\<lparr>observed := OStopped, observed_at := Some t\<rparr>))
          else Return s) (\<lambda>s'.
     bnd (final_snapshot w cid sid) (\<lambda>upload_may_be_live.
       if upload_may_be_live then Return s'
       else shield sid (clear_held_assignment s' w sid)))))"

definition release_after_final_snapshot ::
  "server \<Rightarrow> worker_id \<Rightarrow> community_id \<Rightarrow> server_id \<Rightarrow> server lc" where
  "release_after_final_snapshot s w cid sid =
     bnd now (\<lambda>t.
     bnd (with_uow
            (bnd (get_row sid) (\<lambda>current.
               case current of
                 Some row \<Rightarrow>
                   if assigned row = Some w \<and> observed row = OCrashed
                   then bnd (perform Commit) (\<lambda>_.
                          Return (True, s\<lparr>observed := observed row, observed_at := observed_at row\<rparr>))
                   else bnd (ask (RecordObserved sid OStopped t False w)) (\<lambda>applied.
                        bnd (perform Commit) (\<lambda>_.
                          Return (applied, if applied then s\<lparr>observed := OStopped, observed_at := Some t\<rparr>
                                           else s)))
               | None \<Rightarrow>
                   bnd (ask (RecordObserved sid OStopped t False w)) (\<lambda>applied.
                   bnd (perform Commit) (\<lambda>_.
                     Return (applied, if applied then s\<lparr>observed := OStopped, observed_at := Some t\<rparr>
                                      else s)))))) (\<lambda>(at_rest_under_us, s').
     bnd (when_do at_rest_under_us (perform (TunnelSync sid w (bedrock_port s) False))) (\<lambda>_.
     bnd (final_snapshot w cid sid) (\<lambda>upload_may_be_live.
       if at_rest_under_us \<and> \<not> upload_may_be_live
       then shield sid (clear_held_assignment s' w sid)
       else Return s'))))"

definition redispatch_stop_body :: "community_id \<Rightarrow> server_id \<Rightarrow> bool \<Rightarrow> server lc" where
  \<comment> \<open>\<open>_redispatch_stop\<close>\<close>
  "redispatch_stop_body cid sid force =
     bnd (with_uow
            (bnd (load_server cid sid) (\<lambda>s.
               case assigned s of
                 Some w \<Rightarrow> if desired s = STOPPED then Return (s, w) else Raise InvalidLifecycleTransitionError
               | None \<Rightarrow> Raise InvalidLifecycleTransitionError))) (\<lambda>(s, w).
     bnd (perform (ForgetRefusal sid)) (\<lambda>_.
     bnd (command (StopCmd w sid force)) (\<lambda>oc.
       if \<not> success oc \<and> status oc \<noteq> SERVER_NOT_FOUND
       then bnd now (\<lambda>t.
            bnd (perform (RecordRefusal sid oc t)) (\<lambda>_. Raise (dispatch_failure oc None)))
       else if status oc = SERVER_NOT_FOUND then release_after_final_snapshot s w cid sid
       else record_stopped_then_final_snapshot s w cid sid)))"

definition stale_validate :: "community_id \<Rightarrow> server_id \<Rightarrow> (server \<times> worker_id) lc" where
  \<comment> \<open>\<open>_clear_stale_assignment\<close>, step A: validate the triple\<close>
  "stale_validate cid sid =
     with_uow
       (bnd (load_server cid sid) (\<lambda>s.
          case assigned s of
            None \<Rightarrow> Raise InvalidLifecycleTransitionError
          | Some w \<Rightarrow>
              if desired s \<noteq> STOPPED \<or> observed s \<notin> {OStopped, OUnknown, OCrashed, OStopping}
              then Raise InvalidLifecycleTransitionError
              else if observed s \<in> {OUnknown, OStopping}
              then bnd (ask (IsConnected w)) (\<lambda>conn.
                     if conn then Raise InvalidLifecycleTransitionError else Return (s, w))
              else Return (s, w)))"

definition stale_resnapshot :: "server \<Rightarrow> worker_id \<Rightarrow> community_id \<Rightarrow> server_id \<Rightarrow> unit lc" where
  \<comment> \<open>step B: re-drive the final snapshot when the process is gone and the worker reachable\<close>
  "stale_resnapshot s w cid sid =
     (if observed s \<in> {OStopped, OCrashed}
      then bnd (ask (IsConnected w)) (\<lambda>conn.
             if conn
             then bnd (final_snapshot w cid sid) (\<lambda>upload_may_be_live.
                    when_do upload_may_be_live (Raise (WorkerUnavailableError True)))
             else Return ())
      else Return ())"

definition stale_clear :: "server \<Rightarrow> worker_id \<Rightarrow> server_id \<Rightarrow> server lc" where
  \<comment> \<open>step C: clear the assignment; the last liveness read only chooses the log line\<close>
  "stale_clear s w sid =
     bnd (if observed s = OStopping
          then bnd now (\<lambda>t.
               bnd (with_uow
                      (bnd (ask (RecordObserved sid OUnknown t True w)) (\<lambda>cleared.
                       bnd (perform Commit) (\<lambda>_. Return cleared)))) (\<lambda>cleared.
                 Return (cleared, if cleared then s\<lparr>observed := OUnknown, observed_at := Some t\<rparr> else s)))
          else bnd (with_uow
                      (bnd (ask (ClearAssignment sid w)) (\<lambda>cleared.
                       bnd (perform Commit) (\<lambda>_. Return cleared)))) (\<lambda>cleared.
                 Return (cleared, s))) (\<lambda>(cleared, s').
       if cleared
       then bnd (if observed s \<in> {OCrashed, OStopped}
                 then bnd (ask (IsConnected w)) (\<lambda>_. Return ()) else Return ()) (\<lambda>_.
              Return (s'\<lparr>assigned := None\<rparr>))
       else Return s')"

definition clear_stale_assignment_body :: "community_id \<Rightarrow> server_id \<Rightarrow> server lc" where
  \<comment> \<open>\<open>_clear_stale_assignment\<close>\<close>
  "clear_stale_assignment_body cid sid =
     bnd (stale_validate cid sid) (\<lambda>(s, w).
     bnd (stale_resnapshot s w cid sid) (\<lambda>_.
       stale_clear s w sid))"

definition stop_intent :: "community_id \<Rightarrow> server_id \<Rightarrow> (intent_action + server \<times> worker_id) lc" where
  \<comment> \<open>the transaction of \<open>_stop\<close>: the owed convergence, or the flipped row\<close>
  "stop_intent cid sid =
     with_uow
       (bnd (load_server cid sid) (\<lambda>s.
          if desired s = STOPPED
          then bnd (stopped_intent_action s) (\<lambda>owed.
                 case owed of
                   None \<Rightarrow> Raise InvalidLifecycleTransitionError
                 | Some action \<Rightarrow> Return (Inl action))
          else case assigned s of
                 None \<Rightarrow> Raise InvalidLifecycleTransitionError
               | Some w \<Rightarrow>
                   bnd now (\<lambda>t.
                   bnd (mark_stopped s t) (\<lambda>(applied, s').
                     if \<not> applied then Raise LifecycleTransitionConflictError
                     else bnd (perform Commit) (\<lambda>_. Return (Inr (s', w)))))))"

definition stop_dispatch :: "server \<Rightarrow> worker_id \<Rightarrow> community_id \<Rightarrow> server_id \<Rightarrow> bool \<Rightarrow> server lc" where
  \<comment> \<open>\<open>_stop\<close> after the flip committed\<close>
  "stop_dispatch s w cid sid force =
     bnd (perform (Decrement w sid)) (\<lambda>_.
     bnd (perform (ForgetRefusal sid)) (\<lambda>_.
     bnd (command (StopCmd w sid force)) (\<lambda>oc.
       if status oc = SERVER_NOT_FOUND then release_after_final_snapshot s w cid sid
       else if \<not> success oc
       then bnd now (\<lambda>t.
            bnd (perform (RecordRefusal sid oc t)) (\<lambda>_. Raise (dispatch_failure oc None)))
       else record_stopped_then_final_snapshot s w cid sid)))"

definition stop_body :: "community_id \<Rightarrow> server_id \<Rightarrow> bool \<Rightarrow> server lc" where
  \<comment> \<open>\<open>_stop\<close>\<close>
  "stop_body cid sid force =
     bnd (stop_intent cid sid) (\<lambda>r.
       case r of
         Inl owed \<Rightarrow>
           if owed = RedispatchStop then redispatch_stop_body cid sid force
           else clear_stale_assignment_body cid sid
       | Inr (s, w) \<Rightarrow> stop_dispatch s w cid sid force)"

definition stop_server :: "community_id \<Rightarrow> server_id \<Rightarrow> bool \<Rightarrow> server lc" where
  "stop_server cid sid force = claim sid (stop_body cid sid force)"

definition redispatch_stop :: "community_id \<Rightarrow> server_id \<Rightarrow> bool \<Rightarrow> server lc" where
  "redispatch_stop cid sid force = claim sid (redispatch_stop_body cid sid force)"

definition clear_stale_assignment :: "community_id \<Rightarrow> server_id \<Rightarrow> server lc" where
  "clear_stale_assignment cid sid = claim sid (clear_stale_assignment_body cid sid)"

definition late_snapshot_body :: "server_id \<Rightarrow> worker_id \<Rightarrow> unit lc" where
  \<comment> \<open>\<open>_clear_assignment_after_late_snapshot\<close>; success and message only choose the log line\<close>
  "late_snapshot_body sid w =
     with_uow
       (bnd (get_row sid) (\<lambda>row.
          case row of
            None \<Rightarrow> Return ()
          | Some s \<Rightarrow>
              if desired s \<noteq> STOPPED \<or> observed s \<notin> {OStopped, OCrashed} \<or> assigned s \<noteq> Some w
              then Return ()
              else bnd (ask (ClearAssignment sid w)) (\<lambda>_. perform Commit)))"

definition clear_assignment_after_late_snapshot :: "server_id \<Rightarrow> worker_id \<Rightarrow> unit lc" where
  "clear_assignment_after_late_snapshot sid w =
     bnd (ask (InFlight sid)) (\<lambda>busy.
       if busy then Return () else claim sid (late_snapshot_body sid w))"

section \<open>Drain, restart and console\<close>

definition stop_servers_assigned_to_worker :: "worker_id \<Rightarrow> server_id list lc" where
  "stop_servers_assigned_to_worker w =
     with_uow
       (bnd (do_call ListRunningAssigned to_servers) (\<lambda>running.
        bnd (for_each (filter (\<lambda>s. assigned s = Some w) running)
               (\<lambda>s. bnd now (\<lambda>t. bnd (mark_stopped s t) (\<lambda>(applied, _).
                      Return (if applied then [s_id s] else []))))) (\<lambda>stopped.
        bnd (perform Commit) (\<lambda>_. Return (concat stopped)))))"

definition restart_server :: "community_id \<Rightarrow> server_id \<Rightarrow> server lc" where
  "restart_server cid sid =
     bnd (with_uow
            (bnd (load_server cid sid) (\<lambda>s.
               case assigned s of
                 None \<Rightarrow> Raise InvalidLifecycleTransitionError
               | Some w \<Rightarrow>
                   if desired s \<noteq> RUNNING then Raise InvalidLifecycleTransitionError
                   else bnd now (\<lambda>t.
                          let s' = s\<lparr>updated_at := t\<rparr>
                          in bnd (ask (UpdateLifecycle s' RUNNING False)) (\<lambda>applied.
                               if \<not> applied then Raise LifecycleTransitionConflictError
                               else bnd (perform Commit) (\<lambda>_. Return (s', w))))))) (\<lambda>(s, w).
     bnd (command (RestartCmd w sid)) (\<lambda>oc.
       if is_working_set_absent_refusal oc
       then Raise (dispatch_failure oc (Some WORKING_SET_ABSENT_REASON))
       else if status oc = SERVER_NOT_FOUND then Raise ServerNotRunningError
       else if status oc = INVALID_STATE then Raise (dispatch_failure oc (Some FAILED_STOP_ORPHAN_REASON))
       else if \<not> success oc then Raise (dispatch_failure oc None)
       else Return s))"

definition console_line_bytes :: "string \<Rightarrow> nat" where
  \<comment> \<open>text is carried as its UTF-8 bytes\<close>
  "console_line_bytes line = length line"

definition send_server_command :: "community_id \<Rightarrow> server_id \<Rightarrow> string \<Rightarrow> string lc" where
  "send_server_command cid sid line =
     (if console_line_bytes line > MAX_CONSOLE_LINE_BYTES
      then Raise (CommandDispatchError
                    (''console line is '' @ digits (console_line_bytes line) @ '' bytes, over the '' @
                     digits MAX_CONSOLE_LINE_BYTES @ ''-byte limit'')
                    (Some ''console_line_too_long''))
      else
        bnd (with_uow
               (bnd (load_server cid sid) (\<lambda>s.
                  case assigned s of
                    None \<Rightarrow> Raise ServerNotRunningError
                  | Some w \<Rightarrow> if observed s \<noteq> ORunning then Raise ServerNotRunningError else Return w))) (\<lambda>w.
        bnd (command (ConsoleCmd w sid line)) (\<lambda>oc.
          if status oc = SERVER_NOT_FOUND then Raise ServerNotRunningError
          else if status oc = INVALID_STATE
          then Raise (dispatch_failure oc (Some FAILED_STOP_ORPHAN_REASON))
          else if \<not> success oc then Raise (dispatch_failure oc None)
          else Return (output_text oc))))"

end
