(* ===== verification/Lifecycle_Rules.thy ===== *)
theory Lifecycle_Rules
  imports Lifecycle
begin

text \<open>
  The proof rules of the lifecycle programs: what a monitor sees of one call, by the kind of its answer,
  of a transaction, of the guard, and of the programs that make no call a monitor looks at.
\<close>

section \<open>One call\<close>

lemma wpm_do_call:
  "wpm answers m (do_call c f) Q s \<longleftrightarrow>
     (\<forall>a. answers c a \<longrightarrow>
        (case a of
           AExn e \<Rightarrow> Q (m s c a) (Inl e)
         | _ \<Rightarrow> (case f a of Some x \<Rightarrow> Q (m s c a) (Inr x) | None \<Rightarrow> Q (m s c a) (Inl IllTyped))))"
  unfolding do_call_def by (auto split: answer.splits option.splits)

text \<open>An awaited call may answer with any exception.\<close>

abbreviation may_raise where
  "may_raise m c Q s \<equiv> synchronous c \<or> (\<forall>e. Q (m s c (AExn e)) (Inl e))"

lemma answers_cases:
  "(\<forall>a. answers c a \<longrightarrow> R a) \<longleftrightarrow>
     (synchronous c \<or> (\<forall>e. R (AExn e))) \<and>
     (case kind_of c of
        KUnit \<Rightarrow> R AUnit
      | KBool \<Rightarrow> (\<forall>b. R (ABool b))
      | KTime \<Rightarrow> (\<forall>n. R (ATime n))
      | KServer \<Rightarrow> R (AServer None) \<and> (\<forall>row. c = GetById (s_id row) \<longrightarrow> R (AServer (Some row)))
      | KServers \<Rightarrow> (\<forall>x. R (AServers x))
      | KMarks \<Rightarrow> (\<forall>x. R (AMarks x))
      | KGroups \<Rightarrow> (\<forall>x. R (AGroups x))
      | KBytes \<Rightarrow> (\<forall>x. R (ABytes x))
      | KJar \<Rightarrow> (\<forall>x. R (AJar x))
      | KGeneration \<Rightarrow> (\<forall>x. R (AGeneration x))
      | KHeld \<Rightarrow> (\<forall>x. R (AHeld x))
      | KWorker \<Rightarrow> (\<forall>x. R (AWorker x))
      | KOutcome \<Rightarrow> (\<forall>x. R (AOutcome x))
      | KRefusal \<Rightarrow> (\<forall>x. R (ARefusal x)))"
proof -
  have "(\<forall>a. R' a) \<longleftrightarrow>
     R' AUnit \<and> (\<forall>x. R' (ABool x)) \<and> (\<forall>x. R' (ATime x)) \<and> R' (AServer None) \<and>
     (\<forall>x. R' (AServer (Some x))) \<and> (\<forall>x. R' (AServers x)) \<and> (\<forall>x. R' (AMarks x)) \<and>
     (\<forall>x. R' (AGroups x)) \<and> (\<forall>x. R' (ABytes x)) \<and> (\<forall>x. R' (AJar x)) \<and>
     (\<forall>x. R' (AGeneration x)) \<and> (\<forall>x. R' (AHeld x)) \<and> (\<forall>x. R' (AWorker x)) \<and>
     (\<forall>x. R' (AOutcome x)) \<and> (\<forall>x. R' (ARefusal x)) \<and> (\<forall>x. R' (AExn x))" (is "_ \<longleftrightarrow> ?rhs R'") for R'
  proof
    assume r: "?rhs R'"
    show "\<forall>a. R' a"
    proof
      fix a show "R' a"
      proof (cases a)
        case (AServer x)
        then show ?thesis using r by (cases x) auto
      qed (use r in auto)
    qed
  qed blast
  from this [of "\<lambda>a. answers c a \<longrightarrow> R a"] show ?thesis
    by (cases c) (auto simp: answers_def)
qed

lemma wpm_calls [simp]:
  "kind_of c = KUnit \<Longrightarrow> wpm answers m (do_call c to_unit) Q0 s \<longleftrightarrow>
     may_raise m c Q0 s \<and> Q0 (m s c AUnit) (Inr ())"
  "kind_of c = KBool \<Longrightarrow> wpm answers m (do_call c to_bool) Q1 s \<longleftrightarrow>
     may_raise m c Q1 s \<and> (\<forall>b. Q1 (m s c (ABool b)) (Inr b))"
  "kind_of c = KTime \<Longrightarrow> wpm answers m (do_call c to_time) Q2 s \<longleftrightarrow>
     may_raise m c Q2 s \<and> (\<forall>n. Q2 (m s c (ATime n)) (Inr n))"
  "wpm answers m (do_call (GetById sid) to_server) Q3 s \<longleftrightarrow>
     may_raise m (GetById sid) Q3 s \<and> Q3 (m s (GetById sid) (AServer None)) (Inr None) \<and>
     (\<forall>row. s_id row = sid \<longrightarrow> Q3 (m s (GetById sid) (AServer (Some row))) (Inr (Some row)))"
  "kind_of c = KServers \<Longrightarrow> wpm answers m (do_call c to_servers) Q4 s \<longleftrightarrow>
     may_raise m c Q4 s \<and> (\<forall>x. Q4 (m s c (AServers x)) (Inr x))"
  "kind_of c = KMarks \<Longrightarrow> wpm answers m (do_call c to_marks) Q5 s \<longleftrightarrow>
     may_raise m c Q5 s \<and> (\<forall>x. Q5 (m s c (AMarks x)) (Inr x))"
  "kind_of c = KGroups \<Longrightarrow> wpm answers m (do_call c to_groups) Q6 s \<longleftrightarrow>
     may_raise m c Q6 s \<and> (\<forall>x. Q6 (m s c (AGroups x)) (Inr x))"
  "kind_of c = KBytes \<Longrightarrow> wpm answers m (do_call c to_bytes) Q7 s \<longleftrightarrow>
     may_raise m c Q7 s \<and> (\<forall>x. Q7 (m s c (ABytes x)) (Inr x))"
  "kind_of c = KJar \<Longrightarrow> wpm answers m (do_call c to_jar) Q8 s \<longleftrightarrow>
     may_raise m c Q8 s \<and> (\<forall>x. Q8 (m s c (AJar x)) (Inr x))"
  "kind_of c = KGeneration \<Longrightarrow> wpm answers m (do_call c to_generation) Q9 s \<longleftrightarrow>
     may_raise m c Q9 s \<and> (\<forall>x. Q9 (m s c (AGeneration x)) (Inr x))"
  "kind_of c = KHeld \<Longrightarrow> wpm answers m (do_call c to_held) Q10 s \<longleftrightarrow>
     may_raise m c Q10 s \<and> (\<forall>x. Q10 (m s c (AHeld x)) (Inr x))"
  "kind_of c = KWorker \<Longrightarrow> wpm answers m (do_call c to_worker) Q11 s \<longleftrightarrow>
     may_raise m c Q11 s \<and> (\<forall>x. Q11 (m s c (AWorker x)) (Inr x))"
  "kind_of c = KOutcome \<Longrightarrow> wpm answers m (do_call c to_outcome) Q12 s \<longleftrightarrow>
     may_raise m c Q12 s \<and> (\<forall>x. Q12 (m s c (AOutcome x)) (Inr x))"
  "kind_of c = KRefusal \<Longrightarrow> wpm answers m (do_call c to_refusal) Q13 s \<longleftrightarrow>
     may_raise m c Q13 s \<and> (\<forall>x. Q13 (m s c (ARefusal x)) (Inr x))"
  unfolding wpm_do_call answers_cases
  by (auto simp: to_unit_def to_bool_def to_time_def to_server_def to_servers_def to_marks_def
      to_groups_def to_bytes_def to_jar_def to_generation_def to_held_def to_worker_def to_outcome_def to_refusal_def)

lemma wpm_raise_resource [simp]:
  "wpm ok m (raise_resource r) Q s \<longleftrightarrow>
     (\<forall>e. r = Inl e \<longrightarrow> Q s (Inl (ResourceError e))) \<and> (\<forall>x. r = Inr x \<longrightarrow> Q s (Inr x))"
  by (cases r) (auto simp: raise_resource_def)

section \<open>Which calls a program makes\<close>

lemma only_do_call [simp]: "only K (do_call c f) \<longleftrightarrow> K c"
  by (auto simp: do_call_def split: answer.splits option.splits)

lemma only_with_uow [intro!]: "K TxBegin \<Longrightarrow> K TxEnd \<Longrightarrow> only K p \<Longrightarrow> only K (with_uow p)"
  by (auto simp: with_uow_def)

lemma only_with_lock [intro!]:
  "K (AcquireLock s) \<Longrightarrow> K (ReleaseLock s) \<Longrightarrow> only K p \<Longrightarrow> only K (with_lock s p)"
  by (auto simp: with_lock_def)

lemma only_raise_resource [simp]: "only K (raise_resource r)"
  by (auto simp: raise_resource_def split: sum.splits)

text \<open>The programs that prepare a launch, by the calls they may make.\<close>

primrec storage_call :: "call \<Rightarrow> bool" where
  "storage_call Now = True"
| "storage_call (AcquireLock _) = True"
| "storage_call (ReleaseLock _) = True"
| "storage_call TxBegin = True"
| "storage_call TxEnd = True"
| "storage_call Commit = False"
| "storage_call (GetById _) = True"
| "storage_call ListRunningAssigned = True"
| "storage_call ListReconcilable = False"
| "storage_call (UpdateLifecycle _ _ _) = False"
| "storage_call (RecordObserved _ _ _ _ _) = False"
| "storage_call (ClearAssignment _ _) = False"
| "storage_call (ListSyncPending _) = True"
| "storage_call (ListGroups _ _) = True"
| "storage_call (ClearSyncPending _ _) = True"
| "storage_call (ReadFile _ _ _) = True"
| "storage_call (WriteFile _ _ _ _) = True"
| "storage_call (EnsureJar _ _ _ _) = True"
| "storage_call (CurrentGeneration _ _) = False"
| "storage_call (Place _ _ _) = False"
| "storage_call (HeldGeneration _ _) = False"
| "storage_call (RecordHeld _ _ _) = False"
| "storage_call (IsConnected _) = False"
| "storage_call (Increment _ _) = False"
| "storage_call (ReleaseReservation _ _) = False"
| "storage_call (Decrement _ _) = False"
| "storage_call (Hydrate _ _ _) = False"
| "storage_call (StartCmd _ _ _ _ _ _ _) = False"
| "storage_call (StopCmd _ _ _) = False"
| "storage_call (SnapshotCmd _ _ _ _) = False"
| "storage_call (RestartCmd _ _) = False"
| "storage_call (ConsoleCmd _ _ _) = False"
| "storage_call (TunnelSync _ _ _ _) = False"
| "storage_call (InFlight _) = False"
| "storage_call (AddClaim _) = False"
| "storage_call (DiscardClaim _) = False"
| "storage_call (ShieldBegin _) = False"
| "storage_call (ShieldEnd _) = False"
| "storage_call (AwaitShielded _) = False"
| "storage_call (ForgetRefusal _) = False"
| "storage_call (RecordRefusal _ _ _) = False"
| "storage_call (RefusedAt _) = False"

lemma only_prepare:
  "only storage_call (load_server cid sid)"
  "only storage_call (eula_gate cid sid b)"
  "only storage_call (regenerate_pending_group_files cid sid)"
  "only storage_call (ensure_jar s)"
  by (auto simp: load_server_def eula_gate_def check_eula_def regenerate_pending_group_files_def
      regenerate_one_def ensure_jar_def Let_def split: option.splits)

text \<open>The locked transaction of a start: the two paths differ in the guard and the expected state.\<close>

definition placement_call :: "desired_state \<Rightarrow> call \<Rightarrow> bool" where
  "placement_call expected c \<longleftrightarrow> storage_call c \<or>
     (case c of
        Commit \<Rightarrow> True | Place _ _ _ \<Rightarrow> True | Increment _ _ \<Rightarrow> True | ReleaseReservation _ _ \<Rightarrow> True
      | UpdateLifecycle s e r \<Rightarrow> e = expected \<and> r \<and> desired s = RUNNING \<and> assigned s \<noteq> None
      | _ \<Rightarrow> False)"

lemma storage_placement: "storage_call c \<Longrightarrow> placement_call e c"
  by (simp add: placement_call_def)

lemmas only_prepare_placement = only_prepare [THEN only_mono, OF storage_placement]

lemma only_commit_placement:
  "desired s = RUNNING \<Longrightarrow> assigned s \<noteq> None \<Longrightarrow> only (placement_call e) (commit_placement s e w owed)"
  by (auto simp: commit_placement_def placement_call_def)

lemma only_place_server: "only (placement_call e) (place_server s)"
  by (auto simp: place_server_def placement_call_def)

lemma only_place_and_commit:
  "(\<And>w n. desired (upd w n) = RUNNING \<and> assigned (upd w n) \<noteq> None) \<Longrightarrow>
   only (placement_call e) (place_and_commit s upd e owed)"
  unfolding place_and_commit_def
  by (auto intro!: only_place_server only_commit_placement simp: placement_call_def split: option.splits)

lemma only_start_commit: "only (placement_call STOPPED) (start_commit cid sid b)"
  unfolding start_commit_def
  by (auto intro!: only_prepare_placement only_place_and_commit simp: placement_call_def)

lemma only_place_commit: "only (placement_call RUNNING) (place_commit cid sid)"
  unfolding place_commit_def
  by (auto intro!: only_prepare_placement only_place_and_commit simp: placement_call_def)

section \<open>Transactions\<close>

lemma wpm_with_uow:
  assumes "\<And>s a. m s TxBegin a = s" "\<And>s a. m s TxEnd a = s" "\<And>s res e. Q s res \<Longrightarrow> Q s (Inl e)"
    "\<And>e. Q s (Inl e)" "wpm answers m p Q s"
  shows "wpm answers m (with_uow p) Q s"
proof -
  have "wpm answers m p (\<lambda>s res. Q s res \<and> (\<forall>e. Q s (Inl e))) s"
    using assms(5) by (rule wpm_mono) (auto intro: assms(3))
  then show ?thesis using assms(1,2,4) by (simp add: with_uow_def conj_commute)
qed

lemma wpm_with_lock:
  assumes "\<And>s a. m s (AcquireLock sid) a = s" "\<And>s a. m s (ReleaseLock sid) a = s"
    "\<And>s res e. Q s res \<Longrightarrow> Q s (Inl e)" "\<And>e. Q s (Inl e)" "wpm answers m p Q s"
  shows "wpm answers m (with_lock sid p) Q s"
proof -
  have "wpm answers m p (\<lambda>s res. Q s res \<and> (\<forall>e. Q s (Inl e))) s"
    using assms(5) by (rule wpm_mono) (auto intro: assms(3))
  then show ?thesis using assms(1,2,4) by (simp add: with_lock_def conj_commute)
qed

section \<open>Two observations of a trace\<close>

definition seen2 ::
  "(call \<Rightarrow> answer \<Rightarrow> bool) \<Rightarrow> (call \<Rightarrow> answer \<Rightarrow> bool) \<Rightarrow> bool \<times> bool \<Rightarrow> call \<Rightarrow> answer \<Rightarrow> bool \<times> bool" where
  "seen2 P Q s c a = (fst s \<or> P c a, snd s \<or> Q c a)"

lemma monitor_seen2:
  "monitor (seen2 P Q) s t =
     (fst s \<or> (\<exists>(c, a) \<in> set t. P c a), snd s \<or> (\<exists>(c, a) \<in> set t. Q c a))"
proof (induction t arbitrary: s)
  case (Cons x t)
  then show ?case by (cases x) (simp add: seen2_def disj_assoc)
qed simp

lemma seen2_quiet: "\<not> P c a \<Longrightarrow> \<not> Q c a \<Longrightarrow> seen2 P Q s c a = s"
  by (simp add: seen2_def)

end
