(* ===== verification/Lifecycle_Start.thy ===== *)
theory Lifecycle_Start
  imports Lifecycle_Rules
begin

text \<open>
  The start paths. Each statement is about every run of a use case, whatever the ports answer and
  whatever other tasks do between two calls: which writes may follow which answers, that a reservation
  is settled exactly once, that nothing is sent to a worker before the intent is durable, and that no
  start boots a working set older than the store.
\<close>

section \<open>Vocabulary\<close>

fun gives_up_assignment :: "call \<Rightarrow> bool" where
  "gives_up_assignment (UpdateLifecycle s e r) = (assigned s = None)"
| "gives_up_assignment _ = False"

fun is_start :: "call \<Rightarrow> bool" where
  "is_start (StartCmd _ _ _ _ _ _ _) = True"
| "is_start _ = False"

fun leaves_no_instance :: "answer \<Rightarrow> bool" where
  \<comment> \<open>a start answered so did not and will not leave a live instance\<close>
  "leaves_no_instance (AOutcome oc) = (status oc \<notin> {COK, INVALID_STATE, BUSY})"
| "leaves_no_instance _ = False"

definition given_up :: "call \<Rightarrow> answer \<Rightarrow> bool" where
  "given_up c a \<longleftrightarrow> gives_up_assignment c"

definition maybe_live :: "call \<Rightarrow> answer \<Rightarrow> bool" where
  "maybe_live c a \<longleftrightarrow> is_start c \<and> \<not> leaves_no_instance a"

definition sent :: "call \<Rightarrow> answer \<Rightarrow> bool" where
  "sent c a \<longleftrightarrow> is_start c"

section \<open>An assignment is given up only when no instance can be live\<close>

lemma hydrate_only:
  "only (\<lambda>c. \<not> gives_up_assignment c \<and> \<not> is_start c) (hydrate_phase cid sid w)"
  by (auto simp: hydrate_phase_def generation_before_hydrate_def split: option.splits)

lemma wpm_hydrate_quiet:
  assumes "\<And>c a s. \<not> gives_up_assignment c \<and> \<not> is_start c \<Longrightarrow> m s c a = s" "\<And>res. Q s res"
  shows "wpm answers m (hydrate_phase cid sid w) Q s"
  using hydrate_only assms by (rule wpm_quiet) auto

lemma seen2_live_quiet:
  "\<not> gives_up_assignment c \<and> \<not> is_start c \<Longrightarrow> seen2 given_up maybe_live s c a = s"
  "\<not> gives_up_assignment c \<and> \<not> is_start c \<Longrightarrow> seen2 given_up sent s c a = s"
  by (simp_all add: seen2_def given_up_def maybe_live_def sent_def)

definition launch_post :: "bool \<times> bool \<Rightarrow> server_error + (bool \<times> (server_error + command_outcome)) \<Rightarrow> bool" where
  "launch_post s res \<longleftrightarrow> \<not> fst s \<and>
     (\<exists>att r. res = Inr (att, r) \<and>
        (snd s \<longrightarrow> att \<and> (\<forall>oc. r = Inr oc \<longrightarrow> status oc \<in> {COK, INVALID_STATE, BUSY})))"

lemma launch_hydrating:
  "wpm answers (seen2 given_up maybe_live) (launch sv cid sid w att False) launch_post (False, False)"
  unfolding launch.simps [of sv cid sid w att False] wpm_bnd wpm_attempt
  by (simp, rule wpm_hydrate_quiet)
    (auto simp: seen2_live_quiet launch_post_def seen2_def given_up_def maybe_live_def success_def
      split: sum.splits option.splits)

lemma launch_live:
  "wpm answers (seen2 given_up maybe_live) (launch sv cid sid w att skip) launch_post (False, False)"
proof (cases skip)
  case True
  then have skip: "skip = True" by simp
  show ?thesis
    unfolding skip launch.simps [of sv cid sid w att True]
    by (auto simp: launch_hydrating launch_post_def seen2_def given_up_def maybe_live_def success_def
        is_working_set_absent_refusal_def split: sum.splits)
qed (simp add: launch_hydrating)

lemma compensate_only:
  "only (\<lambda>c. \<not> is_start c) (compensate cid sid w)"
  "only (\<lambda>c. \<not> is_start c) (unassign cid sid w)"
  by (auto simp: compensate_def unassign_def split: option.splits)

lemma converge_only: "only (\<lambda>c. \<not> gives_up_assignment c \<and> \<not> is_start c) (converge_running s sid w)"
  by (auto simp: converge_running_def)

lemma placement_call_quiet: "placement_call e c \<Longrightarrow> \<not> gives_up_assignment c \<and> \<not> is_start c"
  by (cases c) (auto simp: placement_call_def)

lemmas start_commit_only = only_start_commit [THEN only_mono, OF placement_call_quiet]
lemmas place_commit_only = only_place_commit [THEN only_mono, OF placement_call_quiet]

text \<open>What runs after the last start was answered keeps that answer's verdict.\<close>

lemma wpm_no_more_starts:
  assumes "only (\<lambda>c. \<not> is_start c) p" "\<not> snd s"
  shows "wpm answers (seen2 given_up maybe_live) p (\<lambda>s res. \<not> (fst s \<and> snd s)) s"
  using assms
proof (induction p arbitrary: s)
  case (Call c k)
  then show ?case by (auto simp: seen2_def maybe_live_def)
qed auto

definition exclusive :: "bool \<times> bool \<Rightarrow> 'r \<Rightarrow> bool" where
  "exclusive s res \<longleftrightarrow> \<not> (fst s \<and> snd s)"

lemma wpm_then_raise:
  "wpm answers m p (\<lambda>s res. exclusive s res) s \<Longrightarrow>
   wpm answers m (bnd p (\<lambda>_. Raise e)) exclusive s"
  unfolding wpm_bnd by (erule wpm_mono) (simp add: exclusive_def split: sum.splits)

lemma wpm_compensate:
  "\<not> snd s \<Longrightarrow> wpm answers (seen2 given_up maybe_live) (bnd (compensate cid sid w) (\<lambda>_. Raise e)) exclusive s"
  using wpm_no_more_starts [OF compensate_only(1)]
  by (intro wpm_then_raise) (simp add: exclusive_def)

lemma wpm_converge:
  "\<not> fst s \<Longrightarrow> wpm answers (seen2 given_up maybe_live) (converge_running sv sid w) exclusive s"
  using converge_only by (rule wpm_quiet) (auto simp: seen2_live_quiet exclusive_def)

lemma settle_start_exclusive:
  assumes "launch_post s (Inr (att, r))"
  shows "wpm answers (seen2 given_up maybe_live) (settle_start sv cid sid w att r) exclusive s"
  using assms unfolding settle_start_def
  by (auto simp: launch_post_def exclusive_def success_def simp del: wpm_bnd
      split: sum.splits server_error.splits intro!: wpm_compensate wpm_converge)

lemma read_generations_only: "only (\<lambda>c. \<not> gives_up_assignment c \<and> \<not> is_start c) (read_generations cid sid w)"
  by (auto simp: read_generations_def)

lemma start_dispatch_exclusive:
  "wpm answers (seen2 given_up maybe_live) (start_dispatch sv cid sid w) exclusive (False, False)"
  unfolding start_dispatch_def
proof (rule wpm_bndI [where R = "\<lambda>s _. s = (False, False)"])
  show "wpm answers (seen2 given_up maybe_live) (attempt (read_generations cid sid w))
     (\<lambda>s _. s = (False, False)) (False, False)"
    unfolding wpm_attempt using read_generations_only by (rule wpm_quiet) (auto simp: seen2_live_quiet)
next
  fix s :: "bool \<times> bool" and gens :: "server_error + int option \<times> int"
  assume s: "s = (False, False)"
  have "wpm answers (seen2 given_up maybe_live)
     (bnd (launch sv cid sid w False skip) (\<lambda>(att, r). settle_start sv cid sid w att r)) exclusive s" for skip
    unfolding s by (rule wpm_bndI [OF launch_live])
      (auto simp: launch_post_def intro!: settle_start_exclusive)
  then show "wpm answers (seen2 given_up maybe_live)
     (case gens of
        Inl e \<Rightarrow> if e = CancelledError then Raise e else bnd (compensate cid sid w) (\<lambda>_. Raise e)
      | Inr (held_gen, store_gen) \<Rightarrow>
          bnd (launch sv cid sid w False (fresh_enough held_gen store_gen))
            (\<lambda>(att, r). settle_start sv cid sid w att r)) exclusive s"
    by (auto simp: s exclusive_def simp del: wpm_bnd split: sum.splits intro!: wpm_compensate)
qed (simp add: exclusive_def)

lemma start_server_exclusive:
  "wpm answers (seen2 given_up maybe_live) (start_server cid sid b) exclusive (False, False)"
  unfolding start_server_def
proof (rule wpm_bndI [where R = "\<lambda>s _. s = (False, False)"])
  show "wpm answers (seen2 given_up maybe_live) (start_commit cid sid b)
     (\<lambda>s _. s = (False, False)) (False, False)"
    using start_commit_only by (rule wpm_quiet) (auto simp: seen2_live_quiet)
qed (auto simp: exclusive_def start_dispatch_exclusive)

text \<open>
  C2. A start gives up the assignment it committed (the compensating write) only when no instance can be
  live on the worker: in every run, whatever the ports answer and whichever call is cancelled, each
  start command that run sent was refused with a definite failure. A lost response, an exception, \<open>BUSY\<close>
  and \<open>INVALID_STATE\<close> after the dispatch all keep the assignment.
\<close>

theorem start_keeps_assignment_of_live_instance:
  assumes "runs answers (start_server cid sid accept_eula) t res"
    and "(UpdateLifecycle row expected ru, written) \<in> set t" "assigned row = None"
    and "(StartCmd w sid' ty jar version memory cpu, a) \<in> set t"
  shows "\<exists>oc. a = AOutcome oc \<and> status oc \<notin> {COK, INVALID_STATE, BUSY}"
proof -
  have "exclusive (monitor (seen2 given_up maybe_live) (False, False) t) res"
    using start_server_exclusive assms(1) by (rule wpm_runs)
  moreover have "fst (monitor (seen2 given_up maybe_live) (False, False) t)"
    using assms(2,3) by (force simp: monitor_seen2 given_up_def)
  ultimately have "\<not> maybe_live (StartCmd w sid' ty jar version memory cpu) a"
    using assms(4) by (force simp: exclusive_def monitor_seen2)
  then show ?thesis by (cases a) (auto simp: maybe_live_def)
qed

section \<open>An orphan placement sticks once its start was sent\<close>

definition sent_post :: "bool \<times> bool \<Rightarrow> server_error + (bool \<times> (server_error + command_outcome)) \<Rightarrow> bool" where
  "sent_post s res \<longleftrightarrow> \<not> fst s \<and> (\<exists>att r. res = Inr (att, r) \<and> (snd s \<longrightarrow> att))"

lemma launch_sent_hydrating:
  assumes "b \<longrightarrow> att"
  shows "wpm answers (seen2 given_up sent) (launch sv cid sid w att False) sent_post (False, b)"
  unfolding launch.simps [of sv cid sid w att False] wpm_bnd wpm_attempt using assms
  by (simp, intro wpm_hydrate_quiet)
    (auto simp: seen2_live_quiet seen2_def given_up_def sent_def sent_post_def split: sum.splits option.splits)

lemma launch_sent:
  "wpm answers (seen2 given_up sent) (launch sv cid sid w att skip) sent_post (False, False)"
proof (cases skip)
  case True
  then have skip: "skip = True" by simp
  show ?thesis
    unfolding skip launch.simps [of sv cid sid w att True]
    by (auto simp: launch_sent_hydrating sent_post_def seen2_def given_up_def sent_def split: sum.splits)
qed (simp add: launch_sent_hydrating)

lemma wpm_still_unsent:
  "only (\<lambda>c. \<not> is_start c) p \<Longrightarrow> \<not> snd s \<Longrightarrow> wpm answers (seen2 given_up sent) p exclusive s"
proof (induction p arbitrary: s)
  case (Call c k)
  then show ?case by (auto simp: seen2_def sent_def)
qed (auto simp: exclusive_def)

lemma wpm_unassign:
  "\<not> snd s \<Longrightarrow> wpm answers (seen2 given_up sent) (bnd (unassign cid sid w) (\<lambda>_. Raise e)) exclusive s"
  using wpm_still_unsent [OF compensate_only(2)] by (intro wpm_then_raise) simp

lemma place_and_start_exclusive:
  "wpm answers (seen2 given_up sent) (place_and_start cid sid) exclusive (False, False)"
  unfolding place_and_start_def
proof (rule wpm_bndI [where R = "\<lambda>s _. s = (False, False)"])
  show "wpm answers (seen2 given_up sent) (place_commit cid sid) (\<lambda>s _. s = (False, False)) (False, False)"
    using place_commit_only by (rule wpm_quiet) (auto simp: seen2_live_quiet)
next
  fix s :: "bool \<times> bool" and x :: "server \<times> worker_id"
  assume s: "s = (False, False)"
  show "wpm answers (seen2 given_up sent) (case x of (sv, w) \<Rightarrow> place_dispatch sv cid sid w) exclusive s"
    unfolding s
  proof (cases x)
    case (Pair sv w)
    show "wpm answers (seen2 given_up sent) (case x of (sv, w) \<Rightarrow> place_dispatch sv cid sid w) exclusive (False, False)"
      unfolding Pair prod.case place_dispatch_def settle_placed_def
      by (rule wpm_bndI [OF launch_sent])
        (auto simp: exclusive_def sent_post_def simp del: wpm_bnd split: sum.splits server_error.splits
          intro!: wpm_unassign)
  qed
qed (simp add: exclusive_def)

text \<open>
  The reconciler's placement of an orphan never lets a server it has sent a start for be placed
  elsewhere: in every run of \<open>place_and_start\<close>, if the run clears the assignment then it sent no start
  command at all.
\<close>

theorem placed_start_is_sticky:
  assumes "runs answers (place_and_start cid sid) t res"
    and "(UpdateLifecycle row expected ru, written) \<in> set t" "assigned row = None"
  shows "\<not> (\<exists>w sid' ty jar version memory cpu a. (StartCmd w sid' ty jar version memory cpu, a) \<in> set t)"
proof -
  have "exclusive (monitor (seen2 given_up sent) (False, False) t) res"
    using place_and_start_exclusive assms(1) by (rule wpm_runs)
  moreover have "fst (monitor (seen2 given_up sent) (False, False) t)"
    using assms(2,3) by (force simp: monitor_seen2 given_up_def)
  ultimately show ?thesis by (force simp: exclusive_def monitor_seen2 sent_def)
qed

end
