(* ===== verification/Lifecycle_Slots.thy ===== *)
theory Lifecycle_Slots
  imports Lifecycle_Start
begin

text \<open>
  The placement reservation of a start and the order of its effects: a reservation is confirmed or
  released exactly once, and no command reaches a worker before the intent is durable and the
  reservation confirmed.
\<close>

section \<open>Vocabulary\<close>

fun reserved_worker :: "call \<Rightarrow> answer \<Rightarrow> worker_id option" where
  "reserved_worker (Place _ _ _) (AWorker w) = w"
| "reserved_worker _ _ = None"

definition reservations :: "(call, answer) trace \<Rightarrow> worker_id list" where
  "reservations t = List.map_filter (\<lambda>(c, a). reserved_worker c a) t"

fun settles :: "call \<Rightarrow> bool" where
  "settles (Increment _ _) = True"
| "settles (ReleaseReservation _ _) = True"
| "settles _ = False"

definition settlements :: "(call, answer) trace \<Rightarrow> call list" where
  "settlements t = filter settles (map fst t)"

fun command_target :: "call \<Rightarrow> worker_id option" where
  "command_target (Hydrate w _ _) = Some w"
| "command_target (StartCmd w _ _ _ _ _ _) = Some w"
| "command_target (StopCmd w _ _) = Some w"
| "command_target (SnapshotCmd w _ _ _) = Some w"
| "command_target (RestartCmd w _) = Some w"
| "command_target (ConsoleCmd w _ _) = Some w"
| "command_target _ = None"

section \<open>The monitor\<close>

type_synonym slot_state = "worker_id list \<times> call list \<times> bool"

definition slots :: "slot_state \<Rightarrow> call \<Rightarrow> answer \<Rightarrow> slot_state" where
  "slots s c a =
     (fst s @ (case reserved_worker c a of None \<Rightarrow> [] | Some w \<Rightarrow> [w]),
      fst (snd s) @ (if settles c then [c] else []),
      snd (snd s) \<or> (c = Commit \<and> a = AUnit))"

definition after_confirm :: "server_id \<Rightarrow> slot_state \<Rightarrow> call \<Rightarrow> bool" where
  "after_confirm sid s c \<longleftrightarrow>
     (\<forall>w. command_target c = Some w \<longrightarrow> s = ([w], [Increment w sid], True))"

lemma monitor_slots:
  "monitor slots s t =
     (fst s @ reservations t, fst (snd s) @ settlements t, snd (snd s) \<or> (Commit, AUnit) \<in> set t)"
proof (induction t arbitrary: s)
  case (Cons x t)
  then show ?case
    by (cases x) (auto simp: slots_def reservations_def settlements_def List.map_filter_simps split: option.splits)
qed (auto simp: reservations_def settlements_def List.map_filter_simps)

abbreviation slot_watch :: "server_id \<Rightarrow> slot_state \<times> bool \<Rightarrow> call \<Rightarrow> answer \<Rightarrow> slot_state \<times> bool" where
  "slot_watch sid \<equiv> guarded slots (after_confirm sid)"

lemma storage_silent:
  assumes "storage_call c"
  shows "reserved_worker c a = None" "\<not> settles c" "command_target c = None" "c \<noteq> Commit"
  using assms by (cases c; simp)+

lemma slot_watch_storage: "storage_call c \<Longrightarrow> slot_watch sid s c a = s"
  by (simp add: guarded_def slots_def after_confirm_def storage_silent prod_eq_iff)

definition settled :: "server_id \<Rightarrow> slot_state \<times> bool \<Rightarrow> bool" where
  "settled sid s \<longleftrightarrow> snd s \<and>
     (fst (fst s) = [] \<and> fst (snd (fst s)) = [] \<or>
      (\<exists>w. fst (fst s) = [w] \<and> fst (snd (fst s)) \<in> {[Increment w sid], [ReleaseReservation w sid]}))"

definition confirmed :: "server_id \<Rightarrow> worker_id \<Rightarrow> slot_state \<times> bool \<Rightarrow> bool" where
  "confirmed sid w s \<longleftrightarrow> s = (([w], [Increment w sid], True), True)"

lemma confirmed_settled: "confirmed sid w s \<Longrightarrow> settled sid s"
  by (simp add: confirmed_def settled_def)

section \<open>The transaction\<close>

abbreviation fresh :: "slot_state \<times> bool" where
  "fresh \<equiv> (([], [], False), True)"

definition commit_post :: "server_id \<Rightarrow> slot_state \<times> bool \<Rightarrow> server_error + server \<times> worker_id \<Rightarrow> bool" where
  "commit_post sid s res \<longleftrightarrow> settled sid s \<and> (\<forall>sv w. res = Inr (sv, w) \<longrightarrow> confirmed sid w s)"

lemma commit_placement_slots:
  assumes "s_id sv = sid"
  shows "wpm answers (slot_watch sid) (commit_placement sv e w owed)
     (\<lambda>s res. settled sid s \<and> (res = Inr () \<longrightarrow> confirmed sid w s)) (([w], [], False), True)"
  using assms
  by (auto simp: commit_placement_def guarded_def slots_def after_confirm_def settled_def confirmed_def)

lemma place_server_slots:
  "wpm answers (slot_watch sid) (place_server sv)
     (\<lambda>s res. s = (case res of Inr (Some w) \<Rightarrow> (([w], [], False), True) | _ \<Rightarrow> fresh)) fresh"
  by (auto simp: place_server_def guarded_def slots_def after_confirm_def split: option.splits)

lemma place_and_commit_slots:
  assumes "\<And>w n. s_id (upd w n) = sid"
  shows "wpm answers (slot_watch sid) (place_and_commit sv upd e owed) (commit_post sid) fresh"
  unfolding place_and_commit_def
proof (rule wpm_bndI [OF place_server_slots])
  fix s :: "slot_state \<times> bool" and placed :: "worker_id option"
  assume s: "s = (case Inr placed of Inr (Some w) \<Rightarrow> (([w], [], False), True) | _ \<Rightarrow> fresh)"
  have "wpm answers (slot_watch sid) (bnd (commit_placement (upd w n) e w owed) (\<lambda>_. Return (upd w n, w)))
     (commit_post sid) (([w], [], False), True)" for w n
    by (rule wpm_bndI [OF commit_placement_slots [OF assms]]) (auto simp: commit_post_def)
  then show "wpm answers (slot_watch sid)
     (case placed of
        None \<Rightarrow> Raise NoEligibleWorkerError
      | Some w \<Rightarrow> bnd now (\<lambda>n. bnd (commit_placement (upd w n) e w owed) (\<lambda>_. Return (upd w n, w))))
     (commit_post sid) s"
    using s by (auto simp: slot_watch_storage commit_post_def settled_def wpm_bnd [of _ _ now]
        simp del: wpm_bnd split: option.splits)
qed (simp add: commit_post_def settled_def)

text \<open>Whatever prepares the placement only makes storage calls.\<close>

lemma wpm_prepared:
  assumes "only storage_call p" "\<And>e. Q fresh (Inl e)" "\<And>x. wpm answers (slot_watch sid) (f x) Q fresh"
  shows "wpm answers (slot_watch sid) (bnd p f) Q fresh"
  by (rule wpm_bndI [where R = "\<lambda>s _. s = fresh"])
    (use assms in \<open>auto intro!: wpm_quiet [OF assms(1)] simp: slot_watch_storage\<close>)

lemma load_server_id:
  "wpm answers (slot_watch sid) (load_server cid sid)
     (\<lambda>s res. s = fresh \<and> (\<forall>sv. res = Inr sv \<longrightarrow> s_id sv = sid)) fresh"
  by (auto simp: load_server_def slot_watch_storage split: option.splits)

lemma commit_post_Inl: "commit_post sid s res \<Longrightarrow> commit_post sid s (Inl e)"
  by (simp add: commit_post_def)

lemma fresh_commit_post [simp]: "commit_post sid fresh (Inl e)"
  by (simp add: commit_post_def settled_def)

lemma transaction_slots:
  assumes "\<And>sv. s_id sv = sid \<Longrightarrow> wpm answers (slot_watch sid) (f sv) (commit_post sid) fresh"
  shows "wpm answers (slot_watch sid) (with_lock sid (with_uow (bnd (load_server cid sid) f)))
    (commit_post sid) fresh"
proof (intro wpm_with_lock wpm_with_uow)
  show "wpm answers (slot_watch sid) (bnd (load_server cid sid) f) (commit_post sid) fresh"
    by (rule wpm_bndI [OF load_server_id]) (simp_all add: assms)
qed (auto simp: slot_watch_storage intro: commit_post_Inl)

lemma start_commit_slots: "wpm answers (slot_watch sid) (start_commit cid sid b) (commit_post sid) fresh"
  unfolding start_commit_def
  by (rule transaction_slots)
    (auto intro!: wpm_prepared only_prepare place_and_commit_slots simp del: wpm_bnd)

lemma place_commit_slots: "wpm answers (slot_watch sid) (place_commit cid sid) (commit_post sid) fresh"
  unfolding place_commit_def
  by (rule transaction_slots)
    (auto intro!: wpm_prepared only_prepare place_and_commit_slots simp del: wpm_bnd)

section \<open>After the commit\<close>

definition addressed :: "worker_id \<Rightarrow> call \<Rightarrow> bool" where
  \<comment> \<open>what a dispatch may call: commands go to the placed worker and no slot is touched\<close>
  "addressed w c \<longleftrightarrow> (\<forall>w'. command_target c = Some w' \<longrightarrow> w' = w) \<and> \<not> settles c \<and> (\<forall>a. reserved_worker c a = None)"

lemma confirmed_step: "confirmed sid w s \<Longrightarrow> addressed w c \<Longrightarrow> confirmed sid w (slot_watch sid s c a)"
  by (auto simp: confirmed_def addressed_def guarded_def slots_def after_confirm_def)

lemma launch_addressed: "only (addressed w) (launch sv cid sid w att skip)"
proof -
  have hyd: "only (addressed w) (hydrate_phase cid sid w)"
    by (auto simp: hydrate_phase_def generation_before_hydrate_def addressed_def split: option.splits)
  have "only (addressed w) (launch sv cid sid w att False)" for att
    unfolding launch.simps [of sv cid sid w att False]
    by (auto simp: hyd addressed_def split: sum.splits option.splits)
  then show ?thesis
    by (cases skip, subst launch.simps) (auto simp: addressed_def split: sum.splits option.splits)
qed

lemma dispatch_addressed:
  "only (addressed w) (start_dispatch sv cid sid w)" "only (addressed w) (place_dispatch sv cid sid w)"
  by (auto simp: start_dispatch_def settle_start_def place_dispatch_def settle_placed_def
      read_generations_def compensate_def unassign_def converge_running_def addressed_def
      split: sum.splits option.splits server_error.splits intro!: launch_addressed)

lemma wpm_dispatch:
  "only (addressed w) p \<Longrightarrow> confirmed sid w s \<Longrightarrow> wpm answers (slot_watch sid) p (\<lambda>s res. settled sid s) s"
  by (rule wpm_mono [OF wpm_inv [of "addressed w" _ "confirmed sid w"]])
    (auto intro: confirmed_step confirmed_settled)

lemma start_server_slots: "wpm answers (slot_watch sid) (start_server cid sid b) (\<lambda>s res. settled sid s) fresh"
  unfolding start_server_def
  by (rule wpm_bndI [OF start_commit_slots])
    (auto simp: commit_post_def intro: wpm_dispatch dispatch_addressed)

lemma place_and_start_slots: "wpm answers (slot_watch sid) (place_and_start cid sid) (\<lambda>s res. settled sid s) fresh"
  unfolding place_and_start_def
  by (rule wpm_bndI [OF place_commit_slots])
    (auto simp: commit_post_def intro: wpm_dispatch dispatch_addressed)

text \<open>
  C27. The slot a placement reserves is settled exactly once on every path of both start flows, the
  failures and cancellations of every call included: it is confirmed or released and never both, and
  nothing is confirmed or released when nothing was reserved. No command is sent to a worker unless the
  run placed the server on that very worker, its transaction committed and the reservation is confirmed.
\<close>

theorem reservation_settled_once:
  assumes "runs answers (start_server cid sid accept_eula) t res \<or> runs answers (place_and_start cid sid) t res"
  shows "(reservations t = [] \<and> settlements t = [] \<or>
      (\<exists>w. reservations t = [w] \<and> settlements t \<in> {[Increment w sid], [ReleaseReservation w sid]})) \<and>
    (\<forall>pre c a post w. t = pre @ (c, a) # post \<longrightarrow> command_target c = Some w \<longrightarrow>
      reservations pre = [w] \<and> settlements pre = [Increment w sid] \<and> (Commit, AUnit) \<in> set pre)"
proof (intro conjI allI impI)
  have s: "settled sid (monitor (slot_watch sid) fresh t)"
    using assms
  proof
    assume "runs answers (start_server cid sid accept_eula) t res"
    then show ?thesis by (rule wpm_runs [OF start_server_slots])
  next
    assume "runs answers (place_and_start cid sid) t res"
    then show ?thesis by (rule wpm_runs [OF place_and_start_slots])
  qed
  then show "reservations t = [] \<and> settlements t = [] \<or>
      (\<exists>w. reservations t = [w] \<and> settlements t \<in> {[Increment w sid], [ReleaseReservation w sid]})"
    unfolding settled_def monitor_guarded_fst by (simp add: monitor_slots)
  fix pre c a post w
  assume "t = pre @ (c, a) # post" "command_target c = Some w"
  moreover from this s have "after_confirm sid (monitor slots ([], [], False) pre) c"
    unfolding settled_def by (blast intro: monitor_guarded_at)
  ultimately show "reservations pre = [w]" "settlements pre = [Increment w sid]" "(Commit, AUnit) \<in> set pre"
    by (simp_all add: after_confirm_def monitor_slots)
qed

end
