(* ===== verification/Lifecycle_Fresh.thy ===== *)
theory Lifecycle_Fresh
  imports Lifecycle_Slots
begin

text \<open>
  The working set a start boots: on every path of the three start flows it was hydrated from the store
  in this run, or the worker reported a generation at least as new as the store's; and the inventory of
  held working sets is only ever told a generation the worker provably holds.
\<close>

section \<open>The monitor\<close>

type_synonym fresh_state = "(worker_id \<times> int option) set \<times> (worker_id \<times> int) set \<times> int set"

definition hydrated_by :: "community_id \<Rightarrow> server_id \<Rightarrow> call \<Rightarrow> answer \<Rightarrow> (worker_id \<times> int option) set" where
  \<comment> \<open>a successful hydrate and the generation the worker declared\<close>
  "hydrated_by cid sid c a = {(w, d). \<exists>oc. c = Hydrate w cid sid \<and> a = AOutcome oc \<and> success oc \<and> declared_generation oc = d}"

definition held_by :: "server_id \<Rightarrow> call \<Rightarrow> answer \<Rightarrow> (worker_id \<times> int) set" where
  "held_by sid c a = {(w, g). c = HeldGeneration w sid \<and> a = AHeld (Some g)}"

definition stored_at :: "community_id \<Rightarrow> server_id \<Rightarrow> call \<Rightarrow> answer \<Rightarrow> int set" where
  "stored_at cid sid c a = {g. c = CurrentGeneration cid sid \<and> a = AGeneration g}"

definition learn :: "community_id \<Rightarrow> server_id \<Rightarrow> fresh_state \<Rightarrow> call \<Rightarrow> answer \<Rightarrow> fresh_state" where
  "learn cid sid s c a =
     (fst s \<union> hydrated_by cid sid c a, fst (snd s) \<union> held_by sid c a, snd (snd s) \<union> stored_at cid sid c a)"

lemma monitor_learn:
  "monitor (learn cid sid) s t =
     (fst s \<union> (\<Union>(c, a) \<in> set t. hydrated_by cid sid c a),
      fst (snd s) \<union> (\<Union>(c, a) \<in> set t. held_by sid c a),
      snd (snd s) \<union> (\<Union>(c, a) \<in> set t. stored_at cid sid c a))"
proof (induction t arbitrary: s)
  case (Cons x t)
  then show ?case by (cases x) (simp add: learn_def Un_assoc)
qed simp

primrec honest_start :: "fresh_state \<Rightarrow> worker_id \<Rightarrow> bool" where
  "honest_start (hyd, rest) w =
     ((\<exists>d. (w, d) \<in> hyd) \<or> (\<exists>g n. (w, g) \<in> fst rest \<and> n \<in> snd rest \<and> n \<le> g))"

primrec honest_record :: "fresh_state \<Rightarrow> worker_id \<Rightarrow> int \<Rightarrow> bool" where
  "honest_record (hyd, rest) w g = ((w, Some g) \<in> hyd \<or> (w, None) \<in> hyd \<and> g \<in> snd rest)"

definition honest :: "fresh_state \<Rightarrow> call \<Rightarrow> bool" where
  "honest s c \<longleftrightarrow>
     (case c of StartCmd w _ _ _ _ _ _ \<Rightarrow> honest_start s w | RecordHeld w _ g \<Rightarrow> honest_record s w g | _ \<Rightarrow> True)"

abbreviation fresh_watch where
  "fresh_watch cid sid \<equiv> guarded (learn cid sid) honest"

definition neutral :: "call \<Rightarrow> bool" where
  "neutral c \<longleftrightarrow> (case c of StartCmd _ _ _ _ _ _ _ \<Rightarrow> False | RecordHeld _ _ _ \<Rightarrow> False | _ \<Rightarrow> True)"

lemma neutral_honest: "neutral c \<Longrightarrow> honest s c"
  by (cases c) (simp_all add: neutral_def honest_def)

lemma wpm_neutral: "only neutral p \<Longrightarrow> snd s \<Longrightarrow> wpm answers (fresh_watch cid sid) p (\<lambda>s res. snd s) s"
  by (rule wpm_inv [of neutral]) (auto simp: guarded_def neutral_honest)

section \<open>Launching\<close>

definition knows_fresh :: "worker_id \<Rightarrow> fresh_state \<times> bool \<Rightarrow> bool" where
  "knows_fresh w s \<longleftrightarrow> (\<exists>g n. (w, g) \<in> fst (snd (fst s)) \<and> n \<in> snd (snd (fst s)) \<and> n \<le> g)"

lemma hydrate_phase_honest:
  "snd s \<Longrightarrow> wpm answers (fresh_watch cid sid) (hydrate_phase cid sid w)
     (\<lambda>s res. snd s \<and> (res = Inr None \<longrightarrow> (\<exists>d. (w, d) \<in> fst (fst s)))) s"
  by (cases s) (auto simp: hydrate_phase_def generation_before_hydrate_def guarded_def learn_def
      honest_def hydrated_by_def held_by_def stored_at_def split: option.splits)

lemma hydrate_attempt_honest:
  "snd s \<Longrightarrow> wpm answers (fresh_watch cid sid) (attempt (hydrate_phase cid sid w))
     (\<lambda>s res. snd s \<and> (res = Inr (Inr None) \<longrightarrow> (\<exists>d. (w, d) \<in> fst (fst s)))) s"
  using hydrate_phase_honest by simp

lemma launch_honest_hydrating:
  assumes "snd s"
  shows "wpm answers (fresh_watch cid sid) (launch sv cid sid w att False) (\<lambda>s res. snd s) s"
  unfolding launch.simps [of sv cid sid w att False] if_False
  by (rule wpm_bndI [OF hydrate_attempt_honest [OF assms]])
    (auto simp: guarded_def honest_def split: sum.splits option.splits)

lemma launch_honest:
  assumes "snd s" "skip \<longrightarrow> knows_fresh w s"
  shows "wpm answers (fresh_watch cid sid) (launch sv cid sid w att skip) (\<lambda>s res. snd s) s"
proof (cases skip)
  case True
  then have skip: "skip = True" by simp
  show ?thesis
    unfolding skip launch.simps [of sv cid sid w att True]
    using assms
    by (cases s)
      (auto simp: skip knows_fresh_def guarded_def honest_def split: sum.splits intro!: launch_honest_hydrating)
qed (simp add: launch_honest_hydrating assms)

lemma after_launch_neutral:
  "only neutral (compensate cid sid w)" "only neutral (unassign cid sid w)"
  "only neutral (converge_running sv sid w)" "only neutral (settle_start sv cid sid w att r)"
  "only neutral (settle_placed sv cid sid w att r)"
  by (auto simp: settle_start_def settle_placed_def compensate_def unassign_def converge_running_def
      neutral_def split: sum.splits option.splits server_error.splits)

lemma placement_neutral: "placement_call e c \<Longrightarrow> neutral c"
  by (cases c) (auto simp: placement_call_def neutral_def)

lemma commits_neutral: "only neutral (start_commit cid sid b)" "only neutral (place_commit cid sid)"
  using only_start_commit only_place_commit by (blast intro: only_mono placement_neutral)+

lemma launch_then:
  assumes "snd s" "skip \<longrightarrow> knows_fresh w s" "\<And>x. only neutral (f x)"
  shows "wpm answers (fresh_watch cid sid) (bnd (launch sv cid sid w att skip) f) (\<lambda>s res. snd s) s"
  using assms(3) by (intro wpm_bndI [OF launch_honest [OF assms(1,2)]] wpm_neutral)

lemma read_generations_fresh:
  "snd s \<Longrightarrow> wpm answers (fresh_watch cid sid) (read_generations cid sid w)
     (\<lambda>s res. snd s \<and> (\<forall>h n. res = Inr (h, n) \<longrightarrow> fresh_enough h n \<longrightarrow> knows_fresh w s)) s"
  by (auto simp: read_generations_def guarded_def learn_def honest_def hydrated_by_def held_by_def
      stored_at_def fresh_enough_def knows_fresh_def split: option.splits)

lemma start_dispatch_honest:
  assumes "snd s"
  shows "wpm answers (fresh_watch cid sid) (start_dispatch sv cid sid w) (\<lambda>s res. snd s) s"
proof -
  have "wpm answers (fresh_watch cid sid) (attempt (read_generations cid sid w))
     (\<lambda>s res. snd s \<and> (\<forall>h n. res = Inr (Inr (h, n)) \<longrightarrow> fresh_enough h n \<longrightarrow> knows_fresh w s)) s"
    using read_generations_fresh [OF assms] by simp
  then show ?thesis unfolding start_dispatch_def
    by (rule wpm_bndI)
      (auto intro!: launch_then after_launch_neutral intro: wpm_neutral
        simp del: wpm_bnd split: sum.splits)
qed

lemma start_server_honest:
  "wpm answers (fresh_watch cid sid) (start_server cid sid b) (\<lambda>s res. snd s) (({}, {}, {}), True)"
  unfolding start_server_def
  by (rule wpm_bndI [OF wpm_neutral [OF commits_neutral(1)]]) (auto intro: start_dispatch_honest)

lemma place_and_start_honest:
  "wpm answers (fresh_watch cid sid) (place_and_start cid sid) (\<lambda>s res. snd s) (({}, {}, {}), True)"
  unfolding place_and_start_def place_dispatch_def
  by (rule wpm_bndI [OF wpm_neutral [OF commits_neutral(2)]])
    (auto intro!: launch_then after_launch_neutral simp del: wpm_bnd)

text \<open>The generation the reconciler read counts as read by the run.\<close>

lemma redispatch_start_honest:
  "wpm answers (fresh_watch cid sid) (redispatch_start cid sid store_generation) (\<lambda>s res. snd s)
     (({}, {}, case store_generation of None \<Rightarrow> {} | Some n \<Rightarrow> {n}), True)"
proof -
  let ?s = "(({}, {}, case store_generation of None \<Rightarrow> {} | Some n \<Rightarrow> {n}), True) :: fresh_state \<times> bool"
  let ?I = "\<lambda>s :: fresh_state \<times> bool. snd s \<and> (\<forall>n. store_generation = Some n \<longrightarrow> n \<in> snd (snd (fst s)))"
  let ?load = "with_uow (bnd (load_server cid sid) (\<lambda>s. case assigned s of
      Some w \<Rightarrow> if desired s = RUNNING then Return (s, w) else Raise InvalidLifecycleTransitionError
    | None \<Rightarrow> Raise InvalidLifecycleTransitionError))"
  have load: "wpm answers (fresh_watch cid sid) ?load (\<lambda>s res. ?I s) ?s"
    by (rule wpm_inv [of neutral])
      (auto simp: load_server_def neutral_honest neutral_def guarded_def learn_def split: option.splits)
  have after: "only neutral (case r of
         Inl e \<Rightarrow> Raise e
       | Inr oc \<Rightarrow>
           if success oc then Return sv
           else if status oc = INVALID_STATE then converge_running sv sid w
           else Raise (dispatch_failure oc None))" for r sv w
    by (auto intro: after_launch_neutral split: sum.splits)
  show ?thesis
    unfolding redispatch_start_def
  proof (rule wpm_bndI [OF load])
    fix s :: "fresh_state \<times> bool" and x :: "server \<times> worker_id"
    assume "?I s"
    then show "wpm answers (fresh_watch cid sid) (case x of (sv, w) \<Rightarrow>
       bnd (do_call (HeldGeneration w sid) to_held) (\<lambda>held_gen.
       bnd (case store_generation of
              Some g \<Rightarrow> Return g
            | None \<Rightarrow> do_call (CurrentGeneration cid sid) to_generation) (\<lambda>store_gen.
       bnd (launch sv cid sid w False (fresh_enough held_gen store_gen)) (\<lambda>(_, r).
         case r of
           Inl e \<Rightarrow> Raise e
         | Inr oc \<Rightarrow>
             if success oc then Return sv
             else if status oc = INVALID_STATE then converge_running sv sid w
             else Raise (dispatch_failure oc None))))) (\<lambda>s res. snd s) s"
      using after by (cases s; cases x; cases store_generation)
        (auto 0 5 intro!: launch_then simp: guarded_def learn_def honest_def hydrated_by_def held_by_def
          stored_at_def fresh_enough_def knows_fresh_def split: option.splits simp del: wpm_bnd
          intro: exI [of _ "_ :: int"] simp: wpm_bnd [of _ _ "do_call _ _"] wpm_bnd [of _ _ "Return _"])
  qed simp
qed

section \<open>The theorems\<close>

definition start_flow ::
  "community_id \<Rightarrow> server_id \<Rightarrow> int option \<Rightarrow> (call, answer) trace \<Rightarrow> server_error + server \<Rightarrow> bool" where
  \<comment> \<open>a run of one of the three start flows; \<open>given\<close> is the generation the reconciler passes on\<close>
  "start_flow cid sid given t res \<longleftrightarrow>
     given = None \<and> (\<exists>b. runs answers (start_server cid sid b) t res) \<or>
     given = None \<and> runs answers (place_and_start cid sid) t res \<or>
     runs answers (redispatch_start cid sid given) t res"

lemma start_flow_honest:
  assumes "start_flow cid sid given t res"
  shows "snd (monitor (fresh_watch cid sid) (({}, {}, case given of None \<Rightarrow> {} | Some n \<Rightarrow> {n}), True) t)"
  using assms wpm_runs [OF start_server_honest] wpm_runs [OF place_and_start_honest]
    wpm_runs [OF redispatch_start_honest]
  unfolding start_flow_def by fastforce

lemma start_flow_honest_at:
  assumes "start_flow cid sid given (pre @ (c, a) # post) res"
  shows "honest (monitor (learn cid sid) ({}, {}, case given of None \<Rightarrow> {} | Some n \<Rightarrow> {n}) pre) c"
  using start_flow_honest [OF assms] by (rule monitor_guarded_at)

text \<open>
  C3. No start boots a working set older than the store. In every run of a start, an orphan placement
  or a re-dispatched start, a start command is sent only after this run hydrated the worker
  successfully, or after the worker reported holding a generation at least as new as a generation of
  the store read by the run (or, for a re-dispatch, handed over by the reconciler).
\<close>

theorem start_never_boots_stale:
  assumes "start_flow cid sid given (pre @ (StartCmd w sid' ty jar version memory cpu, a) # post) res"
  shows "(\<exists>oc. (Hydrate w cid sid, AOutcome oc) \<in> set pre \<and> success oc) \<or>
    (\<exists>g n. (HeldGeneration w sid, AHeld (Some g)) \<in> set pre \<and>
       ((CurrentGeneration cid sid, AGeneration n) \<in> set pre \<or> given = Some n) \<and> n \<le> g)"
proof -
  obtain hyd hs st where m: "monitor (learn cid sid) ({}, {}, case given of None \<Rightarrow> {} | Some n \<Rightarrow> {n}) pre = (hyd, hs, st)"
    by (rule prod_cases3)
  have sets: "hyd = (\<Union>(c, a) \<in> set pre. hydrated_by cid sid c a)"
    "hs = (\<Union>(c, a) \<in> set pre. held_by sid c a)"
    "st = (case given of None \<Rightarrow> {} | Some n \<Rightarrow> {n}) \<union> (\<Union>(c, a) \<in> set pre. stored_at cid sid c a)"
    using m unfolding monitor_learn by simp_all
  have "honest_start (hyd, hs, st) w"
    using start_flow_honest_at [OF assms] m by (simp add: honest_def)
  then consider d where "(w, d) \<in> hyd" | g n where "(w, g) \<in> hs" "n \<in> st" "n \<le> g" by auto
  then show ?thesis
  proof cases
    case 1
    then show ?thesis by (auto simp: sets hydrated_by_def)
  next
    case 2
    then have "(HeldGeneration w sid, AHeld (Some g)) \<in> set pre"
      "(CurrentGeneration cid sid, AGeneration n) \<in> set pre \<or> given = Some n"
      by (auto simp: sets held_by_def stored_at_def split: option.splits)
    then show ?thesis using 2(3) by blast
  qed
qed

text \<open>
  The inventory of held working sets is never told more than the worker holds. In every run of the
  start flows a generation is recorded for a worker only after a hydrate this run drove on that worker
  succeeded, and it is the generation the worker declared or, when it declared none, one the run (or the
  reconciler before it) had read from the store.
\<close>

theorem recorded_generation_is_proved:
  assumes "start_flow cid sid given (pre @ (RecordHeld w sid' g, a) # post) res"
  shows "\<exists>oc. (Hydrate w cid sid, AOutcome oc) \<in> set pre \<and> success oc \<and>
    (declared_generation oc = Some g \<or>
     declared_generation oc = None \<and>
       ((CurrentGeneration cid sid, AGeneration g) \<in> set pre \<or> given = Some g))"
proof -
  obtain hyd hs st where m: "monitor (learn cid sid) ({}, {}, case given of None \<Rightarrow> {} | Some n \<Rightarrow> {n}) pre = (hyd, hs, st)"
    by (rule prod_cases3)
  have sets: "hyd = (\<Union>(c, a) \<in> set pre. hydrated_by cid sid c a)"
    "st = (case given of None \<Rightarrow> {} | Some n \<Rightarrow> {n}) \<union> (\<Union>(c, a) \<in> set pre. stored_at cid sid c a)"
    using m unfolding monitor_learn by simp_all
  have "honest_record (hyd, hs, st) w g"
    using start_flow_honest_at [OF assms] m by (simp add: honest_def)
  then consider "(w, Some g) \<in> hyd" | "(w, None) \<in> hyd" "g \<in> st" by auto
  then show ?thesis
  proof cases
    case 1
    then show ?thesis by (auto simp: sets hydrated_by_def)
  next
    case 2
    then have "(CurrentGeneration cid sid, AGeneration g) \<in> set pre \<or> given = Some g"
      by (auto simp: sets stored_at_def split: option.splits)
    then show ?thesis using 2(1) by (auto simp: sets hydrated_by_def)
  qed
qed

end
