(* ===== verification/Lifecycle_Stop.thy ===== *)
theory Lifecycle_Stop
  imports Lifecycle_Fresh
begin

text \<open>
  The stop paths: when the assignment held across the final snapshot may be released, which writes of
  the desired state a stop may make, when the placement load is shed, and that every flow runs inside
  the per-server exclusion.
\<close>

section \<open>The assignment is released only over an answered snapshot\<close>

definition releases :: "call \<Rightarrow> worker_id option" where
  \<comment> \<open>the writes of the stop flows that clear the assignment, with the worker they assert\<close>
  "releases c =
     (case c of
        ClearAssignment _ w \<Rightarrow> Some w
      | RecordObserved _ _ _ clear w \<Rightarrow> if clear then Some w else None
      | _ \<Rightarrow> None)"

definition snapshot_answers :: "community_id \<Rightarrow> server_id \<Rightarrow> call \<Rightarrow> answer \<Rightarrow> (worker_id \<times> answer) set" where
  "snapshot_answers cid sid c a = {(w, a') . c = SnapshotCmd w cid sid True \<and> a' = a}"

definition stop_answers :: "server_id \<Rightarrow> call \<Rightarrow> answer \<Rightarrow> (worker_id \<times> answer) set" where
  "stop_answers sid c a = {(w, a'). (\<exists>force. c = StopCmd w sid force) \<and> a' = a}"

definition gone_workers :: "call \<Rightarrow> answer \<Rightarrow> worker_id set" where
  "gone_workers c a = {w. c = IsConnected w \<and> a = ABool False}"

type_synonym release_state = "(worker_id \<times> answer) set \<times> (worker_id \<times> answer) set \<times> worker_id set"

definition watch_release :: "community_id \<Rightarrow> server_id \<Rightarrow> release_state \<Rightarrow> call \<Rightarrow> answer \<Rightarrow> release_state" where
  "watch_release cid sid s c a =
     (fst s \<union> snapshot_answers cid sid c a, fst (snd s) \<union> stop_answers sid c a,
      snd (snd s) \<union> gone_workers c a)"

lemma monitor_release:
  "monitor (watch_release cid sid) s t =
     (fst s \<union> (\<Union>(c, a) \<in> set t. snapshot_answers cid sid c a),
      fst (snd s) \<union> (\<Union>(c, a) \<in> set t. stop_answers sid c a),
      snd (snd s) \<union> (\<Union>(c, a) \<in> set t. gone_workers c a))"
proof (induction t arbitrary: s)
  case (Cons x t)
  then show ?case by (cases x) (simp add: watch_release_def Un_assoc)
qed simp

definition snapshot_answered :: "answer \<Rightarrow> bool" where
  \<comment> \<open>the command is no longer outstanding: the worker answered it, with success or failure, or its session
    is gone. A failure answer does not rule out a late publish of an abandoned upload\<close>
  "snapshot_answered a \<longleftrightarrow> (\<exists>oc. a = AOutcome oc) \<or> a = AExn (WorkerUnavailableError False)"

definition stop_confirmed :: "answer \<Rightarrow> bool" where
  "stop_confirmed a \<longleftrightarrow> (\<exists>oc. a = AOutcome oc \<and> status oc \<in> {COK, SERVER_NOT_FOUND})"

definition may_release :: "release_state \<Rightarrow> call \<Rightarrow> bool" where
  "may_release s c \<longleftrightarrow>
     (\<forall>w. releases c = Some w \<longrightarrow>
        ((\<exists>a. (w, a) \<in> fst s) \<or> w \<in> snd (snd s)) \<and>
        (\<forall>a. (w, a) \<in> fst s \<longrightarrow> snapshot_answered a) \<and>
        (\<forall>a. (w, a) \<in> fst (snd s) \<longrightarrow> stop_confirmed a))"

abbreviation release_watch where
  "release_watch cid sid \<equiv> guarded (watch_release cid sid) may_release"

lemmas release_simps = guarded_def watch_release_def may_release_def releases_def snapshot_answers_def
  stop_answers_def gone_workers_def snapshot_answered_def stop_confirmed_def

text \<open>Calls a release flow may make that neither release nor tell the monitor anything.\<close>

definition inert :: "call \<Rightarrow> bool" where
  "inert c \<longleftrightarrow> releases c = None \<and>
     (case c of SnapshotCmd _ _ _ _ \<Rightarrow> False | StopCmd _ _ _ \<Rightarrow> False | IsConnected _ \<Rightarrow> False | _ \<Rightarrow> True)"

lemma inert_quiet: "inert c \<Longrightarrow> release_watch cid sid s c a = s"
  by (cases c) (auto simp: inert_def release_simps prod_eq_iff split: if_splits)

text \<open>The states from which a release of worker \<open>w\<close> is allowed once the snapshot was answered.\<close>

definition quiesced :: "worker_id \<Rightarrow> release_state \<times> bool \<Rightarrow> bool" where
  "quiesced w s \<longleftrightarrow> snd s \<and> fst (fst s) = {} \<and> (\<forall>a. (w, a) \<in> fst (snd (fst s)) \<longrightarrow> stop_confirmed a)"

definition releasable :: "worker_id \<Rightarrow> release_state \<times> bool \<Rightarrow> bool" where
  "releasable w s \<longleftrightarrow> snd s \<and> ((\<exists>a. (w, a) \<in> fst (fst s)) \<or> w \<in> snd (snd (fst s))) \<and>
     (\<forall>a. (w, a) \<in> fst (fst s) \<longrightarrow> snapshot_answered a) \<and>
     (\<forall>a. (w, a) \<in> fst (snd (fst s)) \<longrightarrow> stop_confirmed a)"

lemma final_snapshot_release:
  assumes "quiesced w s"
  shows "wpm answers (release_watch cid sid) (final_snapshot w cid sid)
    (\<lambda>s res. snd s \<and> (res = Inr False \<longrightarrow> releasable w s)) s"
  using assms
  by (cases s) (auto simp: final_snapshot_def release_simps quiesced_def releasable_def
      split: server_error.splits)

lemma clear_held_release:
  assumes "releasable w s"
  shows "wpm answers (release_watch cid sid) (clear_held_assignment sv w sid) (\<lambda>s res. snd s) s"
  using assms by (auto simp: clear_held_assignment_def with_uow_def release_simps releasable_def)

lemma shield_release:
  assumes "releasable w s"
  shows "wpm answers (release_watch cid sid) (shield sid (clear_held_assignment sv w sid)) (\<lambda>s res. snd s) s"
  using assms
  by (auto simp: shield_def clear_held_assignment_def with_uow_def release_simps releasable_def
      split: sum.splits)

lemma wpm_inert:
  assumes "only inert p" "\<And>x. wpm answers (release_watch cid sid) (f x) (\<lambda>s res. snd s) s" "snd s"
  shows "wpm answers (release_watch cid sid) (bnd p f) (\<lambda>s res. snd s) s"
  by (rule wpm_bndI [where R = "\<lambda>s' _. s' = s"])
    (use assms in \<open>auto intro!: wpm_quiet [OF assms(1)] simp: inert_quiet\<close>)

lemma wpm_snapshot_then:
  assumes "quiesced w s" "\<And>s live. snd s \<Longrightarrow> (\<not> live \<longrightarrow> releasable w s) \<Longrightarrow>
      wpm answers (release_watch cid sid) (f live) (\<lambda>s res. snd s) s"
  shows "wpm answers (release_watch cid sid) (bnd (final_snapshot w cid sid) f) (\<lambda>s res. snd s) s"
  by (rule wpm_bndI [OF final_snapshot_release [OF assms(1)]]) (auto intro: assms(2))

lemma inert_simps [simp]:
  "inert Now" "inert TxBegin" "inert TxEnd" "inert Commit" "inert (GetById x)"
  "inert (RecordObserved x st n False w)" "inert (TunnelSync x w p b)" "inert (ForgetRefusal x)"
  "inert (RecordRefusal x oc n)" "inert (Decrement w x)" "inert (UpdateLifecycle sv e b)"
  "inert (InFlight x)" "inert (AddClaim x)" "inert (DiscardClaim x)"
  by (simp_all add: inert_def releases_def)

lemma record_stopped_release:
  assumes "quiesced w s"
  shows "wpm answers (release_watch cid sid) (record_stopped_then_final_snapshot sv w cid sid)
    (\<lambda>s res. snd s) s"
  unfolding record_stopped_then_final_snapshot_def
  by (intro wpm_inert wpm_snapshot_then [OF assms])
    (use assms in \<open>auto simp: quiesced_def intro!: shield_release\<close>)

lemma release_after_release:
  assumes "quiesced w s"
  shows "wpm answers (release_watch cid sid) (release_after_final_snapshot sv w cid sid) (\<lambda>s res. snd s) s"
proof -
  have tail: "wpm answers (release_watch cid sid)
     (bnd (when_do b (perform (TunnelSync sid w port False))) (\<lambda>_.
      bnd (final_snapshot w cid sid) (\<lambda>live.
        if b \<and> \<not> live then shield sid (clear_held_assignment sv' w sid) else Return sv')))
     (\<lambda>s res. snd s) s" for b port sv'
    by (intro wpm_inert wpm_snapshot_then [OF assms])
      (use assms in \<open>auto simp: quiesced_def intro!: shield_release\<close>)
  show ?thesis
    unfolding release_after_final_snapshot_def
    by (intro wpm_inert)
      (use assms tail in \<open>auto simp: quiesced_def simp del: wpm_bnd split: option.splits\<close>)
qed

definition unopened :: "release_state \<times> bool \<Rightarrow> bool" where
  "unopened s \<longleftrightarrow> snd s \<and> fst (fst s) = {} \<and> fst (snd (fst s)) = {}"

lemma unopened_quiesced: "unopened s \<Longrightarrow> quiesced w s"
  by (simp add: unopened_def quiesced_def)

text \<open>Sending the stop and settling its answer.\<close>

lemma stop_then:
  assumes "unopened s"
    and "\<And>oc s. success oc \<or> status oc = SERVER_NOT_FOUND \<Longrightarrow> quiesced w s \<Longrightarrow>
      wpm answers (release_watch cid sid) (f oc) (\<lambda>s res. snd s) s"
    and "\<And>oc. \<not> success oc \<Longrightarrow> status oc \<noteq> SERVER_NOT_FOUND \<Longrightarrow> only inert (f oc)"
  shows "wpm answers (release_watch cid sid) (bnd (command (StopCmd w sid force)) f) (\<lambda>s res. snd s) s"
proof -
  let ?s = "\<lambda>a. release_watch cid sid s (StopCmd w sid force) a"
  have ok: "snd (?s a)" for a using assms(1) by (simp add: unopened_def release_simps)
  have "wpm answers (release_watch cid sid) (f oc) (\<lambda>s res. snd s) (?s (AOutcome oc))" for oc
  proof (cases "success oc \<or> status oc = SERVER_NOT_FOUND")
    case True
    then have "quiesced w (?s (AOutcome oc))"
      using assms(1) by (auto simp: unopened_def quiesced_def release_simps success_def)
    then show ?thesis using True assms(2) by blast
  next
    case False
    then show ?thesis using assms(3) [of oc] ok
      by (intro wpm_quiet [where K = inert]) (auto simp: inert_quiet)
  qed
  then show ?thesis using ok by simp
qed

lemma load_only_inert: "only inert (load_server cid sid)"
  by (auto simp: load_server_def split: option.splits)

lemma redispatch_stop_release:
  assumes "unopened s"
  shows "wpm answers (release_watch cid sid) (redispatch_stop_body cid sid force) (\<lambda>s res. snd s) s"
  unfolding redispatch_stop_body_def
proof (rule wpm_inert)
  show "only inert (with_uow (bnd (load_server cid sid) (\<lambda>s.
      case assigned s of
        Some w \<Rightarrow> if desired s = STOPPED then Return (s, w) else Raise InvalidLifecycleTransitionError
      | None \<Rightarrow> Raise InvalidLifecycleTransitionError)))"
    by (auto intro!: load_only_inert split: option.splits)
  show "wpm answers (release_watch cid sid)
     (case x of (sv, w) \<Rightarrow>
        bnd (perform (ForgetRefusal sid)) (\<lambda>_.
        bnd (command (StopCmd w sid force)) (\<lambda>oc.
          if \<not> success oc \<and> status oc \<noteq> SERVER_NOT_FOUND
          then bnd now (\<lambda>t.
               bnd (perform (RecordRefusal sid oc t)) (\<lambda>_. Raise (dispatch_failure oc None)))
          else if status oc = SERVER_NOT_FOUND then release_after_final_snapshot sv w cid sid
          else record_stopped_then_final_snapshot sv w cid sid))) (\<lambda>s res. snd s) s" for x
    by (cases x, simp only: prod.case, intro wpm_inert stop_then [OF assms])
      (use assms in \<open>auto simp: unopened_def intro!: release_after_release record_stopped_release\<close>)
qed (use assms in \<open>simp add: unopened_def\<close>)

lemma stale_validate_release:
  assumes "unopened s"
  shows "wpm answers (release_watch cid sid) (stale_validate cid sid)
    (\<lambda>s res. unopened s \<and>
       (\<forall>sv w. res = Inr (sv, w) \<longrightarrow> observed sv \<in> {OStopped, OCrashed} \<or> w \<in> snd (snd (fst s)))) s"
  using assms
  by (auto simp: stale_validate_def load_server_def with_uow_def release_simps unopened_def
      split: option.splits)

lemma stale_resnapshot_release:
  assumes "unopened s" "observed sv \<in> {OStopped, OCrashed} \<or> w \<in> snd (snd (fst s))"
  shows "wpm answers (release_watch cid sid) (stale_resnapshot sv w cid sid)
    (\<lambda>s res. snd s \<and> (res = Inr () \<longrightarrow> releasable w s)) s"
  using assms
  by (auto simp: stale_resnapshot_def final_snapshot_def release_simps unopened_def releasable_def
      split: server_error.splits)

lemma stale_clear_release:
  assumes "releasable w s"
  shows "wpm answers (release_watch cid sid) (stale_clear sv w sid) (\<lambda>s res. snd s) s"
  using assms by (auto simp: stale_clear_def with_uow_def release_simps releasable_def)

lemma clear_stale_release:
  assumes "unopened s"
  shows "wpm answers (release_watch cid sid) (clear_stale_assignment_body cid sid) (\<lambda>s res. snd s) s"
  unfolding clear_stale_assignment_body_def
proof (rule wpm_bndI [OF stale_validate_release [OF assms]])
  fix s :: "release_state \<times> bool" and x :: "server \<times> worker_id"
  assume "unopened s \<and>
     (\<forall>sv w. Inr x = (Inr (sv, w) :: server_error + server \<times> worker_id) \<longrightarrow>
        observed sv \<in> {OStopped, OCrashed} \<or> w \<in> snd (snd (fst s)))"
  then show "wpm answers (release_watch cid sid)
     (case x of (sv, w) \<Rightarrow> bnd (stale_resnapshot sv w cid sid) (\<lambda>_. stale_clear sv w sid)) (\<lambda>s res. snd s) s"
    by (cases x) (auto intro!: wpm_bndI [OF stale_resnapshot_release] stale_clear_release simp del: wpm_bnd)
qed (simp add: unopened_def)

lemma stop_intent_release:
  assumes "unopened s"
  shows "wpm answers (release_watch cid sid) (stop_intent cid sid) (\<lambda>s res. unopened s) s"
  using assms
  by (auto simp: stop_intent_def stopped_intent_action_def mark_stopped_def load_server_def with_uow_def
      release_simps unopened_def Let_def split: option.splits)

lemma stop_dispatch_release:
  assumes "unopened s"
  shows "wpm answers (release_watch cid sid) (stop_dispatch sv w cid sid force) (\<lambda>s res. snd s) s"
  unfolding stop_dispatch_def
  by (intro wpm_inert stop_then [OF assms])
    (use assms in \<open>auto simp: unopened_def success_def intro!: release_after_release record_stopped_release\<close>)

lemma stop_body_release:
  assumes "unopened s"
  shows "wpm answers (release_watch cid sid) (stop_body cid sid force) (\<lambda>s res. snd s) s"
  unfolding stop_body_def
  by (rule wpm_bndI [OF stop_intent_release [OF assms]])
    (auto simp: unopened_def [THEN iffD1] intro!: redispatch_stop_release clear_stale_release stop_dispatch_release
      split: sum.splits)

lemma wpm_claim:
  assumes "\<And>s a. m s (InFlight sid) a = s" "\<And>s a. m s (AddClaim sid) a = s" "\<And>s a. m s (DiscardClaim sid) a = s"
    "wpm answers m p Q s" "\<And>e. Q s (Inl e)"
  shows "wpm answers m (claim sid p) Q s"
  using assms by (simp add: claim_def)

definition stop_flow :: "community_id \<Rightarrow> server_id \<Rightarrow> server lc \<Rightarrow> bool" where
  "stop_flow cid sid p \<longleftrightarrow>
     (\<exists>force. p = stop_server cid sid force \<or> p = redispatch_stop cid sid force) \<or>
     p = clear_stale_assignment cid sid"

lemma stop_flow_release:
  assumes "stop_flow cid sid p"
  shows "wpm answers (release_watch cid sid) p (\<lambda>s res. snd s) (({}, {}, {}), True)"
proof -
  have "unopened (({}, {}, {}), True)" by (simp add: unopened_def)
  then show ?thesis
    using assms unfolding stop_flow_def stop_server_def redispatch_stop_def clear_stale_assignment_def
    by (auto intro!: wpm_claim stop_body_release redispatch_stop_release clear_stale_release simp: inert_quiet)
qed

text \<open>
  C4. A stop lets go of its worker only once its final snapshot is no longer outstanding. In every run of
  a stop, a re-dispatched stop or the release of a wedged stop, a write that clears the assignment of
  worker \<open>w\<close> comes only after the run sent \<open>w\<close> a final snapshot or found \<open>w\<close> disconnected; every final
  snapshot the run had sent to \<open>w\<close> was answered, with success or failure, or ended with the session of the
  worker, and none ended in a timeout that may leave its upload running, in a cancellation or in any other
  error; and every stop the run had sent to \<open>w\<close> was confirmed (it succeeded, or the worker does not know
  the server). A failure answer does not show that the transfer is over: the upload a worker abandoned at
  its deadline may still publish, and it is the fence of the store and the read of the settled generation
  by the next start that order it, not this release.
\<close>

theorem release_only_after_answered_snapshot:
  assumes "stop_flow cid sid p" "runs answers p (pre @ (c, a) # post) res" "releases c = Some w"
  shows "((\<exists>b. (SnapshotCmd w cid sid True, b) \<in> set pre) \<or> (IsConnected w, ABool False) \<in> set pre) \<and>
    (\<forall>b. (SnapshotCmd w cid sid True, b) \<in> set pre \<longrightarrow> snapshot_answered b) \<and>
    (\<forall>force b. (StopCmd w sid force, b) \<in> set pre \<longrightarrow> stop_confirmed b)"
proof -
  have "may_release (monitor (watch_release cid sid) ({}, {}, {}) pre) c"
    using wpm_runs [OF stop_flow_release [OF assms(1)] assms(2)] by (rule monitor_guarded_at)
  then show ?thesis using assms(3)
    unfolding may_release_def monitor_release snapshot_answers_def stop_answers_def gone_workers_def
    by fastforce
qed

end
