(* ===== verification/Lifecycle_Load.thy ===== *)
theory Lifecycle_Load
  imports Lifecycle_Stop
begin

text \<open>
  The placement load and the exclusion of the stop flows: a flow sheds a worker's load at most once and
  only for a flip of the row it applied and committed itself, and a stop flow either refuses before any
  effect or runs between taking and dropping the per-server claim.
\<close>

section \<open>Load is shed only for an applied flip\<close>

text \<open>\<open>0\<close>: no flip applied; \<open>1\<close>: applied, not committed; \<open>2\<close>: committed.\<close>

definition flips :: "call \<Rightarrow> bool" where
  \<comment> \<open>a compare-and-set that moves a running row out of running or off its worker\<close>
  "flips c \<longleftrightarrow> (case c of
     UpdateLifecycle row e ru \<Rightarrow> e = RUNNING \<and> \<not> ru \<and> (desired row = STOPPED \<or> assigned row = None)
   | _ \<Rightarrow> False)"

definition sheds :: "call \<Rightarrow> bool" where
  "sheds c \<longleftrightarrow> (case c of Decrement _ _ \<Rightarrow> True | _ \<Rightarrow> False)"

definition watch_load :: "nat \<times> nat \<Rightarrow> call \<Rightarrow> answer \<Rightarrow> nat \<times> nat" where
  "watch_load s c a =
     (if flips c \<and> a = ABool True then 1
      else if c = Commit \<and> a = AUnit \<and> fst s = 1 then 2 else fst s,
      if sheds c then snd s + 1 else snd s)"

definition may_shed :: "nat \<times> nat \<Rightarrow> call \<Rightarrow> bool" where
  "may_shed s c \<longleftrightarrow> (sheds c \<longrightarrow> s = (2, 0))"

lemma monitor_load_count: "snd (monitor watch_load s t) = snd s + length (filter sheds (map fst t))"
proof (induction t arbitrary: s)
  case (Cons x t)
  then show ?case by (cases x) (simp add: watch_load_def)
qed simp

lemma monitor_load_stage:
  "fst (monitor watch_load (0, n) t) \<le> 2 \<and>
   (fst (monitor watch_load (0, n) t) \<ge> 1 \<longrightarrow> (\<exists>u c v. t = u @ (c, ABool True) # v \<and> flips c)) \<and>
   (fst (monitor watch_load (0, n) t) = 2 \<longrightarrow>
      (\<exists>u c v x. t = u @ (c, ABool True) # v @ (Commit, AUnit) # x \<and> flips c))"
proof (induction t rule: rev_induct)
  case (snoc y t)
  obtain c a where y: "y = (c, a)" by (cases y)
  let ?s = "monitor watch_load (0, n) t"
  have stage: "fst (monitor watch_load (0, n) (t @ [y])) =
      (if flips c \<and> a = ABool True then 1
       else if c = Commit \<and> a = AUnit \<and> fst ?s = 1 then 2 else fst ?s)"
    by (simp add: y watch_load_def)
  have one: "\<exists>u c v. t @ [y] = u @ (c, ABool True) # v \<and> flips c" if "fst ?s \<ge> 1"
    using snoc that by (metis append_Cons append_assoc)
  have two: "\<exists>u c v x. t @ [y] = u @ (c, ABool True) # v @ (Commit, AUnit) # x \<and> flips c" if at2: "fst ?s = 2"
  proof -
    obtain u c' v x where "t = u @ (c', ABool True) # v @ (Commit, AUnit) # x" "flips c'" using snoc at2 by blast
    then show ?thesis by (intro exI [of _ u] exI [of _ c'] exI [of _ v] exI [of _ "x @ [y]"]) simp
  qed
  show ?case
  proof (cases "flips c \<and> a = ABool True")
    case True
    then show ?thesis using stage y by auto
  next
    case False
    show ?thesis
    proof (cases "c = Commit \<and> a = AUnit \<and> fst ?s = 1")
      case True
      then obtain u c' v where "t = u @ (c', ABool True) # v" and fl: "flips c'" using snoc by auto
      then have "t @ [y] = u @ (c', ABool True) # v @ (Commit, AUnit) # []" using True y by simp
      with fl have both: "\<exists>u c v x. t @ [y] = u @ (c, ABool True) # v @ (Commit, AUnit) # x \<and> flips c" by blast
      then have "\<exists>u c v. t @ [y] = u @ (c, ABool True) # v \<and> flips c" by blast
      moreover have "fst (monitor watch_load (0, n) (t @ [y])) = 2" using stage False True by simp
      ultimately show ?thesis using both by simp
    next
      case no: False
      then show ?thesis using stage False snoc one two by (simp only: if_False) blast
    qed
  qed
qed simp

abbreviation load_watch :: "(nat \<times> nat) \<times> bool \<Rightarrow> call \<Rightarrow> answer \<Rightarrow> (nat \<times> nat) \<times> bool" where
  "load_watch \<equiv> guarded watch_load may_shed"

definition load_silent :: "call \<Rightarrow> bool" where
  \<comment> \<open>calls the monitor does not look at, but for a commit\<close>
  "load_silent c \<longleftrightarrow> \<not> flips c \<and> \<not> sheds c"

definition no_flip_yet :: "(nat \<times> nat) \<times> bool \<Rightarrow> bool" where
  "no_flip_yet s \<longleftrightarrow> s = ((0, 0), True)"

definition flip_done :: "(nat \<times> nat) \<times> bool \<Rightarrow> bool" where
  "flip_done s \<longleftrightarrow> s = ((2, 0), True)"

lemma silent_no_flip: "no_flip_yet s \<Longrightarrow> load_silent c \<Longrightarrow> no_flip_yet (load_watch s c a)"
  by (auto simp: no_flip_yet_def load_silent_def guarded_def watch_load_def may_shed_def)

lemma silent_ok: "snd s \<Longrightarrow> load_silent c \<Longrightarrow> snd (load_watch s c a)"
  by (simp add: load_silent_def guarded_def may_shed_def)

lemma wpm_silent: "only load_silent p \<Longrightarrow> snd s \<Longrightarrow> wpm answers load_watch p (\<lambda>s res. snd s) s"
  by (rule wpm_inv [of load_silent]) (auto intro: silent_ok)

lemma wpm_silent_then:
  assumes "only load_silent p" "no_flip_yet s"
    "\<And>s x. no_flip_yet s \<Longrightarrow> wpm answers load_watch (f x) (\<lambda>s res. snd s) s"
  shows "wpm answers load_watch (bnd p f) (\<lambda>s res. snd s) s"
  by (rule wpm_bndI [where R = "\<lambda>s _. no_flip_yet s"])
    (use assms in \<open>auto intro!: wpm_inv [of load_silent] silent_no_flip dest: no_flip_yet_def [THEN iffD1]\<close>)

lemmas load_simps = guarded_def watch_load_def may_shed_def flips_def sheds_def

lemma compensate_load:
  assumes "no_flip_yet s"
  shows "wpm answers load_watch (compensate cid sid w) (\<lambda>s res. snd s) s"
    and "wpm answers load_watch (unassign cid sid w) (\<lambda>s res. snd s) s"
  using assms
  by (auto simp: compensate_def unassign_def with_uow_def load_simps no_flip_yet_def split: option.splits)

lemma stop_intent_load:
  assumes "no_flip_yet s"
  shows "wpm answers load_watch (stop_intent cid sid)
    (\<lambda>s res. snd s \<and> (\<forall>x. res = Inr (Inl x) \<longrightarrow> no_flip_yet s) \<and> (\<forall>x. res = Inr (Inr x) \<longrightarrow> flip_done s)) s"
  using assms
  by (auto simp: stop_intent_def stopped_intent_action_def mark_stopped_def load_server_def with_uow_def
      load_simps no_flip_yet_def flip_done_def Let_def split: option.splits)

lemma stop_side_silent:
  "only load_silent (redispatch_stop_body cid sid force)"
  "only load_silent (clear_stale_assignment_body cid sid)"
  "only load_silent (release_after_final_snapshot sv w cid sid)"
  "only load_silent (record_stopped_then_final_snapshot sv w cid sid)"
proof -
  have load: "only load_silent (load_server cid sid)"
    by (auto simp: load_server_def load_silent_def flips_def sheds_def split: option.splits)
  have snap: "only load_silent (final_snapshot w cid sid)" for w
    by (auto simp: final_snapshot_def load_silent_def flips_def sheds_def split: server_error.splits)
  have clear: "only load_silent (shield sid (clear_held_assignment sv w sid))" for sv w
    by (auto simp: shield_def clear_held_assignment_def load_silent_def flips_def sheds_def split: sum.splits)
  show rel: "only load_silent (release_after_final_snapshot sv w cid sid)" for sv w
    unfolding release_after_final_snapshot_def
    by (auto simp: load_silent_def flips_def sheds_def split: option.splits intro!: snap clear)
  show rec: "only load_silent (record_stopped_then_final_snapshot sv w cid sid)" for sv w
    unfolding record_stopped_then_final_snapshot_def
    by (auto simp: load_silent_def flips_def sheds_def intro!: snap clear)
  show "only load_silent (redispatch_stop_body cid sid force)"
    unfolding redispatch_stop_body_def
    by (auto simp: load_silent_def flips_def sheds_def split: option.splits intro!: load rel rec)
  show "only load_silent (clear_stale_assignment_body cid sid)"
    unfolding clear_stale_assignment_body_def stale_validate_def stale_resnapshot_def stale_clear_def
    by (auto simp: load_silent_def flips_def sheds_def split: option.splits intro!: load snap)
qed

lemma stop_body_load:
  assumes "no_flip_yet s"
  shows "wpm answers load_watch (stop_body cid sid force) (\<lambda>s res. snd s) s"
  unfolding stop_body_def stop_dispatch_def
proof (rule wpm_bndI [OF stop_intent_load [OF assms]])
  fix s :: "(nat \<times> nat) \<times> bool" and r :: "intent_action + server \<times> worker_id"
  assume post: "snd s \<and> (\<forall>x. Inr r = (Inr (Inl x) :: server_error + _) \<longrightarrow> no_flip_yet s) \<and>
     (\<forall>x. Inr r = (Inr (Inr x) :: server_error + _) \<longrightarrow> flip_done s)"
  have tail: "only load_silent
     (bnd (perform (ForgetRefusal sid)) (\<lambda>_.
      bnd (command (StopCmd w sid force)) (\<lambda>oc.
        if status oc = SERVER_NOT_FOUND then release_after_final_snapshot sv w cid sid
        else if \<not> success oc
        then bnd now (\<lambda>t.
             bnd (perform (RecordRefusal sid oc t)) (\<lambda>_. Raise (dispatch_failure oc None)))
        else record_stopped_then_final_snapshot sv w cid sid)))" for sv w
    by (auto simp: load_silent_def flips_def sheds_def intro!: stop_side_silent)
  show "wpm answers load_watch
     (case r of
        Inl owed \<Rightarrow>
          if owed = RedispatchStop then redispatch_stop_body cid sid force
          else clear_stale_assignment_body cid sid
      | Inr (sv, w) \<Rightarrow>
          bnd (perform (Decrement w sid)) (\<lambda>_.
          bnd (perform (ForgetRefusal sid)) (\<lambda>_.
          bnd (command (StopCmd w sid force)) (\<lambda>oc.
            if status oc = SERVER_NOT_FOUND then release_after_final_snapshot sv w cid sid
            else if \<not> success oc
            then bnd now (\<lambda>t.
                 bnd (perform (RecordRefusal sid oc t)) (\<lambda>_. Raise (dispatch_failure oc None)))
            else record_stopped_then_final_snapshot sv w cid sid)))) (\<lambda>s res. snd s) s"
    using post
    by (auto simp: wpm_bnd [of _ _ "perform (Decrement _ _)"] load_simps flip_done_def simp del: wpm_bnd
        split: sum.splits intro!: wpm_silent stop_side_silent tail)
qed simp

lemma start_side_silent:
  "only load_silent (start_commit cid sid b)" "only load_silent (place_commit cid sid)"
  "only load_silent (launch sv cid sid w att skip)" "only load_silent (converge_running sv sid w)"
  "only load_silent (read_generations cid sid w)"
proof -
  have "placement_call e c \<Longrightarrow> load_silent c" for e c
    by (cases c) (auto simp: placement_call_def load_silent_def flips_def sheds_def)
  then show "only load_silent (start_commit cid sid b)" "only load_silent (place_commit cid sid)"
    using only_start_commit only_place_commit by (blast intro: only_mono)+
  have hyd: "only load_silent (hydrate_phase cid sid w)"
    by (auto simp: hydrate_phase_def generation_before_hydrate_def load_silent_def flips_def sheds_def
        split: option.splits)
  have "only load_silent (launch sv cid sid w att False)" for att
    unfolding launch.simps [of sv cid sid w att False]
    by (auto simp: hyd load_silent_def flips_def sheds_def split: sum.splits option.splits)
  then show "only load_silent (launch sv cid sid w att skip)"
    by (cases skip, subst launch.simps)
      (auto simp: load_silent_def flips_def sheds_def split: sum.splits option.splits)
  show "only load_silent (converge_running sv sid w)" "only load_silent (read_generations cid sid w)"
    by (auto simp: converge_running_def read_generations_def load_silent_def flips_def sheds_def)
qed

lemma wpm_raise_after:
  "wpm answers m p (\<lambda>s res. snd s) s \<Longrightarrow> wpm answers m (bnd p (\<lambda>_. Raise e)) (\<lambda>s res. snd s) s"
  unfolding wpm_bnd by (erule wpm_mono) (simp split: sum.splits)

lemma no_flip_ok: "no_flip_yet s \<Longrightarrow> snd s"
  by (simp add: no_flip_yet_def)

lemma settle_load:
  assumes "no_flip_yet s"
  shows "wpm answers load_watch (settle_start sv cid sid w att r) (\<lambda>s res. snd s) s"
    and "wpm answers load_watch (settle_placed sv cid sid w att r) (\<lambda>s res. snd s) s"
  using assms unfolding settle_start_def settle_placed_def
  by (auto simp: no_flip_ok simp del: wpm_bnd split: sum.splits server_error.splits
      intro!: wpm_raise_after compensate_load wpm_silent start_side_silent)

lemma start_server_load:
  "wpm answers load_watch (start_server cid sid b) (\<lambda>s res. snd s) ((0, 0), True)"
  unfolding start_server_def start_dispatch_def
  by (intro wpm_silent_then start_side_silent only_attempt)
    (auto simp: no_flip_ok simp del: wpm_bnd split: sum.splits
      intro!: wpm_silent_then [OF start_side_silent(1)] wpm_silent_then [OF start_side_silent(3)]
        wpm_silent_then [OF only_attempt, OF start_side_silent(5)]
        settle_load wpm_raise_after compensate_load, simp_all add: no_flip_yet_def)

lemma place_and_start_load:
  "wpm answers load_watch (place_and_start cid sid) (\<lambda>s res. snd s) ((0, 0), True)"
  unfolding place_and_start_def place_dispatch_def
  by (intro wpm_silent_then [OF start_side_silent(2)])
    (auto simp del: wpm_bnd intro!: wpm_silent_then [OF start_side_silent(3)] settle_load,
      simp_all add: no_flip_yet_def)

lemma other_flows_silent:
  "only load_silent (redispatch_start cid sid g)" "only load_silent (restart_server cid sid)"
  "only load_silent (send_server_command cid sid line)"
  by (auto simp: redispatch_start_def restart_server_def send_server_command_def load_server_def
      load_silent_def flips_def sheds_def Let_def split: option.splits sum.splits
      intro!: start_side_silent(3,4))

lemma other_flows_load:
  "wpm answers load_watch (redispatch_start cid sid g) (\<lambda>s res. snd s) ((0, 0), True)"
  "wpm answers load_watch (restart_server cid sid) (\<lambda>s res. snd s) ((0, 0), True)"
  "wpm answers load_watch (claim sid (stop_body cid sid force)) (\<lambda>s res. snd s) ((0, 0), True)"
  "wpm answers load_watch (claim sid (redispatch_stop_body cid sid force)) (\<lambda>s res. snd s) ((0, 0), True)"
  "wpm answers load_watch (claim sid (clear_stale_assignment_body cid sid)) (\<lambda>s res. snd s) ((0, 0), True)"
  by (rule wpm_silent, rule other_flows_silent, simp)+
    (rule wpm_claim; auto intro!: stop_body_load wpm_silent [OF stop_side_silent(1)]
      wpm_silent [OF stop_side_silent(2)] simp: no_flip_yet_def load_simps)+

definition lifecycle_flow :: "server lc \<Rightarrow> bool" where
  "lifecycle_flow p \<longleftrightarrow> (\<exists>cid sid b g.
     p \<in> {start_server cid sid b, place_and_start cid sid, redispatch_start cid sid g,
          stop_server cid sid b, redispatch_stop cid sid b, clear_stale_assignment cid sid,
          restart_server cid sid})"

lemma lifecycle_flow_load:
  assumes "lifecycle_flow p"
  shows "wpm answers load_watch p (\<lambda>s res. snd s) ((0, 0), True)"
  using assms start_server_load place_and_start_load other_flows_load
  unfolding lifecycle_flow_def stop_server_def redispatch_stop_def clear_stale_assignment_def
  by blast

text \<open>
  C34. No flow of the lifecycle sheds load it did not own. In every run of every use case, a worker's
  placement load is decremented at most once, and only after a compare-and-set of that same run moved a
  row still desired running to stopped (or off its worker) and the transaction committed; a lost race, a
  failed commit and the replays of the reconciler shed nothing.
\<close>

theorem load_shed_once_per_applied_flip:
  assumes "lifecycle_flow p" "runs answers p (pre @ (Decrement w sid, a) # post) res"
  shows "(\<exists>u row v x. pre = u @ (UpdateLifecycle row RUNNING False, ABool True) # v @ (Commit, AUnit) # x \<and>
      (desired row = STOPPED \<or> assigned row = None)) \<and>
    \<not> (\<exists>w' sid' b. (Decrement w' sid', b) \<in> set pre)"
proof -
  have "may_shed (monitor watch_load (0, 0) pre) (Decrement w sid)"
    using wpm_runs [OF lifecycle_flow_load [OF assms(1)] assms(2)] by (rule monitor_guarded_at)
  then have m: "monitor watch_load (0, 0) pre = (2, 0)" by (simp add: may_shed_def sheds_def)
  then obtain u c v x where "pre = u @ (c, ABool True) # v @ (Commit, AUnit) # x" "flips c"
    using monitor_load_stage [of 0 pre] by auto
  moreover from \<open>flips c\<close> obtain row where "c = UpdateLifecycle row RUNNING False"
    "desired row = STOPPED \<or> assigned row = None" by (cases c) (auto simp: flips_def)
  ultimately have "\<exists>u row v x. pre = u @ (UpdateLifecycle row RUNNING False, ABool True) # v @ (Commit, AUnit) # x \<and>
      (desired row = STOPPED \<or> assigned row = None)" by blast
  moreover have "filter (sheds \<circ> fst) pre = []" using m monitor_load_count [of "(0, 0)" pre] by (simp add: filter_map)
  then have "\<not> (\<exists>w' sid' b. (Decrement w' sid', b) \<in> set pre)" by (force simp: filter_empty_conv sheds_def)
  ultimately show ?thesis by blast
qed

section \<open>The exclusion\<close>

definition unguarded :: "call \<Rightarrow> bool" where
  "unguarded c \<longleftrightarrow> (case c of InFlight _ \<Rightarrow> False | AddClaim _ \<Rightarrow> False | DiscardClaim _ \<Rightarrow> False | _ \<Rightarrow> True)"

lemma claim_runs:
  assumes "runs answers (claim sid p) t res"
  shows "t = [(InFlight sid, ABool True)] \<and> res = Inl LifecycleTransitionConflictError \<or>
    (\<exists>u. t = (InFlight sid, ABool False) # (AddClaim sid, AUnit) # u @ [(DiscardClaim sid, AUnit)] \<and>
         runs answers p u res)"
proof -
  have "wpm answers (\<lambda>t c a. t @ [(c, a)]) (claim sid p) (\<lambda>t res.
      t = [(InFlight sid, ABool True)] \<and> res = Inl LifecycleTransitionConflictError \<or>
      (\<exists>u. t = (InFlight sid, ABool False) # (AddClaim sid, AUnit) # u @ [(DiscardClaim sid, AUnit)] \<and>
           runs answers p u res)) []"
    unfolding claim_def by (auto simp: wpm_iff [of _ _ p] monitor_trace)
  from wpm_runs [OF this assms] show ?thesis by (simp add: monitor_trace)
qed

lemma stop_bodies_unguarded:
  "only unguarded (stop_body cid sid force)"
  "only unguarded (redispatch_stop_body cid sid force)"
  "only unguarded (clear_stale_assignment_body cid sid)"
proof -
  have load: "only unguarded (load_server cid sid)"
    by (auto simp: load_server_def unguarded_def split: option.splits)
  have snap: "only unguarded (final_snapshot w cid sid)" for w
    by (auto simp: final_snapshot_def unguarded_def split: server_error.splits)
  have clear: "only unguarded (shield sid (clear_held_assignment sv w sid))" for sv w
    by (auto simp: shield_def clear_held_assignment_def unguarded_def split: sum.splits)
  have rel: "only unguarded (release_after_final_snapshot sv w cid sid)" for sv w
    unfolding release_after_final_snapshot_def
    by (auto simp: unguarded_def split: option.splits intro!: snap clear)
  have rec: "only unguarded (record_stopped_then_final_snapshot sv w cid sid)" for sv w
    unfolding record_stopped_then_final_snapshot_def by (auto simp: unguarded_def intro!: snap clear)
  show re: "only unguarded (redispatch_stop_body cid sid force)"
    unfolding redispatch_stop_body_def
    by (auto simp: unguarded_def split: option.splits intro!: load rel rec)
  show cl: "only unguarded (clear_stale_assignment_body cid sid)"
    unfolding clear_stale_assignment_body_def stale_validate_def stale_resnapshot_def stale_clear_def
    by (auto simp: unguarded_def split: option.splits intro!: load snap)
  show "only unguarded (stop_body cid sid force)"
    unfolding stop_body_def stop_intent_def stop_dispatch_def mark_stopped_def stopped_intent_action_def
    by (auto simp: unguarded_def Let_def split: option.splits sum.splits intro!: load rel rec re cl)
qed

text \<open>
  A stop flow has no effect outside the exclusion. A run of a stop, of a re-dispatched stop or of
  the release of a wedged stop either finds the server in flight and raises the conflict having made no
  other call, or takes the claim at once, makes all its other calls while holding it, and gives it back
  as its last act on every path.
\<close>

theorem stop_flow_runs_under_claim:
  assumes "stop_flow cid sid p" "runs answers p t res"
  shows "t = [(InFlight sid, ABool True)] \<and> res = Inl LifecycleTransitionConflictError \<or>
    (\<exists>u. t = (InFlight sid, ABool False) # (AddClaim sid, AUnit) # u @ [(DiscardClaim sid, AUnit)] \<and>
         (\<forall>c a. (c, a) \<in> set u \<longrightarrow> unguarded c))"
proof -
  obtain body where p: "p = claim sid body" and body: "only unguarded body"
    using assms(1) stop_bodies_unguarded
    unfolding stop_flow_def stop_server_def redispatch_stop_def clear_stale_assignment_def by blast
  from claim_runs [OF assms(2) [unfolded p]] show ?thesis
    using only_runs [OF body] by blast
qed

end
