(* ===== verification/Lifecycle_Db.thy ===== *)
theory Lifecycle_Db
  imports Lifecycle_Load
begin

text \<open>
  The lifecycle programs run against the server table: a transaction works on a copy of the table that
  \<open>Commit\<close> makes durable and \<open>TxEnd\<close> discards, every other port is a function \<open>ext\<close> of the call. The
  results are the rows a stop and a compensation leave behind.
\<close>

section \<open>The handler\<close>

type_synonym db = "table \<times> table"

definition db_handler :: "(call \<Rightarrow> answer) \<Rightarrow> call \<Rightarrow> db \<Rightarrow> answer \<times> db" where
  "db_handler ext c d =
     (let (t, p) = d
      in case c of
           TxBegin \<Rightarrow> (AUnit, (t, t))
         | TxEnd \<Rightarrow> (AUnit, (t, t))
         | Commit \<Rightarrow> (AUnit, (p, p))
         | GetById sid \<Rightarrow> (AServer (get_by_id p sid), d)
         | ListRunningAssigned \<Rightarrow> (AServers (list_desired_running_assigned p), d)
         | ListReconcilable \<Rightarrow> (AServers (list_reconcilable p), d)
         | UpdateLifecycle s e ru \<Rightarrow>
             (let (b, p', fs) = update_lifecycle p s e ru in (ABool b, (t, p')))
         | RecordObserved sid st n un w \<Rightarrow>
             (let (b, p', fs) = record_observed_state p sid st n un (Some w) [] [] None in (ABool b, (t, p')))
         | ClearAssignment sid w \<Rightarrow>
             (let (b, p') = clear_assignment_after_final_snapshot p sid w in (ABool b, (t, p')))
         | _ \<Rightarrow> (if kind_of c = KUnit then AUnit else ext c, d))"

definition db_wf :: "db \<Rightarrow> bool" where
  "db_wf d \<longleftrightarrow> table_wf (fst d) \<and> table_wf (snd d)"

definition well_typed :: "(call \<Rightarrow> answer) \<Rightarrow> bool" where
  "well_typed ext \<longleftrightarrow> (\<forall>c. kind_of c \<notin> {KUnit, KServer} \<longrightarrow> answers c (ext c))"

lemma update_lifecycle_wf: "table_wf t \<Longrightarrow> table_wf (fst (snd (update_lifecycle t s e ru)))"
  by (auto simp: update_lifecycle_def Let_def intro: table_wf_sql_update)

lemma record_observed_wf: "table_wf t \<Longrightarrow> table_wf (fst (snd (record_observed_state t k st n un ew d r em)))"
  by (auto simp: repo_simps dest: table_wfD split: option.splits intro!: table_wf_dset)

lemma clear_assignment_wf: "table_wf t \<Longrightarrow> table_wf (snd (clear_assignment_after_final_snapshot t k w))"
  by (auto simp: clear_assignment_after_final_snapshot_def Let_def intro: table_wf_sql_update)

lemma answers_simps:
  "kind_of c = KUnit \<Longrightarrow> answers c AUnit" "kind_of c = KBool \<Longrightarrow> answers c (ABool b)"
  "kind_of c = KServers \<Longrightarrow> answers c (AServers l)" "answers (GetById (s_id row)) (AServer (Some row))"
  "answers (GetById sid) (AServer None)"
  by (simp_all add: answers_def)

lemma get_by_id_answers: "table_wf t \<Longrightarrow> answers (GetById sid) (AServer (get_by_id t sid))"
  by (cases "dget t sid") (auto simp: get_by_id_def answers_def dest: table_wfD)

lemma db_handler_typed:
  assumes "well_typed ext" "db_wf d"
  shows "answers c (fst (db_handler ext c d)) \<and> db_wf (snd (db_handler ext c d))"
proof -
  obtain t p where d: "d = (t, p)" by (cases d)
  have wf: "table_wf t" "table_wf p" using assms(2) by (simp_all add: db_wf_def d)
  have ext: "kind_of c \<notin> {KUnit, KServer} \<Longrightarrow> answers c (ext c)"
    using assms(1) by (simp add: well_typed_def)
  show ?thesis
    using wf ext update_lifecycle_wf [OF wf(2)] record_observed_wf [OF wf(2)] clear_assignment_wf [OF wf(2)]
    by (cases c; auto simp: d db_handler_def db_wf_def answers_simps get_by_id_answers split: prod.splits;
        metis fst_conv snd_conv)
qed

lemma db_runs:
  assumes "well_typed ext" "db_wf d"
  shows "runs answers p (trace_of (db_handler ext) p d) (fst (exec (db_handler ext) p d))"
  by (rule exec_runs [where I = db_wf]) (use assms db_handler_typed in auto)

section \<open>What the transactions leave in the table\<close>

lemma exec_call:
  "exec h (do_call c f) d =
     (case h c d of (a, d') \<Rightarrow>
        (case a of AExn e \<Rightarrow> (Inl e, d')
         | _ \<Rightarrow> (case f a of Some x \<Rightarrow> (Inr x, d') | None \<Rightarrow> (Inl IllTyped, d'))))"
  by (auto simp: do_call_def split: prod.splits answer.splits option.splits)

lemmas to_simps = to_unit_def to_bool_def to_time_def to_server_def to_servers_def to_marks_def
  to_groups_def to_bytes_def to_jar_def to_generation_def to_held_def to_worker_def to_outcome_def to_refusal_def

lemmas exec_simps = exec_call to_simps db_handler_def get_by_id_def with_uow_def finally_do_def
  when_do_def shield_def claim_def Let_def

lemma compensate_exec:
  assumes "table_wf t" "dget t sid = Some row" "s_community row = cid" "desired row = RUNNING"
    "ext Now = ATime n"
  shows "exec (db_handler ext) (compensate cid sid w) (t, t) =
    (Inr (), let t' = dset sid (row\<lparr>desired := STOPPED, assigned := None, updated_at := n\<rparr>) t in (t', t'))"
  using assms table_wfD(2) [OF assms(1,2)]
  by (simp add: compensate_def exec_simps update_lifecycle_eq)

lemma unassign_respects_owner:
  assumes "table_wf t" "dget t sid = Some row" "assigned row \<noteq> Some w"
  shows "exec (db_handler ext) (unassign cid sid w) (t, t) = (Inr (), (t, t))"
  using assms by (simp add: unassign_def exec_simps)

text \<open>
  The two clean-ups of a failed launch differ when the row has moved on. Let a row still desired
  running be assigned to a worker other than the one whose launch failed. The compensation of a start
  (\<open>_compensate\<close>) reverts that other placement: the row ends desired stopped and unassigned. The clean-up
  of the reconciler's path (\<open>_unassign\<close>), which compares the assignment first, leaves the table as it is.
\<close>

theorem compensate_ignores_owner:
  assumes "table_wf t" "dget t sid = Some row" "s_community row = cid" "desired row = RUNNING"
    "assigned row = Some w'" "w' \<noteq> w" "ext Now = ATime n"
  shows "exec (db_handler ext) (compensate cid sid w) (t, t) =
      (Inr (), let t' = dset sid (row\<lparr>desired := STOPPED, assigned := None, updated_at := n\<rparr>) t in (t', t')) \<and>
    exec (db_handler ext) (unassign cid sid w) (t, t) = (Inr (), (t, t))"
  using compensate_exec [of t sid row cid ext n w] unassign_respects_owner [OF assms(1,2)] assms by simp

lemma final_snapshot_answered:
  "ext (SnapshotCmd w cid sid True) = AOutcome oc \<Longrightarrow>
   exec (db_handler ext) (final_snapshot w cid sid) d = (Inr False, d)"
  by (cases d) (simp add: final_snapshot_def exec_simps)

lemma clear_held_exec:
  assumes "table_wf t" "dget t sid = Some row" "desired row = STOPPED" "assigned row = Some w"
  shows "exec (db_handler ext) (clear_held_assignment sv w sid) (t, t) =
    (Inr (sv\<lparr>assigned := None\<rparr>), let t' = dset sid (row\<lparr>assigned := None\<rparr>) t in (t', t'))"
  using assms by (simp add: clear_held_assignment_def exec_simps clear_assignment_eq)

lemma shield_exec:
  "exec (db_handler ext) (shield sid p) d = exec (db_handler ext) p d"
  by (cases d; cases "exec (db_handler ext) p d") (auto simp: exec_simps split: prod.splits sum.splits)

definition unseen :: "server \<Rightarrow> instant \<Rightarrow> bool" where
  \<comment> \<open>no report stamped at or after \<open>n\<close>\<close>
  "unseen row n \<longleftrightarrow> (case observed_at row of None \<Rightarrow> True | Some seen \<Rightarrow> seen < n)"

lemma record_stopped_exec:
  assumes "table_wf t" "dget t sid = Some row" "desired row = STOPPED" "assigned row = Some w"
    "unseen row n" "ext Now = ATime n" "ext (SnapshotCmd w cid sid True) = AOutcome oc"
  shows "exec (db_handler ext) (record_stopped_then_final_snapshot sv w cid sid) (t, t) =
    (Inr (sv\<lparr>observed := OStopped, observed_at := Some n, assigned := None\<rparr>),
     let t' = dset sid (row\<lparr>observed := OStopped, observed_at := Some n, assigned := None\<rparr>) t in (t', t'))"
proof -
  let ?row = "row\<lparr>observed := OStopped, observed_at := Some n, assigned := Some w\<rparr>"
  have wf: "table_wf (dset sid ?row t)"
    using assms(1) table_wfD(2) [OF assms(1,2)] by (intro table_wf_dset) simp_all
  have clear: "exec (db_handler ext) (clear_held_assignment sv' w sid) (dset sid ?row t, dset sid ?row t) =
    (Inr (sv'\<lparr>assigned := None\<rparr>), let t' = dset sid (?row\<lparr>assigned := None\<rparr>) t in (t', t'))" for sv'
    using clear_held_exec [OF wf, of sid ?row w ext sv'] assms(3,4) by simp
  show ?thesis
    using assms
    by (simp add: record_stopped_then_final_snapshot_def final_snapshot_answered shield_exec clear
        exec_call to_simps db_handler_def with_uow_def finally_do_def record_observed_eq unseen_def Let_def)
qed

text \<open>
  A stop converges. When the worker confirms the stop and answers the final snapshot (whatever that
  outcome is) and no newer report has been recorded, a stop of a running, assigned server returns the
  row it leaves: desired and observed stopped, released from its worker, at rest and startable; every
  other row is untouched.
\<close>

theorem confirmed_stop_converges:
  assumes "table_wf t" "dget t sid = Some row" "s_community row = cid"
    "desired row = RUNNING" "assigned row = Some w" "unseen row n"
    "ext Now = ATime n" "ext (InFlight sid) = ABool False"
    "ext (StopCmd w sid force) = AOutcome oc" "success oc"
    "ext (SnapshotCmd w cid sid True) = AOutcome oc'"
  shows "\<exists>row' t'. exec (db_handler ext) (stop_server cid sid force) (t, t) = (Inr row', (t', t')) \<and>
    row' = row\<lparr>desired := STOPPED, updated_at := n, observed := OStopped, observed_at := Some n, assigned := None\<rparr> \<and>
    t' = dset sid row' t \<and> is_at_rest row' \<and> reconcilable row' = False"
proof -
  let ?sv = "row\<lparr>desired := STOPPED, updated_at := n\<rparr>"
  let ?row = "row\<lparr>desired := STOPPED, assigned := Some w, updated_at := n\<rparr>"
  let ?t = "dset sid ?row t"
  have id: "s_id row = sid" by (rule table_wfD(2) [OF assms(1,2)])
  have wf: "table_wf ?t" using assms(1) id by (intro table_wf_dset) simp_all
  have intent: "exec (db_handler ext) (stop_intent cid sid) (t, t) = (Inr (Inr (?sv, w)), (?t, ?t))"
    using assms id
    by (simp add: stop_intent_def load_server_def mark_stopped_def exec_simps update_lifecycle_eq)
  have "exec (db_handler ext) (record_stopped_then_final_snapshot ?sv w cid sid) (?t, ?t) =
    (Inr (?sv\<lparr>observed := OStopped, observed_at := Some n, assigned := None\<rparr>),
     let t' = dset sid (?row\<lparr>observed := OStopped, observed_at := Some n, assigned := None\<rparr>) t in (t', t'))"
    using record_stopped_exec [OF wf, of sid ?row w n ext cid oc' ?sv] assms by (simp add: unseen_def)
  then have "exec (db_handler ext) (stop_server cid sid force) (t, t) =
    (Inr (?sv\<lparr>observed := OStopped, observed_at := Some n, assigned := None\<rparr>),
     let t' = dset sid (?row\<lparr>observed := OStopped, observed_at := Some n, assigned := None\<rparr>) t in (t', t'))"
    using assms intent
    by (simp add: stop_server_def claim_def stop_body_def stop_dispatch_def finally_do_def exec_call to_simps
        db_handler_def Let_def success_def)
  then show ?thesis by (simp add: Let_def is_at_rest_def reconcilable_def)
qed

end
