(* ===== verification/Lifecycle_Witness.thy ===== *)
theory Lifecycle_Witness
  imports Lifecycle_Db
begin

text \<open>
  Concrete runs of the lifecycle flows, against a table with one server, at which the theorems of the
  previous theories are applied.
\<close>

section \<open>A server and the answers of its ports\<close>

definition demo_row :: server where
  "demo_row =
     \<lparr>s_id = ''s'', s_community = ''c'', s_name = ''survival'', mc_edition = ''java'', mc_version = ''1.21'',
      s_type = PAPER, s_config = [(''memory_limit_mb'', JInt 2048)], desired = STOPPED, observed = OStopped,
      observed_at = Some 1, assigned = None, created_at = 0, updated_at = 1, game_port = Some 25565,
      bedrock_port = None, slug = ''s'', backup_retention = None\<rparr>"

definition demo_table :: "desired_state \<Rightarrow> observed_state \<Rightarrow> worker_id option \<Rightarrow> table" where
  "demo_table d ob w = [(''s'', demo_row\<lparr>desired := d, observed := ob, assigned := w\<rparr>)]"

definition outcome :: "command_status \<Rightarrow> command_outcome" where
  "outcome st = \<lparr>status = st, message = ''detail'', output_text = [], declared_generation = None\<rparr>"

definition default_answer :: "call \<Rightarrow> answer" where
  "default_answer c =
     (case kind_of c of
        KUnit \<Rightarrow> AUnit | KBool \<Rightarrow> ABool False | KTime \<Rightarrow> ATime 5 | KServer \<Rightarrow> AServer None
      | KServers \<Rightarrow> AServers [] | KMarks \<Rightarrow> AMarks [] | KGroups \<Rightarrow> AGroups []
      | KBytes \<Rightarrow> ABytes ''eula=true'' | KJar \<Rightarrow> AJar \<lparr>jar_key = ''k'', jar_source = None\<rparr>
      | KGeneration \<Rightarrow> AGeneration 3 | KHeld \<Rightarrow> AHeld None | KWorker \<Rightarrow> AWorker (Some ''w'')
      | KOutcome \<Rightarrow> AOutcome (outcome COK) | KRefusal \<Rightarrow> ARefusal None)"

definition demo_ext :: "command_status \<Rightarrow> command_status \<Rightarrow> call \<Rightarrow> answer" where
  \<comment> \<open>the answers to a hydrate and to a start are given, everything else succeeds\<close>
  "demo_ext hyd st c =
     (case c of
        Hydrate _ _ _ \<Rightarrow> AOutcome (outcome hyd)
      | StartCmd _ _ _ _ _ _ _ \<Rightarrow> AOutcome (outcome st)
      | _ \<Rightarrow> default_answer c)"

lemma demo_typed: "well_typed (demo_ext hyd st)"
  unfolding well_typed_def
proof (intro allI impI)
  fix c assume "kind_of c \<notin> {KUnit, KServer}"
  then show "answers c (demo_ext hyd st c)" by (cases c) (simp_all add: demo_ext_def default_answer_def answers_def)
qed

lemma demo_wf: "db_wf (demo_table d ob w, demo_table d ob w)"
  by (simp add: db_wf_def table_wf_def dwf_def demo_table_def demo_row_def)

abbreviation demo_trace where
  "demo_trace hyd st d ob w p \<equiv>
     trace_of (db_handler (demo_ext hyd st)) p (demo_table d ob w, demo_table d ob w)"

lemmas demo_runs = db_runs [OF demo_typed demo_wf]

lemma occurs_split: "list_ex (\<lambda>(c, a). P c) t \<Longrightarrow> \<exists>pre c a post. t = pre @ (c, a) # post \<and> P c"
  unfolding list_ex_iff by (metis (mono_tags, lifting) case_prodE split_list)

lemma gives_up_occurs:
  assumes "list_ex (\<lambda>(c, a). gives_up_assignment c) t"
  shows "\<exists>row e ru a. (UpdateLifecycle row e ru, a) \<in> set t \<and> assigned row = None"
proof -
  obtain pre c a post where t: "t = pre @ (c, a) # post" and c: "gives_up_assignment c"
    using occurs_split [OF assms] by blast
  then show ?thesis by (cases c) fastforce+
qed

lemma start_split:
  assumes "list_ex (\<lambda>(c, a). is_start c) t"
  shows "\<exists>pre w sid ty jar version memory cpu a post.
    t = pre @ (StartCmd w sid ty jar version memory cpu, a) # post"
proof -
  obtain pre c a post where t: "t = pre @ (c, a) # post" and c: "is_start c"
    using occurs_split [OF assms] by blast
  then show ?thesis by (cases c) fastforce+
qed

section \<open>Starts\<close>

text \<open>A start whose port is taken is compensated; its one start command was refused.\<close>

abbreviation refused_start :: "(call, answer) trace" where
  "refused_start \<equiv> demo_trace COK PORT_CONFLICT STOPPED OStopped None (start_server ''c'' ''s'' False)"

theorem start_keeps_assignment_of_live_instance_witness:
  "\<exists>row e ru b w sid ty jar version memory cpu oc.
     (UpdateLifecycle row e ru, b) \<in> set refused_start \<and> assigned row = None \<and>
     (StartCmd w sid ty jar version memory cpu, AOutcome oc) \<in> set refused_start \<and>
     status oc \<notin> {COK, INVALID_STATE, BUSY}"
proof -
  have "list_ex (\<lambda>(c, a). gives_up_assignment c) refused_start" by code_simp
  then obtain row e ru b where up: "(UpdateLifecycle row e ru, b) \<in> set refused_start" "assigned row = None"
    using gives_up_occurs by blast
  have "list_ex (\<lambda>(c, a). is_start c) refused_start" by code_simp
  then obtain w sid ty jar version memory cpu a
    where st: "(StartCmd w sid ty jar version memory cpu, a) \<in> set refused_start"
    using start_split by (metis in_set_conv_decomp)
  from start_keeps_assignment_of_live_instance [OF demo_runs up st] up st show ?thesis by blast
qed

text \<open>An orphan whose hydrate fails is unassigned; no start was sent.\<close>

abbreviation unhydrated_orphan :: "(call, answer) trace" where
  "unhydrated_orphan \<equiv> demo_trace TRANSFER_FAILED COK RUNNING OUnknown None (place_and_start ''c'' ''s'')"

theorem placed_start_is_sticky_witness:
  "list_ex (\<lambda>(c, a). gives_up_assignment c) unhydrated_orphan \<and>
   \<not> (\<exists>w sid ty jar version memory cpu a.
        (StartCmd w sid ty jar version memory cpu, a) \<in> set unhydrated_orphan)"
proof -
  have ex: "list_ex (\<lambda>(c, a). gives_up_assignment c) unhydrated_orphan" by code_simp
  then obtain row e ru b where up: "(UpdateLifecycle row e ru, b) \<in> set unhydrated_orphan" "assigned row = None"
    using gives_up_occurs by blast
  from placed_start_is_sticky [OF demo_runs up] ex show ?thesis by blast
qed

text \<open>A start that succeeds: one reservation, confirmed.\<close>

abbreviation good_start :: "(call, answer) trace" where
  "good_start \<equiv> demo_trace COK COK STOPPED OStopped None (start_server ''c'' ''s'' False)"

theorem reservation_settled_once_witness:
  "reservations good_start = [''w''] \<and>
   (settlements good_start = [Increment ''w'' ''s''] \<or> settlements good_start = [ReleaseReservation ''w'' ''s''])"
proof -
  have r: "reservations good_start = [''w'']" by code_simp
  have "runs answers (start_server ''c'' ''s'' False) good_start
     (fst (exec (db_handler (demo_ext COK COK)) (start_server ''c'' ''s'' False)
        (demo_table STOPPED OStopped None, demo_table STOPPED OStopped None)))"
    by (rule demo_runs)
  then have "runs answers (start_server ''c'' ''s'' False) good_start
     (fst (exec (db_handler (demo_ext COK COK)) (start_server ''c'' ''s'' False)
        (demo_table STOPPED OStopped None, demo_table STOPPED OStopped None))) \<or>
     runs answers (place_and_start ''c'' ''s'') good_start
     (fst (exec (db_handler (demo_ext COK COK)) (start_server ''c'' ''s'' False)
        (demo_table STOPPED OStopped None, demo_table STOPPED OStopped None)))" by (rule disjI1)
  from reservation_settled_once [OF this] r show ?thesis by auto
qed

lemma good_start_flow: "\<exists>res. start_flow ''c'' ''s'' None good_start res"
  unfolding start_flow_def using demo_runs by blast

theorem start_never_boots_stale_witness:
  "\<exists>pre w sid ty jar version memory cpu a post.
     good_start = pre @ (StartCmd w sid ty jar version memory cpu, a) # post \<and>
     ((\<exists>oc. (Hydrate w ''c'' ''s'', AOutcome oc) \<in> set pre \<and> success oc) \<or>
      (\<exists>g n. (HeldGeneration w ''s'', AHeld (Some g)) \<in> set pre \<and>
         ((CurrentGeneration ''c'' ''s'', AGeneration n) \<in> set pre \<or> None = Some n) \<and> n \<le> g))"
proof -
  have "list_ex (\<lambda>(c, a). is_start c) good_start" by code_simp
  then obtain pre w sid ty jar version memory cpu a post
    where t: "good_start = pre @ (StartCmd w sid ty jar version memory cpu, a) # post"
    by (drule_tac start_split) (elim exE, rule that)
  obtain res where "start_flow ''c'' ''s'' None good_start res" using good_start_flow by blast
  then have "start_flow ''c'' ''s'' None (pre @ (StartCmd w sid ty jar version memory cpu, a) # post) res"
    by (simp only: t)
  from start_never_boots_stale [OF this] show ?thesis using t by blast
qed

definition records :: "call \<Rightarrow> bool" where
  "records c = (case c of RecordHeld _ _ _ \<Rightarrow> True | _ \<Rightarrow> False)"

theorem recorded_generation_is_proved_witness:
  "\<exists>pre w sid g a post oc. good_start = pre @ (RecordHeld w sid g, a) # post \<and>
     (Hydrate w ''c'' ''s'', AOutcome oc) \<in> set pre \<and> success oc"
proof -
  have "list_ex (\<lambda>(c, a). records c) good_start" by code_simp
  then obtain pre c a post where t: "good_start = pre @ (c, a) # post" and c: "records c"
    using occurs_split by blast
  then obtain w sid g where c: "c = RecordHeld w sid g" by (cases c) (auto simp: records_def)
  obtain res where "start_flow ''c'' ''s'' None good_start res" using good_start_flow by blast
  then have "start_flow ''c'' ''s'' None (pre @ (RecordHeld w sid g, a) # post) res"
    by (simp only: t c)
  from recorded_generation_is_proved [OF this] show ?thesis using t c by blast
qed

section \<open>Stops\<close>

abbreviation good_stop :: "(call, answer) trace" where
  "good_stop \<equiv> demo_trace COK COK RUNNING ORunning (Some ''w'') (stop_server ''c'' ''s'' False)"

lemma good_stop_flow: "stop_flow ''c'' ''s'' (stop_server ''c'' ''s'' False)"
  unfolding stop_flow_def by blast

theorem release_only_after_answered_snapshot_witness:
  "\<exists>pre c a post w. good_stop = pre @ (c, a) # post \<and> releases c = Some w \<and>
     ((\<exists>b. (SnapshotCmd w ''c'' ''s'' True, b) \<in> set pre) \<or> (IsConnected w, ABool False) \<in> set pre)"
proof -
  have "list_ex (\<lambda>(c, a). releases c \<noteq> None) good_stop" by code_simp
  then obtain pre c a post w where t: "good_stop = pre @ (c, a) # post" and w: "releases c = Some w"
    using occurs_split [of "\<lambda>c. releases c \<noteq> None" good_stop] by auto
  have "runs answers (stop_server ''c'' ''s'' False) (pre @ (c, a) # post)
     (fst (exec (db_handler (demo_ext COK COK)) (stop_server ''c'' ''s'' False)
        (demo_table RUNNING ORunning (Some ''w''), demo_table RUNNING ORunning (Some ''w''))))"
    using demo_runs t by metis
  from release_only_after_answered_snapshot [OF good_stop_flow this w]
  show ?thesis using t w by blast
qed

theorem load_shed_once_per_applied_flip_witness:
  "\<exists>pre w sid a post row u v x. good_stop = pre @ (Decrement w sid, a) # post \<and>
     pre = u @ (UpdateLifecycle row RUNNING False, ABool True) # v @ (Commit, AUnit) # x"
proof -
  have "list_ex (\<lambda>(c, a). sheds c) good_stop" by code_simp
  then obtain pre c a post where t: "good_stop = pre @ (c, a) # post" and c: "sheds c"
    using occurs_split by blast
  then obtain w sid where c: "c = Decrement w sid" by (cases c) (auto simp: sheds_def)
  have flow: "lifecycle_flow (stop_server ''c'' ''s'' False)" unfolding lifecycle_flow_def by blast
  have "runs answers (stop_server ''c'' ''s'' False) (pre @ (Decrement w sid, a) # post)
     (fst (exec (db_handler (demo_ext COK COK)) (stop_server ''c'' ''s'' False)
        (demo_table RUNNING ORunning (Some ''w''), demo_table RUNNING ORunning (Some ''w''))))"
    using demo_runs t c by metis
  from load_shed_once_per_applied_flip [OF flow this] show ?thesis using t c by blast
qed

theorem stop_flow_runs_under_claim_witness:
  "\<exists>u. good_stop = (InFlight ''s'', ABool False) # (AddClaim ''s'', AUnit) # u @ [(DiscardClaim ''s'', AUnit)]"
proof -
  have "good_stop \<noteq> [(InFlight ''s'', ABool True)]" by code_simp
  then show ?thesis using stop_flow_runs_under_claim [OF good_stop_flow demo_runs] by blast
qed

theorem confirmed_stop_converges_witness:
  "\<exists>row' t'. exec (db_handler (demo_ext COK COK)) (stop_server ''c'' ''s'' False)
       (demo_table RUNNING ORunning (Some ''w''), demo_table RUNNING ORunning (Some ''w'')) = (Inr row', (t', t')) \<and>
     is_at_rest row' \<and> assigned row' = None"
proof -
  let ?row = "demo_row\<lparr>desired := RUNNING, observed := ORunning, assigned := Some ''w''\<rparr>"
  let ?t = "demo_table RUNNING ORunning (Some ''w'')"
  have "table_wf ?t" using demo_wf by (simp add: db_wf_def)
  moreover have "dget ?t ''s'' = Some ?row" "s_community ?row = ''c''" "desired ?row = RUNNING"
    "assigned ?row = Some ''w''" "unseen ?row 5"
    by (simp_all add: demo_table_def demo_row_def unseen_def)
  moreover have "demo_ext COK COK Now = ATime 5" "demo_ext COK COK (InFlight ''s'') = ABool False"
    "demo_ext COK COK (StopCmd ''w'' ''s'' False) = AOutcome (outcome COK)" "success (outcome COK)"
    "demo_ext COK COK (SnapshotCmd ''w'' ''c'' ''s'' True) = AOutcome (outcome COK)"
    by (simp_all add: demo_ext_def default_answer_def outcome_def success_def)
  ultimately have "\<exists>row' t'. exec (db_handler (demo_ext COK COK)) (stop_server ''c'' ''s'' False) (?t, ?t) = (Inr row', (t', t')) \<and>
    row' = ?row\<lparr>desired := STOPPED, updated_at := 5, observed := OStopped, observed_at := Some 5, assigned := None\<rparr> \<and>
    t' = dset ''s'' row' ?t \<and> is_at_rest row' \<and> reconcilable row' = False"
    by (rule confirmed_stop_converges)
  then show ?thesis by auto
qed

theorem compensate_ignores_owner_witness:
  "\<exists>t'. exec (db_handler (demo_ext COK COK)) (compensate ''c'' ''s'' ''w'')
       (demo_table RUNNING ORunning (Some ''other''), demo_table RUNNING ORunning (Some ''other'')) = (Inr (), (t', t')) \<and>
     map_option assigned (dget t' ''s'') = Some None"
proof -
  let ?row = "demo_row\<lparr>desired := RUNNING, observed := ORunning, assigned := Some ''other''\<rparr>"
  let ?t = "demo_table RUNNING ORunning (Some ''other'')"
  have "table_wf ?t" using demo_wf by (simp add: db_wf_def)
  moreover have "dget ?t ''s'' = Some ?row" "s_community ?row = ''c''" "desired ?row = RUNNING"
    "assigned ?row = Some ''other''" "''other'' \<noteq> ''w''"
    by (simp_all add: demo_table_def demo_row_def)
  moreover have "demo_ext COK COK Now = ATime 5" by (simp add: demo_ext_def default_answer_def)
  ultimately have "exec (db_handler (demo_ext COK COK)) (compensate ''c'' ''s'' ''w'') (?t, ?t) =
      (Inr (), let t' = dset ''s'' (?row\<lparr>desired := STOPPED, assigned := None, updated_at := 5\<rparr>) ?t in (t', t')) \<and>
    exec (db_handler (demo_ext COK COK)) (unassign ''c'' ''s'' ''w'') (?t, ?t) = (Inr (), (?t, ?t))"
    by (rule compensate_ignores_owner)
  then show ?thesis by (simp add: Let_def)
qed

end
