(* ===== verification/Stop_Guard.thy ===== *)
theory Stop_Guard
  imports Server_Model
begin

text \<open>
  The in-process state the stop flows share: the exclusion of \<open>stop_convergence.py\<close> with its claims and
  its shielded releases, and the journal of refused stops of \<open>stop_dispatch_refusals.py\<close>. The exclusion is
  a transition system over flows that enter, start a shielded release, are cancelled or leave; a
  shielded release outlives the flow that started it.
\<close>

section \<open>The guard\<close>

type_synonym flow = nat

record stop_guard =
  claims :: "server_id set"
  shielded :: "(server_id, flow) dict"

definition empty_guard :: stop_guard where
  "empty_guard = \<lparr>claims = {}, shielded = []\<rparr>"

definition in_flight :: "stop_guard \<Rightarrow> (server_id \<Rightarrow> bool) \<Rightarrow> server_id \<Rightarrow> bool" where
  "in_flight g outstanding sid \<longleftrightarrow>
     sid \<in> claims g \<or> dget (shielded g) sid \<noteq> None \<or> outstanding sid"

definition claim_enter ::
  "stop_guard \<Rightarrow> (server_id \<Rightarrow> bool) \<Rightarrow> server_id \<Rightarrow> server_error + stop_guard" where
  "claim_enter g outstanding sid =
     (if in_flight g outstanding sid then Inl LifecycleTransitionConflictError
      else Inr (g\<lparr>claims := insert sid (claims g)\<rparr>))"

definition claim_exit :: "stop_guard \<Rightarrow> server_id \<Rightarrow> stop_guard" where
  "claim_exit g sid = g\<lparr>claims := claims g - {sid}\<rparr>"

definition shield_start :: "stop_guard \<Rightarrow> server_id \<Rightarrow> flow \<Rightarrow> stop_guard" where
  "shield_start g sid f = g\<lparr>shielded := dset sid f (shielded g)\<rparr>"

definition shield_done :: "stop_guard \<Rightarrow> server_id \<Rightarrow> stop_guard" where
  "shield_done g sid = g\<lparr>shielded := dpop sid (shielded g)\<rparr>"

section \<open>The flows as a transition system\<close>

text \<open>
  \<open>inside f\<close> is the server whose claim flow \<open>f\<close> holds, \<open>releasing f\<close> the server whose shielded release
  \<open>f\<close> started and that has not finished. A flow is used once.
\<close>

record guard_system =
  guard :: stop_guard
  inside :: "flow \<Rightarrow> server_id option"
  releasing :: "flow \<Rightarrow> server_id option"

definition initial_system :: guard_system where
  "initial_system = \<lparr>guard = empty_guard, inside = (\<lambda>_. None), releasing = (\<lambda>_. None)\<rparr>"

inductive guard_step :: "guard_system \<Rightarrow> guard_system \<Rightarrow> bool" where
  enter: "inside s f = None \<Longrightarrow> releasing s f = None \<Longrightarrow> claim_enter (guard s) outstanding sid = Inr g \<Longrightarrow>
    guard_step s (s\<lparr>guard := g, inside := (inside s)(f \<mapsto> sid)\<rparr>)"
| start_release: "inside s f = Some sid \<Longrightarrow> releasing s f = None \<Longrightarrow>
    guard_step s (s\<lparr>guard := shield_start (guard s) sid f, releasing := (releasing s)(f \<mapsto> sid)\<rparr>)"
| finish_release: "releasing s f = Some sid \<Longrightarrow>
    guard_step s (s\<lparr>guard := shield_done (guard s) sid, releasing := (releasing s)(f := None)\<rparr>)"
| leave: "inside s f = Some sid \<Longrightarrow>
    guard_step s (s\<lparr>guard := claim_exit (guard s) sid, inside := (inside s)(f := None)\<rparr>)"

inductive guard_reachable :: "guard_system \<Rightarrow> bool" where
  start: "guard_reachable initial_system"
| more: "guard_reachable s \<Longrightarrow> guard_step s s' \<Longrightarrow> guard_reachable s'"

definition active :: "guard_system \<Rightarrow> flow \<Rightarrow> server_id \<Rightarrow> bool" where
  "active s f sid \<longleftrightarrow> inside s f = Some sid \<or> releasing s f = Some sid"

definition guard_inv :: "guard_system \<Rightarrow> bool" where
  "guard_inv s \<longleftrightarrow>
     (\<forall>sid. sid \<in> claims (guard s) \<longleftrightarrow> (\<exists>f. inside s f = Some sid)) \<and>
     (\<forall>sid f. dget (shielded (guard s)) sid = Some f \<longleftrightarrow> releasing s f = Some sid) \<and>
     (\<forall>sid f f'. active s f sid \<longrightarrow> active s f' sid \<longrightarrow> f = f') \<and>
     (\<forall>f sid sid'. inside s f = Some sid \<longrightarrow> releasing s f = Some sid' \<longrightarrow> sid = sid')"

lemma guard_invD:
  assumes "guard_inv s"
  shows "sid \<in> claims (guard s) \<longleftrightarrow> (\<exists>f. inside s f = Some sid)"
    and "dget (shielded (guard s)) sid = Some f \<longleftrightarrow> releasing s f = Some sid"
    and "active s f sid \<Longrightarrow> active s f' sid \<Longrightarrow> f = f'"
    and "inside s f = Some sid \<Longrightarrow> releasing s f = Some sid' \<Longrightarrow> sid = sid'"
  using assms unfolding guard_inv_def by blast+

lemma guard_inv_idle:
  assumes "guard_inv s" "\<not> in_flight (guard s) outstanding sid"
  shows "\<not> active s f sid"
  using assms guard_invD [OF assms(1)] unfolding in_flight_def active_def by (metis option.distinct(1))

lemma guard_inv_initial: "guard_inv initial_system"
  by (simp add: guard_inv_def initial_system_def empty_guard_def active_def)

lemma guard_inv_step:
  assumes "guard_inv s" "guard_step s s'"
  shows "guard_inv s'"
  using assms(2)
proof (cases rule: guard_step.cases)
  case (enter f outstanding sid g)
  then have free: "\<not> in_flight (guard s) outstanding sid"
    and g: "g = guard s\<lparr>claims := insert sid (claims (guard s))\<rparr>"
    by (auto simp: claim_enter_def split: if_splits)
  have idle: "\<not> active s f' sid" for f' by (rule guard_inv_idle [OF assms(1) free])
  show ?thesis using idle guard_invD [OF assms(1)] enter
    unfolding guard_inv_def g active_def by (auto split: if_splits; metis option.distinct(1) option.inject)
next
  case (start_release f sid)
  then show ?thesis using guard_invD [OF assms(1)]
    unfolding guard_inv_def shield_start_def active_def by (auto split: if_splits; metis option.distinct(1) option.inject)
next
  case (finish_release f sid)
  then show ?thesis using guard_invD [OF assms(1)]
    unfolding guard_inv_def shield_done_def active_def by (auto split: if_splits; metis option.distinct(1) option.inject)
next
  case (leave f sid)
  then show ?thesis using guard_invD [OF assms(1)]
    unfolding guard_inv_def claim_exit_def active_def by (auto split: if_splits; metis option.distinct(1) option.inject)
qed

lemma guard_inv_reachable: "guard_reachable s \<Longrightarrow> guard_inv s"
  by (induction rule: guard_reachable.induct) (auto intro: guard_inv_initial guard_inv_step)

text \<open>
  C33. At most one stop convergence is in flight per server. In every reachable state of any number of
  concurrent flows, cancellations of a flow with its shielded release still running included, two flows
  that hold the claim or run a release for the same server are the same flow, and while one is active
  every other flow's claim is refused with the transition conflict.
\<close>

theorem stop_flows_exclusive:
  assumes "guard_reachable s" "active s f sid"
  shows "(\<forall>f'. active s f' sid \<longrightarrow> f' = f) \<and>
    (\<forall>outstanding. claim_enter (guard s) outstanding sid = Inl LifecycleTransitionConflictError)"
proof -
  note inv = guard_inv_reachable [OF assms(1)]
  have "in_flight (guard s) outstanding sid" for outstanding
    using guard_inv_idle [OF inv] assms(2) by blast
  then show ?thesis
    using guard_invD(3) [OF inv] assms(2) by (auto simp: claim_enter_def)
qed

text \<open>A flow that was cancelled during its release still keeps the server.\<close>

definition cancelled_release :: guard_system where
  "cancelled_release =
     \<lparr>guard = claim_exit (shield_start \<lparr>claims = {''s''}, shielded = []\<rparr> ''s'' 0) ''s'',
      inside = (\<lambda>_. None)(0 := None), releasing = (\<lambda>_. None)(0 \<mapsto> ''s'')\<rparr>"

lemma cancelled_release_reachable: "guard_reachable cancelled_release"
proof -
  let ?s1 = "\<lparr>guard = \<lparr>claims = {''s''}, shielded = []\<rparr>, inside = (\<lambda>_. None)(0 \<mapsto> ''s''), releasing = (\<lambda>_. None)\<rparr>"
  let ?s2 = "?s1\<lparr>guard := shield_start (guard ?s1) ''s'' 0, releasing := (releasing ?s1)(0 \<mapsto> ''s'')\<rparr>"
  have "guard_step initial_system
     (initial_system\<lparr>guard := \<lparr>claims = {''s''}, shielded = []\<rparr>, inside := (inside initial_system)(0 \<mapsto> ''s'')\<rparr>)"
    by (rule guard_step.enter [where outstanding = "\<lambda>_. False"])
      (simp_all add: initial_system_def empty_guard_def claim_enter_def in_flight_def)
  then have "guard_reachable ?s1"
    using guard_reachable.start guard_reachable.more by (simp add: initial_system_def)
  moreover have "guard_step ?s1 ?s2" by (rule guard_step.start_release) simp_all
  ultimately have "guard_reachable ?s2" by (rule guard_reachable.more)
  moreover have "guard_step ?s2 (?s2\<lparr>guard := claim_exit (guard ?s2) ''s'', inside := (inside ?s2)(0 := None)\<rparr>)"
    by (rule guard_step.leave) simp
  ultimately have "guard_reachable (?s2\<lparr>guard := claim_exit (guard ?s2) ''s'', inside := (inside ?s2)(0 := None)\<rparr>)"
    by (rule guard_reachable.more)
  then show ?thesis by (simp add: cancelled_release_def)
qed

theorem stop_flows_exclusive_witness:
  "guard_reachable cancelled_release \<and> active cancelled_release 0 ''s'' \<and> inside cancelled_release 0 = None \<and>
   claim_enter (guard cancelled_release) (\<lambda>_. False) ''s'' = Inl LifecycleTransitionConflictError"
proof -
  have a: "active cancelled_release 0 ''s''" by (simp add: active_def cancelled_release_def)
  moreover have "inside cancelled_release 0 = None" by (simp add: cancelled_release_def)
  ultimately show ?thesis
    using stop_flows_exclusive [OF cancelled_release_reachable a] cancelled_release_reachable by blast
qed

section \<open>The journal of refused stops\<close>

type_synonym refusals = "(server_id, instant) dict"

definition forget :: "refusals \<Rightarrow> server_id \<Rightarrow> refusals" where
  "forget j sid = dpop sid j"

definition record_refusal :: "refusals \<Rightarrow> server_id \<Rightarrow> command_outcome \<Rightarrow> instant \<Rightarrow> refusals" where
  "record_refusal j sid oc n =
     (if success oc \<or> status oc = BUSY then j else dset sid n j)"

definition refused_at :: "refusals \<Rightarrow> server_id \<Rightarrow> instant option" where
  "refused_at j sid = dget j sid"

text \<open>After an attempt (a \<open>forget\<close> and what its answer recorded) the journal tells that attempt's verdict.\<close>

lemma refused_at_attempt:
  "refused_at (record_refusal (forget j sid) sid oc n) sid =
     (if success oc \<or> status oc = BUSY then None else Some n)"
  "refused_at (forget j sid) sid = None"
  "sid' \<noteq> sid \<Longrightarrow> refused_at (record_refusal (forget j sid) sid oc n) sid' = refused_at j sid'"
  by (simp_all add: refused_at_def record_refusal_def forget_def)

end
