(* ===== verification/Reconciler.thy ===== *)
theory Reconciler
  imports Lifecycle_Db
begin

text \<open>
  The background reconciler (\<open>servers/application/reconciler.py\<close>): one tick reads the diverged rows,
  forgives and expires backoff entries, chooses an action per row, waits out the grace of that action and
  the row's backoff, and replays the owed intent through the lifecycle use cases. The rows of a tick are
  distinct and each touches only its own backoff entry, so the tick is modelled with its candidates one
  after the other; what is shown of a candidate holds under any interleaving, because nothing is assumed
  of what happens between a call and its answer.
\<close>

section \<open>State\<close>

definition NOT_RUNNING :: "observed_state set" where
  "NOT_RUNNING = {OStopped, OStopping, ORestarting, OCrashed, OUnknown}"

definition is_settled :: "server \<Rightarrow> bool" where
  "is_settled s \<longleftrightarrow>
     (if desired s = RUNNING then observed s = ORunning \<and> assigned s \<noteq> None
      else assigned s = None \<and> is_at_rest s)"

record backoff =
  failures :: nat
  next_eligible_at :: instant
  delay :: duration
  settled_since :: "instant option"
  last_settled_at :: "instant option"

record grace_decision =
  decided_grace_seconds :: int
  decided_generation :: "int option"

record reconciler_config =
  grace_seconds :: int
  held_start_grace_seconds :: int
  refused_stop_grace_seconds :: int
  restart_timeout_seconds :: int
  backoff_base_seconds :: int
  backoff_max_seconds :: int

type_synonym attempts = "(server_id, backoff) dict"

definition seconds :: "int \<Rightarrow> duration" where
  \<comment> \<open>\<open>timedelta(seconds=n)\<close> in microseconds\<close>
  "seconds n = n * 1000000"

section \<open>The backoff map\<close>

definition forgive_entry :: "(server_id, server option) dict \<Rightarrow> instant \<Rightarrow> server_id \<Rightarrow> backoff \<Rightarrow> backoff option" where
  "forgive_entry tracked t sid b =
     (case dget tracked sid of
        Some None \<Rightarrow> None
      | None \<Rightarrow> Some (b\<lparr>settled_since := None\<rparr>)
      | Some (Some s) \<Rightarrow>
          if \<not> is_settled s then Some (b\<lparr>settled_since := None\<rparr>)
          else let first = (case settled_since b of None \<Rightarrow> t | Some u \<Rightarrow> u)
               in if t - first \<ge> delay b then None
                  else Some (b\<lparr>settled_since := Some first, last_settled_at := Some t\<rparr>))"

definition forgive_settled :: "attempts \<Rightarrow> (server_id, server option) dict \<Rightarrow> instant \<Rightarrow> attempts" where
  "forgive_settled a tracked t =
     List.map_filter (\<lambda>(sid, b). map_option (Pair sid) (forgive_entry tracked t sid b)) a"

definition expired :: "reconciler_config \<Rightarrow> instant \<Rightarrow> backoff \<Rightarrow> bool" where
  "expired cfg t b \<longleftrightarrow>
     t \<ge> max (next_eligible_at b) (case last_settled_at b of None \<Rightarrow> next_eligible_at b | Some u \<Rightarrow> u)
           + seconds (backoff_max_seconds cfg)"

definition expire_stale :: "reconciler_config \<Rightarrow> attempts \<Rightarrow> instant \<Rightarrow> attempts" where
  "expire_stale cfg a t = filter (\<lambda>(sid, b). \<not> expired cfg t b) a"

definition record_failure :: "reconciler_config \<Rightarrow> attempts \<Rightarrow> server_id \<Rightarrow> instant \<Rightarrow> attempts" where
  "record_failure cfg a sid t =
     (let n = (case dget a sid of None \<Rightarrow> 0 | Some b \<Rightarrow> failures b) + 1;
          d = seconds (min (backoff_base_seconds cfg * 2 ^ (n - 1)) (backoff_max_seconds cfg))
      in dset sid \<lparr>failures = n, next_eligible_at = t + d, delay = d,
                   settled_since = None, last_settled_at = None\<rparr> a)"

section \<open>Choosing an action and its grace\<close>

definition since :: "server \<Rightarrow> instant" where
  "since s = max (updated_at s) (case observed_at s of None \<Rightarrow> updated_at s | Some u \<Rightarrow> u)"

definition within_grace :: "server \<Rightarrow> instant \<Rightarrow> int \<Rightarrow> bool" where
  "within_grace s t grace \<longleftrightarrow> t - since s < seconds grace"

definition action_for :: "server \<Rightarrow> intent_action option lc" where
  "action_for s =
     (if desired s = RUNNING
      then (case assigned s of
              None \<Rightarrow> Return (Some PlaceAndStart)
            | Some w \<Rightarrow>
                if observed s \<notin> NOT_RUNNING then Return None
                else bnd (ask (IsConnected w)) (\<lambda>conn.
                       Return (if conn then Some RedispatchStart else None)))
      else stopped_intent_action s)"

definition previous_stop_refused :: "server \<Rightarrow> bool lc" where
  "previous_stop_refused s =
     bnd (do_call (RefusedAt (s_id s)) to_refusal) (\<lambda>r.
       Return (case r of None \<Rightarrow> False | Some u \<Rightarrow> u \<ge> since s))"

definition held_start_grace :: "reconciler_config \<Rightarrow> server \<Rightarrow> worker_id \<Rightarrow> grace_decision lc" where
  \<comment> \<open>\<open>_grace_for\<close> for a start re-dispatched to its worker\<close>
  "held_start_grace cfg s w =
     (let floor_s = (if observed s = OStopping then restart_timeout_seconds cfg else 0)
      in bnd (do_call (CurrentGeneration (s_community s) (s_id s)) to_generation) (\<lambda>store_gen.
         bnd (do_call (HeldGeneration w (s_id s)) to_held) (\<lambda>held_gen.
           Return (if fresh_enough held_gen store_gen
                   then \<lparr>decided_grace_seconds = max (held_start_grace_seconds cfg) floor_s,
                         decided_generation = Some store_gen\<rparr>
                   else \<lparr>decided_grace_seconds = max (grace_seconds cfg) floor_s,
                         decided_generation = None\<rparr>))))"

definition grace_for :: "reconciler_config \<Rightarrow> server \<Rightarrow> intent_action \<Rightarrow> grace_decision lc" where
  "grace_for cfg s action =
     bnd (if action = RedispatchStop then previous_stop_refused s else Return False) (\<lambda>refused.
       if refused
       then Return \<lparr>decided_grace_seconds = refused_stop_grace_seconds cfg, decided_generation = None\<rparr>
       else case assigned s of
              None \<Rightarrow> Return \<lparr>decided_grace_seconds = grace_seconds cfg, decided_generation = None\<rparr>
            | Some w \<Rightarrow>
                if action \<noteq> RedispatchStart
                then Return \<lparr>decided_grace_seconds = grace_seconds cfg, decided_generation = None\<rparr>
                else held_start_grace cfg s w)"

section \<open>Acting\<close>

definition dispatch :: "server \<Rightarrow> intent_action \<Rightarrow> int option \<Rightarrow> server lc" where
  "dispatch s action store_generation =
     (case action of
        PlaceAndStart \<Rightarrow> place_and_start (s_community s) (s_id s)
      | RedispatchStart \<Rightarrow> redispatch_start (s_community s) (s_id s) store_generation
      | ClearStaleAssignment \<Rightarrow> clear_stale_assignment (s_community s) (s_id s)
      | RedispatchStop \<Rightarrow> redispatch_stop (s_community s) (s_id s) False)"

definition start_action :: "intent_action \<Rightarrow> bool" where
  "start_action action \<longleftrightarrow> action \<in> {PlaceAndStart, RedispatchStart}"

definition refused_busy :: "server_error \<Rightarrow> bool" where
  "refused_busy e = (case e of CommandDispatchError _ reason \<Rightarrow> reason = Some WORKER_BUSY_REASON | _ \<Rightarrow> False)"

definition after_error :: "reconciler_config \<Rightarrow> attempts \<Rightarrow> server_id \<Rightarrow> intent_action \<Rightarrow> instant \<Rightarrow> server_error \<Rightarrow> attempts" where
  \<comment> \<open>the \<open>except Exception\<close> of \<open>_run\<close>\<close>
  "after_error cfg a sid action t e =
     (if start_action action \<and> refused_busy e then a
      else if \<not> start_action action \<and> e = LifecycleTransitionConflictError then a
      else record_failure cfg a sid t)"

definition after_dispatch :: "reconciler_config \<Rightarrow> attempts \<Rightarrow> server_id \<Rightarrow> intent_action \<Rightarrow> instant \<Rightarrow> server \<Rightarrow> attempts" where
  "after_dispatch cfg a sid action t s' =
     (if start_action action \<and> observed s' = OCrashed then record_failure cfg a sid t
      else dpop sid a)"

definition run_action ::
  "reconciler_config \<Rightarrow> attempts \<Rightarrow> server \<Rightarrow> intent_action \<Rightarrow> instant \<Rightarrow> int option \<Rightarrow> attempts lc" where
  "run_action cfg a s action t store_generation =
     bnd (attempt (dispatch s action store_generation)) (\<lambda>r.
       case r of
         Inl e \<Rightarrow> if e = CancelledError then Raise e else Return (after_error cfg a (s_id s) action t e)
       | Inr s' \<Rightarrow> Return (after_dispatch cfg a (s_id s) action t s'))"

definition consider_row :: "reconciler_config \<Rightarrow> attempts \<Rightarrow> server \<Rightarrow> instant \<Rightarrow> attempts lc" where
  "consider_row cfg a s t =
     bnd (action_for s) (\<lambda>act.
       case act of
         None \<Rightarrow> Return a
       | Some action \<Rightarrow>
           bnd (grace_for cfg s action) (\<lambda>d.
             if within_grace s t (decided_grace_seconds d) then Return a
             else if (case dget a (s_id s) of None \<Rightarrow> False | Some b \<Rightarrow> t < next_eligible_at b) then Return a
             else run_action cfg a s action t (decided_generation d)))"

primrec consider_all :: "reconciler_config \<Rightarrow> instant \<Rightarrow> server list \<Rightarrow> attempts \<Rightarrow> attempts lc" where
  "consider_all cfg t [] a = Return a"
| "consider_all cfg t (s # ss) a =
     bnd (catch (consider_row cfg a s t) (\<lambda>e. if e = CancelledError then Raise e else Return a)) (\<lambda>a'.
       consider_all cfg t ss a')"

definition read_rows :: "attempts \<Rightarrow> (server list \<times> (server_id, server option) dict) lc" where
  \<comment> \<open>the transaction of \<open>tick\<close>\<close>
  "read_rows a =
     with_uow
       (bnd (do_call ListReconcilable to_servers) (\<lambda>candidates.
        bnd (for_each (filter (\<lambda>sid. sid \<notin> set (map s_id candidates)) (map fst a)) (\<lambda>sid.
               bnd (get_row sid) (\<lambda>row. Return (sid, row)))) (\<lambda>tracked.
          Return (candidates, tracked))))"

definition upkeep :: "reconciler_config \<Rightarrow> attempts \<Rightarrow> (server_id, server option) dict \<Rightarrow> instant \<Rightarrow> attempts" where
  "upkeep cfg a tracked t = expire_stale cfg (forgive_settled a tracked t) t"

definition tick :: "reconciler_config \<Rightarrow> attempts \<Rightarrow> attempts lc" where
  "tick cfg a =
     bnd now (\<lambda>t.
     bnd (read_rows a) (\<lambda>(candidates, tracked).
       consider_all cfg t candidates (upkeep cfg a tracked t)))"

end
