(* ===== verification/Reconciler_Props.thy ===== *)
theory Reconciler_Props
  imports Reconciler
begin

text \<open>
  Properties of the reconciler: the action each row gets, when it may act, how the backoff grows, when an
  entry is forgiven, and that a released row converges.
\<close>

section \<open>The backoff map as a key-value store\<close>

lemma dget_forgive_settled [dict_simps]:
  "dwf a \<Longrightarrow> dget (forgive_settled a tracked t) sid =
     (case dget a sid of None \<Rightarrow> None | Some b \<Rightarrow> forgive_entry tracked t sid b)"
proof (induction a)
  case (Cons p a)
  obtain k b where p: "p = (k, b)" by (cases p)
  have wf: "dwf a" "dget a k = None" using Cons.prems by (auto simp: p dwf_def map_of_eq_None_iff)
  then show ?case
    using Cons.IH by (auto simp: p forgive_settled_def map_filter_simps split: option.splits)
qed (simp add: forgive_settled_def map_filter_simps)

lemma dwf_forgive_settled [wf_intros]: "dwf a \<Longrightarrow> dwf (forgive_settled a tracked t)"
proof -
  have "set (map fst (forgive_settled a tracked t)) \<subseteq> set (map fst a)" for a
    by (force simp: forgive_settled_def map_filter_def)
  then show "dwf a \<Longrightarrow> dwf (forgive_settled a tracked t)"
  proof (induction a)
    case (Cons p a)
    then show ?case
      by (cases p) (auto simp: dwf_def forgive_settled_def map_filter_simps split: option.splits)
  qed (simp add: forgive_settled_def map_filter_simps)
qed

lemma dget_upkeep [dict_simps]:
  "dwf a \<Longrightarrow> dget (upkeep cfg a tracked t) sid =
     (case dget a sid of
        None \<Rightarrow> None
      | Some b \<Rightarrow> (case forgive_entry tracked t sid b of
                    None \<Rightarrow> None | Some b' \<Rightarrow> if expired cfg t b' then None else Some b'))"
  by (simp add: upkeep_def expire_stale_def dget_filter_dwf dget_forgive_settled dwf_forgive_settled
      split: option.splits)

lemma dwf_upkeep [wf_intros]: "dwf a \<Longrightarrow> dwf (upkeep cfg a tracked t)"
  by (simp add: upkeep_def expire_stale_def dwf_forgive_settled)

lemma dwf_record_failure [wf_intros]: "dwf a \<Longrightarrow> dwf (record_failure cfg a sid t)"
  by (simp add: record_failure_def Let_def)

lemma dget_record_failure_other: "k \<noteq> sid \<Longrightarrow> dget (record_failure cfg a sid t) k = dget a k"
  by (simp add: record_failure_def Let_def)

section \<open>Growth of the backoff\<close>

definition backoff_window :: "reconciler_config \<Rightarrow> nat \<Rightarrow> duration" where
  "backoff_window cfg n = seconds (min (backoff_base_seconds cfg * 2 ^ (n - 1)) (backoff_max_seconds cfg))"

lemma record_failure_eq:
  "dget (record_failure cfg a sid t) sid =
     (let n = Suc (case dget a sid of None \<Rightarrow> 0 | Some b \<Rightarrow> failures b) in
      Some \<lparr>failures = n, next_eligible_at = t + backoff_window cfg n, delay = backoff_window cfg n,
            settled_since = None, last_settled_at = None\<rparr>)"
  by (simp add: record_failure_def backoff_window_def Let_def)

lemma seconds_mono [simp]: "seconds m \<le> seconds n \<longleftrightarrow> m \<le> n"
  by (simp add: seconds_def)

lemma backoff_window_mono:
  assumes "0 \<le> backoff_base_seconds cfg" "m \<le> n"
  shows "backoff_window cfg m \<le> backoff_window cfg n"
proof -
  have "backoff_base_seconds cfg * 2 ^ (m - 1) \<le> backoff_base_seconds cfg * 2 ^ (n - 1)"
    using assms by (intro mult_left_mono power_increasing) auto
  then show ?thesis by (simp add: backoff_window_def min_le_iff_disj)
qed

text \<open>
  Consecutive failures of one server back off exponentially. After failures at the instants
  \<open>ts\<close>, starting with no entry, the entry counts all of them, its window is the base doubled once per
  earlier failure and never more than the configured maximum (and never less than the window before the
  last failure), the next attempt is due that window after the last failure, and the entries of other
  servers are as they were.
\<close>

theorem failures_back_off:
  assumes "dget a sid = None" "ts \<noteq> []" "0 \<le> backoff_base_seconds cfg"
  defines "a' \<equiv> fold (\<lambda>t a. record_failure cfg a sid t) ts a"
  defines "d \<equiv> seconds (min (backoff_base_seconds cfg * 2 ^ (length ts - 1)) (backoff_max_seconds cfg))"
  shows "dget a' sid = Some \<lparr>failures = length ts, next_eligible_at = last ts + d, delay = d,
                            settled_since = None, last_settled_at = None\<rparr> \<and>
    d \<le> seconds (backoff_max_seconds cfg) \<and>
    (\<forall>b. dget (fold (\<lambda>t a. record_failure cfg a sid t) (butlast ts) a) sid = Some b \<longrightarrow> delay b \<le> d) \<and>
    (\<forall>k. k \<noteq> sid \<longrightarrow> dget a' k = dget a k)"
proof -
  let ?rec = "\<lambda>ts. fold (\<lambda>t a. record_failure cfg a sid t) ts a"
  have entry: "us \<noteq> [] \<Longrightarrow> dget (?rec us) sid =
      Some \<lparr>failures = length us, next_eligible_at = last us + backoff_window cfg (length us),
            delay = backoff_window cfg (length us), settled_since = None, last_settled_at = None\<rparr>" for us
  proof (induction us rule: rev_induct)
    case (snoc u us)
    then show ?case
      by (cases "us = []") (simp_all add: record_failure_eq assms(1) Let_def)
  qed simp
  have other: "k \<noteq> sid \<Longrightarrow> dget (?rec us) k = dget a k" for k us
    by (induction us rule: rev_induct) (simp_all add: dget_record_failure_other)
  have d: "d = backoff_window cfg (length ts)" by (simp add: d_def backoff_window_def)
  have "delay b \<le> d" if "dget (?rec (butlast ts)) sid = Some b" for b
  proof (cases "butlast ts = []")
    case False
    then have "delay b = backoff_window cfg (length (butlast ts))" using entry [of "butlast ts"] that by auto
    then show ?thesis using backoff_window_mono [OF assms(3), of "length (butlast ts)" "length ts"] d by simp
  qed (use that assms(1) in simp)
  moreover have "d \<le> seconds (backoff_max_seconds cfg)" by (simp add: d_def)
  ultimately show ?thesis using entry [OF assms(2)] other by (simp add: a'_def d)
qed

section \<open>Which action, and when\<close>

abbreviation tracing :: "(call, answer) trace \<Rightarrow> call \<Rightarrow> answer \<Rightarrow> (call, answer) trace" where
  "tracing t c a \<equiv> t @ [(c, a)]"

lemma trace_runs: "wpm ok tracing p Q [] \<Longrightarrow> runs ok p t res \<Longrightarrow> Q t res"
  using wpm_runs [where m = tracing and s = "[]"] by (fastforce simp: monitor_trace)

lemma wpm_any: "(\<And>s res. Q s res) \<Longrightarrow> wpm ok m p Q s"
  by (simp add: wpm_iff)

fun observes :: "call \<Rightarrow> bool" where
  \<comment> \<open>the reads a decision is made from\<close>
  "observes (IsConnected _) = True"
| "observes (RefusedAt _) = True"
| "observes (CurrentGeneration _ _) = True"
| "observes (HeldGeneration _ _) = True"
| "observes _ = False"

lemma only_action_for: "only observes (action_for s)"
  by (auto simp: action_for_def stopped_intent_action_def split: option.splits)

lemma only_grace_for: "only observes (grace_for cfg s action)"
  by (auto simp: grace_for_def previous_stop_refused_def held_start_grace_def Let_def split: option.splits)

lemma action_for_run:
  assumes "runs answers (action_for s) tr (Inr act)"
  shows "act = Some RedispatchStart \<Longrightarrow>
      desired s = RUNNING \<and> (\<exists>w. assigned s = Some w \<and> (IsConnected w, ABool True) \<in> set tr)"
    and "act = Some PlaceAndStart \<Longrightarrow> desired s = RUNNING \<and> assigned s = None"
    and "act = Some RedispatchStop \<or> act = Some ClearStaleAssignment \<Longrightarrow> desired s = STOPPED \<and> assigned s \<noteq> None"
proof -
  have "wpm answers tracing (action_for s) (\<lambda>tr res. \<forall>act. res = Inr act \<longrightarrow>
      (act = Some RedispatchStart \<longrightarrow>
        desired s = RUNNING \<and> (\<exists>w. assigned s = Some w \<and> (IsConnected w, ABool True) \<in> set tr)) \<and>
      (act = Some PlaceAndStart \<longrightarrow> desired s = RUNNING \<and> assigned s = None) \<and>
      (act = Some RedispatchStop \<or> act = Some ClearStaleAssignment \<longrightarrow> desired s = STOPPED \<and> assigned s \<noteq> None)) []"
    by (cases "desired s"; cases "assigned s") (auto simp: action_for_def stopped_intent_action_def)
  from trace_runs [OF this assms] show
    "act = Some RedispatchStart \<Longrightarrow>
      desired s = RUNNING \<and> (\<exists>w. assigned s = Some w \<and> (IsConnected w, ABool True) \<in> set tr)"
    "act = Some PlaceAndStart \<Longrightarrow> desired s = RUNNING \<and> assigned s = None"
    "act = Some RedispatchStop \<or> act = Some ClearStaleAssignment \<Longrightarrow> desired s = STOPPED \<and> assigned s \<noteq> None"
    by auto
qed

text \<open>
  C32. The rows the repository selects, the rows the reconciler acts on and the rows it calls settled fit
  together. A settled row is never selected and gets no action. A selected row gets an action unless its
  worker was found disconnected while the row is desired running or still reads running, or the row reads
  running under a stopped intent with no worker to stop it on. A row that is neither settled nor selected
  reads starting, or restarting under a stopped intent, or is the stranded wedge that no arm claims: desired
  stopped, reading stopping, with no worker assigned.
\<close>

theorem action_matrix:
  assumes "runs answers (action_for s) tr (Inr act)"
  shows "(is_settled s \<longrightarrow> \<not> reconcilable s \<and> act = None) \<and>
    (reconcilable s \<longrightarrow>
       (act = None \<longleftrightarrow>
          (\<exists>w. assigned s = Some w \<and> (IsConnected w, ABool False) \<in> set tr \<and>
               (desired s = RUNNING \<or> observed s = ORunning)) \<or>
          (desired s = STOPPED \<and> observed s = ORunning \<and> assigned s = None))) \<and>
    (\<not> is_settled s \<and> \<not> reconcilable s \<longrightarrow>
       observed s = OStarting \<or> (desired s = STOPPED \<and> observed s = ORestarting) \<or>
       (desired s = STOPPED \<and> observed s = OStopping \<and> assigned s = None))"
proof -
  have "wpm answers tracing (action_for s) (\<lambda>tr res. \<forall>act. res = Inr act \<longrightarrow>
      (is_settled s \<longrightarrow> \<not> reconcilable s \<and> act = None) \<and>
      (reconcilable s \<longrightarrow>
         (act = None \<longleftrightarrow>
            (\<exists>w. assigned s = Some w \<and> (IsConnected w, ABool False) \<in> set tr \<and>
                 (desired s = RUNNING \<or> observed s = ORunning)) \<or>
            (desired s = STOPPED \<and> observed s = ORunning \<and> assigned s = None)))) []"
    by (cases "desired s"; cases "assigned s"; cases "observed s")
      (auto simp: action_for_def stopped_intent_action_def is_settled_def reconcilable_def is_at_rest_def
        NOT_RUNNING_def)
  from trace_runs [OF this assms] have "(is_settled s \<longrightarrow> \<not> reconcilable s \<and> act = None) \<and>
      (reconcilable s \<longrightarrow>
         (act = None \<longleftrightarrow>
            (\<exists>w. assigned s = Some w \<and> (IsConnected w, ABool False) \<in> set tr \<and>
                 (desired s = RUNNING \<or> observed s = ORunning)) \<or>
            (desired s = STOPPED \<and> observed s = ORunning \<and> assigned s = None)))" by simp
  moreover have "\<not> is_settled s \<and> \<not> reconcilable s \<longrightarrow>
       observed s = OStarting \<or> (desired s = STOPPED \<and> observed s = ORestarting) \<or>
       (desired s = STOPPED \<and> observed s = OStopping \<and> assigned s = None)"
    by (cases "desired s"; cases "observed s") (auto simp: is_settled_def reconcilable_def is_at_rest_def)
  ultimately show ?thesis by blast
qed

lemma grace_for_run:
  assumes "runs answers (grace_for cfg s action) tr (Inr d)"
  shows "(decided_grace_seconds d = grace_seconds cfg \<and> action \<noteq> RedispatchStart) \<or>
     (decided_grace_seconds d = refused_stop_grace_seconds cfg \<and> action = RedispatchStop \<and>
       (\<exists>u. (RefusedAt (s_id s), ARefusal (Some u)) \<in> set tr \<and> since s \<le> u)) \<or>
     (action = RedispatchStart \<and> (assigned s = None \<and> decided_grace_seconds d = grace_seconds cfg \<or>
       (\<exists>w. assigned s = Some w \<and> (observed s = OStopping \<longrightarrow> restart_timeout_seconds cfg \<le> decided_grace_seconds d) \<and>
         (grace_seconds cfg \<le> decided_grace_seconds d \<or>
          held_start_grace_seconds cfg \<le> decided_grace_seconds d \<and>
          (\<exists>n g. (CurrentGeneration (s_community s) (s_id s), AGeneration n) \<in> set tr \<and>
             (HeldGeneration w (s_id s), AHeld (Some g)) \<in> set tr \<and> n \<le> g \<and> decided_generation d = Some n)))))"
proof -
  let ?Q = "\<lambda>tr res. \<forall>d. res = Inr d \<longrightarrow>
     (decided_grace_seconds d = grace_seconds cfg \<and> action \<noteq> RedispatchStart) \<or>
     (decided_grace_seconds d = refused_stop_grace_seconds cfg \<and> action = RedispatchStop \<and>
       (\<exists>u. (RefusedAt (s_id s), ARefusal (Some u)) \<in> set tr \<and> since s \<le> u)) \<or>
     (action = RedispatchStart \<and> (assigned s = None \<and> decided_grace_seconds d = grace_seconds cfg \<or>
       (\<exists>w. assigned s = Some w \<and> (observed s = OStopping \<longrightarrow> restart_timeout_seconds cfg \<le> decided_grace_seconds d) \<and>
         (grace_seconds cfg \<le> decided_grace_seconds d \<or>
          held_start_grace_seconds cfg \<le> decided_grace_seconds d \<and>
          (\<exists>n g. (CurrentGeneration (s_community s) (s_id s), AGeneration n) \<in> set tr \<and>
             (HeldGeneration w (s_id s), AHeld (Some g)) \<in> set tr \<and> n \<le> g \<and> decided_generation d = Some n)))))"
  have "wpm answers tracing (grace_for cfg s action) ?Q []"
    by (cases "assigned s")
      (auto simp: grace_for_def previous_stop_refused_def held_start_grace_def fresh_enough_def Let_def
        split: option.splits)
  from trace_runs [OF this assms] show ?thesis by simp
qed

lemma prefix_of_reads:
  assumes "u @ v = pre @ (c, x) # post" "\<forall>(c, a) \<in> set u. K c" "\<not> K c"
  shows "set u \<subseteq> set pre" "(c, x) \<in> set v"
  using assms
  by (auto simp: append_eq_append_conv2 Cons_eq_append_conv append_eq_Cons_conv)

lemma consider_row_acts:
  assumes "runs answers (consider_row cfg a s t) (pre @ (c, x) # post) res" "\<not> observes c"
  obtains action d u v where "runs answers (action_for s) u (Inr (Some action))"
    "runs answers (grace_for cfg s action) v (Inr d)" "set u \<subseteq> set pre" "set v \<subseteq> set pre"
    "seconds (decided_grace_seconds d) \<le> t - since s"
    "\<And>b. dget a (s_id s) = Some b \<Longrightarrow> next_eligible_at b \<le> t"
proof -
  from assms(1) show ?thesis
    unfolding consider_row_def
  proof (cases rule: runs_bndE)
    case (1 e)
    then show ?thesis using only_runs [OF only_action_for] assms(2) by fastforce
  next
    case (2 u v act)
    have reads: "\<forall>(c, a) \<in> set u. observes c" using only_runs [OF only_action_for 2(2)] by fastforce
    have u: "set u \<subseteq> set pre" and c: "(c, x) \<in> set v"
      using prefix_of_reads [OF 2(1) [symmetric] reads assms(2)] by auto
    obtain zs where pre: "pre = u @ zs" and v: "v = zs @ (c, x) # post"
    proof -
      from 2(1) [symmetric] reads assms(2) have "\<exists>zs. pre = u @ zs \<and> v = zs @ (c, x) # post"
        by (auto simp: append_eq_append_conv2 append_eq_Cons_conv Cons_eq_append_conv)
      then show ?thesis using that by blast
    qed
    show ?thesis
    proof (cases act)
      case None
      then show ?thesis using 2(3) c by simp
    next
      case (Some action)
      from 2(3) have "runs answers (bnd (grace_for cfg s action) (\<lambda>d.
             if within_grace s t (decided_grace_seconds d) then Return a
             else if (case dget a (s_id s) of None \<Rightarrow> False | Some b \<Rightarrow> t < next_eligible_at b) then Return a
             else run_action cfg a s action t (decided_generation d))) (zs @ (c, x) # post) res"
        by (simp add: Some v)
      then show ?thesis
      proof (cases rule: runs_bndE)
        case (1 e)
        then show ?thesis using only_runs [OF only_grace_for] assms(2) by fastforce
      next
        case g: (2 u' v' d)
        have reads': "\<forall>(c, a) \<in> set u'. observes c" using only_runs [OF only_grace_for g(2)] by fastforce
        have u': "set u' \<subseteq> set zs" and c': "(c, x) \<in> set v'"
          using prefix_of_reads [OF g(1) [symmetric] reads' assms(2)] by auto
        then show ?thesis
          using g(2,3) 2(2) u pre Some by (intro that) (auto simp: within_grace_def split: if_splits option.splits)
      qed
    qed
  qed
qed

text \<open>
  C24. The reconciler never acts early. Whatever it does to a row beyond reading (a command, a placement, a
  write), the row's backoff window has lapsed, and its grace as well: the full grace, measured from the
  last intent or report; or, for a stop whose last dispatch the worker is on record as having refused since
  then, the refused-stop grace; or, for a start on a connected worker that holds a generation no older than
  the store's, the held-start grace. A start at a row still reading stopping has waited the restart budget
  in every case.
\<close>

theorem no_early_dispatch:
  assumes "runs answers (consider_row cfg a s t) (pre @ (c, x) # post) res" "\<not> observes c"
  shows "(\<forall>b. dget a (s_id s) = Some b \<longrightarrow> next_eligible_at b \<le> t) \<and>
    (seconds (grace_seconds cfg) \<le> t - since s \<or>
     (desired s = STOPPED \<and> seconds (refused_stop_grace_seconds cfg) \<le> t - since s \<and>
       (\<exists>u. (RefusedAt (s_id s), ARefusal (Some u)) \<in> set pre \<and> since s \<le> u)) \<or>
     (desired s = RUNNING \<and> seconds (held_start_grace_seconds cfg) \<le> t - since s \<and>
       (\<exists>w n g. assigned s = Some w \<and> (IsConnected w, ABool True) \<in> set pre \<and>
          (CurrentGeneration (s_community s) (s_id s), AGeneration n) \<in> set pre \<and>
          (HeldGeneration w (s_id s), AHeld (Some g)) \<in> set pre \<and> n \<le> g))) \<and>
    (desired s = RUNNING \<and> assigned s \<noteq> None \<and> observed s = OStopping \<longrightarrow>
       seconds (restart_timeout_seconds cfg) \<le> t - since s)"
proof -
  obtain action d u v where run: "runs answers (action_for s) u (Inr (Some action))"
    "runs answers (grace_for cfg s action) v (Inr d)" and sub: "set u \<subseteq> set pre" "set v \<subseteq> set pre"
    and waited: "seconds (decided_grace_seconds d) \<le> t - since s"
    and eligible: "\<And>b. dget a (s_id s) = Some b \<Longrightarrow> next_eligible_at b \<le> t"
    using consider_row_acts [OF assms] by metis
  have lapsed: "n \<le> decided_grace_seconds d \<Longrightarrow> seconds n \<le> t - since s" for n
    using waited by (simp add: seconds_def)
  note chosen = action_for_run [OF run(1)]
  show ?thesis
  proof (cases action)
    case RedispatchStart
    then obtain w where w: "desired s = RUNNING" "assigned s = Some w" "(IsConnected w, ABool True) \<in> set pre"
      using chosen(1) sub by blast
    then show ?thesis using grace_for_run [OF run(2)] RedispatchStart eligible lapsed sub by auto blast+
  next
    case RedispatchStop
    then show ?thesis using chosen(3) grace_for_run [OF run(2)] eligible lapsed sub by auto
  next
    case ClearStaleAssignment
    then show ?thesis using chosen(3) grace_for_run [OF run(2)] eligible lapsed by auto
  next
    case PlaceAndStart
    then show ?thesis using chosen(2) grace_for_run [OF run(2)] eligible lapsed by auto
  qed
qed

section \<open>Forgiveness\<close>

text \<open>
  C30. An unbroken settled run is forgiven exactly when it has lasted its own window. Start from an entry
  whose run has not begun and let every tick of a series read the row settled, in the order of time. After
  the series the entry is gone if and only if the last tick came at least the entry's delay after the
  first; the passing of time alone does not expire it meanwhile.
\<close>

theorem settled_run_forgives:
  assumes "dwf a" "dget a sid = Some b" "settled_since b = None" "reads \<noteq> []" "sorted (map fst reads)"
    "\<forall>(t, tracked) \<in> set reads. \<exists>s. dget tracked sid = Some (Some s) \<and> is_settled s"
    "0 < backoff_max_seconds cfg"
  shows "dget (fold (\<lambda>(t, tracked) a. upkeep cfg a tracked t) reads a) sid = None \<longleftrightarrow>
    delay b \<le> fst (last reads) - fst (hd reads)"
proof -
  let ?after = "\<lambda>rs. fold (\<lambda>(t, tracked) a. upkeep cfg a tracked t) rs a"
  have wf: "dwf (?after rs)" for rs
    by (induction rs rule: rev_induct) (auto simp: assms(1) dwf_upkeep)
  have "rs \<noteq> [] \<Longrightarrow> sorted (map fst rs) \<Longrightarrow> set rs \<subseteq> set reads \<Longrightarrow>
      dget (?after rs) sid =
        (if delay b \<le> fst (last rs) - fst (hd rs) then None
         else Some (b\<lparr>settled_since := Some (fst (hd rs)), last_settled_at := Some (fst (last rs))\<rparr>))" for rs
  proof (induction rs rule: rev_induct)
    case (snoc r rs)
    obtain t tracked where r: "r = (t, tracked)" by (cases r)
    obtain s where s: "dget tracked sid = Some (Some s)" "is_settled s" using snoc.prems assms(6) r by auto
    have fresh: "\<not> expired cfg t (c\<lparr>last_settled_at := Some t\<rparr>)" for c :: backoff
      using assms(7) by (simp add: expired_def seconds_def max_def)
    show ?case
    proof (cases "rs = []")
      case True
      then show ?thesis using s fresh assms(1,2,3)
        by (simp add: r dget_upkeep forgive_entry_def)
    next
      case False
      have "fst (last rs) \<le> t" "sorted (map fst rs)"
        using snoc.prems(2) False by (auto simp: r sorted_append)
      then have "dget (?after rs) sid =
          (if delay b \<le> fst (last rs) - fst (hd rs) then None
           else Some (b\<lparr>settled_since := Some (fst (hd rs)), last_settled_at := Some (fst (last rs))\<rparr>))"
        using snoc False by auto
      then show ?thesis using s fresh wf [of rs] False \<open>fst (last rs) \<le> t\<close>
        by (auto simp: r dget_upkeep forgive_entry_def)
    qed
  qed simp
  from this [OF assms(4,5)] show ?thesis by simp
qed

section \<open>What a tick may drop\<close>

lemma runs_with_uow:
  assumes "runs answers (with_uow p) tr (Inr x)"
  obtains u where "runs answers p u (Inr x)" "set u \<subseteq> set tr"
proof -
  from assms show thesis
    unfolding with_uow_def finally_do_def
  proof (cases rule: runs_bndE)
    case (2 u v y)
    from 2(3) show ?thesis
    proof (cases rule: runs_bndE)
      case (2 u' v' r)
      then obtain r' where "r = r'" "runs answers p u' r'" using runs_attempt by blast
      moreover have "r = Inr x" using 2(3) by (cases rule: runs_bndE) (auto split: sum.splits)
      ultimately show ?thesis using that [of u'] 2(1) \<open>tr = u @ v\<close> by auto
    qed simp
  qed simp
qed

lemma get_row_run:
  assumes "runs answers (get_row sid) u (Inr row)"
  shows "(GetById sid, AServer row) \<in> set u"
proof -
  have "wpm answers tracing (get_row sid) (\<lambda>u res. \<forall>row. res = Inr row \<longrightarrow> (GetById sid, AServer row) \<in> set u) []"
    by simp
  from trace_runs [OF this assms] show ?thesis by simp
qed

lemma tracked_run:
  assumes "runs answers (for_each ids (\<lambda>sid. bnd (get_row sid) (\<lambda>row. Return (sid, row)))) tr (Inr tracked)"
  shows "\<forall>(sid, row) \<in> set tracked. (GetById sid, AServer row) \<in> set tr"
  using assms
proof (induction ids arbitrary: tr tracked)
  case (Cons sid ids)
  from Cons.prems obtain u v row ys where "tr = u @ v" "tracked = (sid, row) # ys"
    "runs answers (get_row sid) u (Inr row)"
    "runs answers (for_each ids (\<lambda>sid. bnd (get_row sid) (\<lambda>row. Return (sid, row)))) v (Inr ys)"
    by (auto elim!: runs_bndE)
  then show ?case using get_row_run Cons.IH by fastforce
qed simp

lemma read_rows_run:
  assumes "runs answers (read_rows a) tr (Inr (candidates, tracked))"
  shows "(ListReconcilable, AServers candidates) \<in> set tr"
    and "dget tracked sid = Some row \<Longrightarrow> (GetById sid, AServer row) \<in> set tr"
proof -
  obtain u where u: "set u \<subseteq> set tr"
    and "runs answers (bnd (do_call ListReconcilable to_servers) (\<lambda>candidates.
        bnd (for_each (filter (\<lambda>sid. sid \<notin> set (map s_id candidates)) (map fst a)) (\<lambda>sid.
               bnd (get_row sid) (\<lambda>row. Return (sid, row)))) (\<lambda>tracked.
          Return (candidates, tracked)))) u (Inr (candidates, tracked))"
    using assms unfolding read_rows_def by (rule runs_with_uow)
  then obtain x y where parts: "u = x @ y" "runs answers (do_call ListReconcilable to_servers) x (Inr candidates)"
    "runs answers (for_each (filter (\<lambda>sid. sid \<notin> s_id ` set candidates) (map fst a)) (\<lambda>sid.
               bnd (get_row sid) (\<lambda>row. Return (sid, row)))) y (Inr tracked)"
    by (auto elim!: runs_bndE)
  have "wpm answers tracing (do_call ListReconcilable to_servers)
      (\<lambda>u res. \<forall>x. res = Inr x \<longrightarrow> (ListReconcilable, AServers x) \<in> set u) []" by simp
  from trace_runs [OF this parts(2)] have cs: "(ListReconcilable, AServers candidates) \<in> set x" by simp
  from tracked_run [OF parts(3)] show "(ListReconcilable, AServers candidates) \<in> set tr"
    "dget tracked sid = Some row \<Longrightarrow> (GetById sid, AServer row) \<in> set tr"
    using cs u parts(1) by (auto dest!: map_of_SomeD)
qed

lemma consider_row_keeps:
  assumes "runs answers (consider_row cfg a s t) tr (Inr a')" "dget a k = Some b"
    "k \<noteq> s_id s \<or> t < next_eligible_at b"
  shows "dget a' k = Some b"
proof -
  have "wpm answers tracing (run_action cfg a s action t g) (\<lambda>_ res. \<forall>a'. res = Inr a' \<longrightarrow> k \<noteq> s_id s \<longrightarrow> dget a' k = dget a k) tr"
    for action g tr
    unfolding run_action_def
    by (auto intro!: wpm_any split: sum.splits
        simp: after_error_def after_dispatch_def dget_record_failure_other)
  then have "wpm answers tracing (consider_row cfg a s t) (\<lambda>_ res. \<forall>a'. res = Inr a' \<longrightarrow> dget a' k = Some b) []"
    unfolding consider_row_def wpm_bnd using assms(2,3)
    by (cases "k = s_id s") (auto intro!: wpm_any elim!: wpm_mono split: sum.splits option.splits)
  from trace_runs [OF this assms(1)] show ?thesis by simp
qed

lemma consider_all_keeps:
  assumes "runs answers (consider_all cfg t ss a) tr (Inr a')" "dget a k = Some b"
    "k \<notin> s_id ` set ss \<or> t < next_eligible_at b"
  shows "dget a' k = Some b"
  using assms
proof (induction ss arbitrary: a tr)
  case (Cons s ss)
  from Cons.prems(1) obtain u v a1 where
    first: "runs answers (catch (consider_row cfg a s t) (\<lambda>e. if e = CancelledError then Raise e else Return a)) u (Inr a1)"
    and rest: "runs answers (consider_all cfg t ss a1) v (Inr a')"
    by (auto elim!: runs_bndE)
  from first have "dget a1 k = Some b"
  proof (cases rule: runs_catchE)
    case 1
    then show ?thesis using consider_row_keeps Cons.prems(2,3) by auto
  qed (use Cons.prems(2) in \<open>auto split: if_splits\<close>)
  then show ?case using Cons.IH [OF rest] Cons.prems(3) by auto
qed simp

text \<open>
  C29. A tick forgets a backoff entry for one of four reasons only: the row is gone; the row was read
  settled and had been for the entry's whole window; the expiry slack has passed since the entry last
  allowed an attempt; or the row is a candidate whose window had lapsed, so an attempt was allowed. In
  particular a crash-looping server that a tick misses, or reads running for less than its window, keeps
  its failure count.
\<close>

theorem backoff_kept_until_earned:
  assumes "runs answers (tick cfg a) tr (Inr a')" "dwf a" "dget a sid = Some b" "dget a' sid = None"
  shows "\<exists>t tr'. tr = (Now, ATime t) # tr' \<and>
    ((GetById sid, AServer None) \<in> set tr' \<or>
     (\<exists>s. (GetById sid, AServer (Some s)) \<in> set tr' \<and> is_settled s \<and>
          delay b \<le> (case settled_since b of None \<Rightarrow> 0 | Some u \<Rightarrow> t - u)) \<or>
     next_eligible_at b + seconds (backoff_max_seconds cfg) \<le> t \<or>
     (\<exists>ss s. (ListReconcilable, AServers ss) \<in> set tr' \<and> s \<in> set ss \<and> s_id s = sid \<and>
          next_eligible_at b \<le> t))"
proof -
  from assms(1) obtain x u v t candidates tracked where tr: "tr = x @ u @ v" "runs answers now x (Inr t)"
    and rows: "runs answers (read_rows a) u (Inr (candidates, tracked))"
    and all: "runs answers (consider_all cfg t candidates (upkeep cfg a tracked t)) v (Inr a')"
    unfolding tick_def by (auto elim!: runs_bndE)
  have "wpm answers tracing now (\<lambda>u res. \<forall>t. res = Inr t \<longrightarrow> u = [(Now, ATime t)]) []" by simp
  from trace_runs [OF this tr(2)] have x: "x = [(Now, ATime t)]" by simp
  note read = read_rows_run [OF rows]
  show ?thesis
  proof (cases "dget (upkeep cfg a tracked t) sid")
    case None
    then consider "forgive_entry tracked t sid b = None"
      | b' where "forgive_entry tracked t sid b = Some b'" "expired cfg t b'"
      using assms(2,3) by (auto simp: dget_upkeep split: option.splits if_splits)
    then show ?thesis
    proof cases
      case 1
      then show ?thesis using x tr(1) read(2) [of sid]
        by (fastforce simp: forgive_entry_def Let_def split: option.splits if_splits)
    next
      case 2
      then have "next_eligible_at b + seconds (backoff_max_seconds cfg) \<le> t"
        by (auto simp: forgive_entry_def expired_def Let_def split: option.splits if_splits)
      then show ?thesis using x tr(1) by simp
    qed
  next
    case (Some b')
    then have "next_eligible_at b' = next_eligible_at b"
      using assms(2,3) by (auto simp: dget_upkeep forgive_entry_def Let_def split: option.splits if_splits)
    moreover have "sid \<in> s_id ` set candidates \<and> next_eligible_at b' \<le> t"
      using consider_all_keeps [OF all Some] assms(4) by fastforce
    ultimately show ?thesis using x tr(1) read(1) by fastforce
  qed
qed

section \<open>A wedged stop is released\<close>

lemma clear_stale_exec:
  assumes "table_wf t" "dget t sid = Some row" "s_community row = cid" "desired row = STOPPED"
    "observed row \<in> {OStopped, OCrashed}" "assigned row = Some w" "ext (InFlight sid) = ABool False"
    "ext (IsConnected w) = ABool conn" "conn \<Longrightarrow> ext (SnapshotCmd w cid sid True) = AOutcome oc"
  shows "exec (db_handler ext) (clear_stale_assignment cid sid) (t, t) =
    (Inr (row\<lparr>assigned := None\<rparr>), let t' = dset sid (row\<lparr>assigned := None\<rparr>) t in (t', t'))"
proof -
  have ok: "exec (db_handler ext) (stale_validate cid sid) (t, t) = (Inr (row, w), (t, t))"
    using assms by (auto simp: stale_validate_def load_server_def exec_simps)
  have snap: "exec (db_handler ext) (stale_resnapshot row w cid sid) (t, t) = (Inr (), (t, t))"
    using assms final_snapshot_answered [of ext w cid sid oc]
    by (cases conn) (auto simp: stale_resnapshot_def exec_call to_simps db_handler_def when_do_def)
  have "exec (db_handler ext) (stale_clear row w sid) (t, t) =
    (Inr (row\<lparr>assigned := None\<rparr>), let t' = dset sid (row\<lparr>assigned := None\<rparr>) t in (t', t'))"
    using assms by (auto simp: stale_clear_def exec_simps clear_assignment_eq)
  with ok snap show ?thesis using assms(7)
    by (simp add: clear_stale_assignment_def clear_stale_assignment_body_def claim_def exec_call to_simps
        db_handler_def finally_do_def Let_def)
qed

text \<open>
  C31. A stop that was wedged is released. Let a row be desired stopped and read stopped or crashed while
  still assigned, past the full grace and its backoff, with no other stop flow in flight, and let the
  worker, when it is connected, answer the final snapshot (whatever the outcome). One consideration of the
  row then leaves it settled: unassigned, everything else as it was, no other row changed, and its backoff
  entry forgotten.
\<close>

theorem wedged_stop_released:
  assumes "table_wf t" "dget t sid = Some row" "desired row = STOPPED" "observed row \<in> {OStopped, OCrashed}"
    "assigned row = Some w" "ext (InFlight sid) = ABool False" "ext (IsConnected w) = ABool conn"
    "conn \<Longrightarrow> ext (SnapshotCmd w (s_community row) sid True) = AOutcome oc"
    "seconds (grace_seconds cfg) \<le> n - since row" "\<forall>b. dget a sid = Some b \<longrightarrow> next_eligible_at b \<le> n"
  shows "\<exists>row' t'. exec (db_handler ext) (consider_row cfg a row n) (t, t) = (Inr (dpop sid a), (t', t')) \<and>
    row' = row\<lparr>assigned := None\<rparr> \<and> t' = dset sid row' t \<and> is_settled row' \<and> \<not> reconcilable row'"
proof -
  have id: "s_id row = sid" by (rule table_wfD(2) [OF assms(1,2)])
  have act: "exec (db_handler ext) (action_for row) (t, t) = (Inr (Some ClearStaleAssignment), (t, t))"
    using assms by (auto simp: action_for_def stopped_intent_action_def)
  have grace: "exec (db_handler ext) (grace_for cfg row ClearStaleAssignment) (t, t) =
      (Inr \<lparr>decided_grace_seconds = grace_seconds cfg, decided_generation = None\<rparr>, (t, t))"
    using assms by (simp add: grace_for_def)
  have clear: "exec (db_handler ext) (clear_stale_assignment (s_community row) sid) (t, t) =
    (Inr (row\<lparr>assigned := None\<rparr>), let t' = dset sid (row\<lparr>assigned := None\<rparr>) t in (t', t'))"
    by (rule clear_stale_exec [OF assms(1,2) _ assms(3-8)]) simp_all
  have "exec (db_handler ext) (consider_row cfg a row n) (t, t) =
      (Inr (dpop sid a), let t' = dset sid (row\<lparr>assigned := None\<rparr>) t in (t', t'))"
    using assms(9,10)
    by (auto simp: consider_row_def act grace within_grace_def run_action_def dispatch_def id clear
        after_dispatch_def start_action_def Let_def split: option.splits)
  moreover have "is_settled (row\<lparr>assigned := None\<rparr>)" "\<not> reconcilable (row\<lparr>assigned := None\<rparr>)"
    using assms(3,4) by (auto simp: is_settled_def is_at_rest_def reconcilable_def)
  ultimately show ?thesis by (auto simp: Let_def)
qed

end
