(* ===== verification/Reconciler_Witness.thy ===== *)
theory Reconciler_Witness
  imports Reconciler_Props Lifecycle_Witness
begin

text \<open>
  Concrete ticks of the reconciler against the one-server table of the lifecycle runs, at which the
  theorems about it are applied.
\<close>

definition demo_config :: reconciler_config where
  "demo_config = \<lparr>grace_seconds = 600, held_start_grace_seconds = 30, refused_stop_grace_seconds = 30,
     restart_timeout_seconds = 300, backoff_base_seconds = 10, backoff_max_seconds = 600\<rparr>"

definition demo_entry :: backoff where
  "demo_entry = \<lparr>failures = 1, next_eligible_at = 0, delay = seconds 10, settled_since = None, last_settled_at = None\<rparr>"

abbreviation wedged_row :: server where
  "wedged_row \<equiv> demo_row\<lparr>desired := STOPPED, observed := OStopped, assigned := Some ''w''\<rparr>"

theorem failures_back_off_witness:
  "dget (fold (\<lambda>t a. record_failure demo_config a ''s'' t) [1, 2, 3] []) ''s'' =
     Some \<lparr>failures = 3, next_eligible_at = 3 + seconds 40, delay = seconds 40,
           settled_since = None, last_settled_at = None\<rparr>"
  using failures_back_off [of "[]" "''s''" "[1, 2, 3]" demo_config] by (simp add: demo_config_def)

theorem action_matrix_witness:
  "runs answers (action_for wedged_row) [] (Inr (Some ClearStaleAssignment)) \<and> reconcilable wedged_row \<and>
   \<not> is_settled wedged_row"
proof -
  have run: "runs answers (action_for wedged_row) [] (Inr (Some ClearStaleAssignment))"
    by (simp add: action_for_def stopped_intent_action_def)
  have "reconcilable wedged_row" by (simp add: reconcilable_def)
  with action_matrix [OF run] run show ?thesis by blast
qed

abbreviation wedged_trace :: "(call, answer) trace" where
  "wedged_trace \<equiv> demo_trace COK COK STOPPED OStopped (Some ''w'') (consider_row demo_config [] wedged_row 700000000)"

theorem no_early_dispatch_witness:
  "\<exists>pre c x post. wedged_trace = pre @ (c, x) # post \<and> \<not> observes c \<and>
     seconds (grace_seconds demo_config) \<le> 700000000 - since wedged_row"
proof -
  have "list_ex (\<lambda>(c, a). \<not> observes c) wedged_trace" by code_simp
  then obtain pre c x post where t: "wedged_trace = pre @ (c, x) # post" and c: "\<not> observes c"
    using occurs_split [of "\<lambda>c. \<not> observes c" wedged_trace] by blast
  have "runs answers (consider_row demo_config [] wedged_row 700000000) (pre @ (c, x) # post)
     (fst (exec (db_handler (demo_ext COK COK)) (consider_row demo_config [] wedged_row 700000000)
        (demo_table STOPPED OStopped (Some ''w''), demo_table STOPPED OStopped (Some ''w''))))"
    using demo_runs t by metis
  from no_early_dispatch [OF this c]
  have "seconds (grace_seconds demo_config) \<le> 700000000 - since wedged_row \<or>
    seconds (refused_stop_grace_seconds demo_config) \<le> 700000000 - since wedged_row"
    by auto
  then show ?thesis using t c by (auto simp: demo_config_def seconds_def since_def demo_row_def)
qed

theorem settled_run_forgives_witness:
  "dget (fold (\<lambda>(t, tracked) a. upkeep demo_config a tracked t)
     [(1, [(''s'', Some demo_row)]), (20000000, [(''s'', Some demo_row)])] [(''s'', demo_entry)]) ''s'' = None"
proof -
  have "is_settled demo_row" by (simp add: is_settled_def is_at_rest_def demo_row_def)
  then have "dget (fold (\<lambda>(t, tracked) a. upkeep demo_config a tracked t)
     [(1, [(''s'', Some demo_row)]), (20000000, [(''s'', Some demo_row)])] [(''s'', demo_entry)]) ''s'' = None \<longleftrightarrow>
    delay demo_entry \<le> fst (last [(1, [(''s'', Some demo_row)]), (20000000, [(''s'', Some demo_row)])]) -
      fst (hd [(1, [(''s'', Some demo_row)]), (20000000, [(''s'', Some demo_row)])])"
    by (intro settled_run_forgives) (simp_all add: dwf_def demo_entry_def demo_config_def)
  then show ?thesis by (simp add: demo_entry_def seconds_def)
qed

theorem backoff_kept_until_earned_witness:
  "fst (exec (db_handler (demo_ext COK COK)) (tick demo_config [(''s'', demo_entry\<lparr>delay := 0\<rparr>)])
      (demo_table STOPPED OStopped None, demo_table STOPPED OStopped None)) = Inr [] \<and>
   (\<exists>t tr'. demo_trace COK COK STOPPED OStopped None (tick demo_config [(''s'', demo_entry\<lparr>delay := 0\<rparr>)]) =
      (Now, ATime t) # tr')"
proof -
  let ?a = "[(''s'', demo_entry\<lparr>delay := 0\<rparr>)]"
  have res: "fst (exec (db_handler (demo_ext COK COK)) (tick demo_config ?a)
      (demo_table STOPPED OStopped None, demo_table STOPPED OStopped None)) = Inr []" by code_simp
  have "runs answers (tick demo_config ?a) (demo_trace COK COK STOPPED OStopped None (tick demo_config ?a)) (Inr [])"
    using demo_runs [where p = "tick demo_config ?a"] res by metis
  from backoff_kept_until_earned [OF this, of "''s''"] res show ?thesis by (auto simp: dwf_def)
qed

theorem wedged_stop_released_witness:
  "\<exists>row' t'. exec (db_handler (demo_ext COK COK)) (consider_row demo_config [] wedged_row 700000000)
      (demo_table STOPPED OStopped (Some ''w''), demo_table STOPPED OStopped (Some ''w'')) = (Inr [], (t', t')) \<and>
     dget t' ''s'' = Some row' \<and> assigned row' = None \<and> is_settled row'"
proof -
  let ?t = "demo_table STOPPED OStopped (Some ''w'')"
  have "table_wf ?t" using demo_wf by (simp add: db_wf_def)
  moreover have "dget ?t ''s'' = Some wedged_row" "desired wedged_row = STOPPED"
    "observed wedged_row \<in> {OStopped, OCrashed}" "assigned wedged_row = Some ''w''"
    by (simp_all add: demo_table_def)
  moreover have "demo_ext COK COK (InFlight ''s'') = ABool False" "demo_ext COK COK (IsConnected ''w'') = ABool False"
    by (simp_all add: demo_ext_def default_answer_def)
  moreover have "False \<Longrightarrow> demo_ext COK COK (SnapshotCmd ''w'' (s_community wedged_row) ''s'' True) = AOutcome (outcome COK)"
    by simp
  moreover have "seconds (grace_seconds demo_config) \<le> 700000000 - since wedged_row"
    by (simp add: demo_config_def seconds_def since_def demo_row_def)
  moreover have "\<forall>b. dget [] ''s'' = Some b \<longrightarrow> next_eligible_at b \<le> 700000000" by simp
  ultimately have "\<exists>row' t'. exec (db_handler (demo_ext COK COK)) (consider_row demo_config [] wedged_row 700000000) (?t, ?t) =
      (Inr (dpop ''s'' []), (t', t')) \<and>
    row' = wedged_row\<lparr>assigned := None\<rparr> \<and> t' = dset ''s'' row' ?t \<and> is_settled row' \<and> \<not> reconcilable row'"
    by (rule wedged_stop_released)
  then show ?thesis by auto
qed

end
