(* ===== verification/Community.thy ===== *)
theory Community
  imports Prelude
begin

text \<open>
  The community context (\<open>community/\<close>): the permission catalog, communities, memberships, roles and
  resource grants with the constraints of their tables, the grant-only-what-you-hold ceiling, the use cases
  that change them, and the permission checker every route asks. A use case is one transaction: it either
  returns the new state or raises and leaves the old one. The rows a ceiling is read from are locked until
  the transaction ends (\<open>permission_ceiling.py\<close>), which is why the transaction is a single step.
\<close>

section \<open>Permissions\<close>

type_synonym user_id = uuid
type_synonym perms = "string set"

datatype comm_error =
    InvalidCommunityNameError
  | InvalidRoleNameError
  | InvalidPermissionError
  | UnknownPermissionError
  | CommunityAlreadyExistsError
  | RoleAlreadyExistsError
  | MembershipAlreadyExistsError
  | ResourceGrantAlreadyExistsError
  | OwnerUserNotFoundError
  | CommunityNotFoundError
  | MemberUserNotFoundError
  | MembershipNotFoundError
  | RoleNotFoundError
  | LastOwnerRemovalError
  | PresetRoleNotEditableError
  | PermissionCeilingExceededError "string list"
  | GrantResourceNotFoundError
  | GrantTargetNotMemberError
  | InvalidGrantResourceTypeError
  | ResourceGrantNotFoundError
  | CommunityHasServersError
  | CommunityOwnedError
  | IntegrityError

definition partition_colon :: "string \<Rightarrow> string \<times> bool \<times> string" where
  \<comment> \<open>\<open>value.partition(":")\<close>\<close>
  "partition_colon v =
     (let before = takeWhile (\<lambda>c. c \<noteq> CHR '':'') v
      in if before = v then (v, False, []) else (before, True, drop (Suc (length before)) v))"

definition mk_permission :: "string \<Rightarrow> comm_error + string" where
  "mk_permission v =
     (let (resource, sep, action) = partition_colon v
      in if \<not> sep \<or> resource = [] \<or> action = [] \<or> CHR '':'' \<in> set action then Inl InvalidPermissionError
         else if v \<noteq> strip v then Inl InvalidPermissionError
         else Inr v)"

definition COMMUNITY_PERMISSIONS :: perms where
  "COMMUNITY_PERMISSIONS = set
     [''server:create'', ''server:read'', ''server:update'', ''server:delete'', ''server:start'',
      ''server:stop'', ''server:restart'', ''server:command'', ''file:read'', ''file:edit'',
      ''file:history'', ''file:rollback'', ''backup:create'', ''backup:read'', ''backup:restore'',
      ''backup:delete'', ''backup:schedule'', ''member:read'', ''member:add'', ''member:remove'',
      ''role:read'', ''role:manage'', ''grant:read'', ''grant:manage'', ''group:read'', ''group:manage'',
      ''community:read'', ''community:update'', ''community:delete'', ''audit:read'', ''session:read'',
      ''plugin:read'', ''plugin:manage'', ''schedule:read'', ''schedule:manage'']"

definition PLATFORM_ADMIN_PERMISSIONS :: perms where
  "PLATFORM_ADMIN_PERMISSIONS = set [''worker:manage'', ''community:provision'', ''platform:monitor'']"

definition ALL_PERMISSIONS :: perms where
  "ALL_PERMISSIONS = COMMUNITY_PERMISSIONS \<union> PLATFORM_ADMIN_PERMISSIONS"

definition OWNER_ROLE_NAME :: string where
  "OWNER_ROLE_NAME = ''Owner''"

definition require_known_permission :: "string \<Rightarrow> comm_error + string" where
  "require_known_permission p = (if p \<notin> ALL_PERMISSIONS then Inl UnknownPermissionError else Inr p)"

definition is_platform_admin_permission :: "string \<Rightarrow> bool" where
  "is_platform_admin_permission p \<longleftrightarrow> p \<in> PLATFORM_ADMIN_PERMISSIONS"

definition grant_families :: "string list" where
  "grant_families = [''server'', ''file'', ''backup'', ''plugin'', ''schedule'']"

definition GRANT_PERMISSIONS_BY_RESOURCE_TYPE :: "(string, perms) dict" where
  "GRANT_PERMISSIONS_BY_RESOURCE_TYPE =
     [(''server'', Set.filter (\<lambda>p. fst (partition_colon p) \<in> set grant_families) COMMUNITY_PERMISSIONS)]"

definition validate_permissions :: "perms \<Rightarrow> comm_error + perms" where
  \<comment> \<open>\<open>{require_community_permission(p) for p in ps}\<close>: one uncatalogued code raises\<close>
  "validate_permissions ps = (if ps \<subseteq> COMMUNITY_PERMISSIONS then Inr ps else Inl UnknownPermissionError)"

definition validate_grant_permissions :: "string \<Rightarrow> perms \<Rightarrow> comm_error + perms" where
  "validate_grant_permissions resource_type ps =
     (if ps \<subseteq> dget_default GRANT_PERMISSIONS_BY_RESOURCE_TYPE resource_type {} then Inr ps
      else Inl UnknownPermissionError)"

definition mk_community_name :: "string \<Rightarrow> comm_error + string" where
  "mk_community_name v = (let trimmed = strip v in if trimmed = [] then Inl InvalidCommunityNameError else Inr trimmed)"

definition mk_role_name :: "string \<Rightarrow> comm_error + string" where
  "mk_role_name v = (let trimmed = strip v in if trimmed = [] then Inl InvalidRoleNameError else Inr trimmed)"

section \<open>Rows\<close>

record community =
  com_id :: uuid
  com_name :: string
  com_created :: instant
  com_updated :: instant
  max_servers :: "int option"
  max_members :: "int option"

record membership =
  m_id :: uuid
  m_user :: user_id
  m_community :: uuid
  m_created :: instant

record role =
  r_id :: uuid
  r_community :: uuid
  r_name :: string
  r_permissions :: perms
  r_created :: instant
  r_updated :: instant
  is_preset :: bool

record resource_grant =
  g_id :: uuid
  g_membership :: uuid
  g_user :: user_id
  g_community :: uuid
  g_type :: string
  g_resource :: uuid
  g_permissions :: perms
  g_created :: instant
  g_updated :: instant

record cdb =
  communities :: "(uuid, community) dict"
  memberships :: "(uuid, membership) dict"
  roles :: "(uuid, role) dict"
  assignments :: "(uuid \<times> uuid) list"
  grants :: "(uuid, resource_grant) dict"
  server_rows :: "(uuid \<times> uuid) list"

text \<open>\<open>server_rows\<close> are the ids of the servers, each with its community: the rows the foreign keys name.\<close>

section \<open>Repositories\<close>

definition get_by_user_and_community :: "cdb \<Rightarrow> user_id \<Rightarrow> uuid \<Rightarrow> membership option" where
  "get_by_user_and_community s u c = find (\<lambda>m. m_user m = u \<and> m_community m = c) (dvalues (memberships s))"

definition hold_for_users :: "cdb \<Rightarrow> uuid \<Rightarrow> user_id list \<Rightarrow> membership list" where
  "hold_for_users s c us =
     sort_key m_id (filter (\<lambda>m. m_community m = c \<and> m_user m \<in> set us) (dvalues (memberships s)))"

definition memberships_of_user :: "cdb \<Rightarrow> user_id \<Rightarrow> membership list" where
  "memberships_of_user s u = filter (\<lambda>m. m_user m = u) (dvalues (memberships s))"

definition list_role_ids :: "cdb \<Rightarrow> uuid \<Rightarrow> uuid list" where
  "list_role_ids s mid = map snd (filter (\<lambda>(m, r). m = mid) (assignments s))"

definition lock_role_ids :: "cdb \<Rightarrow> uuid \<Rightarrow> uuid list \<Rightarrow> uuid list" where
  "lock_role_ids s mid rids = sort (filter (\<lambda>r. r \<in> set rids) (list_role_ids s mid))"

definition lock_owner_role_holders :: "cdb \<Rightarrow> uuid \<Rightarrow> uuid \<Rightarrow> uuid list" where
  "lock_owner_role_holders s c rid =
     sort (map fst (filter (\<lambda>(m, r). r = rid \<and>
       (case dget (memberships s) m of None \<Rightarrow> False | Some row \<Rightarrow> m_community row = c)) (assignments s)))"

definition roles_by_ids :: "cdb \<Rightarrow> uuid list \<Rightarrow> role list" where
  "roles_by_ids s rids = filter (\<lambda>r. r_id r \<in> set rids) (dvalues (roles s))"

definition list_roles :: "cdb \<Rightarrow> uuid \<Rightarrow> role list" where
  "list_roles s c = filter (\<lambda>r. r_community r = c) (dvalues (roles s))"

definition lock_by_ids :: "cdb \<Rightarrow> uuid list \<Rightarrow> uuid option \<Rightarrow> role list" where
  \<comment> \<open>one row at a time in ascending id order\<close>
  "lock_by_ids s rids for_update =
     List.map_filter (dget (roles s)) (sort (remdups (rids @ (case for_update of None \<Rightarrow> [] | Some r \<Rightarrow> [r]))))"

definition grant_for_user_resource :: "cdb \<Rightarrow> user_id \<Rightarrow> uuid \<Rightarrow> string \<Rightarrow> uuid \<Rightarrow> resource_grant option" where
  "grant_for_user_resource s u c ty rid =
     find (\<lambda>g. g_user g = u \<and> g_community g = c \<and> g_type g = ty \<and> g_resource g = rid) (dvalues (grants s))"

definition grants_for_community :: "cdb \<Rightarrow> uuid \<Rightarrow> user_id option \<Rightarrow> resource_grant list" where
  "grants_for_community s c u =
     filter (\<lambda>g. g_community g = c \<and> (case u of None \<Rightarrow> True | Some v \<Rightarrow> g_user g = v)) (dvalues (grants s))"

definition resource_exists :: "cdb \<Rightarrow> uuid \<Rightarrow> string \<Rightarrow> uuid \<Rightarrow> bool" where
  "resource_exists s c ty rid \<longleftrightarrow> ty = ''server'' \<and> (rid, c) \<in> set (server_rows s)"

text \<open>Inserts, with the constraints of the tables: primary keys, foreign keys and unique keys.\<close>

definition insert_community :: "cdb \<Rightarrow> community \<Rightarrow> comm_error + cdb" where
  "insert_community s c =
     (if dget (communities s) (com_id c) \<noteq> None then Inl IntegrityError
      else if list_ex (\<lambda>d. com_name d = com_name c) (dvalues (communities s)) then Inl CommunityAlreadyExistsError
      else Inr (s\<lparr>communities := dset (com_id c) c (communities s)\<rparr>))"

definition insert_role :: "cdb \<Rightarrow> role \<Rightarrow> comm_error + cdb" where
  "insert_role s r =
     (if dget (roles s) (r_id r) \<noteq> None \<or> dget (communities s) (r_community r) = None then Inl IntegrityError
      else if list_ex (\<lambda>q. r_community q = r_community r \<and> r_name q = r_name r) (dvalues (roles s))
      then Inl RoleAlreadyExistsError
      else Inr (s\<lparr>roles := dset (r_id r) r (roles s)\<rparr>))"

definition insert_membership :: "(user_id \<Rightarrow> bool) \<Rightarrow> cdb \<Rightarrow> membership \<Rightarrow> comm_error + cdb" where
  "insert_membership users s m =
     (if dget (memberships s) (m_id m) \<noteq> None \<or> \<not> users (m_user m) \<or> dget (communities s) (m_community m) = None
      then Inl IntegrityError
      else if get_by_user_and_community s (m_user m) (m_community m) \<noteq> None then Inl MembershipAlreadyExistsError
      else Inr (s\<lparr>memberships := dset (m_id m) m (memberships s)\<rparr>))"

definition insert_assignment :: "cdb \<Rightarrow> uuid \<Rightarrow> uuid \<Rightarrow> comm_error + cdb" where
  "insert_assignment s mid rid =
     (if dget (memberships s) mid = None \<or> dget (roles s) rid = None \<or> (mid, rid) \<in> set (assignments s)
      then Inl IntegrityError
      else Inr (s\<lparr>assignments := assignments s @ [(mid, rid)]\<rparr>))"

definition insert_grant :: "cdb \<Rightarrow> resource_grant \<Rightarrow> comm_error + cdb" where
  "insert_grant s g =
     (if dget (grants s) (g_id g) \<noteq> None \<or> g_type g \<noteq> ''server'' then Inl IntegrityError
      else if (case dget (memberships s) (g_membership g) of
                 None \<Rightarrow> True | Some m \<Rightarrow> m_user m \<noteq> g_user g \<or> m_community m \<noteq> g_community g)
      then Inl GrantTargetNotMemberError
      else if g_resource g \<notin> fst ` set (server_rows s) then Inl GrantResourceNotFoundError
      else if list_ex (\<lambda>h. g_user h = g_user g \<and> g_type h = g_type g \<and> g_resource h = g_resource g)
                (dvalues (grants s))
      then Inl ResourceGrantAlreadyExistsError
      else Inr (s\<lparr>grants := dset (g_id g) g (grants s)\<rparr>))"

text \<open>Updates and deletes; a delete cascades along \<open>ON DELETE CASCADE\<close>.\<close>

definition update_role_row :: "cdb \<Rightarrow> uuid \<Rightarrow> string option \<Rightarrow> perms option \<Rightarrow> instant \<Rightarrow> comm_error + (role \<times> cdb)" where
  "update_role_row s rid name ps now =
     (case dget (roles s) rid of
        None \<Rightarrow> Inl RoleNotFoundError
      | Some r \<Rightarrow>
          let r' = r\<lparr>r_name := (case name of None \<Rightarrow> r_name r | Some n \<Rightarrow> n),
                     r_permissions := (case ps of None \<Rightarrow> r_permissions r | Some p \<Rightarrow> p),
                     r_updated := now\<rparr>
          in if list_ex (\<lambda>q. r_id q \<noteq> rid \<and> r_community q = r_community r' \<and> r_name q = r_name r') (dvalues (roles s))
             then Inl RoleAlreadyExistsError
             else Inr (r', s\<lparr>roles := dset rid r' (roles s)\<rparr>))"

definition delete_membership :: "cdb \<Rightarrow> uuid \<Rightarrow> cdb" where
  "delete_membership s mid =
     s\<lparr>memberships := dpop mid (memberships s),
       assignments := filter (\<lambda>(m, r). m \<noteq> mid) (assignments s),
       grants := filter (\<lambda>(k, g). g_membership g \<noteq> mid) (grants s)\<rparr>"

definition delete_role_row :: "cdb \<Rightarrow> uuid \<Rightarrow> cdb" where
  "delete_role_row s rid =
     s\<lparr>roles := dpop rid (roles s), assignments := filter (\<lambda>(m, r). r \<noteq> rid) (assignments s)\<rparr>"

definition delete_grant_row :: "cdb \<Rightarrow> uuid \<Rightarrow> cdb" where
  "delete_grant_row s gid = s\<lparr>grants := dpop gid (grants s)\<rparr>"

definition delete_community_row :: "cdb \<Rightarrow> uuid \<Rightarrow> comm_error + cdb" where
  "delete_community_row s c =
     (if c \<in> snd ` set (server_rows s) then Inl CommunityHasServersError
      else let dropped_m = (\<lambda>mid. case dget (memberships s) mid of None \<Rightarrow> False | Some m \<Rightarrow> m_community m = c);
               dropped_r = (\<lambda>rid. case dget (roles s) rid of None \<Rightarrow> False | Some r \<Rightarrow> r_community r = c)
           in Inr (s\<lparr>communities := dpop c (communities s),
                     memberships := filter (\<lambda>(k, m). m_community m \<noteq> c) (memberships s),
                     roles := filter (\<lambda>(k, r). r_community r \<noteq> c) (roles s),
                     assignments := filter (\<lambda>(m, r). \<not> dropped_m m \<and> \<not> dropped_r r) (assignments s),
                     grants := filter (\<lambda>(k, g). g_community g \<noteq> c \<and> \<not> dropped_m (g_membership g)) (grants s)\<rparr>))"

section \<open>The ceiling\<close>

definition lock_actor_ceiling ::
  "cdb \<Rightarrow> user_id \<Rightarrow> uuid \<Rightarrow> (string \<times> uuid) option \<Rightarrow> uuid option \<Rightarrow> uuid list \<Rightarrow> perms" where
  "lock_actor_ceiling s actor c resource role_to_update roles_to_share =
     (let held_memberships = hold_for_users s c [actor];
          membership = (case held_memberships of [] \<Rightarrow> None | m # _ \<Rightarrow> Some m);
          role_ids = (case membership of None \<Rightarrow> [] | Some m \<Rightarrow> list_role_ids s (m_id m));
          locked = lock_by_ids s (role_ids @ roles_to_share) role_to_update;
          ceiling = (case membership of
                       None \<Rightarrow> {}
                     | Some m \<Rightarrow>
                         let held = set (lock_role_ids s (m_id m) (map r_id locked))
                         in \<Union> (set (map r_permissions (filter (\<lambda>r. r_id r \<in> held) locked))))
      in ceiling \<union>
         (case resource of
            None \<Rightarrow> {}
          | Some (ty, rid) \<Rightarrow>
              (case grant_for_user_resource s actor c ty rid of None \<Rightarrow> {} | Some g \<Rightarrow> g_permissions g)))"

definition check_permission_ceiling :: "perms \<Rightarrow> perms \<Rightarrow> comm_error + unit" where
  "check_permission_ceiling ceiling conferred =
     (if conferred \<subseteq> ceiling then Inr ()
      else Inl (PermissionCeilingExceededError (sorted_list_of_set (conferred - ceiling))))"

definition enforce_permission_ceiling ::
  "cdb \<Rightarrow> user_id \<Rightarrow> uuid \<Rightarrow> perms \<Rightarrow> (string \<times> uuid) option \<Rightarrow> comm_error + unit" where
  "enforce_permission_ceiling s actor c conferred resource =
     (if conferred = {} then Inr ()
      else check_permission_ceiling (lock_actor_ceiling s actor c resource None []) conferred)"

section \<open>Role use cases\<close>

definition read_role :: "cdb \<Rightarrow> uuid \<Rightarrow> uuid \<Rightarrow> comm_error + role" where
  "read_role s c rid =
     (case dget (roles s) rid of
        None \<Rightarrow> Inl RoleNotFoundError
      | Some r \<Rightarrow> if r_community r \<noteq> c then Inl RoleNotFoundError else Inr r)"

definition create_role ::
  "cdb \<Rightarrow> instant \<Rightarrow> uuid \<Rightarrow> uuid \<Rightarrow> user_id \<Rightarrow> string \<Rightarrow> perms \<Rightarrow> comm_error + (role \<times> cdb)" where
  "create_role s now new_id c actor name ps =
     (case mk_role_name name of
        Inl e \<Rightarrow> Inl e
      | Inr role_name \<Rightarrow>
          (case validate_permissions ps of
             Inl e \<Rightarrow> Inl e
           | Inr validated \<Rightarrow>
               let r = \<lparr>r_id = new_id, r_community = c, r_name = role_name, r_permissions = validated,
                        r_created = now, r_updated = now, is_preset = False\<rparr>
               in (case enforce_permission_ceiling s actor c validated None of
                     Inl e \<Rightarrow> Inl e
                   | Inr _ \<Rightarrow> (case insert_role s r of Inl e \<Rightarrow> Inl e | Inr s' \<Rightarrow> Inr (r, s')))))"

definition update_role ::
  "cdb \<Rightarrow> instant \<Rightarrow> uuid \<Rightarrow> uuid \<Rightarrow> user_id \<Rightarrow> string option \<Rightarrow> perms option \<Rightarrow> comm_error + (role \<times> cdb)" where
  "update_role s now c rid actor name ps =
     (let ceiling = (case ps of None \<Rightarrow> {} | Some _ \<Rightarrow> lock_actor_ceiling s actor c None (Some rid) [])
      in (case read_role s c rid of
            Inl e \<Rightarrow> Inl e
          | Inr r \<Rightarrow>
              if is_preset r then Inl PresetRoleNotEditableError
              else (case (case name of None \<Rightarrow> Inr None | Some n \<Rightarrow>
                            (case mk_role_name n of Inl e \<Rightarrow> Inl e | Inr v \<Rightarrow> Inr (Some v))) of
                      Inl e \<Rightarrow> Inl e
                    | Inr new_name \<Rightarrow>
                        (case ps of
                           None \<Rightarrow> update_role_row s rid new_name None now
                         | Some p \<Rightarrow>
                             (case validate_permissions p of
                                Inl e \<Rightarrow> Inl e
                              | Inr validated \<Rightarrow>
                                  (case check_permission_ceiling ceiling (validated - r_permissions r) of
                                     Inl e \<Rightarrow> Inl e
                                   | Inr _ \<Rightarrow> update_role_row s rid new_name (Some validated) now))))))"

definition delete_role :: "cdb \<Rightarrow> uuid \<Rightarrow> uuid \<Rightarrow> comm_error + cdb" where
  "delete_role s c rid =
     (case read_role s c rid of
        Inl e \<Rightarrow> Inl e
      | Inr r \<Rightarrow> if is_preset r then Inl PresetRoleNotEditableError else Inr (delete_role_row s rid))"

section \<open>Grant use cases\<close>

definition create_grant ::
  "cdb \<Rightarrow> instant \<Rightarrow> uuid \<Rightarrow> uuid \<Rightarrow> user_id \<Rightarrow> user_id \<Rightarrow> string \<Rightarrow> uuid \<Rightarrow> perms \<Rightarrow> comm_error + (resource_grant \<times> cdb)" where
  "create_grant s now new_id c actor u ty rid ps =
     (if dget GRANT_PERMISSIONS_BY_RESOURCE_TYPE ty = None then Inl InvalidGrantResourceTypeError
      else case validate_grant_permissions ty ps of
             Inl e \<Rightarrow> Inl e
           | Inr validated \<Rightarrow>
               (case find (\<lambda>m. m_user m = u) (hold_for_users s c [u, actor]) of
                  None \<Rightarrow> Inl GrantTargetNotMemberError
                | Some m \<Rightarrow>
                    let g = \<lparr>g_id = new_id, g_membership = m_id m, g_user = u, g_community = c, g_type = ty,
                             g_resource = rid, g_permissions = validated, g_created = now, g_updated = now\<rparr>
                    in if \<not> resource_exists s c ty rid then Inl GrantResourceNotFoundError
                       else (case enforce_permission_ceiling s actor c validated (Some (ty, rid)) of
                               Inl e \<Rightarrow> Inl e
                             | Inr _ \<Rightarrow> (case insert_grant s g of Inl e \<Rightarrow> Inl e | Inr s' \<Rightarrow> Inr (g, s')))))"

definition revoke_grant :: "cdb \<Rightarrow> uuid \<Rightarrow> uuid \<Rightarrow> comm_error + cdb" where
  "revoke_grant s c gid =
     (case dget (grants s) gid of
        None \<Rightarrow> Inl ResourceGrantNotFoundError
      | Some g \<Rightarrow> if g_community g \<noteq> c then Inl ResourceGrantNotFoundError else Inr (delete_grant_row s gid))"

section \<open>Membership use cases\<close>

definition is_preset_owner :: "role \<Rightarrow> bool" where
  "is_preset_owner r \<longleftrightarrow> is_preset r \<and> r_name r = OWNER_ROLE_NAME"

definition guard_last_owner :: "cdb \<Rightarrow> uuid \<Rightarrow> membership \<Rightarrow> comm_error + unit" where
  "guard_last_owner s c m =
     (case find is_preset_owner (list_roles s c) of
        None \<Rightarrow> Inr ()
      | Some owner_role \<Rightarrow>
          let holders = lock_owner_role_holders s c (r_id owner_role)
          in if m_id m \<notin> set holders then Inr ()
             else if length holders > 1 then Inr ()
             else Inl LastOwnerRemovalError)"

definition add_member ::
  "(user_id \<Rightarrow> bool) \<Rightarrow> (string \<Rightarrow> user_id option) \<Rightarrow> cdb \<Rightarrow> instant \<Rightarrow> uuid \<Rightarrow> uuid \<Rightarrow> user_id option \<Rightarrow> string option \<Rightarrow>
     comm_error + (membership \<times> cdb)" where
  "add_member users resolve s now new_id c uid username =
     (let target = (case username of
                      Some n \<Rightarrow> resolve n
                    | None \<Rightarrow> (case uid of None \<Rightarrow> None | Some u \<Rightarrow> if users u then Some u else None))
      in case target of
           None \<Rightarrow> Inl MemberUserNotFoundError
         | Some u \<Rightarrow>
             let m = \<lparr>m_id = new_id, m_user = u, m_community = c, m_created = now\<rparr>
             in (case insert_membership users s m of Inl e \<Rightarrow> Inl e | Inr s' \<Rightarrow> Inr (m, s')))"

definition remove_member :: "cdb \<Rightarrow> uuid \<Rightarrow> user_id \<Rightarrow> comm_error + cdb" where
  "remove_member s c u =
     (case get_by_user_and_community s u c of
        None \<Rightarrow> Inl MembershipNotFoundError
      | Some m \<Rightarrow>
          (case guard_last_owner s c m of
             Inl e \<Rightarrow> Inl e
           | Inr _ \<Rightarrow> Inr (delete_membership s (m_id m))))"

definition assign_role :: "cdb \<Rightarrow> uuid \<Rightarrow> user_id \<Rightarrow> uuid \<Rightarrow> user_id \<Rightarrow> comm_error + cdb" where
  "assign_role s c u rid actor =
     (case find (\<lambda>m. m_user m = u) (hold_for_users s c [u, actor]) of
        None \<Rightarrow> Inl MembershipNotFoundError
      | Some m \<Rightarrow>
          let ceiling = lock_actor_ceiling s actor c None None [rid]
          in (case lock_by_ids s [rid] None of
                [] \<Rightarrow> Inl RoleNotFoundError
              | r # _ \<Rightarrow>
                  if r_community r \<noteq> c then Inl RoleNotFoundError
                  else (case check_permission_ceiling ceiling (r_permissions r) of
                          Inl e \<Rightarrow> Inl e
                        | Inr _ \<Rightarrow>
                            if rid \<in> set (list_role_ids s (m_id m)) then Inr s
                            else insert_assignment s (m_id m) rid)))"

definition unassign_role :: "cdb \<Rightarrow> uuid \<Rightarrow> user_id \<Rightarrow> uuid \<Rightarrow> comm_error + cdb" where
  "unassign_role s c u rid =
     (case get_by_user_and_community s u c of
        None \<Rightarrow> Inl MembershipNotFoundError
      | Some m \<Rightarrow>
          (case read_role s c rid of
             Inl e \<Rightarrow> Inl e
           | Inr r \<Rightarrow>
               (case (if is_preset_owner r then guard_last_owner s c m else Inr ()) of
                  Inl e \<Rightarrow> Inl e
                | Inr _ \<Rightarrow> Inr (s\<lparr>assignments := filter (\<lambda>a. a \<noteq> (m_id m, rid)) (assignments s)\<rparr>))))"

section \<open>Community use cases\<close>

definition provision_community ::
  "(user_id \<Rightarrow> bool) \<Rightarrow> cdb \<Rightarrow> instant \<Rightarrow> uuid \<Rightarrow> uuid \<Rightarrow> uuid \<Rightarrow> string \<Rightarrow> user_id \<Rightarrow> comm_error + (community \<times> cdb)" where
  "provision_community users s now new_c new_r new_m name owner =
     (case mk_community_name name of
        Inl e \<Rightarrow> Inl e
      | Inr community_name \<Rightarrow>
          if \<not> users owner then Inl OwnerUserNotFoundError
          else
            let c = \<lparr>com_id = new_c, com_name = community_name, com_created = now, com_updated = now,
                     max_servers = None, max_members = None\<rparr>;
                r = \<lparr>r_id = new_r, r_community = new_c, r_name = OWNER_ROLE_NAME,
                     r_permissions = COMMUNITY_PERMISSIONS, r_created = now, r_updated = now, is_preset = True\<rparr>;
                m = \<lparr>m_id = new_m, m_user = owner, m_community = new_c, m_created = now\<rparr>
            in if list_ex (\<lambda>d. com_name d = community_name) (dvalues (communities s))
               then Inl CommunityAlreadyExistsError
               else (case insert_community s c of Inl e \<Rightarrow> Inl e | Inr s1 \<Rightarrow>
                     (case insert_role s1 r of Inl e \<Rightarrow> Inl e | Inr s2 \<Rightarrow>
                     (case insert_membership users s2 m of Inl e \<Rightarrow> Inl e | Inr s3 \<Rightarrow>
                     (case insert_assignment s3 new_m new_r of Inl e \<Rightarrow> Inl e | Inr s4 \<Rightarrow> Inr (c, s4))))))"

definition read_community :: "cdb \<Rightarrow> uuid \<Rightarrow> comm_error + community" where
  "read_community s c = (case dget (communities s) c of None \<Rightarrow> Inl CommunityNotFoundError | Some row \<Rightarrow> Inr row)"

definition rename_community :: "cdb \<Rightarrow> instant \<Rightarrow> uuid \<Rightarrow> string \<Rightarrow> comm_error + (community \<times> cdb)" where
  "rename_community s now c name =
     (case mk_community_name name of
        Inl e \<Rightarrow> Inl e
      | Inr new_name \<Rightarrow>
          (case read_community s c of
             Inl e \<Rightarrow> Inl e
           | Inr row \<Rightarrow>
               if list_ex (\<lambda>d. com_name d = new_name \<and> com_id d \<noteq> c) (dvalues (communities s))
               then Inl CommunityAlreadyExistsError
               else let row' = row\<lparr>com_name := new_name, com_updated := now\<rparr>
                    in Inr (row', s\<lparr>communities := dset c row' (communities s)\<rparr>)))"

definition delete_community :: "cdb \<Rightarrow> uuid \<Rightarrow> comm_error + cdb" where
  "delete_community s c =
     (case read_community s c of Inl e \<Rightarrow> Inl e | Inr _ \<Rightarrow> delete_community_row s c)"

definition list_my_communities :: "cdb \<Rightarrow> user_id \<Rightarrow> community list" where
  "list_my_communities s u =
     List.map_filter (\<lambda>m. dget (communities s) (m_community m)) (memberships_of_user s u)"

section \<open>Leaving the platform\<close>

definition owns_any_community :: "cdb \<Rightarrow> user_id \<Rightarrow> bool" where
  "owns_any_community s u \<longleftrightarrow>
     list_ex (\<lambda>m. case find is_preset_owner (list_roles s (m_community m)) of
                    None \<Rightarrow> False
                  | Some r \<Rightarrow> r_id r \<in> set (list_role_ids s (m_id m)))
       (memberships_of_user s u)"

definition purge_user :: "cdb \<Rightarrow> user_id \<Rightarrow> cdb" where
  \<comment> \<open>the cascade of \<open>DELETE FROM user\<close> over this context's tables\<close>
  "purge_user s u = fold (\<lambda>m s. delete_membership s (m_id m)) (memberships_of_user s u) s"

section \<open>The permission checker\<close>

record auth_user =
  au_user :: user_id
  is_platform_admin :: bool

record resource_ref =
  ref_community :: uuid
  ref_type :: "string option"
  ref_id :: "uuid option"

definition is_member :: "cdb \<Rightarrow> user_id \<Rightarrow> uuid \<Rightarrow> bool" where
  "is_member s u c \<longleftrightarrow> get_by_user_and_community s u c \<noteq> None"

definition effective_permissions :: "cdb \<Rightarrow> user_id \<Rightarrow> resource_ref \<Rightarrow> perms" where
  "effective_permissions s u ref =
     (case get_by_user_and_community s u (ref_community ref) of
        None \<Rightarrow> {}
      | Some m \<Rightarrow>
          \<Union> (set (map r_permissions (roles_by_ids s (list_role_ids s (m_id m))))) \<union>
          (case (ref_type ref, ref_id ref) of
             (Some ty, Some rid) \<Rightarrow>
               (case grant_for_user_resource s u (ref_community ref) ty rid of
                  None \<Rightarrow> {} | Some g \<Rightarrow> g_permissions g)
           | _ \<Rightarrow> {}))"

definition can :: "cdb \<Rightarrow> auth_user \<Rightarrow> string \<Rightarrow> resource_ref \<Rightarrow> comm_error + bool" where
  "can s user operation ref =
     (case require_known_permission operation of
        Inl e \<Rightarrow> Inl e
      | Inr _ \<Rightarrow>
          if is_platform_admin_permission operation then Inr (is_platform_admin user)
          else Inr (operation \<in> effective_permissions s (au_user user) ref))"

definition read_my_effective_permissions :: "cdb \<Rightarrow> user_id \<Rightarrow> uuid \<Rightarrow> perms \<times> resource_grant list" where
  "read_my_effective_permissions s u c =
     ((case get_by_user_and_community s u c of
         None \<Rightarrow> {}
       | Some m \<Rightarrow> \<Union> (set (map r_permissions (roles_by_ids s (list_role_ids s (m_id m)))))),
      grants_for_community s c (Some u))"

section \<open>The context as one system\<close>

definition insert_server_row :: "cdb \<Rightarrow> uuid \<Rightarrow> uuid \<Rightarrow> comm_error + cdb" where
  \<comment> \<open>the servers context inserts a server: its key and its foreign key to the community\<close>
  "insert_server_row s sid c =
     (if sid \<in> fst ` set (server_rows s) \<or> dget (communities s) c = None then Inl IntegrityError
      else Inr (s\<lparr>server_rows := server_rows s @ [(sid, c)]\<rparr>))"

definition delete_server_row :: "cdb \<Rightarrow> uuid \<Rightarrow> cdb" where
  \<comment> \<open>and deletes one; its grants cascade\<close>
  "delete_server_row s sid =
     s\<lparr>server_rows := filter (\<lambda>(i, c). i \<noteq> sid) (server_rows s),
       grants := filter (\<lambda>(k, g). g_resource g \<noteq> sid) (grants s)\<rparr>"

definition check_ownership :: "cdb \<Rightarrow> user_id \<Rightarrow> comm_error + unit" where
  \<comment> \<open>the first transaction of an account deletion in this context: it reads, and refuses an owner\<close>
  "check_ownership s u = (if owns_any_community s u then Inl CommunityOwnedError else Inr ())"

datatype comm_op =
    CreateRole instant uuid uuid user_id string perms
  | UpdateRole instant uuid uuid user_id "string option" "perms option"
  | DeleteRole uuid uuid
  | CreateGrant instant uuid uuid user_id user_id string uuid perms
  | RevokeGrant uuid uuid
  | AddMember instant uuid uuid "user_id option" "string option"
  | RemoveMember uuid user_id
  | AssignRole uuid user_id uuid user_id
  | UnassignRole uuid user_id uuid
  | ProvisionCommunity instant uuid uuid uuid string user_id
  | RenameCommunity instant uuid string
  | DeleteCommunity uuid
  | ServerCreated uuid uuid
  | ServerDeleted uuid
  | DeleteUser user_id

definition state_of :: "comm_error + ('a \<times> cdb) \<Rightarrow> comm_error + cdb" where
  "state_of r = (case r of Inl e \<Rightarrow> Inl e | Inr (_, s) \<Rightarrow> Inr s)"

text \<open>
  \<open>DeleteUser\<close> is the second transaction of an account deletion, the cascade of the delete alone. The
  ownership check is a transaction of its own and other requests may run between the two.
\<close>

fun comm_step :: "(user_id \<Rightarrow> bool) \<Rightarrow> (string \<Rightarrow> user_id option) \<Rightarrow> cdb \<Rightarrow> comm_op \<Rightarrow> comm_error + cdb" where
  "comm_step users resolve s (CreateRole now i c actor name ps) = state_of (create_role s now i c actor name ps)"
| "comm_step users resolve s (UpdateRole now c rid actor name ps) = state_of (update_role s now c rid actor name ps)"
| "comm_step users resolve s (DeleteRole c rid) = delete_role s c rid"
| "comm_step users resolve s (CreateGrant now i c actor u ty rid ps) = state_of (create_grant s now i c actor u ty rid ps)"
| "comm_step users resolve s (RevokeGrant c gid) = revoke_grant s c gid"
| "comm_step users resolve s (AddMember now i c uid username) = state_of (add_member users resolve s now i c uid username)"
| "comm_step users resolve s (RemoveMember c u) = remove_member s c u"
| "comm_step users resolve s (AssignRole c u rid actor) = assign_role s c u rid actor"
| "comm_step users resolve s (UnassignRole c u rid) = unassign_role s c u rid"
| "comm_step users resolve s (ProvisionCommunity now c r m name owner) = state_of (provision_community users s now c r m name owner)"
| "comm_step users resolve s (RenameCommunity now c name) = state_of (rename_community s now c name)"
| "comm_step users resolve s (DeleteCommunity c) = delete_community s c"
| "comm_step users resolve s (ServerCreated sid c) = insert_server_row s sid c"
| "comm_step users resolve s (ServerDeleted sid) = Inr (delete_server_row s sid)"
| "comm_step users resolve s (DeleteUser u) = Inr (purge_user s u)"

definition empty_cdb :: cdb where
  "empty_cdb = \<lparr>communities = [], memberships = [], roles = [], assignments = [], grants = [], server_rows = []\<rparr>"

inductive comm_reachable :: "cdb \<Rightarrow> bool" where
  start: "comm_reachable empty_cdb"
| step: "comm_reachable s \<Longrightarrow> comm_step users resolve s op = Inr s' \<Longrightarrow> comm_reachable s'"

section \<open>Account deletions in two transactions\<close>

definition owned_alone :: "cdb \<Rightarrow> user_id \<Rightarrow> uuid \<Rightarrow> bool" where
  \<comment> \<open>the preset Owner role of the community is held, and by this user only\<close>
  "owned_alone s u c \<longleftrightarrow>
     (case find is_preset_owner (list_roles s c) of
        None \<Rightarrow> False
      | Some r \<Rightarrow>
          let holders = lock_owner_role_holders s c (r_id r)
          in holders \<noteq> [] \<and> set holders \<subseteq> m_id ` set (memberships_of_user s u))"

text \<open>
  The runs of the context with account deletions as the code runs them. \<open>ds\<close> are the deletions that
  passed the ownership check and have not run their delete, \<open>lost\<close> the communities whose only owner was
  deleted by a deletion whose check had found the user owning nothing.
\<close>

inductive deletion_run :: "cdb \<Rightarrow> user_id list \<Rightarrow> uuid set \<Rightarrow> bool" where
  start: "deletion_run empty_cdb [] {}"
| request: "deletion_run s ds lost \<Longrightarrow> comm_step users resolve s op = Inr s' \<Longrightarrow> (\<And>u. op \<noteq> DeleteUser u) \<Longrightarrow>
     deletion_run s' ds lost"
| checked: "deletion_run s ds lost \<Longrightarrow> check_ownership s u = Inr () \<Longrightarrow> deletion_run s (u # ds) lost"
| refused: "deletion_run s ds lost \<Longrightarrow> u \<in> set ds \<Longrightarrow> deletion_run s (remove1 u ds) lost"
| deleted: "deletion_run s ds lost \<Longrightarrow> u \<in> set ds \<Longrightarrow> comm_step users resolve s (DeleteUser u) = Inr s' \<Longrightarrow>
     deletion_run s' (remove1 u ds) (lost \<union> {c. owned_alone s u c})"

end
