(* ===== verification/Community_Inv.thy ===== *)
theory Community_Inv
  imports Community
begin

text \<open>
  The invariant of the community tables and its preservation. The invariant is stated over the tables as
  maps, one predicate per table; each has a rule for a row that is written and a rule for rows that go
  away, and every write of the repositories is an instance of these.
\<close>

section \<open>Rows of a table\<close>

lemma in_dvalues: "dwf d \<Longrightarrow> x \<in> set (dvalues d) \<longleftrightarrow> (\<exists>k. dget d k = Some x)"
  by (force simp: dvalues_def dwf_def image_iff dest: map_of_SomeD)

lemma find_unique:
  assumes "\<And>y z. y \<in> set xs \<Longrightarrow> P y \<Longrightarrow> z \<in> set xs \<Longrightarrow> P z \<Longrightarrow> z = y"
  shows "find P xs = Some x \<longleftrightarrow> x \<in> set xs \<and> P x"
proof
  assume "find P xs = Some x"
  then show "x \<in> set xs \<and> P x" by (auto simp: find_Some_iff)
next
  assume x: "x \<in> set xs \<and> P x"
  then obtain y where y: "find P xs = Some y" by (cases "find P xs") (auto simp: find_None_iff)
  then have "y \<in> set xs" "P y" by (auto simp: find_Some_iff)
  with x assms y show "find P xs = Some x" by blast
qed

lemma dget_filter_le: "dwf d \<Longrightarrow> dget (filter (\<lambda>(k, v). P k v) d) \<subseteq>\<^sub>m dget d"
  by (auto simp: map_le_def dget_filter_dwf split: option.splits)

lemma dget_filter_Some:
  "dwf d \<Longrightarrow> dget (filter (\<lambda>(k, v). P k v) d) k = Some v \<longleftrightarrow> dget d k = Some v \<and> P k v"
  by (auto simp: dget_filter_dwf split: option.splits)

lemma dget_dpop_le: "dget (dpop k d) \<subseteq>\<^sub>m dget d"
  by (auto simp: map_le_def)

text \<open>A unique key of a table, and what keeps it.\<close>

definition unique_on :: "('v \<Rightarrow> 'u) \<Rightarrow> ('k \<rightharpoonup> 'v) \<Rightarrow> bool" where
  "unique_on f M \<longleftrightarrow> (\<forall>k v k' v'. M k = Some v \<longrightarrow> M k' = Some v' \<longrightarrow> f v = f v' \<longrightarrow> k = k')"

lemma unique_onD: "unique_on f M \<Longrightarrow> M k = Some v \<Longrightarrow> M k' = Some v' \<Longrightarrow> f v = f v' \<Longrightarrow> k = k'"
  unfolding unique_on_def by blast

lemma unique_on_upd:
  assumes "unique_on f M" "\<And>k' v'. M k' = Some v' \<Longrightarrow> f v' = f v \<Longrightarrow> k' = k"
  shows "unique_on f (M(k \<mapsto> v))"
  unfolding unique_on_def
proof (intro allI impI)
  fix k1 v1 k2 v2
  assume a: "(M(k \<mapsto> v)) k1 = Some v1" "(M(k \<mapsto> v)) k2 = Some v2" "f v1 = f v2"
  show "k1 = k2"
  proof (cases "k1 = k \<or> k2 = k")
    case True
    then show ?thesis using a assms(2) [of k1 v1] assms(2) [of k2 v2] by (auto split: if_splits)
  next
    case False
    then show ?thesis using a unique_onD [OF assms(1)] by simp
  qed
qed

lemma map_leD: "M' \<subseteq>\<^sub>m M \<Longrightarrow> M' k = Some v \<Longrightarrow> M k = Some v"
  by (metis domI map_le_def)

lemma unique_on_le: "unique_on f M \<Longrightarrow> M' \<subseteq>\<^sub>m M \<Longrightarrow> unique_on f M'"
  unfolding unique_on_def by (blast dest: map_leD)

section \<open>The invariant\<close>

definition members_ok :: "(uuid \<rightharpoonup> community) \<Rightarrow> (uuid \<rightharpoonup> membership) \<Rightarrow> bool" where
  "members_ok C M \<longleftrightarrow>
     (\<forall>k m. M k = Some m \<longrightarrow> m_id m = k \<and> C (m_community m) \<noteq> None) \<and>
     unique_on (\<lambda>m. (m_user m, m_community m)) M"

definition roles_ok :: "(uuid \<rightharpoonup> community) \<Rightarrow> (uuid \<rightharpoonup> role) \<Rightarrow> bool" where
  "roles_ok C R \<longleftrightarrow>
     (\<forall>k r. R k = Some r \<longrightarrow> r_id r = k \<and> C (r_community r) \<noteq> None \<and> r_permissions r \<subseteq> COMMUNITY_PERMISSIONS) \<and>
     unique_on (\<lambda>r. (r_community r, r_name r)) R"

definition assigned_ok :: "(uuid \<rightharpoonup> membership) \<Rightarrow> (uuid \<rightharpoonup> role) \<Rightarrow> (uuid \<times> uuid) set \<Rightarrow> bool" where
  "assigned_ok M R A \<longleftrightarrow>
     (\<forall>mid rid. (mid, rid) \<in> A \<longrightarrow> (\<exists>m r. M mid = Some m \<and> R rid = Some r \<and> m_community m = r_community r))"

definition grant_ok :: "(uuid \<rightharpoonup> membership) \<Rightarrow> (uuid \<times> uuid) set \<Rightarrow> resource_grant \<Rightarrow> bool" where
  "grant_ok M S g \<longleftrightarrow>
     (\<exists>m. M (g_membership g) = Some m \<and> m_user m = g_user g \<and> m_community m = g_community g) \<and>
     g_type g = ''server'' \<and> (g_resource g, g_community g) \<in> S \<and>
     g_permissions g \<subseteq> dget_default GRANT_PERMISSIONS_BY_RESOURCE_TYPE ''server'' {}"

definition grants_ok :: "(uuid \<rightharpoonup> membership) \<Rightarrow> (uuid \<times> uuid) set \<Rightarrow> (uuid \<rightharpoonup> resource_grant) \<Rightarrow> bool" where
  "grants_ok M S G \<longleftrightarrow>
     (\<forall>k g. G k = Some g \<longrightarrow> g_id g = k \<and> grant_ok M S g) \<and>
     unique_on (\<lambda>g. (g_user g, g_type g, g_resource g)) G"

definition servers_ok :: "(uuid \<rightharpoonup> community) \<Rightarrow> (uuid \<times> uuid) list \<Rightarrow> bool" where
  "servers_ok C S \<longleftrightarrow> distinct (map fst S) \<and> (\<forall>sid c. (sid, c) \<in> set S \<longrightarrow> C c \<noteq> None)"

definition tables_wf :: "cdb \<Rightarrow> bool" where
  "tables_wf s \<longleftrightarrow> dwf (communities s) \<and> dwf (memberships s) \<and> dwf (roles s) \<and> dwf (grants s) \<and>
     distinct (assignments s) \<and> (\<forall>k c. dget (communities s) k = Some c \<longrightarrow> com_id c = k)"

definition db_inv :: "cdb \<Rightarrow> bool" where
  "db_inv s \<longleftrightarrow> tables_wf s \<and>
     members_ok (dget (communities s)) (dget (memberships s)) \<and>
     roles_ok (dget (communities s)) (dget (roles s)) \<and>
     assigned_ok (dget (memberships s)) (dget (roles s)) (set (assignments s)) \<and>
     grants_ok (dget (memberships s)) (set (server_rows s)) (dget (grants s)) \<and>
     servers_ok (dget (communities s)) (server_rows s)"

lemma db_invD:
  assumes "db_inv s"
  shows "tables_wf s" "members_ok (dget (communities s)) (dget (memberships s))"
    "roles_ok (dget (communities s)) (dget (roles s))"
    "assigned_ok (dget (memberships s)) (dget (roles s)) (set (assignments s))"
    "grants_ok (dget (memberships s)) (set (server_rows s)) (dget (grants s))"
    "servers_ok (dget (communities s)) (server_rows s)"
  using assms by (simp_all add: db_inv_def)

lemma tables_wfD:
  assumes "tables_wf s"
  shows "dwf (communities s)" "dwf (memberships s)" "dwf (roles s)" "dwf (grants s)"
    "distinct (assignments s)" "dget (communities s) k = Some c \<Longrightarrow> com_id c = k"
  using assms by (simp_all add: tables_wf_def)

subsection \<open>Writing a row\<close>

lemma members_ok_upd:
  assumes "members_ok C M" "m_id m = k" "C (m_community m) \<noteq> None"
    "\<And>k' m'. M k' = Some m' \<Longrightarrow> m_user m' = m_user m \<Longrightarrow> m_community m' = m_community m \<Longrightarrow> k' = k"
  shows "members_ok C (M(k \<mapsto> m))"
  using assms(1-3) unique_on_upd [of _ M m k] assms(4) unfolding members_ok_def by auto

lemma roles_ok_upd:
  assumes "roles_ok C R" "r_id r = k" "C (r_community r) \<noteq> None" "r_permissions r \<subseteq> COMMUNITY_PERMISSIONS"
    "\<And>k' r'. R k' = Some r' \<Longrightarrow> r_community r' = r_community r \<Longrightarrow> r_name r' = r_name r \<Longrightarrow> k' = k"
  shows "roles_ok C (R(k \<mapsto> r))"
  using assms(1-4) unique_on_upd [of _ R r k] assms(5) unfolding roles_ok_def by auto

lemma assigned_ok_role_upd:
  assumes "assigned_ok M R A" "\<And>r'. R k = Some r' \<Longrightarrow> r_community r' = r_community r"
  shows "assigned_ok M (R(k \<mapsto> r)) A"
  using assms unfolding assigned_ok_def by (auto; metis)

lemma assigned_ok_member_upd:
  assumes "assigned_ok M R A" "M k = None"
  shows "assigned_ok (M(k \<mapsto> m)) R A"
  using assms unfolding assigned_ok_def by (auto; metis option.distinct(1))

lemma grants_ok_member_upd:
  assumes "grants_ok M S G" "M k = None"
  shows "grants_ok (M(k \<mapsto> m)) S G"
proof -
  have "grant_ok (M(k \<mapsto> m)) S g" if "grant_ok M S g" for g
    using that assms(2) unfolding grant_ok_def by auto
  then show ?thesis using assms(1) unfolding grants_ok_def by blast
qed

lemma grants_ok_upd:
  assumes "grants_ok M S G" "g_id g = k" "grant_ok M S g"
    "\<And>k' g'. G k' = Some g' \<Longrightarrow> g_user g' = g_user g \<Longrightarrow> g_type g' = g_type g \<Longrightarrow> g_resource g' = g_resource g \<Longrightarrow> k' = k"
  shows "grants_ok M S (G(k \<mapsto> g))"
  using assms(1-3) unique_on_upd [of _ G g k] assms(4) unfolding grants_ok_def by auto

subsection \<open>Rows that go away\<close>

lemma members_ok_shrink:
  assumes "members_ok C M" "M' \<subseteq>\<^sub>m M" "\<And>k m. M' k = Some m \<Longrightarrow> C' (m_community m) \<noteq> None"
  shows "members_ok C' M'"
  using assms(1,3) map_leD [OF assms(2)] unique_on_le [OF _ assms(2)] unfolding members_ok_def by auto

lemma roles_ok_shrink:
  assumes "roles_ok C R" "R' \<subseteq>\<^sub>m R" "\<And>k r. R' k = Some r \<Longrightarrow> C' (r_community r) \<noteq> None"
  shows "roles_ok C' R'"
  using assms(1,3) map_leD [OF assms(2)] unique_on_le [OF _ assms(2)] unfolding roles_ok_def by blast

lemma assigned_ok_shrink:
  assumes "assigned_ok M R A" "A' \<subseteq> A" "\<And>mid rid. (mid, rid) \<in> A' \<Longrightarrow> M' mid = M mid \<and> R' rid = R rid"
  shows "assigned_ok M' R' A'"
  using assms unfolding assigned_ok_def by (metis subsetD)

lemma grants_ok_shrink:
  assumes "grants_ok M S G" "G' \<subseteq>\<^sub>m G"
    "\<And>k g. G' k = Some g \<Longrightarrow> M' (g_membership g) = M (g_membership g) \<and> (g_resource g, g_community g) \<in> S'"
  shows "grants_ok M' S' G'"
proof -
  have "g_id g = k \<and> grant_ok M' S' g" if g: "G' k = Some g" for k g
    using assms(3) [OF g] map_leD [OF assms(2) g] assms(1) unfolding grants_ok_def grant_ok_def by auto
  then show ?thesis using assms(1) unique_on_le [OF _ assms(2)] unfolding grants_ok_def by auto
qed

section \<open>Lookups\<close>

lemma inv_rows:
  assumes "db_inv s"
  shows "m \<in> set (dvalues (memberships s)) \<longleftrightarrow> dget (memberships s) (m_id m) = Some m"
    and "r \<in> set (dvalues (roles s)) \<longleftrightarrow> dget (roles s) (r_id r) = Some r"
    and "g \<in> set (dvalues (grants s)) \<longleftrightarrow> dget (grants s) (g_id g) = Some g"
    and "c \<in> set (dvalues (communities s)) \<longleftrightarrow> dget (communities s) (com_id c) = Some c"
proof -
  note wf = tables_wfD [OF db_invD(1) [OF assms]]
  show "m \<in> set (dvalues (memberships s)) \<longleftrightarrow> dget (memberships s) (m_id m) = Some m"
    using in_dvalues [OF wf(2)] db_invD(2) [OF assms] unfolding members_ok_def by blast
  show "r \<in> set (dvalues (roles s)) \<longleftrightarrow> dget (roles s) (r_id r) = Some r"
    using in_dvalues [OF wf(3)] db_invD(3) [OF assms] unfolding roles_ok_def by blast
  show "g \<in> set (dvalues (grants s)) \<longleftrightarrow> dget (grants s) (g_id g) = Some g"
    using in_dvalues [OF wf(4)] db_invD(5) [OF assms] unfolding grants_ok_def by blast
  show "c \<in> set (dvalues (communities s)) \<longleftrightarrow> dget (communities s) (com_id c) = Some c"
    using in_dvalues [OF wf(1)] wf(6) by blast
qed

lemma inv_keys:
  assumes "db_inv s"
  shows "dget (memberships s) k = Some m \<Longrightarrow> m_id m = k" "dget (roles s) k = Some r \<Longrightarrow> r_id r = k"
    "dget (grants s) k = Some g \<Longrightarrow> g_id g = k"
  using db_invD [OF assms] unfolding members_ok_def roles_ok_def grants_ok_def by blast+

lemma member_unique:
  assumes "db_inv s" "dget (memberships s) k = Some m" "dget (memberships s) k' = Some m'"
    "m_user m = m_user m'" "m_community m = m_community m'"
  shows "k = k'" "m = m'"
proof -
  show "k = k'" using db_invD(2) [OF assms(1)] assms(2-5) unfolding members_ok_def by (auto dest: unique_onD)
  then show "m = m'" using assms(2,3) by simp
qed

lemma grant_unique:
  assumes "db_inv s" "dget (grants s) k = Some g" "dget (grants s) k' = Some g'"
    "g_user g = g_user g'" "g_type g = g_type g'" "g_resource g = g_resource g'"
  shows "g = g'"
proof -
  have "k = k'" using db_invD(5) [OF assms(1)] assms(2-6) unfolding grants_ok_def by (auto dest: unique_onD)
  then show "g = g'" using assms(2,3) by simp
qed

lemma role_unique:
  assumes "db_inv s" "dget (roles s) k = Some r" "dget (roles s) k' = Some r'"
    "r_community r = r_community r'" "r_name r = r_name r'"
  shows "k = k'" "r = r'"
proof -
  show "k = k'" using db_invD(3) [OF assms(1)] assms(2-5) unfolding roles_ok_def by (auto dest: unique_onD)
  then show "r = r'" using assms(2,3) by simp
qed

lemma member_found:
  assumes "db_inv s"
  shows "get_by_user_and_community s u c = Some m \<longleftrightarrow>
    dget (memberships s) (m_id m) = Some m \<and> m_user m = u \<and> m_community m = c"
proof -
  have "get_by_user_and_community s u c = Some m \<longleftrightarrow>
      m \<in> set (dvalues (memberships s)) \<and> m_user m = u \<and> m_community m = c"
    unfolding get_by_user_and_community_def
    by (rule find_unique) (use member_unique(2) [OF assms] in \<open>auto simp: inv_rows [OF assms]\<close>)
  then show ?thesis by (simp add: inv_rows [OF assms])
qed

lemma grant_found:
  assumes "db_inv s"
  shows "grant_for_user_resource s u c ty rid = Some g \<longleftrightarrow>
    dget (grants s) (g_id g) = Some g \<and> g_user g = u \<and> g_community g = c \<and> g_type g = ty \<and> g_resource g = rid"
proof -
  have "grant_for_user_resource s u c ty rid = Some g \<longleftrightarrow>
      g \<in> set (dvalues (grants s)) \<and> g_user g = u \<and> g_community g = c \<and> g_type g = ty \<and> g_resource g = rid"
    unfolding grant_for_user_resource_def
    by (rule find_unique) (use grant_unique [OF assms] in \<open>auto simp: inv_rows [OF assms]\<close>)
  then show ?thesis by (simp add: inv_rows [OF assms])
qed

lemma role_ids_iff: "rid \<in> set (list_role_ids s mid) \<longleftrightarrow> (mid, rid) \<in> set (assignments s)"
  by (force simp: list_role_ids_def)

lemma find_SomeD: "find P xs = Some x \<Longrightarrow> x \<in> set xs \<and> P x"
  by (auto simp: find_Some_iff)

lemma held_member:
  assumes "db_inv s" "find (\<lambda>m. m_user m = u) (hold_for_users s c us) = Some m"
  shows "dget (memberships s) (m_id m) = Some m \<and> m_user m = u \<and> m_community m = c"
  using find_SomeD [OF assms(2)] by (auto simp: hold_for_users_def inv_rows [OF assms(1)])

section \<open>The writes of the repositories\<close>

lemma insert_community_inv:
  assumes "db_inv s" "insert_community s c = Inr s'"
  shows "db_inv s'"
proof -
  have s': "s' = s\<lparr>communities := dset (com_id c) c (communities s)\<rparr>"
    using assms(2) by (auto simp: insert_community_def split: if_splits)
  have grow: "dget (communities s) k \<noteq> None \<Longrightarrow> dget (communities s') k \<noteq> None" for k by (simp add: s')
  have "members_ok (dget (communities s')) (dget (memberships s))"
    using db_invD(2) [OF assms(1)] by (rule members_ok_shrink)
      (use db_invD(2) [OF assms(1)] grow in \<open>auto simp: members_ok_def\<close>)
  moreover have "roles_ok (dget (communities s')) (dget (roles s))"
    using db_invD(3) [OF assms(1)] by (rule roles_ok_shrink)
      (use db_invD(3) [OF assms(1)] grow in \<open>auto simp: roles_ok_def\<close>)
  moreover have "servers_ok (dget (communities s')) (server_rows s)"
    using db_invD(6) [OF assms(1)] grow by (auto simp: servers_ok_def)
  moreover have "tables_wf s'" using db_invD(1) [OF assms(1)] by (auto simp: s' tables_wf_def)
  ultimately show ?thesis using db_invD(4,5) [OF assms(1)] by (simp add: db_inv_def s')
qed

lemma role_row_inv:
  assumes "db_inv s" "r_id r = k" "dget (communities s) (r_community r) \<noteq> None"
    "r_permissions r \<subseteq> COMMUNITY_PERMISSIONS"
    "\<And>k' r'. dget (roles s) k' = Some r' \<Longrightarrow> r_community r' = r_community r \<Longrightarrow> r_name r' = r_name r \<Longrightarrow> k' = k"
    "\<And>r'. dget (roles s) k = Some r' \<Longrightarrow> r_community r' = r_community r"
  shows "db_inv (s\<lparr>roles := dset k r (roles s)\<rparr>)"
proof -
  have "roles_ok (dget (communities s)) ((dget (roles s))(k \<mapsto> r))"
    by (rule roles_ok_upd [OF db_invD(3) [OF assms(1)] assms(2-5)])
  moreover have "assigned_ok (dget (memberships s)) ((dget (roles s))(k \<mapsto> r)) (set (assignments s))"
    by (rule assigned_ok_role_upd [OF db_invD(4) [OF assms(1)] assms(6)])
  ultimately show ?thesis
    using db_invD [OF assms(1)] by (simp add: db_inv_def tables_wf_def update_conv')
qed

lemma insert_role_inv:
  assumes "db_inv s" "insert_role s r = Inr s'" "r_permissions r \<subseteq> COMMUNITY_PERMISSIONS"
  shows "db_inv s'"
proof -
  have free: "dget (roles s) (r_id r) = None" "dget (communities s) (r_community r) \<noteq> None"
    and name: "\<forall>q \<in> set (dvalues (roles s)). \<not> (r_community q = r_community r \<and> r_name q = r_name r)"
    and s': "s' = s\<lparr>roles := dset (r_id r) r (roles s)\<rparr>"
    using assms(2) by (auto simp: insert_role_def list_ex_iff split: if_splits)
  show ?thesis unfolding s'
    by (rule role_row_inv [OF assms(1)])
      (use assms(3) free name in \<open>auto simp: in_dvalues [OF tables_wfD(3) [OF db_invD(1) [OF assms(1)]]]\<close>)
qed

lemma update_role_row_inv:
  assumes "db_inv s" "update_role_row s rid name ps now = Inr (r', s')"
    "\<And>p. ps = Some p \<Longrightarrow> p \<subseteq> COMMUNITY_PERMISSIONS"
  shows "db_inv s'"
proof -
  obtain r where r: "dget (roles s) rid = Some r"
    and r': "r' = r\<lparr>r_name := (case name of None \<Rightarrow> r_name r | Some n \<Rightarrow> n),
                     r_permissions := (case ps of None \<Rightarrow> r_permissions r | Some p \<Rightarrow> p), r_updated := now\<rparr>"
    and clash: "\<forall>q \<in> set (dvalues (roles s)). \<not> (r_id q \<noteq> rid \<and> r_community q = r_community r' \<and> r_name q = r_name r')"
    and s': "s' = s\<lparr>roles := dset rid r' (roles s)\<rparr>"
    using assms(2) by (auto simp: update_role_row_def Let_def list_ex_iff split: option.splits if_splits)
  note ok = db_invD(3) [OF assms(1)]
  show ?thesis unfolding s'
  proof (rule role_row_inv [OF assms(1)])
    show "r_id r' = rid" "dget (communities s) (r_community r') \<noteq> None"
      using ok r by (auto simp: r' roles_ok_def)
    have "r_permissions r \<subseteq> COMMUNITY_PERMISSIONS" using ok r unfolding roles_ok_def by blast
    then show "r_permissions r' \<subseteq> COMMUNITY_PERMISSIONS" using assms(3) by (simp add: r' split: option.splits)
    show "\<And>r''. dget (roles s) rid = Some r'' \<Longrightarrow> r_community r'' = r_community r'" using r by (simp add: r')
    show "k' = rid" if "dget (roles s) k' = Some q" "r_community q = r_community r'" "r_name q = r_name r'" for k' q
      using clash that inv_keys(2) [OF assms(1) that(1)] inv_rows(2) [OF assms(1), of q] by auto
  qed
qed

lemma insert_membership_inv:
  assumes "db_inv s" "insert_membership users s m = Inr s'"
  shows "db_inv s'"
proof -
  have free: "dget (memberships s) (m_id m) = None" "dget (communities s) (m_community m) \<noteq> None"
    and no: "get_by_user_and_community s (m_user m) (m_community m) = None"
    and s': "s' = s\<lparr>memberships := dset (m_id m) m (memberships s)\<rparr>"
    using assms(2) by (auto simp: insert_membership_def split: if_splits)
  have "members_ok (dget (communities s)) ((dget (memberships s))(m_id m \<mapsto> m))"
  proof (rule members_ok_upd [OF db_invD(2) [OF assms(1)] refl free(2)])
    fix k' m' assume m': "dget (memberships s) k' = Some m'" "m_user m' = m_user m" "m_community m' = m_community m"
    then have "get_by_user_and_community s (m_user m) (m_community m) = Some m'"
      using inv_keys(1) [OF assms(1) m'(1)] by (simp add: member_found [OF assms(1)])
    with no show "k' = m_id m" by simp
  qed
  moreover have "assigned_ok ((dget (memberships s))(m_id m \<mapsto> m)) (dget (roles s)) (set (assignments s))"
    by (rule assigned_ok_member_upd [OF db_invD(4) [OF assms(1)] free(1)])
  moreover have "grants_ok ((dget (memberships s))(m_id m \<mapsto> m)) (set (server_rows s)) (dget (grants s))"
    by (rule grants_ok_member_upd [OF db_invD(5) [OF assms(1)] free(1)])
  ultimately show ?thesis
    using db_invD [OF assms(1)] by (simp add: s' db_inv_def tables_wf_def update_conv')
qed

lemma insert_assignment_inv:
  assumes "db_inv s" "insert_assignment s mid rid = Inr s'" "dget (memberships s) mid = Some m"
    "dget (roles s) rid = Some r" "m_community m = r_community r"
  shows "db_inv s'"
proof -
  have s': "s' = s\<lparr>assignments := assignments s @ [(mid, rid)]\<rparr>" "(mid, rid) \<notin> set (assignments s)"
    using assms(2) by (auto simp: insert_assignment_def split: if_splits)
  have "assigned_ok (dget (memberships s)) (dget (roles s)) (insert (mid, rid) (set (assignments s)))"
    using db_invD(4) [OF assms(1)] assms(3-5) by (auto simp: assigned_ok_def)
  then show ?thesis using db_invD [OF assms(1)] s'(2) by (simp add: s'(1) db_inv_def tables_wf_def)
qed

lemma insert_grant_inv:
  assumes "db_inv s" "insert_grant s g = Inr s'" "(g_resource g, g_community g) \<in> set (server_rows s)"
    "g_permissions g \<subseteq> dget_default GRANT_PERMISSIONS_BY_RESOURCE_TYPE ''server'' {}"
  shows "db_inv s'"
proof -
  have ok: "grant_ok (dget (memberships s)) (set (server_rows s)) g"
    and no: "\<forall>h \<in> set (dvalues (grants s)). \<not> (g_user h = g_user g \<and> g_type h = g_type g \<and> g_resource h = g_resource g)"
    and s': "s' = s\<lparr>grants := dset (g_id g) g (grants s)\<rparr>"
    using assms(2-4) by (auto simp: insert_grant_def grant_ok_def list_ex_iff split: if_splits option.splits)
  have "grants_ok (dget (memberships s)) (set (server_rows s)) ((dget (grants s))(g_id g \<mapsto> g))"
    by (rule grants_ok_upd [OF db_invD(5) [OF assms(1)] refl ok])
      (use no in \<open>auto simp: in_dvalues [OF tables_wfD(4) [OF db_invD(1) [OF assms(1)]]]\<close>)
  then show ?thesis using db_invD [OF assms(1)] by (simp add: s' db_inv_def tables_wf_def update_conv')
qed

lemma shrink_inv:
  assumes "db_inv s" "tables_wf s'" "dget (memberships s') \<subseteq>\<^sub>m dget (memberships s)" "dget (roles s') \<subseteq>\<^sub>m dget (roles s)"
    "set (assignments s') \<subseteq> set (assignments s)" "dget (grants s') \<subseteq>\<^sub>m dget (grants s)"
    "set (server_rows s') \<subseteq> set (server_rows s)" "distinct (map fst (server_rows s'))"
    "\<And>k m. dget (memberships s') k = Some m \<Longrightarrow> dget (communities s') (m_community m) \<noteq> None"
    "\<And>k r. dget (roles s') k = Some r \<Longrightarrow> dget (communities s') (r_community r) \<noteq> None"
    "\<And>mid rid. (mid, rid) \<in> set (assignments s') \<Longrightarrow>
       dget (memberships s') mid = dget (memberships s) mid \<and> dget (roles s') rid = dget (roles s) rid"
    "\<And>k g. dget (grants s') k = Some g \<Longrightarrow>
       dget (memberships s') (g_membership g) = dget (memberships s) (g_membership g) \<and>
       (g_resource g, g_community g) \<in> set (server_rows s')"
    "\<And>sid c. (sid, c) \<in> set (server_rows s') \<Longrightarrow> dget (communities s') c \<noteq> None"
  shows "db_inv s'"
proof -
  note inv = db_invD [OF assms(1)]
  have "members_ok (dget (communities s')) (dget (memberships s'))"
    by (rule members_ok_shrink [OF inv(2) assms(3)]) (rule assms(9))
  moreover have "roles_ok (dget (communities s')) (dget (roles s'))"
    by (rule roles_ok_shrink [OF inv(3) assms(4)]) (rule assms(10))
  moreover have "assigned_ok (dget (memberships s')) (dget (roles s')) (set (assignments s'))"
    by (rule assigned_ok_shrink [OF inv(4) assms(5)]) (rule assms(11))
  moreover have "grants_ok (dget (memberships s')) (set (server_rows s')) (dget (grants s'))"
    by (rule grants_ok_shrink [OF inv(5) assms(6)]) (rule assms(12))
  ultimately show ?thesis using assms(2,8,13) by (simp add: db_inv_def servers_ok_def)
qed

lemma inv_refs:
  assumes "db_inv s"
  shows "dget (memberships s) k = Some m \<Longrightarrow> dget (communities s) (m_community m) \<noteq> None"
    "dget (roles s) k = Some r \<Longrightarrow> dget (communities s) (r_community r) \<noteq> None"
    "(sid, c) \<in> set (server_rows s) \<Longrightarrow> dget (communities s) c \<noteq> None"
    "dget (grants s) k = Some g \<Longrightarrow> (g_resource g, g_community g) \<in> set (server_rows s)"
    "dget (grants s) k = Some g \<Longrightarrow>
       \<exists>m. dget (memberships s) (g_membership g) = Some m \<and> m_user m = g_user g \<and> m_community m = g_community g"
    "distinct (map fst (server_rows s))"
  using db_invD [OF assms]
  unfolding members_ok_def roles_ok_def servers_ok_def grants_ok_def grant_ok_def by blast+

lemma assigned_rows:
  assumes "db_inv s" "(mid, rid) \<in> set (assignments s)"
  obtains m r where "dget (memberships s) mid = Some m" "dget (roles s) rid = Some r" "m_community m = r_community r"
  using db_invD(4) [OF assms(1)] assms(2) unfolding assigned_ok_def by blast

lemma dwf_parts:
  assumes "db_inv s"
  shows "dwf (communities s)" "dwf (memberships s)" "dwf (roles s)" "dwf (grants s)" "distinct (assignments s)"
  using tables_wfD [OF db_invD(1) [OF assms]] by blast+

lemma delete_membership_inv:
  assumes "db_inv s" shows "db_inv (delete_membership s mid)"
proof (rule shrink_inv [OF assms])
  show "tables_wf (delete_membership s mid)"
    using db_invD(1) [OF assms] by (simp add: tables_wf_def delete_membership_def)
qed (use inv_refs [OF assms] dget_dpop_le dget_filter_le [OF dwf_parts(4) [OF assms]] in
      \<open>auto simp: delete_membership_def dget_filter_Some [OF dwf_parts(4) [OF assms]] split: if_splits\<close>)

lemma delete_role_row_inv:
  assumes "db_inv s" shows "db_inv (delete_role_row s rid)"
proof (rule shrink_inv [OF assms])
  show "tables_wf (delete_role_row s rid)"
    using db_invD(1) [OF assms] by (simp add: tables_wf_def delete_role_row_def)
qed (use inv_refs [OF assms] dget_dpop_le in \<open>auto simp: delete_role_row_def split: if_splits\<close>)

lemma delete_grant_row_inv:
  assumes "db_inv s" shows "db_inv (delete_grant_row s gid)"
proof (rule shrink_inv [OF assms])
  show "tables_wf (delete_grant_row s gid)"
    using db_invD(1) [OF assms] by (simp add: tables_wf_def delete_grant_row_def)
qed (use inv_refs [OF assms] dget_dpop_le in \<open>auto simp: delete_grant_row_def split: if_splits\<close>)

lemma delete_assignments_inv:
  assumes "db_inv s" shows "db_inv (s\<lparr>assignments := filter P (assignments s)\<rparr>)"
proof (rule shrink_inv [OF assms])
  show "tables_wf (s\<lparr>assignments := filter P (assignments s)\<rparr>)"
    using db_invD(1) [OF assms] by (simp add: tables_wf_def)
qed (use inv_refs [OF assms] in auto)

lemma delete_server_row_inv:
  assumes "db_inv s" shows "db_inv (delete_server_row s sid)"
proof (rule shrink_inv [OF assms])
  show "tables_wf (delete_server_row s sid)"
    using db_invD(1) [OF assms] by (simp add: tables_wf_def delete_server_row_def)
  show "distinct (map fst (server_rows (delete_server_row s sid)))"
    using inv_refs(6) [OF assms] by (simp add: delete_server_row_def distinct_map_filter)
qed (use inv_refs [OF assms] dget_filter_le [OF dwf_parts(4) [OF assms]] in
      \<open>auto simp: delete_server_row_def dget_filter_Some [OF dwf_parts(4) [OF assms]]\<close>)

lemma insert_server_row_inv:
  assumes "db_inv s" "insert_server_row s sid c = Inr s'" shows "db_inv s'"
proof -
  have s': "s' = s\<lparr>server_rows := server_rows s @ [(sid, c)]\<rparr>" "sid \<notin> fst ` set (server_rows s)"
    "dget (communities s) c \<noteq> None"
    using assms(2) by (auto simp: insert_server_row_def split: if_splits)
  have "grants_ok (dget (memberships s)) (set (server_rows s')) (dget (grants s))"
    by (rule grants_ok_shrink [OF db_invD(5) [OF assms(1)]]) (use inv_refs(4) [OF assms(1)] in \<open>auto simp: s'(1)\<close>)
  moreover have "servers_ok (dget (communities s)) (server_rows s')"
    using s' db_invD(6) [OF assms(1)] by (auto simp: servers_ok_def)
  ultimately show ?thesis using db_invD [OF assms(1)] by (simp add: s'(1) db_inv_def tables_wf_def)
qed

lemma delete_community_row_inv:
  assumes "db_inv s" "delete_community_row s c = Inr s'" shows "db_inv s'"
proof -
  let ?m = "\<lambda>mid. case dget (memberships s) mid of None \<Rightarrow> False | Some m \<Rightarrow> m_community m = c"
  let ?r = "\<lambda>rid. case dget (roles s) rid of None \<Rightarrow> False | Some r \<Rightarrow> r_community r = c"
  have s': "s' = s\<lparr>communities := dpop c (communities s),
                     memberships := filter (\<lambda>(k, m). m_community m \<noteq> c) (memberships s),
                     roles := filter (\<lambda>(k, r). r_community r \<noteq> c) (roles s),
                     assignments := filter (\<lambda>(m, r). \<not> ?m m \<and> \<not> ?r r) (assignments s),
                     grants := filter (\<lambda>(k, g). g_community g \<noteq> c \<and> \<not> ?m (g_membership g)) (grants s)\<rparr>"
    and empty: "c \<notin> snd ` set (server_rows s)"
    using assms(2) by (auto simp: delete_community_row_def Let_def split: if_splits)
  note wf = dwf_parts [OF assms(1)]
  show ?thesis
  proof (rule shrink_inv [OF assms(1)])
    show "tables_wf s'"
      using db_invD(1) [OF assms(1)] by (simp add: tables_wf_def s')
    show "dget (memberships s') k = Some m \<Longrightarrow> dget (communities s') (m_community m) \<noteq> None" for k m
      using inv_refs(1) [OF assms(1)] by (auto simp: s' dget_filter_Some [OF wf(2)])
    show "dget (roles s') k = Some r \<Longrightarrow> dget (communities s') (r_community r) \<noteq> None" for k r
      using inv_refs(2) [OF assms(1)] by (auto simp: s' dget_filter_Some [OF wf(3)])
    show "(mid, rid) \<in> set (assignments s') \<Longrightarrow>
        dget (memberships s') mid = dget (memberships s) mid \<and> dget (roles s') rid = dget (roles s) rid" for mid rid
      by (auto simp: s' dget_filter_dwf [OF wf(2)] dget_filter_dwf [OF wf(3)] split: option.splits)
    show "dget (grants s') k = Some g \<Longrightarrow>
        dget (memberships s') (g_membership g) = dget (memberships s) (g_membership g) \<and>
        (g_resource g, g_community g) \<in> set (server_rows s')" for k g
      using inv_refs(4,5) [OF assms(1), of k g] by (auto simp: s' dget_filter_Some [OF wf(4)] dget_filter_dwf [OF wf(2)])
    show "(sid, d) \<in> set (server_rows s') \<Longrightarrow> dget (communities s') d \<noteq> None" for sid d
      using inv_refs(3) [OF assms(1), of sid d] empty by (force simp: s')
  qed (use inv_refs(6) [OF assms(1)] dget_filter_le [OF wf(2)] dget_filter_le [OF wf(3)] dget_filter_le [OF wf(4)] in
        \<open>auto simp: s'\<close>)
qed

section \<open>The use cases\<close>

lemma ceiling_passed: "check_permission_ceiling ceiling conferred = Inr u \<longleftrightarrow> conferred \<subseteq> ceiling"
  by (simp add: check_permission_ceiling_def)

lemma validated: "validate_permissions ps = Inr q \<longleftrightarrow> q = ps \<and> ps \<subseteq> COMMUNITY_PERMISSIONS"
  by (auto simp: validate_permissions_def)

lemma create_roleD:
  assumes "create_role s now i c actor name ps = Inr (r, s')"
  shows "insert_role s r = Inr s'" "r_permissions r \<subseteq> COMMUNITY_PERMISSIONS" "r_id r = i" "\<not> is_preset r"
  using assms by (auto simp: create_role_def Let_def validated split: sum.splits)

lemma update_roleD:
  assumes "update_role s now c rid actor name ps = Inr (r', s')"
  obtains r new_name where "dget (roles s) rid = Some r" "r_community r = c" "\<not> is_preset r"
    "update_role_row s rid new_name ps now = Inr (r', s')"
    "\<And>p. ps = Some p \<Longrightarrow> p \<subseteq> COMMUNITY_PERMISSIONS \<and>
       p - r_permissions r \<subseteq> lock_actor_ceiling s actor c None (Some rid) []"
  using assms
  by (auto simp: update_role_def Let_def read_role_def validated ceiling_passed
      split: sum.splits option.splits if_splits)

lemma assign_roleD:
  assumes "db_inv s" "assign_role s c u rid actor = Inr s'"
  obtains m r where "dget (memberships s) (m_id m) = Some m" "m_user m = u" "m_community m = c"
    "dget (roles s) rid = Some r" "r_community r = c"
    "r_permissions r \<subseteq> lock_actor_ceiling s actor c None None [rid]"
    "s' = s \<or> insert_assignment s (m_id m) rid = Inr s'"
proof -
  obtain m where m: "find (\<lambda>m. m_user m = u) (hold_for_users s c [u, actor]) = Some m"
    using assms(2) by (auto simp: assign_role_def split: option.splits)
  have lock: "lock_by_ids s [rid] None = (case dget (roles s) rid of None \<Rightarrow> [] | Some r \<Rightarrow> [r])"
    by (simp add: lock_by_ids_def map_filter_simps split: option.splits)
  obtain r where "dget (roles s) rid = Some r" "r_community r = c"
    "r_permissions r \<subseteq> lock_actor_ceiling s actor c None None [rid]"
    "s' = s \<or> insert_assignment s (m_id m) rid = Inr s'"
    using assms(2) m
    by (auto simp: assign_role_def Let_def lock ceiling_passed split: option.splits if_splits sum.splits)
  then show ?thesis using held_member [OF assms(1) m] that by blast
qed

lemma create_grantD:
  assumes "db_inv s" "create_grant s now i c actor u ty rid ps = Inr (g, s')"
  shows "insert_grant s g = Inr s'" "g_user g = u" "g_community g = c" "g_type g = ty" "g_resource g = rid"
    "(g_resource g, g_community g) \<in> set (server_rows s)" "ty = ''server''"
    "g_permissions g \<subseteq> dget_default GRANT_PERMISSIONS_BY_RESOURCE_TYPE ''server'' {}"
    "g_permissions g \<subseteq> lock_actor_ceiling s actor c (Some (ty, rid)) None []" "g_id g = i"
  using assms(2)
  by (auto simp: create_grant_def Let_def validate_grant_permissions_def enforce_permission_ceiling_def
      ceiling_passed resource_exists_def split: sum.splits option.splits if_splits)

lemma remove_memberD:
  assumes "db_inv s" "remove_member s c u = Inr s'"
  obtains m where "dget (memberships s) (m_id m) = Some m" "m_user m = u" "m_community m = c"
    "guard_last_owner s c m = Inr ()" "s' = delete_membership s (m_id m)"
  using assms by (auto simp: remove_member_def member_found split: option.splits sum.splits)

lemma unassign_roleD:
  assumes "db_inv s" "unassign_role s c u rid = Inr s'"
  obtains m r where "dget (memberships s) (m_id m) = Some m" "m_user m = u" "m_community m = c"
    "dget (roles s) rid = Some r" "r_community r = c" "is_preset_owner r \<Longrightarrow> guard_last_owner s c m = Inr ()"
    "s' = s\<lparr>assignments := filter (\<lambda>a. a \<noteq> (m_id m, rid)) (assignments s)\<rparr>"
  using assms
  by (auto simp: unassign_role_def read_role_def member_found split: option.splits sum.splits if_splits)

lemma provisionD:
  assumes "provision_community users s now nc nr nm name owner = Inr (c, s')"
  obtains s1 s2 s3 r m where "insert_community s c = Inr s1" "insert_role s1 r = Inr s2"
    "insert_membership users s2 m = Inr s3" "insert_assignment s3 nm nr = Inr s'"
    "com_id c = nc" "r_id r = nr" "r_community r = nc" "r_permissions r = COMMUNITY_PERMISSIONS" "is_preset_owner r"
    "m_id m = nm" "m_user m = owner" "m_community m = nc"
  using assms
  by (auto simp: provision_community_def Let_def is_preset_owner_def split: sum.splits if_splits)

lemma provision_inv:
  assumes "db_inv s" "provision_community users s now nc nr nm name owner = Inr (c, s')"
  shows "db_inv s'"
proof -
  obtain s1 s2 s3 r m where step: "insert_community s c = Inr s1" "insert_role s1 r = Inr s2"
    "insert_membership users s2 m = Inr s3" "insert_assignment s3 nm nr = Inr s'"
    and row: "r_id r = nr" "r_community r = nc" "r_permissions r = COMMUNITY_PERMISSIONS" "m_id m = nm" "m_community m = nc"
    using provisionD [OF assms(2)] by metis
  have inv: "db_inv s3"
    using insert_community_inv [OF assms(1) step(1)] insert_role_inv [OF _ step(2)] insert_membership_inv [OF _ step(3)] row(3)
    by simp
  have "dget (memberships s3) nm = Some m" "dget (roles s3) nr = Some r"
    using step(2,3) row by (auto simp: insert_role_def insert_membership_def split: if_splits)
  then show ?thesis using insert_assignment_inv [OF inv step(4)] row by metis
qed

lemma rename_inv:
  assumes "db_inv s" "rename_community s now c name = Inr (row, s')"
  shows "db_inv s'"
proof -
  obtain old where old: "dget (communities s) c = Some old" and s': "s' = s\<lparr>communities := dset c row (communities s)\<rparr>"
    and id: "com_id row = com_id old"
    using assms(2) by (auto simp: rename_community_def read_community_def Let_def split: sum.splits option.splits if_splits)
  have same: "dget (communities s') k \<noteq> None \<longleftrightarrow> dget (communities s) k \<noteq> None" for k using old by (simp add: s')
  have "tables_wf s'" using db_invD(1) [OF assms(1)] old id by (auto simp: s' tables_wf_def)
  then show ?thesis
    using db_invD [OF assms(1)] same
    unfolding db_inv_def members_ok_def roles_ok_def servers_ok_def by (simp add: s')
qed

lemma purge_user_inv: "db_inv s \<Longrightarrow> db_inv (fold (\<lambda>m s. delete_membership s (m_id m)) ms s)"
  by (induction ms arbitrary: s) (simp_all add: delete_membership_inv)

lemma state_of_Inr: "state_of r = Inr s \<longleftrightarrow> (\<exists>x. r = Inr (x, s))"
  by (auto simp: state_of_def split: sum.splits)

lemma comm_step_inv:
  assumes "db_inv s" "comm_step users resolve s op = Inr s'"
  shows "db_inv s'"
proof (cases op)
  case (CreateRole now i c actor name ps)
  then show ?thesis using assms create_roleD insert_role_inv by (fastforce simp: state_of_Inr)
next
  case (UpdateRole now c rid actor name ps)
  then obtain r' where "update_role s now c rid actor name ps = Inr (r', s')" using assms(2) by (auto simp: state_of_Inr)
  then show ?thesis using update_roleD update_role_row_inv [OF assms(1)] by metis
next
  case (DeleteRole c rid)
  then show ?thesis using assms delete_role_row_inv by (auto simp: delete_role_def split: sum.splits if_splits)
next
  case (CreateGrant now i c actor u ty rid ps)
  then obtain g where g: "create_grant s now i c actor u ty rid ps = Inr (g, s')" using assms(2) by (auto simp: state_of_Inr)
  show ?thesis using create_grantD(1,6,8) [OF assms(1) g] by (rule insert_grant_inv [OF assms(1)])
next
  case (RevokeGrant c gid)
  then show ?thesis using assms delete_grant_row_inv by (auto simp: revoke_grant_def split: option.splits if_splits)
next
  case (AddMember now i c uid username)
  then show ?thesis using assms insert_membership_inv
    by (auto simp: state_of_Inr add_member_def Let_def split: option.splits sum.splits if_splits)
next
  case (RemoveMember c u)
  then show ?thesis using assms remove_memberD [OF assms(1)] delete_membership_inv [OF assms(1)] by (metis comm_step.simps(7))
next
  case (AssignRole c u rid actor)
  then have "assign_role s c u rid actor = Inr s'" using assms(2) by simp
  then show ?thesis using assign_roleD [OF assms(1)] insert_assignment_inv [OF assms(1)] assms(1) by metis
next
  case (UnassignRole c u rid)
  then have "unassign_role s c u rid = Inr s'" using assms(2) by simp
  then show ?thesis using unassign_roleD [OF assms(1)] delete_assignments_inv [OF assms(1)] by metis
next
  case (ProvisionCommunity now c r m name owner)
  then show ?thesis using assms provision_inv by (auto simp: state_of_Inr)
next
  case (RenameCommunity now c name)
  then show ?thesis using assms rename_inv by (auto simp: state_of_Inr)
next
  case (DeleteCommunity c)
  then show ?thesis using assms delete_community_row_inv by (auto simp: delete_community_def split: sum.splits)
next
  case (ServerCreated sid c)
  then show ?thesis using assms insert_server_row_inv by simp
next
  case (ServerDeleted sid)
  then show ?thesis using assms delete_server_row_inv by auto
next
  case (DeleteUser u)
  then show ?thesis using assms purge_user_inv by (auto simp: purge_user_def)
qed

end
