(* ===== verification/Community_Props.thy ===== *)
theory Community_Props
  imports Community_Inv
begin

text \<open>
  Properties of the authorization model: no group of members can confer what none of them holds, every
  community keeps a member with every permission, and what a member is shown of their permissions is what
  the checker enforces.
\<close>

section \<open>Permissions held\<close>

definition holds :: "cdb \<Rightarrow> user_id \<Rightarrow> uuid \<Rightarrow> string \<Rightarrow> bool" where
  \<comment> \<open>through a role\<close>
  "holds s u c p \<longleftrightarrow> (\<exists>mid m rid r. dget (memberships s) mid = Some m \<and> m_user m = u \<and> m_community m = c \<and>
     (mid, rid) \<in> set (assignments s) \<and> dget (roles s) rid = Some r \<and> p \<in> r_permissions r)"

definition granted :: "cdb \<Rightarrow> user_id \<Rightarrow> uuid \<Rightarrow> string \<Rightarrow> uuid \<Rightarrow> string \<Rightarrow> bool" where
  \<comment> \<open>through a grant on one resource\<close>
  "granted s u c ty rid p \<longleftrightarrow> (\<exists>k g. dget (grants s) k = Some g \<and> g_user g = u \<and> g_community g = c \<and>
     g_type g = ty \<and> g_resource g = rid \<and> p \<in> g_permissions g)"

definition granted_at :: "cdb \<Rightarrow> user_id \<Rightarrow> uuid \<Rightarrow> (string \<times> uuid) option \<Rightarrow> string \<Rightarrow> bool" where
  "granted_at s u c resource p \<longleftrightarrow> (\<exists>ty rid. resource = Some (ty, rid) \<and> granted s u c ty rid p)"

definition target_of :: "resource_ref \<Rightarrow> (string \<times> uuid) option" where
  "target_of ref = (case (ref_type ref, ref_id ref) of (Some ty, Some rid) \<Rightarrow> Some (ty, rid) | _ \<Rightarrow> None)"

lemma granted_found:
  assumes "db_inv s"
  shows "granted s u c ty rid p \<longleftrightarrow> (\<exists>g. grant_for_user_resource s u c ty rid = Some g \<and> p \<in> g_permissions g)"
  using inv_keys(3) [OF assms] unfolding granted_def grant_found [OF assms] by blast

lemma granted_member:
  assumes "db_inv s" "granted s u c ty rid p"
  shows "get_by_user_and_community s u c \<noteq> None"
proof -
  obtain g where "dget (grants s) (g_id g) = Some g" "g_user g = u" "g_community g = c"
    using assms by (auto simp: granted_found grant_found)
  then obtain m where "dget (memberships s) (m_id m) = Some m" "m_user m = u" "m_community m = c"
    using inv_refs(5) [OF assms(1)] inv_keys(1) [OF assms(1)] by metis
  then have "get_by_user_and_community s u c = Some m" by (simp add: member_found [OF assms(1)])
  then show ?thesis by simp
qed

lemma role_permissions_iff:
  assumes "db_inv s" "get_by_user_and_community s u c = Some m"
  shows "p \<in> \<Union> (set (map r_permissions (roles_by_ids s (list_role_ids s (m_id m))))) \<longleftrightarrow> holds s u c p"
proof -
  have m: "dget (memberships s) (m_id m) = Some m" "m_user m = u" "m_community m = c"
    using assms by (simp_all add: member_found)
  have "p \<in> \<Union> (set (map r_permissions (roles_by_ids s (list_role_ids s (m_id m))))) \<longleftrightarrow>
      (\<exists>r. dget (roles s) (r_id r) = Some r \<and> (m_id m, r_id r) \<in> set (assignments s) \<and> p \<in> r_permissions r)"
    by (auto simp: roles_by_ids_def role_ids_iff inv_rows [OF assms(1)])
  also have "\<dots> \<longleftrightarrow> holds s u c p"
  proof
    assume "holds s u c p"
    then obtain mid m' rid r where h: "dget (memberships s) mid = Some m'" "m_user m' = u" "m_community m' = c"
      "(mid, rid) \<in> set (assignments s)" "dget (roles s) rid = Some r" "p \<in> r_permissions r"
      by (auto simp: holds_def)
    have "mid = m_id m" using member_unique(1) [OF assms(1) h(1) m(1)] h m by simp
    moreover have "r_id r = rid" by (rule inv_keys(2) [OF assms(1) h(5)])
    ultimately show "\<exists>r. dget (roles s) (r_id r) = Some r \<and> (m_id m, r_id r) \<in> set (assignments s) \<and> p \<in> r_permissions r"
      using h by blast
  qed (use m in \<open>unfold holds_def, blast\<close>)
  finally show ?thesis .
qed

lemma no_member_holds_nothing:
  assumes "db_inv s" "get_by_user_and_community s u c = None" shows "\<not> holds s u c p"
proof
  assume "holds s u c p"
  then obtain mid m where "dget (memberships s) mid = Some m" "m_user m = u" "m_community m = c"
    by (auto simp: holds_def)
  then have "get_by_user_and_community s u c = Some m"
    using inv_keys(1) [OF assms(1)] by (simp add: member_found [OF assms(1)])
  with assms(2) show False by simp
qed

lemma effective_iff:
  assumes "db_inv s"
  shows "p \<in> effective_permissions s u ref \<longleftrightarrow>
    holds s u (ref_community ref) p \<or> granted_at s u (ref_community ref) (target_of ref) p"
proof (cases "get_by_user_and_community s u (ref_community ref)")
  case None
  then show ?thesis
    using no_member_holds_nothing [OF assms None] granted_member [OF assms, of u "ref_community ref"]
    by (fastforce simp: effective_permissions_def granted_at_def)
next
  case (Some m)
  have "p \<in> effective_permissions s u ref \<longleftrightarrow>
      p \<in> \<Union> (set (map r_permissions (roles_by_ids s (list_role_ids s (m_id m))))) \<or>
      granted_at s u (ref_community ref) (target_of ref) p"
    by (auto simp: effective_permissions_def Some granted_at_def target_of_def granted_found [OF assms]
        split: option.splits)
  then show ?thesis using role_permissions_iff [OF assms Some] by blast
qed

lemma lock_by_ids_set:
  "r \<in> set (lock_by_ids s rids upd) \<longleftrightarrow>
     (\<exists>rid. (rid \<in> set rids \<or> upd = Some rid) \<and> dget (roles s) rid = Some r)"
  by (auto simp: lock_by_ids_def map_filter_def image_iff)

lemma held_head:
  assumes "db_inv s"
  shows "(case hold_for_users s c [a] of [] \<Rightarrow> None | m # _ \<Rightarrow> Some m) = get_by_user_and_community s a c"
proof -
  have mem: "m \<in> set (hold_for_users s c [a]) \<longleftrightarrow> get_by_user_and_community s a c = Some m" for m
    by (auto simp: hold_for_users_def inv_rows [OF assms] member_found [OF assms])
  show ?thesis
  proof (cases "hold_for_users s c [a]")
    case Nil
    then show ?thesis using mem by (cases "get_by_user_and_community s a c") auto
  next
    case (Cons m ms)
    then show ?thesis using mem [of m] by simp
  qed
qed

lemma ceiling_iff:
  assumes "db_inv s"
  shows "p \<in> lock_actor_ceiling s a c resource upd share \<longleftrightarrow> holds s a c p \<or> granted_at s a c resource p"
proof -
  have grant: "p \<in> (case resource of None \<Rightarrow> {} | Some (ty, rid) \<Rightarrow>
      (case grant_for_user_resource s a c ty rid of None \<Rightarrow> {} | Some g \<Rightarrow> g_permissions g)) \<longleftrightarrow> granted_at s a c resource p"
    by (auto simp: granted_at_def granted_found [OF assms] split: option.splits)
  show ?thesis
  proof (cases "get_by_user_and_community s a c")
    case None
    then show ?thesis using no_member_holds_nothing [OF assms None] grant
      by (simp add: lock_actor_ceiling_def held_head [OF assms])
  next
    case (Some m)
    let ?locked = "lock_by_ids s (list_role_ids s (m_id m) @ share) upd"
    have row: "r \<in> set ?locked \<Longrightarrow> dget (roles s) (r_id r) = Some r" for r
      using inv_keys(2) [OF assms] by (fastforce simp: lock_by_ids_set)
    have "set (filter (\<lambda>r. r_id r \<in> set (lock_role_ids s (m_id m) (map r_id ?locked))) ?locked) =
      set (roles_by_ids s (list_role_ids s (m_id m)))"
    proof (intro set_eqI iffI)
      fix r assume "r \<in> set (filter (\<lambda>r. r_id r \<in> set (lock_role_ids s (m_id m) (map r_id ?locked))) ?locked)"
      then show "r \<in> set (roles_by_ids s (list_role_ids s (m_id m)))"
        using row [of r] by (simp add: lock_role_ids_def roles_by_ids_def inv_rows [OF assms])
    next
      fix r assume "r \<in> set (roles_by_ids s (list_role_ids s (m_id m)))"
      then have "r_id r \<in> set (list_role_ids s (m_id m))" "r \<in> set ?locked"
        by (auto simp: roles_by_ids_def inv_rows [OF assms] lock_by_ids_set)
      then show "r \<in> set (filter (\<lambda>r. r_id r \<in> set (lock_role_ids s (m_id m) (map r_id ?locked))) ?locked)"
        by (simp add: lock_role_ids_def)
    qed
    then show ?thesis using grant role_permissions_iff [OF assms Some, of p]
      by (simp add: lock_actor_ceiling_def held_head [OF assms] Some Let_def)
  qed
qed


section \<open>Conferring\<close>

fun conferrers :: "comm_op \<Rightarrow> user_id set" where
  \<comment> \<open>on whose authority an operation confers permissions\<close>
  "conferrers (CreateRole _ _ _ actor _ _) = {actor}"
| "conferrers (UpdateRole _ _ _ actor _ _) = {actor}"
| "conferrers (CreateGrant _ _ _ actor _ _ _ _) = {actor}"
| "conferrers (AssignRole _ _ _ actor) = {actor}"
| "conferrers _ = {}"

fun provisions :: "comm_op \<Rightarrow> bool" where
  "provisions (ProvisionCommunity _ _ _ _ _ _) = True"
| "provisions _ = False"

definition role_step :: "user_id set \<Rightarrow> cdb \<Rightarrow> cdb \<Rightarrow> bool" where
  "role_step A s s' \<longleftrightarrow> (\<forall>u c p. holds s' u c p \<longrightarrow> holds s u c p \<or> (\<exists>a \<in> A. holds s a c p))"

definition grant_step :: "user_id set \<Rightarrow> cdb \<Rightarrow> cdb \<Rightarrow> bool" where
  "grant_step A s s' \<longleftrightarrow> (\<forall>u c ty rid p. granted s' u c ty rid p \<longrightarrow>
     granted s u c ty rid p \<or> (\<exists>a \<in> A. holds s a c p \<or> granted s a c ty rid p))"

lemma role_step_shrink:
  assumes "dget (memberships s') \<subseteq>\<^sub>m dget (memberships s)" "dget (roles s') \<subseteq>\<^sub>m dget (roles s)"
    "set (assignments s') \<subseteq> set (assignments s)"
  shows "role_step A s s'"
  unfolding role_step_def holds_def using map_leD [OF assms(1)] map_leD [OF assms(2)] assms(3) by blast

lemma grant_step_shrink: "dget (grants s') \<subseteq>\<^sub>m dget (grants s) \<Longrightarrow> grant_step A s s'"
  unfolding grant_step_def granted_def by (blast dest: map_leD)

lemma role_step_new_role:
  assumes "db_inv s" "dget (roles s) i = None"
  shows "role_step A s (s\<lparr>roles := dset i r (roles s)\<rparr>)"
  unfolding role_step_def
proof (intro allI impI)
  fix u c p assume "holds (s\<lparr>roles := dset i r (roles s)\<rparr>) u c p"
  then obtain mid m rid q where h: "dget (memberships s) mid = Some m" "m_user m = u" "m_community m = c"
    "(mid, rid) \<in> set (assignments s)" "dget (dset i r (roles s)) rid = Some q" "p \<in> r_permissions q"
    unfolding holds_def by auto
  have "rid \<noteq> i" using assigned_rows [OF assms(1) h(4)] assms(2) by (metis option.distinct(1))
  then show "holds s u c p \<or> (\<exists>a \<in> A. holds s a c p)" using h unfolding holds_def by auto
qed

lemma role_step_new_member:
  assumes "db_inv s" "dget (memberships s) i = None"
  shows "role_step A s (s\<lparr>memberships := dset i m (memberships s)\<rparr>)"
  unfolding role_step_def
proof (intro allI impI)
  fix u c p assume "holds (s\<lparr>memberships := dset i m (memberships s)\<rparr>) u c p"
  then obtain mid m' rid q where h: "dget (dset i m (memberships s)) mid = Some m'" "m_user m' = u" "m_community m' = c"
    "(mid, rid) \<in> set (assignments s)" "dget (roles s) rid = Some q" "p \<in> r_permissions q"
    unfolding holds_def by auto
  have "mid \<noteq> i" using assigned_rows [OF assms(1) h(4)] assms(2) by (metis option.distinct(1))
  then show "holds s u c p \<or> (\<exists>a \<in> A. holds s a c p)" using h unfolding holds_def by auto
qed

lemma role_step_update:
  assumes inv: "db_inv s" and up: "update_role s now c rid actor name ps = Inr (r', s')"
  shows "role_step {actor} s s'"
proof -
  obtain r new_name where r: "dget (roles s) rid = Some r" "r_community r = c"
    and row: "update_role_row s rid new_name ps now = Inr (r', s')"
    and ceiling: "\<And>p. ps = Some p \<Longrightarrow> p - r_permissions r \<subseteq> lock_actor_ceiling s actor c None (Some rid) []"
    using update_roleD [OF up] by metis
  have s': "s' = s\<lparr>roles := dset rid r' (roles s)\<rparr>"
    and perms: "r_permissions r' = (case ps of None \<Rightarrow> r_permissions r | Some p \<Rightarrow> p)"
    using row r by (auto simp: update_role_row_def Let_def split: if_splits)
  have new: "p \<in> r_permissions r \<or> holds s actor c p" if "p \<in> r_permissions r'" for p
    using that ceiling ceiling_iff [OF inv, of p actor c None "Some rid" "[]"]
    by (auto simp: perms granted_at_def split: option.splits)
  show ?thesis unfolding role_step_def
  proof (intro allI impI)
    fix u d p assume "holds s' u d p"
    then obtain mid m rid' q where h: "dget (memberships s) mid = Some m" "m_user m = u" "m_community m = d"
      "(mid, rid') \<in> set (assignments s)" "dget (roles s') rid' = Some q" "p \<in> r_permissions q"
      unfolding holds_def s' by auto
    show "holds s u d p \<or> (\<exists>a \<in> {actor}. holds s a d p)"
    proof (cases "rid' = rid")
      case True
      then have "q = r'" using h(5) by (simp add: s')
      moreover have "d = c" using assigned_rows [OF inv h(4)] h(1,3) r True by (metis option.inject)
      ultimately show ?thesis using new [of p] h True r unfolding holds_def by blast
    next
      case False
      then show ?thesis using h unfolding holds_def by (auto simp: s')
    qed
  qed
qed

lemma role_step_assign:
  assumes inv: "db_inv s" and step: "assign_role s c u rid actor = Inr s'"
  shows "role_step {actor} s s'"
proof -
  obtain m r where m: "dget (memberships s) (m_id m) = Some m" "m_user m = u" "m_community m = c"
    and r: "dget (roles s) rid = Some r" "r_permissions r \<subseteq> lock_actor_ceiling s actor c None None [rid]"
    and s': "s' = s \<or> insert_assignment s (m_id m) rid = Inr s'"
    using assign_roleD [OF inv step] by metis
  have up: "holds s actor c p" if "p \<in> r_permissions r" for p
    using that r(2) ceiling_iff [OF inv, of p actor c None None "[rid]"] by (auto simp: granted_at_def)
  from s' show ?thesis
  proof
    assume "s' = s"
    then show ?thesis by (simp add: role_step_def)
  next
    assume "insert_assignment s (m_id m) rid = Inr s'"
    then have "s' = s\<lparr>assignments := assignments s @ [(m_id m, rid)]\<rparr>"
      by (auto simp: insert_assignment_def split: if_splits)
    then show ?thesis unfolding role_step_def holds_def using up m r(1) unfolding holds_def by auto
  qed
qed

lemma grant_step_create:
  assumes inv: "db_inv s" and step: "create_grant s now i c actor u ty rid ps = Inr (g, s')"
  shows "grant_step {actor} s s'"
proof -
  note g = create_grantD [OF inv step]
  have up: "holds s actor c p \<or> granted s actor c ty rid p" if "p \<in> g_permissions g" for p
    using that g(9) ceiling_iff [OF inv, of p actor c "Some (ty, rid)" None "[]"] by (auto simp: granted_at_def)
  have s': "s' = s\<lparr>grants := dset (g_id g) g (grants s)\<rparr>"
    using g(1) by (auto simp: insert_grant_def split: if_splits)
  show ?thesis unfolding grant_step_def
  proof (intro allI impI)
    fix v d ty' rid' p assume "granted s' v d ty' rid' p"
    then obtain k h where h: "dget (grants s') k = Some h" "g_user h = v" "g_community h = d" "g_type h = ty'"
      "g_resource h = rid'" "p \<in> g_permissions h"
      by (auto simp: granted_def)
    show "granted s v d ty' rid' p \<or> (\<exists>a \<in> {actor}. holds s a d p \<or> granted s a d ty' rid' p)"
    proof (cases "k = g_id g")
      case True
      then have "h = g" using h(1) by (simp add: s')
      then show ?thesis using up [of p] h g(3-5) by auto
    next
      case False
      then show ?thesis using h unfolding granted_def by (auto simp: s')
    qed
  qed
qed

lemma purge_shrink:
  "dget (memberships (fold (\<lambda>m s. delete_membership s (m_id m)) ms s)) \<subseteq>\<^sub>m dget (memberships s) \<and>
   dget (roles (fold (\<lambda>m s. delete_membership s (m_id m)) ms s)) = dget (roles s) \<and>
   set (assignments (fold (\<lambda>m s. delete_membership s (m_id m)) ms s)) \<subseteq> set (assignments s) \<and>
   (dwf (grants s) \<longrightarrow> dget (grants (fold (\<lambda>m s. delete_membership s (m_id m)) ms s)) \<subseteq>\<^sub>m dget (grants s))"
proof (induction ms arbitrary: s)
  case (Cons m ms)
  have "dget (memberships (delete_membership s (m_id m))) \<subseteq>\<^sub>m dget (memberships s)"
    "dwf (grants s) \<Longrightarrow> dget (grants (delete_membership s (m_id m))) \<subseteq>\<^sub>m dget (grants s)"
    "dwf (grants s) \<Longrightarrow> dwf (grants (delete_membership s (m_id m)))"
    using dget_dpop_le dget_filter_le by (auto simp: delete_membership_def)
  moreover have "dget (roles (delete_membership s (m_id m))) = dget (roles s)"
    "set (assignments (delete_membership s (m_id m))) \<subseteq> set (assignments s)"
    by (auto simp: delete_membership_def)
  ultimately show ?case using Cons.IH [of "delete_membership s (m_id m)"] by (auto intro: map_le_trans)
qed (simp add: map_le_refl)

lemma purge_user_shrink:
  assumes "db_inv s"
  shows "dget (memberships (purge_user s u)) \<subseteq>\<^sub>m dget (memberships s)" "dget (roles (purge_user s u)) = dget (roles s)"
    "set (assignments (purge_user s u)) \<subseteq> set (assignments s)" "dget (grants (purge_user s u)) \<subseteq>\<^sub>m dget (grants s)"
  using purge_shrink [of "memberships_of_user s u" s] dwf_parts(4) [OF assms] by (auto simp: purge_user_def)

lemma confers_same:
  assumes "memberships s' = memberships s" "roles s' = roles s" "assignments s' = assignments s" "grants s' = grants s"
  shows "role_step A s s'" "grant_step A s s'"
  by (rule role_step_shrink) (simp_all add: assms grant_step_shrink)

lemma comm_step_confers:
  assumes inv: "db_inv s" and step: "comm_step users resolve s op = Inr s'" and new: "\<not> provisions op"
  shows "role_step (conferrers op) s s'" "grant_step (conferrers op) s s'"
proof -
  note wf = dwf_parts [OF inv]
  note le = dget_dpop_le dget_filter_le [OF wf(2)] dget_filter_le [OF wf(3)] dget_filter_le [OF wf(4)]
  have "role_step (conferrers op) s s' \<and> grant_step (conferrers op) s s'"
  proof (cases op)
    case (CreateRole now i c actor name ps)
    then obtain r where "create_role s now i c actor name ps = Inr (r, s')" using step by (auto simp: state_of_Inr)
    then have "insert_role s r = Inr s'" by (rule create_roleD)
    then have "dget (roles s) (r_id r) = None" "s' = s\<lparr>roles := dset (r_id r) r (roles s)\<rparr>"
      by (auto simp: insert_role_def split: if_splits)
    then show ?thesis using role_step_new_role [OF inv] by (auto intro: grant_step_shrink)
  next
    case (UpdateRole now c rid actor name ps)
    then obtain r where r: "update_role s now c rid actor name ps = Inr (r, s')" using step by (auto simp: state_of_Inr)
    have "grants s' = grants s"
      by (rule update_roleD [OF r]) (auto simp: update_role_row_def Let_def split: option.splits if_splits)
    then show ?thesis using role_step_update [OF inv r] UpdateRole by (auto intro: grant_step_shrink)
  next
    case (DeleteRole c rid)
    then have "s' = delete_role_row s rid"
      using step by (auto simp: delete_role_def split: sum.splits if_splits)
    then show ?thesis using le by (auto simp: delete_role_row_def intro!: grant_step_shrink role_step_shrink)
  next
    case (CreateGrant now i c actor u ty rid ps)
    then obtain g where g: "create_grant s now i c actor u ty rid ps = Inr (g, s')" using step by (auto simp: state_of_Inr)
    have "s' = s\<lparr>grants := dset (g_id g) g (grants s)\<rparr>"
      using create_grantD(1) [OF inv g] by (auto simp: insert_grant_def split: if_splits)
    then show ?thesis using grant_step_create [OF inv g] CreateGrant by (auto intro: role_step_shrink)
  next
    case (RevokeGrant c gid)
    then have "s' = delete_grant_row s gid" using step by (auto simp: revoke_grant_def split: option.splits if_splits)
    then show ?thesis using le by (auto simp: delete_grant_row_def intro!: grant_step_shrink role_step_shrink)
  next
    case (AddMember now i c uid username)
    then obtain m where "insert_membership users s m = Inr s'"
      using step by (auto simp: state_of_Inr add_member_def Let_def split: option.splits sum.splits if_splits)
    then have "dget (memberships s) (m_id m) = None" "s' = s\<lparr>memberships := dset (m_id m) m (memberships s)\<rparr>"
      by (auto simp: insert_membership_def split: if_splits)
    then show ?thesis using role_step_new_member [OF inv] by (auto intro: grant_step_shrink)
  next
    case (RemoveMember c u)
    then have "remove_member s c u = Inr s'" using step by simp
    then obtain mid where "s' = delete_membership s mid" using remove_memberD [OF inv] by metis
    then show ?thesis using le by (auto simp: delete_membership_def intro!: grant_step_shrink role_step_shrink)
  next
    case (AssignRole c u rid actor)
    then have r: "assign_role s c u rid actor = Inr s'" using step by simp
    have "grants s' = grants s"
      by (rule assign_roleD [OF inv r]) (auto simp: insert_assignment_def split: if_splits)
    then show ?thesis using role_step_assign [OF inv r] AssignRole by (auto intro: grant_step_shrink)
  next
    case (UnassignRole c u rid)
    then have "unassign_role s c u rid = Inr s'" using step by simp
    then obtain P where "s' = s\<lparr>assignments := filter P (assignments s)\<rparr>" using unassign_roleD [OF inv] by metis
    then show ?thesis by (auto intro!: grant_step_shrink role_step_shrink)
  next
    case (RenameCommunity now c name)
    then show ?thesis using step confers_same [of s' s]
      by (auto simp: state_of_Inr rename_community_def Let_def split: sum.splits if_splits)
  next
    case (DeleteCommunity c)
    then have "delete_community_row s c = Inr s'" using step by (auto simp: delete_community_def split: sum.splits)
    then show ?thesis using le
      by (auto simp: delete_community_row_def Let_def split: if_splits intro!: grant_step_shrink role_step_shrink)
  next
    case (ServerCreated sid c)
    then show ?thesis using step confers_same [of s' s] by (auto simp: insert_server_row_def split: if_splits)
  next
    case (ServerDeleted sid)
    then show ?thesis using step le by (auto simp: delete_server_row_def intro!: grant_step_shrink role_step_shrink)
  next
    case (DeleteUser u)
    then have "s' = purge_user s u" using step by simp
    then show ?thesis using purge_user_shrink [OF inv, of u] by (auto intro!: grant_step_shrink role_step_shrink)
  qed (use new in simp)
  then show "role_step (conferrers op) s s'" "grant_step (conferrers op) s s'" by auto
qed

lemma reachable_inv: "comm_reachable s \<Longrightarrow> db_inv s"
proof (induction rule: comm_reachable.induct)
  case start
  show ?case
    by (simp add: db_inv_def tables_wf_def empty_cdb_def members_ok_def roles_ok_def assigned_ok_def grants_ok_def
        servers_ok_def unique_on_def dwf_def)
qed (rule comm_step_inv)

text \<open>A run of the context in which only the members of a group confer permissions.\<close>

inductive works_by :: "user_id set \<Rightarrow> cdb \<Rightarrow> cdb \<Rightarrow> bool" for A where
  begin_with: "works_by A s s"
| then_do: "works_by A s s1 \<Longrightarrow> comm_step users resolve s1 op = Inr s2 \<Longrightarrow> conferrers op \<subseteq> A \<Longrightarrow> \<not> provisions op \<Longrightarrow>
     works_by A s s2"

lemma works_by_inv: "works_by A s s' \<Longrightarrow> db_inv s \<Longrightarrow> db_inv s'"
  by (induction rule: works_by.induct) (auto intro: comm_step_inv)

lemma works_by_bound:
  assumes "works_by A s s'" "db_inv s" "holds s' u c p \<or> granted_at s' u c res p"
  shows "\<exists>a \<in> insert u A. holds s a c p \<or> granted_at s a c res p"
  using assms
proof (induction arbitrary: u rule: works_by.induct)
  case (then_do s s1 users resolve op s2)
  have inv: "db_inv s1" using works_by_inv [OF then_do.hyps(1) then_do.prems(1)] .
  note confers = comm_step_confers [OF inv then_do.hyps(2,4)]
  from then_do.prems(2) consider "holds s2 u c p" | "granted_at s2 u c res p" by blast
  then obtain a where a: "a \<in> insert u A" "holds s1 a c p \<or> granted_at s1 a c res p"
  proof cases
    case 1
    then show ?thesis using that confers(1) then_do.hyps(3) unfolding role_step_def by blast
  next
    case 2
    then obtain ty rid where g: "res = Some (ty, rid)" "granted s2 u c ty rid p" by (auto simp: granted_at_def)
    then have "granted s1 u c ty rid p \<or> (\<exists>a \<in> conferrers op. holds s1 a c p \<or> granted s1 a c ty rid p)"
      using confers(2) unfolding grant_step_def by blast
    then have "\<exists>a \<in> insert u A. holds s1 a c p \<or> granted_at s1 a c res p"
      using g(1) then_do.hyps(3) by (auto simp: granted_at_def)
    then show ?thesis using that by blast
  qed
  then show ?case using then_do.IH [OF then_do.prems(1), of a] by blast
qed blast

text \<open>
  C1. Nobody confers what they do not hold, and neither does a group. Take any state the context can
  reach and any run from it, however its requests interleave, in which only users of the group \<open>A\<close> create
  roles, edit roles, assign roles or create grants (members may join and leave, roles, grants, servers,
  communities and accounts may be deleted, by anybody). Whatever permission a user holds on a resource
  at the end, either they held it on that resource at the start or a user of the group did: the ceiling
  cannot be climbed by assigning to one another, by widening a role and then joining it, or by passing a
  permission along a chain of roles and grants.
\<close>

theorem collusion_bounded:
  assumes "comm_reachable s" "works_by A s s'"
  shows "effective_permissions s' u ref \<subseteq>
    effective_permissions s u ref \<union> (\<Union>a \<in> A. effective_permissions s a ref)"
proof
  fix p assume "p \<in> effective_permissions s' u ref"
  then have "holds s' u (ref_community ref) p \<or> granted_at s' u (ref_community ref) (target_of ref) p"
    using effective_iff works_by_inv [OF assms(2) reachable_inv [OF assms(1)]] by blast
  then obtain a where "a \<in> insert u A"
    "holds s a (ref_community ref) p \<or> granted_at s a (ref_community ref) (target_of ref) p"
    using works_by_bound [OF assms(2) reachable_inv [OF assms(1)]] by meson
  then show "p \<in> effective_permissions s u ref \<union> (\<Union>a \<in> A. effective_permissions s a ref)"
    using effective_iff [OF reachable_inv [OF assms(1)], of p a ref] by blast
qed

section \<open>Every community has an owner\<close>







lemma holders_iff:
  "mid \<in> set (lock_owner_role_holders s c rid) \<longleftrightarrow>
     (mid, rid) \<in> set (assignments s) \<and> (\<exists>m. dget (memberships s) mid = Some m \<and> m_community m = c)"
  by (auto simp: lock_owner_role_holders_def image_iff split: option.splits)





lemma alone_owns:
  assumes inv: "db_inv s" and alone: "owned_alone s u c"
  shows "owns_any_community s u"
proof -
  obtain r where r': "find is_preset_owner (list_roles s c) = Some r" "lock_owner_role_holders s c (r_id r) \<noteq> []"
    "set (lock_owner_role_holders s c (r_id r)) \<subseteq> m_id ` set (memberships_of_user s u)"
    using alone by (auto simp: owned_alone_def Let_def split: option.splits)
  define mid where "mid = hd (lock_owner_role_holders s c (r_id r))"
  have r: "find is_preset_owner (list_roles s c) = Some r" "mid \<in> set (lock_owner_role_holders s c (r_id r))"
    "mid \<in> m_id ` set (memberships_of_user s u)"
    using r' hd_in_set [OF r'(2)] by (auto simp: mid_def)
  then obtain m where m: "m \<in> set (memberships_of_user s u)" "m_id m = mid" by auto
  moreover have "m_community m = c" "r_id r \<in> set (list_role_ids s mid)"
    using r(2) m by (auto simp: holders_iff role_ids_iff memberships_of_user_def inv_rows [OF inv])
  ultimately show ?thesis using r(1) unfolding owns_any_community_def list_ex_iff by (intro bexI [of _ m]) auto
qed












section \<open>What a member is shown\<close>

text \<open>
  C38. The introspection route shows what the checker enforces: for a known community permission, \<open>can\<close>
  answers yes exactly when the code is among the permissions the route returns for the caller's roles, or
  among those of a returned grant on the resource asked about; a platform permission is answered by the
  caller's platform flag alone, whatever roles and grants say; an unknown code is an error and never a
  refusal or a permit.
\<close>

theorem introspection_agrees:
  assumes "comm_reachable s" "au_user user = u" "ref_community ref = c" "read_my_effective_permissions s u c = (ps, gs)"
  shows "can s user op ref =
    (if op \<in> PLATFORM_ADMIN_PERMISSIONS then Inr (is_platform_admin user)
     else if op \<in> COMMUNITY_PERMISSIONS then
       Inr (op \<in> ps \<or> (\<exists>g \<in> set gs. ref_type ref = Some (g_type g) \<and> ref_id ref = Some (g_resource g) \<and> op \<in> g_permissions g))
     else Inl UnknownPermissionError)"
proof -
  note inv = reachable_inv [OF assms(1)]
  have roles: "op \<in> ps \<longleftrightarrow> holds s u c op"
  proof (cases "get_by_user_and_community s u c")
    case None
    then show ?thesis using assms(4) no_member_holds_nothing [OF inv None] by (auto simp: read_my_effective_permissions_def)
  next
    case (Some m)
    have "ps = \<Union> (set (map r_permissions (roles_by_ids s (list_role_ids s (m_id m)))))"
      using assms(4) Some by (simp add: read_my_effective_permissions_def)
    then show ?thesis by (simp only: role_permissions_iff [OF inv Some])
  qed
  have gs: "gs = grants_for_community s c (Some u)" using assms(4) by (simp add: read_my_effective_permissions_def)
  have "granted_at s u c (target_of ref) op \<longleftrightarrow>
      (\<exists>g \<in> set gs. ref_type ref = Some (g_type g) \<and> ref_id ref = Some (g_resource g) \<and> op \<in> g_permissions g)"
    by (auto simp: granted_at_def target_of_def granted_found [OF inv] grant_found [OF inv] gs grants_for_community_def
        inv_rows [OF inv] split: option.splits)
  then show ?thesis
    using roles effective_iff [OF inv, of op u ref] assms(2,3)
    by (auto simp: can_def require_known_permission_def is_platform_admin_permission_def ALL_PERMISSIONS_def)
qed

end
