(* ===== verification/Community_Witness.thy ===== *)
theory Community_Witness
  imports Community_Props
begin

text \<open>
  A concrete run of the community context: user u1 provisions a community, user u2 joins, u1 makes a role
  with two permissions and assigns it to u2. The properties of the context are applied to it.
\<close>

definition every_user :: "user_id \<Rightarrow> bool" where
  "every_user u = True"

definition no_username :: "string \<Rightarrow> user_id option" where
  "no_username n = None"

definition demo_start :: cdb where
  "demo_start =
     \<lparr>communities = [(''c'', \<lparr>com_id = ''c'', com_name = ''Mine'', com_created = 0, com_updated = 0,
                              max_servers = None, max_members = None\<rparr>)],
      memberships = [(''m1'', \<lparr>m_id = ''m1'', m_user = ''u1'', m_community = ''c'', m_created = 0\<rparr>)],
      roles = [(''r1'', \<lparr>r_id = ''r1'', r_community = ''c'', r_name = OWNER_ROLE_NAME,
                        r_permissions = COMMUNITY_PERMISSIONS, r_created = 0, r_updated = 0, is_preset = True\<rparr>)],
      assignments = [(''m1'', ''r1'')], grants = [], server_rows = []\<rparr>"

definition demo_joined :: cdb where
  "demo_joined = demo_start\<lparr>memberships := memberships demo_start @
     [(''m2'', \<lparr>m_id = ''m2'', m_user = ''u2'', m_community = ''c'', m_created = 5\<rparr>)]\<rparr>"

definition reader_role :: role where
  "reader_role = \<lparr>r_id = ''r2'', r_community = ''c'', r_name = ''Reader'', r_permissions = {''server:read'', ''file:read''},
     r_created = 6, r_updated = 6, is_preset = False\<rparr>"

definition demo_role :: cdb where
  "demo_role = demo_joined\<lparr>roles := roles demo_start @ [(''r2'', reader_role)]\<rparr>"

definition demo_end :: cdb where
  "demo_end = demo_role\<lparr>assignments := [(''m1'', ''r1''), (''m2'', ''r2'')]\<rparr>"

definition in_demo :: resource_ref where
  "in_demo = \<lparr>ref_community = ''c'', ref_type = None, ref_id = None\<rparr>"

lemmas demo_defs = demo_start_def demo_joined_def demo_role_def demo_end_def reader_role_def

lemma known_codes: "''server:read'' \<in> COMMUNITY_PERMISSIONS" "''file:read'' \<in> COMMUNITY_PERMISSIONS"
  by (simp_all add: COMMUNITY_PERMISSIONS_def)

lemma demo_start_step:
  "comm_step every_user no_username empty_cdb (ProvisionCommunity 0 ''c'' ''r1'' ''m1'' '' Mine '' ''u1'') = Inr demo_start"
  by (simp add: state_of_def provision_community_def mk_community_name_def every_user_def insert_community_def
      insert_role_def insert_membership_def insert_assignment_def get_by_user_and_community_def empty_cdb_def
      demo_start_def dvalues_def Let_def strip_def lstrip_def is_space_def)

lemma demo_reachable: "comm_reachable demo_start"
  by (rule comm_reachable.step [OF comm_reachable.start demo_start_step])

lemma demo_join_step:
  "comm_step every_user no_username demo_start (AddMember 5 ''m2'' ''c'' (Some ''u2'') None) = Inr demo_joined"
  by (simp add: state_of_def add_member_def every_user_def insert_membership_def get_by_user_and_community_def
      demo_defs dvalues_def Let_def)

lemma demo_role_step:
  "comm_step every_user no_username demo_joined (CreateRole 6 ''r2'' ''c'' ''u1'' ''Reader'' {''server:read'', ''file:read''}) =
     Inr demo_role"
  using known_codes
  by (simp add: state_of_def create_role_def mk_role_name_def validate_permissions_def enforce_permission_ceiling_def
      lock_actor_ceiling_def check_permission_ceiling_def hold_for_users_def lock_by_ids_def lock_role_ids_def
      list_role_ids_def map_filter_simps insert_role_def demo_defs dvalues_def Let_def strip_def lstrip_def is_space_def OWNER_ROLE_NAME_def)

lemma demo_assign_step:
  "comm_step every_user no_username demo_role (AssignRole ''c'' ''u2'' ''r2'' ''u1'') = Inr demo_end"
  using known_codes
  by (simp add: assign_role_def lock_actor_ceiling_def check_permission_ceiling_def hold_for_users_def lock_by_ids_def
      lock_role_ids_def list_role_ids_def map_filter_simps insert_assignment_def demo_defs dvalues_def Let_def conj_disj_distribL conj_disj_distribR ex_disj_distrib)

lemma demo_run: "works_by {''u1''} demo_start demo_end"
  by (rule works_by.then_do [OF works_by.then_do [OF works_by.then_do [OF works_by.begin_with demo_join_step]
        demo_role_step] demo_assign_step]) simp_all

theorem collusion_bounded_witness:
  "effective_permissions demo_end ''u2'' in_demo = {''server:read'', ''file:read''} \<and>
   effective_permissions demo_start ''u2'' in_demo = {} \<and>
   {''server:read'', ''file:read''} \<subseteq> effective_permissions demo_start ''u1'' in_demo"
proof -
  have "effective_permissions demo_end ''u2'' in_demo = {''server:read'', ''file:read''}"
    by (simp add: effective_permissions_def get_by_user_and_community_def roles_by_ids_def list_role_ids_def in_demo_def
        demo_defs dvalues_def Let_def)
  moreover have "effective_permissions demo_start ''u2'' in_demo = {}"
    by (simp add: effective_permissions_def get_by_user_and_community_def in_demo_def demo_defs dvalues_def)
  ultimately show ?thesis using collusion_bounded [OF demo_reachable demo_run, of "''u2''" in_demo] by simp
qed



text \<open>
  The window is real: the deletion of u1 passes its check, u1 then becomes the owner of a new community,
  and the delete leaves that community with no member at all.
\<close>

lemma overtaken_deletion_orphans:
  "\<exists>s lost. deletion_run s [] lost \<and> dget (communities s) ''c'' \<noteq> None \<and> memberships s = [] \<and> ''c'' \<in> lost"
proof -
  have "check_ownership empty_cdb ''u1'' = Inr ()"
    by (simp add: check_ownership_def owns_any_community_def memberships_of_user_def empty_cdb_def dvalues_def)
  from deletion_run.checked [OF deletion_run.start this] have "deletion_run empty_cdb [''u1''] {}" .
  from deletion_run.request [OF this demo_start_step] have "deletion_run demo_start [''u1''] {}" by simp
  from deletion_run.deleted [OF this, of "''u1''" every_user no_username]
  have "deletion_run (purge_user demo_start ''u1'') [] {c. owned_alone demo_start ''u1'' c}" by simp
  moreover have "owned_alone demo_start ''u1'' ''c''"
    by (simp add: owned_alone_def is_preset_owner_def list_roles_def lock_owner_role_holders_def memberships_of_user_def
        demo_start_def dvalues_def Let_def)
  moreover have "dget (communities (purge_user demo_start ''u1'')) ''c'' \<noteq> None" "memberships (purge_user demo_start ''u1'') = []"
    by (simp_all add: purge_user_def delete_membership_def memberships_of_user_def demo_start_def dvalues_def)
  ultimately show ?thesis by blast
qed

theorem introspection_agrees_witness:
  "can demo_start \<lparr>au_user = ''u1'', is_platform_admin = False\<rparr> ''server:read'' in_demo = Inr True \<and>
   can demo_start \<lparr>au_user = ''u1'', is_platform_admin = False\<rparr> ''worker:manage'' in_demo = Inr False"
proof -
  have r: "read_my_effective_permissions demo_start ''u1'' ''c'' = (COMMUNITY_PERMISSIONS, [])"
    by (simp add: read_my_effective_permissions_def get_by_user_and_community_def roles_by_ids_def list_role_ids_def
        grants_for_community_def demo_start_def dvalues_def)
  show ?thesis
    using introspection_agrees [OF demo_reachable _ _ r, of "\<lparr>au_user = ''u1'', is_platform_admin = False\<rparr>" in_demo] known_codes
    by (simp add: in_demo_def PLATFORM_ADMIN_PERMISSIONS_def)
qed

end
