(* ===== verification/Server_Properties.thy ===== *)
theory Server_Properties
  imports Prelude
begin

text \<open>
  The \<open>server.properties\<close> editor (\<open>servers/domain/server_properties.py\<close>): the reader of Java's
  \<open>.properties\<close> format with its bulk scanners, the escaping writer, the one-key and the batched rewrite,
  and the platform's own edits of the file. A byte is a \<open>char\<close>; a Python string is the list of its code
  points. A compiled pattern of the source is the function that consumes what the pattern matches at the
  front of the remaining bytes: every quantifier of the source is possessive, so a pattern never gives
  back what it took.
\<close>

section \<open>Bytes and text\<close>

type_synonym bytes = "char list"
type_synonym pystr = "nat list"

abbreviation CR :: char where "CR \<equiv> CHR 0x0D"
abbreviation LF :: char where "LF \<equiv> CHR 0x0A"
abbreviation BS :: char where "BS \<equiv> CHR 0x5C"

definition latin1 :: "bytes \<Rightarrow> pystr" where
  \<comment> \<open>\<open>raw.decode("latin-1")\<close>\<close>
  "latin1 = map of_char"

definition to_latin1 :: "pystr \<Rightarrow> bytes" where
  \<comment> \<open>\<open>line.encode("latin-1")\<close>, on ASCII text\<close>
  "to_latin1 = map char_of"

definition BLANKS :: bytes where
  "BLANKS = [CHR 0x20, CHR 0x09, CHR 0x0C]"

definition is_blank :: "char \<Rightarrow> bool" where
  "is_blank c \<longleftrightarrow> c \<in> set BLANKS"

definition is_eol :: "char \<Rightarrow> bool" where
  "is_eol c \<longleftrightarrow> c = CR \<or> c = LF"

definition is_mark :: "char \<Rightarrow> bool" where
  \<comment> \<open>starts a comment\<close>
  "is_mark c \<longleftrightarrow> c = CHR ''#'' \<or> c = CHR ''!''"

definition is_sep :: "char \<Rightarrow> bool" where
  "is_sep c \<longleftrightarrow> c = CHR ''='' \<or> c = CHR '':''"

definition lstrip_blanks :: "bytes \<Rightarrow> bytes" where
  "lstrip_blanks = dropWhile is_blank"

definition ends_in :: "bytes \<Rightarrow> bytes \<Rightarrow> bool" where
  \<comment> \<open>\<open>content.endswith(tail)\<close>\<close>
  "ends_in content tail \<longleftrightarrow> length tail \<le> length content \<and> drop (length content - length tail) content = tail"

section \<open>The scanners\<close>

fun eat_eol :: "bytes \<Rightarrow> bytes option" where
  \<comment> \<open>the terminator alternatives of every pattern: CR LF taken whole, a lone CR, a lone LF\<close>
  "eat_eol [] = None"
| "eat_eol (c # cs) =
     (if c = CR then Some (case cs of d # ds \<Rightarrow> if d = LF then ds else cs | [] \<Rightarrow> [])
      else if c = LF then Some cs
      else None)"

definition natural_line :: "bytes \<Rightarrow> bytes \<times> bytes" where
  "natural_line rest =
     (let after = dropWhile (\<lambda>c. \<not> is_eol c) rest
      in (takeWhile (\<lambda>c. \<not> is_eol c) rest, case eat_eol after of None \<Rightarrow> after | Some r \<Rightarrow> r))"

definition skip_sep :: "bytes \<Rightarrow> bytes" where
  \<comment> \<open>blanks, one optional separator, further blanks\<close>
  "skip_sep rest =
     (case dropWhile is_blank rest of
        [] \<Rightarrow> []
      | c # cs \<Rightarrow> if is_sep c then dropWhile is_blank cs else c # cs)"

definition key_char :: "char \<Rightarrow> bool" where
  "key_char c \<longleftrightarrow> c \<noteq> BS \<and> \<not> is_sep c \<and> \<not> is_blank c \<and> \<not> is_eol c"

definition plain_property :: "bytes \<Rightarrow> (bytes \<times> bytes \<times> bytes) option" where
  "plain_property rest =
     (case dropWhile is_blank rest of
        [] \<Rightarrow> None
      | c # cs \<Rightarrow>
          if \<not> key_char c \<or> is_mark c then None
          else
            let key = c # takeWhile key_char cs;
                v = skip_sep (dropWhile key_char cs);
                value = takeWhile (\<lambda>d. d \<noteq> BS \<and> \<not> is_eol d) v;
                after = dropWhile (\<lambda>d. d \<noteq> BS \<and> \<not> is_eol d) v
            in (case eat_eol after of
                  Some r \<Rightarrow> Some (key, value, r)
                | None \<Rightarrow> if after = [] then Some (key, value, []) else None))"

lemma eat_eol_less: "eat_eol r = Some r' \<Longrightarrow> length r' < length r"
  by (cases r) (auto split: if_splits list.splits)

lemma eat_eol_None: "eat_eol r = None \<longleftrightarrow> r = [] \<or> \<not> is_eol (hd r)"
  by (cases r) (auto simp: is_eol_def)

lemma after_line: "dropWhile (\<lambda>c. \<not> is_eol c) r = [] \<or> is_eol (hd (dropWhile (\<lambda>c. \<not> is_eol c) r))"
  using hd_dropWhile by blast

lemma natural_line_less:
  assumes "rest \<noteq> []" shows "length (snd (natural_line rest)) < length rest"
proof (cases "eat_eol (dropWhile (\<lambda>c. \<not> is_eol c) rest)")
  case None
  then have "dropWhile (\<lambda>c. \<not> is_eol c) rest = []" using after_line [of rest] by (simp only: eat_eol_None) blast
  then show ?thesis using assms None by (simp only: natural_line_def Let_def option.case snd_conv) simp
next
  case (Some r)
  then show ?thesis
    using length_dropWhile_le [of "\<lambda>c. \<not> is_eol c" rest] eat_eol_less [OF Some]
    by (simp only: natural_line_def Let_def option.case snd_conv)
qed

function skipped_lines :: "bytes \<Rightarrow> bytes" where
  "skipped_lines rest =
     (let r = dropWhile is_blank rest;
          r' = (case r of c # cs \<Rightarrow> if is_mark c then dropWhile (\<lambda>d. \<not> is_eol d) cs else r | [] \<Rightarrow> r)
      in case eat_eol r' of Some after \<Rightarrow> skipped_lines after | None \<Rightarrow> rest)"
  by pat_completeness auto
termination
proof (relation "measure length")
  fix rest r r' :: bytes and after
  assume a: "r = dropWhile is_blank rest" "r' = (case r of c # cs \<Rightarrow> if is_mark c then dropWhile (\<lambda>d. \<not> is_eol d) cs else r | [] \<Rightarrow> r)"
    and e: "eat_eol r' = Some after"
  have "length r \<le> length rest" by (simp add: a(1) length_dropWhile_le)
  moreover have "length r' \<le> length r"
    using length_dropWhile_le [of "\<lambda>d. \<not> is_eol d"] by (auto simp: a(2) le_SucI split: list.splits)
  ultimately show "(after, rest) \<in> measure length" using eat_eol_less [OF e] by simp
qed simp

function lone_backslash_lines :: "bytes \<Rightarrow> bytes" where
  "lone_backslash_lines rest =
     (case dropWhile is_blank rest of
        c # cs \<Rightarrow> if c = BS then (case eat_eol cs of Some after \<Rightarrow> lone_backslash_lines after | None \<Rightarrow> rest) else rest
      | [] \<Rightarrow> rest)"
  by pat_completeness auto
termination
proof (relation "measure length")
  fix rest c cs after
  assume "dropWhile is_blank rest = c # cs" "eat_eol cs = Some after"
  then have "length (c # cs) \<le> length rest" "length after < length cs"
    using length_dropWhile_le [of is_blank rest] eat_eol_less by auto
  then show "(after, rest) \<in> measure length" by simp
qed simp

fun line_body :: "bytes \<Rightarrow> bytes" where
  \<comment> \<open>characters and escaped characters, up to a terminator or an unpaired backslash\<close>
  "line_body [] = []"
| "line_body [c] = (if c = BS \<or> is_eol c then [c] else [])"
| "line_body (c # d # r) =
     (if is_eol c then c # d # r
      else if c = BS then (if is_eol d then c # d # r else line_body r)
      else line_body (d # r))"

lemma line_body_le: "length (line_body r) \<le> length r"
  by (induction r rule: line_body.induct) auto

function continued_lines :: "bytes \<Rightarrow> bytes" where
  "continued_lines rest =
     (case line_body rest of
        c # cs \<Rightarrow> if c = BS then (case eat_eol cs of Some after \<Rightarrow> continued_lines after | None \<Rightarrow> rest) else rest
      | [] \<Rightarrow> rest)"
  by pat_completeness auto
termination
proof (relation "measure length")
  fix rest c cs after
  assume "line_body rest = c # cs" "eat_eol cs = Some after"
  then have "length (c # cs) \<le> length rest" "length after < length cs" using line_body_le [of rest] eat_eol_less by auto
  then show "(after, rest) \<in> measure length" by simp
qed simp

function join_continuations :: "bytes \<Rightarrow> bytes" where
  \<comment> \<open>\<open>_LINE_CONTINUATION.sub(b"", middle)\<close>\<close>
  "join_continuations [] = []"
| "join_continuations (c # cs) =
     (case (if c = BS then eat_eol cs else None) of
        Some r \<Rightarrow> join_continuations (dropWhile is_blank r)
      | None \<Rightarrow> c # join_continuations cs)"
  by pat_completeness auto
termination
proof (relation "measure length")
  fix c :: char and cs r
  assume "(if c = BS then eat_eol cs else None) = Some r"
  then have "length r < length cs" using eat_eol_less by (auto split: if_splits)
  then show "(dropWhile is_blank r, c # cs) \<in> measure length"
    using length_dropWhile_le [of is_blank r] by simp
qed simp_all

declare skipped_lines.simps [simp del] lone_backslash_lines.simps [simp del] continued_lines.simps [simp del]

definition ends_with_odd_backslash :: "bytes \<Rightarrow> bool" where
  "ends_with_odd_backslash line \<longleftrightarrow> odd (length (takeWhile (\<lambda>c. c = BS) (rev line)))"

section \<open>Keys, values and escapes\<close>

fun key_part :: "bytes \<Rightarrow> bytes \<times> bytes" where
  \<comment> \<open>the key group of \<open>_KEY_SEPARATOR\<close> and what follows it\<close>
  "key_part [] = ([], [])"
| "key_part (c # r) =
     (if c = BS then (case r of [] \<Rightarrow> ([c], []) | d # r' \<Rightarrow> let (k, after) = key_part r' in (c # d # k, after))
      else if is_sep c \<or> is_blank c then ([], c # r)
      else let (k, after) = key_part r in (c # k, after))"

definition hex_digit :: "nat \<Rightarrow> nat option" where
  "hex_digit c =
     (if 48 \<le> c \<and> c \<le> 57 then Some (c - 48)
      else if 97 \<le> c \<and> c \<le> 102 then Some (c - 87)
      else if 65 \<le> c \<and> c \<le> 70 then Some (c - 55)
      else None)"

definition hex4 :: "pystr \<Rightarrow> (nat \<times> pystr) option" where
  \<comment> \<open>four hexadecimal digits, as \<open>int(unit, 16)\<close>\<close>
  "hex4 s =
     (case s of
        a # b # c # d # r \<Rightarrow>
          (case (hex_digit a, hex_digit b, hex_digit c, hex_digit d) of
             (Some w, Some x, Some y, Some z) \<Rightarrow> Some (((w * 16 + x) * 16 + y) * 16 + z, r)
           | _ \<Rightarrow> None)
      | _ \<Rightarrow> None)"

definition low_escape :: "pystr \<Rightarrow> (nat \<times> pystr) option" where
  \<comment> \<open>a backslash, \<open>u\<close> and the four digits of a low surrogate\<close>
  "low_escape s =
     (case s of
        b # u # r \<Rightarrow>
          if b = 92 \<and> u = 117 then
            (case hex4 r of Some (w, r') \<Rightarrow> if 0xDC00 \<le> w \<and> w \<le> 0xDFFF then Some (w, r') else None | None \<Rightarrow> None)
          else None
      | _ \<Rightarrow> None)"

definition simple_escape :: "nat \<Rightarrow> nat" where
  \<comment> \<open>\<open>_SIMPLE_ESCAPES\<close>: t, r, n and f name a control character\<close>
  "simple_escape c = (if c = 116 then 9 else if c = 114 then 13 else if c = 110 then 10 else if c = 102 then 12 else c)"

definition unicode_unescape :: "nat \<Rightarrow> nat option \<Rightarrow> pystr" where
  "unicode_unescape high low =
     (case low of
        None \<Rightarrow> [high]
      | Some l \<Rightarrow> if 0xD800 \<le> high \<and> high \<le> 0xDBFF then [0x10000 + (high - 0xD800) * 1024 + (l - 0xDC00)]
                  else [high, l])"

lemma hex4_less: "hex4 s = Some (w, r) \<Longrightarrow> length r < length s"
  by (auto simp: hex4_def split: list.splits option.splits)

lemma low_escape_less: "low_escape s = Some (w, r) \<Longrightarrow> length r < length s"
  using hex4_less by (fastforce simp: low_escape_def split: list.splits option.splits if_splits)

function unescape_all :: "pystr \<Rightarrow> pystr" where
  \<comment> \<open>\<open>_ESCAPE.sub(_unescape, text)\<close>\<close>
  "unescape_all [] = []"
| "unescape_all (c # r) =
     (if c \<noteq> 92 then c # unescape_all r
      else case r of
             [] \<Rightarrow> [92]
           | d # r' \<Rightarrow>
               (case (if d = 117 then hex4 r' else None) of
                  None \<Rightarrow> simple_escape d # unescape_all r'
                | Some (high, r1) \<Rightarrow>
                    (case low_escape r1 of
                       None \<Rightarrow> unicode_unescape high None @ unescape_all r1
                     | Some (low, r2) \<Rightarrow> unicode_unescape high (Some low) @ unescape_all r2)))"
  by pat_completeness auto
termination
  by (relation "measure length") (auto split: if_splits dest!: hex4_less low_escape_less)

fun unescape_simple :: "pystr \<Rightarrow> pystr" where
  \<comment> \<open>the split and translation of text without a Unicode escape\<close>
  "unescape_simple [] = []"
| "unescape_simple [c] = [c]"
| "unescape_simple (c # d # r) = (if c = 92 then simple_escape d # unescape_simple r else c # unescape_simple (d # r))"

fun has_unicode_escape :: "pystr \<Rightarrow> bool" where
  \<comment> \<open>the two characters backslash, u occur in the text\<close>
  "has_unicode_escape (c # d # r) \<longleftrightarrow> c = 92 \<and> d = 117 \<or> has_unicode_escape (d # r)"
| "has_unicode_escape _ \<longleftrightarrow> False"

definition load_convert :: "bytes \<Rightarrow> pystr" where
  "load_convert raw =
     (let s = latin1 raw
      in if 92 \<notin> set s then s
         else if has_unicode_escape s then unescape_all s
         else unescape_simple s)"

definition split_key_value :: "bytes \<Rightarrow> pystr \<times> pystr" where
  "split_key_value line = (let (k, r) = key_part line in (load_convert k, load_convert (skip_sep r)))"

section \<open>The reader\<close>

record property =
  p_key :: pystr
  p_value :: pystr
  p_start :: nat
  p_end :: nat

text \<open>
  One turn of the loop of \<open>_parse\<close> on the remaining bytes: the property it appends, if any, and what
  remains. \<open>crlf\<close> says whether the whole content ends in CR LF.
\<close>

definition continue_line :: "bytes \<Rightarrow> bytes \<Rightarrow> bytes \<times> bytes" where
  "continue_line line rest =
     (let continued_end = continued_lines rest;
          middle = take (length rest - length continued_end) rest;
          (last_line, rest') = natural_line continued_end;
          stripped = lstrip_blanks last_line;
          end_part = (if ends_with_odd_backslash stripped then butlast stripped else stripped)
      in (butlast line @ lstrip_blanks (join_continuations middle) @ end_part, rest'))"

definition lead_in :: "bytes \<Rightarrow> bytes \<Rightarrow> bytes \<times> bytes" where
  \<comment> \<open>past a run of lone backslashes, the line the logical line starts on\<close>
  "lead_in line rest =
     (if line = [BS] \<and> rest \<noteq> [] then
        let rest' = lone_backslash_lines rest
        in if rest' \<noteq> [] then let (l, r) = natural_line rest' in (lstrip_blanks l, r) else (line, rest')
      else (line, rest))"

definition general_property :: "bool \<Rightarrow> bytes \<Rightarrow> (pystr \<times> pystr) option \<times> bytes" where
  "general_property crlf content =
     (let (l, r) = natural_line content;
          (line, rest) = lead_in (lstrip_blanks l) r
      in if line = [BS] \<and> crlf then (None, rest)
         else if line = [] \<or> is_mark (hd line) then (None, skipped_lines rest)
         else
           let (logical, rest') = (if ends_with_odd_backslash line then continue_line line rest else (line, rest))
           in (Some (split_key_value logical), rest'))"

definition next_property :: "bool \<Rightarrow> bytes \<Rightarrow> (pystr \<times> pystr) option \<times> bytes" where
  "next_property crlf rest =
     (case plain_property rest of
        Some (key, value, r) \<Rightarrow> (Some (latin1 key, latin1 value), r)
      | None \<Rightarrow> general_property crlf rest)"

lemma skipped_lines_le: "length (skipped_lines rest) \<le> length rest"
proof (induction rest rule: skipped_lines.induct)
  case (1 rest)
  let ?r = "dropWhile is_blank rest"
  let ?r' = "case ?r of c # cs \<Rightarrow> if is_mark c then dropWhile (\<lambda>d. \<not> is_eol d) cs else ?r | [] \<Rightarrow> ?r"
  show ?case
  proof (cases "eat_eol ?r'")
    case None
    then show ?thesis by (subst skipped_lines.simps) (simp add: Let_def)
  next
    case (Some after)
    have "length ?r' \<le> length ?r"
      using length_dropWhile_le [of "\<lambda>d. \<not> is_eol d"] by (auto simp: le_SucI split: list.splits)
    then have "length after < length rest"
      using eat_eol_less [OF Some] length_dropWhile_le [of is_blank rest] by linarith
    then show ?thesis using "1.IH" [OF refl refl Some] Some by (subst skipped_lines.simps) (simp add: Let_def)
  qed
qed

lemma lone_backslash_lines_le: "length (lone_backslash_lines rest) \<le> length rest"
proof (induction rest rule: lone_backslash_lines.induct)
  case (1 rest)
  have "length (lone_backslash_lines after) \<le> length rest"
    if a: "dropWhile is_blank rest = BS # cs" "eat_eol cs = Some after" for cs after
    using "1.IH" [OF a(1) refl a(2)] eat_eol_less [OF a(2)] length_dropWhile_le [of is_blank rest] a(1) by simp
  then show ?case by (subst lone_backslash_lines.simps) (auto split: list.splits option.splits)
qed

lemma continued_lines_le: "length (continued_lines rest) \<le> length rest"
proof (induction rest rule: continued_lines.induct)
  case (1 rest)
  have "length (continued_lines after) \<le> length rest"
    if a: "line_body rest = BS # cs" "eat_eol cs = Some after" for cs after
    using "1.IH" [OF a(1) refl a(2)] eat_eol_less [OF a(2)] line_body_le [of rest] a(1) by simp
  then show ?case by (subst continued_lines.simps) (auto split: list.splits option.splits)
qed

lemma natural_line_le: "length (snd (natural_line rest)) \<le> length rest"
  using natural_line_less [of rest] by (cases "rest = []") (auto simp: natural_line_def)

lemma skip_sep_le: "length (skip_sep r) \<le> length r"
  using length_dropWhile_le [of is_blank r] length_dropWhile_le [of is_blank "tl (dropWhile is_blank r)"]
  by (auto simp: skip_sep_def split: list.splits)

lemma plain_property_less: "plain_property rest = Some (k, v, r) \<Longrightarrow> length r < length rest"
proof -
  assume a: "plain_property rest = Some (k, v, r)"
  then obtain c cs where c: "dropWhile is_blank rest = c # cs" by (auto simp: plain_property_def split: list.splits)
  define v0 where "v0 = skip_sep (dropWhile key_char cs)"
  define after where "after = dropWhile (\<lambda>d. d \<noteq> BS \<and> \<not> is_eol d) v0"
  have "length after \<le> length cs"
    unfolding after_def v0_def by (meson length_dropWhile_le order_trans skip_sep_le)
  moreover have "length r \<le> length after"
    using a eat_eol_less [of after] unfolding after_def v0_def
    by (auto simp: plain_property_def c Let_def split: option.splits if_splits intro: less_imp_le)
  moreover have "length cs < length rest" using length_dropWhile_le [of is_blank rest] by (simp add: c)
  ultimately show ?thesis by simp
qed

lemma lead_in_le: "length (snd (lead_in line rest)) \<le> length rest"
  using natural_line_le [of "lone_backslash_lines rest"] lone_backslash_lines_le [of rest]
  by (auto simp: lead_in_def Let_def split: prod.splits)

lemma general_property_less:
  assumes "content \<noteq> []" shows "length (snd (general_property crlf content)) < length content"
proof -
  obtain l r where n: "natural_line content = (l, r)" by fastforce
  obtain line rest where i: "lead_in (lstrip_blanks l) r = (line, rest)" by fastforce
  have r: "length rest < length content"
    using natural_line_less [OF assms] lead_in_le [of "lstrip_blanks l" r] by (simp add: n i)
  have "length (snd (natural_line (continued_lines rest))) \<le> length rest"
    using natural_line_le [of "continued_lines rest"] continued_lines_le [of rest] by linarith
  then have c: "length (snd (continue_line line rest)) \<le> length rest"
    by (auto simp: continue_line_def Let_def split: prod.splits)
  show ?thesis using r c skipped_lines_le [of rest]
    by (auto simp: general_property_def n i Let_def split: prod.splits)
qed

lemma next_property_less:
  assumes "rest \<noteq> []" shows "length (snd (next_property crlf rest)) < length rest"
  using general_property_less [OF assms] plain_property_less [of rest]
  by (auto simp: next_property_def split: option.splits)

function parse_at :: "nat \<Rightarrow> bool \<Rightarrow> bytes \<Rightarrow> property list" where
  "parse_at whole crlf rest =
     (if rest = [] then []
      else let (found, rest') = next_property crlf rest
           in (case found of
                 None \<Rightarrow> []
               | Some (k, v) \<Rightarrow> [\<lparr>p_key = k, p_value = v, p_start = whole - length rest, p_end = whole - length rest'\<rparr>]) @
              parse_at whole crlf rest')"
  by pat_completeness auto
termination
proof (relation "measure (\<lambda>(whole, crlf, rest). length rest)")
  fix whole :: nat and crlf rest x found rest'
  assume "rest \<noteq> []" "x = next_property crlf rest" "(found, rest') = x"
  then show "((whole, crlf, rest'), (whole, crlf, rest)) \<in> measure (\<lambda>(whole, crlf, rest). length rest)"
    using next_property_less [of rest crlf] by (metis case_prod_conv in_measure snd_conv)
qed simp

declare parse_at.simps [simp del]

definition parse :: "bytes \<Rightarrow> property list" where
  "parse content = parse_at (length content) (ends_in content [CR, LF]) content"

section \<open>The writer\<close>

definition normalize :: "bytes \<Rightarrow> bytes" where
  "normalize content = (if ends_in content [LF] then content else content @ [LF])"

definition raw_values :: "bytes \<Rightarrow> pystr \<Rightarrow> pystr list" where
  "raw_values content key = map p_value (filter (\<lambda>p. p_key p = key) (parse content))"

definition get_property :: "bytes \<Rightarrow> pystr \<Rightarrow> pystr option" where
  "get_property content key = (let values = raw_values content key in if values = [] then None else Some (last values))"

definition slice :: "bytes \<Rightarrow> nat \<Rightarrow> nat \<Rightarrow> bytes" where
  \<comment> \<open>\<open>content[i:j]\<close>\<close>
  "slice content i j = take (j - i) (drop i content)"

fun clear_loop :: "bytes \<Rightarrow> pystr \<Rightarrow> bytes \<Rightarrow> nat \<Rightarrow> property list \<Rightarrow> bytes" where
  "clear_loop content key out cursor [] = out @ drop cursor content"
| "clear_loop content key out cursor (p # ps) =
     (if p_key p \<noteq> key then clear_loop content key out cursor ps
      else clear_loop content key (out @ slice content cursor (p_start p)) (p_end p) ps)"

definition clear_property :: "bytes \<Rightarrow> pystr \<Rightarrow> bytes" where
  "clear_property content key = clear_loop content key [] 0 (parse content)"

definition hex_char :: "nat \<Rightarrow> nat" where
  \<comment> \<open>one upper-case hexadecimal digit\<close>
  "hex_char n = (if n < 10 then 48 + n else 55 + n)"

definition utf16_units :: "nat \<Rightarrow> nat list" where
  \<comment> \<open>\<open>char.encode("utf-16-be", "surrogatepass")\<close>, by units\<close>
  "utf16_units c = (if c < 0x10000 then [c] else [0xD800 + (c - 0x10000) div 1024, 0xDC00 + (c - 0x10000) mod 1024])"

definition unicode_escape :: "nat \<Rightarrow> pystr" where
  "unicode_escape u =
     [92, 117, hex_char (u div 4096 mod 16), hex_char (u div 256 mod 16), hex_char (u div 16 mod 16), hex_char (u mod 16)]"

definition escape_char :: "nat \<Rightarrow> pystr" where
  "escape_char c =
     (if c = 92 then [92, 92] else if c = 10 then [92, 110] else if c = 13 then [92, 114]
      else if c = 9 then [92, 116] else if c = 12 then [92, 102]
      else if 0x20 \<le> c \<and> c \<le> 0x7E then [c]
      else concat (map unicode_escape (utf16_units c)))"

definition SPECIALS :: "nat set" where
  "SPECIALS = {61, 58, 35, 33, 32}"

definition escape_key :: "pystr \<Rightarrow> pystr" where
  "escape_key key = concat (map (\<lambda>c. if c \<in> SPECIALS then [92, c] else escape_char c) key)"

definition escape_value :: "pystr \<Rightarrow> pystr" where
  "escape_value v =
     (let escaped = concat (map escape_char v)
      in case v of c # _ \<Rightarrow> if c \<in> SPECIALS then 92 # escaped else escaped | [] \<Rightarrow> escaped)"

definition property_line :: "pystr \<Rightarrow> pystr \<Rightarrow> bytes" where
  "property_line key v = to_latin1 (escape_key key @ [61] @ escape_value v)"

fun set_loop :: "bytes \<Rightarrow> bytes \<Rightarrow> bytes \<Rightarrow> nat \<Rightarrow> bool \<Rightarrow> property list \<Rightarrow> bytes" where
  "set_loop content new_line out cursor first [] = out @ drop cursor content"
| "set_loop content new_line out cursor first (p # ps) =
     set_loop content new_line (out @ slice content cursor (p_start p) @ (if first then new_line @ [LF] else []))
       (p_end p) False ps"

definition set_property :: "bytes \<Rightarrow> pystr \<Rightarrow> pystr \<Rightarrow> bytes" where
  "set_property content key v =
     (let new_line = property_line key v;
          matches = filter (\<lambda>p. p_key p = key) (parse content)
      in if matches = [] then
           (if content \<noteq> [] \<and> \<not> ends_in content [LF] then content @ [LF] else content) @ new_line @ [LF]
         else normalize (set_loop content new_line [] 0 True matches))"

definition last_natural_line :: "bytes \<Rightarrow> bytes" where
  \<comment> \<open>\<open>tail[cut + 1:]\<close> for the last terminator before the one the content ends in\<close>
  "last_natural_line content =
     (let tail = (if ends_in content [CR, LF] then take (length content - 2) content
                  else if ends_in content [LF] \<or> ends_in content [CR] then butlast content
                  else content)
      in rev (takeWhile (\<lambda>c. \<not> is_eol c) (rev tail)))"

definition ends_in_dangling_continuation :: "bytes \<Rightarrow> property list \<Rightarrow> bool" where
  "ends_in_dangling_continuation content props \<longleftrightarrow>
     props \<noteq> [] \<and> p_end (last props) = length content \<and>
     ends_with_odd_backslash (lstrip_blanks (last_natural_line content))"

function splitlines :: "bytes \<Rightarrow> bytes list" where
  "splitlines b = (if b = [] then [] else let (l, r) = natural_line b in l # splitlines r)"
  by pat_completeness auto
termination
proof (relation "measure length")
  fix b x l r assume "b \<noteq> []" "x = natural_line b" "(l, r) = x"
  then show "(r, b) \<in> measure length" using natural_line_less [of b] by (metis in_measure snd_conv)
qed simp

declare splitlines.simps [simp del]

definition continuation_end :: "bytes \<Rightarrow> property \<Rightarrow> bytes" where
  "continuation_end content p =
     (if list_all (\<lambda>l. lstrip_blanks l = [BS]) (splitlines (slice content (p_start p) (p_end p)))
      then [CHR ''='', LF] else [LF])"

fun rewrite_loop ::
  "bytes \<Rightarrow> (pystr, bytes) dict \<Rightarrow> pystr set \<Rightarrow> bytes \<Rightarrow> nat \<Rightarrow> pystr list \<Rightarrow> property list \<Rightarrow> bytes \<times> nat \<times> pystr list" where
  "rewrite_loop content new_lines cleared out cursor written [] = (out, cursor, written)"
| "rewrite_loop content new_lines cleared out cursor written (p # ps) =
     (if dget new_lines (p_key p) = None \<and> p_key p \<notin> cleared
      then rewrite_loop content new_lines cleared out cursor written ps
      else
        let out = out @ slice content cursor (p_start p)
        in (case dget new_lines (p_key p) of
              Some l \<Rightarrow>
                if p_key p \<notin> set written
                then rewrite_loop content new_lines cleared (out @ l @ [LF]) (p_end p) (p_key p # written) ps
                else rewrite_loop content new_lines cleared out (p_end p) written ps
            | None \<Rightarrow> rewrite_loop content new_lines cleared out (p_end p) written ps))"

definition rewrite :: "bytes \<Rightarrow> property list \<Rightarrow> (pystr, pystr) dict \<Rightarrow> pystr set \<Rightarrow> bytes" where
  "rewrite content props values cleared =
     (let new_lines = map (\<lambda>(k, v). (k, property_line k v)) values;
          (out, cursor, written) = rewrite_loop content new_lines cleared [] 0 [] props;
          out = out @ drop cursor content;
          appended = map snd (filter (\<lambda>(k, l). k \<notin> set written) new_lines)
      in if appended = [] then out
         else (if out \<noteq> [] \<and> \<not> ends_in out [LF] then out @ [LF] else out) @
              (if cursor < length content \<and> ends_in_dangling_continuation content props
               then continuation_end content (last props) else []) @
              concat (map (\<lambda>l. l @ [LF]) appended))"

section \<open>The platform's edits\<close>

abbreviation ascii :: "string \<Rightarrow> pystr" where
  "ascii \<equiv> latin1"

definition PORT_KEY :: pystr where "PORT_KEY = ascii ''server-port''"
definition ENABLE_RCON_KEY :: pystr where "ENABLE_RCON_KEY = ascii ''enable-rcon''"
definition RCON_PORT_KEY :: pystr where "RCON_PORT_KEY = ascii ''rcon.port''"
definition RCON_PASSWORD_KEY :: pystr where "RCON_PASSWORD_KEY = ascii ''rcon.password''"
definition RESOURCE_PACK_KEY :: pystr where "RESOURCE_PACK_KEY = ascii ''resource-pack''"
definition RESOURCE_PACK_SHA1_KEY :: pystr where "RESOURCE_PACK_SHA1_KEY = ascii ''resource-pack-sha1''"
definition REQUIRE_RESOURCE_PACK_KEY :: pystr where "REQUIRE_RESOURCE_PACK_KEY = ascii ''require-resource-pack''"
definition RESOURCE_PACK_PROMPT_KEY :: pystr where "RESOURCE_PACK_PROMPT_KEY = ascii ''resource-pack-prompt''"

definition RCON_PORT :: nat where "RCON_PORT = 25575"

definition RESOURCE_PACK_KEYS :: "pystr set" where
  "RESOURCE_PACK_KEYS = {RESOURCE_PACK_KEY, RESOURCE_PACK_SHA1_KEY, REQUIRE_RESOURCE_PACK_KEY, RESOURCE_PACK_PROMPT_KEY}"

definition PLATFORM_MANAGED_KEYS :: "pystr set" where
  "PLATFORM_MANAGED_KEYS = {PORT_KEY, ENABLE_RCON_KEY, RCON_PORT_KEY, RCON_PASSWORD_KEY} \<union> RESOURCE_PACK_KEYS"

function decimal :: "nat \<Rightarrow> pystr" where
  \<comment> \<open>\<open>str(port)\<close>\<close>
  "decimal n = (if n < 10 then [48 + n] else decimal (n div 10) @ [48 + n mod 10])"
  by pat_completeness auto
termination by (relation "measure id") auto

declare decimal.simps [simp del]

definition py_bool :: "bool \<Rightarrow> pystr" where
  "py_bool b = (if b then ascii ''true'' else ascii ''false'')"

definition set_server_port :: "bytes \<Rightarrow> nat \<Rightarrow> bytes" where
  "set_server_port content port = set_property content PORT_KEY (decimal port)"

definition set_rcon_properties :: "bytes \<Rightarrow> pystr \<Rightarrow> bytes" where
  "set_rcon_properties content password =
     (let content = set_property content ENABLE_RCON_KEY (py_bool True);
          content = set_property content RCON_PORT_KEY (decimal RCON_PORT)
      in (case get_property content RCON_PASSWORD_KEY of
            Some (_ # _) \<Rightarrow> content
          | _ \<Rightarrow> set_property content RCON_PASSWORD_KEY password))"

definition set_resource_pack_properties :: "bytes \<Rightarrow> pystr \<Rightarrow> pystr \<Rightarrow> bool \<Rightarrow> pystr option \<Rightarrow> bytes" where
  "set_resource_pack_properties content url sha1 require prompt =
     (let content = set_property content RESOURCE_PACK_KEY url;
          content = set_property content RESOURCE_PACK_SHA1_KEY sha1;
          content = set_property content REQUIRE_RESOURCE_PACK_KEY (py_bool require)
      in (case prompt of None \<Rightarrow> content | Some p \<Rightarrow> set_property content RESOURCE_PACK_PROMPT_KEY p))"

definition apply_overrides :: "bytes \<Rightarrow> (pystr, pystr) dict \<Rightarrow> bytes" where
  "apply_overrides content overrides = normalize (fold (\<lambda>(k, v) c. set_property c k v) overrides content)"

definition remove_keys :: "bytes \<Rightarrow> pystr set \<Rightarrow> bytes" where
  "remove_keys content keys = normalize (rewrite content (parse content) [] keys)"

fun collect_values :: "(pystr, pystr list) dict \<Rightarrow> property list \<Rightarrow> (pystr, pystr list) dict" where
  "collect_values values [] = values"
| "collect_values values (p # ps) =
     collect_values
       (if p_key p \<in> PLATFORM_MANAGED_KEYS
        then dset (p_key p) (dget_default values (p_key p) [] @ [p_value p]) values else values) ps"

definition platform_managed_values :: "bytes \<Rightarrow> (pystr, pystr list) dict" where
  "platform_managed_values content = collect_values [] (parse content)"

definition changed_platform_managed_keys :: "bytes \<Rightarrow> bytes \<Rightarrow> pystr list" where
  "changed_platform_managed_keys current incoming =
     (if current = incoming then []
      else
        let current_values = platform_managed_values current;
            incoming_values = platform_managed_values incoming
        in sorted_list_of_set
             (Set.filter (\<lambda>k. dget_default current_values k [] \<noteq> dget_default incoming_values k []) PLATFORM_MANAGED_KEYS))"

record resource_pack_properties =
  rp_url :: pystr
  rp_sha1 :: pystr
  rp_require :: bool
  rp_prompt :: "pystr option"

definition platform_values ::
  "property list \<Rightarrow> nat option \<Rightarrow> pystr \<Rightarrow> resource_pack_properties option \<Rightarrow> (pystr, pystr) dict" where
  "platform_values props game_port rcon_password resource_pack =
     (let passwords = map p_value (filter (\<lambda>p. p_key p = RCON_PASSWORD_KEY) props)
      in (case game_port of None \<Rightarrow> [] | Some n \<Rightarrow> [(PORT_KEY, decimal n)]) @
         [(ENABLE_RCON_KEY, py_bool True), (RCON_PORT_KEY, decimal RCON_PORT)] @
         (if passwords \<noteq> [] \<and> last passwords \<noteq> [] then [] else [(RCON_PASSWORD_KEY, rcon_password)]) @
         (case resource_pack of
            None \<Rightarrow> []
          | Some p \<Rightarrow>
              [(RESOURCE_PACK_KEY, rp_url p), (RESOURCE_PACK_SHA1_KEY, rp_sha1 p),
               (REQUIRE_RESOURCE_PACK_KEY, py_bool (rp_require p))] @
              (case rp_prompt p of None \<Rightarrow> [] | Some s \<Rightarrow> [(RESOURCE_PACK_PROMPT_KEY, s)])))"

definition platform_cleared :: "resource_pack_properties option \<Rightarrow> pystr set" where
  "platform_cleared resource_pack =
     (case resource_pack of
        None \<Rightarrow> RESOURCE_PACK_KEYS
      | Some p \<Rightarrow> (case rp_prompt p of None \<Rightarrow> {RESOURCE_PACK_PROMPT_KEY} | Some _ \<Rightarrow> {}))"

definition apply_platform_properties ::
  "bytes \<Rightarrow> nat option \<Rightarrow> pystr \<Rightarrow> resource_pack_properties option \<Rightarrow> bytes" where
  "apply_platform_properties content game_port rcon_password resource_pack =
     (let props = parse content
      in normalize (rewrite content props (platform_values props game_port rcon_password resource_pack)
           (platform_cleared resource_pack)))"

definition clear_resource_pack_properties :: "bytes \<Rightarrow> bytes" where
  "clear_resource_pack_properties content = normalize (rewrite content (parse content) [] RESOURCE_PACK_KEYS)"

end
