(* ===== verification/Properties_Reader.thy ===== *)
theory Properties_Reader
  imports Server_Properties
begin

text \<open>
  The bulk reader of \<open>server.properties\<close> against a reference reader that works as the Java line reader is
  documented: one natural line at a time, carrying the logical line read so far.
\<close>

section \<open>The reference reader\<close>

fun java_read :: "bytes option \<Rightarrow> bytes list \<Rightarrow> (pystr \<times> pystr) list" where
  \<comment> \<open>\<open>None\<close>: at the start of a logical line; \<open>Some acc\<close>: the line continues, \<open>acc\<close> read so far\<close>
  "java_read st [] = (case st of None \<Rightarrow> [] | Some acc \<Rightarrow> [split_key_value acc])"
| "java_read st (l # ls) =
     (let t = lstrip_blanks l; acc = (case st of None \<Rightarrow> [] | Some a \<Rightarrow> a)
      in if acc = [] \<and> (t = [] \<or> is_mark (hd t)) then java_read None ls
         else if ends_with_odd_backslash t then java_read (Some (acc @ butlast t)) ls
         else split_key_value (acc @ t) # java_read None ls)"

definition java_load :: "bytes \<Rightarrow> (pystr \<times> pystr) list" where
  \<comment> \<open>after a final CR LF the Java reader sees one more, empty, line\<close>
  "java_load content = java_read None (splitlines content @ (if ends_in content [CR, LF] then [[]] else []))"

section \<open>Backslash runs\<close>

lemma odd_Nil [simp]: "\<not> ends_with_odd_backslash []"
  by (simp add: ends_with_odd_backslash_def)

lemma odd_snoc [simp]: "ends_with_odd_backslash (x @ [c]) \<longleftrightarrow> c = BS \<and> \<not> ends_with_odd_backslash x"
  by (auto simp: ends_with_odd_backslash_def)

lemma odd_last: "ends_with_odd_backslash x \<Longrightarrow> x \<noteq> [] \<and> last x = BS"
  by (cases x rule: rev_cases) auto

lemma odd_even_append: "\<not> ends_with_odd_backslash x \<Longrightarrow> ends_with_odd_backslash (x @ y) = ends_with_odd_backslash y"
proof (induction y rule: rev_induct)
  case (snoc c y)
  then show ?case using odd_snoc [of "x @ y" c] by simp
qed simp

lemma odd_no_backslash: "BS \<notin> set x \<Longrightarrow> \<not> ends_with_odd_backslash x"
  by (cases x rule: rev_cases) auto

lemma blank_not_backslash: "is_blank c \<Longrightarrow> c \<noteq> BS \<and> \<not> is_eol c \<and> \<not> is_mark c \<and> \<not> is_sep c"
  by (auto simp: is_blank_def BLANKS_def is_eol_def is_mark_def is_sep_def)

lemma BS_class [simp]: "\<not> is_blank BS" "\<not> is_eol BS" "\<not> is_mark BS" "\<not> is_sep BS"
  by (auto simp: is_blank_def BLANKS_def is_eol_def is_mark_def is_sep_def)

lemma odd_blanks:
  assumes "list_all is_blank x" shows "ends_with_odd_backslash (x @ y) = ends_with_odd_backslash y"
proof (rule odd_even_append)
  have "BS \<notin> set x" using assms by (auto simp: list_all_iff)
  then show "\<not> ends_with_odd_backslash x" by (rule odd_no_backslash)
qed

lemma odd_lstrip: "ends_with_odd_backslash (lstrip_blanks x) = ends_with_odd_backslash x"
proof -
  have "list_all is_blank (takeWhile is_blank x)" by (auto simp: list_all_iff dest: set_takeWhileD)
  then show ?thesis using odd_blanks [of "takeWhile is_blank x" "lstrip_blanks x"] by (simp add: lstrip_blanks_def)
qed

lemma lstrip_append_blanks: "list_all is_blank x \<Longrightarrow> lstrip_blanks (x @ y) = lstrip_blanks y"
  by (induction x) (auto simp: lstrip_blanks_def)

lemma lstrip_append_text: "\<not> list_all is_blank x \<Longrightarrow> lstrip_blanks (x @ y) = lstrip_blanks x @ y"
  by (induction x) (auto simp: lstrip_blanks_def)

lemma lstrip_hd: "lstrip_blanks x \<noteq> [] \<Longrightarrow> \<not> is_blank (hd (lstrip_blanks x))"
  using hd_dropWhile [of is_blank x] by (simp add: lstrip_blanks_def)

lemma lstrip_Nil [simp]: "lstrip_blanks [] = []"
  by (simp add: lstrip_blanks_def)

lemma lstrip_same: "x = [] \<or> \<not> is_blank (hd x) \<Longrightarrow> lstrip_blanks x = x"
  by (cases x) (auto simp: lstrip_blanks_def)

section \<open>Natural lines\<close>

definition no_eol :: "bytes \<Rightarrow> bool" where
  "no_eol x \<longleftrightarrow> (\<forall>c \<in> set x. \<not> is_eol c)"

lemma no_eol_simps [simp]: "no_eol []" "no_eol (c # x) \<longleftrightarrow> \<not> is_eol c \<and> no_eol x" "no_eol (x @ y) \<longleftrightarrow> no_eol x \<and> no_eol y"
  by (auto simp: no_eol_def)

lemma no_eol_takeWhile: "(\<And>c. P c \<Longrightarrow> \<not> is_eol c) \<Longrightarrow> no_eol (takeWhile P x)"
  by (auto simp: no_eol_def dest: set_takeWhileD)

lemma eat_eol_Some:
  assumes "eat_eol y = Some r"
  shows "\<exists>c. y = c @ r \<and> c \<noteq> [] \<and> is_eol (last c) \<and> is_eol (hd y) \<and> (last c = CR \<longrightarrow> r = [] \<or> hd r \<noteq> LF)"
proof (cases y)
  case (Cons c cs)
  show ?thesis
  proof (cases "c = CR \<and> cs \<noteq> [] \<and> hd cs = LF")
    case True
    then have "y = [CR, LF] @ r" using assms Cons by (cases cs) auto
    then show ?thesis by (auto simp: is_eol_def)
  next
    case False
    then have "y = [c] @ r \<and> is_eol c \<and> (c = CR \<longrightarrow> r = [] \<or> hd r \<noteq> LF)"
      using assms Cons by (cases cs) (auto simp: is_eol_def split: if_splits)
    then show ?thesis by (auto simp: Cons)
  qed
qed (use assms in simp)

lemma eat_eol_prefix:
  assumes "eat_eol (e @ m @ w) = Some (m @ w)" "e \<noteq> []" shows "eat_eol (e @ m) = Some m"
proof -
  obtain c cs where e: "e = c # cs" using assms(2) by (cases e) auto
  show ?thesis
  proof (cases cs)
    case Nil
    then show ?thesis using assms(1) e by (cases m) (auto split: if_splits list.splits)
  next
    case (Cons d ds)
    then have "c = CR" "d = LF" "ds = []" using assms(1) e by (auto split: if_splits)
    then show ?thesis using e Cons by simp
  qed
qed

lemma natural_line_terminated:
  assumes "no_eol x" "eat_eol y = Some r"
  shows "natural_line (x @ y) = (x, r)"
proof -
  obtain c cs where y: "y = c # cs" "is_eol c" using eat_eol_Some [OF assms(2)] by (cases y) auto
  then have "takeWhile (\<lambda>c. \<not> is_eol c) (x @ y) = x" "dropWhile (\<lambda>c. \<not> is_eol c) (x @ y) = y"
    using assms(1) by (auto simp: no_eol_def)
  then show ?thesis using assms(2) by (simp only: natural_line_def Let_def option.case)
qed

lemma natural_line_last: "no_eol x \<Longrightarrow> natural_line x = (x, [])"
proof -
  assume "no_eol x"
  then have "takeWhile (\<lambda>c. \<not> is_eol c) x = x" "dropWhile (\<lambda>c. \<not> is_eol c) x = []" by (auto simp: no_eol_def)
  then show ?thesis by (simp only: natural_line_def Let_def eat_eol.simps option.case)
qed

lemma natural_line_cases:
  obtains (terminated) x y r where "rest = x @ y" "no_eol x" "eat_eol y = Some r" "natural_line rest = (x, r)"
  | (last) "no_eol rest" "natural_line rest = (rest, [])"
proof -
  let ?x = "takeWhile (\<lambda>c. \<not> is_eol c) rest" and ?y = "dropWhile (\<lambda>c. \<not> is_eol c) rest"
  have x: "no_eol ?x" by (rule no_eol_takeWhile)
  show ?thesis
  proof (cases "eat_eol ?y")
    case None
    then have "?y = []" using after_line [of rest] by (simp only: eat_eol_None) blast
    then have "no_eol rest" using x by (metis append_Nil2 takeWhile_dropWhile_id)
    then show ?thesis using that(2) natural_line_last by blast
  next
    case (Some r)
    then show ?thesis using that(1) [of ?x ?y r] x natural_line_terminated [OF x Some] by simp
  qed
qed

lemma splitlines_Nil [simp]: "splitlines [] = []"
  by (simp add: splitlines.simps)

lemma splitlines_line: "rest \<noteq> [] \<Longrightarrow> natural_line rest = (l, r) \<Longrightarrow> splitlines rest = l # splitlines r"
  by (simp add: splitlines.simps [of rest])

text \<open>The bytes between two offsets the reader stops at, and the lines they hold.\<close>

definition cut :: "bytes \<Rightarrow> bytes \<Rightarrow> bool" where
  "cut c r \<longleftrightarrow> c = [] \<or> is_eol (last c) \<and> (last c = CR \<longrightarrow> r = [] \<or> hd r \<noteq> LF)"

definition takes :: "bytes \<Rightarrow> bytes list \<Rightarrow> bytes \<Rightarrow> bool" where
  "takes rest ls rest' \<longleftrightarrow> (\<exists>c. rest = c @ rest' \<and> (rest' \<noteq> [] \<longrightarrow> cut c rest')) \<and> splitlines rest = ls @ splitlines rest'"

lemma takes_refl: "takes r [] r"
  by (simp add: takes_def cut_def)

lemma takes_trans:
  assumes "takes a l1 b" "takes b l2 c" shows "takes a (l1 @ l2) c"
proof -
  obtain x y where x: "a = x @ b" "b \<noteq> [] \<longrightarrow> cut x b" and y: "b = y @ c" "c \<noteq> [] \<longrightarrow> cut y c"
    using assms by (auto simp: takes_def)
  have "c \<noteq> [] \<longrightarrow> cut (x @ y) c" using x y by (cases "y = []") (auto simp: cut_def)
  then show ?thesis using assms x(1) y(1) by (auto simp: takes_def)
qed

lemma takes_terminated: "no_eol x \<Longrightarrow> eat_eol y = Some r \<Longrightarrow> takes (x @ y) [x] r"
proof -
  assume a: "no_eol x" "eat_eol y = Some r"
  obtain c where c: "y = c @ r" "c \<noteq> []" "is_eol (last c)" "last c = CR \<longrightarrow> r = [] \<or> hd r \<noteq> LF"
    using eat_eol_Some [OF a(2)] by blast
  have "splitlines (x @ y) = x # splitlines r"
    by (rule splitlines_line) (use c a natural_line_terminated in auto)
  moreover have "cut (x @ c) r" using c by (simp add: cut_def)
  ultimately show ?thesis using c(1) by (auto simp: takes_def)
qed

lemma takes_line:
  assumes "rest \<noteq> []" "natural_line rest = (l, r)" shows "takes rest [l] r"
proof (cases rest rule: natural_line_cases)
  case (terminated x y r')
  then show ?thesis using takes_terminated assms(2) by auto
next
  case last
  then have "l = rest" "r = []" using assms(2) by auto
  then show ?thesis using splitlines_line [OF assms] by (simp add: takes_def)
qed

section \<open>What the scanners take\<close>

lemma skipped_lines_takes:
  "\<exists>ls. takes rest ls (skipped_lines rest) \<and> (\<forall>l \<in> set ls. lstrip_blanks l = [] \<or> is_mark (hd (lstrip_blanks l)))"
proof (induction rest rule: skipped_lines.induct)
  case (1 rest)
  define b where "b = takeWhile is_blank rest"
  define r where "r = dropWhile is_blank rest"
  define r' where "r' = (case r of c # cs \<Rightarrow> if is_mark c then dropWhile (\<lambda>d. \<not> is_eol d) cs else r | [] \<Rightarrow> r)"
  have b: "list_all is_blank b" "no_eol b" "rest = b @ r"
    unfolding b_def r_def using blank_not_backslash by (auto simp: list_all_iff no_eol_def dest: set_takeWhileD)
  show ?case
  proof (cases "eat_eol r'")
    case None
    then have "skipped_lines rest = rest"
      by (subst skipped_lines.simps) (simp only: Let_def r_def [symmetric] r'_def [symmetric] option.case)
    then show ?thesis using takes_refl by (intro exI [of _ "[]"]) simp
  next
    case (Some after)
    obtain t where t: "r = t @ r'" "no_eol t" "t = [] \<or> is_mark (hd t)"
    proof (cases "r \<noteq> [] \<and> is_mark (hd r)")
      case True
      then obtain c cs where c: "r = c # cs" "is_mark c" by (cases r) auto
      have "no_eol (c # takeWhile (\<lambda>d. \<not> is_eol d) cs)"
        using c(2) no_eol_takeWhile [of "\<lambda>d. \<not> is_eol d"] by (auto simp: is_mark_def is_eol_def)
      then show ?thesis using that [of "c # takeWhile (\<lambda>d. \<not> is_eol d) cs"] c by (simp add: r'_def)
    next
      case False
      then have "r' = r" by (cases r) (auto simp: r'_def)
      then show ?thesis using that [of "[]"] by simp
    qed
    have one: "takes rest [b @ t] after"
      using takes_terminated [of "b @ t" r' after] b t Some by simp
    have skip: "lstrip_blanks (b @ t) = [] \<or> is_mark (hd (lstrip_blanks (b @ t)))"
    proof (cases "t = []")
      case True
      then show ?thesis using lstrip_append_blanks [OF b(1), of "[]"] by (simp add: lstrip_same)
    next
      case False
      then have "is_mark (hd t)" "\<not> is_blank (hd t)" using t(3) blank_not_backslash by auto
      then show ?thesis using b(1) by (simp add: lstrip_append_blanks lstrip_same)
    qed
    have rec: "skipped_lines rest = skipped_lines after"
      using Some by (subst skipped_lines.simps) (simp only: Let_def r_def [symmetric] r'_def [symmetric] option.case)
    obtain ls where "takes after ls (skipped_lines after)" "\<forall>l \<in> set ls. lstrip_blanks l = [] \<or> is_mark (hd (lstrip_blanks l))"
      using "1.IH" [OF r_def r'_def Some] by blast
    then show ?thesis using takes_trans [OF one] skip rec by (intro exI [of _ "(b @ t) # ls"]) auto
  qed
qed

lemma lone_lines_takes:
  "\<exists>ls. takes rest ls (lone_backslash_lines rest) \<and> (\<forall>l \<in> set ls. lstrip_blanks l = [BS]) \<and>
     (\<forall>l r. natural_line (lone_backslash_lines rest) = (l, r) \<longrightarrow> lstrip_blanks l = [BS] \<longrightarrow> r = [])"
proof (induction rest rule: lone_backslash_lines.induct)
  case (1 rest)
  define b where "b = takeWhile is_blank rest"
  have b: "list_all is_blank b" "no_eol b" "rest = b @ dropWhile is_blank rest"
    unfolding b_def using blank_not_backslash by (auto simp: list_all_iff no_eol_def dest: set_takeWhileD)
  show ?case
  proof (cases "\<exists>cs after. dropWhile is_blank rest = BS # cs \<and> eat_eol cs = Some after")
    case True
    then obtain cs after where a: "dropWhile is_blank rest = BS # cs" "eat_eol cs = Some after" by blast
    have one: "takes rest [b @ [BS]] after"
      using takes_terminated [of "b @ [BS]" cs after] b a by simp
    have rec: "lone_backslash_lines rest = lone_backslash_lines after"
      using a by (subst lone_backslash_lines.simps) simp
    obtain ls where "takes after ls (lone_backslash_lines after)" "\<forall>l \<in> set ls. lstrip_blanks l = [BS]"
      "\<forall>l r. natural_line (lone_backslash_lines after) = (l, r) \<longrightarrow> lstrip_blanks l = [BS] \<longrightarrow> r = []"
      using "1.IH" [OF a(1) refl a(2)] by blast
    then show ?thesis using takes_trans [OF one] rec b(1)
      by (intro exI [of _ "(b @ [BS]) # ls"]) (auto simp: lstrip_append_blanks lstrip_same)
  next
    case False
    then have rec: "lone_backslash_lines rest = rest"
      by (subst lone_backslash_lines.simps) (auto split: list.splits option.splits)
    have "r = []" if n: "natural_line rest = (l, r)" and l: "lstrip_blanks l = [BS]" for l r
    proof (cases rest rule: natural_line_cases)
      case (terminated x y r')
      then have "lstrip_blanks x = [BS]" using n l by simp
      then have "\<not> list_all is_blank x" using lstrip_append_blanks [of x "[]"] by (auto simp: lstrip_same)
      then have "lstrip_blanks rest = [BS] @ y"
        using terminated(1) \<open>lstrip_blanks x = [BS]\<close> by (simp add: lstrip_append_text)
      then show ?thesis using False terminated(3) by (simp add: lstrip_blanks_def)
    qed (use n in simp)
    then show ?thesis using rec takes_refl by (intro exI [of _ "[]"]) simp
  qed
qed

lemma line_body_split:
  "\<exists>x. r = x @ line_body r \<and> no_eol x \<and> \<not> ends_with_odd_backslash x \<and>
     (line_body r = [] \<or> is_eol (hd (line_body r)) \<or>
      hd (line_body r) = BS \<and> (tl (line_body r) = [] \<or> is_eol (hd (tl (line_body r)))))"
proof (induction r rule: line_body.induct)
  case 1
  show ?case by simp
next
  case (2 c)
  then show ?case
    by (cases "c = BS \<or> is_eol c") (auto simp: ends_with_odd_backslash_def intro: exI [of _ "[]"] exI [of _ "[c]"])
next
  case (3 c d r)
  consider (stop) "is_eol c \<or> c = BS \<and> is_eol d" | (pair) "c = BS" "\<not> is_eol d" | (char) "\<not> is_eol c" "c \<noteq> BS" by auto
  then show ?case
  proof cases
    case stop
    then show ?thesis by (intro exI [of _ "[]"]) auto
  next
    case pair
    then obtain x where x: "r = x @ line_body r" "no_eol x" "\<not> ends_with_odd_backslash x"
      "line_body r = [] \<or> is_eol (hd (line_body r)) \<or>
       hd (line_body r) = BS \<and> (tl (line_body r) = [] \<or> is_eol (hd (tl (line_body r))))"
      using "3.IH"(1) by auto
    have "\<not> ends_with_odd_backslash ([c, d] @ x)"
      using odd_even_append [of "[c, d]" x] x(3) pair(1) odd_snoc [of "[c]" d] odd_snoc [of "[]" c] by auto
    then show ?thesis using x pair by (intro exI [of _ "c # d # x"]) auto
  next
    case char
    then obtain x where x: "d # r = x @ line_body (d # r)" "no_eol x" "\<not> ends_with_odd_backslash x"
      "line_body (d # r) = [] \<or> is_eol (hd (line_body (d # r))) \<or>
       hd (line_body (d # r)) = BS \<and> (tl (line_body (d # r)) = [] \<or> is_eol (hd (tl (line_body (d # r)))))"
      using "3.IH"(2) by auto
    have "\<not> ends_with_odd_backslash ([c] @ x)"
      using odd_even_append [of "[c]" x] x(3) char(2) odd_snoc [of "[]" c] by auto
    then show ?thesis using x char by (intro exI [of _ "c # x"]) auto
  qed
qed

text \<open>A run of continued lines, joined: each without its leading blanks and its last backslash.\<close>

definition joined :: "bytes list \<Rightarrow> bytes" where
  "joined ls = concat (map (\<lambda>l. butlast (lstrip_blanks l)) ls)"

lemma join_text:
  assumes "no_eol x" "eat_eol y = Some r"
  shows "join_continuations (x @ BS # y) = x @ join_continuations (dropWhile is_blank r)"
  using assms(1)
proof (induction x)
  case Nil
  then show ?case using assms(2) by simp
next
  case (Cons c x)
  have "\<not> is_eol (hd (x @ BS # y))" using Cons.prems by (cases x) auto
  then have "eat_eol (x @ BS # y) = None" by (simp add: eat_eol_None)
  then show ?case using Cons by simp
qed

lemma join_blanks: "list_all is_blank x \<Longrightarrow> join_continuations (x @ z) = x @ join_continuations z"
proof (induction x)
  case (Cons c x)
  then show ?case using blank_not_backslash [of c] by auto
qed simp

lemma drop_blanks_split: "\<exists>b. list_all is_blank b \<and> no_eol b \<and> x = b @ lstrip_blanks x"
proof (intro exI conjI)
  show "x = takeWhile is_blank x @ lstrip_blanks x" by (simp add: lstrip_blanks_def)
qed (use blank_not_backslash in \<open>auto simp: list_all_iff no_eol_def dest: set_takeWhileD\<close>)

lemma lstrip_snoc_backslash: "\<exists>y. lstrip_blanks (x @ [BS]) = y @ [BS] \<and> (no_eol x \<longrightarrow> no_eol y)"
proof -
  have "lstrip_blanks (x @ [BS]) = lstrip_blanks x @ [BS]"
    by (induction x) (auto simp: lstrip_blanks_def)
  moreover have "no_eol x \<longrightarrow> no_eol (lstrip_blanks x)"
    by (auto simp: no_eol_def lstrip_blanks_def dest: set_dropWhileD)
  ultimately show ?thesis by blast
qed

lemma continued_lines_takes:
  "\<exists>ls m. takes rest ls (continued_lines rest) \<and> rest = m @ continued_lines rest \<and>
     (\<forall>l \<in> set ls. ends_with_odd_backslash l) \<and> join_continuations (lstrip_blanks m) = joined ls \<and>
     (\<forall>l r. continued_lines rest \<noteq> [] \<longrightarrow> natural_line (continued_lines rest) = (l, r) \<longrightarrow>
        ends_with_odd_backslash l \<longrightarrow> r = [])"
proof (induction rest rule: continued_lines.induct)
  case (1 rest)
  obtain x where x: "rest = x @ line_body rest" "no_eol x" "\<not> ends_with_odd_backslash x"
    "line_body rest = [] \<or> is_eol (hd (line_body rest)) \<or>
     hd (line_body rest) = BS \<and> (tl (line_body rest) = [] \<or> is_eol (hd (tl (line_body rest))))"
    using line_body_split by blast
  show ?case
  proof (cases "\<exists>cs after. line_body rest = BS # cs \<and> eat_eol cs = Some after")
    case True
    then obtain cs after where a: "line_body rest = BS # cs" "eat_eol cs = Some after" by blast
    have rest: "rest = (x @ [BS]) @ cs" using x(1) a(1) by simp
    have one: "takes rest [x @ [BS]] after" unfolding rest by (rule takes_terminated) (use x(2) a(2) in auto)
    have rec: "continued_lines rest = continued_lines after" using a by (subst continued_lines.simps) simp
    obtain ls m where ih: "takes after ls (continued_lines after)" "after = m @ continued_lines after"
      "\<forall>l \<in> set ls. ends_with_odd_backslash l" "join_continuations (lstrip_blanks m) = joined ls"
      "\<forall>l r. continued_lines after \<noteq> [] \<longrightarrow> natural_line (continued_lines after) = (l, r) \<longrightarrow>
         ends_with_odd_backslash l \<longrightarrow> r = []"
      using "1.IH" [OF a(1) refl a(2)] by blast
    obtain e where e: "cs = e @ after" "e \<noteq> []" using eat_eol_Some [OF a(2)] by blast
    obtain y where y: "lstrip_blanks (x @ [BS]) = y @ [BS]" "no_eol y" using lstrip_snoc_backslash x(2) by blast
    have "eat_eol (e @ m) = Some m" using eat_eol_prefix [OF _ e(2)] a(2) ih(2) e(1) by metis
    then have "join_continuations (y @ BS # e @ m) = y @ join_continuations (lstrip_blanks m)"
      using join_text [OF y(2)] by (simp add: lstrip_blanks_def)
    moreover have "lstrip_blanks (x @ [BS] @ e @ m) = y @ BS # e @ m"
      using lstrip_append_text [of "x @ [BS]" "e @ m"] y(1) by simp
    ultimately have "join_continuations (lstrip_blanks (x @ [BS] @ e @ m)) = joined ((x @ [BS]) # ls)"
      using ih(4) y(1) by (simp add: joined_def)
    moreover have "rest = (x @ [BS] @ e @ m) @ continued_lines rest" using rest e(1) ih(2) rec by simp
    moreover have "ends_with_odd_backslash (x @ [BS])" using x(3) by simp
    ultimately show ?thesis using takes_trans [OF one ih(1)] ih(3,5) rec
      by (intro exI [of _ "(x @ [BS]) # ls"] exI [of _ "x @ [BS] @ e @ m"]) auto
  next
    case False
    then have rec: "continued_lines rest = rest"
      by (subst continued_lines.simps) (auto split: list.splits option.splits)
    have "r = []" if "natural_line rest = (l, r)" "ends_with_odd_backslash l" for l r
    proof (cases "line_body rest")
      case Nil
      then show ?thesis using x(1,2) natural_line_last that(1) by auto
    next
      case (Cons c cs)
      show ?thesis
      proof (cases "is_eol c")
        case True
        then obtain r' where "eat_eol (c # cs) = Some r'" using eat_eol_None [of "c # cs"] by auto
        then have "l = x" using natural_line_terminated [OF x(2)] x(1) Cons that(1) by auto
        then show ?thesis using x(3) that(2) by simp
      next
        case nonl: False
        then have "c = BS" "cs = [] \<or> is_eol (hd cs)" using x(4) Cons by auto
        moreover have "eat_eol cs = None" using False Cons calculation(1) by auto
        ultimately have "cs = []" by (simp add: eat_eol_None) blast
        then have "no_eol rest" using x(1,2) Cons nonl by (metis no_eol_simps)
        then show ?thesis using natural_line_last that(1) by auto
      qed
    qed
    then show ?thesis using rec takes_refl
      by (intro exI [of _ "[]"]) (auto simp: joined_def lstrip_blanks_def)
  qed
qed

section \<open>The reference reader on runs of lines\<close>

lemma read_skipped:
  "\<forall>l \<in> set ls. lstrip_blanks l = [] \<or> is_mark (hd (lstrip_blanks l)) \<Longrightarrow> java_read None (ls @ ys) = java_read None ys"
  by (induction ls) (auto simp: Let_def)

lemma read_lone:
  "\<forall>l \<in> set ls. lstrip_blanks l = [BS] \<Longrightarrow> ys \<noteq> [] \<Longrightarrow> st \<in> {None, Some []} \<Longrightarrow>
     java_read st (ls @ ys) = java_read None ys"
proof (induction ls arbitrary: st)
  case Nil
  then show ?case by (cases ys) auto
next
  case (Cons l ls)
  have "ends_with_odd_backslash [BS]" by (simp add: ends_with_odd_backslash_def)
  then show ?case using Cons by (auto simp: Let_def)
qed

lemma read_all_lone:
  "\<forall>l \<in> set ls. lstrip_blanks l = [BS] \<Longrightarrow> ls \<noteq> [] \<or> st = Some [] \<Longrightarrow> st \<in> {None, Some []} \<Longrightarrow>
     java_read st ls = [split_key_value []]"
proof (induction ls arbitrary: st)
  case (Cons l ls)
  have "ends_with_odd_backslash [BS]" by (simp add: ends_with_odd_backslash_def)
  then show ?case using Cons by (auto simp: Let_def)
qed auto

lemma read_continued:
  "\<forall>l \<in> set ls. ends_with_odd_backslash l \<Longrightarrow> acc \<noteq> [] \<Longrightarrow> java_read (Some acc) (ls @ ys) = java_read (Some (acc @ joined ls)) ys"
proof (induction ls arbitrary: acc)
  case (Cons l ls)
  then show ?case by (simp add: Let_def odd_lstrip joined_def)
qed (simp add: joined_def)

lemma read_blank_end: "java_read None [[]] = []" "acc \<noteq> [] \<Longrightarrow> java_read (Some acc) [[]] = [split_key_value acc]"
  by (simp_all add: Let_def)

lemma joined_no_blank: "joined ls = [] \<or> \<not> is_blank (hd (joined ls))"
proof (induction ls)
  case (Cons l ls)
  show ?case
  proof (cases "butlast (lstrip_blanks l) = []")
    case True
    then show ?thesis using Cons by (simp add: joined_def)
  next
    case False
    then have "lstrip_blanks l \<noteq> []" "hd (butlast (lstrip_blanks l)) = hd (lstrip_blanks l)"
      by (cases "lstrip_blanks l"; auto split: if_splits)+
    then show ?thesis using lstrip_hd [of l] False by (simp add: joined_def)
  qed
qed (simp add: joined_def)

lemma lstrip_join: "join_continuations (lstrip_blanks m) = joined ls \<Longrightarrow> lstrip_blanks (join_continuations m) = joined ls"
proof -
  assume j: "join_continuations (lstrip_blanks m) = joined ls"
  obtain b where b: "list_all is_blank b" "m = b @ lstrip_blanks m" using drop_blanks_split by blast
  have "join_continuations m = b @ joined ls" using join_blanks [OF b(1), of "lstrip_blanks m"] b(2) j by metis
  then show ?thesis using b(1) joined_no_blank [of ls] by (simp add: lstrip_append_blanks lstrip_same)
qed

text \<open>
  The lines between two stops of the reader: they hold the properties found whatever follows; or they end
  the content in the middle of a logical line with text in it; or they are lone backslashes to the end.
\<close>

definition closed :: "bytes list \<Rightarrow> (pystr \<times> pystr) list \<Rightarrow> bool" where
  "closed ls found \<longleftrightarrow> (\<forall>ys. java_read None (ls @ ys) = found @ java_read None ys)"

definition dangling :: "bytes list \<Rightarrow> (pystr \<times> pystr) list \<Rightarrow> bool" where
  "dangling ls found \<longleftrightarrow> ls \<noteq> [] \<and> ends_with_odd_backslash (last ls) \<and>
     (\<exists>acc. acc \<noteq> [] \<and> found = [split_key_value acc] \<and> (\<forall>ys. java_read None (ls @ ys) = java_read (Some acc) ys))"

definition all_lone :: "bytes list \<Rightarrow> bool" where
  "all_lone ls \<longleftrightarrow> ls \<noteq> [] \<and> (\<forall>l \<in> set ls. lstrip_blanks l = [BS])"

definition reads :: "bool \<Rightarrow> bytes \<Rightarrow> (pystr \<times> pystr) list \<Rightarrow> bytes \<Rightarrow> bool" where
  "reads crlf rest found rest' \<longleftrightarrow> (\<exists>ls. takes rest ls rest' \<and>
     (closed ls found \<or>
      rest' = [] \<and> (dangling ls found \<or> all_lone ls \<and> found = (if crlf then [] else [split_key_value []]))))"

lemma readsI:
  assumes "takes rest ls rest'" "\<And>ys. java_read None (ls @ ys) = found @ java_read None ys"
  shows "reads crlf rest found rest'"
  using assms unfolding reads_def closed_def by blast

lemma all_lone_reads_to_end: "all_lone ls \<Longrightarrow> java_read None ls = [split_key_value []]"
  "all_lone ls \<Longrightarrow> ys \<noteq> [] \<Longrightarrow> java_read None (ls @ ys) = java_read None ys"
  using read_all_lone [of ls None] read_lone [of ls ys None] by (auto simp: all_lone_def)

lemma reads_content:
  assumes "reads crlf rest found rest'"
  shows "java_read None (splitlines rest @ (if crlf then [[]] else [])) =
    found @ java_read None (splitlines rest' @ (if crlf then [[]] else []))"
proof -
  obtain ls where ls: "splitlines rest = ls @ splitlines rest'"
    "closed ls found \<or> rest' = [] \<and> (dangling ls found \<or> all_lone ls \<and> found = (if crlf then [] else [split_key_value []]))"
    using assms by (auto simp: reads_def takes_def)
  from ls(2) consider "closed ls found" | "rest' = []" "dangling ls found"
    | "rest' = []" "all_lone ls" "found = (if crlf then [] else [split_key_value []])" by blast
  then show ?thesis
  proof cases
    case 1
    then show ?thesis using ls(1) by (simp add: closed_def)
  next
    case 2
    then obtain acc where acc: "acc \<noteq> []" "found = [split_key_value acc]" "\<forall>ys. java_read None (ls @ ys) = java_read (Some acc) ys"
      by (auto simp: dangling_def)
    then have "java_read None ls = java_read (Some acc) []" by (metis append_Nil2)
    then show ?thesis using ls(1) 2(1) acc by (auto simp: Let_def)
  next
    case 3
    then show ?thesis using ls(1) all_lone_reads_to_end [of ls] by (auto simp: Let_def)
  qed
qed

lemma continue_line_reads:
  assumes pre: "takes content ls rest" "\<forall>ys. java_read None (ls @ ys) = java_read (Some (butlast line)) ys"
    and last: "ls \<noteq> []" "ends_with_odd_backslash (last ls)"
    and line: "butlast line \<noteq> []" and c: "continue_line line rest = (logical, rest')"
  shows "reads crlf content [split_key_value logical] rest'"
proof -
  obtain ms m where cont: "takes rest ms (continued_lines rest)" "rest = m @ continued_lines rest"
    "\<forall>l \<in> set ms. ends_with_odd_backslash l" "join_continuations (lstrip_blanks m) = joined ms"
    and stop: "\<forall>l r. continued_lines rest \<noteq> [] \<longrightarrow> natural_line (continued_lines rest) = (l, r) \<longrightarrow>
       ends_with_odd_backslash l \<longrightarrow> r = []"
    using continued_lines_takes by blast
  obtain l r where n: "natural_line (continued_lines rest) = (l, r)" by fastforce
  let ?acc = "butlast line @ joined ms"
  define end_part where "end_part = (if ends_with_odd_backslash (lstrip_blanks l) then butlast (lstrip_blanks l) else lstrip_blanks l)"
  have m: "take (length rest - length (continued_lines rest)) rest = m"
    using cont(2) by (metis add_diff_cancel_right' append_eq_conv_conj length_append)
  have logical: "logical = ?acc @ end_part" and rest': "rest' = r"
    using c lstrip_join [OF cont(4)] unfolding continue_line_def by (auto simp: Let_def m n end_part_def)
  have read: "java_read None ((ls @ ms) @ ys) = java_read (Some ?acc) ys" for ys
    using pre(2) read_continued [OF cont(3) line] by simp
  show ?thesis
  proof (cases "continued_lines rest = []")
    case True
    then have "l = []" "r = []" using n natural_line_last [of "[]"] by auto
    then have "logical = ?acc" "rest' = []" by (simp_all add: logical rest' end_part_def lstrip_same)
    moreover have "takes content (ls @ ms) []" using takes_trans [OF pre(1) cont(1)] True by simp
    moreover have "dangling (ls @ ms) [split_key_value ?acc]"
      unfolding dangling_def using read line last cont(3) by (auto simp: last_append)
    ultimately show ?thesis unfolding reads_def by auto
  next
    case False
    have t: "takes content ((ls @ ms) @ [l]) r"
      using takes_trans [OF takes_trans [OF pre(1) cont(1)] takes_line [OF False n]] by simp
    show ?thesis
    proof (cases "ends_with_odd_backslash l")
      case True
      then have r: "r = []" using stop False n by blast
      have "java_read None (((ls @ ms) @ [l]) @ ys) = java_read (Some (?acc @ end_part)) ys" for ys
        using read [of "[l] @ ys"] line True by (simp add: Let_def odd_lstrip end_part_def)
      moreover have "?acc @ end_part \<noteq> []" using line by simp
      ultimately have "dangling ((ls @ ms) @ [l]) [split_key_value logical]"
        unfolding dangling_def logical using True by (intro conjI exI [of _ "?acc @ end_part"]) auto
      then show ?thesis unfolding reads_def rest' using t r by auto
    next
      case False
      then have "java_read None (((ls @ ms) @ [l]) @ ys) = [split_key_value logical] @ java_read None ys" for ys
        using read [of "[l] @ ys"] line by (simp add: Let_def odd_lstrip end_part_def logical)
      then show ?thesis unfolding rest' by (intro readsI [OF t])
    qed
  qed
qed

lemma all_lone_reads:
  assumes "takes content ls []" "\<forall>l \<in> set ls. lstrip_blanks l = [BS]" "ls \<noteq> []"
  shows "reads crlf content (if crlf then [] else [split_key_value []]) []"
  unfolding reads_def all_lone_def using assms by blast

lemma started_line_reads:
  assumes pre: "takes content (ls @ [l]) rest" "\<forall>ys. java_read None (ls @ l # ys) = java_read None (l # ys)"
    and line: "lstrip_blanks l = line" "line \<noteq> [BS]"
  shows "line = [] \<or> is_mark (hd line) \<Longrightarrow> reads crlf content [] (skipped_lines rest)"
    and "line \<noteq> [] \<Longrightarrow> \<not> is_mark (hd line) \<Longrightarrow> \<not> ends_with_odd_backslash line \<Longrightarrow> reads crlf content [split_key_value line] rest"
    and "line \<noteq> [] \<Longrightarrow> \<not> is_mark (hd line) \<Longrightarrow> ends_with_odd_backslash line \<Longrightarrow> continue_line line rest = (logical, rest') \<Longrightarrow>
      reads crlf content [split_key_value logical] rest'"
proof -
  assume skip: "line = [] \<or> is_mark (hd line)"
  obtain sk where sk: "takes rest sk (skipped_lines rest)" "\<forall>l \<in> set sk. lstrip_blanks l = [] \<or> is_mark (hd (lstrip_blanks l))"
    using skipped_lines_takes by blast
  show "reads crlf content [] (skipped_lines rest)"
    by (rule readsI [OF takes_trans [OF pre(1) sk(1)]]) (use pre(2) line(1) skip read_skipped [OF sk(2)] in \<open>simp add: Let_def\<close>)
next
  assume "line \<noteq> []" "\<not> is_mark (hd line)" "\<not> ends_with_odd_backslash line"
  then show "reads crlf content [split_key_value line] rest"
    by (intro readsI [OF pre(1)]) (use pre(2) line(1) in \<open>simp add: Let_def\<close>)
next
  assume a: "line \<noteq> []" "\<not> is_mark (hd line)" "ends_with_odd_backslash line" "continue_line line rest = (logical, rest')"
  have "butlast line \<noteq> []"
    using odd_last [OF a(3)] line(2) by (cases line rule: rev_cases) auto
  then show "reads crlf content [split_key_value logical] rest'"
    using continue_line_reads [OF pre(1) _ _ _ _ a(4)] pre(2) line(1) a odd_lstrip [of l] by (simp add: Let_def)
qed

lemma general_reads:
  assumes ne: "content \<noteq> []" and g: "general_property crlf content = (found, rest')"
  shows "reads crlf content (case found of None \<Rightarrow> [] | Some p \<Rightarrow> [p]) rest'"
proof -
  obtain l r where n: "natural_line content = (l, r)" by fastforce
  obtain line rest where i: "lead_in (lstrip_blanks l) r = (line, rest)" by fastforce
  have first: "takes content [l] r" by (rule takes_line [OF ne n])
  have "(\<exists>ls l'. takes content (ls @ [l']) rest \<and> (\<forall>ys. java_read None (ls @ l' # ys) = java_read None (l' # ys)) \<and>
       lstrip_blanks l' = line \<and> line \<noteq> [BS]) \<or>
     line = [BS] \<and> rest = [] \<and> (\<exists>ls. takes content ls [] \<and> (\<forall>l \<in> set ls. lstrip_blanks l = [BS]) \<and> ls \<noteq> [])"
  proof (cases "lstrip_blanks l = [BS] \<and> r \<noteq> []")
    case True
    obtain ms where ms: "takes r ms (lone_backslash_lines r)" "\<forall>l \<in> set ms. lstrip_blanks l = [BS]"
      "\<forall>l r'. natural_line (lone_backslash_lines r) = (l, r') \<longrightarrow> lstrip_blanks l = [BS] \<longrightarrow> r' = []"
      using lone_lines_takes by blast
    have lone: "\<forall>x \<in> set (l # ms). lstrip_blanks x = [BS]" using ms(2) True by simp
    have t: "takes content (l # ms) (lone_backslash_lines r)" using takes_trans [OF first ms(1)] by simp
    show ?thesis
    proof (cases "lone_backslash_lines r = []")
      case end_here: True
      then have "line = [BS]" "rest = []" using i True by (auto simp: lead_in_def Let_def)
      moreover have "takes content (l # ms) []" using t end_here by simp
      ultimately show ?thesis using lone by blast
    next
      case False
      obtain l2 r2 where n2: "natural_line (lone_backslash_lines r) = (l2, r2)" by fastforce
      then have eq: "line = lstrip_blanks l2" "rest = r2" using i True False by (auto simp: lead_in_def Let_def)
      have t2: "takes content ((l # ms) @ [l2]) rest" using takes_trans [OF t takes_line [OF False n2]] eq(2) by simp
      show ?thesis
      proof (cases "line = [BS]")
        case True
        then have "rest = []" using ms(3) n2 eq by simp
        moreover have "\<forall>x \<in> set ((l # ms) @ [l2]). lstrip_blanks x = [BS]" using True lone eq(1) by auto
        ultimately show ?thesis using True t2 by blast
      next
        case False
        have "java_read None ((l # ms) @ l2 # ys) = java_read None (l2 # ys)" for ys using read_lone [OF lone] by blast
        then show ?thesis using t2 False eq(1) by blast
      qed
    qed
  next
    case False
    then have eq: "line = lstrip_blanks l" "rest = r" using i by (auto simp: lead_in_def)
    show ?thesis
    proof (cases "line = [BS]")
      case True
      then have "r = []" "\<forall>x \<in> set [l]. lstrip_blanks x = [BS]" using False eq by auto
      then show ?thesis using True eq first by blast
    next
      case False
      then show ?thesis using eq first by (intro disjI1 exI [of _ "[]"] exI [of _ l]) auto
    qed
  qed
  then show ?thesis
  proof
    assume "\<exists>ls l'. takes content (ls @ [l']) rest \<and> (\<forall>ys. java_read None (ls @ l' # ys) = java_read None (l' # ys)) \<and>
       lstrip_blanks l' = line \<and> line \<noteq> [BS]"
    then obtain ls l' where s: "takes content (ls @ [l']) rest" "\<forall>ys. java_read None (ls @ l' # ys) = java_read None (l' # ys)"
      "lstrip_blanks l' = line" "line \<noteq> [BS]" by blast
    note r = started_line_reads [OF s, where crlf = crlf]
    show ?thesis using g r unfolding general_property_def
      by (auto simp: n i Let_def s(4) split: if_splits prod.splits)
  next
    assume a: "line = [BS] \<and> rest = [] \<and> (\<exists>ls. takes content ls [] \<and> (\<forall>l \<in> set ls. lstrip_blanks l = [BS]) \<and> ls \<noteq> [])"
    then obtain ls where ls: "takes content ls []" "\<forall>l \<in> set ls. lstrip_blanks l = [BS]" "ls \<noteq> []" by blast
    have odd: "ends_with_odd_backslash [BS]" by (simp add: ends_with_odd_backslash_def)
    have "continued_lines [] = []" by (simp add: continued_lines.simps)
    then have "continue_line [BS] [] = ([], [])"
      using natural_line_last [of "[]"] by (simp add: continue_line_def Let_def lstrip_same)
    then show ?thesis using g a odd all_lone_reads [OF ls, of crlf] unfolding general_property_def
      by (auto simp: n i Let_def split: if_splits)
  qed
qed

section \<open>Plain lines\<close>

lemma dropWhile_takeWhile_commute:
  "(\<And>c. P c \<Longrightarrow> Q c) \<Longrightarrow> dropWhile P (takeWhile Q xs) = takeWhile Q (dropWhile P xs)"
  by (induction xs) auto

lemma skip_sep_simps: "dropWhile is_blank w = [] \<Longrightarrow> skip_sep w = []"
  "dropWhile is_blank w = c # cs \<Longrightarrow> skip_sep w = (if is_sep c then dropWhile is_blank cs else c # cs)"
  by (simp_all only: skip_sep_def list.case)

lemma skip_sep_line:
  "skip_sep (takeWhile (\<lambda>c. \<not> is_eol c) w) = takeWhile (\<lambda>c. \<not> is_eol c) (skip_sep w)"
proof -
  let ?Q = "\<lambda>c. \<not> is_eol c"
  have b: "dropWhile is_blank (takeWhile ?Q x) = takeWhile ?Q (dropWhile is_blank x)" for x
    by (rule dropWhile_takeWhile_commute) (use blank_not_backslash in blast)
  show ?thesis
  proof (cases "dropWhile is_blank w")
    case Nil
    then show ?thesis using b [of w] by (simp only: skip_sep_simps(1) takeWhile.simps)
  next
    case (Cons c cs)
    have "is_sep c \<Longrightarrow> \<not> is_eol c" by (auto simp: is_sep_def is_eol_def)
    then show ?thesis using b [of w] b [of cs] by (auto simp: skip_sep_def Cons)
  qed
qed

lemma skip_sep_split: "\<exists>z. w = z @ skip_sep w \<and> (\<forall>d \<in> set z. is_sep d \<or> is_blank d)"
proof -
  obtain b where b: "list_all is_blank b" "w = b @ dropWhile is_blank w"
    using drop_blanks_split [of w] by (auto simp: lstrip_blanks_def)
  show ?thesis
  proof (cases "dropWhile is_blank w")
    case Nil
    then have "w = b @ skip_sep w" using b(2) Nil skip_sep_simps(1) [OF Nil] by metis
    then show ?thesis using b(1) by (auto simp: list_all_iff)
  next
    case (Cons c cs)
    obtain d where d: "list_all is_blank d" "cs = d @ dropWhile is_blank cs"
      using drop_blanks_split [of cs] by (auto simp: lstrip_blanks_def)
    show ?thesis
    proof (cases "is_sep c")
      case True
      then show ?thesis using b d Cons skip_sep_simps(2) [OF Cons]
        by (intro exI [of _ "b @ c # d"]) (auto simp: list_all_iff)
    next
      case False
      then show ?thesis using b Cons skip_sep_simps(2) [OF Cons] by (intro exI [of _ b]) (simp add: list_all_iff)
    qed
  qed
qed

lemma key_part_plain:
  "list_all key_char k \<Longrightarrow> w = [] \<or> is_sep (hd w) \<or> is_blank (hd w) \<Longrightarrow> key_part (k @ w) = (k, w)"
proof (induction k)
  case Nil
  then show ?case by (cases w) auto
next
  case (Cons c k)
  then show ?case by (auto simp: key_char_def)
qed

lemma of_char_BS: "of_char c = (92 :: nat) \<longleftrightarrow> c = BS"
proof -
  have "of_char c = (of_char BS :: nat) \<longleftrightarrow> c = BS" by (rule of_char_eq_iff)
  then show ?thesis by simp
qed

lemma load_convert_plain: "BS \<notin> set x \<Longrightarrow> load_convert x = latin1 x"
proof -
  assume "BS \<notin> set x"
  then have "92 \<notin> set (latin1 x)" unfolding latin1_def set_map by (metis image_iff of_char_BS)
  then show ?thesis by (simp only: load_convert_def Let_def if_True not_False_eq_True)
qed

lemma line_of: "no_eol x \<Longrightarrow> y = [] \<or> is_eol (hd y) \<Longrightarrow> takeWhile (\<lambda>c. \<not> is_eol c) (x @ y) = x"
  by (cases y; induction x) auto

lemma plain_reads:
  assumes p: "plain_property rest = Some (key, v, rest')"
  shows "reads crlf rest [(latin1 key, latin1 v)] rest'"
proof -
  let ?Q = "\<lambda>c. \<not> is_eol c" and ?V = "\<lambda>d. d \<noteq> BS \<and> \<not> is_eol d"
  obtain c cs where c: "dropWhile is_blank rest = c # cs" "key_char c" "\<not> is_mark c"
    using p by (auto simp: plain_property_def split: list.splits if_splits)
  define w where "w = dropWhile key_char cs"
  define after where "after = dropWhile ?V (skip_sep w)"
  have key: "key = c # takeWhile key_char cs" and v: "v = takeWhile ?V (skip_sep w)"
    and fin: "eat_eol after = Some rest' \<or> after = [] \<and> rest' = []"
    using p by (auto simp: plain_property_def c w_def after_def Let_def split: option.splits if_splits)
  then have ended: "after = [] \<or> is_eol (hd after)" using eat_eol_Some by blast
  obtain b where b: "list_all is_blank b" "no_eol b" "rest = b @ c # cs"
    using drop_blanks_split [of rest] c(1) by (auto simp: lstrip_blanks_def)
  obtain z where z: "w = z @ skip_sep w" "\<forall>d \<in> set z. is_sep d \<or> is_blank d" using skip_sep_split by blast
  have clean: "no_eol z" "BS \<notin> set z" "no_eol key" "BS \<notin> set key" "no_eol v" "BS \<notin> set v"
  proof -
    have sb: "is_sep d \<or> is_blank d \<Longrightarrow> \<not> is_eol d \<and> d \<noteq> BS" for d
      using blank_not_backslash by (auto simp: is_sep_def is_eol_def)
    then show "no_eol z" "BS \<notin> set z" using z(2) unfolding no_eol_def by blast+
    have "\<forall>d \<in> set key. key_char d" using c(2) unfolding key by (auto dest: set_takeWhileD)
    then show "no_eol key" "BS \<notin> set key" unfolding no_eol_def key_char_def by blast+
    have "\<forall>d \<in> set v. d \<noteq> BS \<and> \<not> is_eol d" unfolding v by (auto dest: set_takeWhileD)
    then show "no_eol v" "BS \<notin> set v" unfolding no_eol_def by blast+
  qed
  have rest: "rest = (b @ key @ z @ v) @ after" "c # cs = key @ w" "w = (z @ v) @ after"
    using b(3) z(1) by (simp_all add: key v w_def after_def)
  have w': "takeWhile ?Q w = z @ v" unfolding rest(3) by (rule line_of) (use clean ended in auto)
  have hw: "z @ v = [] \<or> is_sep (hd (z @ v)) \<or> is_blank (hd (z @ v))"
  proof (cases "z @ v")
    case (Cons d ds)
    then have "hd w = d" "w \<noteq> []" using rest(3) by auto
    then have "\<not> key_char d" using hd_dropWhile [of key_char cs] by (auto simp: w_def)
    moreover have "d \<noteq> BS" "\<not> is_eol d" using clean Cons by (auto simp: no_eol_def) (metis Un_iff list.set_intros(1) set_append)+
    ultimately show ?thesis using Cons by (auto simp: key_char_def)
  qed simp
  have k: "list_all key_char key" using c(2) by (auto simp: key list_all_iff dest: set_takeWhileD)
  have "skip_sep w = v @ after" by (simp add: v after_def)
  then have "takeWhile ?Q (skip_sep w) = v" using line_of clean ended by metis
  then have "skip_sep (z @ v) = v" using skip_sep_line [of w] w' by simp
  then have kv: "split_key_value (key @ z @ v) = (latin1 key, latin1 v)"
    using key_part_plain [OF k hw] clean by (simp add: split_key_value_def load_convert_plain)
  have even: "\<not> ends_with_odd_backslash (key @ z @ v)" using clean by (intro odd_no_backslash) simp
  have line: "lstrip_blanks (b @ key @ z @ v) = key @ z @ v"
    using lstrip_append_blanks [OF b(1)] c(2) by (simp add: key lstrip_same key_char_def)
  have n: "natural_line rest = (b @ key @ z @ v, rest')"
    using fin natural_line_terminated [of "b @ key @ z @ v" after rest'] natural_line_last [of "b @ key @ z @ v"] clean b(2) rest(1)
    by auto
  have "rest \<noteq> []" using c(1) by auto
  from takes_line [OF this n] show ?thesis
    by (rule readsI) (use line kv even c(3) key in \<open>simp add: Let_def\<close>)
qed

text \<open>One turn of the loop takes whole lines and finds what the reference reader finds in them.\<close>

lemma next_property_reads:
  assumes "rest \<noteq> []" "next_property crlf rest = (found, rest')"
  shows "reads crlf rest (case found of None \<Rightarrow> [] | Some p \<Rightarrow> [p]) rest'"
  using assms(2) general_reads [OF assms(1), of crlf] plain_reads [of rest]
  by (auto simp: next_property_def split: option.splits prod.splits)

definition pairs :: "property list \<Rightarrow> (pystr \<times> pystr) list" where
  "pairs = map (\<lambda>p. (p_key p, p_value p))"

lemma parse_at_reads:
  "pairs (parse_at n crlf rest) = java_read None (splitlines rest @ (if crlf then [[]] else []))"
proof (induction n crlf rest rule: parse_at.induct)
  case (1 n crlf rest)
  show ?case
  proof (cases "rest = []")
    case True
    then show ?thesis by (simp add: parse_at.simps pairs_def Let_def)
  next
    case False
    obtain found rest' where nx: "next_property crlf rest = (found, rest')" by fastforce
    let ?f = "case found of None \<Rightarrow> [] | Some p \<Rightarrow> [p]"
    have "pairs (parse_at n crlf rest) = ?f @ pairs (parse_at n crlf rest')"
      using False nx by (subst parse_at.simps) (auto simp: pairs_def split: option.splits)
    also have "\<dots> = ?f @ java_read None (splitlines rest' @ (if crlf then [[]] else []))"
      using "1.IH" [OF False nx [symmetric] refl] by simp
    also have "\<dots> = java_read None (splitlines rest @ (if crlf then [[]] else []))"
      using reads_content [OF next_property_reads [OF False nx]] by simp
    finally show ?thesis .
  qed
qed

end
