(* ===== verification/Properties_Escape.thy ===== *)
theory Properties_Escape
  imports Properties_Reader
begin

text \<open>
  The escapes of \<open>server.properties\<close>: the fast path of the decoder agrees with the general one, and the
  line written for a key and a value reads back as that key and that value.
\<close>

section \<open>The two decoders\<close>

lemma unescape_simple_eq: "\<not> has_unicode_escape s \<Longrightarrow> unescape_simple s = unescape_all s"
proof (induction s rule: unescape_simple.induct)
  case (2 c)
  then show ?case by (cases "c = 92") auto
next
  case (3 c d r)
  have "\<not> has_unicode_escape r" using "3.prems" by (cases r) auto
  then show ?case using 3 by (cases "c = 92") auto
qed simp

lemma unescape_none: "92 \<notin> set s \<Longrightarrow> unescape_all s = s"
  by (induction s) auto

lemma load_convert_eq: "load_convert raw = unescape_all (latin1 raw)"
  by (simp add: load_convert_def Let_def unescape_none unescape_simple_eq)

section \<open>Unicode escapes\<close>

definition high_surrogate :: "nat \<Rightarrow> bool" where
  "high_surrogate c \<longleftrightarrow> 0xD800 \<le> c \<and> c \<le> 0xDBFF"

definition low_surrogate :: "nat \<Rightarrow> bool" where
  "low_surrogate c \<longleftrightarrow> 0xDC00 \<le> c \<and> c \<le> 0xDFFF"

lemma hex_digit_char: "n < 16 \<Longrightarrow> hex_digit (hex_char n) = Some n"
  by (auto simp: hex_digit_def hex_char_def)

lemma hex4_unit:
  assumes "u < 0x10000"
  shows "hex4 ([hex_char (u div 4096 mod 16), hex_char (u div 256 mod 16), hex_char (u div 16 mod 16), hex_char (u mod 16)] @ r) = Some (u, r)"
proof -
  have a: "u div 16 = u div 256 * 16 + u div 16 mod 16" "u div 256 = u div 4096 * 16 + u div 256 mod 16"
    using div_mult_mod_eq [of "u div 16" 16] div_mult_mod_eq [of "u div 256" 16] by (simp_all add: div_mult2_eq [symmetric])
  have "u div 4096 mod 16 = u div 4096" using assms by simp
  then have "((u div 4096 mod 16 * 16 + u div 256 mod 16) * 16 + u div 16 mod 16) * 16 + u mod 16 = u div 16 * 16 + u mod 16"
    using a by simp
  then have "((u div 4096 mod 16 * 16 + u div 256 mod 16) * 16 + u div 16 mod 16) * 16 + u mod 16 = u"
    by (simp only: div_mult_mod_eq)
  moreover have "hex4 ([hex_char (u div 4096 mod 16), hex_char (u div 256 mod 16), hex_char (u div 16 mod 16), hex_char (u mod 16)] @ r) =
      Some (((u div 4096 mod 16 * 16 + u div 256 mod 16) * 16 + u div 16 mod 16) * 16 + u mod 16, r)"
    by (simp only: hex4_def append.simps list.case hex_digit_char [OF mod_less_divisor, simplified] option.case prod.case)
  ultimately show ?thesis by (simp only:)
qed

lemma low_escape_unit:
  "u < 0x10000 \<Longrightarrow> low_escape (unicode_escape u @ r) = (if low_surrogate u then Some (u, r) else None)"
  using hex4_unit [of u r] by (simp add: low_escape_def unicode_escape_def low_surrogate_def)

lemma unescape_unit:
  assumes "hex4 s = Some (w, r)" "\<not> high_surrogate w \<or> low_escape r = None"
  shows "unescape_all (92 # 117 # s) = w # unescape_all r"
  using assms
proof (induction "length s" arbitrary: s w r rule: less_induct)
  case less
  show ?case
  proof (cases "low_escape r")
    case None
    then show ?thesis using less.prems by (simp add: unicode_unescape_def)
  next
    case (Some lr)
    obtain l r2 where lr: "lr = (l, r2)" by fastforce
    obtain s2 where s2: "r = 92 # 117 # s2" "hex4 s2 = Some (l, r2)" "0xDC00 \<le> l"
      using Some lr by (auto simp: low_escape_def split: list.splits option.splits if_splits)
    have "length s2 < length s" using hex4_less [OF less.prems(1)] s2(1) by simp
    moreover have "\<not> high_surrogate l" using s2(3) by (simp add: high_surrogate_def)
    ultimately have "unescape_all r = l # unescape_all r2" using less.hyps s2 by blast
    then show ?thesis using less.prems Some lr by (auto simp: unicode_unescape_def high_surrogate_def)
  qed
qed

lemma unescape_char:
  assumes "c < 0x110000" "high_surrogate c \<Longrightarrow> low_escape r = None"
  shows "unescape_all (escape_char c @ r) = c # unescape_all r"
proof -
  consider (simple) "c \<in> {92, 10, 13, 9, 12}" | (ascii) "c \<notin> {92, 10, 13, 9, 12}" "0x20 \<le> c" "c \<le> 0x7E"
    | (bmp) "c \<notin> {92, 10, 13, 9, 12}" "\<not> (0x20 \<le> c \<and> c \<le> 0x7E)" "c < 0x10000"
    | (astral) "0x10000 \<le> c" by fastforce
  then show ?thesis
  proof cases
    case simple
    then show ?thesis by (auto simp: escape_char_def simple_escape_def)
  next
    case ascii
    then show ?thesis by (auto simp: escape_char_def)
  next
    case bmp
    then have "escape_char c = unicode_escape c" by (auto simp: escape_char_def utf16_units_def)
    moreover have "\<not> high_surrogate c \<or> low_escape r = None" using assms(2) by (cases "high_surrogate c") auto
    ultimately show ?thesis using unescape_unit [OF hex4_unit [OF bmp(3)]] by (simp add: unicode_escape_def)
  next
    case astral
    define k where "k = c - 0x10000"
    define hi where "hi = 0xD800 + k div 1024"
    define lo where "lo = 0xDC00 + k mod 1024"
    have k: "k < 0x100000" "c = 0x10000 + k" using astral assms(1) by (auto simp: k_def)
    then have hi: "0xD800 \<le> hi" "hi \<le> 0xDBFF" "hi < 0x10000" by (auto simp: hi_def)
    have lo: "lo < 0x10000" "low_surrogate lo" by (auto simp: lo_def low_surrogate_def)
    have "escape_char c = unicode_escape hi @ unicode_escape lo"
      using astral by (simp add: escape_char_def utf16_units_def hi_def lo_def k_def)
    then have "unescape_all (escape_char c @ r) = unicode_unescape hi (Some lo) @ unescape_all r"
      using hex4_unit [OF hi(3), of "unicode_escape lo @ r"] low_escape_unit [OF lo(1), of r] lo(2)
      by (simp add: unicode_escape_def [of hi])
    moreover have "0x10000 + (hi - 0xD800) * 1024 + (lo - 0xDC00) = c" using k(2) by (simp add: hi_def lo_def)
    ultimately show ?thesis using hi by (simp add: unicode_unescape_def)
  qed
qed

lemma low_escape_char:
  assumes "c < 0x110000" "\<not> low_surrogate c" shows "low_escape (escape_char c @ r) = None"
proof -
  have "hi < 0x10000 \<and> \<not> low_surrogate hi" if "hi = 0xD800 + (c - 0x10000) div 1024" "0x10000 \<le> c" for hi
    using that assms(1) by (auto simp: low_surrogate_def)
  then have "low_escape (concat (map unicode_escape (utf16_units c)) @ r) = None"
    using assms(2) low_escape_unit by (auto simp: utf16_units_def)
  then show ?thesis by (auto simp: escape_char_def low_escape_def split: list.splits)
qed

fun storable :: "pystr \<Rightarrow> bool" where
  \<comment> \<open>code points, with no high surrogate next to a low one\<close>
  "storable [] = True"
| "storable [c] \<longleftrightarrow> c < 0x110000"
| "storable (c # d # r) \<longleftrightarrow> c < 0x110000 \<and> \<not> (high_surrogate c \<and> low_surrogate d) \<and> storable (d # r)"

lemma storable_Cons: "storable (c # s) \<Longrightarrow> c < 0x110000 \<and> storable s \<and> (s \<noteq> [] \<longrightarrow> \<not> (high_surrogate c \<and> low_surrogate (hd s)))"
  by (cases s) auto

definition key_escape :: "nat \<Rightarrow> pystr" where
  "key_escape c = (if c \<in> SPECIALS then [92, c] else escape_char c)"

lemma escape_key_Cons: "escape_key [] = []" "escape_key (c # k) = key_escape c @ escape_key k"
  by (simp_all add: escape_key_def key_escape_def)

lemma special_range: "c \<in> SPECIALS \<Longrightarrow> escape_char c = [c] \<and> simple_escape c = c \<and> c \<noteq> 117 \<and> \<not> high_surrogate c \<and> \<not> low_surrogate c"
  by (auto simp: SPECIALS_def escape_char_def simple_escape_def high_surrogate_def low_surrogate_def)

lemma low_escape_head:
  assumes "c < 0x110000" "\<not> low_surrogate c"
  shows "low_escape (key_escape c @ r) = None" "low_escape (escape_char c @ r) = None"
  using low_escape_char [OF assms] by (auto simp: key_escape_def low_escape_def SPECIALS_def)

lemma unescape_key: "storable k \<Longrightarrow> unescape_all (escape_key k) = k"
proof (induction k)
  case (Cons c k)
  note c = storable_Cons [OF Cons.prems]
  have "low_escape (escape_key k) = None" if h: "high_surrogate c"
  proof (cases k)
    case Nil
    then show ?thesis by (simp add: escape_key_Cons low_escape_def)
  next
    case (Cons d ds)
    then have "d < 0x110000" "\<not> low_surrogate d" using c h storable_Cons [of d ds] by auto
    then show ?thesis using low_escape_head(1) Cons by (simp add: escape_key_Cons)
  qed
  then have "unescape_all (key_escape c @ escape_key k) = c # unescape_all (escape_key k)"
    using unescape_char [of c] c special_range [of c] by (auto simp: key_escape_def)
  then show ?case using Cons.IH c by (simp add: escape_key_Cons)
qed (simp add: escape_key_Cons)

lemma unescape_text: "storable v \<Longrightarrow> unescape_all (concat (map escape_char v)) = v"
proof (induction v)
  case (Cons c v)
  note c = storable_Cons [OF Cons.prems]
  have "low_escape (concat (map escape_char v)) = None" if h: "high_surrogate c"
  proof (cases v)
    case Nil
    then show ?thesis by (simp add: low_escape_def)
  next
    case (Cons d ds)
    then have "d < 0x110000" "\<not> low_surrogate d" using c h storable_Cons [of d ds] by auto
    then show ?thesis using low_escape_head(2) Cons by simp
  qed
  then show ?case using unescape_char [of c] c Cons.IH by simp
qed simp

lemma unescape_value: "storable v \<Longrightarrow> unescape_all (escape_value v) = v"
proof -
  assume v: "storable v"
  show ?thesis
  proof (cases "\<exists>c r. v = c # r \<and> c \<in> SPECIALS")
    case True
    then obtain c r where c: "v = c # r" "c \<in> SPECIALS" by blast
    have "unescape_all (escape_value v) = simple_escape c # unescape_all (concat (map escape_char r))"
      using special_range [OF c(2)] c by (simp add: escape_value_def)
    then show ?thesis using special_range [OF c(2)] unescape_text [of r] storable_Cons v c(1) by metis
  next
    case False
    then have "escape_value v = concat (map escape_char v)" by (cases v) (auto simp: escape_value_def)
    then show ?thesis using unescape_text [OF v] by simp
  qed
qed

section \<open>The written line\<close>

definition printable :: "pystr \<Rightarrow> bool" where
  "printable s \<longleftrightarrow> (\<forall>c \<in> set s. 0x20 \<le> c \<and> c \<le> 0x7E)"

lemma printable_simps [simp]: "printable []" "printable (c # s) \<longleftrightarrow> 0x20 \<le> c \<and> c \<le> 0x7E \<and> printable s"
  "printable (s @ t) \<longleftrightarrow> printable s \<and> printable t"
  by (auto simp: printable_def)

lemma printable_hex: "n < 16 \<Longrightarrow> 0x20 \<le> hex_char n \<and> hex_char n \<le> 0x7E"
  by (auto simp: hex_char_def)

lemma printable_unicode: "printable (unicode_escape u)"
  using printable_hex by (simp add: unicode_escape_def)

lemma printable_char: "printable (escape_char c)"
  by (auto simp: escape_char_def utf16_units_def printable_unicode)

lemma printable_line: "printable (escape_key k)" "printable (escape_value v)"
proof -
  have "printable (key_escape c)" for c using printable_char by (auto simp: key_escape_def SPECIALS_def)
  then show "printable (escape_key k)" by (induction k) (auto simp: escape_key_Cons)
  have "printable (concat (map escape_char v))" for v using printable_char by (induction v) auto
  then show "printable (escape_value v)" by (simp add: escape_value_def Let_def split: list.splits)
qed

lemma latin1_inverse: "printable s \<Longrightarrow> latin1 (to_latin1 s) = s"
  by (induction s) (auto simp: latin1_def to_latin1_def)

lemma to_latin1_append [simp]: "to_latin1 [] = []" "to_latin1 (s @ t) = to_latin1 s @ to_latin1 t" "to_latin1 (c # s) = char_of c # to_latin1 s"
  by (simp_all add: to_latin1_def)

lemma char_of_class:
  assumes "0x20 \<le> c" "c \<le> (0x7E :: nat)"
  shows "\<not> is_eol (char_of c)" "is_blank (char_of c) \<longleftrightarrow> c = 32" "is_sep (char_of c) \<longleftrightarrow> c = 61 \<or> c = 58"
    "is_mark (char_of c) \<longleftrightarrow> c = 35 \<or> c = 33" "char_of c = BS \<longleftrightarrow> c = 92"
proof -
  have eq: "char_of c = d \<longleftrightarrow> c = of_char d" for d
  proof -
    have "char_of c = d \<longleftrightarrow> of_char (char_of c) = (of_char d :: nat)" by (simp only: of_char_eq_iff)
    then show ?thesis using assms by simp
  qed
  show "\<not> is_eol (char_of c)" "is_blank (char_of c) \<longleftrightarrow> c = 32" "is_sep (char_of c) \<longleftrightarrow> c = 61 \<or> c = 58"
    "is_mark (char_of c) \<longleftrightarrow> c = 35 \<or> c = 33" "char_of c = BS \<longleftrightarrow> c = 92"
    using assms by (simp_all add: is_eol_def is_blank_def BLANKS_def is_sep_def is_mark_def eq)
qed

lemma char_of_92 [simp]: "char_of (92 :: nat) = BS"
  using char_of_class(5) [of 92] by simp

lemma char_of_61 [simp]: "char_of (61 :: nat) = CHR ''=''"
  using char_of_char [of "CHR ''=''", where 'a = nat] by simp

lemma no_eol_printable: "printable s \<Longrightarrow> no_eol (to_latin1 s)"
  by (induction s) (auto simp: char_of_class)

definition key_text :: "pystr \<Rightarrow> bool" where
  \<comment> \<open>a piece the key scanner takes whole\<close>
  "key_text s \<longleftrightarrow> (\<forall>y. key_part (to_latin1 s @ y) = (to_latin1 s @ fst (key_part y), snd (key_part y)))"

lemma key_text_append: "key_text s \<Longrightarrow> key_text t \<Longrightarrow> key_text (s @ t)"
  by (simp add: key_text_def)

lemma key_text_Nil: "key_text []"
  by (simp add: key_text_def)

lemma key_text_pair: "key_text [92, c]"
  by (simp add: key_text_def split: prod.splits)

lemma key_text_char: "0x20 \<le> c \<Longrightarrow> c \<le> 0x7E \<Longrightarrow> c \<notin> {92, 61, 58, 32} \<Longrightarrow> key_text [c]"
  using char_of_class [of c] by (simp add: key_text_def split: prod.splits)

lemma key_text_unicode: "key_text (unicode_escape u)"
proof -
  have "key_text [hex_char n]" if "n < 16" for n
    using that printable_hex [OF that] by (intro key_text_char) (auto simp: hex_char_def)
  then have "key_text ([92, 117] @ [hex_char (u div 4096 mod 16)] @ [hex_char (u div 256 mod 16)] @ [hex_char (u div 16 mod 16)] @ [hex_char (u mod 16)])"
    by (intro key_text_append key_text_pair) auto
  then show ?thesis by (simp add: unicode_escape_def)
qed

lemma key_text_escape: "key_text (key_escape c)"
proof -
  have "key_text (escape_char c)" if "c \<notin> SPECIALS"
    using that key_text_pair key_text_unicode key_text_append [OF key_text_unicode key_text_unicode] key_text_char [of c]
    by (auto simp: escape_char_def utf16_units_def SPECIALS_def)
  then show ?thesis using key_text_pair by (simp add: key_escape_def)
qed

lemma key_text_key: "key_text (escape_key k)"
  by (induction k) (auto simp: escape_key_Cons intro: key_text_append key_text_escape key_text_Nil)

lemma even_pieces: "\<not> ends_with_odd_backslash (to_latin1 (escape_char c))" "\<not> ends_with_odd_backslash (to_latin1 (key_escape c))"
proof -
  have snoc: "\<not> ends_with_odd_backslash (to_latin1 (s @ [c]))" if "0x20 \<le> c" "c \<le> 0x7E" "c \<noteq> 92" for s c
    using that char_of_class [of c] by simp
  have u: "\<not> ends_with_odd_backslash (to_latin1 (unicode_escape u))" for u
  proof -
    have "hex_char (u mod 16) \<noteq> 92" using printable_hex [of "u mod 16"] by (auto simp: hex_char_def)
    then show ?thesis
      using snoc [of "hex_char (u mod 16)" "[92, 117, hex_char (u div 4096 mod 16), hex_char (u div 256 mod 16), hex_char (u div 16 mod 16)]"]
        printable_hex [of "u mod 16"] by (simp add: unicode_escape_def)
  qed
  have pair: "\<not> ends_with_odd_backslash (to_latin1 [92, d])" if "0x20 \<le> d" "d \<le> 0x7E" for d
    using that snoc [of d "[92]"] odd_snoc [of "[BS]" BS] by (cases "d = 92") (auto simp: ends_with_odd_backslash_def)
  show e: "\<not> ends_with_odd_backslash (to_latin1 (escape_char c))"
    using u odd_even_append [OF u] pair [of 92] pair [of 110] pair [of 114] pair [of 116] pair [of 102] snoc [of c "[]"]
    by (auto simp: escape_char_def utf16_units_def)
  show "\<not> ends_with_odd_backslash (to_latin1 (key_escape c))"
    using e pair [of c] by (auto simp: key_escape_def SPECIALS_def)
qed

lemma even_key: "\<not> ends_with_odd_backslash (to_latin1 (escape_key k))"
  by (induction k) (auto simp: escape_key_Cons odd_even_append even_pieces)

lemma even_text: "\<not> ends_with_odd_backslash (to_latin1 (concat (map escape_char v)))"
  by (induction v) (auto simp: odd_even_append even_pieces)

lemma even_value: "\<not> ends_with_odd_backslash (to_latin1 (escape_value v))"
proof (cases "\<exists>c r. v = c # r \<and> c \<in> SPECIALS")
  case True
  then obtain c r where c: "v = c # r" "c \<in> SPECIALS" by blast
  then have "escape_value v = key_escape c @ concat (map escape_char r)"
    using special_range [OF c(2)] by (simp add: escape_value_def key_escape_def)
  then show ?thesis using even_pieces(2) even_text by (simp add: odd_even_append)
next
  case False
  then have "escape_value v = concat (map escape_char v)" by (cases v) (auto simp: escape_value_def)
  then show ?thesis using even_text by simp
qed

lemma line_start: "to_latin1 (escape_key k) = [] \<or> \<not> is_blank (hd (to_latin1 (escape_key k))) \<and> \<not> is_mark (hd (to_latin1 (escape_key k)))"
  "to_latin1 (escape_value v) = [] \<or> \<not> is_blank (hd (to_latin1 (escape_value v)))"
proof -
  have e: "\<exists>d r. escape_char c = d # r \<and> 0x20 \<le> d \<and> d \<le> 0x7E \<and> (c \<notin> SPECIALS \<longrightarrow> d \<notin> {32, 35, 33})" for c
    by (auto simp: escape_char_def utf16_units_def unicode_escape_def SPECIALS_def)
  show "to_latin1 (escape_key k) = [] \<or> \<not> is_blank (hd (to_latin1 (escape_key k))) \<and> \<not> is_mark (hd (to_latin1 (escape_key k)))"
  proof (cases k)
    case (Cons c r)
    then show ?thesis using e [of c] char_of_class by (cases "c \<in> SPECIALS") (auto simp: escape_key_Cons key_escape_def)
  qed (simp add: escape_key_Cons)
  show "to_latin1 (escape_value v) = [] \<or> \<not> is_blank (hd (to_latin1 (escape_value v)))"
  proof (cases v)
    case (Cons c r)
    then show ?thesis using e [of c] char_of_class by (cases "c \<in> SPECIALS") (auto simp: escape_value_def)
  qed (simp add: escape_value_def)
qed

lemma property_line_eq: "property_line k v = to_latin1 (escape_key k) @ CHR ''='' # to_latin1 (escape_value v)"
  by (simp add: property_line_def)

lemma property_line_no_eol: "no_eol (property_line k v)"
  using no_eol_printable printable_line by (simp add: property_line_eq is_eol_def)

lemma property_line_even: "\<not> ends_with_odd_backslash (property_line k v)"
proof -
  have "\<not> ends_with_odd_backslash (to_latin1 (escape_key k) @ [CHR ''=''])" by simp
  then show ?thesis using even_value odd_even_append [of "to_latin1 (escape_key k) @ [CHR ''='']"] by (simp add: property_line_eq)
qed

lemma property_line_start: "lstrip_blanks (property_line k v) = property_line k v" "\<not> is_mark (hd (property_line k v))" "property_line k v \<noteq> []"
proof -
  have eq: "\<not> is_blank (CHR ''='')" "\<not> is_mark (CHR ''='')" by (auto simp: is_blank_def BLANKS_def is_mark_def)
  show "property_line k v \<noteq> []" by (simp add: property_line_eq)
  show "\<not> is_mark (hd (property_line k v))" using line_start(1) [of k] eq
    by (cases "to_latin1 (escape_key k)") (auto simp: property_line_eq)
  show "lstrip_blanks (property_line k v) = property_line k v"
    by (rule lstrip_same) (use line_start(1) [of k] eq in \<open>cases "to_latin1 (escape_key k)"; auto simp: property_line_eq\<close>)
qed

lemma property_line_split:
  assumes "storable k" "storable v"
  shows "split_key_value (property_line k v) = (k, v)"
proof -
  have sep: "is_sep (CHR ''='')" "\<not> is_blank (CHR ''='')" by (auto simp: is_sep_def is_blank_def BLANKS_def)
  have "key_part (property_line k v) = (to_latin1 (escape_key k), CHR ''='' # to_latin1 (escape_value v))"
    using key_text_key [of k] sep by (simp add: key_text_def property_line_eq)
  moreover have "skip_sep (CHR ''='' # to_latin1 (escape_value v)) = to_latin1 (escape_value v)"
    using sep line_start(2) [of v] lstrip_same [of "to_latin1 (escape_value v)"] by (auto simp: skip_sep_def lstrip_blanks_def)
  ultimately show ?thesis
    using assms by (simp add: split_key_value_def load_convert_eq latin1_inverse printable_line unescape_key unescape_value)
qed

lemma read_property_line:
  "storable k \<Longrightarrow> storable v \<Longrightarrow> java_read None (property_line k v # ys) = (k, v) # java_read None ys"
  using property_line_start [of k v] property_line_even property_line_split by (simp add: Let_def)

end
