(* ===== verification/Properties_Rewrite.thy ===== *)
theory Properties_Rewrite
  imports Properties_Escape
begin

text \<open>
  The rewrites of \<open>server.properties\<close>, byte splices on the spans the reader reports, against the edit they
  stand for on the list of properties a Java reader finds.
\<close>

section \<open>Splitting at a cut\<close>

lemma eat_eol_append: "eat_eol y = Some r \<Longrightarrow> r \<noteq> [] \<Longrightarrow> eat_eol (y @ w) = Some (r @ w)"
  by (cases y; cases "tl y") (auto split: if_splits)

lemma splitlines_append:
  "c \<noteq> [] \<Longrightarrow> cut c w \<Longrightarrow> splitlines (c @ w) = splitlines c @ splitlines w"
proof (induction "length c" arbitrary: c rule: less_induct)
  case less
  show ?case
  proof (cases c rule: natural_line_cases)
    case (terminated x y c')
    have nl: "splitlines c = x # splitlines c'" by (rule splitlines_line [OF less.prems(1) terminated(4)])
    obtain e where e: "y = e @ c'" "e \<noteq> []" "is_eol (last e)" "last e = CR \<longrightarrow> c' = [] \<or> hd c' \<noteq> LF"
      using eat_eol_Some [OF terminated(3)] by blast
    show ?thesis
    proof (cases "c' = []")
      case True
      then have "last c = last e" using terminated(1) e by simp
      then have "last e = CR \<longrightarrow> w = [] \<or> hd w \<noteq> LF" using less.prems by (simp add: cut_def)
      then have "eat_eol (y @ w) = Some w"
        using terminated(3) True e by (cases y; cases "tl y"; cases w) (auto split: if_splits)
      then have "natural_line (c @ w) = (x, w)"
        using natural_line_terminated [OF terminated(2)] terminated(1) by (metis append_assoc)
      then have "splitlines (c @ w) = x # splitlines w" using less.prems(1) by (intro splitlines_line) auto
      then show ?thesis using nl True by simp
    next
      case False
      then have "eat_eol (y @ w) = Some (c' @ w)" by (rule eat_eol_append [OF terminated(3)])
      then have "natural_line (c @ w) = (x, c' @ w)"
        using natural_line_terminated [OF terminated(2)] terminated(1) by (metis append_assoc)
      then have "splitlines (c @ w) = x # splitlines (c' @ w)" using less.prems(1) by (intro splitlines_line) auto
      moreover have "length c' < length c" using terminated(1) e(1,2) by simp
      moreover have "cut c' w" using less.prems(2) False terminated(1) e(1) by (auto simp: cut_def)
      ultimately show ?thesis using less.hyps False nl by simp
    qed
  next
    case last
    then show ?thesis using less.prems by (auto simp: cut_def no_eol_def)
  qed
qed

lemma splitlines_LF: "splitlines (LF # w) = [] # splitlines w"
  by (rule splitlines_line) (simp_all add: natural_line_def Let_def is_eol_def)

lemma splitlines_snoc_LF: "f \<noteq> [] \<Longrightarrow> last f \<noteq> LF \<Longrightarrow> splitlines (f @ [LF]) = splitlines f"
proof (induction "length f" arbitrary: f rule: less_induct)
  case less
  show ?case
  proof (cases f rule: natural_line_cases)
    case (terminated x y f')
    have nl: "splitlines f = x # splitlines f'" by (rule splitlines_line [OF less.prems(1) terminated(4)])
    obtain e where e: "y = e @ f'" "e \<noteq> []" using eat_eol_Some [OF terminated(3)] by blast
    show ?thesis
    proof (cases "f' = []")
      case True
      have "last y = last f" using terminated(1) e True by simp
      then have "y = [CR]" using terminated(3) True less.prems(2) by (cases y; cases "tl y") (auto split: if_splits)
      then have "natural_line (f @ [LF]) = (x, [])"
        using natural_line_terminated [OF terminated(2), of "[CR, LF]" "[]"] terminated(1) by simp
      then have "splitlines (f @ [LF]) = [x]" using splitlines_line [of "f @ [LF]" x "[]"] by simp
      then show ?thesis using nl True by simp
    next
      case False
      then have "eat_eol (y @ [LF]) = Some (f' @ [LF])" by (rule eat_eol_append [OF terminated(3)])
      then have "natural_line (f @ [LF]) = (x, f' @ [LF])"
        using natural_line_terminated [OF terminated(2)] terminated(1) by (metis append_assoc)
      then have "splitlines (f @ [LF]) = x # splitlines (f' @ [LF])" by (intro splitlines_line) auto
      moreover have "length f' < length f" using terminated(1) e by simp
      moreover have "last f' \<noteq> LF" using less.prems(2) terminated(1) e False by simp
      ultimately show ?thesis using less.hyps False nl by simp
    qed
  next
    case last
    have "natural_line (f @ [LF]) = (f, [])" by (rule natural_line_terminated [OF last(1)]) simp
    then show ?thesis using splitlines_line [of "f @ [LF]" f "[]"] splitlines_line [OF less.prems(1) last(2)] by simp
  qed
qed

text \<open>A run of lines that ends at a cut reads on its own, whatever the bytes spliced after it.\<close>

lemma closed_splice:
  assumes "closed (splitlines c) found" "c \<noteq> []" "is_eol (last c)"
  shows "java_read None (splitlines (c @ w) @ ys) = found @ java_read None (splitlines w @ ys)"
proof (cases "last c = CR \<and> w \<noteq> [] \<and> hd w = LF")
  case True
  then obtain w' where w: "w = LF # w'" by (cases w) auto
  have "splitlines (c @ [LF]) = splitlines c" using splitlines_snoc_LF assms(2) True by simp
  moreover have "splitlines ((c @ [LF]) @ w') = splitlines (c @ [LF]) @ splitlines w'"
    by (rule splitlines_append) (auto simp: cut_def is_eol_def)
  ultimately have "splitlines (c @ w) = splitlines c @ splitlines w'" by (simp add: w)
  then show ?thesis using assms(1) by (simp add: w splitlines_LF closed_def Let_def)
next
  case False
  then have "cut c w" using assms(3) by (auto simp: cut_def)
  then show ?thesis using splitlines_append [OF assms(2)] assms(1) by (simp add: closed_def)
qed

lemma segment_closed:
  assumes "reads crlf rest found rest'" "rest' \<noteq> []" "rest \<noteq> rest'"
  shows "\<exists>c. rest = c @ rest' \<and> c \<noteq> [] \<and> is_eol (last c) \<and> closed (splitlines c) found"
proof -
  obtain ls where ls: "takes rest ls rest'" "closed ls found" using assms(1,2) by (auto simp: reads_def)
  obtain c where c: "rest = c @ rest'" "cut c rest'" "splitlines rest = ls @ splitlines rest'"
    using ls(1) assms(2) by (auto simp: takes_def)
  have "c \<noteq> []" using c(1) assms(3) by auto
  moreover have "splitlines c = ls" using splitlines_append [OF calculation c(2)] c(1,3) by simp
  ultimately show ?thesis using c ls(2) by (auto simp: cut_def)
qed

section \<open>The edit, on properties and on bytes\<close>

type_synonym edits = "(pystr, pystr) dict"

fun edit :: "edits \<Rightarrow> pystr set \<Rightarrow> pystr list \<Rightarrow> (pystr \<times> pystr) list \<Rightarrow> (pystr \<times> pystr) list" where
  \<comment> \<open>the first line of a set key takes its value, the later ones and those of a cleared key go\<close>
  "edit vs cl written [] = []"
| "edit vs cl written ((k, x) # kvs) =
     (case dget vs k of
        Some v \<Rightarrow> if k \<in> set written then edit vs cl written kvs else (k, v) # edit vs cl (k # written) kvs
      | None \<Rightarrow> if k \<in> cl then edit vs cl written kvs else (k, x) # edit vs cl written kvs)"

fun written_after :: "edits \<Rightarrow> pystr list \<Rightarrow> (pystr \<times> pystr) list \<Rightarrow> pystr list" where
  "written_after vs written [] = written"
| "written_after vs written ((k, x) # kvs) =
     written_after vs (if dget vs k \<noteq> None \<and> k \<notin> set written then k # written else written) kvs"

definition touched :: "edits \<Rightarrow> pystr set \<Rightarrow> (pystr \<times> pystr) option \<Rightarrow> bool" where
  "touched vs cl found \<longleftrightarrow> (case found of None \<Rightarrow> False | Some (k, x) \<Rightarrow> dget vs k \<noteq> None \<or> k \<in> cl)"

definition emitted :: "edits \<Rightarrow> pystr set \<Rightarrow> pystr list \<Rightarrow> (pystr \<times> pystr) option \<Rightarrow> bytes \<Rightarrow> bytes" where
  \<comment> \<open>what a segment of the content becomes\<close>
  "emitted vs cl written found c =
     (if \<not> touched vs cl found then c
      else case found of
             None \<Rightarrow> []
           | Some (k, x) \<Rightarrow> (case dget vs k of Some v \<Rightarrow> if k \<in> set written then [] else property_line k v @ [LF] | None \<Rightarrow> []))"

definition found_list :: "(pystr \<times> pystr) option \<Rightarrow> (pystr \<times> pystr) list" where
  "found_list found = (case found of None \<Rightarrow> [] | Some p \<Rightarrow> [p])"

function emit :: "edits \<Rightarrow> pystr set \<Rightarrow> bool \<Rightarrow> pystr list \<Rightarrow> bytes \<Rightarrow> bytes" where
  "emit vs cl crlf written rest =
     (if rest = [] then []
      else let (found, rest') = next_property crlf rest
           in emitted vs cl written found (take (length rest - length rest') rest) @
              emit vs cl crlf (written_after vs written (found_list found)) rest')"
  by pat_completeness auto
termination
proof (relation "measure (\<lambda>(vs, cl, crlf, written, rest). length rest)")
  fix vs :: edits and cl :: "pystr set" and crlf written rest x found rest'
  assume "rest \<noteq> []" "x = next_property crlf rest" "(found, rest') = x"
  then have "length rest' < length rest" using next_property_less [of rest crlf] by (metis snd_conv)
  then show "((vs, cl, crlf, written_after vs written (found_list found), rest'), (vs, cl, crlf, written, rest)) \<in>
      measure (\<lambda>(vs, cl, crlf, written, rest). length rest)" by simp
qed simp

function final_segment :: "bool \<Rightarrow> bytes \<Rightarrow> (pystr \<times> pystr) option \<times> bytes" where
  \<comment> \<open>the last stretch of the content the reader takes in one turn\<close>
  "final_segment crlf rest =
     (if rest = [] then (None, [])
      else let (found, rest') = next_property crlf rest
           in if rest' = [] then (found, rest) else final_segment crlf rest')"
  by pat_completeness auto
termination
proof (relation "measure (\<lambda>(crlf, rest). length rest)")
  fix crlf rest x found rest'
  assume "rest \<noteq> []" "x = next_property crlf rest" "(found, rest') = x"
  then show "((crlf, rest'), (crlf, rest)) \<in> measure (\<lambda>(crlf, rest). length rest)"
    using next_property_less [of rest crlf] by (metis case_prod_conv in_measure snd_conv)
qed simp

declare emit.simps [simp del] final_segment.simps [simp del]

lemma emit_Nil [simp]: "emit vs cl crlf written [] = []"
  by (simp add: emit.simps)

text \<open>One turn of the reader, as every induction below uses it.\<close>

lemma turn:
  assumes "rest \<noteq> []"
  obtains found rest' c where "next_property crlf rest = (found, rest')" "length rest' < length rest" "rest = c @ rest'" "c \<noteq> []"
    "take (length rest - length rest') rest = c" "reads crlf rest (found_list found) rest'"
    "rest' \<noteq> [] \<Longrightarrow> is_eol (last c) \<and> closed (splitlines c) (found_list found) \<and> cut c rest'"
proof -
  obtain found rest' where n: "next_property crlf rest = (found, rest')" by fastforce
  have less: "length rest' < length rest" using next_property_less [OF assms, of crlf] n by simp
  have r: "reads crlf rest (found_list found) rest'" using next_property_reads [OF assms n] by (simp add: found_list_def)
  obtain c where c: "rest = c @ rest'" "rest' \<noteq> [] \<longrightarrow> cut c rest'" using r by (auto simp: reads_def takes_def)
  have "c \<noteq> []" using c(1) less by auto
  moreover have "take (length rest - length rest') rest = c" using c(1) by simp
  moreover have "is_eol (last c) \<and> closed (splitlines c) (found_list found) \<and> cut c rest'" if ne: "rest' \<noteq> []"
  proof -
    have "rest \<noteq> rest'" using less by auto
    then obtain c' where "rest = c' @ rest'" "is_eol (last c')" "closed (splitlines c') (found_list found)"
      using segment_closed [OF r ne] by blast
    then show ?thesis using c ne by auto
  qed
  ultimately show ?thesis using that n less c(1) r by blast
qed

lemma emit_turn:
  assumes "rest \<noteq> []" "next_property crlf rest = (found, rest')" "take (length rest - length rest') rest = c"
  shows "emit vs cl crlf written rest =
    emitted vs cl written found c @ emit vs cl crlf (written_after vs written (found_list found)) rest'"
  using assms by (subst emit.simps) simp

lemma parse_turn:
  assumes "rest \<noteq> []" "next_property crlf rest = (found, rest')"
  shows "parse_at n crlf rest = map (\<lambda>(k, v). \<lparr>p_key = k, p_value = v, p_start = n - length rest, p_end = n - length rest'\<rparr>) (found_list found) @
    parse_at n crlf rest'"
  using assms by (subst parse_at.simps) (auto simp: found_list_def split: option.splits)

lemma final_turn:
  assumes "rest \<noteq> []" "next_property crlf rest = (found, rest')"
  shows "final_segment crlf rest = (if rest' = [] then (found, rest) else final_segment crlf rest')"
  using assms by (subst final_segment.simps) simp

lemma pairs_simps [simp]: "pairs [] = []" "pairs (p # ps) = (p_key p, p_value p) # pairs ps" "pairs (ps @ qs) = pairs ps @ pairs qs"
  by (simp_all add: pairs_def)

lemma pairs_turn:
  "pairs (map (\<lambda>(k, v). \<lparr>p_key = k, p_value = v, p_start = i, p_end = j\<rparr>) (found_list found)) = found_list found"
  by (auto simp: found_list_def split: option.splits)

section \<open>Reading what is emitted\<close>

definition edits_ok :: "edits \<Rightarrow> bool" where
  "edits_ok vs \<longleftrightarrow> dwf vs \<and> (\<forall>k v. dget vs k = Some v \<longrightarrow> storable k \<and> storable v)"

lemma edit_found:
  "edit vs cl written (found_list found @ kvs) =
     edit vs cl written (found_list found) @ edit vs cl (written_after vs written (found_list found)) kvs"
  by (auto simp: found_list_def split: option.splits)

lemma splitlines_property_line: "splitlines ((property_line k v @ [LF]) @ w) = property_line k v # splitlines w"
proof -
  have "natural_line ((property_line k v @ [LF]) @ w) = (property_line k v, w)"
    using natural_line_terminated [OF property_line_no_eol, of "LF # w" w] by simp
  then show ?thesis by (intro splitlines_line) auto
qed

lemma touched_reads:
  assumes "edits_ok vs" "touched vs cl found"
  shows "java_read None (splitlines (emitted vs cl written found c @ w) @ ys) =
    edit vs cl written (found_list found) @ java_read None (splitlines w @ ys)"
proof -
  obtain k x where f: "found = Some (k, x)" "dget vs k \<noteq> None \<or> k \<in> cl"
    using assms(2) by (auto simp: touched_def split: option.splits)
  have "java_read None (splitlines ((property_line k v @ [LF]) @ w) @ ys) = (k, v) # java_read None (splitlines w @ ys)"
    if "dget vs k = Some v" for v
    using read_property_line that assms(1) unfolding splitlines_property_line by (simp add: edits_ok_def)
  then show ?thesis using assms(2) f by (auto simp: emitted_def found_list_def split: option.splits)
qed

lemma edit_untouched: "\<not> touched vs cl found \<Longrightarrow> edit vs cl written (found_list found) = found_list found"
  by (auto simp: touched_def found_list_def split: option.splits)

lemma emitted_reads:
  assumes "edits_ok vs" "closed (splitlines c) (found_list found)" "c \<noteq> []" "is_eol (last c)"
  shows "java_read None (splitlines (emitted vs cl written found c @ w) @ ys) =
    edit vs cl written (found_list found) @ java_read None (splitlines w @ ys)"
proof (cases "touched vs cl found")
  case False
  then show ?thesis using closed_splice [OF assms(2-4)] edit_untouched by (simp add: emitted_def)
qed (rule touched_reads [OF assms(1)])

lemma emit_reads:
  assumes "edits_ok vs" "rest \<noteq> []" "final_segment crlf rest = (p, f)"
    and kept: "\<not> touched vs cl p \<Longrightarrow> java_read None (splitlines (f @ w) @ ys) = found_list p @ z"
    and gone: "touched vs cl p \<Longrightarrow> java_read None (splitlines w @ ys) = z"
  shows "java_read None (splitlines (emit vs cl crlf written rest @ w) @ ys) = edit vs cl written (pairs (parse_at n crlf rest)) @ z"
  using assms(2,3)
proof (induction "length rest" arbitrary: rest written rule: less_induct)
  case less
  from less.prems(1) show ?case
  proof (cases rule: turn [of rest crlf])
    case (1 found rest' c)
    note e = emit_turn [OF less.prems(1) 1(1,5)] and q = parse_turn [OF less.prems(1) 1(1)]
    show ?thesis
    proof (cases "rest' = []")
      case True
      then have "p = found" "f = c" using final_turn [OF less.prems(1) 1(1)] less.prems(2) 1(3) by auto
      moreover have "pairs (parse_at n crlf rest) = found_list found"
        using q True by (simp add: pairs_turn parse_at.simps)
      moreover have "emit vs cl crlf written rest = emitted vs cl written found c" using e True by simp
      ultimately show ?thesis
        using kept gone touched_reads [OF assms(1)] edit_untouched by (cases "touched vs cl found") (auto simp: emitted_def)
    next
      case False
      have "final_segment crlf rest' = (p, f)" using final_turn [OF less.prems(1) 1(1)] less.prems(2) False by simp
      then have ih: "java_read None (splitlines (emit vs cl crlf wr rest' @ w) @ ys) = edit vs cl wr (pairs (parse_at n crlf rest')) @ z" for wr
        using less.hyps 1(2) False by blast
      have "java_read None (splitlines (emit vs cl crlf written rest @ w) @ ys) =
          edit vs cl written (found_list found) @
          java_read None (splitlines (emit vs cl crlf (written_after vs written (found_list found)) rest' @ w) @ ys)"
        using emitted_reads [OF assms(1)] 1(4) 1(7) [OF False] by (simp add: e)
      then show ?thesis using ih by (simp add: q pairs_turn edit_found)
    qed
  qed
qed

section \<open>The loop of the rewrite\<close>

lemma dget_lines: "dget (map (\<lambda>(k, v). (k, property_line k v)) vs) k = map_option (property_line k) (dget vs k)"
  by (induction vs) auto

lemma rewrite_loop_emits:
  assumes "rewrite_loop content (map (\<lambda>(k, v). (k, property_line k v)) vs) cl out cursor written (parse_at (length content) crlf rest) =
      (out', cursor', written')"
    "content = pre @ rest" "cursor \<le> length pre"
  shows "out' @ drop cursor' content = out @ drop cursor pre @ emit vs cl crlf written rest \<and>
    written' = written_after vs written (pairs (parse_at (length content) crlf rest)) \<and>
    (cursor' < length content \<longleftrightarrow> (if rest = [] then cursor < length pre else \<not> touched vs cl (fst (final_segment crlf rest))))"
  using assms
proof (induction "length rest" arbitrary: rest pre out cursor written rule: less_induct)
  case less
  show ?case
  proof (cases "rest = []")
    case True
    then have "parse_at (length content) crlf rest = []" by (simp add: parse_at.simps)
    then show ?thesis using less.prems True by auto
  next
    case ne: False
    then show ?thesis
    proof (cases rule: turn [of rest crlf])
      case (1 found rest' c)
      let ?n = "length content" and ?l = "map (\<lambda>(k, v). (k, property_line k v)) vs"
      note e = emit_turn [OF ne 1(1,5), of vs cl written] and q = parse_turn [OF ne 1(1), of ?n] and fin = final_turn [OF ne 1(1)]
      have pos: "?n - length rest = length pre" "?n - length rest' = length (pre @ c)" "content = (pre @ c) @ rest'"
        using less.prems(2) 1(3) by auto
      show ?thesis
      proof (cases "touched vs cl found")
        case False
        have "rewrite_loop content ?l cl out cursor written (parse_at ?n crlf rest) =
            rewrite_loop content ?l cl out cursor written (parse_at ?n crlf rest')"
          using False q by (auto simp: touched_def found_list_def dget_lines split: option.splits)
        moreover have "written_after vs written (found_list found) = written"
          using False by (auto simp: touched_def found_list_def split: option.splits)
        moreover have "emitted vs cl written found c = c" using False by (simp add: emitted_def)
        moreover have "cursor < length (pre @ c)" using less.prems(3) 1(4) by (cases c) auto
        ultimately show ?thesis
          using less.hyps [OF 1(2) _ pos(3), of out cursor written] less.prems(1,3) ne fin q e False
          by (auto simp: found_list_def split: option.splits if_splits)
      next
        case True
        then obtain k x where f: "found = Some (k, x)" "dget vs k \<noteq> None \<or> k \<in> cl"
          by (auto simp: touched_def split: option.splits)
        let ?out = "out @ drop cursor pre"
        have slice: "slice content cursor (length pre) = drop cursor pre"
          using less.prems(2,3) by (simp add: slice_def)
        have loop: "rewrite_loop content ?l cl out cursor written (parse_at ?n crlf rest) =
            rewrite_loop content ?l cl (?out @ emitted vs cl written found c) (length (pre @ c))
              (written_after vs written (found_list found)) (parse_at ?n crlf rest')"
          using f True q pos(1,2) by (auto simp: found_list_def dget_lines slice emitted_def split: option.splits)
        show ?thesis
          using less.hyps [OF 1(2) less.prems(1) [unfolded loop] pos(3)] ne fin q e True f
          by (auto simp: found_list_def split: if_splits)
      qed
    qed
  qed
qed

section \<open>The end of the content\<close>

lemma final_segment_facts:
  assumes "rest \<noteq> []" "length rest \<le> n" "final_segment crlf rest = (p, f)"
  shows "(\<exists>c. rest = c @ f \<and> cut c f) \<and> f \<noteq> [] \<and> reads crlf f (found_list p) [] \<and>
    (p \<noteq> None \<longrightarrow> parse_at n crlf rest \<noteq> [] \<and> p_start (last (parse_at n crlf rest)) = n - length f \<and>
       p_end (last (parse_at n crlf rest)) = n) \<and>
    (p = None \<longrightarrow> parse_at n crlf rest = [] \<or> p_end (last (parse_at n crlf rest)) \<noteq> n)"
  using assms
proof (induction "length rest" arbitrary: rest rule: less_induct)
  case less
  from less.prems(1) show ?case
  proof (cases rule: turn [of rest crlf])
    case (1 found rest' c)
    note q = parse_turn [OF less.prems(1) 1(1), of n] and fin = final_turn [OF less.prems(1) 1(1)]
    show ?thesis
    proof (cases "rest' = []")
      case True
      then have "p = found" "f = rest" using fin less.prems(3) by auto
      moreover have "parse_at n crlf rest' = []" using True by (simp add: parse_at.simps)
      ultimately show ?thesis using 1(6) q True less.prems(1)
        by (auto simp: found_list_def cut_def split: option.splits)
    next
      case False
      have fin': "final_segment crlf rest' = (p, f)" using fin less.prems(3) False by simp
      have len: "length rest' \<le> n" using 1(2) less.prems(2) by simp
      note ih = less.hyps [OF 1(2) False len fin']
      obtain c' where c': "rest' = c' @ f" "cut c' f" using ih by blast
      have "cut (c @ c') f" using 1(7) [OF False] c' by (cases "c' = []") (auto simp: cut_def)
      then have "\<exists>d. rest = d @ f \<and> cut d f" using 1(3) c'(1) by (intro exI [of _ "c @ c'"]) simp
      moreover have "n - length rest' \<noteq> n" using False len by (cases rest') auto
      ultimately show ?thesis using ih by (auto simp: q found_list_def split: option.splits)
    qed
  qed
qed

lemma last_line_shape:
  "f \<noteq> [] \<Longrightarrow> \<exists>g l e. f = g @ l @ e \<and> no_eol l \<and> cut g (l @ e) \<and> last (splitlines f) = l \<and> splitlines f \<noteq> [] \<and>
     e \<in> {[], [CR], [LF], [CR, LF]} \<and> (l = [] \<longrightarrow> e \<noteq> [])"
proof (induction "length f" arbitrary: f rule: less_induct)
  case less
  show ?case
  proof (cases f rule: natural_line_cases)
    case (terminated x y f')
    have nl: "splitlines f = x # splitlines f'" by (rule splitlines_line [OF less.prems terminated(4)])
    obtain e where e: "y = e @ f'" "e \<noteq> []" "is_eol (last e)" "last e = CR \<longrightarrow> f' = [] \<or> hd f' \<noteq> LF"
      using eat_eol_Some [OF terminated(3)] by blast
    show ?thesis
    proof (cases "f' = []")
      case True
      have "y = [CR] \<or> y = [LF] \<or> y = [CR, LF]"
        using terminated(3) True by (cases y; cases "tl y") (auto split: if_splits)
      then have "f = [] @ x @ y \<and> no_eol x \<and> cut [] (x @ y) \<and> last (splitlines f) = x \<and> splitlines f \<noteq> [] \<and>
          y \<in> {[], [CR], [LF], [CR, LF]} \<and> (x = [] \<longrightarrow> y \<noteq> [])"
        using terminated nl True by (auto simp: cut_def)
      then show ?thesis by blast
    next
      case False
      have "length f' < length f" using terminated(1) e by simp
      then obtain g l e' where ih: "f' = g @ l @ e'" "no_eol l" "cut g (l @ e')" "last (splitlines f') = l" "splitlines f' \<noteq> []"
        "e' \<in> {[], [CR], [LF], [CR, LF]}" "l = [] \<longrightarrow> e' \<noteq> []"
        using less.hyps False by blast
      have "cut (x @ e @ g) (l @ e')"
      proof (cases "g = []")
        case True
        then show ?thesis using e(2-4) ih(1) False by (auto simp: cut_def)
      qed (use ih(3) in \<open>auto simp: cut_def\<close>)
      then have "f = (x @ e @ g) @ l @ e' \<and> no_eol l \<and> cut (x @ e @ g) (l @ e') \<and> last (splitlines f) = l \<and>
          splitlines f \<noteq> [] \<and> e' \<in> {[], [CR], [LF], [CR, LF]} \<and> (l = [] \<longrightarrow> e' \<noteq> [])"
        using terminated(1) e(1) ih nl by simp
      then show ?thesis by blast
    qed
  next
    case last
    then have "f = [] @ f @ [] \<and> no_eol f \<and> cut [] (f @ []) \<and> last (splitlines f) = f \<and> splitlines f \<noteq> [] \<and>
        [] \<in> {[], [CR], [LF], [CR, LF]} \<and> (f = [] \<longrightarrow> [] \<noteq> [])"
      using splitlines_line [OF less.prems last(2)] less.prems by (simp add: cut_def)
    then show ?thesis by blast
  qed
qed

lemma ends_in_snoc: "ends_in x [c] \<longleftrightarrow> x \<noteq> [] \<and> last x = c"
  by (cases x rule: rev_cases) (auto simp: ends_in_def)

lemma ends_in_snoc2: "ends_in x [c, d] \<longleftrightarrow> (\<exists>y. x = y @ [c, d])"
proof
  assume a: "ends_in x [c, d]"
  have "x = take (length x - 2) x @ drop (length x - 2) x" by simp
  then show "\<exists>y. x = y @ [c, d]" using a unfolding ends_in_def by (metis One_nat_def Suc_1 length_Cons list.size(3))
qed (auto simp: ends_in_def)

lemma ends_in_last: "ends_in x [c, d] \<Longrightarrow> ends_in x [d]"
  by (auto simp: ends_in_snoc ends_in_snoc2)

lemma last_natural_line_eq:
  assumes "f \<noteq> []" "cut c f"
  shows "last_natural_line (c @ f) = last (splitlines f)"
proof -
  obtain g l e where f: "f = g @ l @ e" "no_eol l" "cut g (l @ e)" "last (splitlines f) = l"
    "e \<in> {[], [CR], [LF], [CR, LF]}" "l = [] \<longrightarrow> e \<noteq> []"
    using last_line_shape [OF assms(1)] by blast
  define h where "h = c @ g"
  have h: "cut h (l @ e)" using assms(2) f(1,3) by (cases "g = []") (auto simp: h_def cut_def)
  have content: "c @ f = h @ l @ e" by (simp add: h_def f(1))
  have line: "rev (takeWhile (\<lambda>c. \<not> is_eol c) (rev (h @ l))) = l"
  proof -
    have "rev h = [] \<or> is_eol (hd (rev h))" using h by (auto simp: cut_def hd_rev)
    moreover have "no_eol (rev l)" using f(2) by (simp add: no_eol_def)
    ultimately have "takeWhile (\<lambda>c. \<not> is_eol c) (rev l @ rev h) = rev l" by (intro line_of) auto
    then show ?thesis by simp
  qed
  have nol: "l = [] \<or> \<not> is_eol (last l)" using f(2) by (auto simp: no_eol_def)
  have "(if ends_in (h @ l @ e) [CR, LF] then take (length (h @ l @ e) - 2) (h @ l @ e)
      else if ends_in (h @ l @ e) [LF] \<or> ends_in (h @ l @ e) [CR] then butlast (h @ l @ e) else h @ l @ e) = h @ l"
  proof -
    consider "e = []" | "e = [CR]" | "e = [LF]" | "e = [CR, LF]" using f(5) by blast
    then show ?thesis
    proof cases
      case 1
      then have "l \<noteq> []" using f(6) by blast
      then have "\<not> ends_in (h @ l @ e) [LF]" "\<not> ends_in (h @ l @ e) [CR]"
        using nol 1 by (auto simp: ends_in_snoc is_eol_def)
      then show ?thesis using 1 ends_in_last [of "h @ l @ e" CR LF] by auto
    next
      case 2
      then have "\<not> ends_in (h @ l @ e) [CR, LF]" by (auto simp: ends_in_snoc2)
      then show ?thesis using 2 by (simp add: ends_in_snoc butlast_append)
    next
      case 3
      have "\<not> ends_in (h @ l @ e) [CR, LF]"
      proof
        assume "ends_in (h @ l @ e) [CR, LF]"
        then obtain y where "(h @ l) @ [LF] = (y @ [CR]) @ [LF]" using 3 by (auto simp: ends_in_snoc2)
        then have "h @ l = y @ [CR]" by simp
        then have "l = [] \<and> h \<noteq> [] \<and> last h = CR"
          using nol by (cases l rule: rev_cases) (auto simp: is_eol_def)
        then show False using h 3 by (auto simp: cut_def)
      qed
      then show ?thesis using 3 by (simp add: ends_in_snoc butlast_append)
    next
      case 4
      then have "ends_in (h @ l @ e) [CR, LF]" by (auto simp: ends_in_snoc2)
      then show ?thesis using 4 by simp
    qed
  qed
  then show ?thesis using line by (simp only: last_natural_line_def content Let_def f(4))
qed

section \<open>The rewrite\<close>

definition appended_to :: "edits \<Rightarrow> (pystr \<times> pystr) list \<Rightarrow> (pystr \<times> pystr) list" where
  \<comment> \<open>the set keys the content has no line for\<close>
  "appended_to vs kvs = filter (\<lambda>(k, v). k \<notin> fst ` set kvs) vs"

lemma set_written_after: "set (written_after vs written kvs) = set written \<union> {k \<in> fst ` set kvs. dget vs k \<noteq> None}"
  by (induction vs written kvs rule: written_after.induct) auto

lemma read_appended:
  assumes "edits_ok vs" "set app \<subseteq> set vs"
  shows "java_read None (splitlines (concat (map (\<lambda>(k, v). property_line k v @ [LF]) app))) = app"
  using assms(2)
proof (induction app)
  case (Cons kv app)
  obtain k v where kv: "kv = (k, v)" by fastforce
  have "dget vs k = Some v" using Cons.prems assms(1) kv by (auto simp: edits_ok_def dwf_def)
  then have "storable k" "storable v" using assms(1) by (auto simp: edits_ok_def)
  then show ?case using Cons kv splitlines_property_line [of k v] read_property_line by simp
qed simp

lemma java_load_parse: "java_load content = pairs (parse content)"
  by (simp add: java_load_def parse_def parse_at_reads)

text \<open>What is appended after a final segment that is kept.\<close>

lemma appended_after_kept:
  assumes r: "reads crlf f (found_list p) []" "f \<noteq> []"
    and sep: "sep = (if ends_in f [LF] then [] else [LF])"
    and cont: "cont = (if p \<noteq> None \<and> ends_with_odd_backslash (last (splitlines f))
       then if all_lone (splitlines f) then [CHR ''='', LF] else [LF] else [])"
    and app: "splitlines app \<noteq> []"
  shows "java_read None (splitlines (f @ sep @ cont @ app)) = found_list p @ java_read None (splitlines app)"
proof -
  have "ends_in (f @ sep) [LF]" using sep r(2) by (auto simp: ends_in_snoc)
  moreover have "splitlines (f @ sep) = splitlines f"
    using sep splitlines_snoc_LF [OF r(2)] r(2) by (auto simp: ends_in_snoc)
  moreover have "cut (f @ sep) w" for w using calculation(1) by (auto simp: cut_def ends_in_snoc is_eol_def)
  ultimately have split: "splitlines (f @ sep @ w) = splitlines f @ splitlines w" for w
    using splitlines_append [of "f @ sep" w] r(2) by simp
  have blank: "java_read None (splitlines (LF # w)) = java_read None (splitlines w)" for w
    by (simp add: splitlines_LF Let_def)
  have eqline: "splitlines ([CHR ''='', LF] @ w) = [CHR ''=''] # splitlines w" for w
    by (rule splitlines_line) (simp_all add: natural_line_def Let_def is_eol_def)
  have kv0: "split_key_value [CHR ''=''] = ([], [])" "split_key_value [] = ([], [])"
    by (simp_all add: split_key_value_def load_convert_eq latin1_def skip_sep_def is_sep_def is_blank_def BLANKS_def)
  have ls: "\<exists>ls. takes f ls [] \<and> ls = splitlines f" using r(1) by (auto simp: reads_def takes_def)
  have "closed (splitlines f) (found_list p) \<or> dangling (splitlines f) (found_list p) \<or>
      all_lone (splitlines f) \<and> found_list p = (if crlf then [] else [split_key_value []])"
    using r(1) by (auto simp: reads_def takes_def)
  then consider "closed (splitlines f) (found_list p)" | "dangling (splitlines f) (found_list p)"
    | "all_lone (splitlines f)" "found_list p = (if crlf then [] else [split_key_value []])" by blast
  then show ?thesis
  proof cases
    case 1
    have "\<not> all_lone (splitlines f)"
    proof
      assume lone: "all_lone (splitlines f)"
      have "found_list p = [split_key_value []]"
        using 1 all_lone_reads_to_end(1) [OF lone] by (auto simp: closed_def dest: spec [of _ "[]"])
      moreover have "found_list p @ java_read None [[]] = java_read None [[]]"
        using 1 all_lone_reads_to_end(2) [OF lone, of "[[]]"] by (auto simp: closed_def)
      ultimately show False by simp
    qed
    then have "cont = [] \<or> cont = [LF]" by (simp add: cont)
    then show ?thesis using 1 split blank by (auto simp: closed_def)
  next
    case 2
    then obtain acc where acc: "acc \<noteq> []" "found_list p = [split_key_value acc]"
      "\<forall>ys. java_read None (splitlines f @ ys) = java_read (Some acc) ys" "ends_with_odd_backslash (last (splitlines f))"
      by (auto simp: dangling_def)
    have "\<not> all_lone (splitlines f)"
    proof
      assume lone: "all_lone (splitlines f)"
      then have "java_read (Some acc) [[]] = []" using acc(3) all_lone_reads_to_end(2) [OF lone, of "[[]]"] by (auto simp: Let_def)
      then show False using acc(1) by (simp add: Let_def)
    qed
    moreover have "p \<noteq> None" using acc(2) by (cases p) (auto simp: found_list_def)
    ultimately have "cont = [LF]" using acc(4) by (simp add: cont)
    then have "splitlines (cont @ app) = [] # splitlines app" by (simp add: splitlines_LF)
    then show ?thesis using split acc by (simp add: Let_def)
  next
    case 3
    have odd: "ends_with_odd_backslash (last (splitlines f))"
    proof -
      have "lstrip_blanks (last (splitlines f)) = [BS]" using 3(1) by (auto simp: all_lone_def)
      then show ?thesis using odd_lstrip [of "last (splitlines f)"] by (simp add: ends_with_odd_backslash_def)
    qed
    show ?thesis
    proof (cases "p = None")
      case True
      then have "cont = []" by (simp add: cont)
      then show ?thesis using split all_lone_reads_to_end(2) [OF 3(1) app] True by (simp add: found_list_def)
    next
      case False
      then have "cont = [CHR ''='', LF]" using 3(1) odd by (simp add: cont)
      then have "splitlines (f @ sep @ cont @ app) = splitlines f @ [CHR ''=''] # splitlines app" using split eqline by simp
      moreover have "java_read None ([CHR ''=''] # ys) = ([], []) # java_read None ys" for ys
      proof -
        have "lstrip_blanks [CHR ''=''] = [CHR ''='']" "\<not> is_mark (CHR ''='')" "\<not> ends_with_odd_backslash [CHR ''='']"
          by (auto simp: lstrip_blanks_def is_blank_def BLANKS_def is_mark_def ends_with_odd_backslash_def)
        then show ?thesis by (simp add: Let_def kv0)
      qed
      moreover have "found_list p = [([], [])]" using 3(2) False kv0 by (auto simp: found_list_def split: if_splits option.splits)
      ultimately show ?thesis using all_lone_reads_to_end(2) [OF 3(1), of "[CHR ''=''] # splitlines app"] by simp
    qed
  qed
qed

lemma emit_suffix:
  assumes "rest \<noteq> []" "final_segment crlf rest = (p, f)" "\<not> touched vs cl p"
  shows "\<exists>e. emit vs cl crlf written rest = e @ f"
  using assms(1,2)
proof (induction "length rest" arbitrary: rest written rule: less_induct)
  case less
  from less.prems(1) show ?case
  proof (cases rule: turn [of rest crlf])
    case (1 found rest' c)
    note e = emit_turn [OF less.prems(1) 1(1,5)] and fin = final_turn [OF less.prems(1) 1(1)]
    show ?thesis
    proof (cases "rest' = []")
      case True
      then show ?thesis using e fin less.prems(2) 1(3) assms(3) by (auto simp: emitted_def)
    next
      case False
      then have "final_segment crlf rest' = (p, f)" using fin less.prems(2) by simp
      then obtain d where "emit vs cl crlf (written_after vs written (found_list found)) rest' = d @ f"
        using less.hyps [OF 1(2) False] by blast
      then show ?thesis using e by (metis append_assoc)
    qed
  qed
qed

lemma reads_other_end:
  assumes "reads (ends_in (c @ f) [CR, LF]) f found []" "f \<noteq> []"
  shows "java_read None (splitlines f @ (if ends_in (e @ f) [CR, LF] then [[]] else [])) = found"
proof -
  have "reads (ends_in (e @ f) [CR, LF]) f found []"
  proof (cases "all_lone (splitlines f)")
    case True
    have "ends_in (d @ f) [CR, LF] \<longleftrightarrow> ends_in f [CR, LF]" for d
    proof (cases "length f = 1")
      case one: True
      then obtain x where x: "f = [x]" by (auto simp: length_Suc_conv)
      have "x \<noteq> LF"
      proof
        assume "x = LF"
        then have "splitlines f = [[]]" using splitlines_LF [of "[]"] x by simp
        then show False using True by (simp add: all_lone_def)
      qed
      then show ?thesis using x by (auto simp: ends_in_snoc2)
    next
      case False
      then have "2 \<le> length f" using assms(2) by (cases f) (auto simp: Suc_le_eq)
      then show ?thesis by (simp add: ends_in_def numeral_2_eq_2)
    qed
    then show ?thesis using assms(1) by simp
  next
    case False
    then show ?thesis using assms(1) by (auto simp: reads_def takes_def)
  qed
  then show ?thesis using reads_content [of "ends_in (e @ f) [CR, LF]" f found "[]"] by (simp add: Let_def)
qed

lemma continuation_of_final:
  assumes "content \<noteq> []" "final_segment (ends_in content [CR, LF]) content = (p, f)"
  shows "(if ends_in_dangling_continuation content (parse content) then continuation_end content (last (parse content)) else []) =
    (if p \<noteq> None \<and> ends_with_odd_backslash (last (splitlines f))
     then if all_lone (splitlines f) then [CHR ''='', LF] else [LF] else [])"
proof -
  note facts = final_segment_facts [OF assms(1) order_refl assms(2)]
  obtain c where c: "content = c @ f" "cut c f" using facts by blast
  have ne: "splitlines f \<noteq> []" using facts last_line_shape by blast
  have odd: "ends_with_odd_backslash (lstrip_blanks (last_natural_line content)) = ends_with_odd_backslash (last (splitlines f))"
    using last_natural_line_eq [of f c] facts c by (simp add: odd_lstrip)
  show ?thesis
  proof (cases p)
    case None
    then show ?thesis using facts by (auto simp: ends_in_dangling_continuation_def parse_def)
  next
    case (Some kv)
    then have "p_start (last (parse content)) = length c" "p_end (last (parse content)) = length content" "parse content \<noteq> []"
      using facts c(1) by (auto simp: parse_def)
    moreover from this have "slice content (p_start (last (parse content))) (p_end (last (parse content))) = f"
      using c(1) by (simp add: slice_def)
    ultimately show ?thesis using Some odd ne
      by (auto simp: ends_in_dangling_continuation_def continuation_end_def all_lone_def list_all_iff)
  qed
qed

lemma appended_not_crlf:
  assumes "app \<noteq> []" shows "\<not> ends_in (x @ concat (map (\<lambda>(k, v). property_line k v @ [LF]) app)) [CR, LF]"
proof
  assume e: "ends_in (x @ concat (map (\<lambda>(k, v). property_line k v @ [LF]) app)) [CR, LF]"
  obtain app' k v where "app = app' @ [(k, v)]" using assms by (metis rev_exhaust surj_pair)
  then obtain z where "((x @ concat (map (\<lambda>(k, v). property_line k v @ [LF]) app')) @ property_line k v) @ [LF] = (z @ [CR]) @ [LF]"
    using e by (auto simp: ends_in_snoc2)
  then have "last (property_line k v) = CR" using property_line_start(3) by (metis append1_eq_conv last_appendR last_snoc)
  then show False using property_line_no_eol [of k v] property_line_start(3) [of k v]
    unfolding no_eol_def is_eol_def by (metis last_in_set)
qed

lemma rewrite_reads:
  assumes ok: "edits_ok vs"
  shows "java_load (rewrite content (parse content) vs cl) =
    edit vs cl [] (java_load content) @ appended_to vs (java_load content)"
proof -
  let ?crlf = "ends_in content [CR, LF]" and ?n = "length content"
  let ?lines = "map (\<lambda>(k, v). (k, property_line k v)) vs" and ?kvs = "java_load content"
  let ?app = "appended_to vs ?kvs" and ?tail = "concat (map (\<lambda>(k, v). property_line k v @ [LF]) (appended_to vs ?kvs))"
  obtain out cursor written where loop: "rewrite_loop content ?lines cl [] 0 [] (parse content) = (out, cursor, written)"
    by (cases "rewrite_loop content ?lines cl [] 0 [] (parse content)") auto
  define emission where "emission = emit vs cl ?crlf [] content"
  note facts = rewrite_loop_emits [OF loop [unfolded parse_def], of "[]"]
  have out: "out @ drop cursor content = emission" and wr: "written = written_after vs [] ?kvs"
    and cur: "cursor < ?n \<longleftrightarrow> content \<noteq> [] \<and> \<not> touched vs cl (fst (final_segment ?crlf content))"
    using facts by (auto simp: emission_def java_load_parse parse_def split: if_splits)
  have "dget vs k \<noteq> None" if "(k, v) \<in> set vs" for k v using that by (metis option.distinct(1) weak_map_of_SomeI)
  then have "filter (\<lambda>(k, l). k \<notin> set written) ?lines = map (\<lambda>(k, v). (k, property_line k v)) ?app"
    unfolding appended_to_def filter_map by (intro arg_cong [where f = "map _"] filter_cong) (force simp: wr set_written_after o_def)+
  then have app: "map snd (filter (\<lambda>(k, l). k \<notin> set written) ?lines) = map (\<lambda>(k, v). property_line k v) ?app"
    by (simp add: o_def case_prod_unfold)
  define sep where "sep = (if emission \<noteq> [] \<and> \<not> ends_in emission [LF] then [LF] else [])"
  define cont where "cont = (if cursor < ?n \<and> ends_in_dangling_continuation content (parse content)
    then continuation_end content (last (parse content)) else [])"
  have result: "rewrite content (parse content) vs cl = (if ?app = [] then emission else emission @ sep @ cont @ ?tail)"
  proof -
    have tail: "concat (map (\<lambda>l. l @ [LF]) (map (\<lambda>(k, v). property_line k v) xs)) =
        concat (map (\<lambda>(k, v). property_line k v @ [LF]) xs)" for xs by (induction xs) auto
    have "rewrite content (parse content) vs cl =
        (if map (\<lambda>(k, v). property_line k v) ?app = [] then emission
         else (if emission \<noteq> [] \<and> \<not> ends_in emission [LF] then emission @ [LF] else emission) @ cont @
           concat (map (\<lambda>l. l @ [LF]) (map (\<lambda>(k, v). property_line k v) ?app)))"
      unfolding rewrite_def Let_def loop prod.case out app cont_def by (rule refl)
    then show ?thesis unfolding tail by (simp add: sep_def)
  qed
  have read_tail: "java_read None (splitlines ?tail) = ?app"
    by (rule read_appended [OF ok]) (auto simp: appended_to_def)
  show ?thesis
  proof (cases "content = []")
    case True
    then have "emission = []" "?kvs = []" by (auto simp: emission_def java_load_def ends_in_def)
    moreover have "?app \<noteq> [] \<Longrightarrow> java_load ?tail = ?app"
      using read_tail appended_not_crlf [of ?app "[]"] by (simp add: java_load_def)
    moreover have "java_load [] = []" by (simp add: java_load_def ends_in_def)
    ultimately show ?thesis using result cur True by (auto simp: sep_def cont_def)
  next
    case False
    obtain p f where fin: "final_segment ?crlf content = (p, f)" by fastforce
    note facts = final_segment_facts [OF False order_refl fin]
    obtain c where c: "content = c @ f" "cut c f" using facts by blast
    have reads: "reads ?crlf f (found_list p) []" and f: "f \<noteq> []" using facts by auto
    have kvs: "?kvs = pairs (parse_at ?n ?crlf content)" by (simp add: java_load_parse parse_def)
    show ?thesis
    proof (cases "?app = []")
      case True
      have "java_read None (splitlines (emission @ []) @ (if ends_in emission [CR, LF] then [[]] else [])) = edit vs cl [] (pairs (parse_at ?n ?crlf content)) @ []"
        unfolding emission_def
      proof (rule emit_reads [OF ok False fin])
        assume "\<not> touched vs cl p"
        then obtain e where "emit vs cl ?crlf [] content = e @ f" using emit_suffix [OF False fin] by blast
        then show "java_read None (splitlines (f @ []) @
            (if ends_in (emit vs cl ?crlf [] content) [CR, LF] then [[]] else [])) = found_list p @ []"
          using reads_other_end [of c f "found_list p" e] reads f c(1) by simp
      qed (simp add: Let_def)
      then show ?thesis using True result kvs by (simp add: java_load_def [of emission])
    next
      case app: False
      have "java_read None (splitlines (emission @ sep @ cont @ ?tail) @ []) = edit vs cl [] (pairs (parse_at ?n ?crlf content)) @ ?app"
        unfolding emission_def
      proof (rule emit_reads [OF ok False fin])
        assume u: "\<not> touched vs cl p"
        obtain e where e: "emission = e @ f" using emit_suffix [OF False fin u] by (auto simp: emission_def)
        have "sep = (if ends_in f [LF] then [] else [LF])" using e f by (auto simp: sep_def ends_in_snoc)
        moreover have "cont = (if p \<noteq> None \<and> ends_with_odd_backslash (last (splitlines f))
            then if all_lone (splitlines f) then [CHR ''='', LF] else [LF] else [])"
          using continuation_of_final [OF False fin] cur False fin u by (simp add: cont_def)
        moreover have "splitlines ?tail \<noteq> []" using read_tail app by force
        ultimately show "java_read None (splitlines (f @ sep @ cont @ ?tail) @ []) = found_list p @ ?app"
          using appended_after_kept [OF reads f] read_tail by simp
      next
        assume "touched vs cl p"
        then have "cont = []" using cur fin by (simp add: cont_def)
        then show "java_read None (splitlines (sep @ cont @ ?tail) @ []) = ?app"
          using read_tail by (auto simp: sep_def splitlines_LF Let_def)
      qed
      moreover have "\<not> ends_in (emission @ sep @ cont @ ?tail) [CR, LF]"
        using appended_not_crlf [OF app, of "emission @ sep @ cont"] by simp
      ultimately have "java_load (emission @ sep @ cont @ ?tail) = edit vs cl [] (pairs (parse_at ?n ?crlf content)) @ ?app"
        by (simp only: java_load_def [of "emission @ sep @ cont @ ?tail"] if_False)
      moreover have "rewrite content (parse content) vs cl = emission @ sep @ cont @ ?tail" using app result by simp
      ultimately show ?thesis by (simp only: kvs [symmetric])
    qed
  qed
qed

end
