(* ===== verification/Properties_Props.thy ===== *)
theory Properties_Props
  imports Properties_Rewrite
begin

text \<open>
  The properties of the \<open>server.properties\<close> editor: the bulk reader is the Java reader, a written line reads
  back, the platform's keys hold what the platform says in whatever file it is handed, and the one-key
  rewrite does the same unless the file ends in the middle of a line.
\<close>

section \<open>Values of a key\<close>

definition of_key :: "pystr \<Rightarrow> (pystr \<times> pystr) list \<Rightarrow> pystr list" where
  "of_key k kvs = map snd (filter (\<lambda>(k', v). k' = k) kvs)"

lemma of_key_simps [simp]: "of_key k [] = []" "of_key k ((k', v) # kvs) = (if k' = k then v # of_key k kvs else of_key k kvs)"
  "of_key k (xs @ ys) = of_key k xs @ of_key k ys"
  by (simp_all add: of_key_def)

lemma raw_values_load: "raw_values content k = of_key k (java_load content)"
proof -
  have "map p_value (filter (\<lambda>p. p_key p = k) ps) = of_key k (pairs ps)" for ps by (induction ps) auto
  then show ?thesis by (simp add: raw_values_def java_load_parse)
qed

lemma of_key_absent: "k \<notin> fst ` set kvs \<Longrightarrow> of_key k kvs = []"
  by (induction kvs) auto

lemma of_key_edit:
  "of_key k (edit vs cl written kvs) =
     (case dget vs k of
        Some v \<Rightarrow> if k \<in> set written \<or> k \<notin> fst ` set kvs then [] else [v]
      | None \<Rightarrow> if k \<in> cl then [] else of_key k kvs)"
  by (induction vs cl written kvs rule: edit.induct) (auto split: option.splits)

lemma of_key_appended:
  assumes "dwf vs"
  shows "of_key k (appended_to vs kvs) = (case dget vs k of Some v \<Rightarrow> if k \<in> fst ` set kvs then [] else [v] | None \<Rightarrow> [])"
proof -
  have "of_key k (filter (\<lambda>(k, v). P k) vs) = (case dget vs k of Some v \<Rightarrow> if P k then [v] else [] | None \<Rightarrow> [])" for P
    using assms
  proof (induction vs)
    case (Cons kv vs)
    obtain k' v where kv: "kv = (k', v)" by fastforce
    have wf: "dwf vs" "k' \<notin> fst ` set vs" using Cons.prems kv by (auto simp: dwf_def)
    then have "k' = k \<Longrightarrow> of_key k (filter (\<lambda>(k, v). P k) vs) = []" by (intro of_key_absent) auto
    then show ?case using Cons.IH [OF wf(1)] kv by (auto split: option.splits)
  qed simp
  then show ?thesis by (auto simp: appended_to_def split: option.splits)
qed

lemma blank_line_at_end:
  "k \<noteq> [] \<Longrightarrow> of_key k (java_read st (ls @ [[]])) = of_key k (java_read st ls)"
proof (induction ls arbitrary: st)
  case Nil
  have "split_key_value [] = ([], [])"
    by (simp add: split_key_value_def load_convert_eq latin1_def skip_sep_def)
  then show ?case using Nil by (cases st) (auto simp: Let_def)
next
  case (Cons l ls)
  have "of_key k (p # kvs) = (if fst p = k then snd p # of_key k kvs else of_key k kvs)" for p kvs
    by (cases p) simp
  then show ?case using Cons.IH [OF Cons.prems] by (auto simp: Let_def)
qed

lemma normalize_values: "k \<noteq> [] \<Longrightarrow> raw_values (normalize x) k = raw_values x k"
proof -
  assume k: "k \<noteq> []"
  show ?thesis
  proof (cases "x = [] \<or> ends_in x [LF]")
    case True
    moreover have "java_load [LF] = java_load []"
      using splitlines_LF [of "[]"] by (simp add: java_load_def ends_in_def Let_def)
    ultimately show ?thesis by (auto simp: normalize_def raw_values_load ends_in_snoc)
  next
    case False
    then have same: "splitlines (x @ [LF]) = splitlines x" by (intro splitlines_snoc_LF) (auto simp: ends_in_snoc)
    have "\<not> ends_in x [CR, LF]" using False ends_in_last by blast
    then show ?thesis using False same blank_line_at_end [OF k, of None "splitlines x"]
      by (auto simp: normalize_def raw_values_load java_load_def)
  qed
qed

lemma rewrite_values:
  assumes "edits_ok vs" "k \<noteq> []"
  shows "raw_values (normalize (rewrite content (parse content) vs cl)) k =
    (case dget vs k of Some v \<Rightarrow> [v] | None \<Rightarrow> if k \<in> cl then [] else raw_values content k)"
proof -
  have "dwf vs" using assms(1) by (simp add: edits_ok_def)
  then show ?thesis
    unfolding normalize_values [OF assms(2)]
    by (auto simp: raw_values_load rewrite_reads [OF assms(1)] of_key_edit of_key_appended split: option.splits)
qed

section \<open>The reader\<close>

text \<open>
  C16. The reader of the platform, with its possessive bulk scans, its fast path for a line without a
  backslash, its joined substitution over continued lines and its two decoders, reads from every byte
  string exactly the properties, in order, that the line-at-a-time Java reader reads: the guard on the
  platform's keys sees what the server will see.
\<close>

theorem parse_is_java_load:
  "map (\<lambda>p. (p_key p, p_value p)) (parse content) = java_load content \<and>
   (\<forall>raw. load_convert raw = unescape_all (latin1 raw))"
  using java_load_parse load_convert_eq by (simp add: pairs_def)

text \<open>
  C39. A key and a value, of any code points in which no high surrogate stands next to a low one, are
  written as one line that reads back as exactly that key and that value: no character of either can
  end the line, start a comment, or plant another property.
\<close>

theorem written_line_reads_back:
  assumes "storable k" "storable v"
  shows "parse (property_line k v @ [LF]) =
    [\<lparr>p_key = k, p_value = v, p_start = 0, p_end = length (property_line k v) + 1\<rparr>]"
proof -
  let ?c = "property_line k v @ [LF]"
  have n: "natural_line ?c = (property_line k v, [])" by (rule natural_line_terminated [OF property_line_no_eol]) simp
  obtain found rest' c where nx: "next_property (ends_in ?c [CR, LF]) ?c = (found, rest')" "length rest' < length ?c"
    "?c = c @ rest'" "rest' \<noteq> [] \<Longrightarrow> cut c rest'" "c \<noteq> []"
    by (rule turn [of ?c "ends_in ?c [CR, LF]"]) auto
  have "rest' = []"
  proof (rule ccontr)
    assume ne: "rest' \<noteq> []"
    then have eol: "is_eol (last c)" using nx(4,5) by (simp add: cut_def)
    have "butlast ?c = c @ butlast rest'" using nx(3) ne by (simp add: butlast_append)
    then have "last c \<in> set (property_line k v)" using nx(5) by (metis UnI1 butlast_snoc last_in_set set_append)
    then show False using eol property_line_no_eol by (auto simp: no_eol_def)
  qed
  then have p: "parse ?c = map (\<lambda>(k, v). \<lparr>p_key = k, p_value = v, p_start = 0, p_end = length ?c\<rparr>) (found_list found)"
    using parse_turn [OF _ nx(1), of "length ?c"] by (simp add: parse_def parse_at.simps)
  moreover have "java_load ?c = [(k, v)]"
    using read_property_line [OF assms, of "[]"] splitlines_property_line [of k v "[]"] appended_not_crlf [of "[(k, v)]" "[]"]
    by (simp add: java_load_def)
  ultimately have "found_list found = [(k, v)]" using java_load_parse [of ?c] by (simp add: pairs_turn)
  then show ?thesis using p by simp
qed

section \<open>The platform's keys\<close>

lemma latin1_inj: "latin1 a = latin1 b \<longleftrightarrow> a = b"
  unfolding latin1_def by (rule inj_map_eq_map) (auto simp: inj_def)

lemmas platform_keys = PORT_KEY_def ENABLE_RCON_KEY_def RCON_PORT_KEY_def RCON_PASSWORD_KEY_def RESOURCE_PACK_KEY_def
  RESOURCE_PACK_SHA1_KEY_def REQUIRE_RESOURCE_PACK_KEY_def RESOURCE_PACK_PROMPT_KEY_def

lemma platform_keys_distinct:
  "distinct [PORT_KEY, ENABLE_RCON_KEY, RCON_PORT_KEY, RCON_PASSWORD_KEY, RESOURCE_PACK_KEY, RESOURCE_PACK_SHA1_KEY,
     REQUIRE_RESOURCE_PACK_KEY, RESOURCE_PACK_PROMPT_KEY]"
  by (simp add: platform_keys latin1_inj)

lemma storable_small: "\<forall>c \<in> set s. c < 0xD800 \<Longrightarrow> storable s"
  by (induction s rule: storable.induct) (auto simp: high_surrogate_def)

lemma storable_latin1: "storable (latin1 s)"
proof (rule storable_small)
  have "of_char c < (0xD800 :: nat)" for c :: char
  proof -
    have "of_char c mod 256 < (256 :: nat)" by (rule mod_less_divisor) simp
    then have "of_char c < (256 :: nat)" by (simp only: of_char_mod_256)
    then show ?thesis by linarith
  qed
  then show "\<forall>c \<in> set (latin1 s). c < 0xD800" by (auto simp: latin1_def)
qed

lemma decimal_digits: "\<forall>c \<in> set (decimal n). c < 58"
proof (induction n rule: decimal.induct)
  case (1 n)
  then show ?case by (subst decimal.simps) auto
qed

lemma storable_decimal: "storable (decimal n)"
  using decimal_digits [of n] by (intro storable_small) force

lemma platform_keys_storable: "k \<in> PLATFORM_MANAGED_KEYS \<Longrightarrow> storable k \<and> k \<noteq> []"
  by (auto simp: PLATFORM_MANAGED_KEYS_def RESOURCE_PACK_KEYS_def platform_keys storable_latin1) (auto simp: latin1_def)

definition pack_storable :: "resource_pack_properties option \<Rightarrow> bool" where
  "pack_storable pack \<longleftrightarrow> (case pack of
     None \<Rightarrow> True
   | Some p \<Rightarrow> storable (rp_url p) \<and> storable (rp_sha1 p) \<and> (case rp_prompt p of None \<Rightarrow> True | Some s \<Rightarrow> storable s))"

lemma platform_values_ok:
  assumes "storable password" "pack_storable pack"
  shows "edits_ok (platform_values props game_port password pack)"
proof -
  have "dwf (platform_values props game_port password pack)"
    by (cases game_port; cases pack; simp add: dwf_def platform_values_def Let_def platform_keys latin1_inj split: option.split)
  moreover have "\<forall>(k, v) \<in> set (platform_values props game_port password pack). k \<in> PLATFORM_MANAGED_KEYS \<and> storable v"
    using assms storable_decimal storable_latin1
    by (auto simp: platform_values_def Let_def PLATFORM_MANAGED_KEYS_def RESOURCE_PACK_KEYS_def py_bool_def pack_storable_def
        split: option.splits if_splits)
  ultimately show ?thesis using platform_keys_storable unfolding edits_ok_def by (auto dest!: map_of_SomeD)
qed

lemma platform_lookup:
  shows "dget (platform_values props game_port password pack) PORT_KEY = map_option decimal game_port"
    and "dget (platform_values props game_port password pack) ENABLE_RCON_KEY = Some (py_bool True)" "dget (platform_values props game_port password pack) RCON_PORT_KEY = Some (decimal RCON_PORT)"
    and "dget (platform_values props game_port password pack) RCON_PASSWORD_KEY =
      (let old = map p_value (filter (\<lambda>p. p_key p = RCON_PASSWORD_KEY) props) in if old \<noteq> [] \<and> last old \<noteq> [] then None else Some password)"
    and "dget (platform_values props game_port password pack) RESOURCE_PACK_KEY = map_option rp_url pack" "dget (platform_values props game_port password pack) RESOURCE_PACK_SHA1_KEY = map_option rp_sha1 pack"
    and "dget (platform_values props game_port password pack) REQUIRE_RESOURCE_PACK_KEY = map_option (\<lambda>p. py_bool (rp_require p)) pack"
    and "dget (platform_values props game_port password pack) RESOURCE_PACK_PROMPT_KEY = Option.bind pack rp_prompt"
  by (cases game_port; cases pack; simp add: platform_values_def Let_def platform_keys latin1_inj split: option.split)+

lemma platform_lookup_other:
  assumes "k \<notin> PLATFORM_MANAGED_KEYS" shows "dget (platform_values props game_port password pack) k = None"
proof -
  have "fst ` set (platform_values props game_port password pack) \<subseteq> PLATFORM_MANAGED_KEYS"
    unfolding platform_values_def Let_def PLATFORM_MANAGED_KEYS_def RESOURCE_PACK_KEYS_def
    by (auto split: option.splits if_splits)
  then show ?thesis using assms by (auto simp: map_of_eq_None_iff)
qed

text \<open>
  C17. Whatever bytes a \<open>server.properties\<close> holds (an archive's, a truncated one, one that respells, repeats
  or continues the platform's keys), after the platform re-applies its half the server reads from it:
  the tracked game port and nothing else, RCON enabled on the fixed port, the password the file already
  had if it had a non-empty one and the given one otherwise, the assigned pack's keys or none of them;
  and every other key but the empty one keeps exactly the values it had. The given password and the texts
  of the pack are strings in which no high surrogate stands next to a low one (their escapes would read back as
  one character). The empty key is excluded because it can be lost, see \<open>empty_key_lost\<close> below.
\<close>

theorem platform_properties_enforced:
  assumes "storable password" "pack_storable pack"
    and out: "out = apply_platform_properties content game_port password pack"
  shows "(game_port = Some n \<longrightarrow> raw_values out PORT_KEY = [decimal n]) \<and>
    (game_port = None \<longrightarrow> raw_values out PORT_KEY = raw_values content PORT_KEY) \<and>
    raw_values out ENABLE_RCON_KEY = [ascii ''true''] \<and>
    raw_values out RCON_PORT_KEY = [decimal 25575] \<and>
    get_property out RCON_PASSWORD_KEY =
      Some (case get_property content RCON_PASSWORD_KEY of Some (c # cs) \<Rightarrow> c # cs | _ \<Rightarrow> password) \<and>
    (pack = None \<longrightarrow> (\<forall>k \<in> RESOURCE_PACK_KEYS. raw_values out k = [])) \<and>
    (\<forall>p. pack = Some p \<longrightarrow>
       raw_values out RESOURCE_PACK_KEY = [rp_url p] \<and> raw_values out RESOURCE_PACK_SHA1_KEY = [rp_sha1 p] \<and>
       raw_values out REQUIRE_RESOURCE_PACK_KEY = [py_bool (rp_require p)] \<and>
       raw_values out RESOURCE_PACK_PROMPT_KEY = (case rp_prompt p of None \<Rightarrow> [] | Some s \<Rightarrow> [s])) \<and>
    (\<forall>k. k \<noteq> [] \<longrightarrow> k \<notin> PLATFORM_MANAGED_KEYS \<longrightarrow> raw_values out k = raw_values content k)"
proof -
  let ?vs = "platform_values (parse content) game_port password pack"
  have held: "k \<noteq> [] \<Longrightarrow> raw_values out k =
      (case dget ?vs k of Some v \<Rightarrow> [v] | None \<Rightarrow> if k \<in> platform_cleared pack then [] else raw_values content k)" for k
    using rewrite_values [OF platform_values_ok [OF assms(1,2)]] by (simp add: out apply_platform_properties_def Let_def)
  have key: "raw_values out k =
      (case dget ?vs k of Some v \<Rightarrow> [v] | None \<Rightarrow> if k \<in> platform_cleared pack then [] else raw_values content k)"
    if "k \<in> PLATFORM_MANAGED_KEYS" for k
    using held platform_keys_storable [OF that] by blast
  have managed: "PORT_KEY \<in> PLATFORM_MANAGED_KEYS" "ENABLE_RCON_KEY \<in> PLATFORM_MANAGED_KEYS" "RCON_PORT_KEY \<in> PLATFORM_MANAGED_KEYS"
    "RCON_PASSWORD_KEY \<in> PLATFORM_MANAGED_KEYS" "RESOURCE_PACK_KEYS \<subseteq> PLATFORM_MANAGED_KEYS"
    by (auto simp: PLATFORM_MANAGED_KEYS_def)
  have packs: "RESOURCE_PACK_KEYS = {RESOURCE_PACK_KEY, RESOURCE_PACK_SHA1_KEY, REQUIRE_RESOURCE_PACK_KEY, RESOURCE_PACK_PROMPT_KEY}"
    by (simp add: RESOURCE_PACK_KEYS_def)
  have cleared: "platform_cleared pack \<subseteq> RESOURCE_PACK_KEYS" by (auto simp: platform_cleared_def packs split: option.splits)
  have apart: "{PORT_KEY, RCON_PASSWORD_KEY} \<inter> RESOURCE_PACK_KEYS = {}" using platform_keys_distinct by (auto simp: packs)
  have port: "raw_values out PORT_KEY = (case game_port of None \<Rightarrow> raw_values content PORT_KEY | Some n \<Rightarrow> [decimal n])"
    using key [OF managed(1)] apart cleared by (auto simp: platform_lookup split: option.splits)
  have rcon: "raw_values out ENABLE_RCON_KEY = [ascii ''true'']" "raw_values out RCON_PORT_KEY = [decimal 25575]"
    using key [OF managed(2)] key [OF managed(3)] by (simp_all add: platform_lookup py_bool_def RCON_PORT_def)
  have pw: "get_property out RCON_PASSWORD_KEY =
      Some (case get_property content RCON_PASSWORD_KEY of Some (c # cs) \<Rightarrow> c # cs | _ \<Rightarrow> password)"
    using key [OF managed(4)] apart cleared
    by (auto simp: platform_lookup get_property_def raw_values_def Let_def split: list.splits if_splits)
  have none: "raw_values out k = []" if "pack = None" "k \<in> RESOURCE_PACK_KEYS" for k
    using key [of k] that managed(5) by (auto simp: packs platform_lookup platform_cleared_def)
  have some: "raw_values out RESOURCE_PACK_KEY = [rp_url p]" "raw_values out RESOURCE_PACK_SHA1_KEY = [rp_sha1 p]"
    "raw_values out REQUIRE_RESOURCE_PACK_KEY = [py_bool (rp_require p)]"
    "raw_values out RESOURCE_PACK_PROMPT_KEY = (case rp_prompt p of None \<Rightarrow> [] | Some s \<Rightarrow> [s])" if "pack = Some p" for p
    using key managed(5) that by (auto simp: packs platform_lookup platform_cleared_def split: option.splits)
  have other: "raw_values out k = raw_values content k" if "k \<noteq> []" "k \<notin> PLATFORM_MANAGED_KEYS" for k
    using held [OF that(1)] that(2) cleared managed(5) platform_lookup_other by auto
  show ?thesis using port rcon pw none some other by (cases game_port) auto
qed

section \<open>The one-key rewrite\<close>

lemma set_loop_rewrite:
  "set_loop content line out cursor first (filter (\<lambda>p. p_key p = k) ps) =
     (case rewrite_loop content [(k, line)] {} out cursor (if first then [] else [k]) ps of (o', c', w) \<Rightarrow> o' @ drop c' content)"
  by (induction ps arbitrary: out cursor first) (auto simp: Let_def)

lemma rewrite_loop_written:
  "rewrite_loop content [(k, line)] {} out cursor written ps = (o', c', w) \<Longrightarrow>
     set w = set written \<union> (if \<exists>p \<in> set ps. p_key p = k then {k} else {}) \<and>
     ((\<forall>p \<in> set ps. p_key p \<noteq> k) \<longrightarrow> o' = out \<and> c' = cursor)"
  by (induction ps arbitrary: out cursor written) (auto simp: Let_def split: if_splits)

lemma set_property_rewrite:
  assumes "raw_values content k \<noteq> [] \<or> \<not> ends_in_dangling_continuation content (parse content)"
  shows "set_property content k v = normalize (rewrite content (parse content) [(k, v)] {})"
proof -
  let ?ps = "parse content" and ?line = "property_line k v"
  obtain o' c' w where loop: "rewrite_loop content [(k, ?line)] {} [] 0 [] ?ps = (o', c', w)"
    by (cases "rewrite_loop content [(k, ?line)] {} [] 0 [] ?ps") auto
  note facts = rewrite_loop_written [OF loop]
  have some: "raw_values content k \<noteq> [] \<longleftrightarrow> (\<exists>p \<in> set ?ps. p_key p = k)" by (auto simp: raw_values_def filter_empty_conv)
  have lines: "map (\<lambda>(k, v). (k, property_line k v)) [(k, v)] = [(k, ?line)]" by simp
  show ?thesis
  proof (cases "\<exists>p \<in> set ?ps. p_key p = k")
    case True
    then have "set w = {k}" "filter (\<lambda>p. p_key p = k) ?ps \<noteq> []" using facts by (auto simp: filter_empty_conv)
    then show ?thesis using set_loop_rewrite [of content ?line "[]" 0 True k ?ps] loop
      by (simp add: set_property_def rewrite_def Let_def lines)
  next
    case False
    then have w: "w = []" "o' = []" "c' = 0" "filter (\<lambda>p. p_key p = k) ?ps = []" using facts by (auto simp: filter_empty_conv)
    have nd: "\<not> ends_in_dangling_continuation content ?ps" using assms some False by blast
    have "rewrite content ?ps [(k, v)] {} = (if content \<noteq> [] \<and> \<not> ends_in content [LF] then content @ [LF] else content) @ ?line @ [LF]"
      using loop w nd by (simp add: rewrite_def Let_def lines)
    moreover have "set_property content k v = (if content \<noteq> [] \<and> \<not> ends_in content [LF] then content @ [LF] else content) @ ?line @ [LF]"
      using w(4) by (simp add: set_property_def Let_def)
    ultimately show ?thesis by (simp add: normalize_def ends_in_snoc)
  qed
qed

text \<open>
  Setting one key: unless the file has no line for the key and ends in the middle of a logical line,
  the key has exactly the given value afterwards and every other (non-empty) key keeps its values. The
  exception is the append that the batched rewrite guards and the one-key rewrite does not.
\<close>

theorem set_property_sets:
  assumes "storable k" "storable v" "k' \<noteq> []"
    and "raw_values content k \<noteq> [] \<or> \<not> ends_in_dangling_continuation content (parse content)"
  shows "raw_values (set_property content k v) k' = (if k' = k then [v] else raw_values content k')"
proof -
  have "edits_ok [(k, v)]" using assms(1,2) by (simp add: edits_ok_def dwf_def)
  from rewrite_values [OF this assms(3), of content "{}"] show ?thesis
    by (simp add: set_property_rewrite [OF assms(4)])
qed

lemma to_latin1_latin1: "to_latin1 (latin1 s) = s"
  by (induction s) (simp_all add: latin1_def)

lemma port_line: "property_line PORT_KEY (decimal 25565) = ''server-port=25565''"
proof -
  have "decimal 25565 = latin1 ''25565''" by (simp add: decimal.simps latin1_def)
  then have "escape_key PORT_KEY @ [61] @ escape_value (decimal 25565) = latin1 ''server-port=25565''"
    by (simp add: PORT_KEY_def latin1_def escape_key_def escape_value_def escape_char_def SPECIALS_def)
  then show ?thesis by (simp only: property_line_def to_latin1_latin1)
qed

text \<open>
  The exception of \<open>set_property_sets\<close> is real: on this file, whose last line ends in a backslash and which
  has no port, \<open>set_server_port\<close> appends a line that the dangling continuation swallows. No port is set, and
  the value of the last key grows by the text of the line.
\<close>

lemma port_lost_after_dangling_line:
  "raw_values (set_server_port (''a=b'' @ [BS]) 25565) PORT_KEY = [] \<and>
   raw_values (set_server_port (''a=b'' @ [BS]) 25565) (ascii ''a'') = [ascii ''bserver-port=25565'']"
proof -
  let ?c = "''a=b'' @ [BS]" and ?d = "''a=b'' @ [BS, LF] @ ''server-port=25565'' @ [LF]"
  have lines: "splitlines ?c = [?c]" "splitlines ?d = [?c, ''server-port=25565'']" by code_simp+
  have kv: "split_key_value ''a=b'' = (ascii ''a'', ascii ''b'')"
    "split_key_value ''a=bserver-port=25565'' = (ascii ''a'', ascii ''bserver-port=25565'')" by code_simp+
  have read: "lstrip_blanks ?c = ?c" "\<not> is_mark (hd ?c)" "ends_with_odd_backslash ?c"
    "lstrip_blanks ''server-port=25565'' = ''server-port=25565''" "\<not> ends_with_odd_backslash ''server-port=25565''"
    by code_simp+
  have c: "java_load ?c = [(ascii ''a'', ascii ''b'')]"
    using lines(1) read(1-3) kv(1) by (simp add: java_load_def ends_in_def Let_def)
  have "java_load ?d = [(ascii ''a'', ascii ''bserver-port=25565'')]"
    using lines(2) read kv(2) by (simp add: java_load_def ends_in_def Let_def)
  moreover have "filter (\<lambda>p. p_key p = PORT_KEY) (parse ?c) = []"
    using c raw_values_load [of ?c PORT_KEY] by (simp add: raw_values_def platform_keys latin1_inj)
  then have "set_server_port ?c 25565 = ?d"
    by (simp add: set_server_port_def set_property_def port_line ends_in_def)
  ultimately show ?thesis by (simp add: raw_values_load platform_keys latin1_inj)
qed

text \<open>
  A file that is a backslash and a carriage return reads as the empty key with the empty value. The trailing
  newline that every edit makes sure of turns its end into a line that ends in both, and the property is gone.
\<close>

lemma empty_key_lost: "raw_values [BS, CR] [] = [[]]" "raw_values (normalize [BS, CR]) [] = []"
proof -
  have "map p_value (filter (\<lambda>p. p_key p = []) (parse [BS, CR])) = [[]]" "parse (normalize [BS, CR]) = []" by code_simp+
  then show "raw_values [BS, CR] [] = [[]]" "raw_values (normalize [BS, CR]) [] = []" by (simp_all add: raw_values_def)
qed

section \<open>Instances\<close>

text \<open>An astral key with a separator in it and a value that starts with a blank and holds a newline.\<close>

theorem written_line_reads_back_witness:
  "storable [0x1F600, 61] \<and> storable [32, 10, 0xE9] \<and>
   parse (property_line [0x1F600, 61] [32, 10, 0xE9] @ [LF]) =
     [\<lparr>p_key = [0x1F600, 61], p_value = [32, 10, 0xE9], p_start = 0,
       p_end = length (property_line [0x1F600, 61] [32, 10, 0xE9]) + 1\<rparr>]"
proof -
  have s: "storable [0x1F600, 61]" "storable [32, 10, 0xE9]" by (simp_all add: high_surrogate_def low_surrogate_def)
  show ?thesis using written_line_reads_back [OF s] s by blast
qed

definition hostile_file :: bytes where
  \<comment> \<open>the port respelled with a colon and an escape, and a last line that continues\<close>
  "hostile_file = ''server-port:1'' @ [LF] @ ''server'' @ [BS] @ ''-port 2'' @ [LF] @ ''a=b'' @ [BS]"

theorem platform_properties_enforced_witness:
  "storable (ascii ''pw'') \<and> pack_storable None \<and>
   raw_values (apply_platform_properties hostile_file (Some 25565) (ascii ''pw'') None) PORT_KEY = [decimal 25565] \<and>
   raw_values (apply_platform_properties hostile_file (Some 25565) (ascii ''pw'') None) (ascii ''a'') = raw_values hostile_file (ascii ''a'')"
proof -
  have s: "storable (ascii ''pw'')" "pack_storable None" by (simp_all add: storable_latin1 pack_storable_def)
  have "ascii ''a'' \<noteq> []" "ascii ''a'' \<notin> PLATFORM_MANAGED_KEYS"
    by (simp_all add: PLATFORM_MANAGED_KEYS_def RESOURCE_PACK_KEYS_def platform_keys latin1_inj) (simp add: latin1_def)
  then show ?thesis using platform_properties_enforced [OF s refl, of "Some 25565" 25565 hostile_file] s by simp
qed

theorem set_property_sets_witness:
  "storable PORT_KEY \<and> storable (decimal 25565) \<and> PORT_KEY \<noteq> [] \<and> \<not> ends_in_dangling_continuation [] (parse []) \<and>
   raw_values (set_property [] PORT_KEY (decimal 25565)) PORT_KEY = [decimal 25565]"
proof -
  have "PORT_KEY \<in> PLATFORM_MANAGED_KEYS" by (simp add: PLATFORM_MANAGED_KEYS_def)
  then have s: "storable PORT_KEY" "PORT_KEY \<noteq> []" using platform_keys_storable by auto
  have d: "\<not> ends_in_dangling_continuation [] (parse [])" by (simp add: ends_in_dangling_continuation_def parse_def parse_at.simps)
  show ?thesis using set_property_sets [OF s(1) storable_decimal s(2), of "[]" 25565] s d storable_decimal by simp
qed

end
