(* ===== verification/Identity.thy ===== *)
theory Identity
  imports Prelude
begin

text \<open>
  The identity context (\<open>identity/\<close>): accounts and refresh-token sessions with the statements of their
  repositories, the brute-force store, the password policy, and the use cases over them. A use case is a
  sequence of transactions; each transaction is one definition and one step of the machine in
  \<open>Identity_Machine\<close>. It returns its result or its error together with the tables it leaves, because
  some errors are raised after a commit (a reused refresh token, a failed login).

  Parameters of the model, collected in \<open>token_service\<close> and \<open>password_hasher\<close>: the digest of a refresh
  secret, the signed access token, and password verification. Secrets, salted hashes and new
  identifiers are arguments of the operations that draw them. Text is restricted to ASCII where the source
  folds case.
\<close>

section \<open>Errors, rows and tables\<close>

datatype ident_error =
    InvalidUsernameError
  | InvalidEmailError
  | PasswordPolicyError string
  | UsernameAlreadyExistsError
  | EmailAlreadyExistsError
  | RegistrationDisabledError
  | RegistrationThrottledError
  | InvalidCredentialsError "int option"
  | UserNotFoundError
  | CommunityOwned
  | LastPlatformAdminError
  | SelfTargetError
  | InvalidRefreshTokenError
  | RefreshTokenReuseError uuid
  | RowIntegrityError

definition REVOKED_ROTATED :: string where "REVOKED_ROTATED = ''rotated''"
definition REVOKED_FAMILY :: string where "REVOKED_FAMILY = ''family''"
definition REVOKED_LOGOUT :: string where "REVOKED_LOGOUT = ''logout''"
definition REVOKED_USER :: string where "REVOKED_USER = ''user_revoked''"
definition REVOKED_SUPERSEDED :: string where "REVOKED_SUPERSEDED = ''superseded''"

record user_row =
  u_id :: uuid
  u_username :: string
  u_email :: string
  u_password_hash :: string
  u_created :: instant
  u_updated :: instant
  u_admin :: bool
  u_active :: bool

record refresh_token =
  rt_id :: uuid
  rt_user :: uuid
  rt_chain :: uuid
  rt_hash :: string
  rt_issued :: instant
  rt_expires :: instant
  rt_revoked :: "instant option"
  rt_reason :: "string option"

record login_attempt =
  la_username :: string
  la_ip :: "string option"
  la_success :: bool
  la_reason :: "string option"
  la_at :: instant

record lockout =
  locked_until :: "instant option"
  lockout_count :: nat

record idb =
  user_rows :: "user_row list"
  token_rows :: "refresh_token list"
  attempt_rows :: "login_attempt list"
  lockout_rows :: "(string, lockout) dict"

type_synonym 'a outcome = "(ident_error + 'a) \<times> idb"

definition is_active :: "refresh_token \<Rightarrow> instant \<Rightarrow> bool" where
  "is_active t now \<longleftrightarrow> rt_revoked t = None \<and> rt_expires t > now"

section \<open>Value objects\<close>

definition casefold_char :: "char \<Rightarrow> char" where
  "casefold_char c = (let n = (of_char c :: nat) in if 65 \<le> n \<and> n \<le> 90 then char_of (n + 32) else c)"

definition casefold :: "string \<Rightarrow> string" where
  \<comment> \<open>\<open>str.lower\<close> and \<open>str.casefold\<close>, which agree on ASCII\<close>
  "casefold = map casefold_char"

definition str_partition :: "char \<Rightarrow> string \<Rightarrow> string \<times> string" where
  \<comment> \<open>\<open>s.partition(c)\<close> without the separator\<close>
  "str_partition c s = (let before = takeWhile (\<lambda>x. x \<noteq> c) s in (before, drop (Suc (length before)) s))"

definition mk_username :: "string \<Rightarrow> ident_error + string" where
  "mk_username v = (let trimmed = strip v in if trimmed = [] then Inl InvalidUsernameError else Inr trimmed)"

definition username_key :: "string \<Rightarrow> string" where
  "username_key v = casefold v"

definition mk_email :: "string \<Rightarrow> ident_error + string" where
  "mk_email v =
     (let normalized = casefold (strip v);
          (local_part, domain) = str_partition (CHR ''@'') normalized
      in if local_part = [] \<or> domain = [] \<or> CHR ''@'' \<in> set domain then Inl InvalidEmailError else Inr normalized)"

section \<open>Brute-force arithmetic\<close>

record brute_force_config =
  enabled :: bool
  username_threshold :: nat
  username_window :: duration
  ip_threshold :: nat
  ip_window :: duration
  lockout_base :: duration
  lockout_max :: duration

record registration_config =
  reg_open :: bool
  ip_limit_enabled :: bool
  reg_ip_threshold :: nat
  reg_ip_window :: duration

definition is_locked :: "instant option \<Rightarrow> instant \<Rightarrow> bool" where
  "is_locked lu now \<longleftrightarrow> (case lu of None \<Rightarrow> False | Some u \<Rightarrow> u > now)"

definition prune_horizon :: "brute_force_config \<Rightarrow> registration_config option \<Rightarrow> duration" where
  "prune_horizon cfg reg =
     (let horizon = max (username_window cfg) (ip_window cfg)
      in case reg of
           None \<Rightarrow> horizon
         | Some r \<Rightarrow> if ip_limit_enabled r then max horizon (reg_ip_window r) else horizon)"

fun bit_length :: "nat \<Rightarrow> nat" where
  \<comment> \<open>\<open>int.bit_length\<close>\<close>
  "bit_length n = (if n = 0 then 0 else Suc (bit_length (n div 2)))"

declare bit_length.simps [simp del]

definition backoff_cap_count :: "duration \<Rightarrow> duration \<Rightarrow> nat" where
  "backoff_cap_count base maximum = bit_length (nat \<bar>maximum div base\<bar>)"

definition backoff_duration :: "nat \<Rightarrow> duration \<Rightarrow> duration \<Rightarrow> duration" where
  "backoff_duration n base maximum =
     (if n \<ge> backoff_cap_count base maximum then maximum
      else let d = base * 2 ^ n in if d < maximum then d else maximum)"

section \<open>Statements of the user repository\<close>

definition user_by_id :: "idb \<Rightarrow> uuid \<Rightarrow> user_row option" where
  "user_by_id s u = find (\<lambda>r. u_id r = u) (user_rows s)"

definition get_by_username :: "idb \<Rightarrow> string \<Rightarrow> user_row option" where
  "get_by_username s name = find (\<lambda>r. casefold (u_username r) = casefold name) (user_rows s)"

definition get_by_email :: "idb \<Rightarrow> string \<Rightarrow> user_row option" where
  "get_by_email s e = find (\<lambda>r. u_email r = e) (user_rows s)"

definition update_user :: "idb \<Rightarrow> (user_row \<Rightarrow> bool) \<Rightarrow> (user_row \<Rightarrow> user_row) \<Rightarrow> bool \<times> idb" where
  \<comment> \<open>\<open>UPDATE user SET ... WHERE ...\<close> and whether a row matched\<close>
  "update_user s p f = (list_ex p (user_rows s), s\<lparr>user_rows := map (\<lambda>r. if p r then f r else r) (user_rows s)\<rparr>)"

definition unique_violation :: "user_row list \<Rightarrow> user_row \<Rightarrow> ident_error option" where
  \<comment> \<open>what the commit of \<open>r\<close> beside the other rows raises: \<open>translate_integrity_error\<close>\<close>
  "unique_violation others r =
     (if list_ex (\<lambda>x. u_id x = u_id r) others then Some RowIntegrityError
      else if list_ex (\<lambda>x. casefold (u_username x) = casefold (u_username r)) others then Some UsernameAlreadyExistsError
      else if list_ex (\<lambda>x. u_email x = u_email r) others then Some EmailAlreadyExistsError
      else None)"

definition user_add :: "idb \<Rightarrow> user_row \<Rightarrow> ident_error + idb" where
  "user_add s r =
     (case unique_violation (user_rows s) r of
        Some e \<Rightarrow> Inl e
      | None \<Rightarrow> Inr (s\<lparr>user_rows := user_rows s @ [r]\<rparr>))"

definition update_profile_row ::
  "idb \<Rightarrow> uuid \<Rightarrow> string option \<Rightarrow> string option \<Rightarrow> instant \<Rightarrow> ident_error + (user_row option \<times> idb)" where
  "update_profile_row s u name email now =
     (let upd = (\<lambda>r. r\<lparr>u_username := (case name of None \<Rightarrow> u_username r | Some n \<Rightarrow> n),
                       u_email := (case email of None \<Rightarrow> u_email r | Some e \<Rightarrow> e), u_updated := now\<rparr>)
      in case user_by_id s u of
           None \<Rightarrow> Inr (None, s)
         | Some r \<Rightarrow>
             (case unique_violation (filter (\<lambda>x. u_id x \<noteq> u) (user_rows s)) (upd r) of
                Some e \<Rightarrow> Inl e
              | None \<Rightarrow> Inr (Some (upd r), snd (update_user s (\<lambda>x. u_id x = u) upd))))"

definition change_password_hash :: "idb \<Rightarrow> uuid \<Rightarrow> string \<Rightarrow> string \<Rightarrow> instant \<Rightarrow> bool \<times> idb" where
  "change_password_hash s u expected new now =
     update_user s (\<lambda>r. u_id r = u \<and> u_password_hash r = expected)
       (\<lambda>r. r\<lparr>u_password_hash := new, u_updated := now\<rparr>)"

definition set_active_row :: "idb \<Rightarrow> uuid \<Rightarrow> bool \<Rightarrow> instant \<Rightarrow> bool \<times> idb" where
  "set_active_row s u a now = update_user s (\<lambda>r. u_id r = u) (\<lambda>r. r\<lparr>u_active := a, u_updated := now\<rparr>)"

definition set_platform_admin_row :: "idb \<Rightarrow> uuid \<Rightarrow> bool \<Rightarrow> instant \<Rightarrow> bool \<times> idb" where
  "set_platform_admin_row s u a now = update_user s (\<lambda>r. u_id r = u) (\<lambda>r. r\<lparr>u_admin := a, u_updated := now\<rparr>)"

definition delete_user_row :: "idb \<Rightarrow> uuid \<Rightarrow> idb" where
  \<comment> \<open>the row and, by \<open>ON DELETE CASCADE\<close>, its refresh tokens\<close>
  "delete_user_row s u =
     s\<lparr>user_rows := filter (\<lambda>r. u_id r \<noteq> u) (user_rows s),
       token_rows := filter (\<lambda>t. rt_user t \<noteq> u) (token_rows s)\<rparr>"

definition count_all :: "idb \<Rightarrow> nat" where
  "count_all s = length (user_rows s)"

definition active_admin :: "user_row \<Rightarrow> bool" where
  "active_admin r \<longleftrightarrow> u_admin r \<and> u_active r"

definition lock_with_active_admins :: "idb \<Rightarrow> uuid \<Rightarrow> user_row option \<times> nat" where
  "lock_with_active_admins s u =
     (let rows = filter (\<lambda>r. active_admin r \<or> u_id r = u) (user_rows s)
      in (find (\<lambda>r. u_id r = u) rows, length (filter active_admin rows)))"

section \<open>Statements of the refresh-token repository\<close>

definition token_by_hash :: "idb \<Rightarrow> string \<Rightarrow> refresh_token option" where
  "token_by_hash s h = find (\<lambda>t. rt_hash t = h) (token_rows s)"

definition token_add :: "idb \<Rightarrow> refresh_token \<Rightarrow> ident_error + idb" where
  \<comment> \<open>the primary key, the unique hash and the foreign key to the user\<close>
  "token_add s t =
     (if list_ex (\<lambda>x. rt_id x = rt_id t \<or> rt_hash x = rt_hash t) (token_rows s)
         \<or> \<not> list_ex (\<lambda>r. u_id r = rt_user t) (user_rows s)
      then Inl RowIntegrityError
      else Inr (s\<lparr>token_rows := token_rows s @ [t]\<rparr>))"

definition update_tokens :: "idb \<Rightarrow> (refresh_token \<Rightarrow> bool) \<Rightarrow> (refresh_token \<Rightarrow> refresh_token) \<Rightarrow> idb" where
  "update_tokens s p f = s\<lparr>token_rows := map (\<lambda>t. if p t then f t else t) (token_rows s)\<rparr>"

definition revoke :: "idb \<Rightarrow> string \<Rightarrow> instant \<Rightarrow> string \<Rightarrow> idb" where
  "revoke s h at reason = update_tokens s (\<lambda>t. rt_hash t = h) (\<lambda>t. t\<lparr>rt_revoked := Some at, rt_reason := Some reason\<rparr>)"

definition live_or_rotated :: "refresh_token \<Rightarrow> bool" where
  "live_or_rotated t \<longleftrightarrow> rt_revoked t = None \<or> rt_reason t = Some REVOKED_ROTATED"

definition stamp :: "instant \<Rightarrow> string \<Rightarrow> refresh_token \<Rightarrow> refresh_token" where
  \<comment> \<open>\<open>revoked_at = coalesce(revoked_at, at), revoked_reason = reason\<close>\<close>
  "stamp at reason t =
     t\<lparr>rt_revoked := Some (case rt_revoked t of None \<Rightarrow> at | Some x \<Rightarrow> x), rt_reason := Some reason\<rparr>"

definition revoke_chain :: "idb \<Rightarrow> uuid \<Rightarrow> instant \<Rightarrow> string \<Rightarrow> idb" where
  "revoke_chain s c at reason = update_tokens s (\<lambda>t. rt_chain t = c \<and> live_or_rotated t) (stamp at reason)"

definition revoke_all_for_user :: "idb \<Rightarrow> uuid \<Rightarrow> instant \<Rightarrow> idb" where
  "revoke_all_for_user s u at = update_tokens s (\<lambda>t. rt_user t = u \<and> live_or_rotated t) (stamp at REVOKED_FAMILY)"

definition list_active_for_user :: "idb \<Rightarrow> uuid \<Rightarrow> instant \<Rightarrow> refresh_token list" where
  "list_active_for_user s u now =
     sort_key (\<lambda>t. (- rt_issued t, rt_id t)) (filter (\<lambda>t. rt_user t = u \<and> is_active t now) (token_rows s))"

definition revoke_by_id :: "idb \<Rightarrow> uuid \<Rightarrow> uuid \<Rightarrow> instant \<Rightarrow> string \<Rightarrow> bool \<times> idb" where
  "revoke_by_id s tid u at reason =
     (case find (\<lambda>t. rt_id t = tid \<and> rt_user t = u
                     \<and> list_ex (\<lambda>x. rt_chain x = rt_chain t \<and> rt_revoked x = None) (token_rows s)) (token_rows s) of
        None \<Rightarrow> (False, s)
      | Some t \<Rightarrow> (True, revoke_chain s (rt_chain t) at reason))"

definition revoke_all_for_user_except ::
  "idb \<Rightarrow> uuid \<Rightarrow> string option \<Rightarrow> uuid option \<Rightarrow> instant \<Rightarrow> string \<Rightarrow> idb" where
  "revoke_all_for_user_except s u keep_hash keep_id at reason =
     update_tokens s
       (\<lambda>t. rt_user t = u \<and> live_or_rotated t
            \<and> (case keep_hash of None \<Rightarrow> True | Some h \<Rightarrow> rt_hash t \<noteq> h)
            \<and> (case keep_id of None \<Rightarrow> True | Some i \<Rightarrow> rt_id t \<noteq> i))
       (stamp at reason)"

end
