(* ===== verification/Password_Policy.thy ===== *)
theory Password_Policy
  imports Identity "HOL-Library.Sublist"
begin

text \<open>
  The password-strength policy (\<open>identity/domain/password_policy.py\<close>): the rules in the order they are
  tried, each failure with its reason code. Character classes are those of ASCII text, where the byte
  length of the UTF-8 encoding is the length.
\<close>

definition SEQUENCES :: "string list" where
  "SEQUENCES = [''abcdefghijklmnopqrstuvwxyz'', ''0123456789'', ''qwertyuiop'', ''asdfghjkl'', ''zxcvbnm'']"

definition RUN_LENGTH :: nat where
  "RUN_LENGTH = 4"

record password_policy =
  min_length :: nat
  max_length :: nat
  max_bytes :: "nat option"
  require_complexity :: bool
  complexity_classes :: nat
  check_common_list :: bool
  forbid_user_info :: bool
  forbid_simple_patterns :: bool
  common_passwords :: "string set"

record policy_preset =
  pre_min_length :: nat
  pre_require_complexity :: bool
  pre_complexity_classes :: nat
  pre_check_common_list :: bool
  pre_forbid_user_info :: bool
  pre_forbid_simple_patterns :: bool

definition PRESETS :: "(string, policy_preset) dict" where
  "PRESETS =
     [(''low'', \<lparr>pre_min_length = 8, pre_require_complexity = False, pre_complexity_classes = 0,
                 pre_check_common_list = True, pre_forbid_user_info = True, pre_forbid_simple_patterns = False\<rparr>),
      (''middle'', \<lparr>pre_min_length = 10, pre_require_complexity = True, pre_complexity_classes = 2,
                    pre_check_common_list = True, pre_forbid_user_info = True, pre_forbid_simple_patterns = True\<rparr>),
      (''high'', \<lparr>pre_min_length = 12, pre_require_complexity = True, pre_complexity_classes = 3,
                  pre_check_common_list = True, pre_forbid_user_info = True, pre_forbid_simple_patterns = True\<rparr>)]"

definition isupper :: "char \<Rightarrow> bool" where
  "isupper c \<longleftrightarrow> (let n = (of_char c :: nat) in 65 \<le> n \<and> n \<le> 90)"

definition islower :: "char \<Rightarrow> bool" where
  "islower c \<longleftrightarrow> (let n = (of_char c :: nat) in 97 \<le> n \<and> n \<le> 122)"

definition isdigit :: "char \<Rightarrow> bool" where
  "isdigit c \<longleftrightarrow> (let n = (of_char c :: nat) in 48 \<le> n \<and> n \<le> 57)"

definition isalnum :: "char \<Rightarrow> bool" where
  "isalnum c \<longleftrightarrow> isupper c \<or> islower c \<or> isdigit c"

definition has_complexity_or_length :: "string \<Rightarrow> nat \<Rightarrow> bool" where
  "has_complexity_or_length pw required =
     (if length pw \<ge> 16 then True
      else let classes = (if list_ex isupper pw then 1 else 0) + (if list_ex islower pw then 1 else 0)
                       + (if list_ex isdigit pw then 1 else 0) + (if list_ex (\<lambda>c. \<not> isalnum c) pw then 1 else 0)
           in classes \<ge> required)"

definition contains_user_info :: "string \<Rightarrow> string \<Rightarrow> string \<Rightarrow> bool" where
  "contains_user_info pw username email =
     (let folded = casefold pw; local_part = fst (str_partition (CHR ''@'') email)
      in sublist (casefold username) folded \<or> sublist (casefold local_part) folded)"

fun repeated_run_from :: "nat \<Rightarrow> string \<Rightarrow> bool" where
  \<comment> \<open>the loop of \<open>_has_repeated_run\<close> with its counter\<close>
  "repeated_run_from run (p # c # cs) =
     (let run' = (if c = p then run + 1 else 1)
      in if run' \<ge> RUN_LENGTH then True else repeated_run_from run' (c # cs))"
| "repeated_run_from run _ = False"

definition has_repeated_run :: "string \<Rightarrow> bool" where
  "has_repeated_run pw = repeated_run_from 1 pw"

definition has_sequential_run :: "string \<Rightarrow> bool" where
  "has_sequential_run pw =
     (let lowered = casefold pw
      in list_ex (\<lambda>start. let window = take RUN_LENGTH (drop start lowered)
                          in list_ex (\<lambda>sq. sublist window sq \<or> sublist window (rev sq)) SEQUENCES)
           [0..<length lowered + 1 - RUN_LENGTH])"

definition has_simple_pattern :: "string \<Rightarrow> bool" where
  "has_simple_pattern pw \<longleftrightarrow> has_repeated_run pw \<or> has_sequential_run pw"

definition validate :: "password_policy \<Rightarrow> string \<Rightarrow> string \<Rightarrow> string \<Rightarrow> ident_error + unit" where
  "validate p pw username email =
     (if length pw < min_length p then Inl (PasswordPolicyError ''too_short'')
      else if length pw > max_length p then Inl (PasswordPolicyError ''too_long'')
      else if (case max_bytes p of None \<Rightarrow> False | Some b \<Rightarrow> length pw > b) then Inl (PasswordPolicyError ''too_long_for_bcrypt'')
      else if require_complexity p \<and> \<not> has_complexity_or_length pw (complexity_classes p)
      then Inl (PasswordPolicyError ''insufficient_complexity'')
      else if check_common_list p \<and> casefold pw \<in> common_passwords p then Inl (PasswordPolicyError ''common_password'')
      else if forbid_user_info p \<and> contains_user_info pw username email then Inl (PasswordPolicyError ''contains_user_info'')
      else if forbid_simple_patterns p \<and> has_simple_pattern pw then Inl (PasswordPolicyError ''simple_pattern'')
      else Inr ())"


end
