(* ===== verification/Identity_Ops.thy ===== *)
theory Identity_Ops
  imports Password_Policy
begin

text \<open>
  The use cases of the identity context. \<open>login\<close>, \<open>change_password\<close> and \<open>delete_account\<close> run several
  transactions; each transaction is a definition of its own and the use case composes them. The check of a
  password and the write that relies on it are different transactions (or a read and a guarded write), so
  the write takes the row that was checked as an argument and meets whatever the tables hold by then.
\<close>

section \<open>Parameters\<close>

record token_service =
  hash_refresh_token :: "string \<Rightarrow> string"
  issue_access_token :: "uuid \<Rightarrow> instant \<Rightarrow> string"

record token_pair =
  access_token :: string
  refresh_secret :: string

record login_config =
  brute_force :: brute_force_config
  verify_password :: "string \<Rightarrow> string \<Rightarrow> bool"
  registration :: "registration_config option"

section \<open>Refresh tokens\<close>

definition issue_token_pair ::
  "token_service \<Rightarrow> idb \<Rightarrow> uuid \<Rightarrow> uuid \<Rightarrow> instant \<Rightarrow> duration \<Rightarrow> uuid \<Rightarrow> string \<Rightarrow> ident_error + (token_pair \<times> idb)" where
  "issue_token_pair ts s u chain now ttl new_id secret =
     (let access = issue_access_token ts u now;
          t = \<lparr>rt_id = new_id, rt_user = u, rt_chain = chain, rt_hash = hash_refresh_token ts secret,
               rt_issued = now, rt_expires = now + ttl, rt_revoked = None, rt_reason = None\<rparr>
      in case token_add s t of
           Inl e \<Rightarrow> Inl e
         | Inr s' \<Rightarrow> Inr (\<lparr>access_token = access, refresh_secret = secret\<rparr>, s'))"

definition lock_sessions_by_token_hashes :: "idb \<Rightarrow> string list \<Rightarrow> (string, refresh_token) dict" where
  "lock_sessions_by_token_hashes s hs =
     map (\<lambda>t. (rt_hash t, t)) (filter (\<lambda>t. rt_hash t \<in> set hs) (token_rows s))"

definition revoke_superseded :: "idb \<Rightarrow> refresh_token \<Rightarrow> refresh_token \<Rightarrow> instant \<Rightarrow> idb" where
  "revoke_superseded s superseded used now =
     (if rt_hash superseded = rt_hash used then s
      else if rt_chain superseded = rt_chain used
      then (if is_active superseded now then revoke s (rt_hash superseded) now REVOKED_SUPERSEDED else s)
      else revoke_chain s (rt_chain superseded) now REVOKED_SUPERSEDED)"

definition graced :: "duration \<Rightarrow> refresh_token \<Rightarrow> instant \<Rightarrow> bool" where
  "graced grace t now \<longleftrightarrow>
     rt_reason t = Some REVOKED_ROTATED \<and> (case rt_revoked t of None \<Rightarrow> False | Some r \<Rightarrow> now - r \<le> grace)"

definition refresh_session ::
  "token_service \<Rightarrow> duration \<Rightarrow> duration \<Rightarrow> idb \<Rightarrow> instant \<Rightarrow> uuid \<Rightarrow> string \<Rightarrow> string \<Rightarrow> string option \<Rightarrow>
     token_pair outcome" where
  "refresh_session ts ttl grace s now new_id secret token superseded_token =
     (let h = hash_refresh_token ts token;
          sup_hash = map_option (hash_refresh_token ts) superseded_token;
          locked = lock_sessions_by_token_hashes s (h # (case sup_hash of None \<Rightarrow> [] | Some g \<Rightarrow> [g]))
      in case dget locked h of
           None \<Rightarrow> (Inl InvalidRefreshTokenError, s)
         | Some stored \<Rightarrow>
             if rt_expires stored \<le> now then (Inl InvalidRefreshTokenError, s)
             else if rt_reason stored = Some REVOKED_SUPERSEDED then (Inl InvalidRefreshTokenError, s)
             else if rt_revoked stored \<noteq> None \<and> \<not> graced grace stored now
             then (Inl (RefreshTokenReuseError (rt_user stored)), revoke_all_for_user s (rt_user stored) now)
             else
               let s1 = (if rt_revoked stored = None then revoke s h now REVOKED_ROTATED else s)
               in case issue_token_pair ts s1 (rt_user stored) (rt_chain stored) now ttl new_id secret of
                    Inl e \<Rightarrow> (Inl e, s)
                  | Inr (pair, s2) \<Rightarrow>
                      (Inr pair,
                       case Option.bind sup_hash (dget locked) of
                         None \<Rightarrow> s2
                       | Some superseded \<Rightarrow> revoke_superseded s2 superseded stored now))"

definition logout :: "token_service \<Rightarrow> idb \<Rightarrow> instant \<Rightarrow> string \<Rightarrow> string option \<Rightarrow> idb" where
  "logout ts s now token superseded_token =
     (let h = hash_refresh_token ts token;
          sup_hash = (case superseded_token of
                        None \<Rightarrow> None
                      | Some x \<Rightarrow> if x \<noteq> token then Some (hash_refresh_token ts x) else None);
          locked = lock_sessions_by_token_hashes s (h # (case sup_hash of None \<Rightarrow> [] | Some g \<Rightarrow> [g]));
          s1 = (case dget locked h of
                  None \<Rightarrow> s
                | Some stored \<Rightarrow> revoke_chain s (rt_chain stored) now REVOKED_LOGOUT)
      in case Option.bind sup_hash (dget locked) of
           None \<Rightarrow> s1
         | Some superseded \<Rightarrow> revoke_chain s1 (rt_chain superseded) now REVOKED_SUPERSEDED)"

definition restore_session :: "token_service \<Rightarrow> idb \<Rightarrow> instant \<Rightarrow> string \<Rightarrow> ident_error + (string \<times> uuid)" where
  "restore_session ts s now token =
     (case token_by_hash s (hash_refresh_token ts token) of
        None \<Rightarrow> Inl InvalidRefreshTokenError
      | Some stored \<Rightarrow>
          if \<not> is_active stored now then Inl InvalidRefreshTokenError
          else Inr (issue_access_token ts (rt_user stored) now, rt_user stored))"

definition revoke_session :: "idb \<Rightarrow> instant \<Rightarrow> uuid \<Rightarrow> uuid \<Rightarrow> bool \<times> idb" where
  "revoke_session s now u session_id = revoke_by_id s session_id u now REVOKED_USER"

definition revoke_other_sessions ::
  "token_service \<Rightarrow> idb \<Rightarrow> instant \<Rightarrow> uuid \<Rightarrow> string option \<Rightarrow> uuid option \<Rightarrow> idb" where
  "revoke_other_sessions ts s now u current keep_id =
     revoke_all_for_user_except s u (map_option (hash_refresh_token ts) current) keep_id now REVOKED_USER"

definition list_sessions :: "idb \<Rightarrow> uuid \<Rightarrow> instant \<Rightarrow> refresh_token list" where
  "list_sessions s u now = list_active_for_user s u now"

section \<open>The login-attempt store\<close>

definition record_attempt ::
  "idb \<Rightarrow> string \<Rightarrow> string option \<Rightarrow> bool \<Rightarrow> string option \<Rightarrow> instant \<Rightarrow> idb" where
  "record_attempt s username ip success reason at =
     s\<lparr>attempt_rows := attempt_rows s @
        [\<lparr>la_username = username, la_ip = ip, la_success = success, la_reason = reason, la_at = at\<rparr>]\<rparr>"

definition count_username_failures :: "idb \<Rightarrow> string \<Rightarrow> instant \<Rightarrow> nat" where
  "count_username_failures s username since =
     length (filter (\<lambda>a. la_username a = username \<and> \<not> la_success a \<and> la_at a \<ge> since) (attempt_rows s))"

definition count_ip_failures :: "idb \<Rightarrow> string \<Rightarrow> instant \<Rightarrow> nat" where
  "count_ip_failures s ip since =
     length (filter (\<lambda>a. la_ip a = Some ip \<and> \<not> la_success a \<and> la_at a \<ge> since) (attempt_rows s))"

definition REGISTRATION_REASON :: string where
  "REGISTRATION_REASON = ''registration''"

definition record_registration :: "idb \<Rightarrow> string \<Rightarrow> instant \<Rightarrow> idb" where
  "record_registration s ip at = record_attempt s [] (Some ip) True (Some REGISTRATION_REASON) at"

definition count_ip_registrations :: "idb \<Rightarrow> string \<Rightarrow> instant \<Rightarrow> nat" where
  "count_ip_registrations s ip since =
     length (filter (\<lambda>a. la_ip a = Some ip \<and> la_reason a = Some REGISTRATION_REASON \<and> la_at a \<ge> since) (attempt_rows s))"

definition get_lockout :: "idb \<Rightarrow> string \<Rightarrow> lockout option" where
  "get_lockout s username = dget (lockout_rows s) username"

definition lock :: "idb \<Rightarrow> string \<Rightarrow> instant \<Rightarrow> nat \<Rightarrow> idb" where
  "lock s username lu n = s\<lparr>lockout_rows := dset username \<lparr>locked_until = Some lu, lockout_count = n\<rparr> (lockout_rows s)\<rparr>"

definition clear_lockout :: "idb \<Rightarrow> string \<Rightarrow> idb" where
  "clear_lockout s username = s\<lparr>lockout_rows := dpop username (lockout_rows s)\<rparr>"

definition prune_attempts :: "idb \<Rightarrow> instant \<Rightarrow> idb" where
  "prune_attempts s older_than = s\<lparr>attempt_rows := filter (\<lambda>a. \<not> la_at a < older_than) (attempt_rows s)\<rparr>"

definition prune_tick :: "brute_force_config \<Rightarrow> registration_config option \<Rightarrow> idb \<Rightarrow> instant \<Rightarrow> idb" where
  "prune_tick cfg reg s now = prune_attempts s (now - prune_horizon cfg reg)"

section \<open>Login\<close>

definition total_seconds_floor :: "duration \<Rightarrow> int" where
  \<comment> \<open>\<open>int(d.total_seconds())\<close> for \<open>d \<ge> 0\<close>\<close>
  "total_seconds_floor d = d div 1000000"

definition total_seconds_ceil :: "duration \<Rightarrow> int" where
  \<comment> \<open>\<open>math.ceil(d.total_seconds())\<close>\<close>
  "total_seconds_ceil d = - ((- d) div 1000000)"

definition blocked_reason ::
  "brute_force_config \<Rightarrow> idb \<Rightarrow> string \<Rightarrow> string option \<Rightarrow> instant \<Rightarrow> (string \<times> int) option" where
  "blocked_reason cfg s key ip now =
     (if (case ip of None \<Rightarrow> False
          | Some a \<Rightarrow> count_ip_failures s a (now - ip_window cfg) \<ge> ip_threshold cfg)
      then Some (''ip_throttled'', total_seconds_floor (ip_window cfg))
      else case get_lockout s key of
             None \<Rightarrow> None
           | Some l \<Rightarrow>
               if is_locked (locked_until l) now
               then Some (''locked'', max 1 (total_seconds_ceil (the (locked_until l) - now)))
               else None)"

definition maybe_lock :: "brute_force_config \<Rightarrow> idb \<Rightarrow> string \<Rightarrow> instant \<Rightarrow> idb" where
  "maybe_lock cfg s key now =
     (let existing = get_lockout s key
      in if (case existing of None \<Rightarrow> False | Some l \<Rightarrow> is_locked (locked_until l) now) then s
         else if count_username_failures s key (now - username_window cfg) < username_threshold cfg then s
         else
           let prior = (case existing of None \<Rightarrow> 0 | Some l \<Rightarrow> lockout_count l);
               d = backoff_duration prior (lockout_base cfg) (lockout_max cfg);
               cap = backoff_cap_count (lockout_base cfg) (lockout_max cfg)
           in lock s key (now + d) (min (prior + 1) cap))"

definition login_fail ::
  "brute_force_config \<Rightarrow> idb \<Rightarrow> string \<Rightarrow> string option \<Rightarrow> string \<Rightarrow> instant \<Rightarrow> int option \<Rightarrow> 'a outcome" where
  "login_fail cfg s key ip reason now retry_after =
     (Inl (InvalidCredentialsError retry_after),
      if enabled cfg then maybe_lock cfg (record_attempt s key ip False (Some reason) now) key now else s)"

definition login_check ::
  "login_config \<Rightarrow> idb \<Rightarrow> instant \<Rightarrow> string \<Rightarrow> string \<Rightarrow> string option \<Rightarrow> user_row outcome" where
  \<comment> \<open>from the block check to the end of the first transaction\<close>
  "login_check cfg s now name password ip =
     (let key = username_key name; bf = brute_force cfg
      in case (if enabled bf then blocked_reason bf s key ip now else None) of
           Some (reason, retry_after) \<Rightarrow> login_fail bf s key ip reason now (Some retry_after)
         | None \<Rightarrow>
             (case get_by_username s name of
                None \<Rightarrow> login_fail bf s key ip ''unknown_user'' now None
              | Some user \<Rightarrow>
                  if \<not> verify_password cfg password (u_password_hash user)
                  then login_fail bf s key ip ''wrong_password'' now None
                  else if \<not> u_active user then login_fail bf s key ip ''deactivated'' now None
                  else (Inr user, s)))"

definition refusal :: "user_row \<Rightarrow> user_row option \<Rightarrow> string option" where
  "refusal checked current =
     (case current of
        None \<Rightarrow> Some ''unknown_user''
      | Some c \<Rightarrow> if u_password_hash c \<noteq> u_password_hash checked then Some ''wrong_password''
                  else if \<not> u_active c then Some ''deactivated''
                  else None)"

definition login_store ::
  "token_service \<Rightarrow> duration \<Rightarrow> idb \<Rightarrow> instant \<Rightarrow> uuid \<Rightarrow> uuid \<Rightarrow> string \<Rightarrow> user_row \<Rightarrow> (string + token_pair) outcome" where
  \<comment> \<open>the second transaction, under the session lock: the refusal or the stored session\<close>
  "login_store ts ttl s now new_chain new_id secret user =
     (case refusal user (user_by_id s (u_id user)) of
        Some reason \<Rightarrow> (Inr (Inl reason), s)
      | None \<Rightarrow>
          (case issue_token_pair ts s (u_id user) new_chain now ttl new_id secret of
             Inl e \<Rightarrow> (Inl e, s)
           | Inr (pair, s') \<Rightarrow> (Inr (Inr pair), s')))"

definition login_done :: "login_config \<Rightarrow> idb \<Rightarrow> instant \<Rightarrow> string \<Rightarrow> string option \<Rightarrow> idb" where
  \<comment> \<open>after the session is stored: record the success, clear the lockout, prune\<close>
  "login_done cfg s now key ip =
     (if enabled (brute_force cfg)
      then prune_tick (brute_force cfg) (registration cfg)
             (clear_lockout (record_attempt s key ip True None now) key) now
      else s)"

definition login ::
  "login_config \<Rightarrow> token_service \<Rightarrow> duration \<Rightarrow> idb \<Rightarrow> instant \<Rightarrow> uuid \<Rightarrow> uuid \<Rightarrow> string \<Rightarrow> string \<Rightarrow> string \<Rightarrow> string option \<Rightarrow>
     (token_pair \<times> uuid) outcome" where
  \<comment> \<open>the whole use case with no other flow between its transactions\<close>
  "login cfg ts ttl s now new_chain new_id secret username password ip =
     (case mk_username username of
        Inl e \<Rightarrow> (Inl e, s)
      | Inr name \<Rightarrow>
          (case login_check cfg s now name password ip of
             (Inl e, s1) \<Rightarrow> (Inl e, s1)
           | (Inr user, s1) \<Rightarrow>
               (case login_store ts ttl s1 now new_chain new_id secret user of
                  (Inl e, s2) \<Rightarrow> (Inl e, s2)
                | (Inr (Inl reason), s2) \<Rightarrow> login_fail (brute_force cfg) s2 (username_key name) ip reason now None
                | (Inr (Inr pair), s2) \<Rightarrow> (Inr (pair, u_id user), login_done cfg s2 now (username_key name) ip))))"

section \<open>Accounts\<close>

definition persist_new_user ::
  "password_policy \<Rightarrow> idb \<Rightarrow> instant \<Rightarrow> uuid \<Rightarrow> string \<Rightarrow> string \<Rightarrow> string \<Rightarrow> string \<Rightarrow> bool \<Rightarrow> user_row outcome" where
  "persist_new_user policy s now new_id pw_hash username email password registration_open =
     (case mk_username username of
        Inl e \<Rightarrow> (Inl e, s)
      | Inr name \<Rightarrow>
          (case mk_email email of
             Inl e \<Rightarrow> (Inl e, s)
           | Inr address \<Rightarrow>
               (case validate policy password name address of
                  Inl e \<Rightarrow> (Inl e, s)
                | Inr _ \<Rightarrow>
                    let first_user = (count_all s = 0);
                        r = \<lparr>u_id = new_id, u_username = name, u_email = address, u_password_hash = pw_hash,
                             u_created = now, u_updated = now, u_admin = first_user, u_active = True\<rparr>
                    in if \<not> first_user \<and> \<not> registration_open then (Inl RegistrationDisabledError, s)
                       else if get_by_username s name \<noteq> None then (Inl UsernameAlreadyExistsError, s)
                       else if get_by_email s address \<noteq> None then (Inl EmailAlreadyExistsError, s)
                       else (case user_add s r of Inl e \<Rightarrow> (Inl e, s) | Inr s' \<Rightarrow> (Inr r, s')))))"

definition enforce_ip_limit :: "registration_config \<Rightarrow> idb \<Rightarrow> string option \<Rightarrow> instant \<Rightarrow> unit outcome" where
  "enforce_ip_limit reg s ip now =
     (case ip of
        None \<Rightarrow> (Inr (), s)
      | Some a \<Rightarrow>
          if \<not> ip_limit_enabled reg then (Inr (), s)
          else if count_ip_registrations s a (now - reg_ip_window reg) \<ge> reg_ip_threshold reg
          then (Inl RegistrationThrottledError, s)
          else (Inr (), record_registration s a now))"

definition register_user ::
  "password_policy \<Rightarrow> registration_config \<Rightarrow> idb \<Rightarrow> instant \<Rightarrow> uuid \<Rightarrow> string \<Rightarrow> string \<Rightarrow> string \<Rightarrow> string \<Rightarrow> string option \<Rightarrow>
     user_row outcome" where
  "register_user policy reg s now new_id pw_hash username email password ip =
     (if \<not> reg_open reg \<and> count_all s > 0 then (Inl RegistrationDisabledError, s)
      else case (if reg_open reg then enforce_ip_limit reg s ip now else (Inr (), s)) of
             (Inl e, s1) \<Rightarrow> (Inl e, s1)
           | (Inr _, s1) \<Rightarrow> persist_new_user policy s1 now new_id pw_hash username email password (reg_open reg))"

definition admin_create_user ::
  "password_policy \<Rightarrow> idb \<Rightarrow> instant \<Rightarrow> uuid \<Rightarrow> string \<Rightarrow> string \<Rightarrow> string \<Rightarrow> string \<Rightarrow> user_row outcome" where
  "admin_create_user policy s now new_id pw_hash username email password =
     persist_new_user policy s now new_id pw_hash username email password True"

definition change_password_check ::
  "(string \<Rightarrow> string \<Rightarrow> bool) \<Rightarrow> password_policy \<Rightarrow> idb \<Rightarrow> uuid \<Rightarrow> string \<Rightarrow> string \<Rightarrow> ident_error + user_row" where
  "change_password_check verify policy s u current new =
     (case user_by_id s u of
        None \<Rightarrow> Inl UserNotFoundError
      | Some user \<Rightarrow>
          if \<not> verify current (u_password_hash user) then Inl (InvalidCredentialsError None)
          else (case validate policy new (u_username user) (u_email user) of
                  Inl e \<Rightarrow> Inl e
                | Inr _ \<Rightarrow> Inr user))"

definition change_password_commit :: "idb \<Rightarrow> instant \<Rightarrow> user_row \<Rightarrow> string \<Rightarrow> unit outcome" where
  "change_password_commit s now user new_hash =
     (case change_password_hash s (u_id user) (u_password_hash user) new_hash now of
        (False, _) \<Rightarrow> (Inl (InvalidCredentialsError None), s)
      | (True, s1) \<Rightarrow> (Inr (), revoke_all_for_user s1 (u_id user) now))"

definition change_password ::
  "(string \<Rightarrow> string \<Rightarrow> bool) \<Rightarrow> password_policy \<Rightarrow> idb \<Rightarrow> instant \<Rightarrow> uuid \<Rightarrow> string \<Rightarrow> string \<Rightarrow> string \<Rightarrow> unit outcome" where
  "change_password verify policy s now u current new new_hash =
     (case change_password_check verify policy s u current new of
        Inl e \<Rightarrow> (Inl e, s)
      | Inr user \<Rightarrow> change_password_commit s now user new_hash)"

definition guarded_target :: "idb \<Rightarrow> uuid \<Rightarrow> ident_error + user_row" where
  \<comment> \<open>the lock and the last-active-admin guard shared by the four use cases below\<close>
  "guarded_target s target =
     (case lock_with_active_admins s target of
        (None, _) \<Rightarrow> Inl UserNotFoundError
      | (Some user, active_admins) \<Rightarrow>
          if u_admin user \<and> u_active user \<and> active_admins \<le> 1 then Inl LastPlatformAdminError
          else Inr user)"

definition lifecycle_target :: "idb \<Rightarrow> bool \<Rightarrow> uuid \<Rightarrow> ident_error + user_row" where
  \<comment> \<open>a change that cannot reduce the active admins reads its target without a lock\<close>
  "lifecycle_target s free target =
     (if free then (case user_by_id s target of None \<Rightarrow> Inl UserNotFoundError | Some u \<Rightarrow> Inr u)
      else guarded_target s target)"

definition set_platform_admin :: "idb \<Rightarrow> instant \<Rightarrow> uuid \<Rightarrow> bool \<Rightarrow> unit outcome" where
  "set_platform_admin s now target grant =
     (case lifecycle_target s grant target of
        Inl e \<Rightarrow> (Inl e, s)
      | Inr user \<Rightarrow>
          (case set_platform_admin_row s (u_id user) grant now of
             (False, _) \<Rightarrow> (Inl UserNotFoundError, s)
           | (True, s1) \<Rightarrow> (Inr (), s1)))"

definition set_user_active :: "idb \<Rightarrow> instant \<Rightarrow> uuid \<Rightarrow> uuid \<Rightarrow> bool \<Rightarrow> unit outcome" where
  "set_user_active s now actor target active =
     (if \<not> active \<and> target = actor then (Inl SelfTargetError, s)
      else case lifecycle_target s active target of
             Inl e \<Rightarrow> (Inl e, s)
           | Inr user \<Rightarrow>
               (case set_active_row s (u_id user) active now of
                  (False, _) \<Rightarrow> (Inl UserNotFoundError, s)
                | (True, s1) \<Rightarrow> (Inr (), if active then s1 else revoke_all_for_user s1 (u_id user) now)))"

definition delete_guarded :: "idb \<Rightarrow> instant \<Rightarrow> uuid \<Rightarrow> unit outcome" where
  \<comment> \<open>the deleting transaction of \<open>DeleteAccount\<close> and \<open>AdminDeleteUser\<close>\<close>
  "delete_guarded s now target =
     (case guarded_target s target of
        Inl e \<Rightarrow> (Inl e, s)
      | Inr user \<Rightarrow> (Inr (), delete_user_row (revoke_all_for_user s (u_id user) now) (u_id user)))"

definition delete_account ::
  "(string \<Rightarrow> string \<Rightarrow> bool) \<Rightarrow> (uuid \<Rightarrow> bool) \<Rightarrow> idb \<Rightarrow> instant \<Rightarrow> uuid \<Rightarrow> string \<Rightarrow> unit outcome" where
  "delete_account verify owns s now u password =
     (case user_by_id s u of
        None \<Rightarrow> (Inl UserNotFoundError, s)
      | Some actor \<Rightarrow>
          if \<not> verify password (u_password_hash actor) then (Inl (InvalidCredentialsError None), s)
          else if owns u then (Inl CommunityOwned, s)
          else delete_guarded s now u)"

definition admin_delete_user :: "(uuid \<Rightarrow> bool) \<Rightarrow> idb \<Rightarrow> instant \<Rightarrow> uuid \<Rightarrow> uuid \<Rightarrow> unit outcome" where
  "admin_delete_user owns s now actor target =
     (if target = actor then (Inl SelfTargetError, s)
      else if owns target then (Inl CommunityOwned, s)
      else delete_guarded s now target)"

definition update_profile ::
  "idb \<Rightarrow> instant \<Rightarrow> uuid \<Rightarrow> string option \<Rightarrow> string option \<Rightarrow> user_row outcome" where
  "update_profile s now u username email =
     (case (case username of None \<Rightarrow> Inr None | Some n \<Rightarrow> (case mk_username n of Inl e \<Rightarrow> Inl e | Inr v \<Rightarrow> Inr (Some v))) of
        Inl e \<Rightarrow> (Inl e, s)
      | Inr new_name \<Rightarrow>
          (case (case email of None \<Rightarrow> Inr None | Some n \<Rightarrow> (case mk_email n of Inl e \<Rightarrow> Inl e | Inr v \<Rightarrow> Inr (Some v))) of
             Inl e \<Rightarrow> (Inl e, s)
           | Inr new_email \<Rightarrow>
               (case user_by_id s u of
                  None \<Rightarrow> (Inl UserNotFoundError, s)
                | Some user \<Rightarrow>
                    if new_name = None \<and> new_email = None then (Inr user, s)
                    else if (case new_name of None \<Rightarrow> False
                             | Some n \<Rightarrow> username_key n \<noteq> username_key (u_username user) \<and> get_by_username s n \<noteq> None)
                    then (Inl UsernameAlreadyExistsError, s)
                    else if (case new_email of None \<Rightarrow> False
                             | Some n \<Rightarrow> n \<noteq> u_email user \<and> get_by_email s n \<noteq> None)
                    then (Inl EmailAlreadyExistsError, s)
                    else (case update_profile_row s u new_name new_email now of
                            Inl e \<Rightarrow> (Inl e, s)
                          | Inr (None, _) \<Rightarrow> (Inl UserNotFoundError, s)
                          | Inr (Some updated, s') \<Rightarrow> (Inr updated, s')))))"

end
