(* ===== verification/Identity_Machine.thy ===== *)
theory Identity_Machine
  imports Identity_Ops
begin

text \<open>
  The identity context as a machine whose steps are its transactions, in any order and with any arguments.
  \<open>LoginStore\<close> and \<open>ChangePassword\<close> take an arbitrary previously checked row, so a login or a password
  change whose check ran long before is one of the runs. The lemmas say what a step can do to a session row
  and to a stored password; the invariants of the tables follow.
\<close>

section \<open>Machines that keep an invariant\<close>

locale kept_invariant =
  fixes step :: "'s \<Rightarrow> 'a \<Rightarrow> 's"
    and inv :: "'s \<Rightarrow> bool"
    and ok :: "'a \<Rightarrow> bool"
  assumes step_keeps: "inv s \<Longrightarrow> ok a \<Longrightarrow> inv (step s a)"
begin

lemma run_keeps: "inv s \<Longrightarrow> list_all ok as \<Longrightarrow> inv (foldl step s as)"
  by (induction as arbitrary: s) (auto intro: step_keeps)

end

section \<open>Steps\<close>

datatype ident_op =
    Register password_policy registration_config instant uuid string string string string "string option"
  | AdminCreate password_policy instant uuid string string string string
  | LoginCheck login_config instant string string "string option"
  | LoginStore instant uuid uuid string user_row
  | LoginRefused login_config string "string option" string instant
  | LoginDone login_config instant string "string option"
  | Refresh instant uuid string string "string option"
  | Logout instant string "string option"
  | RevokeSession instant uuid uuid
  | RevokeOtherSessions instant uuid "string option" "uuid option"
  | ChangePassword instant user_row string
  | SetPlatformAdmin instant uuid bool
  | SetUserActive instant uuid uuid bool
  | DeleteUser instant uuid
  | UpdateProfile instant uuid "string option" "string option"
  | PruneLoginAttempts brute_force_config "registration_config option" instant

fun ident_step :: "token_service \<Rightarrow> duration \<Rightarrow> duration \<Rightarrow> idb \<Rightarrow> ident_op \<Rightarrow> idb" where
  "ident_step ts ttl grace s (Register p reg now i h n e pw ip) = snd (register_user p reg s now i h n e pw ip)"
| "ident_step ts ttl grace s (AdminCreate p now i h n e pw) = snd (admin_create_user p s now i h n e pw)"
| "ident_step ts ttl grace s (LoginCheck cfg now n pw ip) = snd (login_check cfg s now n pw ip)"
| "ident_step ts ttl grace s (LoginStore now c i x user) = snd (login_store ts ttl s now c i x user)"
| "ident_step ts ttl grace s (LoginRefused cfg key ip reason now) =
     snd (login_fail (brute_force cfg) s key ip reason now None :: unit outcome)"
| "ident_step ts ttl grace s (LoginDone cfg now key ip) = login_done cfg s now key ip"
| "ident_step ts ttl grace s (Refresh now i x tok ck) = snd (refresh_session ts ttl grace s now i x tok ck)"
| "ident_step ts ttl grace s (Logout now tok ck) = logout ts s now tok ck"
| "ident_step ts ttl grace s (RevokeSession now u i) = snd (revoke_session s now u i)"
| "ident_step ts ttl grace s (RevokeOtherSessions now u cur keep) = revoke_other_sessions ts s now u cur keep"
| "ident_step ts ttl grace s (ChangePassword now user h) = snd (change_password_commit s now user h)"
| "ident_step ts ttl grace s (SetPlatformAdmin now u g) = snd (set_platform_admin s now u g)"
| "ident_step ts ttl grace s (SetUserActive now a u b) = snd (set_user_active s now a u b)"
| "ident_step ts ttl grace s (DeleteUser now u) = snd (delete_guarded s now u)"
| "ident_step ts ttl grace s (UpdateProfile now u n e) = snd (update_profile s now u n e)"
| "ident_step ts ttl grace s (PruneLoginAttempts cfg reg now) = prune_tick cfg reg s now"

definition empty_idb :: idb where
  "empty_idb = \<lparr>user_rows = [], token_rows = [], attempt_rows = [], lockout_rows = []\<rparr>"

fun minted_chain :: "ident_op \<Rightarrow> uuid set" where
  \<comment> \<open>the chain id an operation draws\<close>
  "minted_chain (LoginStore now c i x user) = {c}"
| "minted_chain _ = {}"

fun minted_hash :: "ident_op \<Rightarrow> string set" where
  \<comment> \<open>the salted password hash an operation draws\<close>
  "minted_hash (Register p reg now i h n e pw ip) = {h}"
| "minted_hash (AdminCreate p now i h n e pw) = {h}"
| "minted_hash (ChangePassword now user h) = {h}"
| "minted_hash _ = {}"

section \<open>Dead tokens\<close>

definition dead :: "refresh_token \<Rightarrow> bool" where
  \<comment> \<open>revoked for a reason that is never graced\<close>
  "dead t \<longleftrightarrow> rt_revoked t \<noteq> None \<and> rt_reason t \<noteq> None \<and> rt_reason t \<noteq> Some REVOKED_ROTATED"

definition same_session :: "refresh_token \<Rightarrow> refresh_token \<Rightarrow> bool" where
  "same_session t t' \<longleftrightarrow> rt_id t' = rt_id t \<and> rt_user t' = rt_user t \<and> rt_chain t' = rt_chain t \<and> rt_hash t' = rt_hash t
     \<and> rt_expires t' = rt_expires t"

lemmas revoked_codes = REVOKED_ROTATED_def REVOKED_FAMILY_def REVOKED_LOGOUT_def REVOKED_USER_def REVOKED_SUPERSEDED_def

definition reason_ok :: "refresh_token \<Rightarrow> bool" where
  "reason_ok t \<longleftrightarrow> (rt_reason t = None \<longleftrightarrow> rt_revoked t = None)"

definition idb_wf :: "idb \<Rightarrow> bool" where
  "idb_wf s \<longleftrightarrow> distinct (map rt_hash (token_rows s)) \<and> distinct (map rt_id (token_rows s)) \<and> distinct (map u_id (user_rows s))
     \<and> (\<forall>t \<in> set (token_rows s). reason_ok t \<and> rt_user t \<in> u_id ` set (user_rows s))"

lemma same_session_refl [simp]: "same_session t t"
  by (simp add: same_session_def)

lemma same_session_trans: "same_session t u \<Longrightarrow> same_session u v \<Longrightarrow> same_session t v"
  by (simp add: same_session_def)

lemma same_stamp [simp]: "same_session t (stamp at r t)"
  by (simp add: same_session_def stamp_def)

lemma dead_stamp [simp]: "dead (stamp at r t) \<longleftrightarrow> r \<noteq> REVOKED_ROTATED"
  by (simp add: dead_def stamp_def)

lemma live_or_rotated_iff: "reason_ok t \<Longrightarrow> live_or_rotated t \<longleftrightarrow> \<not> dead t"
  by (auto simp: live_or_rotated_def dead_def reason_ok_def)

lemma ungraced_codes [simp]:
  "REVOKED_FAMILY \<noteq> REVOKED_ROTATED" "REVOKED_LOGOUT \<noteq> REVOKED_ROTATED" "REVOKED_USER \<noteq> REVOKED_ROTATED"
  "REVOKED_SUPERSEDED \<noteq> REVOKED_ROTATED"
  by (simp_all add: revoked_codes)

section \<open>What a step does to the sessions\<close>

definition evolves :: "refresh_token set \<Rightarrow> idb \<Rightarrow> idb \<Rightarrow> bool" where
  \<comment> \<open>every row descends from a row of before, and stays dead if that was, or is one of the minted rows\<close>
  "evolves M s s' \<longleftrightarrow>
     (\<forall>t' \<in> set (token_rows s').
        (\<exists>t \<in> set (token_rows s). same_session t t' \<and> (dead t \<longrightarrow> dead t')) \<or> (\<exists>m \<in> M. same_session m t'))"

lemma evolves_same [simp]: "token_rows s' = token_rows s \<Longrightarrow> evolves M s s'"
  unfolding evolves_def by fastforce

lemma evolves_refl [simp]: "evolves M s s"
  by simp

lemma evolves_mono: "evolves {} s s' \<Longrightarrow> evolves M s s'"
  unfolding evolves_def by auto

lemma evolves_trans:
  assumes "evolves M s s1" "evolves {} s1 s2"
  shows "evolves M s s2"
  unfolding evolves_def
proof
  fix t2 assume "t2 \<in> set (token_rows s2)"
  then obtain t1 where t1: "t1 \<in> set (token_rows s1)" "same_session t1 t2" "dead t1 \<longrightarrow> dead t2"
    using assms(2) unfolding evolves_def by blast
  then show "(\<exists>t \<in> set (token_rows s). same_session t t2 \<and> (dead t \<longrightarrow> dead t2)) \<or> (\<exists>m \<in> M. same_session m t2)"
    using assms(1) same_session_trans [OF _ t1(2)] unfolding evolves_def by meson
qed

lemma evolves_add:
  assumes "evolves {} s s1" "token_add s1 t = Inr s2"
  shows "evolves {t} s s2"
  using assms unfolding evolves_def token_add_def by (auto split: if_splits)

lemma evolves_filter: "evolves M s (s'\<lparr>token_rows := filter p (token_rows s)\<rparr>)"
  unfolding evolves_def by fastforce

lemma evolves_update:
  assumes "\<And>t. t \<in> set (token_rows s) \<Longrightarrow> p t \<Longrightarrow> same_session t (f t) \<and> (dead t \<longrightarrow> dead (f t))"
  shows "evolves {} s (update_tokens s p f)"
  using assms unfolding evolves_def update_tokens_def by fastforce

lemma evolves_stamp: "r \<noteq> REVOKED_ROTATED \<Longrightarrow> evolves {} s (update_tokens s p (stamp at r))"
  by (rule evolves_update) simp

lemma evolves_revoke:
  assumes "\<And>t. t \<in> set (token_rows s) \<Longrightarrow> rt_hash t = h \<Longrightarrow> \<not> dead t"
  shows "evolves {} s (revoke s h at r)"
  unfolding revoke_def by (rule evolves_update) (use assms in \<open>auto simp: same_session_def\<close>)

lemma evolves_revoke_chain: "r \<noteq> REVOKED_ROTATED \<Longrightarrow> evolves {} s (revoke_chain s c at r)"
  unfolding revoke_chain_def by (rule evolves_stamp)

lemma evolves_revoke_all: "evolves {} s (revoke_all_for_user s u at)"
  unfolding revoke_all_for_user_def by (rule evolves_stamp) simp

lemma dget_locked:
  "dget (lock_sessions_by_token_hashes s hs) h = (if h \<in> set hs then token_by_hash s h else None)"
proof -
  have "map_of (map (\<lambda>t. (rt_hash t, t)) (filter (\<lambda>t. rt_hash t \<in> set hs) ts)) h =
    (if h \<in> set hs then find (\<lambda>t. rt_hash t = h) ts else None)" for ts
    by (induction ts) auto
  then show ?thesis unfolding lock_sessions_by_token_hashes_def token_by_hash_def .
qed

lemma token_by_hash_Some:
  "token_by_hash s h = Some t \<Longrightarrow> t \<in> set (token_rows s) \<and> rt_hash t = h"
  unfolding token_by_hash_def by (auto simp: find_Some_iff)

lemma hash_unique:
  "idb_wf s \<Longrightarrow> t \<in> set (token_rows s) \<Longrightarrow> t' \<in> set (token_rows s) \<Longrightarrow> rt_hash t = rt_hash t' \<Longrightarrow> t = t'"
  unfolding idb_wf_def by (auto simp: distinct_map inj_on_def)

lemma token_by_hash_eq: "idb_wf s \<Longrightarrow> t \<in> set (token_rows s) \<Longrightarrow> token_by_hash s (rt_hash t) = Some t"
proof -
  assume a: "idb_wf s" "t \<in> set (token_rows s)"
  then obtain t' where "token_by_hash s (rt_hash t) = Some t'"
    by (cases "token_by_hash s (rt_hash t)") (auto simp: token_by_hash_def find_None_iff)
  with a show ?thesis using token_by_hash_Some hash_unique by metis
qed


lemma evolves_issue:
  assumes "evolves {} s s1" "issue_token_pair ts s1 u c now ttl i x = Inr (pair, s2)"
  shows "\<exists>m. evolves {m} s s2 \<and> rt_user m = u \<and> rt_chain m = c"
proof -
  let ?m = "\<lparr>rt_id = i, rt_user = u, rt_chain = c, rt_hash = hash_refresh_token ts x,
             rt_issued = now, rt_expires = now + ttl, rt_revoked = None, rt_reason = None\<rparr>"
  from assms(2) have "token_add s1 ?m = Inr s2"
    unfolding issue_token_pair_def Let_def by (auto split: sum.splits)
  then have "evolves {?m} s s2" by (rule evolves_add [OF assms(1)])
  then show ?thesis by (intro exI [of _ ?m]) simp
qed

lemma token_rows_revoke: "token_rows (revoke s h at r) =
  map (\<lambda>t. if rt_hash t = h then t\<lparr>rt_revoked := Some at, rt_reason := Some r\<rparr> else t) (token_rows s)"
  by (simp add: revoke_def update_tokens_def)

lemma map_hash_update [simp]:
  "(\<And>t. rt_hash (f t) = rt_hash t) \<Longrightarrow> map rt_hash (token_rows (update_tokens s p f)) = map rt_hash (token_rows s)"
  by (simp add: update_tokens_def)

lemma map_hash_revoke [simp]: "map rt_hash (token_rows (revoke s h at r)) = map rt_hash (token_rows s)"
  by (simp add: revoke_def)

lemma token_rows_issue:
  assumes "issue_token_pair ts s u c now ttl i x = Inr (pair, s')"
  shows "\<exists>m. token_rows s' = token_rows s @ [m] \<and> rt_hash m \<notin> rt_hash ` set (token_rows s)
           \<and> rt_id m \<notin> rt_id ` set (token_rows s) \<and> user_rows s' = user_rows s
           \<and> rt_user m \<in> u_id ` set (user_rows s) \<and> reason_ok m \<and> rt_user m = u \<and> rt_chain m = c"
  using assms unfolding issue_token_pair_def token_add_def Let_def
  by (fastforce split: sum.splits if_splits simp: reason_ok_def list_ex_iff)

lemma evolves_superseded:
  assumes "evolves M s s2"
    and live: "\<And>t. t \<in> set (token_rows s2) \<Longrightarrow> rt_hash t = rt_hash superseded \<Longrightarrow> is_active superseded now
                 \<Longrightarrow> rt_hash superseded \<noteq> rt_hash used \<Longrightarrow> \<not> dead t"
  shows "evolves M s (revoke_superseded s2 superseded used now)"
  unfolding revoke_superseded_def
  by (auto intro!: evolves_trans [OF assms(1)] evolves_revoke evolves_revoke_chain dest: live)

lemma superseded_still_live:
  assumes wf: "idb_wf s" and sup: "token_by_hash s (rt_hash superseded) = Some superseded"
    and issue: "issue_token_pair ts s1 u c now' ttl i x = Inr (pair, s2)"
    and s1: "s1 = s \<or> s1 = revoke s (rt_hash used) now REVOKED_ROTATED"
    and act: "is_active superseded now" and ne: "rt_hash superseded \<noteq> rt_hash used"
    and t: "t \<in> set (token_rows s2)" "rt_hash t = rt_hash superseded"
  shows "\<not> dead t"
proof -
  obtain m where m: "token_rows s2 = token_rows s1 @ [m]" "rt_hash m \<notin> rt_hash ` set (token_rows s1)"
    using token_rows_issue [OF issue] by blast
  have hashes: "rt_hash ` set (token_rows s1) = rt_hash ` set (token_rows s)"
    using s1 map_hash_revoke [of s] by (metis list.set_map)
  have "superseded \<in> set (token_rows s)" using token_by_hash_Some [OF sup] by simp
  then have "t \<in> set (token_rows s1)" using t m hashes by auto
  then have "t \<in> set (token_rows s)" using s1 ne t(2) by (auto simp: token_rows_revoke split: if_splits)
  then have "t = superseded" using hash_unique [OF wf] \<open>superseded \<in> _\<close> t(2) by blast
  with act show ?thesis by (simp add: dead_def is_active_def)
qed

lemma graced_live: "graced g t now \<Longrightarrow> \<not> dead t"
  by (auto simp: graced_def dead_def)

lemma refresh_success:
  assumes "refresh_session ts ttl grace s now i x tok ck = (Inr pair, s')"
  obtains stored s1 s2 where
    "token_by_hash s (hash_refresh_token ts tok) = Some stored" "rt_expires stored > now"
    "rt_revoked stored = None \<and> s1 = revoke s (rt_hash stored) now REVOKED_ROTATED \<or> graced grace stored now \<and> s1 = s"
    "rt_reason stored \<noteq> Some REVOKED_SUPERSEDED"
    "issue_token_pair ts s1 (rt_user stored) (rt_chain stored) now ttl i x = Inr (pair, s2)"
    "s' = s2 \<or> (\<exists>superseded. token_by_hash s (rt_hash superseded) = Some superseded \<and> s' = revoke_superseded s2 superseded stored now)"
proof -
  let ?h = "hash_refresh_token ts tok"
  let ?hs = "?h # (case map_option (hash_refresh_token ts) ck of None \<Rightarrow> [] | Some g \<Rightarrow> [g])"
  obtain stored where stored: "token_by_hash s ?h = Some stored"
    using assms by (cases "token_by_hash s ?h") (auto simp: refresh_session_def Let_def dget_locked)
  let ?s1 = "if rt_revoked stored = None then revoke s ?h now REVOKED_ROTATED else s"
  have run: "rt_expires stored > now" "rt_reason stored \<noteq> Some REVOKED_SUPERSEDED"
    "rt_revoked stored = None \<or> graced grace stored now"
    using assms stored by (auto simp: refresh_session_def Let_def dget_locked split: if_splits)
  obtain s2 where issue: "issue_token_pair ts ?s1 (rt_user stored) (rt_chain stored) now ttl i x = Inr (pair, s2)"
    and s': "s' = (case Option.bind (map_option (hash_refresh_token ts) ck)
        (dget (lock_sessions_by_token_hashes s ?hs)) of None \<Rightarrow> s2 | Some y \<Rightarrow> revoke_superseded s2 y stored now)"
    using assms stored run
    by (cases "issue_token_pair ts ?s1 (rt_user stored) (rt_chain stored) now ttl i x")
       (auto simp: refresh_session_def Let_def dget_locked)
  have "s' = s2 \<or> (\<exists>y. token_by_hash s (rt_hash y) = Some y \<and> s' = revoke_superseded s2 y stored now)"
  proof (cases "Option.bind (map_option (hash_refresh_token ts) ck) (dget (lock_sessions_by_token_hashes s ?hs))")
    case (Some y)
    then obtain g where "token_by_hash s g = Some y" by (auto simp: dget_locked Option.bind_eq_Some_conv split: if_splits)
    then have "token_by_hash s (rt_hash y) = Some y" using token_by_hash_Some by blast
    then show ?thesis using s' Some by auto
  qed (use s' in simp)
  then show thesis using that [OF stored run(1) _ run(2) issue] run(3) token_by_hash_Some [OF stored] by auto
qed

lemma refresh_evolves:
  assumes wf: "idb_wf s"
  shows "\<exists>M. evolves M s (snd (refresh_session ts ttl grace s now i x tok ck))
     \<and> (\<forall>m \<in> M. \<exists>t \<in> set (token_rows s). \<not> dead t \<and> rt_chain m = rt_chain t \<and> rt_user m = rt_user t)"
proof (cases "refresh_session ts ttl grace s now i x tok ck")
  case (Pair r s')
  show ?thesis
  proof (cases r)
    case (Inl e)
    with Pair have "s' = s \<or> (\<exists>u. s' = revoke_all_for_user s u now)"
      unfolding refresh_session_def Let_def by (auto split: option.splits if_splits sum.splits prod.splits)
    then show ?thesis using evolves_revoke_all Pair by (intro exI [of _ "{}"]) auto
  next
    case (Inr pair)
    from Pair [unfolded Inr] show ?thesis
    proof (rule refresh_success)
      fix stored s1 s2
      assume a: "token_by_hash s (hash_refresh_token ts tok) = Some stored"
        "rt_revoked stored = None \<and> s1 = revoke s (rt_hash stored) now REVOKED_ROTATED \<or> graced grace stored now \<and> s1 = s"
        "issue_token_pair ts s1 (rt_user stored) (rt_chain stored) now ttl i x = Inr (pair, s2)"
        "s' = s2 \<or> (\<exists>y. token_by_hash s (rt_hash y) = Some y \<and> s' = revoke_superseded s2 y stored now)"
      have live: "\<not> dead stored" using a(2) by (auto simp: dead_def graced_def)
      have st: "stored \<in> set (token_rows s)" using token_by_hash_Some [OF a(1)] by simp
      have "evolves {} s s1" using a(2) live hash_unique [OF wf st] by (auto intro!: evolves_revoke) metis
      then obtain m where m: "evolves {m} s s2" "rt_user m = rt_user stored" "rt_chain m = rt_chain stored"
        using evolves_issue [OF _ a(3)] by blast
      have "evolves {m} s s'" using a(4) m(1) superseded_still_live [OF wf _ a(3)] a(2) by (auto intro!: evolves_superseded)
      with m live st Pair show ?thesis by (intro exI [of _ "{m}"]) auto
    qed
  qed
qed

end
