(* ===== verification/Identity_Inv.thy ===== *)
theory Identity_Inv
  imports Identity_Machine
begin

text \<open>
  What every transaction of the identity context does to sessions, passwords and accounts, and the
  invariants that follow: the keys of the tables, no session for a deactivated account, and an active
  platform administrator as soon as there is an account.
\<close>

section \<open>Transactions that leave sessions or accounts alone\<close>

lemma attempts_frame [simp]:
  "token_rows (record_attempt s k ip b r at) = token_rows s" "user_rows (record_attempt s k ip b r at) = user_rows s"
  "token_rows (maybe_lock cfg s k now) = token_rows s" "user_rows (maybe_lock cfg s k now) = user_rows s"
  "token_rows (clear_lockout s k) = token_rows s" "user_rows (clear_lockout s k) = user_rows s"
  "token_rows (prune_tick bf reg s now) = token_rows s" "user_rows (prune_tick bf reg s now) = user_rows s"
  "token_rows (record_registration s a now) = token_rows s" "user_rows (record_registration s a now) = user_rows s"
  by (simp_all add: record_attempt_def maybe_lock_def lock_def clear_lockout_def prune_tick_def prune_attempts_def
      record_registration_def Let_def)

lemma login_frame [simp]:
  "token_rows (snd (login_fail cfg s k ip r now ra)) = token_rows s"
  "user_rows (snd (login_fail cfg s k ip r now ra)) = user_rows s"
  "token_rows (login_done c s now k ip) = token_rows s" "user_rows (login_done c s now k ip) = user_rows s"
  by (simp_all add: login_fail_def login_done_def)

lemma login_check_frame [simp]:
  "token_rows (snd (login_check cfg s now n pw ip)) = token_rows s"
  "user_rows (snd (login_check cfg s now n pw ip)) = user_rows s"
  by (auto simp: login_check_def Let_def split: option.splits prod.splits)

lemma revoke_frame [simp]:
  "user_rows (update_tokens s p f) = user_rows s" "user_rows (revoke s h at r) = user_rows s"
  "user_rows (revoke_chain s c at r) = user_rows s" "user_rows (revoke_all_for_user s u at) = user_rows s"
  "user_rows (revoke_all_for_user_except s u kh ki at r) = user_rows s"
  by (simp_all add: update_tokens_def revoke_def revoke_chain_def revoke_all_for_user_def revoke_all_for_user_except_def)

lemma superseded_frame [simp]: "user_rows (revoke_superseded s y z now) = user_rows s"
  by (simp add: revoke_superseded_def)

lemma session_frame [simp]:
  "user_rows (logout ts s now tok ck) = user_rows s" "user_rows (snd (revoke_session s now u i)) = user_rows s"
  "user_rows (revoke_other_sessions ts s now u cur keep) = user_rows s"
  by (auto simp: logout_def revoke_session_def revoke_by_id_def revoke_other_sessions_def Let_def split: option.splits)

lemma issue_frame: "issue_token_pair ts s u c now ttl i x = Inr (pair, s') \<Longrightarrow> user_rows s' = user_rows s"
  using token_rows_issue by blast

lemma store_frame [simp]: "user_rows (snd (login_store ts ttl s now c i x user)) = user_rows s"
  by (auto simp: login_store_def issue_frame split: option.splits sum.splits)

lemma refresh_error:
  assumes "refresh_session ts ttl grace s now i x tok ck = (Inl e, s')"
  obtains "s' = s" | u where "s' = revoke_all_for_user s u now"
  using assms unfolding refresh_session_def Let_def by (auto split: option.splits if_splits sum.splits prod.splits)

lemma refresh_frame [simp]: "user_rows (snd (refresh_session ts ttl grace s now i x tok ck)) = user_rows s"
proof (cases "refresh_session ts ttl grace s now i x tok ck")
  case (Pair r s')
  show ?thesis
  proof (cases r)
    case (Inl e)
    show ?thesis by (rule refresh_error [OF Pair [unfolded Inl]]) (simp_all add: Pair)
  next
    case (Inr pair)
    show ?thesis
      by (rule refresh_success [OF Pair [unfolded Inr]]) (use Pair in \<open>auto dest!: issue_frame\<close>)
  qed
qed

lemma update_user_frame [simp]:
  "token_rows (snd (update_user s p f)) = token_rows s"
  "user_rows (snd (update_user s p f)) = map (\<lambda>r. if p r then f r else r) (user_rows s)"
  by (simp_all add: update_user_def)

lemma persist_error: "persist_new_user p s now i h n e pw b = (Inl err, s') \<Longrightarrow> s' = s"
  by (simp add: persist_new_user_def Let_def split: sum.splits if_splits)

lemma persist_success:
  assumes "persist_new_user p s now i h n e pw b = (Inr r, s')"
  shows "s' = s\<lparr>user_rows := user_rows s @ [r]\<rparr>" "u_id r \<notin> u_id ` set (user_rows s)" "u_password_hash r = h"
    "u_active r" "u_admin r \<longleftrightarrow> user_rows s = []"
proof -
  have r: "user_add s r = Inr s' \<and> u_password_hash r = h \<and> u_active r \<and> (u_admin r \<longleftrightarrow> user_rows s = [])"
    using assms by (auto simp: persist_new_user_def Let_def count_all_def split: sum.splits if_splits)
  then show "s' = s\<lparr>user_rows := user_rows s @ [r]\<rparr>" "u_id r \<notin> u_id ` set (user_rows s)" "u_password_hash r = h"
    "u_active r" "u_admin r \<longleftrightarrow> user_rows s = []"
    by (auto simp: user_add_def unique_violation_def list_ex_iff split: if_splits)
qed

lemma persist_cases:
  obtains "snd (persist_new_user p s now i h n e pw b) = s"
  | r where "snd (persist_new_user p s now i h n e pw b) = s\<lparr>user_rows := user_rows s @ [r]\<rparr>"
    "u_id r \<notin> u_id ` set (user_rows s)" "u_password_hash r = h" "u_active r" "u_admin r \<longleftrightarrow> user_rows s = []"
proof (cases "persist_new_user p s now i h n e pw b")
  case (Pair o' s')
  then show thesis using that by (cases o') (auto dest: persist_error persist_success)
qed

lemma register_cases:
  obtains s1 where "user_rows s1 = user_rows s" "token_rows s1 = token_rows s" "snd (register_user p reg s now i h n e pw ip) = s1"
  | s1 r where "user_rows s1 = user_rows s" "token_rows s1 = token_rows s"
    "snd (register_user p reg s now i h n e pw ip) = s1\<lparr>user_rows := user_rows s @ [r]\<rparr>"
    "u_id r \<notin> u_id ` set (user_rows s)" "u_password_hash r = h" "u_active r" "u_admin r \<longleftrightarrow> user_rows s = []"
proof -
  have lim: "user_rows (snd (enforce_ip_limit reg s ip now)) = user_rows s"
    "token_rows (snd (enforce_ip_limit reg s ip now)) = token_rows s"
    by (auto simp: enforce_ip_limit_def split: option.splits)
  let ?o = "register_user p reg s now i h n e pw ip"
  have "\<exists>s1. user_rows s1 = user_rows s \<and> token_rows s1 = token_rows s \<and>
      (snd ?o = s1 \<or> snd ?o = snd (persist_new_user p s1 now i h n e pw (reg_open reg)))"
    using lim unfolding register_user_def by (auto split: prod.splits sum.splits if_splits) (metis+)?
  then obtain s1 where s1: "user_rows s1 = user_rows s" "token_rows s1 = token_rows s"
    "snd ?o = s1 \<or> snd ?o = snd (persist_new_user p s1 now i h n e pw (reg_open reg))" by blast
  from s1(3) show thesis
  proof
    assume "snd ?o = snd (persist_new_user p s1 now i h n e pw (reg_open reg))"
    then show thesis using that s1(1,2)
      by (cases rule: persist_cases [of p s1 now i h n e pw "reg_open reg"]) (metis, metis)
  qed (use that s1 in blast)
qed

section \<open>The columns that decide access\<close>

definition security :: "user_row \<Rightarrow> uuid \<times> string \<times> bool \<times> bool" where
  "security r = (u_id r, u_password_hash r, u_admin r, u_active r)"

lemma map_security_eq:
  "map security rs = map security rs' \<Longrightarrow> r \<in> set rs \<Longrightarrow> \<exists>r' \<in> set rs'. security r = security r'"
  by (metis (no_types, lifting) imageE image_eqI list.set_map)

lemma ids_of_security: "map security rs = map security rs' \<Longrightarrow> map u_id rs = map u_id rs'"
proof -
  assume "map security rs = map security rs'"
  then have "map fst (map security rs) = map fst (map security rs')" by simp
  then show ?thesis by (simp add: security_def comp_def)
qed

lemma update_profile_frame [simp]:
  "token_rows (snd (update_profile s now u n e)) = token_rows s"
  "map security (user_rows (snd (update_profile s now u n e))) = map security (user_rows s)"
proof -
  have row: "update_profile_row s u n' e' now = Inr (o', s') \<Longrightarrow>
      token_rows s' = token_rows s \<and> map security (user_rows s') = map security (user_rows s)" for n' e' o' s'
    by (auto simp: update_profile_row_def Let_def security_def split: option.splits)
  obtain o' s' where up: "update_profile s now u n e = (o', s')" by fastforce
  have "s' = s \<or> (\<exists>n' e' o''. update_profile_row s u n' e' now = Inr (o'', s'))"
    using up unfolding update_profile_def
    by (simp split: sum.splits option.splits prod.splits if_splits) blast+
  then show "token_rows (snd (update_profile s now u n e)) = token_rows s"
    "map security (user_rows (snd (update_profile s now u n e))) = map security (user_rows s)"
    using up row by auto
qed

lemma find_hit: "find P xs = Some x \<Longrightarrow> x \<in> set xs \<and> P x"
  by (induction xs) (auto split: if_splits)

lemma user_by_id_Some: "user_by_id s u = Some r \<Longrightarrow> r \<in> set (user_rows s) \<and> u_id r = u"
  unfolding user_by_id_def by (rule find_hit)

lemma locked_admins: "length (filter active_admin (filter (\<lambda>r. active_admin r \<or> u_id r = u) rs)) = length (filter active_admin rs)"
  by (induction rs) auto

lemma guarded_target_Inr:
  assumes "guarded_target s u = Inr r"
  shows "r \<in> set (user_rows s)" "u_id r = u" "active_admin r \<Longrightarrow> 1 < length (filter active_admin (user_rows s))"
proof -
  obtain n where l: "lock_with_active_admins s u = (Some r, n)" "active_admin r \<Longrightarrow> 1 < n"
    using assms by (auto simp: guarded_target_def active_admin_def split: prod.splits option.splits if_splits)
  then have r: "find (\<lambda>r. u_id r = u) (filter (\<lambda>r. active_admin r \<or> u_id r = u) (user_rows s)) = Some r"
    and n: "n = length (filter active_admin (user_rows s))"
    using locked_admins by (simp_all add: lock_with_active_admins_def Let_def del: filter_filter)
  show "r \<in> set (user_rows s)" "u_id r = u" using find_hit [OF r] by auto
  show "active_admin r \<Longrightarrow> 1 < length (filter active_admin (user_rows s))" using l(2) n by simp
qed

lemma lifecycle_target_Inr: "lifecycle_target s b u = Inr r \<Longrightarrow> u_id r = u \<and> (\<not> b \<longrightarrow> guarded_target s u = Inr r)"
  by (auto simp: lifecycle_target_def dest: user_by_id_Some guarded_target_Inr(2) split: if_splits option.splits)

lemma set_platform_admin_row_eq:
  "set_platform_admin_row s u g now = (list_ex (\<lambda>r. u_id r = u) (user_rows s),
     s\<lparr>user_rows := map (\<lambda>r. if u_id r = u then r\<lparr>u_admin := g, u_updated := now\<rparr> else r) (user_rows s)\<rparr>)"
  by (simp add: set_platform_admin_row_def update_user_def)

lemma set_platform_admin_cases:
  obtains "snd (set_platform_admin s now u g) = s"
  | "snd (set_platform_admin s now u g) =
       s\<lparr>user_rows := map (\<lambda>r. if u_id r = u then r\<lparr>u_admin := g, u_updated := now\<rparr> else r) (user_rows s)\<rparr>"
    "\<not> g \<Longrightarrow> \<exists>r. guarded_target s u = Inr r"
proof (cases "lifecycle_target s g u")
  case (Inr user)
  then show thesis using that lifecycle_target_Inr [OF Inr]
    by (cases "list_ex (\<lambda>r. u_id r = u) (user_rows s)") (auto simp: set_platform_admin_def set_platform_admin_row_eq)
qed (simp add: set_platform_admin_def that)

lemma set_active_row_eq:
  "set_active_row s u b now = (list_ex (\<lambda>r. u_id r = u) (user_rows s),
     s\<lparr>user_rows := map (\<lambda>r. if u_id r = u then r\<lparr>u_active := b, u_updated := now\<rparr> else r) (user_rows s)\<rparr>)"
  by (simp add: set_active_row_def update_user_def)

lemma set_user_active_cases:
  obtains "snd (set_user_active s now a u b) = s" "isl (fst (set_user_active s now a u b))"
  | s1 where "s1 = s\<lparr>user_rows := map (\<lambda>r. if u_id r = u then r\<lparr>u_active := b, u_updated := now\<rparr> else r) (user_rows s)\<rparr>"
    "snd (set_user_active s now a u b) = (if b then s1 else revoke_all_for_user s1 u now)"
    "fst (set_user_active s now a u b) = Inr ()"
    "\<not> b \<Longrightarrow> \<exists>r. guarded_target s u = Inr r"
proof (cases "\<not> b \<and> u = a")
  case self: False
  show thesis
  proof (cases "lifecycle_target s b u")
    case (Inr user)
    then show thesis using self that lifecycle_target_Inr [OF Inr]
      by (cases "list_ex (\<lambda>r. u_id r = u) (user_rows s)") (auto simp: set_user_active_def set_active_row_eq)
  qed (use self that in \<open>simp add: set_user_active_def\<close>)
qed (simp add: set_user_active_def that)

lemma delete_guarded_cases:
  obtains "snd (delete_guarded s now u) = s" "isl (fst (delete_guarded s now u))"
  | r where "snd (delete_guarded s now u) = delete_user_row (revoke_all_for_user s u now) u" "guarded_target s u = Inr r"
  by (cases "guarded_target s u") (auto simp: delete_guarded_def dest: guarded_target_Inr(2))

lemma change_password_cases:
  obtains "snd (change_password_commit s now user h) = s" "isl (fst (change_password_commit s now user h))"
  | s1 where "s1 = s\<lparr>user_rows := map (\<lambda>r. if u_id r = u_id user \<and> u_password_hash r = u_password_hash user
                 then r\<lparr>u_password_hash := h, u_updated := now\<rparr> else r) (user_rows s)\<rparr>"
    "snd (change_password_commit s now user h) = revoke_all_for_user s1 (u_id user) now"
    "fst (change_password_commit s now user h) = Inr ()"
    "\<exists>r \<in> set (user_rows s). u_id r = u_id user \<and> u_password_hash r = u_password_hash user"
  by (cases "list_ex (\<lambda>r. u_id r = u_id user \<and> u_password_hash r = u_password_hash user) (user_rows s)")
     (simp_all add: change_password_commit_def change_password_hash_def update_user_def, auto simp: list_ex_iff)

lemma refusal_None:
  "refusal checked o' = None \<longleftrightarrow> (\<exists>r. o' = Some r \<and> u_password_hash r = u_password_hash checked \<and> u_active r)"
  by (simp add: refusal_def split: option.splits)

lemma login_store_cases:
  obtains "snd (login_store ts ttl s now c i x user) = s"
  | pair where "issue_token_pair ts s (u_id user) c now ttl i x = Inr (pair, snd (login_store ts ttl s now c i x user))"
    "refusal user (user_by_id s (u_id user)) = None"
proof -
  have "snd (login_store ts ttl s now c i x user) = s \<or>
     (\<exists>pair. issue_token_pair ts s (u_id user) c now ttl i x = Inr (pair, snd (login_store ts ttl s now c i x user))
        \<and> refusal user (user_by_id s (u_id user)) = None)"
    by (auto simp: login_store_def split: option.splits sum.splits)
  then show thesis using that by blast
qed


section \<open>Keys of the tables\<close>

lemma wf_same_keys:
  "idb_wf s \<Longrightarrow> token_rows s' = token_rows s \<Longrightarrow> map u_id (user_rows s') = map u_id (user_rows s) \<Longrightarrow> idb_wf s'"
  unfolding idb_wf_def by (metis list.set_map)

lemma wf_update_tokens:
  "idb_wf s \<Longrightarrow> (\<And>t. p t \<Longrightarrow> same_session t (f t) \<and> reason_ok (f t)) \<Longrightarrow> idb_wf (update_tokens s p f)"
proof -
  assume wf: "idb_wf s" and f: "\<And>t. p t \<Longrightarrow> same_session t (f t) \<and> reason_ok (f t)"
  have "map rt_hash (map (\<lambda>t. if p t then f t else t) (token_rows s)) = map rt_hash (token_rows s)"
    "map rt_id (map (\<lambda>t. if p t then f t else t) (token_rows s)) = map rt_id (token_rows s)"
    using f by (auto simp: same_session_def)
  then show ?thesis using wf f unfolding idb_wf_def update_tokens_def by (auto simp: same_session_def simp del: map_map)
qed

lemma reason_ok_stamp [simp]: "reason_ok (stamp at r t)"
  by (simp add: reason_ok_def stamp_def)

lemma wf_stamp: "idb_wf s \<Longrightarrow> idb_wf (update_tokens s p (stamp at r))"
  by (rule wf_update_tokens) auto

lemma wf_revokes [intro]:
  "idb_wf s \<Longrightarrow> idb_wf (revoke_chain s c at r)" "idb_wf s \<Longrightarrow> idb_wf (revoke_all_for_user s u at)"
  "idb_wf s \<Longrightarrow> idb_wf (revoke_all_for_user_except s u kh ki at r)"
  unfolding revoke_chain_def revoke_all_for_user_def revoke_all_for_user_except_def by (rule wf_stamp, assumption)+

lemma wf_revoke [intro]: "idb_wf s \<Longrightarrow> idb_wf (revoke s h at r)"
  unfolding revoke_def by (rule wf_update_tokens) (auto simp: same_session_def reason_ok_def)

lemma wf_issue: "idb_wf s \<Longrightarrow> issue_token_pair ts s u c now ttl i x = Inr (pair, s') \<Longrightarrow> idb_wf s'"
  using token_rows_issue [of ts s u c now ttl i x pair s'] unfolding idb_wf_def by auto

lemma wf_superseded [intro]: "idb_wf s \<Longrightarrow> idb_wf (revoke_superseded s y z now)"
  by (auto simp: revoke_superseded_def)

lemma wf_add_user: "idb_wf s \<Longrightarrow> u_id r \<notin> u_id ` set (user_rows s) \<Longrightarrow> token_rows s' = token_rows s \<Longrightarrow>
    user_rows s' = user_rows s @ [r] \<Longrightarrow> idb_wf s'"
  unfolding idb_wf_def by auto

lemma wf_delete_user: "idb_wf s \<Longrightarrow> idb_wf (delete_user_row s u)"
  unfolding idb_wf_def delete_user_row_def by (auto simp: distinct_map inj_on_def)

lemma wf_refresh:
  assumes wf: "idb_wf s"
  shows "idb_wf (snd (refresh_session ts ttl grace s now i x tok ck))"
proof (cases "refresh_session ts ttl grace s now i x tok ck")
  case (Pair r s')
  show ?thesis
  proof (cases r)
    case (Inl e)
    show ?thesis by (rule refresh_error [OF Pair [unfolded Inl]]) (use wf Pair in auto)
  next
    case (Inr pair)
    show ?thesis
      by (rule refresh_success [OF Pair [unfolded Inr]]) (use wf Pair wf_issue in \<open>auto; blast\<close>)
  qed
qed

lemma wf_step: "idb_wf s \<Longrightarrow> idb_wf (ident_step ts ttl grace s op)"
proof (induction op)
  case (Register p reg now i h n e pw ip)
  then show ?case by (cases rule: register_cases [where p = p and reg = reg and s = s and now = now and i = i and h = h and n = n and e = e and pw = pw and ip = ip]) (auto intro: wf_same_keys wf_add_user)
next
  case (AdminCreate p now i h n e pw)
  then show ?case unfolding ident_step.simps admin_create_user_def
    by (cases rule: persist_cases [of p s now i h n e pw True]) (auto intro: wf_add_user)
next
  case (LoginStore now c i x user)
  then show ?case by (cases rule: login_store_cases [of ts ttl s now c i x user]) (auto intro: wf_issue)
next
  case (Refresh now i x tok ck)
  then show ?case by (simp add: wf_refresh)
next
  case (Logout now tok ck)
  then show ?case by (auto simp: logout_def Let_def split: option.splits)
next
  case (RevokeSession now u i)
  then show ?case by (auto simp: revoke_session_def revoke_by_id_def split: option.splits)
next
  case (RevokeOtherSessions now u cur keep)
  then show ?case by (auto simp: revoke_other_sessions_def)
next
  case (ChangePassword now user h)
  show ?case
    by (cases rule: change_password_cases [of s now user h]) (use ChangePassword in \<open>auto intro!: wf_revokes intro: wf_same_keys\<close>)
next
  case (SetPlatformAdmin now u g)
  then show ?case by (cases rule: set_platform_admin_cases [of s now u g]) (auto intro: wf_same_keys)
next
  case (SetUserActive now a u b)
  then show ?case
    by (cases rule: set_user_active_cases [of s now a u b]) (auto intro!: wf_revokes intro: wf_same_keys split: if_splits)
next
  case (DeleteUser now u)
  then show ?case by (cases rule: delete_guarded_cases [of s now u]) (auto intro: wf_delete_user)
next
  case (UpdateProfile now u n e)
  have "map u_id (user_rows (snd (update_profile s now u n e))) = map u_id (user_rows s)"
    using ids_of_security update_profile_frame(2) by metis
  then show ?case using UpdateProfile by (auto intro: wf_same_keys)
qed (auto intro: wf_same_keys)

interpretation keys_sys: kept_invariant "ident_step ts ttl grace" idb_wf "\<lambda>_. True" for ts ttl grace
  by unfold_locales (rule wf_step)


section \<open>Sessions and passwords along a step\<close>

definition rotated_from :: "idb \<Rightarrow> refresh_token \<Rightarrow> bool" where
  "rotated_from s m \<longleftrightarrow> (\<exists>t \<in> set (token_rows s). \<not> dead t \<and> rt_chain m = rt_chain t \<and> rt_user m = rt_user t)"

definition logged_in :: "idb \<Rightarrow> ident_op \<Rightarrow> refresh_token \<Rightarrow> bool" where
  "logged_in s op m \<longleftrightarrow>
     (\<exists>now i x user. op = LoginStore now (rt_chain m) i x user \<and> rt_user m = u_id user
        \<and> refusal user (user_by_id s (u_id user)) = None)"

lemma evolves_logout: "evolves {} s (logout ts s now tok ck)"
proof -
  have one: "evolves {} s1 (case o' of None \<Rightarrow> s1 | Some t \<Rightarrow> revoke_chain s1 (rt_chain t) now r)" if "r \<noteq> REVOKED_ROTATED"
    for s1 r and o' :: "refresh_token option"
    by (cases o') (simp_all add: evolves_revoke_chain that)
  show ?thesis unfolding logout_def Let_def by (rule evolves_trans [OF one one]) simp_all
qed

lemma evolves_delete: "evolves {} s (delete_user_row (revoke_all_for_user s u at) u)"
proof (rule evolves_trans [OF evolves_revoke_all [of s u at]])
  show "evolves {} (revoke_all_for_user s u at) (delete_user_row (revoke_all_for_user s u at) u)"
    unfolding evolves_def delete_user_row_def by fastforce
qed

lemma evolves_users: "token_rows s1 = token_rows s \<Longrightarrow> evolves {} s (revoke_all_for_user s1 u at)"
  by (rule evolves_trans [OF _ evolves_revoke_all]) simp

lemma step_evolves:
  assumes wf: "idb_wf s"
  shows "\<exists>M. evolves M s (ident_step ts ttl grace s op) \<and> (\<forall>m \<in> M. rotated_from s m \<or> logged_in s op m)"
proof -
  have old: ?thesis if "evolves {} s (ident_step ts ttl grace s op)"
    using that by (intro exI [of _ "{}"]) simp
  show ?thesis
  proof (cases op)
    case (Register p reg now i h n e pw ip)
    show ?thesis
      by (rule old, cases rule: register_cases [where p = p and reg = reg and s = s and now = now and i = i and h = h and n = n and e = e and pw = pw and ip = ip]) (auto simp: Register)
  next
    case (AdminCreate p now i h n e pw)
    show ?thesis by (rule old, cases rule: persist_cases [of p s now i h n e pw True]) (auto simp: AdminCreate admin_create_user_def)
  next
    case (LoginStore now c i x user)
    show ?thesis
    proof (cases rule: login_store_cases [of ts ttl s now c i x user])
      case 1
      then show ?thesis by (auto intro!: old simp: LoginStore)
    next
      case (2 pair)
      from evolves_issue [OF evolves_refl 2(1)] obtain m
        where "evolves {m} s (ident_step ts ttl grace s op)" "rt_user m = u_id user" "rt_chain m = c" by (auto simp: LoginStore)
      with 2(2) show ?thesis by (intro exI [of _ "{m}"]) (auto simp: logged_in_def LoginStore)
    qed
  next
    case (Refresh now i x tok ck)
    show ?thesis using refresh_evolves [OF wf, of ts ttl grace now i x tok ck] unfolding rotated_from_def Refresh by auto
  next
    case (Logout now tok ck)
    show ?thesis by (rule old) (simp add: Logout evolves_logout)
  next
    case (RevokeSession now u i)
    show ?thesis by (rule old) (auto simp: RevokeSession revoke_session_def revoke_by_id_def evolves_revoke_chain split: option.splits)
  next
    case (RevokeOtherSessions now u cur keep)
    show ?thesis by (rule old) (simp add: RevokeOtherSessions revoke_other_sessions_def revoke_all_for_user_except_def evolves_stamp)
  next
    case (ChangePassword now user h)
    show ?thesis by (rule old, cases rule: change_password_cases [of s now user h]) (auto simp: ChangePassword evolves_users)
  next
    case (SetPlatformAdmin now u g)
    show ?thesis by (rule old, cases rule: set_platform_admin_cases [of s now u g]) (auto simp: SetPlatformAdmin)
  next
    case (SetUserActive now a u b)
    show ?thesis by (rule old, cases rule: set_user_active_cases [of s now a u b]) (auto simp: SetUserActive evolves_users)
  next
    case (DeleteUser now u)
    show ?thesis by (rule old, cases rule: delete_guarded_cases [of s now u]) (auto simp: DeleteUser evolves_delete)
  qed (auto intro!: old)
qed

lemma step_hash:
  assumes "r' \<in> set (user_rows (ident_step ts ttl grace s op))"
  shows "u_password_hash r' \<in> minted_hash op \<or> (\<exists>r \<in> set (user_rows s). u_id r = u_id r' \<and> u_password_hash r = u_password_hash r')"
proof (cases op)
  case (Register p reg now i h n e pw ip)
  show ?thesis
    by (cases rule: register_cases [where p = p and reg = reg and s = s and now = now and i = i and h = h and n = n and e = e and pw = pw and ip = ip])
      (use assms in \<open>auto simp: Register\<close>)
next
  case (AdminCreate p now i h n e pw)
  show ?thesis by (cases rule: persist_cases [of p s now i h n e pw True]) (use assms in \<open>auto simp: AdminCreate admin_create_user_def\<close>)
next
  case (ChangePassword now user h)
  show ?thesis by (cases rule: change_password_cases [of s now user h]) (use assms in \<open>auto simp: ChangePassword split: if_splits\<close>)
next
  case (SetPlatformAdmin now u g)
  show ?thesis by (cases rule: set_platform_admin_cases [of s now u g]) (use assms in \<open>auto simp: SetPlatformAdmin\<close>)
next
  case (SetUserActive now a u b)
  show ?thesis by (cases rule: set_user_active_cases [of s now a u b]) (use assms in \<open>auto simp: SetUserActive split: if_splits\<close>)
next
  case (DeleteUser now u)
  show ?thesis by (cases rule: delete_guarded_cases [of s now u]) (use assms in \<open>auto simp: DeleteUser delete_user_row_def\<close>)
next
  case (UpdateProfile now u n e)
  have "\<exists>r \<in> set (user_rows s). security r' = security r"
    using map_security_eq [OF update_profile_frame(2)] assms by (simp add: UpdateProfile)
  then show ?thesis by (auto simp: security_def)
qed (use assms in auto)

end
