(* ===== verification/Identity_Props.thy ===== *)
theory Identity_Props
  imports Identity_Inv
begin

text \<open>
  Properties of the identity context over every run of its machine: an ended session stays ended, a password
  change shuts out whoever knew the old one, the accounts keep an active platform administrator and
  deactivated accounts keep no session, and a crossed threshold stops password guessing.
\<close>

section \<open>Sessions that have ended\<close>

definition all_dead :: "(uuid \<Rightarrow> uuid \<Rightarrow> bool) \<Rightarrow> idb \<Rightarrow> bool" where
  \<comment> \<open>every token of the selected (user, chain) pairs is dead\<close>
  "all_dead P s \<longleftrightarrow> (\<forall>t \<in> set (token_rows s). P (rt_user t) (rt_chain t) \<longrightarrow> dead t)"

lemma evolves_all_dead:
  assumes "evolves M s s'" "all_dead P s" "\<And>m. m \<in> M \<Longrightarrow> \<not> P (rt_user m) (rt_chain m)"
  shows "all_dead P s'"
  unfolding all_dead_def
proof (intro ballI impI)
  fix t' assume t': "t' \<in> set (token_rows s')" "P (rt_user t') (rt_chain t')"
  from assms(1) t'(1) consider t where "t \<in> set (token_rows s)" "same_session t t'" "dead t \<longrightarrow> dead t'"
    | m where "m \<in> M" "same_session m t'" unfolding evolves_def by blast
  then show "dead t'"
  proof cases
    case 1
    then show ?thesis using assms(2) t'(2) unfolding all_dead_def same_session_def by metis
  next
    case 2
    then show ?thesis using assms(3) [of m] t'(2) unfolding same_session_def by metis
  qed
qed

lemma step_all_dead:
  assumes "idb_wf s" "all_dead P s" and login: "\<And>m. logged_in s op m \<Longrightarrow> \<not> P (rt_user m) (rt_chain m)"
  shows "all_dead P (ident_step ts ttl grace s op)"
proof -
  obtain M where M: "evolves M s (ident_step ts ttl grace s op)" "\<forall>m \<in> M. rotated_from s m \<or> logged_in s op m"
    using step_evolves [OF assms(1)] by blast
  show ?thesis
  proof (rule evolves_all_dead [OF M(1) assms(2)])
    fix m assume "m \<in> M"
    with M(2) show "\<not> P (rt_user m) (rt_chain m)"
      using assms(2) login unfolding rotated_from_def all_dead_def by metis
  qed
qed

interpretation ended_sys: kept_invariant "ident_step ts ttl grace" "\<lambda>s. idb_wf s \<and> all_dead (\<lambda>u' c'. u' = u \<and> c' = c) s"
  "\<lambda>op. c \<notin> minted_chain op" for ts ttl grace u c
proof (unfold_locales, elim conjE, intro conjI)
  fix s op assume a: "idb_wf s" "all_dead (\<lambda>u' c'. u' = u \<and> c' = c) s" "c \<notin> minted_chain op"
  show "idb_wf (ident_step ts ttl grace s op)" by (rule wf_step [OF a(1)])
  show "all_dead (\<lambda>u' c'. u' = u \<and> c' = c) (ident_step ts ttl grace s op)"
    by (rule step_all_dead [OF a(1,2)]) (use a(3) in \<open>auto simp: logged_in_def\<close>)
qed

fun ends_session :: "token_service \<Rightarrow> duration \<Rightarrow> duration \<Rightarrow> idb \<Rightarrow> ident_op \<Rightarrow> refresh_token \<Rightarrow> bool" where
  \<comment> \<open>the operations that are meant to end the session of \<open>t\<close>\<close>
  "ends_session ts ttl grace s (Logout now tok ck) t \<longleftrightarrow>
     rt_hash t = hash_refresh_token ts tok \<or> (case ck of None \<Rightarrow> False | Some x \<Rightarrow> rt_hash t = hash_refresh_token ts x)"
| "ends_session ts ttl grace s (RevokeSession now u i) t \<longleftrightarrow>
     fst (revoke_session s now u i) \<and> rt_id t = i \<and> rt_user t = u"
| "ends_session ts ttl grace s (RevokeOtherSessions now u cur keep) t \<longleftrightarrow>
     rt_user t = u \<and> (\<forall>x \<in> set (token_rows s). rt_chain x = rt_chain t \<longrightarrow>
        map_option (hash_refresh_token ts) cur \<noteq> Some (rt_hash x) \<and> keep \<noteq> Some (rt_id x))"
| "ends_session ts ttl grace s (Refresh now i x tok ck) t \<longleftrightarrow>
     fst (refresh_session ts ttl grace s now i x tok ck) = Inl (RefreshTokenReuseError (rt_user t))"
| "ends_session ts ttl grace s (ChangePassword now user h) t \<longleftrightarrow>
     fst (change_password_commit s now user h) = Inr () \<and> rt_user t = u_id user"
| "ends_session ts ttl grace s (SetUserActive now a u b) t \<longleftrightarrow>
     fst (set_user_active s now a u b) = Inr () \<and> \<not> b \<and> rt_user t = u"
| "ends_session ts ttl grace s _ t \<longleftrightarrow> False"

lemma all_dead_stamp:
  assumes "idb_wf s" "r \<noteq> REVOKED_ROTATED" "\<And>t. P (rt_user t) (rt_chain t) \<Longrightarrow> t \<in> set (token_rows s) \<Longrightarrow> live_or_rotated t \<Longrightarrow> p t"
  shows "all_dead P (update_tokens s p (stamp at r))"
  unfolding all_dead_def
proof (intro ballI impI)
  fix t' assume t': "t' \<in> set (token_rows (update_tokens s p (stamp at r)))" "P (rt_user t') (rt_chain t')"
  then obtain t where t: "t \<in> set (token_rows s)" "t' = (if p t then stamp at r t else t)"
    by (auto simp: update_tokens_def)
  have "reason_ok t" using assms(1) t(1) unfolding idb_wf_def by blast
  from live_or_rotated_iff [OF this] show "dead t'"
    using assms(2,3) t t'(2) by (cases "p t") (auto simp: stamp_def dead_def)
qed

lemma all_dead_revoke_all: "idb_wf s \<Longrightarrow> all_dead (\<lambda>u' c'. u' = u \<and> Q c') (revoke_all_for_user s u at)"
  unfolding revoke_all_for_user_def by (rule all_dead_stamp) auto

lemma all_dead_chain: "idb_wf s \<Longrightarrow> r \<noteq> REVOKED_ROTATED \<Longrightarrow> all_dead (\<lambda>u' c'. Q u' \<and> c' = c) (revoke_chain s c at r)"
  unfolding revoke_chain_def by (rule all_dead_stamp) auto

lemma all_dead_chain_keep: "all_dead P s \<Longrightarrow> r \<noteq> REVOKED_ROTATED \<Longrightarrow> all_dead P (revoke_chain s c at r)"
  by (rule evolves_all_dead [OF evolves_revoke_chain]) auto


lemma logout_ends:
  assumes wf: "idb_wf s" and t: "t \<in> set (token_rows s)" and e: "ends_session ts ttl grace s (Logout now tok ck) t"
  shows "all_dead (\<lambda>u' c'. u' = rt_user t \<and> c' = rt_chain t) (logout ts s now tok ck)"
proof -
  have find: "token_by_hash s (rt_hash t) = Some t" by (rule token_by_hash_eq [OF wf t])
  let ?P = "\<lambda>u' c'. u' = rt_user t \<and> c' = rt_chain t"
  have first: "all_dead ?P (revoke_chain s' (rt_chain t) now r)" if "idb_wf s'" "r \<noteq> REVOKED_ROTATED" for s' r
    by (rule all_dead_chain [OF that])
  show ?thesis
  proof (cases "rt_hash t = hash_refresh_token ts tok")
    case True
    then show ?thesis using find first [OF wf]
      by (auto simp: logout_def Let_def dget_locked split: option.splits intro: all_dead_chain_keep)
  next
    case False
    then obtain x where "ck = Some x" "rt_hash t = hash_refresh_token ts x" using e by (auto split: option.splits)
    moreover from this False have "x \<noteq> tok" by auto
    ultimately show ?thesis using find first wf wf_revokes(1) [OF wf]
      by (auto simp: logout_def Let_def dget_locked split: option.splits)
  qed
qed

lemma op_ends_session:
  assumes wf: "idb_wf s" and t: "t \<in> set (token_rows s)" and e: "ends_session ts ttl grace s op t"
  shows "all_dead (\<lambda>u' c'. u' = rt_user t \<and> c' = rt_chain t) (ident_step ts ttl grace s op)"
proof (cases op)
  case (Logout now tok ck)
  then show ?thesis using logout_ends [OF wf t] e by auto
next
  case (RevokeSession now u i)
  let ?f = "find (\<lambda>t. rt_id t = i \<and> rt_user t = u \<and> list_ex (\<lambda>x. rt_chain x = rt_chain t \<and> rt_revoked x = None) (token_rows s)) (token_rows s)"
  obtain t' where t': "?f = Some t'" using e RevokeSession by (auto simp: revoke_session_def revoke_by_id_def split: option.splits)
  have "t' = t" using find_hit [OF t'] e RevokeSession t wf by (auto simp: idb_wf_def distinct_map inj_on_def)
  then show ?thesis using t' all_dead_chain [OF wf] by (simp add: RevokeSession revoke_session_def revoke_by_id_def)
next
  case (RevokeOtherSessions now u cur keep)
  show ?thesis unfolding RevokeOtherSessions ident_step.simps revoke_other_sessions_def revoke_all_for_user_except_def
    by (rule all_dead_stamp [OF wf]) (use e RevokeOtherSessions in \<open>auto split: option.splits\<close>)
next
  case (Refresh now i x tok ck)
  obtain e' s' where r: "refresh_session ts ttl grace s now i x tok ck = (Inl (RefreshTokenReuseError (rt_user t)), s')"
    using e Refresh by (cases "refresh_session ts ttl grace s now i x tok ck") auto
  then have "s' = revoke_all_for_user s (rt_user t) now"
    unfolding refresh_session_def Let_def issue_token_pair_def token_add_def by (auto split: option.splits if_splits sum.splits prod.splits)
  then show ?thesis using r all_dead_revoke_all [OF wf] by (simp add: Refresh)
next
  case (ChangePassword now user h)
  show ?thesis
    by (cases rule: change_password_cases [of s now user h])
      (use e ChangePassword in \<open>auto intro!: all_dead_revoke_all wf_same_keys [OF wf]\<close>)
next
  case (SetUserActive now a u b)
  show ?thesis
    by (cases rule: set_user_active_cases [of s now a u b])
      (use e SetUserActive in \<open>auto intro!: all_dead_revoke_all wf_same_keys [OF wf]\<close>)
qed (use e in auto)


section \<open>What a dead token opens\<close>

lemma dead_refused:
  assumes wf: "idb_wf s" and t: "t \<in> set (token_rows s)" and d: "dead t" and h: "hash_refresh_token ts tok = rt_hash t"
  shows "isl (fst (refresh_session ts ttl grace s now i x tok ck))" "restore_session ts s now tok = Inl InvalidRefreshTokenError"
proof -
  have find: "token_by_hash s (hash_refresh_token ts tok) = Some t" using token_by_hash_eq [OF wf t] h by simp
  show "isl (fst (refresh_session ts ttl grace s now i x tok ck))"
  proof (cases "refresh_session ts ttl grace s now i x tok ck")
    case (Pair r s')
    show ?thesis
    proof (cases r)
      case (Inr pair)
      show ?thesis by (rule refresh_success [OF Pair [unfolded Inr]]) (use find d in \<open>auto simp: dead_def graced_def\<close>)
    qed (simp add: Pair)
  qed
  show "restore_session ts s now tok = Inl InvalidRefreshTokenError"
    using find d by (auto simp: restore_session_def is_active_def dead_def)
qed

lemma wf_empty: "idb_wf empty_idb"
  by (simp add: idb_wf_def empty_idb_def)

lemma wf_run: "idb_wf (foldl (ident_step ts ttl grace) empty_idb ops)"
  using keys_sys.run_keeps [OF wf_empty] by (simp add: list_all_iff)

text \<open>
  C5. Once an operation has ended the session of a token (logout with it or with it as the cookie, revoking
  it, revoking the other sessions, the theft response, a password change or a deactivation), no token of
  that session is ever refreshed or restored again, whatever runs afterwards in whatever order: neither the
  tokens of then nor any successor. The only assumption is that no later login draws the same chain id.
\<close>

theorem ended_session_stays_ended:
  assumes reach: "s = foldl (ident_step ts ttl grace) empty_idb before"
    and t: "t \<in> set (token_rows s)" and e: "ends_session ts ttl grace s op t"
    and fresh: "\<forall>o' \<in> set ops. rt_chain t \<notin> minted_chain o'"
    and later: "s2 = foldl (ident_step ts ttl grace) (ident_step ts ttl grace s op) ops"
    and t': "t' \<in> set (token_rows s2)" "rt_user t' = rt_user t" "rt_chain t' = rt_chain t" "hash_refresh_token ts tok = rt_hash t'"
  shows "isl (fst (refresh_session ts ttl grace s2 now i x tok ck)) \<and> restore_session ts s2 now tok = Inl InvalidRefreshTokenError"
proof -
  have wf: "idb_wf s" unfolding reach by (rule wf_run)
  have "idb_wf s2 \<and> all_dead (\<lambda>u' c'. u' = rt_user t \<and> c' = rt_chain t) s2"
    unfolding later
    by (rule ended_sys.run_keeps) (use wf_step [OF wf] op_ends_session [OF wf t e] fresh in \<open>auto simp: list_all_iff\<close>)
  then have "idb_wf s2" "dead t'" using t' unfolding all_dead_def by auto
  from dead_refused [OF this(1) t'(1) this(2) t'(4)] show ?thesis by auto
qed

section \<open>Passwords\<close>

definition knows_new :: "ident_op list \<Rightarrow> uuid \<Rightarrow> string \<Rightarrow> uuid \<Rightarrow> bool" where
  \<comment> \<open>\<open>c\<close> was drawn by a login of \<open>u\<close> that had verified another hash than \<open>old\<close>\<close>
  "knows_new ops u old c \<longleftrightarrow>
     (\<exists>now i x user. LoginStore now c i x user \<in> set ops \<and> u_id user = u \<and> u_password_hash user \<noteq> old)"

definition hash_gone :: "uuid \<Rightarrow> string \<Rightarrow> idb \<Rightarrow> bool" where
  "hash_gone u old s \<longleftrightarrow> (\<forall>r \<in> set (user_rows s). u_id r = u \<longrightarrow> u_password_hash r \<noteq> old)"

lemma step_hash_gone: "hash_gone u old s \<Longrightarrow> old \<notin> minted_hash op \<Longrightarrow> hash_gone u old (ident_step ts ttl grace s op)"
  unfolding hash_gone_def using step_hash by metis

interpretation password_sys: kept_invariant "ident_step ts ttl grace"
  "\<lambda>s. idb_wf s \<and> hash_gone u old s \<and> all_dead (\<lambda>u' c'. u' = u \<and> \<not> knows_new ops u old c') s"
  "\<lambda>op. old \<notin> minted_hash op \<and> op \<in> set ops" for ts ttl grace u old ops
proof (unfold_locales, elim conjE, intro conjI)
  let ?P = "\<lambda>u' c'. u' = u \<and> \<not> knows_new ops u old c'"
  fix s op assume a: "idb_wf s" "hash_gone u old s" "all_dead ?P s" and op: "old \<notin> minted_hash op" "op \<in> set ops"
  show "idb_wf (ident_step ts ttl grace s op)" by (rule wf_step [OF a(1)])
  show "hash_gone u old (ident_step ts ttl grace s op)" by (rule step_hash_gone [OF a(2) op(1)])
  show "all_dead ?P (ident_step ts ttl grace s op)"
  proof (rule step_all_dead [OF a(1,3)])
    fix m assume "logged_in s op m"
    then obtain now i x user where l: "op = LoginStore now (rt_chain m) i x user" "rt_user m = u_id user"
      "refusal user (user_by_id s (u_id user)) = None" unfolding logged_in_def by blast
    from l(3) obtain r where "user_by_id s (u_id user) = Some r" "u_password_hash r = u_password_hash user"
      by (auto simp: refusal_None)
    then have "u_id user = u \<Longrightarrow> u_password_hash user \<noteq> old"
      using a(2) user_by_id_Some unfolding hash_gone_def by metis
    then show "\<not> ?P (rt_user m) (rt_chain m)" using l(1,2) op(2) unfolding knows_new_def by auto
  qed
qed

text \<open>
  C6. A password change shuts out whoever knew only the old password: in every later state, a token of the
  account that is accepted by a refresh or a restore belongs to a session that a login stored after the
  change, and that login had verified a different hash. A login whose check ran before the change cannot
  store a session after it. The assumptions are that salted hashes do not repeat.
\<close>

theorem password_change_ends_sessions:
  assumes reach: "s = foldl (ident_step ts ttl grace) empty_idb before"
    and change: "change_password_commit s now user new_hash = (Inr (), s1)"
    and salt: "new_hash \<noteq> u_password_hash user" "\<forall>o' \<in> set ops. u_password_hash user \<notin> minted_hash o'"
    and later: "s2 = foldl (ident_step ts ttl grace) s1 ops"
    and t: "t \<in> set (token_rows s2)" "rt_user t = u_id user" "hash_refresh_token ts tok = rt_hash t"
    and accepted: "\<not> isl (fst (refresh_session ts ttl grace s2 now' i x tok ck)) \<or> \<not> isl (restore_session ts s2 now' tok)"
  shows "\<exists>now i x checked. LoginStore now (rt_chain t) i x checked \<in> set ops \<and> u_id checked = u_id user
           \<and> u_password_hash checked \<noteq> u_password_hash user"
proof -
  let ?P = "\<lambda>u' c'. u' = u_id user \<and> \<not> knows_new ops (u_id user) (u_password_hash user) c'"
  have wf: "idb_wf s" unfolding reach by (rule wf_run)
  have s1: "s1 = ident_step ts ttl grace s (ChangePassword now user new_hash)" by (simp add: change)
  have "hash_gone (u_id user) (u_password_hash user) s1 \<and> all_dead ?P s1"
    by (cases rule: change_password_cases [of s now user new_hash])
      (use change salt(1) wf in \<open>auto simp: hash_gone_def intro!: all_dead_revoke_all wf_same_keys [OF wf]\<close>)
  moreover have "idb_wf s1" unfolding s1 by (rule wf_step [OF wf])
  ultimately have "idb_wf s2 \<and> hash_gone (u_id user) (u_password_hash user) s2 \<and> all_dead ?P s2"
    unfolding later by (intro password_sys.run_keeps) (use salt(2) in \<open>auto simp: list_all_iff\<close>)
  moreover have "\<not> dead t" if "idb_wf s2"
    using dead_refused [OF that t(1) _ t(3)] accepted by (metis isl_def)
  ultimately have "knows_new ops (u_id user) (u_password_hash user) (rt_chain t)"
    using t unfolding all_dead_def by auto
  then show ?thesis unfolding knows_new_def .
qed


section \<open>Accounts\<close>

definition no_inactive_session :: "idb \<Rightarrow> bool" where
  "no_inactive_session s \<longleftrightarrow>
     (\<forall>r \<in> set (user_rows s). \<not> u_active r \<longrightarrow> (\<forall>t \<in> set (token_rows s). rt_user t = u_id r \<longrightarrow> dead t))"

definition administrable :: "idb \<Rightarrow> bool" where
  "administrable s \<longleftrightarrow> user_rows s = [] \<or> (\<exists>r \<in> set (user_rows s). active_admin r)"

lemma step_active:
  assumes "r' \<in> set (user_rows (ident_step ts ttl grace s op))" "\<not> u_active r'"
  shows "(\<exists>r \<in> set (user_rows s). u_id r = u_id r' \<and> \<not> u_active r) \<or> (\<exists>now a. op = SetUserActive now a (u_id r') False
           \<and> fst (set_user_active s now a (u_id r') False) = Inr ())"
proof (cases op)
  case (Register p reg now i h n e pw ip)
  show ?thesis
    by (cases rule: register_cases [where p = p and reg = reg and s = s and now = now and i = i and h = h and n = n and e = e and pw = pw and ip = ip])
      (use assms in \<open>auto simp: Register\<close>)
next
  case (AdminCreate p now i h n e pw)
  show ?thesis by (cases rule: persist_cases [of p s now i h n e pw True]) (use assms in \<open>auto simp: AdminCreate admin_create_user_def\<close>)
next
  case (ChangePassword now user h)
  show ?thesis by (cases rule: change_password_cases [of s now user h]) (use assms in \<open>auto simp: ChangePassword split: if_splits\<close>)
next
  case (SetPlatformAdmin now u g)
  show ?thesis by (cases rule: set_platform_admin_cases [of s now u g]) (use assms in \<open>auto simp: SetPlatformAdmin split: if_splits\<close>)
next
  case (SetUserActive now a u b)
  show ?thesis by (cases rule: set_user_active_cases [of s now a u b]) (use assms in \<open>auto simp: SetUserActive split: if_splits\<close>)
next
  case (DeleteUser now u)
  show ?thesis by (cases rule: delete_guarded_cases [of s now u]) (use assms in \<open>auto simp: DeleteUser delete_user_row_def\<close>)
next
  case (UpdateProfile now u n e)
  have "\<exists>r \<in> set (user_rows s). security r' = security r"
    using map_security_eq [OF update_profile_frame(2)] assms by (simp add: UpdateProfile)
  then show ?thesis using assms(2) by (auto simp: security_def)
qed (use assms in auto)

lemma user_unique: "idb_wf s \<Longrightarrow> r \<in> set (user_rows s) \<Longrightarrow> r' \<in> set (user_rows s) \<Longrightarrow> u_id r = u_id r' \<Longrightarrow> r = r'"
  unfolding idb_wf_def by (auto simp: distinct_map inj_on_def)

lemma step_no_inactive_session:
  assumes wf: "idb_wf s" and inv: "no_inactive_session s"
  shows "no_inactive_session (ident_step ts ttl grace s op)"
  unfolding no_inactive_session_def
proof (intro ballI impI)
  fix r' t' assume r': "r' \<in> set (user_rows (ident_step ts ttl grace s op))" "\<not> u_active r'"
    and t': "t' \<in> set (token_rows (ident_step ts ttl grace s op))" "rt_user t' = u_id r'"
  let ?P = "\<lambda>u' c'. u' = u_id r'"
  from step_active [OF r'] have "all_dead ?P (ident_step ts ttl grace s op)"
  proof (elim disjE bexE exE conjE)
    fix r assume r: "r \<in> set (user_rows s)" "u_id r = u_id r'" "\<not> u_active r"
    show ?thesis
    proof (rule step_all_dead [OF wf])
      show "all_dead ?P s" using inv r unfolding no_inactive_session_def all_dead_def by auto
      fix m assume "logged_in s op m"
      then obtain user :: user_row and r1 where "rt_user m = u_id user" "user_by_id s (u_id user) = Some r1" "u_active r1"
        unfolding logged_in_def refusal_None by blast
      moreover from this(2) have "r1 \<in> set (user_rows s)" "u_id r1 = u_id user" using user_by_id_Some by auto
      ultimately show "\<not> rt_user m = u_id r'" using r user_unique [OF wf] by metis
    qed
  next
    fix now a assume op: "op = SetUserActive now a (u_id r') False" and ok: "fst (set_user_active s now a (u_id r') False) = Inr ()"
    show ?thesis
      by (cases rule: set_user_active_cases [of s now a "u_id r'" False])
        (use op ok all_dead_revoke_all [where Q = "\<lambda>_. True"] wf_same_keys [OF wf] in \<open>auto intro!: all_dead_revoke_all [where Q = "\<lambda>_. True", simplified]\<close>)
  qed
  then show "dead t'" using t' unfolding all_dead_def by blast
qed


lemma guarded_leaves_admin:
  assumes wf: "idb_wf s" and adm: "administrable s" and g: "guarded_target s u = Inr r"
  shows "\<exists>a \<in> set (user_rows s). active_admin a \<and> u_id a \<noteq> u"
proof (rule ccontr)
  assume "\<not> ?thesis"
  then have only: "\<And>a. a \<in> set (user_rows s) \<Longrightarrow> active_admin a \<Longrightarrow> u_id a = u" by blast
  have r: "r \<in> set (user_rows s)" "u_id r = u" using guarded_target_Inr [OF g] by auto
  obtain a where "a \<in> set (user_rows s)" "active_admin a" using adm r(1) unfolding administrable_def by auto
  moreover have inj: "inj_on u_id (set (user_rows s))" "distinct (user_rows s)" using wf unfolding idb_wf_def by (auto simp: distinct_map)
  ultimately have "active_admin r" using only r unfolding inj_on_def by metis
  then have two: "1 < length (filter active_admin (user_rows s))" by (rule guarded_target_Inr(3) [OF g])
  have "set (filter active_admin (user_rows s)) \<subseteq> {r}" using only r inj(1) unfolding inj_on_def by auto
  then have "card (set (filter active_admin (user_rows s))) \<le> 1" by (metis card.empty card_insert_disjoint card_mono empty_iff finite.simps le_numeral_extra(4) One_nat_def)
  moreover have "card (set (filter active_admin (user_rows s))) = length (filter active_admin (user_rows s))"
    by (rule distinct_card) (simp add: inj(2))
  ultimately show False using two by linarith
qed

lemma administrable_other:
  "a \<in> set (user_rows s') \<Longrightarrow> active_admin a \<Longrightarrow> administrable s'"
  unfolding administrable_def by blast

lemma administrable_map:
  assumes "administrable s" "user_rows s' = map (\<lambda>r. if p r then f r else r) (user_rows s)" "\<And>r. active_admin r \<Longrightarrow> active_admin (f r)"
  shows "administrable s'"
proof (cases "user_rows s = []")
  case False
  then obtain a where "a \<in> set (user_rows s)" "active_admin a" using assms(1) unfolding administrable_def by blast
  then show ?thesis using assms(2,3) by (intro administrable_other [of "if p a then f a else a"]) auto
qed (use assms in \<open>simp add: administrable_def\<close>)

lemma administrable_same: "administrable s \<Longrightarrow> user_rows s' = user_rows s \<Longrightarrow> administrable s'"
  unfolding administrable_def by simp

lemma step_administrable:
  assumes wf: "idb_wf s" and adm: "administrable s"
  shows "administrable (ident_step ts ttl grace s op)"
proof (cases op)
  case (Register p reg now i h n e pw ip)
  show ?thesis
    by (cases rule: register_cases [where p = p and reg = reg and s = s and now = now and i = i and h = h and n = n and e = e and pw = pw and ip = ip])
      (use adm in \<open>auto simp: Register administrable_def active_admin_def\<close>)
next
  case (AdminCreate p now i h n e pw)
  show ?thesis by (cases rule: persist_cases [of p s now i h n e pw True])
    (use adm in \<open>auto simp: AdminCreate admin_create_user_def administrable_def active_admin_def\<close>)
next
  case (ChangePassword now user h)
  show ?thesis
  proof (cases rule: change_password_cases [of s now user h])
    case (2 s1)
    show ?thesis
      by (rule administrable_map [OF adm, where p = "\<lambda>r. u_id r = u_id user \<and> u_password_hash r = u_password_hash user"
            and f = "\<lambda>r. r\<lparr>u_password_hash := h, u_updated := now\<rparr>"])
        (simp_all add: ChangePassword 2 active_admin_def)
  qed (simp add: ChangePassword adm)
next
  case (SetPlatformAdmin now u g)
  show ?thesis
  proof (cases rule: set_platform_admin_cases [of s now u g])
    case 2
    show ?thesis
    proof (cases g)
      case True
      show ?thesis
        by (rule administrable_map [OF adm, where p = "\<lambda>r. u_id r = u" and f = "\<lambda>r. r\<lparr>u_admin := g, u_updated := now\<rparr>"])
          (use 2(1) in \<open>simp_all add: SetPlatformAdmin active_admin_def True\<close>)
    next
      case False
      then obtain a where "a \<in> set (user_rows s)" "active_admin a" "u_id a \<noteq> u" using 2(2) guarded_leaves_admin [OF wf adm] by blast
      then show ?thesis using 2(1) by (auto simp: SetPlatformAdmin intro!: administrable_other [of a])
    qed
  qed (simp add: SetPlatformAdmin adm)
next
  case (SetUserActive now a' u b)
  show ?thesis
  proof (cases rule: set_user_active_cases [of s now a' u b])
    case (2 s1)
    show ?thesis
    proof (cases b)
      case True
      show ?thesis
        by (rule administrable_map [OF adm, where p = "\<lambda>r. u_id r = u" and f = "\<lambda>r. r\<lparr>u_active := b, u_updated := now\<rparr>"])
          (use 2(1,2) in \<open>simp_all add: SetUserActive active_admin_def True\<close>)
    next
      case False
      then obtain a where "a \<in> set (user_rows s)" "active_admin a" "u_id a \<noteq> u" using 2(4) guarded_leaves_admin [OF wf adm] by blast
      then show ?thesis using 2 False by (auto simp: SetUserActive intro!: administrable_other [of a])
    qed
  qed (simp add: SetUserActive adm)
next
  case (DeleteUser now u)
  show ?thesis
  proof (cases rule: delete_guarded_cases [of s now u])
    case (2 r)
    then obtain a where "a \<in> set (user_rows s)" "active_admin a" "u_id a \<noteq> u" using guarded_leaves_admin [OF wf adm] by blast
    then show ?thesis using 2 by (auto simp: DeleteUser delete_user_row_def intro!: administrable_other [of a])
  qed (simp add: DeleteUser adm)
next
  case (UpdateProfile now u n e)
  have eq: "map security (user_rows (snd (update_profile s now u n e))) = map security (user_rows s)" by simp
  then have "user_rows s = [] \<longleftrightarrow> user_rows (snd (update_profile s now u n e)) = []" by (metis Nil_is_map_conv)
  then show ?thesis using adm map_security_eq [OF eq [symmetric]]
    unfolding administrable_def UpdateProfile ident_step.simps by (auto simp: security_def active_admin_def)
qed (use administrable_same [OF adm] in auto)

lemma step_keeps_account:
  assumes wf: "idb_wf s" and adm: "administrable s" and some: "user_rows s \<noteq> []"
  shows "user_rows (ident_step ts ttl grace s op) \<noteq> []"
proof (cases op)
  case (Register p reg now i h n e pw ip)
  show ?thesis
    by (cases rule: register_cases [where p = p and reg = reg and s = s and now = now and i = i and h = h and n = n and e = e and pw = pw and ip = ip])
      (use some in \<open>auto simp: Register\<close>)
next
  case (AdminCreate p now i h n e pw)
  show ?thesis by (cases rule: persist_cases [of p s now i h n e pw True]) (use some in \<open>auto simp: AdminCreate admin_create_user_def\<close>)
next
  case (ChangePassword now user h)
  show ?thesis by (cases rule: change_password_cases [of s now user h]) (use some in \<open>auto simp: ChangePassword\<close>)
next
  case (SetPlatformAdmin now u g)
  show ?thesis by (cases rule: set_platform_admin_cases [of s now u g]) (use some in \<open>auto simp: SetPlatformAdmin\<close>)
next
  case (SetUserActive now a u b)
  show ?thesis by (cases rule: set_user_active_cases [of s now a u b]) (use some in \<open>auto simp: SetUserActive\<close>)
next
  case (DeleteUser now u)
  show ?thesis
  proof (cases rule: delete_guarded_cases [of s now u])
    case (2 r)
    then obtain a where "a \<in> set (user_rows s)" "u_id a \<noteq> u" using guarded_leaves_admin [OF wf adm] by blast
    then show ?thesis using 2 by (auto simp: DeleteUser delete_user_row_def filter_empty_conv)
  qed (simp add: DeleteUser some)
next
  case (UpdateProfile now u n e)
  then show ?thesis using some update_profile_frame(2) [of s now u n e] by (metis Nil_is_map_conv ident_step.simps(15))
qed (use some in auto)

interpretation accounts_sys: kept_invariant "ident_step ts ttl grace"
  "\<lambda>s. idb_wf s \<and> no_inactive_session s \<and> administrable s" "\<lambda>_. True" for ts ttl grace
  by unfold_locales (auto intro: wf_step step_no_inactive_session step_administrable)

text \<open>
  C8. In every state the identity context can reach from empty tables, there is an active platform
  administrator unless there is no account at all (so the closed-registration shortcut that relies on the
  account count never dropping to zero is sound: once there is an account, there always is one), and no token
  of a deactivated account is accepted by a refresh or a restore.
\<close>

theorem accounts_stay_administrable:
  assumes "s = foldl (ident_step ts ttl grace) empty_idb ops"
  shows "(user_rows s = [] \<or> (\<exists>a \<in> set (user_rows s). u_admin a \<and> u_active a))
    \<and> (user_rows s \<noteq> [] \<longrightarrow> user_rows (foldl (ident_step ts ttl grace) s rest) \<noteq> [])
    \<and> (\<forall>r \<in> set (user_rows s). \<forall>t \<in> set (token_rows s). \<not> u_active r \<and> rt_user t = u_id r \<and> hash_refresh_token ts tok = rt_hash t
         \<longrightarrow> isl (fst (refresh_session ts ttl grace s now i x tok ck)) \<and> isl (restore_session ts s now tok))"
proof -
  have "idb_wf empty_idb \<and> no_inactive_session empty_idb \<and> administrable empty_idb"
    using wf_empty by (simp add: no_inactive_session_def administrable_def empty_idb_def)
  then have inv: "idb_wf s \<and> no_inactive_session s \<and> administrable s"
    unfolding assms by (rule accounts_sys.run_keeps) (simp add: list_all_iff)
  have "user_rows (foldl (ident_step ts ttl grace) s rest) \<noteq> []" if "user_rows s \<noteq> []"
    using that inv
  proof (induction rest arbitrary: s)
    case (Cons op rest)
    have "user_rows (ident_step ts ttl grace s op) \<noteq> []" using step_keeps_account Cons.prems by blast
    then show ?case using Cons accounts_sys.step_keeps [where s = s and a = op and ts = ts and ttl = ttl and grace = grace] by simp
  qed simp
  moreover have "isl (fst (refresh_session ts ttl grace s now i x tok ck)) \<and> isl (restore_session ts s now tok)"
    if "r \<in> set (user_rows s)" "t \<in> set (token_rows s)" "\<not> u_active r" "rt_user t = u_id r" "hash_refresh_token ts tok = rt_hash t" for r t
    using that inv dead_refused [of s t ts tok] unfolding no_inactive_session_def by auto
  ultimately show ?thesis using inv unfolding administrable_def active_admin_def by blast
qed

end
