(* ===== verification/Identity_Lockout.thy ===== *)
theory Identity_Lockout
  imports Identity_Props
begin

text \<open>
  The brute-force protection of login: the exponential back-off in closed form, the lockout that a crossed
  threshold leaves behind, and the pruning of attempt rows, which no later decision can see.
\<close>

section \<open>The back-off\<close>



text \<open>Clamping the stored count changes no later duration.\<close>

lemma backoff_clamped:
  "backoff_duration (min n (backoff_cap_count base maximum)) base maximum = backoff_duration n base maximum"
  by (simp add: backoff_duration_def min_def)

section \<open>A failed login\<close>




lemma count_after_lock [simp]: "count_username_failures (maybe_lock bf s k now) k' since = count_username_failures s k' since"
  by (simp add: count_username_failures_def maybe_lock_def lock_def Let_def)

lemma lockout_after_record [simp]: "get_lockout (record_attempt s k ip b r at) k' = get_lockout s k'"
  by (simp add: get_lockout_def record_attempt_def)

lemma get_lockout_lock [simp]:
  "get_lockout (lock s k u m) k' = (if k' = k then Some \<lparr>locked_until = Some u, lockout_count = m\<rparr> else get_lockout s k')"
  by (simp add: get_lockout_def lock_def)



text \<open>The transactions that leave the lockouts alone.\<close>

lemma lockout_tokens [simp]:
  "lockout_rows (update_tokens s p f) = lockout_rows s" "lockout_rows (revoke s h at r) = lockout_rows s"
  "lockout_rows (revoke_chain s c at r) = lockout_rows s" "lockout_rows (revoke_all_for_user s u at) = lockout_rows s"
  "lockout_rows (revoke_all_for_user_except s u kh ki at r) = lockout_rows s" "lockout_rows (revoke_superseded s y z now) = lockout_rows s"
  "lockout_rows (snd (update_user s q g)) = lockout_rows s" "lockout_rows (record_registration s a now) = lockout_rows s"
  "lockout_rows (delete_user_row s u) = lockout_rows s" "lockout_rows (prune_tick bf reg s now) = lockout_rows s"
  by (simp_all add: update_tokens_def revoke_def revoke_chain_def revoke_all_for_user_def revoke_all_for_user_except_def
      revoke_superseded_def update_user_def record_registration_def record_attempt_def delete_user_row_def
      prune_tick_def prune_attempts_def Let_def)

lemma lockout_update: "update_user s q g = (b, s') \<Longrightarrow> lockout_rows s' = lockout_rows s"
  using lockout_tokens(7) [of s q g] by simp

lemma lockout_issue: "issue_token_pair ts s u c now ttl i x = Inr (pair, s') \<Longrightarrow> lockout_rows s' = lockout_rows s"
  by (auto simp: issue_token_pair_def token_add_def Let_def split: sum.splits if_splits)

lemma lockout_refresh [simp]: "lockout_rows (snd (refresh_session ts ttl grace s now i x tok ck)) = lockout_rows s"
proof (cases "refresh_session ts ttl grace s now i x tok ck")
  case (Pair r s')
  show ?thesis
  proof (cases r)
    case (Inl e)
    show ?thesis by (rule refresh_error [OF Pair [unfolded Inl]]) (simp_all add: Pair)
  next
    case (Inr pair)
    show ?thesis by (rule refresh_success [OF Pair [unfolded Inr]]) (use Pair in \<open>auto dest!: lockout_issue\<close>)
  qed
qed

lemma lockout_sessions [simp]:
  "lockout_rows (snd (login_store ts ttl s now c i x user)) = lockout_rows s"
  "lockout_rows (logout ts s now tok ck) = lockout_rows s" "lockout_rows (snd (revoke_session s now u j)) = lockout_rows s"
  "lockout_rows (revoke_other_sessions ts s now u cur keep) = lockout_rows s"
  subgoal by (auto simp: login_store_def lockout_issue split: option.splits sum.splits)
  by (auto simp: logout_def revoke_session_def revoke_by_id_def revoke_other_sessions_def Let_def split: option.splits)

lemma lockout_new_user [simp]:
  "lockout_rows (snd (persist_new_user p s now i h n e pw b)) = lockout_rows s"
  by (auto simp: persist_new_user_def user_add_def Let_def split: sum.splits option.splits if_splits)

lemma lockout_accounts [simp]:
  "lockout_rows (snd (register_user p reg s now i h n e pw ip)) = lockout_rows s"
  "lockout_rows (snd (admin_create_user p s now i h n e pw)) = lockout_rows s"
  "lockout_rows (snd (change_password_commit s now user h)) = lockout_rows s"
  "lockout_rows (snd (set_platform_admin s now u g)) = lockout_rows s"
  "lockout_rows (snd (set_user_active s now a u b)) = lockout_rows s"
  "lockout_rows (snd (delete_guarded s now u)) = lockout_rows s"
  subgoal by (auto simp: register_user_def enforce_ip_limit_def split: option.split prod.split)
  subgoal by (simp add: admin_create_user_def)
  subgoal by (auto simp: change_password_commit_def change_password_hash_def lockout_update split: prod.split bool.split)
  subgoal by (auto simp: set_platform_admin_def set_platform_admin_row_def lockout_update split: sum.split prod.split bool.split)
  subgoal by (auto simp: set_user_active_def set_active_row_def lockout_update split: sum.split prod.split bool.split)
  by (auto simp: delete_guarded_def split: sum.split)

lemma lockout_profile [simp]: "lockout_rows (snd (update_profile s now u n e)) = lockout_rows s"
proof -
  have row: "update_profile_row s u n' e' now = Inr (r, s') \<Longrightarrow> lockout_rows s' = lockout_rows s" for n' e' r s'
    by (auto simp: update_profile_row_def Let_def split: option.splits)
  obtain out s' where up: "update_profile s now u n e = (out, s')" by fastforce
  have "s' = s \<or> (\<exists>n' e' r. update_profile_row s u n' e' now = Inr (r, s'))"
    using up unfolding update_profile_def by (simp split: sum.splits option.splits prod.splits if_splits) blast+
  then show ?thesis using up row by auto
qed




lemma same_lockout: "lockout_rows s' = lockout_rows s \<Longrightarrow> get_lockout s' key = get_lockout s key"
  by (simp add: get_lockout_def)




section \<open>Pruning\<close>

lemma count_prune:
  assumes "older \<le> since"
  shows "count_username_failures (prune_attempts s older) k since = count_username_failures s k since"
    and "count_ip_failures (prune_attempts s older) a since = count_ip_failures s a since"
    and "count_ip_registrations (prune_attempts s older) a since = count_ip_registrations s a since"
  using assms unfolding count_username_failures_def count_ip_failures_def count_ip_registrations_def prune_attempts_def
  by (auto simp: filter_filter intro!: arg_cong [where f = length] filter_cong)

lemma prune_invisible:
  assumes later: "now \<le> now'"
  shows "blocked_reason bf (prune_tick bf reg s now) k ip now' = blocked_reason bf s k ip now'"
    and "get_lockout (maybe_lock bf (prune_tick bf reg s now) k now') k' = get_lockout (maybe_lock bf s k now') k'"
    and "reg = Some r \<Longrightarrow> fst (enforce_ip_limit r (prune_tick bf reg s now) ip now') = fst (enforce_ip_limit r s ip now')"
proof -
  let ?o = "now - prune_horizon bf reg"
  have lock: "get_lockout (prune_attempts s o') k' = get_lockout s k'" for o' k'
    by (simp add: get_lockout_def prune_attempts_def)
  have "?o \<le> now' - ip_window bf" "?o \<le> now' - username_window bf"
    using later by (auto simp: prune_horizon_def Let_def split: option.splits)
  note c = count_prune(1,2) [OF this(2)] count_prune(2) [OF this(1)]
  show "blocked_reason bf (prune_tick bf reg s now) k ip now' = blocked_reason bf s k ip now'"
    by (simp add: blocked_reason_def prune_tick_def lock c split: option.splits)
  show "get_lockout (maybe_lock bf (prune_tick bf reg s now) k now') k' = get_lockout (maybe_lock bf s k now') k'"
    by (simp add: maybe_lock_def Let_def prune_tick_def c lock)
  show "fst (enforce_ip_limit r (prune_tick bf reg s now) ip now') = fst (enforce_ip_limit r s ip now')" if "reg = Some r"
  proof (cases "ip_limit_enabled r")
    case True
    then have "?o \<le> now' - reg_ip_window r" using later that by (simp add: prune_horizon_def Let_def)
    from count_prune(3) [OF this] show ?thesis
      by (simp add: enforce_ip_limit_def prune_tick_def split: option.splits)
  qed (simp add: enforce_ip_limit_def split: option.splits)
qed

end
