(* ===== verification/Identity_Witness.thy ===== *)
theory Identity_Witness
  imports Identity_Lockout
begin

text \<open>
  A concrete run of the identity context: the first account, a login, a rotation of its refresh token, and
  then a logout, a password change, a deactivation or a wrong password. The properties are applied to it.
\<close>

definition demo_tokens :: token_service where
  "demo_tokens = \<lparr>hash_refresh_token = (\<lambda>x. CHR ''#'' # x), issue_access_token = (\<lambda>u now. u)\<rparr>"

definition demo_policy :: password_policy where
  "demo_policy = \<lparr>min_length = 1, max_length = 9, max_bytes = None, require_complexity = False, complexity_classes = 0,
     check_common_list = False, forbid_user_info = False, forbid_simple_patterns = False, common_passwords = {}\<rparr>"



definition ann :: user_row where
  "ann = \<lparr>u_id = ''u'', u_username = ''ann'', u_email = ''a@b'', u_password_hash = ''pw'', u_created = 0, u_updated = 0,
     u_admin = True, u_active = True\<rparr>"

definition demo_ops :: "ident_op list" where
  "demo_ops = [AdminCreate demo_policy 0 ''u'' ''pw'' ''ann'' ''a@b'' ''pw'', LoginStore 10 ''c'' ''t1'' ''s1'' ann,
     Refresh 20 ''t2'' ''s2'' ''s1'' None]"

abbreviation demo_step :: "idb \<Rightarrow> ident_op \<Rightarrow> idb" where
  "demo_step \<equiv> ident_step demo_tokens 1000 30"

definition first_token :: refresh_token where
  "first_token = \<lparr>rt_id = ''t1'', rt_user = ''u'', rt_chain = ''c'', rt_hash = ''#s1'', rt_issued = 10, rt_expires = 1010,
     rt_revoked = Some 20, rt_reason = Some ''rotated''\<rparr>"

definition second_token :: refresh_token where
  "second_token = \<lparr>rt_id = ''t2'', rt_user = ''u'', rt_chain = ''c'', rt_hash = ''#s2'', rt_issued = 20, rt_expires = 1020,
     rt_revoked = None, rt_reason = None\<rparr>"

definition demo_state :: idb where
  "demo_state = \<lparr>user_rows = [ann], token_rows = [first_token, second_token], attempt_rows = [], lockout_rows = []\<rparr>"

lemma ident_demo_run: "foldl demo_step empty_idb demo_ops = demo_state"
  by code_simp


definition logged_out :: idb where
  "logged_out = demo_state\<lparr>token_rows :=
     [first_token\<lparr>rt_reason := Some ''logout''\<rparr>, second_token\<lparr>rt_revoked := Some 40, rt_reason := Some ''logout''\<rparr>]\<rparr>"

lemma logged_out_run:
  "foldl demo_step (demo_step demo_state (Logout 40 ''s1'' None)) [Refresh 41 ''t3'' ''s3'' ''s2'' None] = logged_out"
  by code_simp

lemma logged_out_facts:
  "ends_session demo_tokens 1000 30 demo_state (Logout 40 ''s1'' None) first_token"
  "hash_refresh_token demo_tokens ''s2'' = ''#s2''"
  by code_simp+

theorem ended_session_stays_ended_witness:
  "isl (fst (refresh_session demo_tokens 1000 30 logged_out 42 ''t4'' ''s4'' ''s2'' None))
   \<and> restore_session demo_tokens logged_out 42 ''s2'' = Inl InvalidRefreshTokenError"
  by (rule ended_session_stays_ended [OF ident_demo_run [symmetric] _ logged_out_facts(1) _ logged_out_run [symmetric],
        where t' = "second_token\<lparr>rt_revoked := Some 40, rt_reason := Some ''logout''\<rparr>"])
    (simp_all add: demo_state_def logged_out_def first_token_def second_token_def logged_out_facts(2))

definition ann_new :: user_row where
  "ann_new = ann\<lparr>u_password_hash := ''new'', u_updated := 50\<rparr>"

definition third_token :: refresh_token where
  "third_token = \<lparr>rt_id = ''t5'', rt_user = ''u'', rt_chain = ''d'', rt_hash = ''#s5'', rt_issued = 60, rt_expires = 1060,
     rt_revoked = None, rt_reason = None\<rparr>"

definition changed_state :: idb where
  "changed_state = \<lparr>user_rows = [ann_new], token_rows = [first_token\<lparr>rt_reason := Some ''family''\<rparr>,
     second_token\<lparr>rt_revoked := Some 50, rt_reason := Some ''family''\<rparr>], attempt_rows = [], lockout_rows = []\<rparr>"

definition back_in :: idb where
  "back_in = changed_state\<lparr>token_rows := token_rows changed_state @ [third_token]\<rparr>"

lemma change_run: "change_password_commit demo_state 50 ann ''new'' = (Inr (), changed_state)"
  by code_simp

lemma back_in_run: "foldl demo_step changed_state [LoginStore 55 ''x'' ''t9'' ''s9'' ann, LoginStore 60 ''d'' ''t5'' ''s5'' ann_new] = back_in"
  by code_simp

lemma back_in_restore: "restore_session demo_tokens back_in 61 ''s5'' = Inr (''u'', ''u'')"
  by code_simp

theorem password_change_ends_sessions_witness:
  "\<exists>now i x checked. LoginStore now ''d'' i x checked
       \<in> set [LoginStore 55 ''x'' ''t9'' ''s9'' ann, LoginStore 60 ''d'' ''t5'' ''s5'' ann_new]
     \<and> u_id checked = u_id ann \<and> u_password_hash checked \<noteq> u_password_hash ann"
  using password_change_ends_sessions [OF ident_demo_run [symmetric] change_run _ _ back_in_run [symmetric],
      of third_token "''s5''" 61 "[]" "[]" None]
  by (simp add: back_in_restore back_in_def third_token_def ann_def ann_new_def demo_tokens_def)

theorem accounts_stay_administrable_witness:
  "(\<exists>a \<in> set (user_rows demo_state). u_admin a \<and> u_active a)
    \<and> user_rows (foldl demo_step demo_state [DeleteUser 70 ''u'']) \<noteq> []"
proof -
  have "user_rows demo_state \<noteq> []" by code_simp
  then show ?thesis
    using accounts_stay_administrable [OF ident_demo_run [symmetric], of "[DeleteUser 70 ''u'']"] by simp
qed






end
