(* ===== verification/Version_Range.thy ===== *)
theory Version_Range
  imports Prelude "HOL-Library.List_Lexorder" "HOL-Library.Char_ord"
begin

text \<open>
  The version-range predicate (\<open>servers/application/version_range.py\<close>): splitting a version into
  components, the component-wise comparison, and the three range dialects. A failure inside a dialect is an
  error value, so that the tolerant fallback of the entry point is a branch of the model. Text is ASCII,
  where \<open>str.isdigit\<close> is exactly what \<open>int\<close> reads.
\<close>

section \<open>Strings\<close>

definition is_digit :: "char \<Rightarrow> bool" where
  "is_digit c \<longleftrightarrow> (let n = (of_char c :: nat) in 48 \<le> n \<and> n \<le> 57)"

definition digit_value :: "char \<Rightarrow> nat" where
  "digit_value c = of_char c - 48"

definition all_digits :: "string \<Rightarrow> bool" where
  \<comment> \<open>\<open>s.isdigit()\<close>\<close>
  "all_digits s \<longleftrightarrow> s \<noteq> [] \<and> list_all is_digit s"

definition digits_value :: "string \<Rightarrow> nat" where
  "digits_value = foldl (\<lambda>n c. 10 * n + digit_value c) 0"

fun int_body :: "bool \<Rightarrow> nat \<Rightarrow> string \<Rightarrow> nat option" where
  \<comment> \<open>digits with single underscores between them; the flag says whether a digit has just been read\<close>
  "int_body d n [] = (if d then Some n else None)"
| "int_body d n (c # cs) =
     (if is_digit c then int_body True (10 * n + digit_value c) cs
      else if c = CHR ''_'' \<and> d then int_body False n cs
      else None)"

definition py_int :: "string \<Rightarrow> py_error + int" where
  \<comment> \<open>\<open>int(s)\<close>: surrounding whitespace, a sign, digits\<close>
  "py_int s =
     (let t = strip s;
          (neg, body) = (case t of [] \<Rightarrow> (False, []) | c # cs \<Rightarrow>
             if c = CHR ''-'' then (True, cs) else if c = CHR ''+'' then (False, cs) else (False, t))
      in case int_body False 0 body of
           None \<Rightarrow> Inl ValueError
         | Some n \<Rightarrow> Inr (if neg then - int n else int n))"

definition show_digit :: "nat \<Rightarrow> char" where
  "show_digit d = char_of (48 + d)"

fun show_nat :: "nat \<Rightarrow> string" where
  "show_nat n = (if n < 10 then [show_digit n] else show_nat (n div 10) @ [show_digit (n mod 10)])"

declare show_nat.simps [simp del]

definition show_int :: "int \<Rightarrow> string" where
  \<comment> \<open>\<open>str(n)\<close>\<close>
  "show_int n = (if n < 0 then CHR ''-'' # show_nat (nat (- n)) else show_nat (nat n))"

fun split_on :: "(char \<Rightarrow> bool) \<Rightarrow> string \<Rightarrow> string list" where
  \<comment> \<open>split at every separator, empty fields kept\<close>
  "split_on p [] = [[]]"
| "split_on p (c # cs) =
     (if p c then [] # split_on p cs
      else (case split_on p cs of [] \<Rightarrow> [[c]] | f # fs \<Rightarrow> (c # f) # fs))"

definition split_char :: "char \<Rightarrow> string \<Rightarrow> string list" where
  "split_char c = split_on (\<lambda>x. x = c)"

fun split_pipes :: "string \<Rightarrow> string list" where
  \<comment> \<open>\<open>s.split("||")\<close>\<close>
  "split_pipes [] = [[]]"
| "split_pipes [c] = [[c]]"
| "split_pipes (c # d # cs) =
     (if c = CHR ''|'' \<and> d = CHR ''|'' then [] # split_pipes cs
      else (case split_pipes (d # cs) of [] \<Rightarrow> [[c]] | f # fs \<Rightarrow> (c # f) # fs))"

definition starts_with :: "string \<Rightarrow> string \<Rightarrow> bool" where
  "starts_with s p \<longleftrightarrow> take (length p) s = p"

section \<open>Comparing versions\<close>

datatype component = Num nat | Str string

definition components :: "string \<Rightarrow> component list" where
  "components v =
     map (\<lambda>raw. if all_digits raw then Num (digits_value raw) else Str raw)
       (filter (\<lambda>raw. raw \<noteq> []) (split_on (\<lambda>c. c = CHR ''.'' \<or> c = CHR ''-'') (hd (split_char (CHR ''+'') v))))"

fun compare_component :: "component \<Rightarrow> component \<Rightarrow> int" where
  "compare_component (Num x) (Num y) = (if x = y then 0 else if x < y then - 1 else 1)"
| "compare_component (Num x) (Str y) = 1"
| "compare_component (Str x) (Num y) = - 1"
| "compare_component (Str x) (Str y) = (if x = y then 0 else if x < y then - 1 else 1)"

fun compare_components :: "component list \<Rightarrow> component list \<Rightarrow> int" where
  \<comment> \<open>the loop over the longer list, a missing component being \<open>0\<close>\<close>
  "compare_components [] [] = 0"
| "compare_components (x # xs) [] =
     (let c = compare_component x (Num 0) in if c = 0 then compare_components xs [] else c)"
| "compare_components [] (y # ys) =
     (let c = compare_component (Num 0) y in if c = 0 then compare_components [] ys else c)"
| "compare_components (x # xs) (y # ys) =
     (let c = compare_component x y in if c = 0 then compare_components xs ys else c)"

definition compare_versions :: "string \<Rightarrow> string \<Rightarrow> int" where
  "compare_versions a b = compare_components (components a) (components b)"

section \<open>Semver predicates\<close>

definition compare_op :: "string \<Rightarrow> int \<Rightarrow> bool" where
  "compare_op cmp_op c =
     (if cmp_op = ''>='' then c \<ge> 0 else if cmp_op = ''<='' then c \<le> 0 else if cmp_op = ''>'' then c > 0 else c < 0)"

definition wildcard :: "string \<Rightarrow> bool" where
  "wildcard part \<longleftrightarrow> part \<in> {''x'', ''X'', ''*''}"

definition is_x_range :: "string \<Rightarrow> bool" where
  "is_x_range target \<longleftrightarrow> list_ex wildcard (split_char (CHR ''.'') target)"

fun x_match :: "string list \<Rightarrow> string list \<Rightarrow> bool" where
  \<comment> \<open>the loop of \<open>_x_range\<close> over the parts of the target\<close>
  "x_match vs [] = True"
| "x_match [] (p # ps) = (wildcard p \<and> x_match [] ps)"
| "x_match (v # vs) (p # ps) = ((wildcard p \<or> v = p) \<and> x_match vs ps)"

definition x_range :: "string \<Rightarrow> string \<Rightarrow> bool" where
  "x_range version target = x_match (split_char (CHR ''.'') version) (split_char (CHR ''.'') target)"

definition tilde :: "string \<Rightarrow> string \<Rightarrow> py_error + bool" where
  "tilde version target =
     (let parts = filter (\<lambda>p. p \<noteq> []) (split_char (CHR ''.'') target);
          within = (\<lambda>upper. Inr (compare_versions version target \<ge> 0 \<and> compare_versions version upper < 0))
      in case parts of
           [] \<Rightarrow> Inl ValueError
         | [p] \<Rightarrow> (case py_int p of Inl e \<Rightarrow> Inl e | Inr n \<Rightarrow> within (show_int (n + 1)))
         | p # q # _ \<Rightarrow> (case py_int q of Inl e \<Rightarrow> Inl e | Inr n \<Rightarrow> within (p @ ''.'' @ show_int (n + 1))))"

fun all_ints :: "string list \<Rightarrow> py_error + int list" where
  "all_ints [] = Inr []"
| "all_ints (p # ps) =
     (case py_int p of Inl e \<Rightarrow> Inl e | Inr n \<Rightarrow> (case all_ints ps of Inl e \<Rightarrow> Inl e | Inr ns \<Rightarrow> Inr (n # ns)))"

fun caret_upper :: "int list \<Rightarrow> int list" where
  \<comment> \<open>the loop that bumps the leftmost non-zero part, or the last one\<close>
  "caret_upper [] = []"
| "caret_upper [n] = [n + 1]"
| "caret_upper (n # ns) = (if n \<noteq> 0 then [n + 1] else n # caret_upper ns)"

definition join_dots :: "string list \<Rightarrow> string" where
  "join_dots ps = (case ps of [] \<Rightarrow> [] | p # rest \<Rightarrow> p @ concat (map (\<lambda>q. CHR ''.'' # q) rest))"

definition caret :: "string \<Rightarrow> string \<Rightarrow> py_error + bool" where
  "caret version target =
     (case all_ints (filter (\<lambda>p. p \<noteq> []) (split_char (CHR ''.'') target)) of
        Inl e \<Rightarrow> Inl e
      | Inr [] \<Rightarrow> Inl ValueError
      | Inr parts \<Rightarrow>
          Inr (compare_versions version target \<ge> 0
               \<and> compare_versions version (join_dots (map show_int (caret_upper parts))) < 0))"

definition semver_predicate :: "string \<Rightarrow> string \<Rightarrow> py_error + bool" where
  "semver_predicate version predicate =
     (if predicate = ''*'' \<or> predicate = [] then Inr True
      else case find (starts_with predicate) [''<='', ''>='', ''<'', ''>''] of
             Some cmp_op \<Rightarrow> Inr (compare_op cmp_op (compare_versions version (strip (drop (length cmp_op) predicate))))
           | None \<Rightarrow>
               if starts_with predicate ''~'' then tilde version (strip (drop 1 predicate))
               else if starts_with predicate ''^'' then caret version (strip (drop 1 predicate))
               else
                 let target = (if starts_with predicate ''='' then strip (drop 1 predicate) else predicate)
                 in if is_x_range target then Inr (x_range version target)
                    else Inr (compare_versions version target = 0))"

fun all_predicates :: "string \<Rightarrow> string list \<Rightarrow> py_error + bool" where
  \<comment> \<open>\<open>all(...)\<close>: stops at the first predicate that fails or raises\<close>
  "all_predicates version [] = Inr True"
| "all_predicates version (p # ps) =
     (case semver_predicate version p of
        Inl e \<Rightarrow> Inl e
      | Inr b \<Rightarrow> if b then all_predicates version ps else Inr False)"

fun any_alternative :: "string \<Rightarrow> string list \<Rightarrow> py_error + bool" where
  "any_alternative version [] = Inr False"
| "any_alternative version (alt # alts) =
     (let predicates = filter (\<lambda>p. p \<noteq> []) (split_on (\<lambda>c. c = CHR '','' \<or> is_space c) (strip alt))
      in if predicates = [] then Inr True
         else (case all_predicates version predicates of
                 Inl e \<Rightarrow> Inl e
               | Inr b \<Rightarrow> if b then Inr True else any_alternative version alts))"

definition semver_satisfies :: "string \<Rightarrow> string \<Rightarrow> py_error + bool" where
  "semver_satisfies version spec = any_alternative version (split_pipes spec)"

section \<open>Paper floors\<close>

definition major_minor :: "string \<Rightarrow> nat \<times> nat" where
  "major_minor version =
     (let parts = components version
      in (case parts of Num a # _ \<Rightarrow> a | _ \<Rightarrow> 0, case parts of _ # Num b # _ \<Rightarrow> b | _ \<Rightarrow> 0))"

definition paper_satisfies :: "string \<Rightarrow> string \<Rightarrow> bool" where
  "paper_satisfies version spec \<longleftrightarrow>
     (let (a, b) = major_minor version; (c, d) = major_minor spec in a > c \<or> a = c \<and> b \<ge> d)"

section \<open>Maven intervals\<close>

fun split_intervals :: "int \<Rightarrow> string \<Rightarrow> string \<Rightarrow> string list" where
  \<comment> \<open>the loop of \<open>_split_maven_intervals\<close> with its depth and current token\<close>
  "split_intervals depth current [] = [current]"
| "split_intervals depth current (c # cs) =
     (let depth' = (if c = CHR ''['' \<or> c = CHR ''('' then depth + 1
                    else if c = CHR '']'' \<or> c = CHR '')'' then depth - 1 else depth)
      in if c = CHR '','' \<and> depth' = 0 then current # split_intervals depth' [] cs
         else split_intervals depth' (current @ [c]) cs)"

definition split_maven_intervals :: "string \<Rightarrow> string list" where
  "split_maven_intervals spec = filter (\<lambda>t. t \<noteq> []) (map strip (split_intervals 0 [] spec))"

definition opens :: "char \<Rightarrow> bool" where
  "opens c \<longleftrightarrow> c = CHR ''['' \<or> c = CHR ''(''"

definition closes :: "char \<Rightarrow> bool" where
  "closes c \<longleftrightarrow> c = CHR '']'' \<or> c = CHR '')''"

definition maven_interval :: "string \<Rightarrow> string \<Rightarrow> py_error + bool" where
  "maven_interval version token =
     (if token = [] then Inl IndexError
      else if \<not> (opens (hd token) \<or> closes (last token)) then Inr (compare_versions version token = 0)
      else if \<not> (opens (hd token) \<and> closes (last token)) then Inl ValueError
      else
        let lower_inclusive = (hd token = CHR ''['');
            upper_inclusive = (last token = CHR '']'');
            inner = butlast (drop 1 token)
        in if CHR '','' \<notin> set inner
           then (let bound = strip inner in Inr (bound \<noteq> [] \<and> compare_versions version bound = 0))
           else
             let low = strip (takeWhile (\<lambda>c. c \<noteq> CHR '','') inner);
                 high = strip (drop 1 (dropWhile (\<lambda>c. c \<noteq> CHR '','') inner));
                 cl = compare_versions version low;
                 ch = compare_versions version high
             in if low \<noteq> [] \<and> (cl < 0 \<or> cl = 0 \<and> \<not> lower_inclusive) then Inr False
                else if high \<noteq> [] \<and> (ch > 0 \<or> ch = 0 \<and> \<not> upper_inclusive) then Inr False
                else Inr True)"

fun any_interval :: "string \<Rightarrow> bool \<Rightarrow> string list \<Rightarrow> py_error + bool" where
  "any_interval version any_parsed [] = (if any_parsed then Inr False else Inl ValueError)"
| "any_interval version any_parsed (t # ts) =
     (case maven_interval version t of
        Inl _ \<Rightarrow> any_interval version any_parsed ts
      | Inr b \<Rightarrow> if b then Inr True else any_interval version True ts)"

definition maven_satisfies :: "string \<Rightarrow> string \<Rightarrow> py_error + bool" where
  "maven_satisfies version spec =
     (let intervals = split_maven_intervals spec
      in if intervals = [] then Inr True else any_interval version False intervals)"

section \<open>The entry point\<close>

definition MAVEN_LOADERS :: "string set" where
  "MAVEN_LOADERS = {''forge'', ''neoforge''}"

definition PAPER_LOADERS :: "string set" where
  "PAPER_LOADERS = {''paper''}"

definition version_satisfies :: "string \<Rightarrow> string \<Rightarrow> string \<Rightarrow> bool" where
  "version_satisfies version range_spec loader =
     (let spec = strip range_spec
      in if spec = [] \<or> spec = ''*'' then True
         else case (if loader \<in> PAPER_LOADERS then Inr (paper_satisfies (strip version) spec)
                    else if loader \<in> MAVEN_LOADERS then maven_satisfies (strip version) spec
                    else semver_satisfies (strip version) spec) of
                Inl _ \<Rightarrow> True
              | Inr b \<Rightarrow> b)"

end
