(* ===== verification/Plugin_Validation.thy ===== *)
theory Plugin_Validation
  imports Version_Range
begin

text \<open>
  The installed plugin set of a server and its validation checklist (\<open>servers/domain/plugin.py\<close>,
  \<open>servers/application/catalog_deps.py\<close>, \<open>plugin_validation.py\<close>). A dependency edge is a persisted JSON
  object whose fields are read with the tolerance of the source, so it stays a JSON value here.
\<close>

section \<open>Installed plugins\<close>

datatype json = JNull | JBool bool | JInt int | JStr string | JArr "json list" | JObj "(string \<times> json) list"

fun truthy :: "json \<Rightarrow> bool" where
  "truthy JNull = False"
| "truthy (JBool b) = b"
| "truthy (JInt n) = (n \<noteq> 0)"
| "truthy (JStr s) = (s \<noteq> [])"
| "truthy (JArr xs) = (xs \<noteq> [])"
| "truthy (JObj kvs) = (kvs \<noteq> [])"

type_synonym dep_edge = "(string, json) dict"

definition flag :: "dep_edge \<Rightarrow> string \<Rightarrow> bool" where
  \<comment> \<open>the truth of \<open>dep.get(key)\<close>\<close>
  "flag dep key = (case dget dep key of None \<Rightarrow> False | Some v \<Rightarrow> truthy v)"

definition str_field :: "dep_edge \<Rightarrow> string \<Rightarrow> string option" where
  \<comment> \<open>\<open>dep.get(key)\<close> where it is a string\<close>
  "str_field dep key = (case dget dep key of Some (JStr s) \<Rightarrow> Some s | _ \<Rightarrow> None)"

definition range_field :: "dep_edge \<Rightarrow> string" where
  "range_field dep = (case str_field dep ''version_range'' of None \<Rightarrow> [] | Some s \<Rightarrow> s)"

datatype plugin_source = LOCAL | MODRINTH | GEYSER | UNKNOWN_SOURCE

record server_plugin =
  source :: plugin_source
  source_project_id :: "string option"
  version_number :: "string option"
  mod_identifier :: "string option"
  provides :: "string list"
  dependencies :: "dep_edge list"
  mc_versions :: "string list"
  catalog_dependencies :: "json list"

definition mod_id_of :: "server_plugin \<Rightarrow> string option" where
  \<comment> \<open>\<open>mod_identifier\<close>, the empty one counting as none\<close>
  "mod_id_of p = (case mod_identifier p of Some (c # cs) \<Rightarrow> Some (c # cs) | _ \<Rightarrow> None)"

definition version_of :: "server_plugin \<Rightarrow> string" where
  "version_of p = (case version_number p of None \<Rightarrow> [] | Some v \<Rightarrow> v)"

section \<open>Catalog dependencies\<close>

record catalog_dep =
  cd_project_id :: string
  cd_slug :: "string option"
  cd_title :: "string option"

fun catalog_dep_of :: "string \<Rightarrow> json \<Rightarrow> catalog_dep list" where
  "catalog_dep_of fl (JObj raw) =
     (if \<not> flag raw fl then []
      else case str_field raw ''project_id'' of
             Some (c # cs) \<Rightarrow> [\<lparr>cd_project_id = c # cs, cd_slug = str_field raw ''slug'', cd_title = str_field raw ''title''\<rparr>]
           | _ \<Rightarrow> [])"
| "catalog_dep_of fl _ = []"

definition catalog_deps :: "server_plugin \<Rightarrow> string \<Rightarrow> catalog_dep list" where
  "catalog_deps p fl = (if source p \<noteq> MODRINTH then [] else concat (map (catalog_dep_of fl) (catalog_dependencies p)))"

definition required_catalog_deps :: "server_plugin \<Rightarrow> catalog_dep list" where
  "required_catalog_deps p = catalog_deps p ''required''"

definition incompatible_catalog_deps :: "server_plugin \<Rightarrow> catalog_dep list" where
  "incompatible_catalog_deps p = catalog_deps p ''incompatible''"

definition the_list :: "'a option \<Rightarrow> 'a list" where
  "the_list x = (case x of None \<Rightarrow> [] | Some v \<Rightarrow> [v])"

definition installed_project_ids :: "server_plugin list \<Rightarrow> string list" where
  "installed_project_ids ps = concat (map (\<lambda>p. the_list (source_project_id p)) ps)"

section \<open>The checklist\<close>

definition loader_dialect :: "string \<Rightarrow> string" where
  "loader_dialect server_type =
     (if server_type = ''forge'' then ''forge'' else if server_type = ''paper'' then ''paper'' else ''fabric'')"

record missing_dependency =
  md_mod_id :: string
  md_depends_on :: string
  md_range :: string

record missing_catalog_dependency =
  mc_mod_id :: string
  mc_project_id :: string
  mc_slug :: "string option"
  mc_title :: "string option"

record version_unsatisfied =
  vu_mod_id :: string
  vu_depends_on :: string
  vu_range :: string
  vu_present :: string

record conflict =
  cf_mod_id :: string
  cf_with :: string

record mc_mismatch =
  mm_mod_id :: string
  mm_versions :: "string list"
  mm_server :: string

record plugin_validation =
  missing_deps :: "missing_dependency list"
  missing_catalog :: "missing_catalog_dependency list"
  unsatisfied :: "version_unsatisfied list"
  conflicts :: "conflict list"
  mismatches :: "mc_mismatch list"

fun provided_versions :: "(string, string) dict \<Rightarrow> server_plugin list \<Rightarrow> (string, string) dict" where
  "provided_versions d [] = d"
| "provided_versions d (p # ps) =
     (case mod_id_of p of
        None \<Rightarrow> provided_versions d ps
      | Some m \<Rightarrow> provided_versions (fold (\<lambda>i. dset i (version_of p)) (m # provides p) d) ps)"

fun required_dep_findings ::
  "string \<Rightarrow> (string, string) dict \<Rightarrow> string \<Rightarrow> dep_edge list \<Rightarrow> missing_dependency list \<times> version_unsatisfied list" where
  \<comment> \<open>the edges of one plugin\<close>
  "required_dep_findings m provided loader [] = ([], [])"
| "required_dep_findings m provided loader (dep # deps) =
     (let (missing, unsat) = required_dep_findings m provided loader deps
      in if \<not> flag dep ''required'' then (missing, unsat)
         else case str_field dep ''mod_identifier'' of
                None \<Rightarrow> (missing, unsat)
              | Some target \<Rightarrow>
                  (case dget provided target of
                     None \<Rightarrow> (\<lparr>md_mod_id = m, md_depends_on = target, md_range = range_field dep\<rparr> # missing, unsat)
                   | Some present \<Rightarrow>
                       if version_satisfies present (range_field dep) loader then (missing, unsat)
                       else (missing, \<lparr>vu_mod_id = m, vu_depends_on = target, vu_range = range_field dep, vu_present = present\<rparr> # unsat)))"

definition missing_catalog_deps :: "server_plugin list \<Rightarrow> missing_catalog_dependency list" where
  "missing_catalog_deps ps =
     concat (map (\<lambda>p. case mod_id_of p of
         None \<Rightarrow> []
       | Some m \<Rightarrow> map (\<lambda>d. \<lparr>mc_mod_id = m, mc_project_id = cd_project_id d, mc_slug = cd_slug d, mc_title = cd_title d\<rparr>)
           (filter (\<lambda>d. cd_project_id d \<notin> set (installed_project_ids ps)) (required_catalog_deps p))) ps)"

definition by_project_id :: "server_plugin list \<Rightarrow> (string, string) dict" where
  "by_project_id ps =
     fold (\<lambda>p d. case (source_project_id p, mod_id_of p) of (Some i, Some m) \<Rightarrow> dset i m d | _ \<Rightarrow> d) ps []"

definition plugin_conflicts :: "server_plugin list \<Rightarrow> (string, string) dict \<Rightarrow> string \<Rightarrow> conflict list" where
  "plugin_conflicts ps provided loader =
     concat (map (\<lambda>p. case mod_id_of p of
         None \<Rightarrow> []
       | Some m \<Rightarrow>
           concat (map (\<lambda>dep.
               if \<not> flag dep ''conflict'' then []
               else case str_field dep ''mod_identifier'' of
                      None \<Rightarrow> []
                    | Some target \<Rightarrow>
                        (case dget provided target of
                           None \<Rightarrow> []
                         | Some v \<Rightarrow> if version_satisfies v (range_field dep) loader
                                     then [\<lparr>cf_mod_id = m, cf_with = target\<rparr>] else [])) (dependencies p))
           @ concat (map (\<lambda>d. case dget (by_project_id ps) (cd_project_id d) of
                None \<Rightarrow> []
              | Some t \<Rightarrow> [\<lparr>cf_mod_id = m, cf_with = t\<rparr>]) (incompatible_catalog_deps p))) ps)"

definition mc_mismatches :: "server_plugin list \<Rightarrow> string \<Rightarrow> string \<Rightarrow> mc_mismatch list" where
  "mc_mismatches ps mc_version loader =
     concat (map (\<lambda>p. case mod_id_of p of
         None \<Rightarrow> []
       | Some m \<Rightarrow>
           if mc_versions p \<noteq> [] \<and> \<not> list_ex (\<lambda>e. version_satisfies mc_version e loader) (mc_versions p)
           then [\<lparr>mm_mod_id = m, mm_versions = mc_versions p, mm_server = mc_version\<rparr>] else []) ps)"

definition validate_plugin_set :: "string \<Rightarrow> string \<Rightarrow> server_plugin list \<Rightarrow> plugin_validation" where
  "validate_plugin_set server_type mc_version ps =
     (let loader = loader_dialect server_type;
          provided = provided_versions [] ps;
          findings = map (\<lambda>p. case mod_id_of p of None \<Rightarrow> ([], []) | Some m \<Rightarrow> required_dep_findings m provided loader (dependencies p)) ps
      in \<lparr>missing_deps = concat (map fst findings), missing_catalog = missing_catalog_deps ps,
          unsatisfied = concat (map snd findings), conflicts = plugin_conflicts ps provided loader,
          mismatches = mc_mismatches ps mc_version loader\<rparr>)"

end
