(* ===== verification/Plugin_Resolution.thy ===== *)
theory Plugin_Resolution
  imports Plugin_Validation
begin

text \<open>
  Auto-resolution of a server's missing dependencies (\<open>servers/application/plugin_resolution.py\<close>): the pure
  classification, the selection of a catalog version, the breadth-first closure walk and the loop that blocks
  conflicting imports and prunes what only they required. The catalog is a parameter (\<open>catalog\<close>): its answers
  or its two errors, which the source swallows per dependency. Both loops are written with the option monad,
  where not returning would be \<open>None\<close>.
\<close>

section \<open>The catalog\<close>

datatype catalog_error = CatalogUpstreamFailedError | CatalogProjectNotFoundError

record catalog_dependency =
  dep_project :: string
  dep_type :: string

record catalog_version =
  v_id :: string
  v_number :: string
  v_files :: "string list"
  v_dependencies :: "catalog_dependency list"

record catalog_project =
  p_id :: string
  p_slug :: string

record catalog =
  search :: "string \<Rightarrow> string \<Rightarrow> string \<Rightarrow> catalog_error + catalog_project list"
  get_project :: "string \<Rightarrow> catalog_error + catalog_project"
  list_versions :: "string \<Rightarrow> string \<Rightarrow> string \<Rightarrow> catalog_error + catalog_version list"

section \<open>Plans\<close>

datatype resolution_status = Already_Satisfied | Needs_Import | Unresolvable | Depth_Exceeded

record will_import =
  wi_project :: string
  wi_version :: string
  wi_slug :: string
  wi_number :: string

record resolution_entry =
  e_dep :: string
  e_range :: string
  e_status :: resolution_status
  e_import :: "will_import option"
  e_depth :: nat
  e_required_by :: "string option"
  e_blocked :: bool

definition MAX_RESOLUTION_DEPTH :: nat where
  "MAX_RESOLUTION_DEPTH = 10"

section \<open>Direct dependencies\<close>

record frontier_dep =
  f_id :: string
  f_range :: string
  f_project :: "string option"
  f_depth :: nat
  f_required_by :: "string option"

definition dep_project_id :: "dep_edge \<Rightarrow> string option" where
  "dep_project_id dep = (case str_field dep ''project_id'' of Some (c # cs) \<Rightarrow> Some (c # cs) | _ \<Rightarrow> None)"

definition required_target :: "dep_edge \<Rightarrow> string option" where
  \<comment> \<open>the target of a required edge that is no conflict\<close>
  "required_target dep = (if \<not> flag dep ''required'' \<or> flag dep ''conflict'' then None else str_field dep ''mod_identifier'')"

definition frontier_from_plugin :: "server_plugin \<Rightarrow> nat \<Rightarrow> string option \<Rightarrow> frontier_dep list" where
  "frontier_from_plugin p depth by =
     (case mod_id_of p of
        None \<Rightarrow> []
      | Some _ \<Rightarrow> concat (map (\<lambda>dep. case required_target dep of
            None \<Rightarrow> []
          | Some t \<Rightarrow> [\<lparr>f_id = t, f_range = range_field dep, f_project = dep_project_id dep, f_depth = depth, f_required_by = by\<rparr>])
          (dependencies p)))"

fun fresh_projects :: "string list \<Rightarrow> catalog_dep list \<Rightarrow> frontier_dep list" where
  \<comment> \<open>the loop of \<open>_catalog_frontier\<close> with the project ids to skip\<close>
  "fresh_projects skip [] = []"
| "fresh_projects skip (d # ds) =
     (if cd_project_id d \<in> set skip then fresh_projects skip ds
      else \<lparr>f_id = cd_project_id d, f_range = [], f_project = Some (cd_project_id d), f_depth = 0, f_required_by = None\<rparr>
             # fresh_projects (cd_project_id d # skip) ds)"

definition catalog_frontier :: "server_plugin list \<Rightarrow> frontier_dep list \<Rightarrow> frontier_dep list" where
  "catalog_frontier ps manifest =
     fresh_projects (installed_project_ids ps @ concat (map (\<lambda>f. the_list (f_project f)) manifest))
       (concat (map required_catalog_deps ps))"

section \<open>Choosing a version\<close>

definition newer_eq :: "catalog_version \<Rightarrow> catalog_version \<Rightarrow> bool" where
  \<comment> \<open>the key \<open>(version_key, version_id)\<close> of the second is not above that of the first\<close>
  "newer_eq v w \<longleftrightarrow>
     (let c = compare_versions (v_number v) (v_number w) in c > 0 \<or> c = 0 \<and> v_id v \<ge> v_id w)"

fun max_version :: "catalog_version \<Rightarrow> catalog_version list \<Rightarrow> catalog_version" where
  \<comment> \<open>\<open>max(candidates, key=...)\<close>: a later candidate wins only when its key is greater\<close>
  "max_version best [] = best"
| "max_version best (v # vs) = max_version (if newer_eq best v then best else v) vs"

definition select_import_version :: "catalog_version list \<Rightarrow> string \<Rightarrow> string \<Rightarrow> catalog_version option" where
  "select_import_version versions version_range loader =
     (case filter (\<lambda>v. v_files v \<noteq> [] \<and> version_satisfies (v_number v) version_range loader) versions of
        [] \<Rightarrow> None
      | v # vs \<Rightarrow> Some (max_version v vs))"

definition locate_project :: "catalog \<Rightarrow> string \<Rightarrow> string option \<Rightarrow> string \<Rightarrow> string \<Rightarrow> catalog_error + catalog_project option" where
  "locate_project cat dep project loader mc =
     (case project of
        Some i \<Rightarrow> (case get_project cat i of Inl e \<Rightarrow> Inl e | Inr p \<Rightarrow> Inr (Some p))
      | None \<Rightarrow>
          (case search cat dep loader mc of
             Inl e \<Rightarrow> Inl e
           | Inr hits \<Rightarrow>
               (case find (\<lambda>h. p_slug h = dep) hits of
                  None \<Rightarrow> Inr None
                | Some h \<Rightarrow> (case get_project cat (p_id h) of Inl e \<Rightarrow> Inl e | Inr p \<Rightarrow> Inr (Some p)))))"

definition resolve_will_import :: "catalog \<Rightarrow> frontier_dep \<Rightarrow> string \<Rightarrow> string \<Rightarrow> string \<Rightarrow> will_import option" where
  "resolve_will_import cat dep range_loader loader mc =
     (case locate_project cat (f_id dep) (f_project dep) loader mc of
        Inr (Some p) \<Rightarrow>
          (case list_versions cat (p_id p) loader mc of
             Inl _ \<Rightarrow> None
           | Inr versions \<Rightarrow>
               (case select_import_version versions (f_range dep) range_loader of
                  None \<Rightarrow> None
                | Some v \<Rightarrow> Some \<lparr>wi_project = p_id p, wi_version = v_id v, wi_slug = p_slug p, wi_number = v_number v\<rparr>))
      | _ \<Rightarrow> None)"

definition frontier_from_will_import ::
  "catalog \<Rightarrow> will_import \<Rightarrow> string \<Rightarrow> string \<Rightarrow> nat \<Rightarrow> frontier_dep list \<times> (string \<times> string) list" where
  "frontier_from_will_import cat will loader mc depth =
     (case list_versions cat (wi_project will) loader mc of
        Inl _ \<Rightarrow> ([], [])
      | Inr versions \<Rightarrow>
          (case find (\<lambda>v. v_id v = wi_version will) versions of
             None \<Rightarrow> ([], [])
           | Some v \<Rightarrow>
               (map (\<lambda>d. \<lparr>f_id = dep_project d, f_range = [], f_project = Some (dep_project d), f_depth = depth,
                          f_required_by = Some (wi_slug will)\<rparr>)
                  (filter (\<lambda>d. dep_type d = ''required'') (v_dependencies v)),
                map (\<lambda>d. (wi_project will, dep_project d))
                  (filter (\<lambda>d. dep_type d = ''incompatible'' \<and> dep_project d \<noteq> []) (v_dependencies v)))))"

section \<open>The pure classification and its enrichment\<close>

fun dedup_deps :: "(string \<times> string) list \<Rightarrow> dep_edge list \<Rightarrow> (string \<times> string) list" where
  \<comment> \<open>the loop of \<open>_required_deps\<close>: the distinct \<open>(id, range)\<close> pairs in first-seen order\<close>
  "dedup_deps seen [] = []"
| "dedup_deps seen (dep # deps) =
     (case required_target dep of
        None \<Rightarrow> dedup_deps seen deps
      | Some t \<Rightarrow>
          if (t, range_field dep) \<in> set seen then dedup_deps seen deps
          else (t, range_field dep) # dedup_deps ((t, range_field dep) # seen) deps)"

definition required_deps :: "server_plugin list \<Rightarrow> (string \<times> string) list" where
  "required_deps ps = dedup_deps [] (concat (map (\<lambda>p. case mod_id_of p of None \<Rightarrow> [] | Some _ \<Rightarrow> dependencies p) ps))"

definition direct_entry :: "string \<Rightarrow> string \<Rightarrow> resolution_status \<Rightarrow> will_import option \<Rightarrow> resolution_entry" where
  "direct_entry dep vrange st wi =
     \<lparr>e_dep = dep, e_range = vrange, e_status = st, e_import = wi, e_depth = 0, e_required_by = None, e_blocked = False\<rparr>"

definition resolve_dependencies :: "string \<Rightarrow> server_plugin list \<Rightarrow> resolution_entry list" where
  "resolve_dependencies server_type ps =
     map (\<lambda>(dep, vrange). direct_entry dep vrange
            (case dget (provided_versions [] ps) dep of
               None \<Rightarrow> Needs_Import
             | Some v \<Rightarrow> if version_satisfies v vrange (loader_dialect server_type) then Already_Satisfied else Needs_Import) None)
       (required_deps ps)"

definition dep_project_ids :: "server_plugin list \<Rightarrow> (string, string) dict" where
  "dep_project_ids ps =
     fold (\<lambda>dep d. case (str_field dep ''mod_identifier'', dep_project_id dep) of
             (Some t, Some i) \<Rightarrow> if dget d t = None then dset t i d else d
           | _ \<Rightarrow> d) (concat (map dependencies ps)) []"

definition resolve_imports_from_catalog ::
  "catalog \<Rightarrow> string \<Rightarrow> string \<Rightarrow> string \<Rightarrow> server_plugin list \<Rightarrow> resolution_entry list \<Rightarrow> resolution_entry list" where
  "resolve_imports_from_catalog cat loader server_type mc ps es =
     map (\<lambda>e. if e_status e \<notin> {Needs_Import, Unresolvable} then e
              else let wi = resolve_will_import cat
                       \<lparr>f_id = e_dep e, f_range = e_range e, f_project = dget (dep_project_ids ps) (e_dep e), f_depth = 0, f_required_by = None\<rparr>
                       (loader_dialect server_type) loader mc
                   in direct_entry (e_dep e) (e_range e) (if wi = None then Unresolvable else Needs_Import) wi) es"

section \<open>The closure walk\<close>

record walk =
  w_entries :: "resolution_entry list"
  w_visited :: "string list"
  w_requirers :: "(string, (string option) list) dict"
  w_edges :: "(string \<times> string) list"
  w_next :: "frontier_dep list"

record walk_context =
  wc_catalog :: catalog
  wc_provided :: "(string, string) dict"
  wc_projects :: "string list"
  wc_range_loader :: string
  wc_loader :: string
  wc_mc :: string

definition new_entry :: "frontier_dep \<Rightarrow> resolution_status \<Rightarrow> will_import option \<Rightarrow> resolution_entry" where
  "new_entry dep st wi =
     \<lparr>e_dep = f_id dep, e_range = f_range dep, e_status = st, e_import = wi, e_depth = f_depth dep,
      e_required_by = f_required_by dep, e_blocked = False\<rparr>"

definition satisfied_in :: "walk_context \<Rightarrow> frontier_dep \<Rightarrow> bool" where
  "satisfied_in c dep \<longleftrightarrow>
     (case dget (wc_provided c) (f_id dep) of None \<Rightarrow> False | Some v \<Rightarrow> version_satisfies v (f_range dep) (wc_range_loader c))
     \<or> f_id dep \<in> set (wc_projects c)"

definition classify :: "walk_context \<Rightarrow> frontier_dep \<Rightarrow> walk \<Rightarrow> walk" where
  \<comment> \<open>a dependency met for the first time\<close>
  "classify c dep w =
     (if satisfied_in c dep then w\<lparr>w_entries := w_entries w @ [new_entry dep Already_Satisfied None]\<rparr>
      else if f_depth dep \<ge> MAX_RESOLUTION_DEPTH then w\<lparr>w_entries := w_entries w @ [new_entry dep Depth_Exceeded None]\<rparr>
      else case resolve_will_import (wc_catalog c) dep (wc_range_loader c) (wc_loader c) (wc_mc c) of
             None \<Rightarrow> w\<lparr>w_entries := w_entries w @ [new_entry dep Unresolvable None]\<rparr>
           | Some wi \<Rightarrow>
               let (children, edges) = frontier_from_will_import (wc_catalog c) wi (wc_loader c) (wc_mc c) (f_depth dep + 1)
               in w\<lparr>w_entries := w_entries w @ [new_entry dep Needs_Import (Some wi)],
                    w_next := w_next w @ children, w_edges := w_edges w @ edges\<rparr>)"

definition visit :: "walk_context \<Rightarrow> frontier_dep \<Rightarrow> walk \<Rightarrow> walk" where
  "visit c dep w =
     (let w1 = w\<lparr>w_requirers := dset (f_id dep)
                   (dget_default (w_requirers w) (f_id dep) [] @ [f_required_by dep]) (w_requirers w)\<rparr>
      in if f_id dep \<in> set (w_visited w1) then w1
         else classify c dep (w1\<lparr>w_visited := f_id dep # w_visited w1\<rparr>))"

partial_function (option) walk_loop :: "walk_context \<Rightarrow> frontier_dep list \<Rightarrow> walk \<Rightarrow> walk option" where
  \<comment> \<open>\<open>while frontier\<close>\<close>
  "walk_loop c frontier w =
     (if frontier = [] then Some w
      else let w' = fold (visit c) frontier (w\<lparr>w_next := []\<rparr>)
           in walk_loop c (w_next w') w')"

section \<open>Blocking and pruning\<close>

definition conflict_edges :: "server_plugin list \<Rightarrow> (string \<times> string) list" where
  "conflict_edges ps =
     concat (map (\<lambda>p. case mod_id_of p of
         None \<Rightarrow> []
       | Some m \<Rightarrow> concat (map (\<lambda>dep. if \<not> flag dep ''conflict'' then []
            else map (Pair m) (the_list (str_field dep ''mod_identifier''))) (dependencies p))) ps)"

definition installed_incompatible_edges :: "server_plugin list \<Rightarrow> (string \<times> string) list" where
  "installed_incompatible_edges ps =
     concat (map (\<lambda>p. case source_project_id p of
         None \<Rightarrow> []
       | Some i \<Rightarrow> map (\<lambda>d. (i, cd_project_id d)) (incompatible_catalog_deps p)) ps)"

definition installed_ids :: "server_plugin list \<Rightarrow> string list" where
  "installed_ids ps = concat (map (\<lambda>p. case mod_id_of p of None \<Rightarrow> [] | Some m \<Rightarrow> m # provides p) ps)"

definition import_of :: "resolution_entry \<Rightarrow> will_import option" where
  "import_of e = (if e_status e = Needs_Import then e_import e else None)"

definition entry_added_id :: "resolution_entry \<Rightarrow> string option" where
  "entry_added_id e = map_option wi_slug (import_of e)"

definition entry_added_project_id :: "resolution_entry \<Rightarrow> string option" where
  "entry_added_project_id e = map_option wi_project (import_of e)"

definition unblocked :: "resolution_entry list \<Rightarrow> nat list \<Rightarrow> resolution_entry list" where
  "unblocked es blocked = map (nth es) (filter (\<lambda>i. i \<notin> set blocked) [0..<length es])"

definition present_ids :: "resolution_entry list \<Rightarrow> string list \<Rightarrow> nat list \<Rightarrow> string list" where
  "present_ids es installed blocked =
     installed @ concat (map (\<lambda>e. case import_of e of None \<Rightarrow> [] | Some wi \<Rightarrow> [wi_slug wi, e_dep e]) (unblocked es blocked))"

definition present_project_ids :: "resolution_entry list \<Rightarrow> string list \<Rightarrow> nat list \<Rightarrow> string list" where
  "present_project_ids es installed blocked =
     installed @ concat (map (\<lambda>e. the_list (entry_added_project_id e)) (unblocked es blocked))"

definition broken_or_breaking :: "(string \<times> string) list \<Rightarrow> string list \<Rightarrow> string list" where
  "broken_or_breaking edges present = concat (map (\<lambda>(d, t). if t \<in> set present then [t, d] else []) edges)"

definition incompatible_project_ids :: "(string \<times> string) list \<Rightarrow> string list \<Rightarrow> string list" where
  "incompatible_project_ids edges present =
     concat (map (\<lambda>(d, t). if d \<in> set present \<and> t \<in> set present then [d, t] else []) edges)"

record block_context =
  bc_entries :: "resolution_entry list"
  bc_installed :: "string list"
  bc_projects :: "string list"
  bc_conflicts :: "(string \<times> string) list"
  bc_incompatible :: "(string \<times> string) list"
  bc_requirers :: "(string, (string option) list) dict"

definition supported :: "block_context \<Rightarrow> nat list \<Rightarrow> resolution_entry \<Rightarrow> bool" where
  \<comment> \<open>a requirer is an installed root, an installed id or an import that is not blocked\<close>
  "supported b blocked e =
     list_ex (\<lambda>r. case r of
         None \<Rightarrow> True
       | Some i \<Rightarrow> i \<in> set (bc_installed b)
                   \<or> i \<in> set (concat (map (\<lambda>x. the_list (entry_added_id x)) (unblocked (bc_entries b) blocked))))
       (dget_default (bc_requirers b) (e_dep e) [e_required_by e])"

definition conflicting :: "block_context \<Rightarrow> nat list \<Rightarrow> resolution_entry \<Rightarrow> bool" where
  "conflicting b blocked e =
     (case import_of e of
        None \<Rightarrow> False
      | Some wi \<Rightarrow>
          wi_slug wi \<in> set (broken_or_breaking (bc_conflicts b) (present_ids (bc_entries b) (bc_installed b) blocked))
          \<or> wi_project wi \<in> set (incompatible_project_ids (bc_incompatible b)
                                 (present_project_ids (bc_entries b) (bc_projects b) blocked)))"

definition newly_blocked :: "block_context \<Rightarrow> nat list \<Rightarrow> nat list" where
  "newly_blocked b blocked =
     filter (\<lambda>i. i \<notin> set blocked \<and> (conflicting b blocked (bc_entries b ! i) \<or> \<not> supported b blocked (bc_entries b ! i)))
       [0..<length (bc_entries b)]"

partial_function (option) block_loop :: "block_context \<Rightarrow> nat list \<Rightarrow> nat list option" where
  \<comment> \<open>\<open>while True\<close>\<close>
  "block_loop b blocked =
     (let new = newly_blocked b blocked
      in if new = [] then Some blocked else block_loop b (blocked @ new))"

definition mark_blocked :: "resolution_entry list \<Rightarrow> nat list \<Rightarrow> resolution_entry list" where
  "mark_blocked es blocked =
     map (\<lambda>i. if i \<in> set blocked then (es ! i)\<lparr>e_blocked := True\<rparr> else es ! i) [0..<length es]"

definition block_context_of :: "server_plugin list \<Rightarrow> walk \<Rightarrow> block_context" where
  "block_context_of ps w =
     \<lparr>bc_entries = w_entries w, bc_installed = installed_ids ps, bc_projects = installed_project_ids ps,
      bc_conflicts = conflict_edges ps, bc_incompatible = installed_incompatible_edges ps @ w_edges w,
      bc_requirers = w_requirers w\<rparr>"

definition block_and_prune :: "server_plugin list \<Rightarrow> walk \<Rightarrow> resolution_entry list option" where
  "block_and_prune ps w =
     (case block_loop (block_context_of ps w) [] of
        None \<Rightarrow> None
      | Some blocked \<Rightarrow> Some (mark_blocked (w_entries w) blocked))"

declare walk_loop.simps [code] block_loop.simps [code]

section \<open>The closure\<close>

datatype resolution_error = UnsupportedPluginServerTypeError | UnknownServerType

definition modrinth_loader_for_server_type :: "string \<Rightarrow> resolution_error + string" where
  "modrinth_loader_for_server_type server_type =
     (if server_type = ''fabric'' then Inr ''fabric'' else if server_type = ''forge'' then Inr ''forge''
      else if server_type = ''paper'' then Inr ''paper''
      else if server_type = ''vanilla'' then Inl UnsupportedPluginServerTypeError else Inl UnknownServerType)"

record resolution_plan =
  plan_entries :: "resolution_entry list"
  plan_validation :: plugin_validation

definition context_of :: "catalog \<Rightarrow> string \<Rightarrow> string \<Rightarrow> string \<Rightarrow> server_plugin list \<Rightarrow> walk_context" where
  "context_of cat loader server_type mc ps =
     \<lparr>wc_catalog = cat, wc_provided = provided_versions [] ps, wc_projects = installed_project_ids ps,
      wc_range_loader = loader_dialect server_type, wc_loader = loader, wc_mc = mc\<rparr>"

definition first_frontier :: "server_plugin list \<Rightarrow> frontier_dep list" where
  "first_frontier ps =
     (let manifest = concat (map (\<lambda>p. frontier_from_plugin p 0 None) ps) in manifest @ catalog_frontier ps manifest)"

definition empty_walk :: walk where
  "empty_walk = \<lparr>w_entries = [], w_visited = [], w_requirers = [], w_edges = [], w_next = []\<rparr>"

definition resolve_closure ::
  "catalog \<Rightarrow> string \<Rightarrow> string \<Rightarrow> server_plugin list \<Rightarrow> resolution_error + resolution_plan option" where
  \<comment> \<open>\<open>Inr None\<close> is a run that does not return\<close>
  "resolve_closure cat server_type mc ps =
     (case modrinth_loader_for_server_type server_type of
        Inl e \<Rightarrow> Inl e
      | Inr loader \<Rightarrow>
          Inr (case walk_loop (context_of cat loader server_type mc ps) (first_frontier ps) empty_walk of
                 None \<Rightarrow> None
               | Some w \<Rightarrow>
                   (case block_and_prune ps w of
                      None \<Rightarrow> None
                    | Some es \<Rightarrow> Some \<lparr>plan_entries = es, plan_validation = validate_plugin_set server_type mc ps\<rparr>)))"

section \<open>Installing a plan\<close>

fun install_picks :: "(string \<Rightarrow> string \<Rightarrow> 'x + 'p) \<Rightarrow> string list \<Rightarrow> resolution_entry list \<Rightarrow> 'p list \<times> string list" where
  \<comment> \<open>the loop of \<open>ApplyPluginResolution\<close>: the installed plugins and the failed ids\<close>
  "install_picks install seen [] = ([], [])"
| "install_picks install seen (e # es) =
     (case e_import e of
        None \<Rightarrow> install_picks install seen es
      | Some wi \<Rightarrow>
          if e_blocked e then install_picks install seen es
          else if wi_version wi \<in> set seen then install_picks install seen es
          else
            let (installed, failed) = install_picks install (wi_version wi # seen) es
            in case install (wi_project wi) (wi_version wi) of
                 Inl _ \<Rightarrow> (installed, e_dep e # failed)
               | Inr p \<Rightarrow> (p # installed, failed))"

end
