(* ===== verification/Version_Order.thy ===== *)
theory Version_Order
  imports Plugin_Resolution
begin

text \<open>
  The version comparison is a total preorder: components are linearly ordered and a comparison is the
  lexicographic one of the two lists padded with zeros. The selection of the newest compatible catalog
  version rests on it.
\<close>

section \<open>Components in order\<close>

instantiation component :: linorder
begin

definition less_eq_component :: "component \<Rightarrow> component \<Rightarrow> bool" where
  "less_eq_component x y \<longleftrightarrow> compare_component x y \<le> 0"

definition less_component :: "component \<Rightarrow> component \<Rightarrow> bool" where
  "less_component x y \<longleftrightarrow> compare_component x y < 0"

instance
proof
  fix x y z :: component
  show "(x < y) = (x \<le> y \<and> \<not> y \<le> x)"
    unfolding less_eq_component_def less_component_def by (cases x; cases y) auto
  show "x \<le> x" unfolding less_eq_component_def by (cases x) auto
  show "x \<le> y \<Longrightarrow> y \<le> z \<Longrightarrow> x \<le> z"
    unfolding less_eq_component_def by (cases x; cases y; cases z) (auto split: if_splits)
  show "x \<le> y \<Longrightarrow> y \<le> x \<Longrightarrow> x = y"
    unfolding less_eq_component_def by (cases x; cases y) (auto split: if_splits)
  show "x \<le> y \<or> y \<le> x"
    unfolding less_eq_component_def by (cases x; cases y) (auto split: if_splits)
qed

end

lemma compare_component_sign: "compare_component x y = (if x = y then 0 else if x < y then - 1 else 1)"
  unfolding less_component_def by (cases x; cases y) auto

definition pad :: "nat \<Rightarrow> component list \<Rightarrow> component list" where
  "pad n xs = xs @ replicate (n - length xs) (Num 0)"

lemma pad_simps: "pad (Suc n) (x # xs) = x # pad n xs" "pad (Suc n) [] = Num 0 # pad n []"
  by (simp_all add: pad_def)

lemma compare_padded:
  "length xs \<le> n \<Longrightarrow> length ys \<le> n \<Longrightarrow>
   compare_components xs ys = (if pad n xs = pad n ys then 0 else if pad n xs < pad n ys then - 1 else 1)"
proof (induction xs ys arbitrary: n rule: compare_components.induct)
  case (2 x xs)
  then obtain m where "n = Suc m" by (cases n) auto
  with 2 show ?case by (simp add: Let_def compare_component_sign pad_simps)
next
  case (3 y ys)
  then obtain m where "n = Suc m" by (cases n) auto
  with 3 show ?case by (simp add: Let_def compare_component_sign pad_simps)
next
  case (4 x xs y ys)
  then obtain m where "n = Suc m" by (cases n) auto
  with 4 show ?case by (simp add: Let_def compare_component_sign pad_simps)
qed simp

definition version_key :: "nat \<Rightarrow> string \<Rightarrow> component list" where
  "version_key n v = pad n (components v)"

lemma compare_versions_key:
  "length (components a) \<le> n \<Longrightarrow> length (components b) \<le> n \<Longrightarrow>
   compare_versions a b = (if version_key n a = version_key n b then 0 else if version_key n a < version_key n b then - 1 else 1)"
  unfolding compare_versions_def version_key_def by (rule compare_padded)

lemma compare_versions_preorder:
  "compare_versions a a = 0"
  "compare_versions b a = - compare_versions a b"
  "compare_versions a b \<le> 0 \<Longrightarrow> compare_versions b c \<le> 0 \<Longrightarrow> compare_versions a c \<le> 0"
  "compare_versions a b = 0 \<Longrightarrow> compare_versions a c = compare_versions b c"
proof -
  define n where "n = max (length (components a)) (max (length (components b)) (length (components c)))"
  have n: "length (components a) \<le> n" "length (components b) \<le> n" "length (components c) \<le> n"
    unfolding n_def by auto
  note k = compare_versions_key [where n = n]
  show "compare_versions a a = 0" using n by (simp add: k)
  show "compare_versions b a = - compare_versions a b" using n by (auto simp: k)
  show "compare_versions a b \<le> 0 \<Longrightarrow> compare_versions b c \<le> 0 \<Longrightarrow> compare_versions a c \<le> 0"
    using n by (auto simp: k split: if_splits)
  show "compare_versions a b = 0 \<Longrightarrow> compare_versions a c = compare_versions b c"
    using n by (auto simp: k split: if_splits)
qed

section \<open>The newest compatible version\<close>

lemma newer_eq_refl: "newer_eq v v"
  by (simp add: newer_eq_def compare_versions_preorder(1))

lemma newer_eq_total: "newer_eq v w \<or> newer_eq w v"
  using compare_versions_preorder(2) [of "v_number v" "v_number w"] unfolding newer_eq_def Let_def by auto

lemma newer_eq_trans:
  assumes "newer_eq u v" "newer_eq v w"
  shows "newer_eq u w"
proof -
  define n where "n = max (length (components (v_number u))) (max (length (components (v_number v))) (length (components (v_number w))))"
  have n: "length (components (v_number u)) \<le> n" "length (components (v_number v)) \<le> n" "length (components (v_number w)) \<le> n"
    unfolding n_def by auto
  have "newer_eq x y \<longleftrightarrow> (version_key n (v_number y), v_id y) \<le> (version_key n (v_number x), v_id x)"
    if "length (components (v_number x)) \<le> n" "length (components (v_number y)) \<le> n" for x y
    unfolding newer_eq_def Let_def by (auto simp: compare_versions_key [OF that] not_less split: if_splits)
  then show ?thesis using assms n by (meson order.trans)
qed

lemma max_version_in: "max_version b vs \<in> insert b (set vs)"
proof (induction vs arbitrary: b)
  case (Cons v vs)
  show ?case using Cons [of b] Cons [of v] by (cases "newer_eq b v") auto
qed simp

lemma max_version_upper: "newer_eq (max_version b vs) b \<and> (\<forall>w \<in> set vs. newer_eq (max_version b vs) w)"
proof (induction vs arbitrary: b)
  case (Cons v vs)
  show ?case
  proof (cases "newer_eq b v")
    case True
    then have m: "max_version b (v # vs) = max_version b vs" by simp
    have "newer_eq (max_version b vs) v" using Cons [of b] newer_eq_trans True by blast
    then show ?thesis unfolding m using Cons [of b] by simp
  next
    case False
    then have m: "max_version b (v # vs) = max_version v vs" by simp
    have "newer_eq v b" using newer_eq_total False by blast
    then have "newer_eq (max_version v vs) b" using Cons [of v] newer_eq_trans by blast
    then show ?thesis unfolding m using Cons [of v] by simp
  qed
qed (simp add: newer_eq_refl)

lemma max_version_greatest: "max_version b vs \<in> set (b # vs) \<and> (\<forall>w \<in> set (b # vs). newer_eq (max_version b vs) w)"
  using max_version_in [of b vs] max_version_upper [of b vs] by simp

definition qualifies :: "string \<Rightarrow> string \<Rightarrow> catalog_version \<Rightarrow> bool" where
  "qualifies version_range loader v \<longleftrightarrow> v_files v \<noteq> [] \<and> version_satisfies (v_number v) version_range loader"

lemma select_import_version_Some:
  assumes "select_import_version versions vr loader = Some v"
  shows "v \<in> set versions" "qualifies vr loader v"
    "\<And>w. w \<in> set versions \<Longrightarrow> qualifies vr loader w \<Longrightarrow> newer_eq v w"
proof -
  obtain x xs where f: "filter (qualifies vr loader) versions = x # xs" "v = max_version x xs"
    using assms unfolding select_import_version_def qualifies_def by (auto split: list.splits)
  have "set (x # xs) = {w \<in> set versions. qualifies vr loader w}" using arg_cong [OF f(1), of set] by auto
  with max_version_greatest [of x xs] f(2) show "v \<in> set versions" "qualifies vr loader v"
    "\<And>w. w \<in> set versions \<Longrightarrow> qualifies vr loader w \<Longrightarrow> newer_eq v w" by blast+
qed

lemma select_import_version_None:
  "select_import_version versions vr loader = None \<longleftrightarrow> (\<forall>w \<in> set versions. \<not> qualifies vr loader w)"
proof -
  have "filter (qualifies vr loader) versions = [] \<longleftrightarrow> (\<forall>w \<in> set versions. \<not> qualifies vr loader w)"
    by (simp add: filter_empty_conv)
  then show ?thesis unfolding select_import_version_def qualifies_def by (auto split: list.splits)
qed

text \<open>
  C37. The version picked for an import is compatible and is the newest compatible one, the id breaking ties,
  whatever order the catalog lists them in; none is picked exactly when none is compatible. The comparison it
  rests on is a total preorder in which a missing component is zero.
\<close>

theorem newest_compatible_version_picked:
  assumes "distinct (map v_id versions)"
  shows "(select_import_version versions vr loader = Some v \<longleftrightarrow>
            v \<in> set versions \<and> v_files v \<noteq> [] \<and> version_satisfies (v_number v) vr loader
          \<and> (\<forall>w \<in> set versions. v_files w \<noteq> [] \<and> version_satisfies (v_number w) vr loader \<longrightarrow>
               compare_versions (v_number w) (v_number v) < 0
             \<or> compare_versions (v_number w) (v_number v) = 0 \<and> v_id w \<le> v_id v))
       \<and> (select_import_version versions vr loader = None \<longleftrightarrow>
            (\<forall>w \<in> set versions. \<not> (v_files w \<noteq> [] \<and> version_satisfies (v_number w) vr loader)))
       \<and> (compare_versions a b \<le> 0 \<and> compare_versions b c \<le> 0 \<longrightarrow> compare_versions a c \<le> 0)
       \<and> compare_versions b a = - compare_versions a b"
proof -
  have eq: "newer_eq v w \<longleftrightarrow> compare_versions (v_number w) (v_number v) < 0
      \<or> compare_versions (v_number w) (v_number v) = 0 \<and> v_id w \<le> v_id v" for w v :: catalog_version
    unfolding newer_eq_def Let_def using compare_versions_preorder(2) [of "v_number v" "v_number w"] by auto
  have only: "v = v'" if "v \<in> set versions" "v' \<in> set versions" "newer_eq v v'" "newer_eq v' v" for v v'
  proof -
    have "v_id v = v_id v'" using that(3,4) compare_versions_preorder(2) [of "v_number v" "v_number v'"]
      unfolding newer_eq_def Let_def by auto
    then show ?thesis using assms that(1,2) by (auto simp: distinct_map inj_on_def)
  qed
  have "select_import_version versions vr loader = Some v \<longleftrightarrow>
      v \<in> set versions \<and> qualifies vr loader v \<and> (\<forall>w \<in> set versions. qualifies vr loader w \<longrightarrow> newer_eq v w)"
  proof
    assume s: "v \<in> set versions \<and> qualifies vr loader v \<and> (\<forall>w \<in> set versions. qualifies vr loader w \<longrightarrow> newer_eq v w)"
    then obtain v' where v': "select_import_version versions vr loader = Some v'"
      using select_import_version_None by (metis not_None_eq)
    with s only [of v v'] select_import_version_Some [OF v'] show "select_import_version versions vr loader = Some v" by auto
  qed (use select_import_version_Some in auto)
  moreover note select_import_version_None [of versions vr loader]
  ultimately show ?thesis
    unfolding eq qualifies_def using compare_versions_preorder(3) [of a b c] compare_versions_preorder(2) [of b a] by blast
qed

end
