(* ===== verification/Plugin_Walk.thy ===== *)
theory Plugin_Walk
  imports Version_Order
begin

text \<open>
  The closure walk as an exploration: what a dependency is classified as depends on the dependency alone
  (\<open>entry_of\<close>), every entry comes from an installed plugin or from the version chosen for another entry, and the
  depth bound makes the breadth-first loop end after at most eleven levels.
\<close>

section \<open>Classification without the walk\<close>

definition import_children :: "walk_context \<Rightarrow> resolution_entry \<Rightarrow> frontier_dep list" where
  \<comment> \<open>the required dependencies of the version an entry imports\<close>
  "import_children c e = (case import_of e of None \<Rightarrow> []
     | Some wi \<Rightarrow> fst (frontier_from_will_import (wc_catalog c) wi (wc_loader c) (wc_mc c) (e_depth e + 1)))"

definition import_edges :: "walk_context \<Rightarrow> resolution_entry \<Rightarrow> (string \<times> string) list" where
  \<comment> \<open>the incompatible projects of the version an entry imports\<close>
  "import_edges c e = (case import_of e of None \<Rightarrow> []
     | Some wi \<Rightarrow> snd (frontier_from_will_import (wc_catalog c) wi (wc_loader c) (wc_mc c) (e_depth e + 1)))"

definition entry_of :: "walk_context \<Rightarrow> frontier_dep \<Rightarrow> resolution_entry" where
  "entry_of c f =
     (if satisfied_in c f then new_entry f Already_Satisfied None
      else if f_depth f \<ge> MAX_RESOLUTION_DEPTH then new_entry f Depth_Exceeded None
      else case resolve_will_import (wc_catalog c) f (wc_range_loader c) (wc_loader c) (wc_mc c) of
             None \<Rightarrow> new_entry f Unresolvable None
           | Some wi \<Rightarrow> new_entry f Needs_Import (Some wi))"

lemma new_entry_fields [simp]:
  "e_dep (new_entry f s w) = f_id f" "e_depth (new_entry f s w) = f_depth f"
  "e_required_by (new_entry f s w) = f_required_by f" "e_blocked (new_entry f s w) = False"
  "e_status (new_entry f s w) = s" "e_import (new_entry f s w) = w"
  by (simp_all add: new_entry_def)

lemma entry_of_fields [simp]:
  "e_dep (entry_of c f) = f_id f" "e_depth (entry_of c f) = f_depth f"
  "e_required_by (entry_of c f) = f_required_by f" "e_blocked (entry_of c f) = False"
  by (simp_all add: entry_of_def split: option.splits)

lemma import_of_entry_of: "import_of (entry_of c f) = e_import (entry_of c f)"
  by (auto simp: entry_of_def import_of_def split: option.splits)

lemma import_of_new_entry [simp]:
  "import_of (new_entry f s wi) = (if s = Needs_Import then wi else None)"
  by (simp add: import_of_def)

lemma classify_entry_of:
  "classify c f w = w\<lparr>w_entries := w_entries w @ [entry_of c f],
     w_next := w_next w @ import_children c (entry_of c f), w_edges := w_edges w @ import_edges c (entry_of c f)\<rparr>"
  unfolding classify_def entry_of_def import_children_def import_edges_def
  by (auto simp: Let_def split: option.splits prod.splits)

lemma frontier_from_will_import_fields:
  assumes "f \<in> set (fst (frontier_from_will_import cat wi loader mc d))"
  shows "f_depth f = d \<and> f_required_by f = Some (wi_slug wi)"
proof (cases "list_versions cat (wi_project wi) loader mc")
  case (Inr versions)
  then show ?thesis
    using assms unfolding frontier_from_will_import_def by (cases "find (\<lambda>v. v_id v = wi_version wi) versions") auto
qed (use assms in \<open>simp add: frontier_from_will_import_def\<close>)

lemma import_children_fields:
  assumes "f \<in> set (import_children c e)"
  obtains wi where "import_of e = Some wi" "f_depth f = e_depth e + 1" "f_required_by f = Some (wi_slug wi)"
  using assms frontier_from_will_import_fields unfolding import_children_def by (cases "import_of e") fastforce+

lemma import_below_limit: "import_of (entry_of c f) = Some wi \<Longrightarrow> f_depth f < MAX_RESOLUTION_DEPTH"
  by (auto simp: entry_of_def split: if_splits option.splits)

section \<open>The invariant of the walk\<close>

definition arrived :: "walk_context \<Rightarrow> frontier_dep set \<Rightarrow> resolution_entry list \<Rightarrow> frontier_dep set" where
  \<comment> \<open>the dependency edges met: those of the installed set and those of the imports\<close>
  "arrived c R es = R \<union> (\<Union>e \<in> set es. set (import_children c e))"

lemma arrived_snoc [simp]: "arrived c R (es @ [e]) = arrived c R es \<union> set (import_children c e)"
  by (auto simp: arrived_def)

definition requirers_of :: "walk \<Rightarrow> string \<Rightarrow> string option set" where
  "requirers_of w i = set (dget_default (w_requirers w) i [])"

definition handled :: "walk \<Rightarrow> frontier_dep \<Rightarrow> bool" where
  "handled w f \<longleftrightarrow> f_id f \<in> e_dep ` set (w_entries w) \<and> f_required_by f \<in> requirers_of w (f_id f)"

definition walk_inv :: "walk_context \<Rightarrow> frontier_dep set \<Rightarrow> nat \<Rightarrow> frontier_dep set \<Rightarrow> walk \<Rightarrow> bool" where
  \<comment> \<open>in the middle of level \<open>d\<close>, with the edges \<open>P\<close> of the level still to be visited\<close>
  "walk_inv c R d P w \<longleftrightarrow>
     distinct (map e_dep (w_entries w)) \<and> set (w_visited w) = e_dep ` set (w_entries w)
   \<and> (\<forall>e \<in> set (w_entries w). \<exists>f \<in> arrived c R (w_entries w). e = entry_of c f \<and> f_depth f \<le> d)
   \<and> (\<forall>f \<in> arrived c R (w_entries w). f \<in> P \<or> f \<in> set (w_next w) \<or> handled w f)
   \<and> P \<union> set (w_next w) \<subseteq> arrived c R (w_entries w)
   \<and> (\<forall>i. \<forall>r \<in> requirers_of w i. \<exists>f \<in> arrived c R (w_entries w). f_id f = i \<and> f_required_by f = r)
   \<and> set (w_edges w) = (\<Union>e \<in> set (w_entries w). set (import_edges c e))
   \<and> (\<forall>f \<in> P. f_depth f = d) \<and> (\<forall>f \<in> set (w_next w). f_depth f = d + 1 \<and> d < MAX_RESOLUTION_DEPTH)"

lemma handled_requirers [simp]: "handled (w\<lparr>w_visited := v\<rparr>) f = handled w f"
  by (simp add: handled_def requirers_of_def)

definition note_requirer :: "frontier_dep \<Rightarrow> walk \<Rightarrow> walk" where
  "note_requirer f w = w\<lparr>w_requirers := dset (f_id f)
     (dget_default (w_requirers w) (f_id f) [] @ [f_required_by f]) (w_requirers w)\<rparr>"

lemma requirers_note: "requirers_of (note_requirer f w) i = requirers_of w i \<union> (if i = f_id f then {f_required_by f} else {})"
  by (auto simp: note_requirer_def requirers_of_def dget_default_def)

lemma note_requirer_fields [simp]:
  "w_entries (note_requirer f w) = w_entries w" "w_visited (note_requirer f w) = w_visited w"
  "w_edges (note_requirer f w) = w_edges w" "w_next (note_requirer f w) = w_next w"
  by (simp_all add: note_requirer_def)

lemma visit_note: "visit c f w =
   (if f_id f \<in> set (w_visited w) then note_requirer f w
    else classify c f ((note_requirer f w)\<lparr>w_visited := f_id f # w_visited w\<rparr>))"
  by (simp add: visit_def note_requirer_def Let_def)

definition added_entries :: "walk_context \<Rightarrow> frontier_dep \<Rightarrow> walk \<Rightarrow> resolution_entry list" where
  "added_entries c f w = (if f_id f \<in> set (w_visited w) then [] else [entry_of c f])"

lemma visit_fields:
  "w_entries (visit c f w) = w_entries w @ added_entries c f w"
  "w_next (visit c f w) = w_next w @ concat (map (import_children c) (added_entries c f w))"
  "w_edges (visit c f w) = w_edges w @ concat (map (import_edges c) (added_entries c f w))"
  "set (w_visited (visit c f w)) = insert (f_id f) (set (w_visited w))"
  "requirers_of (visit c f w) i = requirers_of w i \<union> (if i = f_id f then {f_required_by f} else {})"
proof -
  show "requirers_of (visit c f w) i = requirers_of w i \<union> (if i = f_id f then {f_required_by f} else {})"
  proof (cases "f_id f \<in> set (w_visited w)")
    case False
    then show ?thesis using requirers_note [of f w i] by (simp add: visit_note classify_entry_of requirers_of_def)
  qed (simp add: visit_note requirers_note)
qed (cases "f_id f \<in> set (w_visited w)"; simp add: visit_note classify_entry_of added_entries_def insert_absorb)+

lemma added_children_depth:
  assumes "g \<in> set (import_children c e)" "e \<in> set (added_entries c f w)"
  shows "f_depth g = f_depth f + 1 \<and> f_depth f < MAX_RESOLUTION_DEPTH"
proof -
  have e: "e = entry_of c f" using assms(2) by (simp add: added_entries_def split: if_splits)
  obtain wi where "import_of e = Some wi" "f_depth g = e_depth e + 1" by (rule import_children_fields [OF assms(1)])
  then show ?thesis using import_below_limit e by auto
qed

lemma visit_inv:
  assumes inv: "walk_inv c R d (insert f P) w"
  shows "walk_inv c R d P (visit c f w)"
proof -
  let ?w = "visit c f w" and ?new = "added_entries c f w" and ?A = "arrived c R (w_entries w)"
  note i = inv [unfolded walk_inv_def]
  have A: "arrived c R (w_entries ?w) = ?A \<union> (\<Union>e \<in> set ?new. set (import_children c e))"
    by (auto simp: arrived_def visit_fields)
  have N: "set (w_next ?w) = set (w_next w) \<union> (\<Union>e \<in> set ?new. set (import_children c e))" by (simp add: visit_fields)
  have f: "f \<in> ?A" "f_depth f = d" using i by simp_all
  have new: "e = entry_of c f" "f_id f \<notin> set (w_visited w)" if "e \<in> set ?new" for e
    using that by (simp_all add: added_entries_def split: if_splits)
  have ids: "e_dep ` set (w_entries ?w) = insert (f_id f) (e_dep ` set (w_entries w))"
    using i by (auto simp: visit_fields added_entries_def)
  have c1: "distinct (map e_dep (w_entries ?w))" using i by (auto simp: visit_fields added_entries_def)
  have c2: "set (w_visited ?w) = e_dep ` set (w_entries ?w)" using i ids by (simp add: visit_fields)
  have c3: "\<forall>e \<in> set (w_entries ?w). \<exists>g \<in> arrived c R (w_entries ?w). e = entry_of c g \<and> f_depth g \<le> d"
  proof
    fix e assume "e \<in> set (w_entries ?w)"
    then have "e \<in> set (w_entries w) \<or> e = entry_of c f" using new by (auto simp: visit_fields)
    then show "\<exists>g \<in> arrived c R (w_entries ?w). e = entry_of c g \<and> f_depth g \<le> d" using i f unfolding A by blast
  qed
  have h: "handled ?w g" if "handled w g \<or> g = f" for g
    using that ids by (auto simp: handled_def visit_fields)
  have "\<forall>g \<in> ?A. g = f \<or> g \<in> P \<or> g \<in> set (w_next w) \<or> handled w g" using i by blast
  then have c4: "\<forall>g \<in> arrived c R (w_entries ?w). g \<in> P \<or> g \<in> set (w_next ?w) \<or> handled ?w g"
    unfolding A N using h by blast
  have "P \<union> set (w_next w) \<subseteq> ?A" using i by simp
  then have c5: "P \<union> set (w_next ?w) \<subseteq> arrived c R (w_entries ?w)" unfolding A N by blast
  have c6: "\<forall>i. \<forall>r \<in> requirers_of ?w i. \<exists>g \<in> arrived c R (w_entries ?w). f_id g = i \<and> f_required_by g = r"
  proof (intro allI ballI)
    fix j r assume "r \<in> requirers_of ?w j"
    then have r: "r \<in> requirers_of w j \<or> j = f_id f \<and> r = f_required_by f" by (simp add: visit_fields split: if_splits)
    have "\<forall>i. \<forall>r \<in> requirers_of w i. \<exists>g \<in> ?A. f_id g = i \<and> f_required_by g = r" using i by simp
    with r f(1) have "\<exists>g \<in> ?A. f_id g = j \<and> f_required_by g = r" by blast
    then show "\<exists>g \<in> arrived c R (w_entries ?w). f_id g = j \<and> f_required_by g = r" unfolding A by blast
  qed
  have "set (w_edges w) = (\<Union>e \<in> set (w_entries w). set (import_edges c e))" using i by simp
  then have c7: "set (w_edges ?w) = (\<Union>e \<in> set (w_entries ?w). set (import_edges c e))" by (simp add: visit_fields)
  have "\<forall>g \<in> set (w_next w). f_depth g = d + 1 \<and> d < MAX_RESOLUTION_DEPTH" using i by simp
  moreover have "f_depth g = d + 1 \<and> d < MAX_RESOLUTION_DEPTH" if "g \<in> (\<Union>e \<in> set ?new. set (import_children c e))" for g
    using that added_children_depth f(2) by blast
  ultimately have c8: "\<forall>g \<in> set (w_next ?w). f_depth g = d + 1 \<and> d < MAX_RESOLUTION_DEPTH" unfolding N by blast
  have c9: "\<forall>g \<in> P. f_depth g = d" using i by simp
  show ?thesis unfolding walk_inv_def using c1 c2 c3 c4 c5 c6 c7 c8 c9 by (intro conjI)
qed

lemma level_inv: "walk_inv c R d (set fs) w \<Longrightarrow> walk_inv c R d {} (fold (visit c) fs w)"
proof (induction fs arbitrary: w)
  case (Cons f fs)
  have "walk_inv c R d (set fs) (visit c f w)" by (rule visit_inv) (use Cons.prems in simp)
  then show ?case using Cons.IH by simp
qed simp

section \<open>Every level, until none is left\<close>

lemma next_level:
  assumes "walk_inv c R d {} w"
  shows "walk_inv c R (Suc d) (set (w_next w)) (w\<lparr>w_next := []\<rparr>)"
proof -
  have h: "handled (w\<lparr>w_next := []\<rparr>) = handled w" "requirers_of (w\<lparr>w_next := []\<rparr>) = requirers_of w"
    by (auto simp: handled_def requirers_of_def)
  have "f \<in> arrived c R (w_entries w) \<and> e = entry_of c f \<and> f_depth f \<le> d \<Longrightarrow>
      \<exists>f \<in> arrived c R (w_entries w). e = entry_of c f \<and> f_depth f \<le> Suc d" for e f
    using le_SucI by blast
  then show ?thesis using assms unfolding walk_inv_def h by fastforce
qed

lemma walk_loop_ends:
  assumes "walk_inv c R d (set fs) (w\<lparr>w_next := []\<rparr>)" "d \<le> MAX_RESOLUTION_DEPTH"
  shows "\<exists>w' d'. walk_loop c fs w = Some w' \<and> d' \<le> MAX_RESOLUTION_DEPTH \<and> walk_inv c R d' {} (w'\<lparr>w_next := []\<rparr>)"
  using assms
proof (induction "MAX_RESOLUTION_DEPTH - d" arbitrary: d fs w rule: less_induct)
  case less
  show ?case
  proof (cases "fs = []")
    case True
    then show ?thesis using less.prems by (auto simp: walk_loop.simps [of c "[]"])
  next
    case False
    define w1 where "w1 = fold (visit c) fs (w\<lparr>w_next := []\<rparr>)"
    have inv: "walk_inv c R d {} w1" unfolding w1_def by (rule level_inv) (rule less.prems(1))
    have loop: "walk_loop c fs w = walk_loop c (w_next w1) w1"
      by (subst walk_loop.simps) (simp add: False w1_def Let_def)
    show ?thesis
    proof (cases "w_next w1 = []")
      case True
      then have eq: "w1\<lparr>w_next := []\<rparr> = w1" by (cases w1) simp
      have "walk_loop c fs w = Some w1" by (simp add: loop True walk_loop.simps [of c "[]"])
      moreover have "walk_inv c R d {} (w1\<lparr>w_next := []\<rparr>)" unfolding eq by (rule inv)
      ultimately show ?thesis using less.prems(2) by blast
    next
      case False
      then obtain f where "f \<in> set (w_next w1)" by (cases "w_next w1") auto
      then have "d < MAX_RESOLUTION_DEPTH" using inv unfolding walk_inv_def by blast
      then show ?thesis unfolding loop using less.hyps [OF _ next_level [OF inv]] by simp
    qed
  qed
qed

lemma first_frontier_roots: "f \<in> set (first_frontier ps) \<Longrightarrow> f_depth f = 0 \<and> f_required_by f = None"
proof -
  have "f_depth f = 0 \<and> f_required_by f = None" if "f \<in> set (frontier_from_plugin p 0 None)" for p
    using that unfolding frontier_from_plugin_def by (auto split: option.splits)
  moreover have "f_depth f = 0 \<and> f_required_by f = None" if "f \<in> set (fresh_projects skip ds)" for skip ds
    using that by (induction skip ds rule: fresh_projects.induct) (auto split: if_splits)
  ultimately show "f \<in> set (first_frontier ps) \<Longrightarrow> f_depth f = 0 \<and> f_required_by f = None"
    unfolding first_frontier_def catalog_frontier_def Let_def by auto
qed

definition walked :: "walk_context \<Rightarrow> server_plugin list \<Rightarrow> walk \<Rightarrow> bool" where
  \<comment> \<open>a finished walk: its entries are exactly the classified closure\<close>
  "walked c ps w \<longleftrightarrow>
     distinct (map e_dep (w_entries w))
   \<and> (\<forall>e \<in> set (w_entries w). \<exists>f \<in> arrived c (set (first_frontier ps)) (w_entries w).
        e = entry_of c f \<and> f_depth f \<le> MAX_RESOLUTION_DEPTH)
   \<and> (\<forall>f \<in> arrived c (set (first_frontier ps)) (w_entries w). handled w f)
   \<and> (\<forall>i. \<forall>r \<in> requirers_of w i. \<exists>f \<in> arrived c (set (first_frontier ps)) (w_entries w). f_id f = i \<and> f_required_by f = r)
   \<and> set (w_edges w) = (\<Union>e \<in> set (w_entries w). set (import_edges c e))"

lemma walk_finishes: "\<exists>w. walk_loop c (first_frontier ps) empty_walk = Some w \<and> walked c ps w"
proof -
  have "walk_inv c (set (first_frontier ps)) 0 (set (first_frontier ps)) (empty_walk\<lparr>w_next := []\<rparr>)"
    using first_frontier_roots by (auto simp: walk_inv_def empty_walk_def arrived_def requirers_of_def dget_default_def)
  from walk_loop_ends [OF this] obtain w d where
    w: "walk_loop c (first_frontier ps) empty_walk = Some w" "d \<le> MAX_RESOLUTION_DEPTH"
       "walk_inv c (set (first_frontier ps)) d {} (w\<lparr>w_next := []\<rparr>)" by auto
  have h: "handled (w\<lparr>w_next := []\<rparr>) = handled w" "requirers_of (w\<lparr>w_next := []\<rparr>) = requirers_of w"
    by (auto simp: handled_def requirers_of_def)
  have "walked c ps w" using w(2,3) unfolding walked_def walk_inv_def h by (simp; meson order.trans)
  with w(1) show ?thesis by blast
qed

end
