(* ===== verification/Plugin_Props.thy ===== *)
theory Plugin_Props
  imports Plugin_Walk
begin

text \<open>
  What a resolution plan promises: the loops end and the plan is the closure of the installed set's requirements;
  the imports left unblocked stay clear, by slug and project, of the conflict edges the resolution looks at and each is
  required by something present, and a direct dependency is blocked only for such an edge of its own.
\<close>

section \<open>The blocking loop\<close>

lemma newly_blocked_set:
  "set (newly_blocked b blocked) = {i. i < length (bc_entries b) \<and> i \<notin> set blocked
     \<and> (conflicting b blocked (bc_entries b ! i) \<or> \<not> supported b blocked (bc_entries b ! i))}"
  by (auto simp: newly_blocked_def)

lemma block_loop_ends:
  assumes "set blocked \<subseteq> {..<length (bc_entries b)}" "J (set blocked)"
    and keep: "\<And>bs i. set bs \<subseteq> {..<length (bc_entries b)} \<Longrightarrow> J (set bs) \<Longrightarrow> J (set bs \<union> set (newly_blocked b bs))"
  shows "\<exists>bs. block_loop b blocked = Some bs \<and> newly_blocked b bs = [] \<and> set bs \<subseteq> {..<length (bc_entries b)} \<and> J (set bs)"
  using assms(1,2)
proof (induction "card ({..<length (bc_entries b)} - set blocked)" arbitrary: blocked rule: less_induct)
  case less
  show ?case
  proof (cases "newly_blocked b blocked = []")
    case True
    then have "block_loop b blocked = Some blocked" by (subst block_loop.simps) simp
    with True less.prems show ?thesis by blast
  next
    case False
    let ?next = "blocked @ newly_blocked b blocked"
    have loop: "block_loop b blocked = block_loop b ?next"
      by (subst block_loop.simps) (simp add: False Let_def)
    have sub: "set ?next \<subseteq> {..<length (bc_entries b)}" using less.prems(1) by (auto simp: newly_blocked_set)
    obtain i where "i \<in> set (newly_blocked b blocked)" using False by (cases "newly_blocked b blocked") auto
    then have "{..<length (bc_entries b)} - set ?next \<subset> {..<length (bc_entries b)} - set blocked"
      by (auto simp: newly_blocked_set)
    then have "card ({..<length (bc_entries b)} - set ?next) < card ({..<length (bc_entries b)} - set blocked)"
      by (intro psubset_card_mono) simp_all
    then show ?thesis unfolding loop using less.hyps [of ?next] sub keep [OF less.prems] by simp
  qed
qed

section \<open>Clashes, over lists of entries\<close>

definition plan_imports :: "resolution_entry list \<Rightarrow> will_import list" where
  "plan_imports es = concat (map (\<lambda>e. the_list (import_of e)) es)"

definition present_with :: "server_plugin list \<Rightarrow> resolution_entry list \<Rightarrow> string set" where
  \<comment> \<open>the ids present once the entries are applied: a slug and the id it was required under\<close>
  "present_with ps es = set (installed_ids ps) \<union> {i. \<exists>e \<in> set es. \<exists>wi. import_of e = Some wi \<and> (i = wi_slug wi \<or> i = e_dep e)}"

definition projects_with :: "server_plugin list \<Rightarrow> resolution_entry list \<Rightarrow> string set" where
  "projects_with ps es = set (installed_project_ids ps) \<union> wi_project ` set (plan_imports es)"

definition slug_clashes :: "server_plugin list \<Rightarrow> (string \<times> string) list \<Rightarrow> resolution_entry list \<Rightarrow> resolution_entry \<Rightarrow> bool" where
  \<comment> \<open>the slug of an import is an end of a manifest conflict edge whose target is present, whatever the range of the
    edge, or its project is an end of an incompatible edge whose two ends are present\<close>
  "slug_clashes ps incompatible es e \<longleftrightarrow>
     (\<exists>wi. import_of e = Some wi \<and>
       ((\<exists>(d, t) \<in> set (conflict_edges ps). t \<in> present_with ps es \<and> wi_slug wi \<in> {d, t})
      \<or> (\<exists>(d, t) \<in> set incompatible. {d, t} \<subseteq> projects_with ps es \<and> wi_project wi \<in> {d, t})))"

lemma set_the_list: "set (the_list x) = {v. x = Some v}"
  by (cases x) (auto simp: the_list_def)

lemma plan_imports_set: "set (plan_imports es) = {wi. \<exists>e \<in> set es. import_of e = Some wi}"
  by (auto simp: plan_imports_def set_the_list)

lemma present_ids_set: "set (present_ids es (installed_ids ps) blocked) = present_with ps (unblocked es blocked)"
proof -
  have "set (case import_of e of None \<Rightarrow> [] | Some wi \<Rightarrow> [wi_slug wi, e_dep e])
      = {i. \<exists>wi. import_of e = Some wi \<and> (i = wi_slug wi \<or> i = e_dep e)}" for e
    by (cases "import_of e") auto
  then show ?thesis by (auto simp: present_ids_def present_with_def)
qed

lemma present_project_ids_set:
  "set (present_project_ids es (installed_project_ids ps) blocked) = projects_with ps (unblocked es blocked)"
  by (auto simp: present_project_ids_def projects_with_def plan_imports_set entry_added_project_id_def set_the_list image_iff)

lemma broken_or_breaking_set:
  "i \<in> set (broken_or_breaking edges present) \<longleftrightarrow> (\<exists>(d, t) \<in> set edges. t \<in> set present \<and> i \<in> {d, t})"
  unfolding broken_or_breaking_def by (auto split: if_splits)

lemma incompatible_project_ids_set:
  "i \<in> set (incompatible_project_ids edges present) \<longleftrightarrow> (\<exists>(d, t) \<in> set edges. {d, t} \<subseteq> set present \<and> i \<in> {d, t})"
  unfolding incompatible_project_ids_def by (auto split: if_splits)

lemma conflicting_clashes:
  "conflicting (block_context_of ps w) blocked e =
   slug_clashes ps (installed_incompatible_edges ps @ w_edges w) (unblocked (w_entries w) blocked) e"
  unfolding conflicting_def slug_clashes_def block_context_of_def
  by (cases "import_of e")
     (simp_all only: block_context.simps option.simps option.inject broken_or_breaking_set incompatible_project_ids_set
        present_ids_set present_project_ids_set ex_simps simp_thms)

lemma unblocked_set: "set (unblocked es blocked) = {es ! i |i. i < length es \<and> i \<notin> set blocked}"
  by (auto simp: unblocked_def)

lemma slug_clashes_mono:
  assumes "set es \<subseteq> set es'" "set inc \<subseteq> set inc'" "slug_clashes ps inc es e"
  shows "slug_clashes ps inc' es' e"
proof -
  have p: "present_with ps es \<subseteq> present_with ps es'" using assms(1) by (auto simp: present_with_def)
  have q: "projects_with ps es \<subseteq> projects_with ps es'"
    using assms(1) by (auto simp: projects_with_def plan_imports_set)
  obtain wi where wi: "import_of e = Some wi"
    "(\<exists>(d, t) \<in> set (conflict_edges ps). t \<in> present_with ps es \<and> wi_slug wi \<in> {d, t})
   \<or> (\<exists>(d, t) \<in> set inc. {d, t} \<subseteq> projects_with ps es \<and> wi_project wi \<in> {d, t})"
    using assms(3) unfolding slug_clashes_def by blast
  from wi(2) have "(\<exists>(d, t) \<in> set (conflict_edges ps). t \<in> present_with ps es' \<and> wi_slug wi \<in> {d, t})
   \<or> (\<exists>(d, t) \<in> set inc'. {d, t} \<subseteq> projects_with ps es' \<and> wi_project wi \<in> {d, t})"
  proof (elim disjE bexE)
    fix x assume "x \<in> set (conflict_edges ps)" "case x of (d, t) \<Rightarrow> t \<in> present_with ps es \<and> wi_slug wi \<in> {d, t}"
    with p show ?thesis by (intro disjI1 bexI [of _ x]) auto
  next
    fix x assume "x \<in> set inc" "case x of (d, t) \<Rightarrow> {d, t} \<subseteq> projects_with ps es \<and> wi_project wi \<in> {d, t}"
    with q assms(2) show ?thesis by (intro disjI2 bexI [of _ x]) auto
  qed
  with wi(1) show ?thesis unfolding slug_clashes_def by blast
qed

section \<open>The plan\<close>

definition live :: "resolution_entry list \<Rightarrow> resolution_entry list" where
  "live es = filter (\<lambda>e. \<not> e_blocked e) es"

definition declared_incompatible :: "walk_context \<Rightarrow> server_plugin list \<Rightarrow> resolution_entry list \<Rightarrow> (string \<times> string) list" where
  \<comment> \<open>the incompatible edges of the installed plugins and of the versions to import\<close>
  "declared_incompatible c ps es = installed_incompatible_edges ps @ concat (map (import_edges c) es)"

definition rooted :: "server_plugin list \<Rightarrow> resolution_entry \<Rightarrow> bool" where
  \<comment> \<open>an installed plugin requires the entry\<close>
  "rooted ps e \<longleftrightarrow> (\<exists>f \<in> set (first_frontier ps). f_id f = e_dep e)"

definition required_in :: "walk_context \<Rightarrow> server_plugin list \<Rightarrow> resolution_entry list \<Rightarrow> resolution_entry \<Rightarrow> bool" where
  \<comment> \<open>an import of the plan requires the entry whose slug is installed or is the slug of a live import\<close>
  "required_in c ps es e \<longleftrightarrow> (\<exists>x \<in> set es. \<exists>f wi. f \<in> set (import_children c x) \<and> f_id f = e_dep e \<and> import_of x = Some wi
          \<and> (wi_slug wi \<in> set (installed_ids ps) \<or> (\<exists>wi' \<in> set (plan_imports (live es)). wi_slug wi' = wi_slug wi)))"

definition unmarked :: "resolution_entry \<Rightarrow> resolution_entry" where
  "unmarked e = e\<lparr>e_blocked := False\<rparr>"

lemma unmarked_fields [simp]:
  "e_dep (unmarked e) = e_dep e" "e_depth (unmarked e) = e_depth e" "import_of (unmarked e) = import_of e"
  "e_status (unmarked e) = e_status e" "e_import (unmarked e) = e_import e"
  by (simp_all add: unmarked_def import_of_def)

lemma unmarked_imports [simp]:
  "import_children c (unmarked e) = import_children c e" "import_edges c (unmarked e) = import_edges c e"
  by (simp_all add: import_children_def import_edges_def split: option.split)

lemma slug_clashes_cong: "import_of e = import_of e' \<Longrightarrow> slug_clashes ps inc es e = slug_clashes ps inc es e'"
  by (simp add: slug_clashes_def)

lemma mark_blocked_unmarked:
  assumes "\<And>e. e \<in> set es \<Longrightarrow> \<not> e_blocked e"
  shows "map unmarked (mark_blocked es bs) = es" "live (mark_blocked es bs) = unblocked es bs"
proof -
  have un: "unmarked (es ! i) = es ! i" "unmarked ((es ! i)\<lparr>e_blocked := True\<rparr>) = es ! i" if "i < length es" for i
  proof -
    have "\<not> e_blocked (es ! i)" using assms that by simp
    then show "unmarked (es ! i) = es ! i" "unmarked ((es ! i)\<lparr>e_blocked := True\<rparr>) = es ! i"
      by (cases "es ! i"; simp add: unmarked_def)+
  qed
  show "map unmarked (mark_blocked es bs) = es"
    by (rule nth_equalityI) (simp_all add: mark_blocked_def un)
  have "live (mark_blocked es bs) = map (\<lambda>i. if i \<in> set bs then (es ! i)\<lparr>e_blocked := True\<rparr> else es ! i)
      (filter (\<lambda>i. i \<notin> set bs) [0..<length es])"
    unfolding live_def mark_blocked_def filter_map comp_def
    by (intro arg_cong2 [where f = map] refl filter_cong) (auto simp: assms)
  also have "\<dots> = unblocked es bs" unfolding unblocked_def by (intro map_cong) auto
  finally show "live (mark_blocked es bs) = unblocked es bs" .
qed

section \<open>From the walk to the plan\<close>

lemma walked_requirers:
  assumes w: "walked c ps w" and e: "e \<in> set (w_entries w)"
  shows "set (dget_default (w_requirers w) (e_dep e) d) = requirers_of w (e_dep e)"
proof -
  obtain f where "f \<in> arrived c (set (first_frontier ps)) (w_entries w)" "e = entry_of c f"
    using w e unfolding walked_def by blast
  then have "requirers_of w (e_dep e) \<noteq> {}" using w unfolding walked_def handled_def by fastforce
  then show ?thesis unfolding requirers_of_def dget_default_def by (auto split: option.splits)
qed

lemma rooted_supported:
  assumes w: "walked c ps w" and e: "e \<in> set (w_entries w)" "rooted ps e"
  shows "supported (block_context_of ps w) bs e"
proof -
  obtain f where f: "f \<in> set (first_frontier ps)" "f_id f = e_dep e" using e(2) by (auto simp: rooted_def)
  then have "handled w f" using w unfolding walked_def arrived_def by blast
  then have "None \<in> requirers_of w (e_dep e)" using f first_frontier_roots by (auto simp: handled_def)
  then show ?thesis using walked_requirers [OF w e(1)]
    unfolding supported_def block_context_of_def by (force simp: list_ex_iff)
qed

lemma supported_required:
  assumes w: "walked c ps w" and e: "e \<in> set (w_entries w)" and s: "supported (block_context_of ps w) bs e"
  shows "rooted ps e \<or> (\<exists>x \<in> set (w_entries w). \<exists>f wi. f \<in> set (import_children c x) \<and> f_id f = e_dep e
    \<and> import_of x = Some wi
    \<and> (wi_slug wi \<in> set (installed_ids ps) \<or> (\<exists>wi' \<in> set (plan_imports (unblocked (w_entries w) bs)). wi_slug wi' = wi_slug wi)))"
proof -
  have set_added: "set (concat (map (\<lambda>x. the_list (entry_added_id x)) es)) = wi_slug ` set (plan_imports es)" for es
    by (auto simp: plan_imports_set set_the_list entry_added_id_def image_iff)
  obtain r where r: "r \<in> requirers_of w (e_dep e)"
    "case r of None \<Rightarrow> True | Some i \<Rightarrow> i \<in> set (installed_ids ps)
       \<or> i \<in> wi_slug ` set (plan_imports (unblocked (w_entries w) bs))"
    using s unfolding supported_def block_context_of_def list_ex_iff block_context.simps walked_requirers [OF w e] set_added
    by blast
  obtain f where f: "f \<in> arrived c (set (first_frontier ps)) (w_entries w)" "f_id f = e_dep e" "f_required_by f = r"
    using w r(1) unfolding walked_def by blast
  then consider "f \<in> set (first_frontier ps)" | x where "x \<in> set (w_entries w)" "f \<in> set (import_children c x)"
    by (auto simp: arrived_def)
  then show ?thesis
  proof cases
    case 1
    then show ?thesis using f(2) by (auto simp: rooted_def)
  next
    case 2
    obtain wi where "import_of x = Some wi" "f_required_by f = Some (wi_slug wi)" by (rule import_children_fields [OF 2(2)])
    then have "f_id f = e_dep e \<and> import_of x = Some wi \<and> (wi_slug wi \<in> set (installed_ids ps)
        \<or> (\<exists>wi' \<in> set (plan_imports (unblocked (w_entries w) bs)). wi_slug wi' = wi_slug wi))"
      using f(2,3) r(2) by auto
    then show ?thesis using 2 by blast
  qed
qed

lemma everything_supported:
  assumes w: "walked c ps w" and e: "e \<in> set (w_entries w)"
  shows "supported (block_context_of ps w) [] e"
proof (cases "rooted ps e")
  case False
  obtain f where f: "f \<in> arrived c (set (first_frontier ps)) (w_entries w)" "e = entry_of c f"
    using w e unfolding walked_def by blast
  with False obtain x where x: "x \<in> set (w_entries w)" "f \<in> set (import_children c x)"
    by (auto simp: arrived_def rooted_def)
  obtain wi where wi: "import_of x = Some wi" "f_required_by f = Some (wi_slug wi)" by (rule import_children_fields [OF x(2)])
  have "handled w f" using w f(1) unfolding walked_def by blast
  then have "Some (wi_slug wi) \<in> requirers_of w (e_dep e)" using wi(2) f(2) by (simp add: handled_def)
  moreover have "set (unblocked (w_entries w) []) = set (w_entries w)" by (auto simp: unblocked_set in_set_conv_nth)
  ultimately show ?thesis using walked_requirers [OF w e] x(1) wi(1)
    unfolding supported_def block_context_of_def
    by (force simp: list_ex_iff set_the_list entry_added_id_def)
qed (rule rooted_supported [OF w e])

lemma unmarked_present [simp]:
  "slug_clashes ps inc (map unmarked es) e = slug_clashes ps inc es e" "slug_clashes ps inc es (unmarked e) = slug_clashes ps inc es e"
  "rooted ps (unmarked e) = rooted ps e" "declared_incompatible c ps (map unmarked es) = declared_incompatible c ps es"
  by (simp_all add: slug_clashes_def present_with_def projects_with_def plan_imports_def rooted_def declared_incompatible_def comp_def)

lemma block_and_prune_result:
  assumes w: "walked c ps w"
  defines "es \<equiv> w_entries w" and "inc \<equiv> installed_incompatible_edges ps @ w_edges w"
  obtains bs where "block_and_prune ps w = Some (mark_blocked es bs)" "newly_blocked (block_context_of ps w) bs = []"
    "\<And>i. i \<in> set bs \<Longrightarrow> i < length es \<and> (slug_clashes ps inc es (es ! i) \<or> \<not> rooted ps (es ! i))"
    "(\<And>e. e \<in> set es \<Longrightarrow> \<not> slug_clashes ps inc es e) \<Longrightarrow> bs = []"
proof -
  let ?b = "block_context_of ps w"
  let ?J = "\<lambda>S. (\<forall>i \<in> S. slug_clashes ps inc es (es ! i) \<or> \<not> rooted ps (es ! i))
      \<and> ((\<forall>e \<in> set es. \<not> slug_clashes ps inc es e) \<longrightarrow> S = {})"
  have b: "bc_entries ?b = es" by (simp add: block_context_of_def es_def)
  have cl: "conflicting ?b bs e \<Longrightarrow> slug_clashes ps inc es e" for bs e
    unfolding conflicting_clashes es_def inc_def by (rule slug_clashes_mono [rotated 2]) (auto simp: unblocked_set)
  have "\<exists>bs. block_loop ?b [] = Some bs \<and> newly_blocked ?b bs = [] \<and> set bs \<subseteq> {..<length (bc_entries ?b)} \<and> ?J (set bs)"
  proof (rule block_loop_ends)
    fix bs :: "nat list" assume bs: "set bs \<subseteq> {..<length (bc_entries ?b)}" "?J (set bs)"
    have new: "i < length es" "slug_clashes ps inc es (es ! i) \<or> \<not> supported ?b bs (es ! i)" if "i \<in> set (newly_blocked ?b bs)" for i
      using that cl [of bs "es ! i"] unfolding newly_blocked_set b by blast+
    have "slug_clashes ps inc es (es ! i) \<or> \<not> rooted ps (es ! i)" if "i \<in> set (newly_blocked ?b bs)" for i
      using new [OF that] rooted_supported [OF w] nth_mem [of i es] unfolding es_def by blast
    moreover have "set bs \<union> set (newly_blocked ?b bs) = {}" if "\<forall>e \<in> set es. \<not> slug_clashes ps inc es e"
    proof -
      have "bs = []" using bs(2) that by simp
      then show ?thesis using new everything_supported [OF w] that nth_mem [of _ es] unfolding es_def by fastforce
    qed
    ultimately show "?J (set bs \<union> set (newly_blocked ?b bs))" using bs(2) by blast
  qed simp_all
  then obtain bs where bs: "block_loop ?b [] = Some bs" "newly_blocked ?b bs = []" "set bs \<subseteq> {..<length es}" "?J (set bs)"
    unfolding b by blast
  show ?thesis
  proof (rule that [of bs])
    show "block_and_prune ps w = Some (mark_blocked es bs)" by (simp add: block_and_prune_def bs(1) es_def)
  qed (use bs in auto)
qed

lemma resolve_closure_result:
  fixes cat :: catalog and mc :: string and ps :: "server_plugin list"
  assumes "modrinth_loader_for_server_type st = Inr loader"
  defines "c \<equiv> context_of cat loader st mc ps"
  obtains w bs where "walked c ps w" "newly_blocked (block_context_of ps w) bs = []"
    "resolve_closure cat st mc ps =
       Inr (Some \<lparr>plan_entries = mark_blocked (w_entries w) bs, plan_validation = validate_plugin_set st mc ps\<rparr>)"
    "map unmarked (mark_blocked (w_entries w) bs) = w_entries w" "live (mark_blocked (w_entries w) bs) = unblocked (w_entries w) bs"
    "\<forall>i \<in> set bs. i < length (w_entries w) \<and>
       (slug_clashes ps (installed_incompatible_edges ps @ w_edges w) (w_entries w) (w_entries w ! i) \<or> \<not> rooted ps (w_entries w ! i))"
    "(\<forall>e \<in> set (w_entries w). \<not> slug_clashes ps (installed_incompatible_edges ps @ w_edges w) (w_entries w) e) \<longrightarrow> bs = []"
proof -
  obtain w where w: "walk_loop c (first_frontier ps) empty_walk = Some w" "walked c ps w" using walk_finishes by blast
  have "\<not> e_blocked e" if "e \<in> set (w_entries w)" for e using w(2) that unfolding walked_def by fastforce
  note marks = mark_blocked_unmarked [OF this]
  from w(2) show ?thesis
  proof (rule block_and_prune_result)
    fix bs assume bs: "block_and_prune ps w = Some (mark_blocked (w_entries w) bs)" "newly_blocked (block_context_of ps w) bs = []"
      "\<And>i. i \<in> set bs \<Longrightarrow> i < length (w_entries w) \<and>
       (slug_clashes ps (installed_incompatible_edges ps @ w_edges w) (w_entries w) (w_entries w ! i) \<or> \<not> rooted ps (w_entries w ! i))"
      "(\<And>e. e \<in> set (w_entries w) \<Longrightarrow> \<not> slug_clashes ps (installed_incompatible_edges ps @ w_edges w) (w_entries w) e) \<Longrightarrow> bs = []"
    have "resolve_closure cat st mc ps =
       Inr (Some \<lparr>plan_entries = mark_blocked (w_entries w) bs, plan_validation = validate_plugin_set st mc ps\<rparr>)"
      using assms(1) w(1) bs(1) by (simp add: resolve_closure_def c_def)
    then show thesis using that w(2) bs marks by blast
  qed
qed

section \<open>The plan is the closure\<close>

text \<open>
  C23. For a server that takes plugins, resolution always returns a plan, whatever the catalog answers and however
  its projects depend on each other. The plan is exactly the closure: each of its entries classifies a dependency of
  an installed plugin or of a version the plan imports, at depth ten at most; each such dependency has an entry,
  and no id has two.
\<close>

theorem resolution_terminates:
  assumes "modrinth_loader_for_server_type st = Inr loader"
  shows "\<exists>plan. resolve_closure cat st mc ps = Inr (Some plan)
     \<and> distinct (map e_dep (plan_entries plan))
     \<and> (\<forall>e \<in> set (plan_entries plan). e_depth e \<le> 10
          \<and> (\<exists>f. (f \<in> set (first_frontier ps)
                  \<or> (\<exists>x \<in> set (plan_entries plan). f \<in> set (import_children (context_of cat loader st mc ps) x)))
               \<and> unmarked e = entry_of (context_of cat loader st mc ps) f))
     \<and> (\<forall>f. f \<in> set (first_frontier ps)
            \<or> (\<exists>x \<in> set (plan_entries plan). f \<in> set (import_children (context_of cat loader st mc ps) x))
          \<longrightarrow> f_id f \<in> e_dep ` set (plan_entries plan))"
proof -
  let ?c = "context_of cat loader st mc ps"
  obtain w bs where w: "walked ?c ps w"
    and r: "resolve_closure cat st mc ps =
       Inr (Some \<lparr>plan_entries = mark_blocked (w_entries w) bs, plan_validation = validate_plugin_set st mc ps\<rparr>)"
    and m: "map unmarked (mark_blocked (w_entries w) bs) = w_entries w"
    by (rule resolve_closure_result [OF assms, of cat mc ps])
  define es where "es = mark_blocked (w_entries w) bs"
  have es: "w_entries w = map unmarked es" using m by (simp add: es_def)
  have A: "arrived ?c (set (first_frontier ps)) (map unmarked es) = {f. f \<in> set (first_frontier ps) \<or> (\<exists>x \<in> set es. f \<in> set (import_children ?c x))}"
    by (auto simp: arrived_def)
  note facts = w [unfolded walked_def es A handled_def]
  have entries: "\<forall>e \<in> set es. \<exists>f. (f \<in> set (first_frontier ps) \<or> (\<exists>x \<in> set es. f \<in> set (import_children ?c x)))
      \<and> unmarked e = entry_of ?c f \<and> f_depth f \<le> MAX_RESOLUTION_DEPTH"
    using facts [THEN conjunct2, THEN conjunct1] by simp
  have "distinct (map e_dep es)" using facts by (simp add: comp_def)
  moreover have "e_depth e \<le> 10 \<and> (\<exists>f. (f \<in> set (first_frontier ps) \<or> (\<exists>x \<in> set es. f \<in> set (import_children ?c x)))
      \<and> unmarked e = entry_of ?c f)" if e: "e \<in> set es" for e
  proof -
    obtain f where f: "f \<in> set (first_frontier ps) \<or> (\<exists>x \<in> set es. f \<in> set (import_children ?c x))"
      "unmarked e = entry_of ?c f" "f_depth f \<le> MAX_RESOLUTION_DEPTH" using bspec [OF entries e] by blast
    have "e_depth e \<le> 10" using arg_cong [OF f(2), of e_depth] f(3) by (simp add: MAX_RESOLUTION_DEPTH_def)
    with f(1,2) show ?thesis by blast
  qed
  moreover have "f_id f \<in> e_dep ` set es"
    if "f \<in> set (first_frontier ps) \<or> (\<exists>x \<in> set es. f \<in> set (import_children ?c x))" for f
  proof -
    have "f_id f \<in> e_dep ` set (map unmarked es)"
      using facts [THEN conjunct2, THEN conjunct2, THEN conjunct1] that by blast
    then show ?thesis by (simp add: image_image)
  qed
  ultimately show ?thesis unfolding r es_def [symmetric] by simp
qed

section \<open>The plan is safe\<close>

text \<open>
  C18. The unblocked part of a plan avoids the edges the resolution looks at. The slug of a live import is at
  neither end of a manifest conflict edge of an installed plugin whose target is present (installed, or a slug or a
  required id of a live import), the project of a live import at neither end of an incompatible edge (of an
  installed plugin or of a version to import) whose two ends are present, and each live entry is required by an
  installed plugin or by a live (or installed) import. What an installed plugin itself requires is blocked only for
  such an edge within the plan, and a plan without them has nothing blocked. The edges count whatever
  version range they carry, so a direct dependency may be blocked for a break whose range the imported version is
  not in (\<open>break_range_ignored\<close>), and a break of the id an import was required under, which is not its slug,
  does not block it (\<open>aliased_import_unblocked\<close>).
\<close>

theorem live_plan_is_safe:
  assumes "modrinth_loader_for_server_type st = Inr loader" "resolve_closure cat st mc ps = Inr (Some plan)"
  shows "(\<forall>e \<in> set (live (plan_entries plan)).
            \<not> slug_clashes ps (declared_incompatible (context_of cat loader st mc ps) ps (plan_entries plan)) (live (plan_entries plan)) e
          \<and> (rooted ps e \<or> required_in (context_of cat loader st mc ps) ps (plan_entries plan) e))
       \<and> (\<forall>e \<in> set (plan_entries plan). e_blocked e \<longrightarrow>
            slug_clashes ps (declared_incompatible (context_of cat loader st mc ps) ps (plan_entries plan)) (plan_entries plan) e
          \<or> \<not> rooted ps e)
       \<and> ((\<forall>e \<in> set (plan_entries plan).
              \<not> slug_clashes ps (declared_incompatible (context_of cat loader st mc ps) ps (plan_entries plan)) (plan_entries plan) e)
            \<longrightarrow> live (plan_entries plan) = plan_entries plan)"
proof -
  let ?c = "context_of cat loader st mc ps"
  obtain w bs where w: "walked ?c ps w" and bs: "newly_blocked (block_context_of ps w) bs = []"
    and r: "resolve_closure cat st mc ps =
       Inr (Some \<lparr>plan_entries = mark_blocked (w_entries w) bs, plan_validation = validate_plugin_set st mc ps\<rparr>)"
    and m: "map unmarked (mark_blocked (w_entries w) bs) = w_entries w" "live (mark_blocked (w_entries w) bs) = unblocked (w_entries w) bs"
    and why: "\<forall>i \<in> set bs. i < length (w_entries w) \<and>
       (slug_clashes ps (installed_incompatible_edges ps @ w_edges w) (w_entries w) (w_entries w ! i) \<or> \<not> rooted ps (w_entries w ! i))"
    and none: "(\<forall>e \<in> set (w_entries w). \<not> slug_clashes ps (installed_incompatible_edges ps @ w_edges w) (w_entries w) e) \<longrightarrow> bs = []"
    by (rule resolve_closure_result [OF assms(1), of cat mc ps])
  define es where "es = mark_blocked (w_entries w) bs"
  define inc where "inc = declared_incompatible ?c ps es"
  have plan: "plan_entries plan = es" using assms(2) r by (auto simp: es_def)
  have es: "w_entries w = map unmarked es" using m by (simp add: es_def)
  have "set (installed_incompatible_edges ps @ w_edges w) = set inc"
    using w by (auto simp: walked_def inc_def declared_incompatible_def es)
  then have inc: "slug_clashes ps (installed_incompatible_edges ps @ w_edges w) = slug_clashes ps inc"
    by (intro ext) (auto intro: slug_clashes_mono [rotated 2])
  have live: "live es = unblocked (w_entries w) bs" using m by (simp add: es_def)
  have "\<not> slug_clashes ps inc (live es) e \<and> (rooted ps e \<or> required_in ?c ps es e)" if e: "e \<in> set (live es)" for e
  proof -
    obtain i where i: "i < length (w_entries w)" "i \<notin> set bs" "e = w_entries w ! i"
      using e by (auto simp: live unblocked_set)
    then have ok: "\<not> conflicting (block_context_of ps w) bs e" "supported (block_context_of ps w) bs e"
      using bs newly_blocked_set [of "block_context_of ps w" bs] by (auto simp: block_context_of_def)
    have "e \<in> set (w_entries w)" using i by simp
    from supported_required [OF w this ok(2)] have "rooted ps e \<or> required_in ?c ps es e"
      unfolding required_in_def live [symmetric] by (auto simp: es)
    with ok(1) show ?thesis by (simp add: conflicting_clashes inc live)
  qed
  moreover have "slug_clashes ps inc es e \<or> \<not> rooted ps e" if e: "e \<in> set es" "e_blocked e" for e
  proof -
    obtain i where i: "i < length (w_entries w)" "e = es ! i" using e(1) by (auto simp: in_set_conv_nth es)
    have "i \<in> set bs"
    proof (rule ccontr)
      assume "i \<notin> set bs"
      then have "e = w_entries w ! i" using i by (simp add: es_def mark_blocked_def)
      then have "e \<in> set (live es)" using i(1) \<open>i \<notin> set bs\<close> unfolding live unblocked_set by blast
      then show False using e(2) by (simp add: live_def)
    qed
    with why have "slug_clashes ps inc (map unmarked es) (map unmarked es ! i) \<or> \<not> rooted ps (map unmarked es ! i)" unfolding es inc by blast
    moreover have "i < length es" using i(1) by (simp add: es)
    ultimately show ?thesis by (simp add: i(2))
  qed
  moreover have "live es = es" if "\<forall>e \<in> set es. \<not> slug_clashes ps inc es e"
  proof -
    have "bs = []" using none that by (auto simp: es inc)
    then show ?thesis unfolding live by (simp add: es_def mark_blocked_def unblocked_def map_nth)
  qed
  ultimately show ?thesis unfolding plan inc_def by blast
qed

end
