(* ===== verification/Plugin_Witness.thy ===== *)
theory Plugin_Witness
  imports Plugin_Props
begin

text \<open>
  The plugin properties at a concrete catalog and installed set, and three runs that show what the plan does
  where the code and its documentation part.
\<close>

section \<open>A small catalog\<close>

definition demo_version :: "string \<Rightarrow> string \<Rightarrow> (string \<times> string) list \<Rightarrow> catalog_version" where
  "demo_version i n deps = \<lparr>v_id = i, v_number = n, v_files = [''jar''],
     v_dependencies = map (\<lambda>(p, t). \<lparr>dep_project = p, dep_type = t\<rparr>) deps\<rparr>"

definition demo_catalog :: "(string \<times> catalog_version list) list \<Rightarrow> catalog" where
  \<comment> \<open>projects whose slug is their id\<close>
  "demo_catalog ps = \<lparr>search = \<lambda>q l m. Inr (map (\<lambda>(i, vs). \<lparr>p_id = i, p_slug = i\<rparr>) ps),
     get_project = \<lambda>i. if map_of ps i = None then Inl CatalogProjectNotFoundError else Inr \<lparr>p_id = i, p_slug = i\<rparr>,
     list_versions = \<lambda>i l m. case map_of ps i of None \<Rightarrow> Inl CatalogProjectNotFoundError | Some vs \<Rightarrow> Inr vs\<rparr>"

definition demo_plugin :: "string \<Rightarrow> dep_edge list \<Rightarrow> server_plugin" where
  "demo_plugin m deps = \<lparr>source = LOCAL, source_project_id = None, version_number = Some ''3.0'', mod_identifier = Some m,
     provides = [], dependencies = deps, mc_versions = [], catalog_dependencies = []\<rparr>"

definition needs :: "string \<Rightarrow> string \<Rightarrow> dep_edge" where
  "needs t r = [(''mod_identifier'', JStr t), (''required'', JBool True), (''version_range'', JStr r)]"

definition breaks :: "string \<Rightarrow> string \<Rightarrow> dep_edge" where
  "breaks t r = [(''mod_identifier'', JStr t), (''conflict'', JBool True), (''version_range'', JStr r)]"

definition cyclic_catalog :: catalog where
  \<comment> \<open>\<open>a\<close> requires \<open>b\<close>; \<open>b\<close> and \<open>c\<close> require each other\<close>
  "cyclic_catalog = demo_catalog
     [(''a'', [demo_version ''a1'' ''1.9'' [], demo_version ''a2'' ''3.0'' [(''b'', ''required'')], demo_version ''a3'' ''3.0-beta'' []]),
      (''b'', [demo_version ''b1'' ''1.0'' [(''c'', ''required'')]]),
      (''c'', [demo_version ''c1'' ''1.0'' [(''b'', ''required''), (''d'', ''incompatible'')]]),
      (''d'', [demo_version ''d1'' ''1.0'' []])]"

definition summary_of :: "resolution_error + resolution_plan option \<Rightarrow> (string \<times> resolution_status \<times> string list \<times> bool) list" where
  \<comment> \<open>per entry: the id, the status, the version to import, whether it is blocked\<close>
  "summary_of r = (case r of
       Inr (Some p) \<Rightarrow> map (\<lambda>e. (e_dep e, e_status e, map wi_version (the_list (e_import e)), e_blocked e)) (plan_entries p)
     | _ \<Rightarrow> [])"

definition demo_set :: "server_plugin list" where
  "demo_set = [demo_plugin ''root'' [needs ''a'' ''>=2.0'', needs ''d'' '''', needs ''e'' '''']]"

lemma plugin_demo_run:
  "summary_of (resolve_closure cyclic_catalog ''fabric'' ''1.20'' demo_set) =
     [(''a'', Needs_Import, [''a2''], False), (''d'', Needs_Import, [''d1''], True), (''e'', Unresolvable, [], False),
      (''b'', Needs_Import, [''b1''], False), (''c'', Needs_Import, [''c1''], True)]"
  by code_simp

lemma summary_plan:
  assumes "summary_of r \<noteq> []"
  obtains plan where "r = Inr (Some plan)" "map e_blocked (plan_entries plan) = map (\<lambda>(d, s, v, b). b) (summary_of r)"
proof (cases r)
  case (Inr x)
  with assms that show ?thesis by (cases x) (simp_all add: summary_of_def comp_def)
qed (use assms in \<open>simp add: summary_of_def\<close>)

section \<open>Where code and documentation part\<close>

lemma break_range_ignored:
  \<comment> \<open>an installed plugin breaks \<open>a\<close> below 2.0 only: with \<open>a\<close> 3.0 installed there is no conflict, yet its import is blocked\<close>
  "conflicts (validate_plugin_set ''fabric'' ''1.20'' [demo_plugin ''guard'' [breaks ''a'' ''<2.0''], demo_plugin ''a'' []]) = []
 \<and> hd (summary_of (resolve_closure cyclic_catalog ''fabric'' ''1.20'' [demo_plugin ''guard'' [needs ''a'' '''', breaks ''a'' ''<2.0'']]))
   = (''a'', Needs_Import, [''a2''], True)"
  by (intro conjI; code_simp)

definition aliased_catalog :: catalog where
  \<comment> \<open>the slug of a project is not its id\<close>
  "aliased_catalog = cyclic_catalog\<lparr>get_project := \<lambda>i. Inr \<lparr>p_id = i, p_slug = i @ ''-mod''\<rparr>\<rparr>"

definition needs_project :: "string \<Rightarrow> dep_edge" where
  "needs_project t = [(''mod_identifier'', JStr t), (''required'', JBool True), (''project_id'', JStr t)]"

lemma aliased_import_unblocked:
  \<comment> \<open>an installed plugin breaks \<open>a\<close>, and the import required as \<open>a\<close> stays unblocked under its slug \<open>a-mod\<close>\<close>
  "hd (summary_of (resolve_closure aliased_catalog ''fabric'' ''1.20''
        [demo_plugin ''guard'' [breaks ''a'' ''''], demo_plugin ''root'' [needs_project ''a'']]))
   = (''a'', Needs_Import, [''a2''], False)"
  by code_simp

lemma orphan_cycle_kept:
  \<comment> \<open>\<open>b\<close> and \<open>c\<close> are in the closure only because the blocked \<open>a\<close> requires \<open>b\<close>, and stay unblocked\<close>
  "summary_of (resolve_closure cyclic_catalog ''fabric'' ''1.20'' [demo_plugin ''guard'' [needs ''a'' '''', breaks ''a'' '''']]) =
     [(''a'', Needs_Import, [''a2''], True), (''b'', Needs_Import, [''b1''], False), (''c'', Needs_Import, [''c1''], False)]"
  by code_simp

lemma build_metadata_in_x_range:
  \<comment> \<open>build metadata is ignored by every comparison but the wildcard one\<close>
  "version_satisfies ''2.0+1.20'' ''2.0'' ''fabric'' \<and> compare_versions ''2.0+1.20'' ''2.0'' = 0
 \<and> version_satisfies ''2.0'' ''2.0.x'' ''fabric'' \<and> \<not> version_satisfies ''2.0+1.20'' ''2.0.x'' ''fabric''"
  by code_simp

section \<open>Witnesses\<close>

definition demo_versions :: "catalog_version list" where
  "demo_versions = [demo_version ''v1'' ''1.9'' [], demo_version ''v2'' ''3.0'' [], demo_version ''v3'' ''3.0.0'' []]"

theorem newest_compatible_version_picked_witness:
  "select_import_version demo_versions ''>=2.0'' ''fabric'' = Some (demo_version ''v3'' ''3.0.0'' [])
 \<and> version_satisfies (v_number (demo_version ''v3'' ''3.0.0'' [])) ''>=2.0'' ''fabric''"
proof -
  have d: "distinct (map v_id demo_versions)" by code_simp
  have s: "select_import_version demo_versions ''>=2.0'' ''fabric'' = Some (demo_version ''v3'' ''3.0.0'' [])" by code_simp
  note newest_compatible_version_picked [OF d, THEN conjunct1, THEN iffD1, OF s]
  then have "version_satisfies (v_number (demo_version ''v3'' ''3.0.0'' [])) ''>=2.0'' ''fabric''" by (elim conjE)
  with s show ?thesis by (rule conjI)
qed

theorem resolution_terminates_witness:
  "\<exists>plan. resolve_closure cyclic_catalog ''fabric'' ''1.20'' demo_set = Inr (Some plan)
     \<and> distinct (map e_dep (plan_entries plan)) \<and> list_all (\<lambda>e. e_depth e \<le> 10) (plan_entries plan)"
proof -
  have "modrinth_loader_for_server_type ''fabric'' = Inr ''fabric''" by code_simp
  from resolution_terminates [OF this, of cyclic_catalog "''1.20''" demo_set] show ?thesis
    unfolding list_all_iff by blast
qed

theorem live_plan_is_safe_witness:
  "\<exists>plan. resolve_closure cyclic_catalog ''fabric'' ''1.20'' demo_set = Inr (Some plan)
     \<and> filter (slug_clashes demo_set (declared_incompatible (context_of cyclic_catalog ''fabric'' ''fabric'' ''1.20'' demo_set) demo_set (plan_entries plan))
              (live (plan_entries plan))) (live (plan_entries plan)) = []
     \<and> map e_blocked (plan_entries plan) = [False, True, False, False, True]"
proof -
  have l: "modrinth_loader_for_server_type ''fabric'' = Inr ''fabric''" by code_simp
  have "summary_of (resolve_closure cyclic_catalog ''fabric'' ''1.20'' demo_set) \<noteq> []" by (simp add: plugin_demo_run)
  from summary_plan [OF this] obtain plan where p: "resolve_closure cyclic_catalog ''fabric'' ''1.20'' demo_set = Inr (Some plan)"
    "map e_blocked (plan_entries plan) = [False, True, False, False, True]" unfolding plugin_demo_run list.map prod.case .
  note live_plan_is_safe [OF l p(1), THEN conjunct1]
  then have "\<forall>e \<in> set (live (plan_entries plan)).
      \<not> slug_clashes demo_set (declared_incompatible (context_of cyclic_catalog ''fabric'' ''fabric'' ''1.20'' demo_set) demo_set (plan_entries plan))
          (live (plan_entries plan)) e" by fast
  then have "filter (slug_clashes demo_set (declared_incompatible (context_of cyclic_catalog ''fabric'' ''fabric'' ''1.20'' demo_set) demo_set (plan_entries plan))
      (live (plan_entries plan))) (live (plan_entries plan)) = []" by (simp only: filter_empty_conv)
  with p show ?thesis by (intro exI conjI)
qed

end
