(* ===== verification/Schedule.thy ===== *)
theory Schedule
  imports Server_Repo
begin

text \<open>
  The general scheduler's data (\<open>servers/domain/schedule.py\<close>), its tables
  (\<open>servers/adapters/schedule_repository.py\<close>) and its CRUD use cases (\<open>servers/application/schedules.py\<close>).
  A row of the \<open>schedule\<close> table is kept with its payload decoded; a row that the entity refuses is a row all the
  same, which the readers skip and the runner's polls quarantine. Parameters of the model: the cron engine
  (\<open>validate_cron\<close>, \<open>next_after\<close>), the zone database (\<open>known_zone\<close>), the first eight bytes of the SHA-256
  digest of an id (\<open>digest8\<close>) and the permission decision of the edge (\<open>authorize\<close>).
\<close>

section \<open>Schedules\<close>

datatype schedule_action = COMMAND | START | STOP | RESTART | BACKUP

datatype run_outcome = SUCCESS | FAILURE | SKIPPED

datatype schedule_error =
    InvalidScheduleCadenceError
  | InvalidScheduleError
  | InvalidScheduleNameError
  | InvalidSchedulePayloadError
  | InvalidScheduleTimezoneError
  | InvalidCronExpressionError
  | ScheduleServerNotFoundError
  | ScheduleNotFoundError
  | ScheduleNameAlreadyExistsError
  | PermissionDeniedError string

record cadence =
  cron :: "string option"
  interval_seconds :: "int option"

record warning_step =
  offset_minutes :: int
  warn_message :: string

record schedule =
  sch_id :: uuid
  sch_server :: server_id
  sch_name :: string
  sch_action :: schedule_action
  sch_cadence :: cadence
  sch_enabled :: bool
  sch_created :: instant
  sch_updated :: instant
  timezone :: string
  sch_command :: "string option"
  warning_steps :: "warning_step list"
  only_when_running :: "bool option"
  next_run_at :: "instant option"
  last_run_at :: "instant option"
  created_by :: "uuid option"

record schedule_run =
  run_id :: uuid
  run_schedule :: uuid
  started_at :: instant
  finished_at :: instant
  run_outcome :: run_outcome
  run_detail :: "string option"

definition MAX_WARNING_STEPS :: nat where
  "MAX_WARNING_STEPS = 5"

definition MAX_WARNING_OFFSET_MINUTES :: int where
  "MAX_WARNING_OFFSET_MINUTES = 120"

definition WARNING_COMMAND_PREFIX :: string where
  "WARNING_COMMAND_PREFIX = ''say ''"

definition MAX_WARNING_MESSAGE_BYTES :: nat where
  "MAX_WARNING_MESSAGE_BYTES = MAX_CONSOLE_LINE_BYTES - length WARNING_COMMAND_PREFIX"

definition MIN_INTERVAL_SECONDS :: int where
  "MIN_INTERVAL_SECONDS = 60"

definition mk_cadence :: "string option \<Rightarrow> int option \<Rightarrow> schedule_error + cadence" where
  "mk_cadence c i =
     (if (c = None) = (i = None) then Inl InvalidScheduleCadenceError
      else if (case c of None \<Rightarrow> False | Some e \<Rightarrow> strip e = []) then Inl InvalidScheduleCadenceError
      else if (case i of None \<Rightarrow> False | Some n \<Rightarrow> n < MIN_INTERVAL_SECONDS) then Inl InvalidScheduleCadenceError
      else Inr \<lparr>cron = c, interval_seconds = i\<rparr>)"

definition single_line :: "string \<Rightarrow> bool" where
  "single_line s \<longleftrightarrow> CHR 0x0A \<notin> set s \<and> CHR 0x0D \<notin> set s"

definition mk_warning_step :: "int \<Rightarrow> string \<Rightarrow> schedule_error + warning_step" where
  "mk_warning_step offset msg =
     (if offset < 1 \<or> offset > MAX_WARNING_OFFSET_MINUTES then Inl InvalidSchedulePayloadError
      else if strip msg = [] then Inl InvalidSchedulePayloadError
      else if \<not> single_line msg then Inl InvalidSchedulePayloadError
      else Inr \<lparr>offset_minutes = offset, warn_message = msg\<rparr>)"

definition validate_payload :: "schedule \<Rightarrow> schedule_error + schedule" where
  "validate_payload s =
     (if sch_action s = COMMAND \<and> (case sch_command s of None \<Rightarrow> True | Some c \<Rightarrow> strip c = [] \<or> \<not> single_line c)
      then Inl InvalidSchedulePayloadError
      else if sch_action s \<noteq> COMMAND \<and> sch_command s \<noteq> None then Inl InvalidSchedulePayloadError
      else if warning_steps s \<noteq> [] \<and> sch_action s \<notin> {STOP, RESTART} then Inl InvalidSchedulePayloadError
      else if sch_action s \<noteq> BACKUP \<and> only_when_running s \<noteq> None then Inl InvalidSchedulePayloadError
      else if length (warning_steps s) > MAX_WARNING_STEPS then Inl InvalidSchedulePayloadError
      else if \<not> distinct (map offset_minutes (warning_steps s)) then Inl InvalidSchedulePayloadError
      else Inr (if sch_action s = BACKUP \<and> only_when_running s = None then s\<lparr>only_when_running := Some True\<rparr> else s))"

definition mk_schedule :: "(string \<Rightarrow> bool) \<Rightarrow> schedule \<Rightarrow> schedule_error + schedule" where
  \<comment> \<open>\<open>Schedule.__post_init__\<close>\<close>
  "mk_schedule known_zone s =
     (let s' = s\<lparr>sch_name := strip (sch_name s)\<rparr>
      in if sch_name s' = [] then Inl InvalidScheduleNameError
         else if \<not> known_zone (timezone s') then Inl InvalidScheduleTimezoneError
         else case validate_payload s' of
                Inl e \<Rightarrow> Inl e
              | Inr s2 \<Rightarrow> if \<not> sch_enabled s2 \<and> next_run_at s2 \<noteq> None then Inl InvalidScheduleError else Inr s2)"

section \<open>The interval grid\<close>

definition jitter_us :: "nat \<Rightarrow> int \<Rightarrow> int" where
  \<comment> \<open>\<open>round(interval_jitter_seconds(...) * 1_000_000)\<close>, in double precision\<close>
  "jitter_us digest interval =
     int (fl_round (fl_mul (fl_mul (fl_mul (fl_div_pow2 digest 64) (fl_of_int (nat interval))) fl_tenth) (fl_of_int 1000000)))"

definition next_interval_run :: "nat \<Rightarrow> int \<Rightarrow> instant \<Rightarrow> instant" where
  "next_interval_run digest interval after =
     (let interval_us = interval * 1000000;
          k = (after - jitter_us digest interval) div interval_us + 1
      in k * interval_us + jitter_us digest interval)"

record calendar =
  \<comment> \<open>the cron engine and the digests of ids\<close>
  validate_cron :: "string \<Rightarrow> bool"
  next_after :: "string \<Rightarrow> string \<Rightarrow> instant \<Rightarrow> instant"
  digest8 :: "uuid \<Rightarrow> nat"
  known_zone :: "string \<Rightarrow> bool"

definition next_run :: "calendar \<Rightarrow> schedule \<Rightarrow> instant \<Rightarrow> instant" where
  "next_run cal s now =
     (case cron (sch_cadence s) of
        Some e \<Rightarrow> next_after cal e (timezone s) now
      | None \<Rightarrow> (case interval_seconds (sch_cadence s) of
            Some i \<Rightarrow> next_interval_run (digest8 cal (sch_id s)) i now
          | None \<Rightarrow> now))"

section \<open>The tables\<close>

record sched_db =
  sched_rows :: "schedule list"
  run_rows :: "schedule_run list"

definition hydrate :: "(string \<Rightarrow> bool) \<Rightarrow> schedule \<Rightarrow> schedule option" where
  \<comment> \<open>\<open>_to_schedule\<close>, a refused row being \<open>None\<close>\<close>
  "hydrate zone r =
     (if list_all (\<lambda>w. \<not> isl (mk_warning_step (offset_minutes w) (warn_message w))) (warning_steps r)
      then (case mk_cadence (cron (sch_cadence r)) (interval_seconds (sch_cadence r)) of
              Inl _ \<Rightarrow> None
            | Inr _ \<Rightarrow> (case mk_schedule zone r of Inl _ \<Rightarrow> None | Inr s \<Rightarrow> Some s))
      else None)"

definition safe_hydrate :: "(string \<Rightarrow> bool) \<Rightarrow> schedule list \<Rightarrow> schedule list \<times> uuid list" where
  "safe_hydrate zone rs =
     (concat (map (\<lambda>r. case hydrate zone r of None \<Rightarrow> [] | Some s \<Rightarrow> [s]) rs),
      map sch_id (filter (\<lambda>r. hydrate zone r = None) rs))"

definition row_of :: "sched_db \<Rightarrow> uuid \<Rightarrow> schedule option" where
  "row_of db i = find (\<lambda>r. sch_id r = i) (sched_rows db)"

definition sch_get_by_id :: "(string \<Rightarrow> bool) \<Rightarrow> sched_db \<Rightarrow> uuid \<Rightarrow> schedule option" where
  "sch_get_by_id zone db i = (case row_of db i of None \<Rightarrow> None | Some r \<Rightarrow> hydrate zone r)"

definition sch_lock :: "(string \<Rightarrow> bool) \<Rightarrow> sched_db \<Rightarrow> uuid \<Rightarrow> schedule option" where
  \<comment> \<open>the row lock makes the read wait for a write in flight\<close>
  "sch_lock zone db i = sch_get_by_id zone db i"

definition get_ref :: "sched_db \<Rightarrow> uuid \<Rightarrow> (server_id \<times> schedule_action) option" where
  "get_ref db i = map_option (\<lambda>r. (sch_server r, sch_action r)) (row_of db i)"

definition update_rows :: "sched_db \<Rightarrow> (schedule \<Rightarrow> bool) \<Rightarrow> (schedule \<Rightarrow> schedule) \<Rightarrow> sched_db" where
  "update_rows db p f = db\<lparr>sched_rows := map (\<lambda>r. if p r then f r else r) (sched_rows db)\<rparr>"

definition quarantine :: "sched_db \<Rightarrow> uuid list \<Rightarrow> sched_db" where
  "quarantine db ids =
     update_rows db (\<lambda>r. sch_id r \<in> set ids \<and> sch_enabled r) (\<lambda>r. r\<lparr>sch_enabled := False, next_run_at := None\<rparr>)"

definition due_order :: "schedule \<Rightarrow> instant \<times> uuid" where
  "due_order r = (case next_run_at r of None \<Rightarrow> 0 | Some t \<Rightarrow> t, sch_id r)"

definition poll :: "(string \<Rightarrow> bool) \<Rightarrow> sched_db \<Rightarrow> (schedule \<Rightarrow> bool) \<Rightarrow> schedule list \<times> sched_db" where
  \<comment> \<open>a poll of the runner: the hydrated rows in due order, the others quarantined\<close>
  "poll zone db p =
     (let (found, failed) = safe_hydrate zone (sort_key due_order (filter p (sched_rows db)))
      in (found, if failed = [] then db else quarantine db failed))"

definition list_due :: "(string \<Rightarrow> bool) \<Rightarrow> sched_db \<Rightarrow> instant \<Rightarrow> schedule list \<times> sched_db" where
  "list_due zone db now =
     poll zone db (\<lambda>r. sch_enabled r \<and> (case next_run_at r of None \<Rightarrow> False | Some t \<Rightarrow> t \<le> now))"

definition list_warning_candidates :: "(string \<Rightarrow> bool) \<Rightarrow> sched_db \<Rightarrow> instant \<Rightarrow> instant \<Rightarrow> schedule list \<times> sched_db" where
  "list_warning_candidates zone db now until =
     poll zone db (\<lambda>r. sch_enabled r \<and> sch_action r \<in> {STOP, RESTART}
        \<and> (case next_run_at r of None \<Rightarrow> False | Some t \<Rightarrow> t > now \<and> t \<le> until))"

definition list_for_server :: "(string \<Rightarrow> bool) \<Rightarrow> sched_db \<Rightarrow> server_id \<Rightarrow> schedule list" where
  "list_for_server zone db srv =
     fst (safe_hydrate zone (sort_key sch_name (filter (\<lambda>r. sch_server r = srv) (sched_rows db))))"

definition name_taken :: "sched_db \<Rightarrow> schedule \<Rightarrow> bool" where
  \<comment> \<open>the unique constraint \<open>uq_schedule_server_id_name\<close>\<close>
  "name_taken db s \<longleftrightarrow> list_ex (\<lambda>r. sch_server r = sch_server s \<and> sch_name r = sch_name s \<and> sch_id r \<noteq> sch_id s) (sched_rows db)"

definition sch_add :: "sched_db \<Rightarrow> schedule \<Rightarrow> schedule_error + sched_db" where
  "sch_add db s = (if name_taken db s then Inl ScheduleNameAlreadyExistsError
                   else Inr (db\<lparr>sched_rows := sched_rows db @ [s]\<rparr>))"

definition sch_update :: "sched_db \<Rightarrow> schedule \<Rightarrow> schedule_error + sched_db" where
  \<comment> \<open>every mutable column is written; a missing id matches no row\<close>
  "sch_update db s =
     (if name_taken db s \<and> row_of db (sch_id s) \<noteq> None then Inl ScheduleNameAlreadyExistsError
      else Inr (update_rows db (\<lambda>r. sch_id r = sch_id s)
             (\<lambda>r. s\<lparr>sch_id := sch_id r, sch_server := sch_server r, sch_created := sch_created r, created_by := created_by r\<rparr>)))"

definition advance_run_state :: "sched_db \<Rightarrow> uuid \<Rightarrow> instant \<Rightarrow> instant \<Rightarrow> instant option \<Rightarrow> sched_db" where
  "advance_run_state db i fired nxt ended =
     update_rows db (\<lambda>r. sch_id r = i \<and> sch_enabled r \<and> next_run_at r = Some fired)
       (\<lambda>r. r\<lparr>next_run_at := Some nxt, last_run_at := ended\<rparr>)"

definition sch_delete :: "sched_db \<Rightarrow> uuid \<Rightarrow> sched_db" where
  \<comment> \<open>the runs go with the row\<close>
  "sch_delete db i = db\<lparr>sched_rows := filter (\<lambda>r. sch_id r \<noteq> i) (sched_rows db),
                        run_rows := filter (\<lambda>x. run_schedule x \<noteq> i) (run_rows db)\<rparr>"

definition newest_first :: "schedule_run list \<Rightarrow> schedule_run list" where
  "newest_first rs = rev (sort_key (\<lambda>r. (started_at r, run_id r)) rs)"

definition list_for_schedule :: "sched_db \<Rightarrow> uuid \<Rightarrow> schedule_run list" where
  "list_for_schedule db i = newest_first (filter (\<lambda>r. run_schedule r = i) (run_rows db))"

definition run_add :: "sched_db \<Rightarrow> schedule_run \<Rightarrow> sched_db" where
  "run_add db r = db\<lparr>run_rows := run_rows db @ [r]\<rparr>"

definition prune_for_schedule :: "sched_db \<Rightarrow> uuid \<Rightarrow> nat \<Rightarrow> sched_db" where
  "prune_for_schedule db i keep =
     (let stale = map run_id (drop keep (list_for_schedule db i))
      in db\<lparr>run_rows := filter (\<lambda>r. run_id r \<notin> set stale) (run_rows db)\<rparr>)"

section \<open>The use cases\<close>

definition try_then :: "'e + 'a \<Rightarrow> ('a \<Rightarrow> 'e + 'b) \<Rightarrow> 'e + 'b" where
  \<comment> \<open>an exception ends the transaction, which rolls back\<close>
  "try_then x f = (case x of Inl e \<Rightarrow> Inl e | Inr v \<Rightarrow> f v)"

definition SCHEDULE_MANAGE_PERMISSION :: string where
  "SCHEDULE_MANAGE_PERMISSION = ''schedule:manage''"

fun action_permission :: "schedule_action \<Rightarrow> string" where
  "action_permission COMMAND = ''server:command''"
| "action_permission START = ''server:start''"
| "action_permission STOP = ''server:stop''"
| "action_permission RESTART = ''server:restart''"
| "action_permission BACKUP = ''backup:schedule''"

definition authorize_write :: "(string \<Rightarrow> bool) \<Rightarrow> schedule_action \<Rightarrow> schedule_error + unit" where
  "authorize_write authorize action =
     (if \<not> authorize SCHEDULE_MANAGE_PERMISSION then Inl (PermissionDeniedError SCHEDULE_MANAGE_PERMISSION)
      else if \<not> authorize (action_permission action) then Inl (PermissionDeniedError (action_permission action))
      else Inr ())"

definition require_server :: "table \<Rightarrow> community_id \<Rightarrow> server_id \<Rightarrow> schedule_error + unit" where
  "require_server tbl com srv =
     (case get_by_id tbl srv of
        None \<Rightarrow> Inl ScheduleServerNotFoundError
      | Some s \<Rightarrow> if s_community s \<noteq> com then Inl ScheduleServerNotFoundError else Inr ())"

definition load_schedule ::
  "(string \<Rightarrow> bool) \<Rightarrow> table \<Rightarrow> sched_db \<Rightarrow> community_id \<Rightarrow> server_id \<Rightarrow> uuid \<Rightarrow> schedule_error + schedule" where
  "load_schedule zone tbl db com srv i =
     (case require_server tbl com srv of
        Inl e \<Rightarrow> Inl e
      | Inr _ \<Rightarrow> (case sch_get_by_id zone db i of
            None \<Rightarrow> Inl ScheduleNotFoundError
          | Some s \<Rightarrow> if sch_server s \<noteq> srv then Inl ScheduleNotFoundError else Inr s))"

definition load_schedule_ref ::
  "table \<Rightarrow> sched_db \<Rightarrow> community_id \<Rightarrow> server_id \<Rightarrow> uuid \<Rightarrow> schedule_error + schedule_action" where
  "load_schedule_ref tbl db com srv i =
     (case require_server tbl com srv of
        Inl e \<Rightarrow> Inl e
      | Inr _ \<Rightarrow> (case get_ref db i of
            None \<Rightarrow> Inl ScheduleNotFoundError
          | Some (owner, action) \<Rightarrow> if owner \<noteq> srv then Inl ScheduleNotFoundError else Inr action))"

definition ensure_unique_name :: "(string \<Rightarrow> bool) \<Rightarrow> sched_db \<Rightarrow> server_id \<Rightarrow> string \<Rightarrow> uuid option \<Rightarrow> schedule_error + unit" where
  "ensure_unique_name zone db srv nm exclude =
     (if list_ex (\<lambda>r. sch_name r = nm \<and> Some (sch_id r) \<noteq> exclude) (list_for_server zone db srv)
      then Inl ScheduleNameAlreadyExistsError else Inr ())"

fun mk_warning_steps :: "(int \<times> string) list \<Rightarrow> schedule_error + warning_step list" where
  "mk_warning_steps [] = Inr []"
| "mk_warning_steps ((offset, msg) # ws) =
     (case mk_warning_step offset msg of
        Inl e \<Rightarrow> Inl e
      | Inr w \<Rightarrow> (case mk_warning_steps ws of Inl e \<Rightarrow> Inl e | Inr rest \<Rightarrow> Inr (w # rest)))"

definition validate_warning_offsets :: "schedule \<Rightarrow> schedule_error + unit" where
  "validate_warning_offsets s =
     (case interval_seconds (sch_cadence s) of
        None \<Rightarrow> Inr ()
      | Some interval \<Rightarrow>
          if list_ex (\<lambda>w. offset_minutes w * 60 \<ge> interval) (warning_steps s) then Inl InvalidSchedulePayloadError else Inr ())"

definition checked_cadence :: "calendar \<Rightarrow> string option \<Rightarrow> int option \<Rightarrow> schedule_error + cadence" where
  "checked_cadence cal c i =
     (case mk_cadence c i of
        Inl e \<Rightarrow> Inl e
      | Inr cd \<Rightarrow> (case cron cd of
            Some e \<Rightarrow> if validate_cron cal e then Inr cd else Inl InvalidCronExpressionError
          | None \<Rightarrow> Inr cd))"

record schedule_input =
  in_name :: string
  in_cron :: "string option"
  in_interval :: "int option"
  in_timezone :: string
  in_enabled :: bool
  in_command :: "string option"
  in_warnings :: "(int \<times> string) list option"
  in_only_when_running :: "bool option"
  in_created_by :: "uuid option"

definition given_warnings :: "(int \<times> string) list option \<Rightarrow> schedule_error + warning_step list" where
  "given_warnings w = (case w of None \<Rightarrow> Inr [] | Some ws \<Rightarrow> mk_warning_steps ws)"

definition with_next_run :: "calendar \<Rightarrow> schedule \<Rightarrow> instant \<Rightarrow> schedule_error + schedule" where
  \<comment> \<open>the due instant of an enabled schedule\<close>
  "with_next_run cal s now =
     (if sch_enabled s then mk_schedule (known_zone cal) (s\<lparr>next_run_at := Some (next_run cal s now)\<rparr>) else Inr s)"

definition create_schedule ::
  "calendar \<Rightarrow> (string \<Rightarrow> bool) \<Rightarrow> table \<Rightarrow> sched_db \<Rightarrow> instant \<Rightarrow> uuid \<Rightarrow> community_id \<Rightarrow> server_id \<Rightarrow> schedule_action
     \<Rightarrow> schedule_input \<Rightarrow> schedule_error + (schedule \<times> sched_db)" where
  "create_schedule cal authorize tbl db now i com srv action inp =
     try_then (require_server tbl com srv) (\<lambda>_.
     try_then (authorize_write authorize action) (\<lambda>_.
     try_then (checked_cadence cal (in_cron inp) (in_interval inp)) (\<lambda>cd.
     try_then (given_warnings (in_warnings inp)) (\<lambda>steps.
     try_then (mk_schedule (known_zone cal)
        \<lparr>sch_id = i, sch_server = srv, sch_name = in_name inp, sch_action = action, sch_cadence = cd,
         sch_enabled = in_enabled inp, sch_created = now, sch_updated = now, timezone = in_timezone inp,
         sch_command = in_command inp, warning_steps = steps, only_when_running = in_only_when_running inp,
         next_run_at = None, last_run_at = None, created_by = in_created_by inp\<rparr>) (\<lambda>s.
     try_then (validate_warning_offsets s) (\<lambda>_.
     try_then (ensure_unique_name (known_zone cal) db srv (sch_name s) None) (\<lambda>_.
     try_then (with_next_run cal s now) (\<lambda>s'.
     try_then (sch_add db s') (\<lambda>db'. Inr (s', db'))))))))))"

record schedule_patch =
  p_name :: "string option"
  p_cron :: "string option"
  p_interval :: "int option"
  p_timezone :: "string option"
  p_enabled :: "bool option"
  p_command :: "string option"
  p_warnings :: "(int \<times> string) list option"
  p_only_when_running :: "bool option"

definition or_else :: "'a option \<Rightarrow> 'a \<Rightarrow> 'a" where
  \<comment> \<open>the patched field, or the current one\<close>
  "or_else x d = (case x of None \<Rightarrow> d | Some v \<Rightarrow> v)"

definition update_schedule_plan ::
  "calendar \<Rightarrow> (string \<Rightarrow> bool) \<Rightarrow> table \<Rightarrow> sched_db \<Rightarrow> instant \<Rightarrow> community_id \<Rightarrow> server_id \<Rightarrow> uuid \<Rightarrow> schedule_patch
     \<Rightarrow> schedule_error + schedule" where
  \<comment> \<open>\<open>UpdateSchedule\<close> up to its write: the row it read, patched\<close>
  "update_schedule_plan cal authorize tbl db now com srv i p =
     try_then (load_schedule (known_zone cal) tbl db com srv i) (\<lambda>existing.
     try_then (authorize_write authorize (sch_action existing)) (\<lambda>_.
     try_then (if p_cron p \<noteq> None \<or> p_interval p \<noteq> None then checked_cadence cal (p_cron p) (p_interval p)
               else Inr (sch_cadence existing)) (\<lambda>cd.
     try_then (case p_warnings p of None \<Rightarrow> Inr (warning_steps existing) | Some ws \<Rightarrow> mk_warning_steps ws) (\<lambda>steps.
     try_then (mk_schedule (known_zone cal)
        (existing\<lparr>sch_name := or_else (p_name p) (sch_name existing), sch_cadence := cd,
                  timezone := or_else (p_timezone p) (timezone existing),
                  sch_enabled := or_else (p_enabled p) (sch_enabled existing),
                  sch_command := (if p_command p = None then sch_command existing else p_command p),
                  warning_steps := steps,
                  only_when_running := (if p_only_when_running p = None then only_when_running existing else p_only_when_running p),
                  next_run_at := None, sch_updated := now\<rparr>)) (\<lambda>updated.
     try_then (validate_warning_offsets updated) (\<lambda>_.
     try_then (if sch_name updated \<noteq> sch_name existing
               then ensure_unique_name (known_zone cal) db srv (sch_name updated) (Some i) else Inr ()) (\<lambda>_.
     with_next_run cal updated now)))))))"

definition update_schedule ::
  "calendar \<Rightarrow> (string \<Rightarrow> bool) \<Rightarrow> table \<Rightarrow> sched_db \<Rightarrow> instant \<Rightarrow> community_id \<Rightarrow> server_id \<Rightarrow> uuid \<Rightarrow> schedule_patch
     \<Rightarrow> schedule_error + (schedule \<times> sched_db)" where
  \<comment> \<open>with no other transaction between its read and its write\<close>
  "update_schedule cal authorize tbl db now com srv i p =
     try_then (update_schedule_plan cal authorize tbl db now com srv i p) (\<lambda>updated.
     try_then (sch_update db updated) (\<lambda>db'. Inr (updated, db')))"

definition delete_schedule ::
  "(string \<Rightarrow> bool) \<Rightarrow> table \<Rightarrow> sched_db \<Rightarrow> community_id \<Rightarrow> server_id \<Rightarrow> uuid \<Rightarrow> schedule_error + sched_db" where
  "delete_schedule authorize tbl db com srv i =
     try_then (load_schedule_ref tbl db com srv i) (\<lambda>action.
     try_then (authorize_write authorize action) (\<lambda>_. Inr (sch_delete db i)))"

definition list_schedules :: "(string \<Rightarrow> bool) \<Rightarrow> table \<Rightarrow> sched_db \<Rightarrow> community_id \<Rightarrow> server_id \<Rightarrow> schedule_error + schedule list" where
  "list_schedules zone tbl db com srv = try_then (require_server tbl com srv) (\<lambda>_. Inr (list_for_server zone db srv))"

definition list_schedule_runs ::
  "(string \<Rightarrow> bool) \<Rightarrow> table \<Rightarrow> sched_db \<Rightarrow> community_id \<Rightarrow> server_id \<Rightarrow> uuid \<Rightarrow> schedule_error + schedule_run list" where
  "list_schedule_runs zone tbl db com srv i =
     try_then (load_schedule zone tbl db com srv i) (\<lambda>_. Inr (list_for_schedule db i))"

definition PREVIEW_COUNT :: nat where
  "PREVIEW_COUNT = 5"

primrec preview_from :: "calendar \<Rightarrow> cadence \<Rightarrow> string \<Rightarrow> nat \<Rightarrow> instant \<Rightarrow> instant list" where
  "preview_from cal cd tz 0 after = []"
| "preview_from cal cd tz (Suc n) after =
     (let nxt = (case cron cd of
            Some e \<Rightarrow> next_after cal e tz after
          | None \<Rightarrow> after + (case interval_seconds cd of Some i \<Rightarrow> i | None \<Rightarrow> 0) * 1000000)
      in nxt # preview_from cal cd tz n nxt)"

definition preview_schedule :: "calendar \<Rightarrow> instant \<Rightarrow> string option \<Rightarrow> int option \<Rightarrow> string \<Rightarrow> schedule_error + instant list" where
  "preview_schedule cal now c i tz =
     try_then (checked_cadence cal c i) (\<lambda>cd.
       if \<not> known_zone cal tz then Inl InvalidScheduleTimezoneError else Inr (preview_from cal cd tz PREVIEW_COUNT now))"

end
