(* ===== verification/Schedule_Runner.thy ===== *)
theory Schedule_Runner
  imports Schedule
begin

text \<open>
  The runner of the scheduler (\<open>servers/application/schedule_runner.py\<close>): the execution of one action with
  its classification, and one tick. A tick is a set of tasks whose transactions interleave with each other and
  with the use cases of \<open>Schedule\<close>; each transaction and each stretch of code between two awaits is one
  definition here. The outcome of the dispatched use case, the identifiers drawn and the readings of the clock
  are arguments. \<open>runner_event\<close> records what leaves the runner.
\<close>

section \<open>One action\<close>

datatype action_error =
    Raised server_error
  | BackupUnsettledError
  | BackupCorruptError
  | BackupStorageUnavailableError
  | OtherServerError
  | UnexpectedError string bool \<comment> \<open>the class name and whether it comes from the storage client\<close>

datatype dispatch_call = SendCommand string | StartCall | StopCall | RestartCall | BackupCall

record action_result =
  ar_outcome :: run_outcome
  ar_detail :: "string option"
  ar_community :: "community_id option"
  ar_retryable :: bool

definition is_running :: "server \<Rightarrow> bool" where
  "is_running s \<longleftrightarrow> desired s = RUNNING \<and> observed s = ORunning \<and> assigned s \<noteq> None"

definition precondition_skip :: "server \<Rightarrow> schedule_action \<Rightarrow> bool option \<Rightarrow> string option" where
  "precondition_skip s action owr =
     (if action = START then (if is_at_rest s then None else Some ''server not stopped'')
      else if action = BACKUP then
        (if is_running s then None
         else if is_at_rest s then (if owr = Some True then Some ''server not running'' else None)
         else Some ''server transitional'')
      else if is_running s then None else Some ''server not running'')"

fun skip_detail :: "action_error \<Rightarrow> string option" where
  \<comment> \<open>the reason of an error that means the precondition changed, \<open>None\<close> for any other error\<close>
  "skip_detail (Raised ServerNotRunningError) = Some ''server not running''"
| "skip_detail BackupUnsettledError = Some ''server transitional''"
| "skip_detail (Raised InvalidLifecycleTransitionError) = Some ''precondition changed''"
| "skip_detail (Raised LifecycleTransitionConflictError) = Some ''precondition changed''"
| "skip_detail _ = None"

definition contains_timeout :: "string \<Rightarrow> bool" where
  "contains_timeout nm \<longleftrightarrow> list_ex (\<lambda>i. take 7 (drop i nm) = ''Timeout'') [0..<length nm]"

definition unexpected_detail :: "string \<Rightarrow> bool \<Rightarrow> string" where
  "unexpected_detail nm storage =
     (if storage then (if contains_timeout nm then ''storage timeout'' else ''storage error'') else nm)"

fun failure_detail :: "action_error \<Rightarrow> string" where
  "failure_detail (Raised (CommandDispatchError d reason)) =
     (case reason of Some (c # cs) \<Rightarrow> c # cs | _ \<Rightarrow> ''dispatch failed'')"
| "failure_detail (Raised (WorkerUnavailableError b)) = ''worker unavailable''"
| "failure_detail (Raised NoEligibleWorkerError) = ''no eligible worker''"
| "failure_detail BackupCorruptError = ''backup corrupt''"
| "failure_detail BackupStorageUnavailableError = ''storage unavailable''"
| "failure_detail (Raised (PortFailure nm)) = nm"
| "failure_detail (UnexpectedError nm storage) = unexpected_detail nm storage"
| "failure_detail _ = ''action failed''"

definition dispatch_of :: "schedule \<Rightarrow> dispatch_call" where
  "dispatch_of s = (case sch_action s of
       COMMAND \<Rightarrow> SendCommand (case sch_command s of Some c \<Rightarrow> c | None \<Rightarrow> [])
     | START \<Rightarrow> StartCall | STOP \<Rightarrow> StopCall | RESTART \<Rightarrow> RestartCall | BACKUP \<Rightarrow> BackupCall)"

definition skipped_result :: "string \<Rightarrow> community_id option \<Rightarrow> action_result" where
  "skipped_result reason com = \<lparr>ar_outcome = SKIPPED, ar_detail = Some reason, ar_community = com, ar_retryable = True\<rparr>"

definition before_dispatch :: "table \<Rightarrow> schedule \<Rightarrow> action_result + server" where
  \<comment> \<open>the result when nothing is dispatched, or the server to act on\<close>
  "before_dispatch tbl s =
     (case get_by_id tbl (sch_server s) of
        None \<Rightarrow> Inl (skipped_result ''server not found'' None)
      | Some srv \<Rightarrow>
          (case precondition_skip srv (sch_action s) (only_when_running s) of
             Some reason \<Rightarrow> Inl (skipped_result reason (Some (s_community srv)))
           | None \<Rightarrow> Inr srv))"

definition settle_action :: "community_id \<Rightarrow> action_error option \<Rightarrow> action_result" where
  "settle_action com err =
     (case err of
        None \<Rightarrow> \<lparr>ar_outcome = SUCCESS, ar_detail = None, ar_community = Some com, ar_retryable = True\<rparr>
      | Some e \<Rightarrow>
          (case skip_detail e of
             Some reason \<Rightarrow> skipped_result reason (Some com)
           | None \<Rightarrow> \<lparr>ar_outcome = FAILURE, ar_detail = Some (failure_detail e), ar_community = Some com,
                       ar_retryable = (e \<noteq> BackupCorruptError)\<rparr>))"

definition execute_action :: "table \<Rightarrow> schedule \<Rightarrow> (dispatch_call \<Rightarrow> action_error option) \<Rightarrow> action_result" where
  \<comment> \<open>\<open>ExecuteScheduleAction\<close> with nothing in between\<close>
  "execute_action tbl s world =
     (case before_dispatch tbl s of Inl r \<Rightarrow> r | Inr srv \<Rightarrow> settle_action (s_community srv) (world (dispatch_of s)))"

section \<open>The runner's memory and what leaves it\<close>

record runner =
  backup_retry :: "(uuid, instant) dict"
  notifying :: "uuid list"
  warned :: "(uuid \<times> instant \<times> int) list"
  last_tick_at :: "instant option"

definition new_runner :: runner where
  "new_runner = \<lparr>backup_retry = [], notifying = [], warned = [], last_tick_at = None\<rparr>"

datatype toast = ScheduleFailed | ScheduleRecovered

datatype runner_event =
    Dispatched uuid "instant option" \<comment> \<open>the occurrence, \<open>None\<close> for a backup retry\<close>
  | Recorded uuid "instant option"
  | Audited uuid run_outcome
  | Toasted uuid toast
  | Forgot uuid
  | RetentionPruned server_id
  | WarningSent uuid instant int
  | Crashed uuid
  | Restarted

definition LATE_RUN_GRACE :: duration where
  "LATE_RUN_GRACE = 300 * 1000000"

definition WARNING_GRACE_FLOOR :: duration where
  "WARNING_GRACE_FLOOR = 60 * 1000000"

definition effective_warning_grace :: "duration \<Rightarrow> duration" where
  "effective_warning_grace tick = max WARNING_GRACE_FLOOR tick"

record runner_config =
  history_cap :: nat
  backup_retry_delay :: duration
  warning_grace :: duration
  prune_wired :: bool

definition is_stale :: "schedule \<Rightarrow> instant \<Rightarrow> instant option \<Rightarrow> bool" where
  "is_stale s now prev_tick =
     (case next_run_at s of
        None \<Rightarrow> False
      | Some t \<Rightarrow> \<not> (now - t \<le> LATE_RUN_GRACE) \<and> \<not> (case prev_tick of None \<Rightarrow> False | Some p \<Rightarrow> t > p))"

definition next_occurrence :: "calendar \<Rightarrow> schedule \<Rightarrow> instant \<Rightarrow> instant" where
  "next_occurrence cal s after =
     (case interval_seconds (sch_cadence s) of
        Some i \<Rightarrow> next_interval_run (digest8 cal (sch_id s)) i after
      | None \<Rightarrow> (case cron (sch_cadence s) of Some e \<Rightarrow> next_after cal e (timezone s) after | None \<Rightarrow> after))"

definition drop_memory :: "uuid \<Rightarrow> runner \<Rightarrow> runner" where
  \<comment> \<open>\<open>_forget\<close>\<close>
  "drop_memory i rn = rn\<lparr>notifying := removeAll i (notifying rn), backup_retry := dpop i (backup_retry rn)\<rparr>"

definition reschedule_retry :: "runner_config \<Rightarrow> uuid \<Rightarrow> action_result \<Rightarrow> instant \<Rightarrow> runner \<Rightarrow> runner" where
  "reschedule_retry cfg i r now rn =
     (if ar_outcome r = FAILURE \<and> ar_retryable r then rn\<lparr>backup_retry := dset i (now + backup_retry_delay cfg) (backup_retry rn)\<rparr>
      else if ar_outcome r = SUCCESS then rn\<lparr>backup_retry := dpop i (backup_retry rn)\<rparr>
      else rn)"

definition notify_outcome :: "uuid \<Rightarrow> run_outcome \<Rightarrow> runner \<Rightarrow> runner \<times> runner_event list" where
  \<comment> \<open>the audit entry and the edge-triggered notification\<close>
  "notify_outcome i oc rn =
     (case oc of
        SUCCESS \<Rightarrow> (if i \<in> set (notifying rn) then (rn\<lparr>notifying := removeAll i (notifying rn)\<rparr>, [Audited i SUCCESS, Toasted i ScheduleRecovered])
                    else (rn, [Audited i SUCCESS]))
      | FAILURE \<Rightarrow> (if i \<in> set (notifying rn) then (rn, [Audited i FAILURE])
                    else (rn\<lparr>notifying := i # notifying rn\<rparr>, [Audited i FAILURE, Toasted i ScheduleFailed]))
      | SKIPPED \<Rightarrow> (rn, []))"

definition record_rows ::
  "runner_config \<Rightarrow> calendar \<Rightarrow> sched_db \<Rightarrow> schedule \<Rightarrow> schedule_run \<Rightarrow> (instant \<times> instant option) option \<Rightarrow> bool \<times> sched_db" where
  \<comment> \<open>the transaction of \<open>_record\<close>: the reading of the clock and the \<open>last_run_at\<close> when the occurrence advances\<close>
  "record_rows cfg cal db s run adv =
     (if sch_lock (known_zone cal) db (sch_id s) = None then (False, db)
      else
        let db' = prune_for_schedule (run_add db run) (sch_id s) (history_cap cfg)
        in (True, case (adv, next_run_at s) of
              (Some (now, ended), Some fired) \<Rightarrow> advance_run_state db' (sch_id s) fired (next_occurrence cal s now) ended
            | _ \<Rightarrow> db'))"

definition record_run ::
  "runner_config \<Rightarrow> calendar \<Rightarrow> sched_db \<Rightarrow> runner \<Rightarrow> schedule \<Rightarrow> action_result \<Rightarrow> uuid \<Rightarrow> instant \<Rightarrow> instant
     \<Rightarrow> (instant \<times> instant option) option \<Rightarrow> bool \<times> sched_db \<times> runner \<times> runner_event list" where
  "record_run cfg cal db rn s r rid started finished adv =
     (let run = \<lparr>run_id = rid, run_schedule = sch_id s, started_at = started, finished_at = finished,
                 run_outcome = ar_outcome r, run_detail = ar_detail r\<rparr>;
          (recorded, db') = record_rows cfg cal db s run adv;
          (rn', evs) = notify_outcome (sch_id s) (ar_outcome r) rn
      in (recorded, db', if recorded then rn' else drop_memory (sch_id s) rn',
          (if recorded then [Recorded (sch_id s) (if adv = None then None else next_run_at s)] else []) @ evs
          @ (if recorded then [] else [Forgot (sch_id s)])))"

definition prune_events :: "runner_config \<Rightarrow> schedule \<Rightarrow> action_result \<Rightarrow> runner_event list" where
  \<comment> \<open>\<open>_prune_after_backup\<close>\<close>
  "prune_events cfg s r =
     (if \<not> prune_wired cfg \<or> sch_action s \<noteq> BACKUP \<or> ar_outcome r \<noteq> SUCCESS \<or> ar_community r = None then []
      else [RetentionPruned (sch_server s)])"

end
