(* ===== verification/Schedule_Machine.thy ===== *)
theory Schedule_Machine
  imports Schedule_Runner
begin

text \<open>
  The scheduler as a machine: the ticks of the runner, their tasks in any order, the use cases, the clock, a
  failure of any task and a restart of the process. An edit is two steps, as it reads its row without the row lock
  and writes it later. The concurrency of the code (server groups under a
  semaphore, a lock around the bookkeeping) only restricts the orders this machine allows. The occurrence of a
  task is the due instant of the row as it was polled.
\<close>

section \<open>State\<close>

datatype stage =
    Due
  | Claimed
  | Running instant server
  | Executed instant instant action_result

record task =
  t_sched :: schedule
  t_stage :: stage
  t_retry :: bool

record sched_sys =
  sdb :: sched_db
  tbl :: table
  rnr :: runner
  tasks :: "task list"
  tick_now :: "instant option"
  tick_prev :: "instant option"
  handled_ids :: "uuid list"
  warn_queue :: "schedule list"
  open_edits :: "(uuid, schedule) dict" \<comment> \<open>per request, the entity an edit has built from the row it read\<close>
  clk :: instant
  evs :: "runner_event list"

definition task_id :: "task \<Rightarrow> uuid" where
  "task_id t = sch_id (t_sched t)"

definition task_of :: "sched_sys \<Rightarrow> uuid \<Rightarrow> task option" where
  "task_of s i = find (\<lambda>t. task_id t = i) (tasks s)"

definition drop_task :: "uuid \<Rightarrow> sched_sys \<Rightarrow> sched_sys" where
  "drop_task i s = s\<lparr>tasks := filter (\<lambda>t. task_id t \<noteq> i) (tasks s)\<rparr>"

definition set_stage :: "uuid \<Rightarrow> stage \<Rightarrow> sched_sys \<Rightarrow> sched_sys" where
  "set_stage i st s = s\<lparr>tasks := map (\<lambda>t. if task_id t = i then t\<lparr>t_stage := st\<rparr> else t) (tasks s)\<rparr>"

definition log_events :: "runner_event list \<Rightarrow> sched_sys \<Rightarrow> sched_sys" where
  "log_events es s = s\<lparr>evs := evs s @ es\<rparr>"

section \<open>A tick\<close>

definition begin_tick :: "calendar \<Rightarrow> sched_sys \<Rightarrow> sched_sys" where
  "begin_tick cal s =
     (if tick_now s \<noteq> None then s
      else
        let (due, db') = list_due (known_zone cal) (sdb s) (clk s)
        in s\<lparr>sdb := db', tasks := map (\<lambda>x. \<lparr>t_sched = x, t_stage = Due, t_retry = False\<rparr>) due,
             tick_now := Some (clk s), tick_prev := last_tick_at (rnr s),
             rnr := (rnr s)\<lparr>last_tick_at := Some (clk s)\<rparr>, handled_ids := map sch_id due\<rparr>)"

definition skips_stale :: "sched_sys \<Rightarrow> schedule \<Rightarrow> bool" where
  "skips_stale s x \<longleftrightarrow> sch_action x \<noteq> BACKUP \<and> (case tick_now s of None \<Rightarrow> False | Some now \<Rightarrow> is_stale x now (tick_prev s))"

definition do_record ::
  "runner_config \<Rightarrow> calendar \<Rightarrow> sched_sys \<Rightarrow> task \<Rightarrow> action_result \<Rightarrow> uuid \<Rightarrow> instant \<Rightarrow> instant \<Rightarrow> (instant \<times> instant option) option
     \<Rightarrow> bool \<times> sched_sys" where
  "do_record cfg cal s t r rid started finished adv =
     (let (recorded, db', rn', es) = record_run cfg cal (sdb s) (rnr s) (t_sched t) r rid started finished adv
      in (recorded, log_events es (drop_task (task_id t) (s\<lparr>sdb := db', rnr := rn'\<rparr>))))"

definition skip_stale_task :: "runner_config \<Rightarrow> calendar \<Rightarrow> sched_sys \<Rightarrow> task \<Rightarrow> uuid \<Rightarrow> sched_sys" where
  "skip_stale_task cfg cal s t rid =
     (if t_stage t \<noteq> Due \<or> \<not> skips_stale s (t_sched t) then s
      else snd (do_record cfg cal s t (skipped_result ''occurrence too stale'' None) rid (clk s) (clk s)
                  (Some (clk s, last_run_at (t_sched t)))))"

definition claim_task :: "calendar \<Rightarrow> sched_sys \<Rightarrow> task \<Rightarrow> sched_sys" where
  "claim_task cal s t =
     (if t_stage t \<noteq> Due \<or> skips_stale s (t_sched t) then s
      else case sch_lock (known_zone cal) (sdb s) (task_id t) of
             None \<Rightarrow> log_events [Forgot (task_id t)] (drop_task (task_id t) (s\<lparr>rnr := drop_memory (task_id t) (rnr s)\<rparr>))
           | Some cur \<Rightarrow>
               if \<not> sch_enabled cur \<or> next_run_at cur \<noteq> next_run_at (t_sched t) then drop_task (task_id t) s
               else set_stage (task_id t) Claimed s)"

definition execute_task :: "sched_sys \<Rightarrow> task \<Rightarrow> sched_sys" where
  "execute_task s t =
     (if t_stage t \<noteq> Claimed then s
      else case before_dispatch (tbl s) (t_sched t) of
             Inl r \<Rightarrow> set_stage (task_id t) (Executed (clk s) (clk s) r) s
           | Inr srv \<Rightarrow> log_events [Dispatched (task_id t) (if t_retry t then None else next_run_at (t_sched t))]
                        (set_stage (task_id t) (Running (clk s) srv) s))"

definition finish_task :: "sched_sys \<Rightarrow> task \<Rightarrow> action_error option \<Rightarrow> sched_sys" where
  "finish_task s t err =
     (case t_stage t of
        Running started srv \<Rightarrow> set_stage (task_id t) (Executed started (clk s) (settle_action (s_community srv) err)) s
      | _ \<Rightarrow> s)"

definition record_task :: "runner_config \<Rightarrow> calendar \<Rightarrow> sched_sys \<Rightarrow> task \<Rightarrow> uuid \<Rightarrow> sched_sys" where
  "record_task cfg cal s t rid =
     (case t_stage t of
        Executed started finished r \<Rightarrow>
          (let (recorded, s') = do_record cfg cal s t r rid started finished
                                  (if t_retry t then None else Some (clk s, Some started));
               s2 = (if \<not> t_retry t \<and> recorded \<and> sch_action (t_sched t) = BACKUP
                     then s'\<lparr>rnr := reschedule_retry cfg (task_id t) r finished (rnr s')\<rparr> else s')
           in log_events (prune_events cfg (t_sched t) r) s2)
      | _ \<Rightarrow> s)"

definition claim_retry :: "calendar \<Rightarrow> sched_sys \<Rightarrow> uuid \<Rightarrow> sched_sys" where
  \<comment> \<open>\<open>_run_retry\<close> up to its dispatch: the one retry is spent up front\<close>
  "claim_retry cal s i =
     (case (tick_now s, dget (backup_retry (rnr s)) i) of
        (Some now, Some retry_at) \<Rightarrow>
          if tasks s \<noteq> [] \<or> i \<in> set (handled_ids s) \<or> retry_at > now then s
          else
            let s' = s\<lparr>rnr := (rnr s)\<lparr>backup_retry := dpop i (backup_retry (rnr s))\<rparr>\<rparr>
            in (case sch_lock (known_zone cal) (sdb s) i of
                  None \<Rightarrow> log_events [Forgot i] (s'\<lparr>rnr := drop_memory i (rnr s')\<rparr>)
                | Some cur \<Rightarrow>
                    if \<not> sch_enabled cur \<or> sch_action cur \<noteq> BACKUP then s'
                    else s'\<lparr>tasks := [\<lparr>t_sched = cur, t_stage = Claimed, t_retry = True\<rparr>]\<rparr>)
      | _ \<Rightarrow> s)"

definition end_tick :: "sched_sys \<Rightarrow> sched_sys" where
  "end_tick s = (if tasks s \<noteq> [] \<or> warn_queue s \<noteq> [] then s else s\<lparr>tick_now := None\<rparr>)"

section \<open>Warnings\<close>

fun split_warnings ::
  "duration \<Rightarrow> uuid \<Rightarrow> instant \<Rightarrow> instant \<Rightarrow> (uuid \<times> instant \<times> int) list \<Rightarrow> warning_step list
     \<Rightarrow> warning_step list \<times> (uuid \<times> instant \<times> int) list" where
  \<comment> \<open>the loop of \<open>_warn_schedule\<close>: the steps to send and the steps consumed unsent\<close>
  "split_warnings grace i occ now sent [] = ([], sent)"
| "split_warnings grace i occ now sent (w # ws) =
     (let key = (i, occ, offset_minutes w); warn_at = occ - offset_minutes w * 60000000
      in if key \<in> set sent then split_warnings grace i occ now sent ws
         else if warn_at > now then split_warnings grace i occ now sent ws
         else if now - warn_at > grace then split_warnings grace i occ now (key # sent) ws
         else let (due, sent') = split_warnings grace i occ now sent ws in (w # due, sent'))"

definition poll_warnings :: "calendar \<Rightarrow> sched_sys \<Rightarrow> sched_sys" where
  "poll_warnings cal s =
     (case tick_now s of
        None \<Rightarrow> s
      | Some now \<Rightarrow>
          if tasks s \<noteq> [] \<or> warn_queue s \<noteq> [] then s
          else
            let (found, db') = list_warning_candidates (known_zone cal) (sdb s) now (now + MAX_WARNING_OFFSET_MINUTES * 60000000)
            in s\<lparr>rnr := (rnr s)\<lparr>warned := filter (\<lambda>(i, occ, n). occ > now) (warned (rnr s))\<rparr>, sdb := db', warn_queue := found\<rparr>)"

definition warn_schedule :: "runner_config \<Rightarrow> sched_sys \<Rightarrow> nat \<Rightarrow> sched_sys" where
  \<comment> \<open>the next schedule of the look-ahead; an unexpected failure ends it after the given number of sends\<close>
  "warn_schedule cfg s attempts =
     (case (tick_now s, warn_queue s) of
        (Some now, x # xs) \<Rightarrow>
          (case next_run_at x of
             None \<Rightarrow> s\<lparr>warn_queue := xs\<rparr>
           | Some occ \<Rightarrow>
               let (due, sent) = split_warnings (warning_grace cfg) (sch_id x) occ now (warned (rnr s)) (warning_steps x);
                   consumed = s\<lparr>warn_queue := xs, rnr := (rnr s)\<lparr>warned := map (\<lambda>w. (sch_id x, occ, offset_minutes w)) due @ sent\<rparr>\<rparr>
               in if due = [] then consumed
                  else (case get_by_id (tbl s) (sch_server x) of
                          None \<Rightarrow> consumed
                        | Some srv \<Rightarrow>
                            if \<not> is_running srv then consumed
                            else log_events (map (\<lambda>w. WarningSent (sch_id x) occ (offset_minutes w)) (take attempts due)) consumed))
      | _ \<Rightarrow> s)"

section \<open>Edits\<close>

definition read_edit ::
  "calendar \<Rightarrow> sched_sys \<Rightarrow> uuid \<Rightarrow> (string \<Rightarrow> bool) \<Rightarrow> community_id \<Rightarrow> server_id \<Rightarrow> uuid \<Rightarrow> schedule_patch \<Rightarrow> sched_sys" where
  \<comment> \<open>\<open>UpdateSchedule\<close> up to its write, without a lock\<close>
  "read_edit cal s k auth com srv i p =
     (if dget (open_edits s) k \<noteq> None then s
      else case update_schedule_plan cal auth (tbl s) (sdb s) (clk s) com srv i p of
             Inl _ \<Rightarrow> s
           | Inr x \<Rightarrow> s\<lparr>open_edits := dset k x (open_edits s)\<rparr>)"

definition write_edit :: "sched_sys \<Rightarrow> uuid \<Rightarrow> sched_sys" where
  \<comment> \<open>its write of every mutable column, and the commit\<close>
  "write_edit s k =
     (case dget (open_edits s) k of
        None \<Rightarrow> s
      | Some x \<Rightarrow>
          s\<lparr>open_edits := dpop k (open_edits s), sdb := (case sch_update (sdb s) x of Inl _ \<Rightarrow> sdb s | Inr db' \<Rightarrow> db')\<rparr>)"

section \<open>Steps\<close>

datatype sched_op =
    Tick
  | TickAborted
  | SkipStale uuid uuid
  | Claim uuid
  | Execute uuid
  | Finish uuid "action_error option"
  | Record uuid uuid
  | TaskFailed uuid
  | RetryClaim uuid
  | WarnPoll
  | WarnNext nat
  | EndTick
  | ProcessRestart
  | ClockAdvances duration
  | ServersChange table
  | CreateSchedule "string \<Rightarrow> bool" community_id server_id uuid schedule_action schedule_input
  | EditRead uuid "string \<Rightarrow> bool" community_id server_id uuid schedule_patch
  | EditWrite uuid
  | DeleteSchedule "string \<Rightarrow> bool" community_id server_id uuid

definition on_task :: "sched_sys \<Rightarrow> uuid \<Rightarrow> (task \<Rightarrow> sched_sys) \<Rightarrow> sched_sys" where
  "on_task s i f = (case task_of s i of None \<Rightarrow> s | Some t \<Rightarrow> f t)"

fun sched_step :: "runner_config \<Rightarrow> calendar \<Rightarrow> sched_sys \<Rightarrow> sched_op \<Rightarrow> sched_sys" where
  "sched_step cfg cal s Tick = begin_tick cal s"
| "sched_step cfg cal s TickAborted = (if tick_now s \<noteq> None then s else s\<lparr>rnr := (rnr s)\<lparr>last_tick_at := Some (clk s)\<rparr>\<rparr>)"
| "sched_step cfg cal s (SkipStale i rid) = on_task s i (\<lambda>t. skip_stale_task cfg cal s t rid)"
| "sched_step cfg cal s (Claim i) = on_task s i (claim_task cal s)"
| "sched_step cfg cal s (Execute i) = on_task s i (execute_task s)"
| "sched_step cfg cal s (Finish i err) = on_task s i (\<lambda>t. finish_task s t err)"
| "sched_step cfg cal s (Record i rid) = on_task s i (\<lambda>t. record_task cfg cal s t rid)"
| "sched_step cfg cal s (TaskFailed i) = log_events [Crashed i] (drop_task i s)"
| "sched_step cfg cal s (RetryClaim i) = claim_retry cal s i"
| "sched_step cfg cal s WarnPoll = poll_warnings cal s"
| "sched_step cfg cal s (WarnNext n) = warn_schedule cfg s n"
| "sched_step cfg cal s EndTick = end_tick s"
| "sched_step cfg cal s ProcessRestart =
     log_events [Restarted] (s\<lparr>rnr := new_runner, tasks := [], tick_now := None, warn_queue := [], open_edits := []\<rparr>)"
| "sched_step cfg cal s (ClockAdvances d) = s\<lparr>clk := clk s + max 0 d\<rparr>"
| "sched_step cfg cal s (ServersChange t) = s\<lparr>tbl := t\<rparr>"
| "sched_step cfg cal s (CreateSchedule auth com srv i action inp) =
     (if row_of (sdb s) i \<noteq> None then s
      else case create_schedule cal auth (tbl s) (sdb s) (clk s) i com srv action inp of
             Inl _ \<Rightarrow> s | Inr (_, db') \<Rightarrow> s\<lparr>sdb := db'\<rparr>)"
| "sched_step cfg cal s (EditRead k auth com srv i p) = read_edit cal s k auth com srv i p"
| "sched_step cfg cal s (EditWrite k) = write_edit s k"
| "sched_step cfg cal s (DeleteSchedule auth com srv i) =
     (case delete_schedule auth (tbl s) (sdb s) com srv i of Inl _ \<Rightarrow> s | Inr db' \<Rightarrow> s\<lparr>sdb := db'\<rparr>)"

definition booted :: "sched_db \<Rightarrow> table \<Rightarrow> instant \<Rightarrow> sched_sys" where
  \<comment> \<open>the process has started on these tables\<close>
  "booted db t now = \<lparr>sdb = db, tbl = t, rnr = new_runner, tasks = [], tick_now = None, tick_prev = None, handled_ids = [],
                      warn_queue = [], open_edits = [], clk = now, evs = []\<rparr>"

definition sched_run :: "runner_config \<Rightarrow> calendar \<Rightarrow> sched_sys \<Rightarrow> sched_op list \<Rightarrow> sched_sys" where
  "sched_run cfg cal = foldl (sched_step cfg cal)"

end
