(* ===== verification/Schedule_Notify.thy ===== *)
theory Schedule_Notify
  imports Schedule_Machine
begin

text \<open>
  The notifications of the runner against their specification: an edge detector over the audited outcomes.
\<close>

section \<open>The edge detector\<close>

fun failing :: "uuid \<Rightarrow> bool \<Rightarrow> runner_event list \<Rightarrow> bool" where
  \<comment> \<open>is the schedule in a run of failures after these events?\<close>
  "failing i b [] = b"
| "failing i b (e # es) =
     failing i (case e of
         Audited j oc \<Rightarrow> if j = i then oc = FAILURE else b
       | Forgot j \<Rightarrow> b \<and> j \<noteq> i
       | Restarted \<Rightarrow> False
       | _ \<Rightarrow> b) es"

fun edges :: "uuid \<Rightarrow> bool \<Rightarrow> runner_event list \<Rightarrow> toast list" where
  \<comment> \<open>one notification for the first failure of a run of failures, one for the success that ends it\<close>
  "edges i b [] = []"
| "edges i b (e # es) =
     (case e of Audited j FAILURE \<Rightarrow> if j = i \<and> \<not> b then [ScheduleFailed] else []
              | Audited j SUCCESS \<Rightarrow> if j = i \<and> b then [ScheduleRecovered] else []
              | _ \<Rightarrow> [])
     @ edges i (failing i b [e]) es"

fun toasts :: "uuid \<Rightarrow> runner_event list \<Rightarrow> toast list" where
  "toasts i [] = []"
| "toasts i (e # es) = (case e of Toasted j k \<Rightarrow> if j = i then [k] else [] | _ \<Rightarrow> []) @ toasts i es"

lemma failing_append [simp]: "failing i b (es @ fs) = failing i (failing i b es) fs"
  by (induction es arbitrary: b) simp_all

lemma edges_append [simp]: "edges i b (es @ fs) = edges i b es @ edges i (failing i b es) fs"
  by (induction es arbitrary: b) simp_all

lemma toasts_append [simp]: "toasts i (es @ fs) = toasts i es @ toasts i fs"
  by (induction es) simp_all

definition detects :: "runner \<Rightarrow> runner \<Rightarrow> runner_event list \<Rightarrow> bool" where
  \<comment> \<open>the events move the notifying set and log_events notifications as the detector does\<close>
  "detects rn rn' es \<longleftrightarrow> (\<forall>i. (i \<in> set (notifying rn') \<longleftrightarrow> failing i (i \<in> set (notifying rn)) es)
      \<and> toasts i es = edges i (i \<in> set (notifying rn)) es)"

named_theorems detect_rules \<open>pieces of the runner that follow the edge detector\<close>

lemma detects_same [detect_rules]: "notifying rn' = notifying rn \<Longrightarrow> detects rn rn' []"
  by (simp add: detects_def)

lemma detects_append: "detects rn rn1 es \<Longrightarrow> detects rn1 rn2 fs \<Longrightarrow> detects rn rn2 (es @ fs)"
  by (simp add: detects_def)

lemma detects_notify: "notify_outcome i oc rn = (rn', es) \<Longrightarrow> detects rn rn' es"
  by (cases oc) (auto simp: notify_outcome_def detects_def split: if_splits)

lemma detects_forget [detect_rules]: "detects rn (drop_memory i rn) [Forgot i]"
  by (auto simp: detects_def drop_memory_def)

definition quiet :: "runner_event \<Rightarrow> bool" where
  "quiet e \<longleftrightarrow> (case e of Audited i oc \<Rightarrow> False | Toasted i k \<Rightarrow> False | Forgot i \<Rightarrow> False | Restarted \<Rightarrow> False | _ \<Rightarrow> True)"

lemma detects_quiet: "list_all quiet es \<Longrightarrow> notifying rn' = notifying rn \<Longrightarrow> detects rn rn' es"
proof (induction es arbitrary: rn)
  case (Cons e es)
  have "detects rn rn [e]" using Cons.prems by (cases e) (auto simp: quiet_def detects_def)
  with Cons show ?case using detects_append [of rn rn "[e]" rn' es] by simp
qed (simp add: detects_same)

lemma detects_record:
  assumes "record_run cfg cal db rn x r rid started finished adv = (recorded, db', rn', es)"
  shows "detects rn rn' es"
proof -
  obtain rn1 es1 where n: "notify_outcome (sch_id x) (ar_outcome r) rn = (rn1, es1)" by fastforce
  have q: "detects rn rn ((if b then [Recorded (sch_id x) y] else []))" for b y
    by (rule detects_quiet) (auto simp: quiet_def)
  show ?thesis
  proof (cases recorded)
    case True
    then have "rn' = rn1" "es = [Recorded (sch_id x) (if adv = None then None else next_run_at x)] @ es1"
      using assms n unfolding record_run_def Let_def by (auto split: prod.splits)
    then show ?thesis using detects_append [OF q [of True] detects_notify [OF n]] by simp
  next
    case False
    then have "rn' = drop_memory (sch_id x) rn1" "es = es1 @ [Forgot (sch_id x)]"
      using assms n unfolding record_run_def Let_def by (auto split: prod.splits)
    then show ?thesis using detects_append [OF detects_notify [OF n] detects_forget] by simp
  qed
qed

section \<open>Every step follows the detector\<close>

definition follows :: "sched_sys \<Rightarrow> sched_sys \<Rightarrow> bool" where
  "follows s s' \<longleftrightarrow> (\<exists>es. evs s' = evs s @ es \<and> detects (rnr s) (rnr s') es)"

lemma follows_same [detect_rules]: "evs s' = evs s \<Longrightarrow> notifying (rnr s') = notifying (rnr s) \<Longrightarrow> follows s s'"
  unfolding follows_def by (intro exI [of _ "[]"]) (simp add: detects_same)

lemma follows_trans: "follows s s1 \<Longrightarrow> follows s1 s2 \<Longrightarrow> follows s s2"
  unfolding follows_def using detects_append by (metis append.assoc)

lemma follows_log: "detects (rnr s) (rnr s') es \<Longrightarrow> evs s' = evs s \<Longrightarrow> follows s (log_events es s')"
  unfolding follows_def log_events_def by auto

lemma stage_fields [simp]:
  "evs (set_stage i st s) = evs s" "rnr (set_stage i st s) = rnr s" "sdb (set_stage i st s) = sdb s"
  "clk (set_stage i st s) = clk s" "evs (drop_task i s) = evs s" "rnr (drop_task i s) = rnr s"
  "sdb (drop_task i s) = sdb s" "clk (drop_task i s) = clk s" "evs (log_events es s) = evs s @ es" "rnr (log_events es s) = rnr s"
  "sdb (log_events es s) = sdb s" "clk (log_events es s) = clk s" "tasks (log_events es s) = tasks s"
  by (simp_all add: set_stage_def drop_task_def log_events_def)

lemma follows_record:
  assumes "do_record cfg cal s t r rid started finished adv = (recorded, s')"
  shows "follows s s'"
proof -
  obtain db' rn' es where r: "record_run cfg cal (sdb s) (rnr s) (t_sched t) r rid started finished adv = (recorded, db', rn', es)"
    using assms unfolding do_record_def by (auto split: prod.splits)
  have "s' = log_events es (drop_task (task_id t) (s\<lparr>sdb := db', rnr := rn'\<rparr>))" using assms r by (simp add: do_record_def)
  then show ?thesis using follows_log [of s "drop_task (task_id t) (s\<lparr>sdb := db', rnr := rn'\<rparr>)" es] detects_record [OF r] by simp
qed

lemma reschedule_retry_notifying [simp]: "notifying (reschedule_retry cfg i r now rn) = notifying rn"
  by (simp add: reschedule_retry_def)

lemma follows_quiet: "list_all quiet es \<Longrightarrow> evs s' = evs s \<Longrightarrow> notifying (rnr s') = notifying (rnr s) \<Longrightarrow> follows s (log_events es s')"
  by (rule follows_log) (simp_all add: detects_quiet)

lemma follows_record_task: "follows s (record_task cfg cal s t rid)"
proof (cases "t_stage t")
  case (Executed started finished r)
  obtain recorded s' where d: "do_record cfg cal s t r rid started finished
      (if t_retry t then None else Some (clk s, Some started)) = (recorded, s')" by fastforce
  have q: "list_all quiet (prune_events cfg (t_sched t) r)" by (simp add: prune_events_def quiet_def)
  show ?thesis unfolding record_task_def Executed
    using follows_trans [OF follows_record [OF d] follows_quiet [OF q, of s' s']]
      follows_trans [OF follows_record [OF d]
        follows_quiet [OF q, of "s'\<lparr>rnr := reschedule_retry cfg (task_id t) r finished (rnr s')\<rparr>" s']]
    by (simp add: d Let_def)
qed (simp_all add: record_task_def follows_same)

lemma follows_claim_task: "follows s (claim_task cal s t)"
proof -
  have "follows s (log_events [Forgot (task_id t)] (drop_task (task_id t) (s\<lparr>rnr := drop_memory (task_id t) (rnr s)\<rparr>)))"
    by (rule follows_log) (simp_all add: detects_forget)
  then show ?thesis unfolding claim_task_def by (auto split: option.splits intro: follows_same)
qed

lemma follows_claim_retry: "follows s (claim_retry cal s i)"
proof (cases "tick_now s")
  case (Some now)
  let ?s = "s\<lparr>rnr := (rnr s)\<lparr>backup_retry := dpop i (backup_retry (rnr s))\<rparr>\<rparr>"
  have "follows s (log_events [Forgot i] (?s\<lparr>rnr := drop_memory i (rnr ?s)\<rparr>))"
    by (rule follows_log) (auto simp: detects_def drop_memory_def)
  then show ?thesis unfolding claim_retry_def Some
    by (auto simp: Let_def split: option.splits intro: follows_same)
qed (simp add: claim_retry_def follows_same)

lemma follows_warn: "follows s (warn_schedule cfg s n)"
proof (cases "tick_now s")
  case (Some now)
  show ?thesis
  proof (cases "warn_queue s")
    case (Cons x xs)
    show ?thesis
    proof (cases "next_run_at x")
      case (Some occ)
      obtain due sent where sp: "split_warnings (warning_grace cfg) (sch_id x) occ now (warned (rnr s)) (warning_steps x) = (due, sent)"
        by fastforce
      let ?c = "s\<lparr>warn_queue := xs, rnr := (rnr s)\<lparr>warned := map (\<lambda>w. (sch_id x, occ, offset_minutes w)) due @ sent\<rparr>\<rparr>"
      have "follows s (log_events (map (\<lambda>w. WarningSent (sch_id x) occ (offset_minutes w)) (take n due)) ?c)"
        by (rule follows_quiet) (auto simp: list_all_iff quiet_def dest: in_set_takeD)
      then show ?thesis unfolding warn_schedule_def \<open>tick_now s = Some now\<close> Cons Some
        by (auto simp: sp \<open>next_run_at x = Some occ\<close> Let_def split: option.splits intro: follows_same)
    qed (simp add: warn_schedule_def \<open>tick_now s = Some now\<close> Cons follows_same)
  qed (simp add: warn_schedule_def Some follows_same)
qed (simp add: warn_schedule_def follows_same)

lemma follows_step: "follows s (sched_step cfg cal s op)"
proof (cases op)
  case (SkipStale i rid)
  have "follows s (skip_stale_task cfg cal s t rid)" for t
  proof -
    obtain b s' where "do_record cfg cal s t (skipped_result ''occurrence too stale'' None) rid (clk s) (clk s)
        (Some (clk s, last_run_at (t_sched t))) = (b, s')" by fastforce
    with follows_record [OF this] show ?thesis unfolding skip_stale_task_def by (simp add: follows_same)
  qed
  then show ?thesis by (simp add: SkipStale on_task_def follows_same split: option.split)
next
  case (Execute i)
  have "follows s (execute_task s t)" for t
  proof -
    have "follows s (log_events [Dispatched (task_id t) occ] (set_stage (task_id t) st s))" for st occ
      by (rule follows_quiet) (simp_all add: quiet_def)
    then show ?thesis unfolding execute_task_def by (auto split: sum.splits intro: follows_same)
  qed
  then show ?thesis by (simp add: Execute on_task_def follows_same split: option.split)
next
  case (Finish i err)
  have "follows s (finish_task s t err)" for t
    unfolding finish_task_def by (auto split: stage.splits intro: follows_same)
  then show ?thesis by (simp add: Finish on_task_def follows_same split: option.split)
next
  case (TaskFailed i)
  show ?thesis unfolding TaskFailed sched_step.simps by (rule follows_quiet) (simp_all add: quiet_def)
next
  case ProcessRestart
  show ?thesis unfolding ProcessRestart sched_step.simps
    by (rule follows_log) (simp_all add: detects_def new_runner_def)
qed (auto simp: read_edit_def write_edit_def begin_tick_def end_tick_def poll_warnings_def Let_def on_task_def split: prod.splits option.splits sum.splits
       intro: follows_same follows_record_task follows_claim_task follows_claim_retry follows_warn)

text \<open>
  C36. The notifications of the scheduler are exactly the edges of its outcomes: in every run of the machine,
  with any interleaving of tasks, edits, deletions, failures of tasks and restarts, the notifications about a schedule are
  one failure for the first failed run of a run of failures and one recovery for the success that ends it, as the
  edge detector computes them from the audited outcomes; a skipped run changes nothing, and a deletion or a
  restart forgets the run of failures.
\<close>

theorem notifications_are_edges:
  "toasts i (evs (sched_run cfg cal (booted db t now) ops)) = edges i False (evs (sched_run cfg cal (booted db t now) ops))"
proof -
  have "follows s (sched_run cfg cal s ops)" for s
  proof (induction ops arbitrary: s)
    case (Cons op ops)
    show ?case using follows_trans [OF follows_step Cons] by (simp add: sched_run_def)
  qed (simp add: sched_run_def follows_same)
  from this [of "booted db t now"] show ?thesis
    unfolding follows_def detects_def by (auto simp: booted_def new_runner_def)
qed

end
