(* ===== verification/Schedule_Once.thy ===== *)
theory Schedule_Once
  imports Schedule_Notify
begin

text \<open>
  No occurrence is replayed. The log of the runner is read with the set of the occurrences dispatched since the last
  failure of their task and the set of the occurrences recorded; the invariant relates both to the due
  instants of the rows and to the tasks in flight.
\<close>

section \<open>Replays in a log\<close>

type_synonym tracked = "(uuid \<times> instant) set \<times> (uuid \<times> instant) set"

fun track :: "runner_event \<Rightarrow> tracked \<Rightarrow> tracked" where
  \<comment> \<open>dispatched and not failed since, and recorded\<close>
  "track (Dispatched i (Some occ)) (st, rc) = (insert (i, occ) st, rc)"
| "track (Recorded i (Some occ)) (st, rc) = (st, insert (i, occ) rc)"
| "track (Crashed i) (st, rc) = ({x \<in> st. fst x \<noteq> i}, rc)"
| "track Restarted (st, rc) = ({}, rc)"
| "track _ (st, rc) = (st, rc)"

fun replay :: "tracked \<Rightarrow> runner_event \<Rightarrow> bool" where
  "replay (st, rc) (Dispatched i (Some occ)) = ((i, occ) \<in> st \<union> rc)"
| "replay (st, rc) (Recorded i (Some occ)) = ((i, occ) \<in> rc)"
| "replay _ _ = False"

fun replay_free :: "tracked \<Rightarrow> runner_event list \<Rightarrow> bool" where
  "replay_free a [] = True"
| "replay_free a (e # es) = (\<not> replay a e \<and> replay_free (track e a) es)"

lemma replay_free_append: "replay_free a (es @ fs) \<longleftrightarrow> replay_free a es \<and> replay_free (fold track es a) fs"
  by (induction es arbitrary: a) auto

definition tracked_of :: "sched_sys \<Rightarrow> tracked" where
  "tracked_of s = fold track (evs s) ({}, {})"

definition untracked :: "runner_event \<Rightarrow> bool" where
  "untracked e \<longleftrightarrow> (\<forall>a. track e a = a \<and> \<not> replay a e)"

lemma untracked_simps [simp]:
  "untracked (Audited i oc)" "untracked (Toasted i k)" "untracked (Forgot i)" "untracked (RetentionPruned v)"
  "untracked (WarningSent i occ n)" "untracked (Dispatched i None)" "untracked (Recorded i None)"
  by (auto simp: untracked_def)

lemma untracked_list: "list_all untracked es \<Longrightarrow> fold track es a = a \<and> replay_free a es"
proof (induction es)
  case (Cons e es)
  then have "track e a = a" "\<not> replay a e" by (cases a; auto simp: untracked_def)+
  with Cons show ?case by simp
qed simp

section \<open>Entities and due instants\<close>

definition calendar_ok :: "calendar \<Rightarrow> bool" where
  \<comment> \<open>the cron engine answers an instant strictly after the one asked for\<close>
  "calendar_ok cal \<longleftrightarrow> (\<forall>e tz t. next_after cal e tz t > t)"

definition cadence_ok :: "cadence \<Rightarrow> bool" where
  "cadence_ok cd \<longleftrightarrow> (cron cd = None \<longleftrightarrow> interval_seconds cd \<noteq> None)
     \<and> (\<forall>i. interval_seconds cd = Some i \<longrightarrow> i \<ge> MIN_INTERVAL_SECONDS)"

lemma mk_cadence_ok: "mk_cadence c i = Inr cd \<Longrightarrow> cadence_ok cd \<and> cd = \<lparr>cron = c, interval_seconds = i\<rparr>"
  by (auto simp: mk_cadence_def cadence_ok_def not_less split: if_splits option.splits)

lemma checked_cadence_ok: "checked_cadence cal c i = Inr cd \<Longrightarrow> cadence_ok cd"
  using mk_cadence_ok [of c i] unfolding checked_cadence_def
  by (auto split: sum.splits option.splits if_splits)

lemma validate_payload_fields:
  "validate_payload s = Inr s' \<Longrightarrow> sch_id s' = sch_id s \<and> sch_cadence s' = sch_cadence s \<and> sch_enabled s' = sch_enabled s
     \<and> next_run_at s' = next_run_at s \<and> sch_action s' = sch_action s \<and> sch_server s' = sch_server s \<and> timezone s' = timezone s"
  unfolding validate_payload_def by (auto split: if_splits)

lemma mk_schedule_fields:
  assumes "mk_schedule zone s = Inr s'"
  shows "sch_id s' = sch_id s" "sch_cadence s' = sch_cadence s" "sch_enabled s' = sch_enabled s"
    "next_run_at s' = next_run_at s" "sch_action s' = sch_action s" "sch_server s' = sch_server s"
    "\<not> sch_enabled s' \<Longrightarrow> next_run_at s' = None"
proof -
  obtain x where "validate_payload (s\<lparr>sch_name := strip (sch_name s)\<rparr>) = Inr x" "s' = x" "\<not> (\<not> sch_enabled x \<and> next_run_at x \<noteq> None)"
    using assms unfolding mk_schedule_def by (auto simp: Let_def split: if_splits sum.splits)
  with validate_payload_fields [OF this(1)] show "sch_id s' = sch_id s" "sch_cadence s' = sch_cadence s"
    "sch_enabled s' = sch_enabled s" "next_run_at s' = next_run_at s" "sch_action s' = sch_action s" "sch_server s' = sch_server s"
    "\<not> sch_enabled s' \<Longrightarrow> next_run_at s' = None" by auto
qed

lemma hydrate_fields:
  assumes "hydrate zone r = Some s"
  shows "sch_id s = sch_id r" "next_run_at s = next_run_at r" "sch_enabled s = sch_enabled r" "cadence_ok (sch_cadence s)"
    "sch_action s = sch_action r"
proof -
  obtain cd where cd: "mk_cadence (cron (sch_cadence r)) (interval_seconds (sch_cadence r)) = Inr cd" "mk_schedule zone r = Inr s"
    using assms unfolding hydrate_def by (auto split: if_splits sum.splits)
  then have "cadence_ok (sch_cadence r)" using mk_cadence_ok [OF cd(1)] by (metis cadence.surjective old.unit.exhaust)
  with mk_schedule_fields [OF cd(2)] show "sch_id s = sch_id r" "next_run_at s = next_run_at r" "sch_enabled s = sch_enabled r"
    "cadence_ok (sch_cadence s)" "sch_action s = sch_action r" by simp_all
qed

lemma next_interval_run_after: "0 < i \<Longrightarrow> next_interval_run d i after > after"
proof -
  assume "0 < i"
  then have i: "0 < i * 1000000" by simp
  define x where "x = after - jitter_us d i"
  have "x < (x div (i * 1000000) + 1) * (i * 1000000)"
    using pos_mod_bound [OF i, of x] mult_div_mod_eq [of "i * 1000000" x] by (simp add: algebra_simps)
  then show ?thesis unfolding next_interval_run_def Let_def x_def by (simp add: algebra_simps)
qed

lemma next_run_after:
  assumes "calendar_ok cal" "cadence_ok (sch_cadence s)"
  shows "next_run cal s now > now" "next_occurrence cal s now > now"
proof -
  have "interval_seconds (sch_cadence s) = Some i \<Longrightarrow> 0 < i" for i
    using assms(2) by (force simp: cadence_ok_def MIN_INTERVAL_SECONDS_def)
  then show "next_run cal s now > now" "next_occurrence cal s now > now"
    using assms next_interval_run_after unfolding next_run_def next_occurrence_def calendar_ok_def cadence_ok_def
    by (auto split: option.splits)
qed

section \<open>The invariant\<close>

definition live_at :: "(string \<Rightarrow> bool) \<Rightarrow> sched_db \<Rightarrow> uuid \<Rightarrow> instant \<Rightarrow> bool" where
  \<comment> \<open>the row of the schedule is enabled, sound and due at this instant\<close>
  "live_at zone db i n \<longleftrightarrow> (\<exists>r \<in> set (sched_rows db). sch_id r = i \<and> sch_enabled r \<and> next_run_at r = Some n \<and> hydrate zone r \<noteq> None)"

definition underway :: "task \<Rightarrow> bool" where
  "underway t \<longleftrightarrow> t_stage t \<noteq> Due \<and> t_stage t \<noteq> Claimed"

definition task_sound :: "(string \<Rightarrow> bool) \<Rightarrow> sched_sys \<Rightarrow> task \<Rightarrow> bool" where
  "task_sound zone s t \<longleftrightarrow>
     (\<exists>r. hydrate zone r = Some (t_sched t)) \<and> (t_retry t \<longrightarrow> t_stage t \<noteq> Due)
   \<and> (t_retry t \<or> (\<exists>occ. next_run_at (t_sched t) = Some occ \<and> occ \<le> clk s
        \<and> (\<forall>n. live_at zone (sdb s) (task_id t) n \<longrightarrow> occ \<le> n)
        \<and> (task_id t, occ) \<notin> snd (tracked_of s) \<and> (underway t \<or> (task_id t, occ) \<notin> fst (tracked_of s))))"

definition spent :: "(string \<Rightarrow> bool) \<Rightarrow> sched_sys \<Rightarrow> uuid \<times> instant \<Rightarrow> bool" where
  \<comment> \<open>an occurrence the row has moved past, or whose task is underway\<close>
  "spent zone s x \<longleftrightarrow> snd x \<le> clk s
     \<and> ((\<forall>n. live_at zone (sdb s) (fst x) n \<longrightarrow> snd x < n)
       \<or> x \<notin> snd (tracked_of s)
         \<and> (\<exists>t \<in> set (tasks s). task_id t = fst x \<and> \<not> t_retry t \<and> next_run_at (t_sched t) = Some (snd x) \<and> underway t))"

definition once_inv :: "calendar \<Rightarrow> sched_sys \<Rightarrow> bool" where
  "once_inv cal s \<longleftrightarrow>
     distinct (map sch_id (sched_rows (sdb s))) \<and> distinct (map task_id (tasks s))
   \<and> (tasks s \<noteq> [] \<longrightarrow> tick_now s \<noteq> None)
   \<and> (\<forall>t \<in> set (tasks s). task_sound (known_zone cal) s t)
   \<and> (\<forall>x \<in> fst (tracked_of s) \<union> snd (tracked_of s). spent (known_zone cal) s x)
   \<and> replay_free ({}, {}) (evs s)"

lemma once_invD:
  assumes "once_inv cal s"
  shows "distinct (map sch_id (sched_rows (sdb s)))" "distinct (map task_id (tasks s))"
    "tasks s \<noteq> [] \<Longrightarrow> tick_now s \<noteq> None" "t \<in> set (tasks s) \<Longrightarrow> task_sound (known_zone cal) s t"
    "x \<in> fst (tracked_of s) \<or> x \<in> snd (tracked_of s) \<Longrightarrow> spent (known_zone cal) s x" "replay_free ({}, {}) (evs s)"
  using assms unfolding once_inv_def by auto

lemma tracked_log: "tracked_of (log_events es s) = fold track es (tracked_of s)"
  by (simp add: tracked_of_def)

text \<open>A step that emits nothing the tracker sees and moves rows only forward.\<close>

lemma once_inv_rows:
  assumes inv: "once_inv cal s"
    and e: "evs s' = evs s @ es" "list_all untracked es"
    and t: "set (tasks s') \<subseteq> set (tasks s)" "distinct (map task_id (tasks s'))"
      "\<And>t. t \<in> set (tasks s) \<Longrightarrow> underway t \<Longrightarrow> \<not> t_retry t \<Longrightarrow> t \<in> set (tasks s')"
    and n: "tasks s' \<noteq> [] \<Longrightarrow> tick_now s' \<noteq> None" and c: "clk s \<le> clk s'"
    and d: "distinct (map sch_id (sched_rows (sdb s')))"
    and l: "\<And>i n. live_at (known_zone cal) (sdb s') i n \<Longrightarrow> live_at (known_zone cal) (sdb s) i n \<or> clk s < n"
  shows "once_inv cal s'"
proof -
  have tr: "tracked_of s' = tracked_of s" using e untracked_list [OF e(2)] by (simp add: tracked_of_def)
  have "task_sound (known_zone cal) s' t" if "t \<in> set (tasks s')" for t
  proof -
    have s: "task_sound (known_zone cal) s t" using once_invD(4) [OF inv] that t(1) by blast
    have "occ \<le> n" if "occ \<le> clk s" "\<forall>n. live_at (known_zone cal) (sdb s) i n \<longrightarrow> occ \<le> n" "live_at (known_zone cal) (sdb s') i n" for occ n i
      using that l by fastforce
    then show ?thesis using s c unfolding task_sound_def tr by (meson order.trans)
  qed
  moreover have "spent (known_zone cal) s' x" if "x \<in> fst (tracked_of s) \<union> snd (tracked_of s)" for x
  proof -
    have s: "spent (known_zone cal) s x" using once_invD(5) [OF inv] that by blast
    have "snd x < n" if "snd x \<le> clk s" "\<forall>n. live_at (known_zone cal) (sdb s) (fst x) n \<longrightarrow> snd x < n" "live_at (known_zone cal) (sdb s') (fst x) n" for n
      using that l by fastforce
    then show ?thesis using s c t(3) unfolding spent_def tr by (meson order.trans)
  qed
  moreover have "replay_free ({}, {}) (evs s')"
    using once_invD(6) [OF inv] untracked_list [OF e(2)] by (simp add: e(1) replay_free_append)
  ultimately show ?thesis using n d t(2) unfolding once_inv_def tr by blast
qed

lemma live_at_mono:
  assumes "\<And>r. r \<in> set (sched_rows db') \<Longrightarrow> sch_enabled r \<Longrightarrow> r \<in> set (sched_rows db) \<or> (\<exists>n. next_run_at r = Some n \<and> c < n) \<or> next_run_at r = None"
  shows "live_at zone db' i n \<Longrightarrow> live_at zone db i n \<or> c < n"
  using assms unfolding live_at_def by fastforce

lemma update_rows_ids:
  "(\<And>r. p r \<Longrightarrow> sch_id (f r) = sch_id r) \<Longrightarrow> map sch_id (sched_rows (update_rows db p f)) = map sch_id (sched_rows db)"
  by (simp add: update_rows_def comp_def)

lemma update_rows_mem: "r \<in> set (sched_rows (update_rows db p f)) \<longleftrightarrow> (\<exists>x \<in> set (sched_rows db). r = (if p x then f x else x))"
  by (auto simp: update_rows_def)

section \<open>Reads, polls and records\<close>

lemma row_of_mem: "row_of db i = Some r \<Longrightarrow> r \<in> set (sched_rows db) \<and> sch_id r = i"
  unfolding row_of_def by (auto simp: find_Some_iff)

lemma row_of_unique:
  assumes "distinct (map sch_id (sched_rows db))" "r \<in> set (sched_rows db)"
  shows "row_of db (sch_id r) = Some r"
proof (cases "row_of db (sch_id r)")
  case None
  then show ?thesis using assms(2) unfolding row_of_def by (auto simp: find_None_iff)
next
  case (Some x)
  then show ?thesis using row_of_mem [OF Some] assms by (auto simp: distinct_map dest: inj_onD)
qed

lemma lock_None:
  assumes "distinct (map sch_id (sched_rows db))" "sch_lock zone db i = None"
  shows "\<not> live_at zone db i n"
proof
  assume "live_at zone db i n"
  then obtain r where r: "r \<in> set (sched_rows db)" "sch_id r = i" "hydrate zone r \<noteq> None" by (auto simp: live_at_def)
  then show False using assms(2) row_of_unique [OF assms(1) r(1)] by (simp add: sch_lock_def sch_get_by_id_def)
qed

lemma lock_Some: "sch_lock zone db i = Some x \<Longrightarrow> \<exists>r \<in> set (sched_rows db). sch_id r = i \<and> hydrate zone r = Some x"
  unfolding sch_lock_def sch_get_by_id_def by (auto split: option.splits dest: row_of_mem)

lemma safe_hydrate_found: "set (fst (safe_hydrate zone rs)) = {x. \<exists>r \<in> set rs. hydrate zone r = Some x}"
proof -
  have "set (case hydrate zone r of None \<Rightarrow> [] | Some s \<Rightarrow> [s]) = {x. hydrate zone r = Some x}" for r
    by (cases "hydrate zone r") auto
  then show ?thesis by (auto simp: safe_hydrate_def)
qed

lemma safe_hydrate_ids:
  "map sch_id (fst (safe_hydrate zone rs)) = map sch_id (filter (\<lambda>r. hydrate zone r \<noteq> None) rs)"
proof -
  have "map sch_id (case hydrate zone r of None \<Rightarrow> [] | Some s \<Rightarrow> [s]) = (if hydrate zone r \<noteq> None then [sch_id r] else [])" for r
    using hydrate_fields(1) [of zone r] by (cases "hydrate zone r") simp_all
  then show ?thesis unfolding safe_hydrate_def by (induction rs) simp_all
qed

lemma poll_found:
  assumes "distinct (map sch_id (sched_rows db))" "poll zone db p = (found, db')"
  shows "x \<in> set found \<Longrightarrow> \<exists>r \<in> set (sched_rows db). p r \<and> hydrate zone r = Some x" "distinct (map sch_id found)"
proof -
  have f: "found = fst (safe_hydrate zone (sort_key due_order (filter p (sched_rows db))))"
    using assms(2) unfolding poll_def by (auto split: prod.splits)
  show "x \<in> set found \<Longrightarrow> \<exists>r \<in> set (sched_rows db). p r \<and> hydrate zone r = Some x"
    unfolding f safe_hydrate_found by auto
  have "distinct (map sch_id (sort_key due_order (filter p (sched_rows db))))"
    using distinct_map_filter [OF assms(1), of p] by (simp add: distinct_map)
  then show "distinct (map sch_id found)" unfolding f safe_hydrate_ids by (rule distinct_map_filter)
qed

lemma live_at_update:
  "live_at zone (update_rows db p f) i n \<longleftrightarrow> (\<exists>r \<in> set (sched_rows db). sch_id (if p r then f r else r) = i
     \<and> sch_enabled (if p r then f r else r) \<and> next_run_at (if p r then f r else r) = Some n \<and> hydrate zone (if p r then f r else r) \<noteq> None)"
  by (simp add: live_at_def update_rows_def del: if_image_distrib)

lemma poll_rows:
  assumes "poll zone db p = (found, db')"
  shows "map sch_id (sched_rows db') = map sch_id (sched_rows db)" "live_at zone db' i n \<Longrightarrow> live_at zone db i n"
proof -
  have "db' = db \<or> (\<exists>ids. db' = quarantine db ids)"
    using assms unfolding poll_def by (auto split: prod.splits if_splits)
  moreover have "live_at zone (quarantine db ids) i n \<Longrightarrow> live_at zone db i n" for ids
    unfolding quarantine_def live_at_update by (auto simp: live_at_def split: if_splits)
  moreover have "map sch_id (sched_rows (quarantine db ids)) = map sch_id (sched_rows db)" for ids
    unfolding quarantine_def by (rule update_rows_ids) simp
  ultimately show "map sch_id (sched_rows db') = map sch_id (sched_rows db)" "live_at zone db' i n \<Longrightarrow> live_at zone db i n"
    by auto
qed

lemma advance_ids: "map sch_id (sched_rows (advance_run_state db i fired nxt ended)) = map sch_id (sched_rows db)"
  unfolding advance_run_state_def by (rule update_rows_ids) simp

lemma prune_add_rows [simp]: "sched_rows (prune_for_schedule (run_add db run) i k) = sched_rows db"
  by (simp add: prune_for_schedule_def run_add_def Let_def)

lemma live_at_rows: "sched_rows db' = sched_rows db \<Longrightarrow> live_at zone db' = live_at zone db"
  by (intro ext) (simp add: live_at_def)

lemma advance_live:
  assumes "live_at zone (advance_run_state db i fired nxt ended) j n"
  shows "live_at zone db j n \<and> \<not> (j = i \<and> n = fired \<and> nxt \<noteq> n) \<or> n = nxt"
  using assms unfolding advance_run_state_def live_at_update by (auto simp: live_at_def split: if_splits)

lemma record_rows_result:
  assumes "record_rows cfg cal db x run (Some (now, ended)) = (recorded, db')" "next_run_at x = Some occ"
    and later: "next_occurrence cal x now > now" and d: "distinct (map sch_id (sched_rows db))"
  shows "map sch_id (sched_rows db') = map sch_id (sched_rows db)"
    "live_at (known_zone cal) db' i n \<Longrightarrow> live_at (known_zone cal) db i n \<or> now < n"
    "occ \<le> now \<Longrightarrow> (\<And>m. live_at (known_zone cal) db (sch_id x) m \<Longrightarrow> occ \<le> m) \<Longrightarrow>
       live_at (known_zone cal) db' (sch_id x) n \<Longrightarrow> occ < n"
proof -
  have db': "recorded \<and> db' = advance_run_state (prune_for_schedule (run_add db run) (sch_id x) (history_cap cfg)) (sch_id x) occ (next_occurrence cal x now) ended
      \<or> \<not> recorded \<and> db' = db \<and> sch_lock (known_zone cal) db (sch_id x) = None"
    using assms(1,2) unfolding record_rows_def by (auto simp: Let_def split: if_splits)
  then show "map sch_id (sched_rows db') = map sch_id (sched_rows db)" by (auto simp: advance_ids)
  have adv: "live_at (known_zone cal) db i n \<and> \<not> (i = sch_id x \<and> n = occ) \<or> n > now"
    if "recorded" "live_at (known_zone cal) db' i n" "occ \<le> now" for i n
    using that db' later advance_live [of "known_zone cal" "prune_for_schedule (run_add db run) (sch_id x) (history_cap cfg)"]
      live_at_rows [of "prune_for_schedule (run_add db run) (sch_id x) (history_cap cfg)" db "known_zone cal"] by fastforce
  show "live_at (known_zone cal) db' i n \<Longrightarrow> live_at (known_zone cal) db i n \<or> now < n"
    using db' later advance_live [of "known_zone cal" "prune_for_schedule (run_add db run) (sch_id x) (history_cap cfg)"]
      live_at_rows [of "prune_for_schedule (run_add db run) (sch_id x) (history_cap cfg)" db "known_zone cal"] by fastforce
  show "occ < n" if "occ \<le> now" "\<And>m. live_at (known_zone cal) db (sch_id x) m \<Longrightarrow> occ \<le> m" "live_at (known_zone cal) db' (sch_id x) n"
  proof (cases recorded)
    case True
    then show ?thesis using adv [OF True that(3,1)] that(1,2) by fastforce
  next
    case False
    then show ?thesis using db' lock_None [OF d] that(3) by blast
  qed
qed

section \<open>The steps of a tick\<close>

lemma begin_tick_inv:
  assumes inv: "once_inv cal s"
  shows "once_inv cal (begin_tick cal s)"
proof (cases "tick_now s = None")
  case True
  obtain due db' where p: "list_due (known_zone cal) (sdb s) (clk s) = (due, db')" by fastforce
  note d = once_invD(1) [OF inv]
  note found = poll_found [OF d p [unfolded list_due_def]]
  note rows = poll_rows [OF p [unfolded list_due_def]]
  have none: "tasks s = []" using once_invD(3) [OF inv] True by blast
  define s' where "s' = begin_tick cal s"
  have s': "sdb s' = db'" "tasks s' = map (\<lambda>x. \<lparr>t_sched = x, t_stage = Due, t_retry = False\<rparr>) due" "tick_now s' = Some (clk s)"
    "clk s' = clk s" "evs s' = evs s" "tracked_of s' = tracked_of s"
    using True p by (simp_all add: s'_def begin_tick_def tracked_of_def)
  have spent: "spent (known_zone cal) s x \<Longrightarrow> live_at (known_zone cal) (sdb s) (fst x) n \<Longrightarrow> snd x < n" for x n
    by (auto simp: spent_def none)
  have "task_sound (known_zone cal) s' t" if t: "t \<in> set (tasks s')" for t
  proof -
    obtain x where x: "x \<in> set due" "t = \<lparr>t_sched = x, t_stage = Due, t_retry = False\<rparr>" using t by (auto simp: s')
    obtain r n where r: "r \<in> set (sched_rows (sdb s))" "sch_enabled r" "next_run_at r = Some n" "n \<le> clk s" "hydrate (known_zone cal) r = Some x"
      using found(1) [OF x(1)] by (auto split: option.splits)
    have id: "task_id t = sch_id r" "next_run_at x = Some n" using hydrate_fields [OF r(5)] r(3) x(2) by (simp_all add: task_id_def)
    have live: "live_at (known_zone cal) (sdb s) (task_id t) n" using r id by (auto simp: live_at_def)
    have "n \<le> m" if m: "live_at (known_zone cal) db' (task_id t) m" for m
    proof -
      obtain r' where "r' \<in> set (sched_rows (sdb s))" "sch_id r' = sch_id r" "next_run_at r' = Some m"
        using rows(2) [OF m] id by (auto simp: live_at_def)
      then have "r' = r" using d r(1) by (auto simp: distinct_map dest: inj_onD)
      then show ?thesis using \<open>next_run_at r' = Some m\<close> r(3) by simp
    qed
    moreover have "(task_id t, n) \<notin> fst (tracked_of s) \<and> (task_id t, n) \<notin> snd (tracked_of s)"
      using spent [of "(task_id t, n)" n] live once_invD(5) [OF inv] by fastforce
    ultimately show ?thesis unfolding task_sound_def s' using r id x(2) by auto
  qed
  moreover have "spent (known_zone cal) s' x" if "x \<in> fst (tracked_of s) \<union> snd (tracked_of s)" for x
    using spent [of x] once_invD(5) [OF inv, of x] that rows(2) unfolding spent_def s' by blast
  moreover have "map task_id (tasks s') = map sch_id due" unfolding s' by (simp add: task_id_def comp_def)
  ultimately show ?thesis
    using d found(2) rows(1) once_invD(6) [OF inv] unfolding once_inv_def s'_def [symmetric] by (simp add: s'(1,3-6))
qed (use inv in \<open>simp add: begin_tick_def\<close>)

lemma set_stage_inv:
  assumes inv: "once_inv cal s" and "st \<noteq> Due" and st: "\<And>t. t \<in> set (tasks s) \<Longrightarrow> task_id t = i \<Longrightarrow> underway t \<Longrightarrow> st \<noteq> Due \<and> st \<noteq> Claimed"
  shows "once_inv cal (set_stage i st s)"
proof -
  let ?f = "\<lambda>t. if task_id t = i then t\<lparr>t_stage := st\<rparr> else t" and ?s = "set_stage i st s"
  have t: "tasks ?s = map ?f (tasks s)" by (simp add: set_stage_def)
  have f [simp]: "task_id (?f t) = task_id t" "t_sched (?f t) = t_sched t" "t_retry (?f t) = t_retry t" for t by (simp_all add: task_id_def)
  have up: "underway (?f t)" if "t \<in> set (tasks s)" "underway t" for t using st that by (auto simp: underway_def)
  have tr: "tracked_of ?s = tracked_of s" by (simp add: tracked_of_def)
  have due: "t_stage t \<noteq> Due \<Longrightarrow> t_stage (?f t) \<noteq> Due" for t using \<open>st \<noteq> Due\<close> by simp
  have "task_sound (known_zone cal) ?s t" if t': "t \<in> set (tasks ?s)" for t
  proof -
    obtain u where u: "u \<in> set (tasks s)" "t = ?f u" using t' unfolding t by auto
    show ?thesis using once_invD(4) [OF inv u(1)] up [OF u(1)] due [of u] unfolding task_sound_def u(2) f tr stage_fields by blast
  qed
  moreover have "spent (known_zone cal) ?s x" if "x \<in> fst (tracked_of s) \<union> snd (tracked_of s)" for x
  proof -
    have "\<exists>t \<in> set (tasks ?s). task_id t = fst x \<and> \<not> t_retry t \<and> next_run_at (t_sched t) = Some (snd x) \<and> underway t"
      if e: "\<exists>t \<in> set (tasks s). task_id t = fst x \<and> \<not> t_retry t \<and> next_run_at (t_sched t) = Some (snd x) \<and> underway t"
    proof -
      obtain u where u: "u \<in> set (tasks s)" "task_id u = fst x \<and> \<not> t_retry u \<and> next_run_at (t_sched u) = Some (snd x) \<and> underway u"
        using e by blast
      have "?f u \<in> set (tasks ?s)" unfolding t set_map using u(1) by (rule imageI)
      moreover have "task_id (?f u) = fst x \<and> \<not> t_retry (?f u) \<and> next_run_at (t_sched (?f u)) = Some (snd x) \<and> underway (?f u)"
        using up [OF u(1)] u(2) unfolding f by blast
      ultimately show ?thesis by blast
    qed
    moreover have "spent (known_zone cal) s x" using once_invD(5) [OF inv] that by blast
    ultimately show ?thesis unfolding spent_def tr stage_fields by blast
  qed
  moreover have "map task_id (tasks ?s) = map task_id (tasks s)" unfolding t by (simp add: comp_def)
  moreover have "tasks ?s \<noteq> [] \<longleftrightarrow> tasks s \<noteq> []" "tick_now ?s = tick_now s" by (simp_all add: set_stage_def)
  ultimately show ?thesis using inv unfolding once_inv_def tr stage_fields by simp
qed

lemma dispatch_inv:
  assumes inv: "once_inv cal s" and t: "t \<in> set (tasks s)" "\<not> t_retry t" "underway t" "next_run_at (t_sched t) = Some occ"
    and new: "(task_id t, occ) \<notin> fst (tracked_of s)"
  shows "once_inv cal (log_events [Dispatched (task_id t) (Some occ)] s)"
proof -
  let ?s = "log_events [Dispatched (task_id t) (Some occ)] s"
  obtain st rc where tr: "tracked_of s = (st, rc)" by fastforce
  have tr': "tracked_of ?s = (insert (task_id t, occ) st, rc)" by (simp add: tracked_log tr)
  have sound: "occ \<le> clk s" "(task_id t, occ) \<notin> rc" using once_invD(4) [OF inv t(1)] t(2,4) tr by (auto simp: task_sound_def)
  have "task_sound (known_zone cal) ?s u" if u: "u \<in> set (tasks s)" for u
  proof -
    have "u = t" if "task_id u = task_id t" using that t(1) u once_invD(2) [OF inv] by (auto simp: distinct_map dest: inj_onD)
    then show ?thesis using once_invD(4) [OF inv u] t(3) unfolding task_sound_def tr' tr stage_fields by auto
  qed
  moreover have "spent (known_zone cal) ?s x" if "x \<in> insert (task_id t, occ) st \<union> rc" for x
  proof (cases "x = (task_id t, occ)")
    case True
    then show ?thesis using t sound unfolding spent_def tr' stage_fields by auto
  next
    case False
    then have "spent (known_zone cal) s x" using once_invD(5) [OF inv, of x] that by (auto simp: tr)
    then show ?thesis unfolding spent_def tr' tr stage_fields by auto
  qed
  moreover have "replay_free ({}, {}) (evs ?s)"
    using once_invD(6) [OF inv] new sound(2) tr unfolding tracked_of_def by (simp add: replay_free_append)
  moreover have "tick_now ?s = tick_now s" by (simp add: log_events_def)
  ultimately show ?thesis using inv unfolding once_inv_def tr' stage_fields by simp
qed

lemma task_unique: "once_inv cal s \<Longrightarrow> t \<in> set (tasks s) \<Longrightarrow> u \<in> set (tasks s) \<Longrightarrow> task_id u = task_id t \<Longrightarrow> u = t"
  using once_invD(2) by (auto simp: distinct_map dest: inj_onD)

lemma drop_inv:
  \<comment> \<open>a task that is not underway, or a retry, leaves\<close>
  assumes inv: "once_inv cal s" and t: "\<And>t. t \<in> set (tasks s) \<Longrightarrow> task_id t = i \<Longrightarrow> t_retry t \<or> \<not> underway t"
    and s': "evs s' = evs s @ es" "list_all untracked es" "tasks s' = filter (\<lambda>t. task_id t \<noteq> i) (tasks s)"
      "tick_now s' = tick_now s" "clk s' = clk s" "sched_rows (sdb s') = sched_rows (sdb s)"
  shows "once_inv cal s'"
proof (rule once_inv_rows [OF inv s'(1,2)])
  show "tasks s' \<noteq> [] \<Longrightarrow> tick_now s' \<noteq> None" using once_invD(3) [OF inv] unfolding s' by (cases "tasks s") auto
  show "distinct (map task_id (tasks s'))" using distinct_map_filter [OF once_invD(2) [OF inv]] s' by simp
qed (use t once_invD(1) [OF inv] in \<open>auto simp: s' live_at_rows [OF s'(6)]\<close>)

lemma record_run_shape:
  assumes "record_run cfg cal db rn x r rid started finished adv = (recorded, db', rn', es)"
  shows "\<exists>run. record_rows cfg cal db x run adv = (recorded, db')"
    "\<exists>es'. list_all untracked es' \<and> es = (if recorded then [Recorded (sch_id x) (if adv = None then None else next_run_at x)] else []) @ es'"
proof -
  have n: "list_all untracked (snd (notify_outcome i oc rn))" for i oc rn by (cases oc) (simp_all add: notify_outcome_def)
  show "\<exists>run. record_rows cfg cal db x run adv = (recorded, db')"
    using assms unfolding record_run_def Let_def by (auto split: prod.splits)
  show "\<exists>es'. list_all untracked es' \<and> es = (if recorded then [Recorded (sch_id x) (if adv = None then None else next_run_at x)] else []) @ es'"
    using assms n [of "sch_id x" "ar_outcome r" rn] unfolding record_run_def Let_def by (auto split: prod.splits)
qed

lemma do_record_shape:
  assumes "do_record cfg cal s t r rid started finished adv = (recorded, s')"
  obtains db' rn' es run where "record_rows cfg cal (sdb s) (t_sched t) run adv = (recorded, db')" "list_all untracked es"
    "s' = log_events ((if recorded then [Recorded (task_id t) (if adv = None then None else next_run_at (t_sched t))] else []) @ es)
            (drop_task (task_id t) (s\<lparr>sdb := db', rnr := rn'\<rparr>))"
proof -
  obtain db' rn' es where r: "record_run cfg cal (sdb s) (rnr s) (t_sched t) r rid started finished adv = (recorded, db', rn', es)"
    using assms unfolding do_record_def by (auto split: prod.splits)
  have "s' = log_events es (drop_task (task_id t) (s\<lparr>sdb := db', rnr := rn'\<rparr>))" using assms r by (simp add: do_record_def)
  with record_run_shape [OF r] that show thesis unfolding task_id_def by metis
qed

lemma retry_record_inv:
  assumes inv: "once_inv cal s" and t: "t \<in> set (tasks s)" "t_retry t"
    and r: "do_record cfg cal s t r rid started finished None = (recorded, s')"
  shows "once_inv cal s'"
proof -
  obtain db' rn' es run where e': "record_rows cfg cal (sdb s) (t_sched t) run None = (recorded, db')" "list_all untracked es"
    "s' = log_events ((if recorded then [Recorded (task_id t) (if (None :: (instant \<times> instant option) option) = None then None else next_run_at (t_sched t))] else []) @ es)
            (drop_task (task_id t) (s\<lparr>sdb := db', rnr := rn'\<rparr>))"
    by (rule do_record_shape [OF r])
  have e3: "s' = log_events ((if recorded then [Recorded (task_id t) None] else []) @ es) (drop_task (task_id t) (s\<lparr>sdb := db', rnr := rn'\<rparr>))"
    using e'(3) by simp
  note e = e'(1,2) e3
  have "sched_rows db' = sched_rows (sdb s)" using e(1) unfolding record_rows_def by (auto simp: Let_def split: if_splits)
  moreover have "list_all untracked ((if recorded then [Recorded (task_id t) None] else []) @ es)" using e(2) by simp
  ultimately show ?thesis
    by (intro drop_inv [OF inv, of "task_id t" s']) (use task_unique [OF inv t(1)] t(2) in \<open>auto simp: e(3) log_events_def drop_task_def\<close>)
qed

lemma regular_record_inv:
  assumes inv: "once_inv cal s" and cal: "calendar_ok cal" and t: "t \<in> set (tasks s)" "\<not> t_retry t"
    and r: "do_record cfg cal s t r rid started finished (Some (clk s, ended)) = (recorded, s')"
  shows "once_inv cal s'"
proof -
  let ?z = "known_zone cal"
  obtain row occ where sound: "hydrate ?z row = Some (t_sched t)" "next_run_at (t_sched t) = Some occ" "occ \<le> clk s"
    "\<And>n. live_at ?z (sdb s) (task_id t) n \<Longrightarrow> occ \<le> n" "(task_id t, occ) \<notin> snd (tracked_of s)"
    using once_invD(4) [OF inv t(1)] t(2) unfolding task_sound_def by blast
  obtain db' rn' es run where e': "record_rows cfg cal (sdb s) (t_sched t) run (Some (clk s, ended)) = (recorded, db')" "list_all untracked es"
    "s' = log_events ((if recorded then [Recorded (task_id t) (if Some (clk s, ended) = None then None else next_run_at (t_sched t))] else []) @ es)
            (drop_task (task_id t) (s\<lparr>sdb := db', rnr := rn'\<rparr>))"
    by (rule do_record_shape [OF r])
  have e3: "s' = log_events ((if recorded then [Recorded (task_id t) (Some occ)] else []) @ es) (drop_task (task_id t) (s\<lparr>sdb := db', rnr := rn'\<rparr>))"
    using e'(3) sound(2) by simp
  note e = e'(1,2) e3
  note d = once_invD(1) [OF inv]
  note rr = record_rows_result [OF e(1) sound(2) next_run_after(2) [OF cal hydrate_fields(4) [OF sound(1)]] d]
  obtain st rc where tr: "tracked_of s = (st, rc)" by fastforce
  let ?rc = "if recorded then insert (task_id t, occ) rc else rc"
  have s': "sdb s' = db'" "clk s' = clk s" "tasks s' = filter (\<lambda>u. task_id u \<noteq> task_id t) (tasks s)" "tick_now s' = tick_now s"
    by (simp_all add: e(3) log_events_def drop_task_def)
  have tr': "tracked_of s' = (st, ?rc)" using untracked_list [OF e(2)] tr by (simp add: e(3) tracked_of_def)
  have "task_sound ?z s' u" if u: "u \<in> set (tasks s')" for u
  proof -
    have u': "u \<in> set (tasks s)" "task_id u \<noteq> task_id t" using u by (auto simp: s')
    have "o' \<le> n" if "o' \<le> clk s" "\<forall>n. live_at ?z (sdb s) i n \<longrightarrow> o' \<le> n" "live_at ?z db' i n" for o' i n
      using rr(2) [OF that(3)] that(1,2) by fastforce
    moreover have "(task_id u, o') \<notin> rc \<Longrightarrow> (task_id u, o') \<notin> ?rc" for o' using u'(2) by auto
    ultimately show ?thesis using once_invD(4) [OF inv u'(1)] unfolding task_sound_def tr' tr s' fst_conv snd_conv by blast
  qed
  moreover have "spent ?z s' x" if x: "x \<in> st \<union> ?rc" for x
  proof (cases "fst x = task_id t")
    case True
    have "spent ?z s x \<or> x = (task_id t, occ)" using once_invD(5) [OF inv, of x] x tr by (auto split: if_splits)
    then have "snd x \<le> clk s \<and> (\<forall>n. live_at ?z (sdb s) (fst x) n \<longrightarrow> snd x < n) \<or> snd x = occ"
      using task_unique [OF inv t(1)] True sound(2) unfolding spent_def by (metis option.inject snd_conv)
    then show ?thesis
    proof
      assume a: "snd x \<le> clk s \<and> (\<forall>n. live_at ?z (sdb s) (fst x) n \<longrightarrow> snd x < n)"
      then have "snd x < n" if l: "live_at ?z db' (fst x) n" for n using rr(2) [OF l] by fastforce
      then show ?thesis using a unfolding spent_def s' by blast
    next
      assume "snd x = occ"
      then show ?thesis using rr(3) sound(3,4) True unfolding spent_def s' by (simp add: task_id_def)
    qed
  next
    case False
    then have "spent ?z s x" "x \<in> ?rc \<longleftrightarrow> x \<in> rc" using once_invD(5) [OF inv, of x] x tr by (auto split: if_splits)
    moreover have "snd x < n" if "snd x \<le> clk s" "\<forall>n. live_at ?z (sdb s) (fst x) n \<longrightarrow> snd x < n" "live_at ?z db' (fst x) n" for n
      using rr(2) [OF that(3)] that(1,2) by fastforce
    ultimately show ?thesis using False unfolding spent_def tr' tr s' by auto
  qed
  moreover have "replay_free ({}, {}) (evs s')"
    using once_invD(6) [OF inv] sound(5) untracked_list [OF e(2)] tr unfolding tracked_of_def by (simp add: e(3) replay_free_append)
  moreover have "distinct (map task_id (tasks s'))" unfolding s' by (rule distinct_map_filter [OF once_invD(2) [OF inv]])
  moreover have "tasks s' \<noteq> [] \<Longrightarrow> tick_now s' \<noteq> None" using once_invD(3) [OF inv] unfolding s' by (cases "tasks s") auto
  ultimately show ?thesis using d rr(1) unfolding once_inv_def tr' s'(1) by (simp only: fst_conv snd_conv) blast
qed

lemma skip_stale_inv:
  assumes inv: "once_inv cal s" and cal: "calendar_ok cal" and t: "t \<in> set (tasks s)"
  shows "once_inv cal (skip_stale_task cfg cal s t rid)"
proof (cases "t_stage t \<noteq> Due \<or> \<not> skips_stale s (t_sched t)")
  case False
  then have nr: "\<not> t_retry t" using once_invD(4) [OF inv t] by (auto simp: task_sound_def)
  obtain b s' where r: "do_record cfg cal s t (skipped_result ''occurrence too stale'' None) rid (clk s) (clk s)
      (Some (clk s, last_run_at (t_sched t))) = (b, s')" by fastforce
  show ?thesis using regular_record_inv [OF inv cal t nr r] False by (simp add: skip_stale_task_def r)
qed (use inv in \<open>auto simp: skip_stale_task_def\<close>)

lemma claim_task_inv:
  assumes inv: "once_inv cal s" and t: "t \<in> set (tasks s)"
  shows "once_inv cal (claim_task cal s t)"
proof (cases "t_stage t \<noteq> Due \<or> skips_stale s (t_sched t)")
  case False
  have up: "u \<in> set (tasks s) \<Longrightarrow> task_id u = task_id t \<Longrightarrow> \<not> underway u" for u
    using task_unique [OF inv t] False by (auto simp: underway_def)
  have drop: "once_inv cal (log_events es (drop_task (task_id t) (s\<lparr>rnr := rn\<rparr>)))" if "list_all untracked es" for es rn
    by (rule drop_inv [OF inv, of "task_id t" _ es]) (use up that in \<open>auto simp: log_events_def drop_task_def\<close>)
  have "once_inv cal (drop_task (task_id t) s)"
    by (rule drop_inv [OF inv, of "task_id t" _ "[]"]) (use up in \<open>auto simp: drop_task_def\<close>)
  moreover have "once_inv cal (set_stage (task_id t) Claimed s)" by (rule set_stage_inv [OF inv]) (use up in auto)
  moreover have "once_inv cal (log_events [Forgot (task_id t)] (drop_task (task_id t) (s\<lparr>rnr := drop_memory (task_id t) (rnr s)\<rparr>)))"
    by (rule drop) simp
  ultimately show ?thesis using False unfolding claim_task_def by (simp split: option.split)
qed (use inv in \<open>auto simp: claim_task_def\<close>)

lemma execute_task_inv:
  assumes inv: "once_inv cal s" and t: "t \<in> set (tasks s)"
  shows "once_inv cal (execute_task s t)"
proof (cases "t_stage t = Claimed")
  case True
  have up: "u \<in> set (tasks s) \<Longrightarrow> task_id u = task_id t \<Longrightarrow> \<not> underway u" for u
    using task_unique [OF inv t] True by (auto simp: underway_def)
  have st: "once_inv cal (set_stage (task_id t) st s)" if "st \<noteq> Due" for st
    by (rule set_stage_inv [OF inv that]) (use up in auto)
  have "once_inv cal (log_events [Dispatched (task_id t) (if t_retry t then None else next_run_at (t_sched t))]
          (set_stage (task_id t) (Running (clk s) srv) s))" for srv
  proof -
    let ?s = "set_stage (task_id t) (Running (clk s) srv) s" and ?t = "t\<lparr>t_stage := Running (clk s) srv\<rparr>"
    have i: "once_inv cal ?s" by (rule st) simp
    have m: "?t \<in> set (tasks ?s)" using t by (force simp: set_stage_def)
    have f: "task_id ?t = task_id t" "t_sched ?t = t_sched t" "underway ?t" by (simp_all add: task_id_def underway_def)
    show ?thesis
    proof (cases "t_retry t")
      case True
      have n: "list_all untracked [Dispatched (task_id t) None]" by simp
      have r: "(if t_retry t then None else next_run_at (t_sched t)) = None" using True by simp
      show ?thesis unfolding r
        by (rule once_inv_rows [OF i _ n]) (use once_invD [OF i] in \<open>auto simp: log_events_def\<close>)
    next
      case False
      then obtain occ where occ: "next_run_at (t_sched t) = Some occ" "(task_id t, occ) \<notin> fst (tracked_of s)"
        using once_invD(4) [OF inv t] up [OF t] by (auto simp: task_sound_def)
      have "tracked_of ?s = tracked_of s" by (simp add: tracked_of_def)
      then show ?thesis using dispatch_inv [OF i m] f False occ by simp
    qed
  qed
  moreover have "once_inv cal (set_stage (task_id t) (Executed a b r) s)" for a b r by (rule st) simp
  ultimately show ?thesis using True unfolding execute_task_def by (simp split: sum.split split del: if_split)
qed (use inv in \<open>simp add: execute_task_def\<close>)

lemma finish_task_inv: "once_inv cal s \<Longrightarrow> once_inv cal (finish_task s t err)"
  unfolding finish_task_def by (auto split: stage.split intro: set_stage_inv)

lemma untracked_log_inv:
  assumes inv: "once_inv cal s" and n: "list_all untracked es"
  shows "once_inv cal (log_events es (s\<lparr>rnr := rn\<rparr>))"
  by (rule once_inv_rows [OF inv _ n]) (use once_invD [OF inv] in \<open>auto simp: log_events_def\<close>)

lemma record_task_inv:
  assumes inv: "once_inv cal s" and cal: "calendar_ok cal" and t: "t \<in> set (tasks s)"
  shows "once_inv cal (record_task cfg cal s t rid)"
proof (cases "t_stage t")
  case (Executed started finished r)
  obtain recorded s' where d: "do_record cfg cal s t r rid started finished
      (if t_retry t then None else Some (clk s, Some started)) = (recorded, s')" by fastforce
  have i: "once_inv cal s'"
    using retry_record_inv [OF inv t] regular_record_inv [OF inv cal t] d by (cases "t_retry t") auto
  have "list_all untracked (prune_events cfg (t_sched t) r)" by (simp add: prune_events_def)
  from untracked_log_inv [OF i this] untracked_log_inv [OF i this, of "rnr s'"]
  show ?thesis unfolding record_task_def Executed by (simp add: d Let_def)
qed (use inv in \<open>simp_all add: record_task_def\<close>)

lemma crash_inv:
  assumes inv: "once_inv cal s"
  shows "once_inv cal (log_events [Crashed i] (drop_task i s))"
proof -
  let ?s = "log_events [Crashed i] (drop_task i s)"
  obtain st rc where tr: "tracked_of s = (st, rc)" by fastforce
  have tr': "tracked_of ?s = ({x \<in> st. fst x \<noteq> i}, rc)" using tr by (simp add: tracked_of_def)
  have t: "tasks ?s = filter (\<lambda>t. task_id t \<noteq> i) (tasks s)" "tick_now ?s = tick_now s" by (simp_all add: drop_task_def log_events_def)
  have sdb: "sdb ?s = sdb s" "clk ?s = clk s" by simp_all
  have "task_sound (known_zone cal) ?s u" if u: "u \<in> set (tasks ?s)" for u
  proof -
    have "u \<in> set (tasks s)" "task_id u \<noteq> i" using u unfolding t by auto
    then show ?thesis using once_invD(4) [OF inv, of u] unfolding task_sound_def tr tr' sdb by auto
  qed
  moreover have "spent (known_zone cal) ?s x" if "x \<in> {x \<in> st. fst x \<noteq> i} \<union> rc" for x
    using once_invD(5) [OF inv, of x] that unfolding spent_def tr tr' t sdb by auto metis
  moreover have "replay_free ({}, {}) (evs ?s)" using once_invD(6) [OF inv] by (simp add: replay_free_append split: prod.split)
  moreover have "distinct (map task_id (tasks ?s))" unfolding t by (rule distinct_map_filter [OF once_invD(2) [OF inv]])
  moreover have "tasks ?s \<noteq> [] \<Longrightarrow> tick_now ?s \<noteq> None" using once_invD(3) [OF inv] unfolding t by (cases "tasks s") auto
  ultimately show ?thesis using once_invD(1) [OF inv] unfolding once_inv_def tr' t(2) sdb by (simp only: fst_conv snd_conv) blast
qed

lemma restart_inv:
  assumes inv: "once_inv cal s"
  shows "once_inv cal (log_events [Restarted] (s\<lparr>rnr := new_runner, tasks := [], tick_now := None, warn_queue := [], open_edits := []\<rparr>))"
proof -
  obtain st rc where tr: "tracked_of s = (st, rc)" by fastforce
  then have tr': "tracked_of (log_events [Restarted] (s\<lparr>rnr := new_runner, tasks := [], tick_now := None, warn_queue := [], open_edits := []\<rparr>)) = ({}, rc)"
    by (simp add: tracked_of_def log_events_def)
  show ?thesis using inv unfolding once_inv_def tr' tr by (auto simp: spent_def tr tr' replay_free_append log_events_def split: prod.split)
qed

section \<open>The use cases and the theorem\<close>

lemma plain_inv:
  \<comment> \<open>a step with no event that leaves the tasks alone\<close>
  assumes inv: "once_inv cal s" and e: "evs s' = evs s" "tasks s' = tasks s" "tick_now s' = tick_now s" "clk s \<le> clk s'"
    and d: "distinct (map sch_id (sched_rows (sdb s')))"
    and l: "\<And>i n. live_at (known_zone cal) (sdb s') i n \<Longrightarrow> live_at (known_zone cal) (sdb s) i n \<or> clk s < n"
  shows "once_inv cal s'"
  by (rule once_inv_rows [OF inv, of s' "[]"]) (use once_invD [OF inv] e d l in auto)

lemma try_thenD: "try_then x f = Inr y \<Longrightarrow> \<exists>v. x = Inr v \<and> f v = Inr y"
  by (auto simp: try_then_def split: sum.splits)

lemma with_next_run_due:
  assumes "with_next_run cal s now = Inr s'" "calendar_ok cal" "cadence_ok (sch_cadence s)"
  shows "sch_id s' = sch_id s" "sch_enabled s' \<Longrightarrow> \<exists>n. next_run_at s' = Some n \<and> now < n"
  using assms mk_schedule_fields [of "known_zone cal" "s\<lparr>next_run_at := Some (next_run cal s now)\<rparr>" s'] next_run_after(1) [OF assms(2,3)]
  unfolding with_next_run_def by (auto split: if_splits)

lemma create_rows:
  assumes c: "create_schedule cal auth t db now i com srv action inp = Inr (s, db')" and cal: "calendar_ok cal"
  shows "sched_rows db' = sched_rows db @ [s]" "sch_id s = i" "sch_enabled s \<Longrightarrow> \<exists>n. next_run_at s = Some n \<and> now < n"
proof -
  obtain cd steps s0 where a: "checked_cadence cal (in_cron inp) (in_interval inp) = Inr cd" and m: "mk_schedule (known_zone cal)
        \<lparr>sch_id = i, sch_server = srv, sch_name = in_name inp, sch_action = action, sch_cadence = cd,
         sch_enabled = in_enabled inp, sch_created = now, sch_updated = now, timezone = in_timezone inp,
         sch_command = in_command inp, warning_steps = steps, only_when_running = in_only_when_running inp,
         next_run_at = None, last_run_at = None, created_by = in_created_by inp\<rparr> = Inr s0"
    and w: "with_next_run cal s0 now = Inr s" and ad: "sch_add db s = Inr db'"
    using c unfolding create_schedule_def by (auto dest!: try_thenD)
  from mk_schedule_fields [OF m] checked_cadence_ok [OF a] have f: "sch_id s0 = i" "cadence_ok (sch_cadence s0)" by simp_all
  show "sched_rows db' = sched_rows db @ [s]" using ad unfolding sch_add_def by (auto split: if_splits)
  show "sch_id s = i" "sch_enabled s \<Longrightarrow> \<exists>n. next_run_at s = Some n \<and> now < n"
    using with_next_run_due [OF w cal f(2)] f(1) by simp_all
qed

lemma load_schedule_found: "load_schedule zone t db com srv i = Inr s \<Longrightarrow> sch_get_by_id zone db i = Some s"
  unfolding load_schedule_def by (auto split: sum.splits option.splits if_splits)

lemma update_rows_due:
  assumes c: "update_schedule cal auth t db now com srv i p = Inr (s, db')" and cal: "calendar_ok cal"
  shows "next_run_at s = Some n \<Longrightarrow> now < n"
proof -
  obtain e cd steps s0 where l: "load_schedule (known_zone cal) t db com srv i = Inr e"
    and a: "(if p_cron p \<noteq> None \<or> p_interval p \<noteq> None then checked_cadence cal (p_cron p) (p_interval p) else Inr (sch_cadence e)) = Inr cd"
    and m: "mk_schedule (known_zone cal)
        (e\<lparr>sch_name := or_else (p_name p) (sch_name e), sch_cadence := cd,
                  timezone := or_else (p_timezone p) (timezone e),
                  sch_enabled := or_else (p_enabled p) (sch_enabled e),
                  sch_command := (if p_command p = None then sch_command e else p_command p),
                  warning_steps := steps,
                  only_when_running := (if p_only_when_running p = None then only_when_running e else p_only_when_running p),
                  next_run_at := None, sch_updated := now\<rparr>) = Inr s0"
    and w: "with_next_run cal s0 now = Inr s"
    using c unfolding update_schedule_def update_schedule_plan_def by (auto dest!: try_thenD)
  obtain r where "hydrate (known_zone cal) r = Some e"
    using load_schedule_found [OF l] lock_Some unfolding sch_lock_def by blast
  then have "cadence_ok cd" using a hydrate_fields(4) checked_cadence_ok by (auto split: if_splits)
  with mk_schedule_fields(2,4) [OF m] have s0: "cadence_ok (sch_cadence s0)" "next_run_at s0 = None" by simp_all
  then have "\<not> sch_enabled s0 \<Longrightarrow> next_run_at s = None" "sch_enabled s0 \<Longrightarrow> sch_enabled s"
    using w mk_schedule_fields(3) unfolding with_next_run_def by (auto split: if_splits)
  then show "next_run_at s = Some n \<Longrightarrow> now < n" using with_next_run_due(2) [OF w cal s0(1)] by (cases "sch_enabled s0") auto
qed

lemma create_inv:
  assumes inv: "once_inv cal s" and cal: "calendar_ok cal"
  shows "once_inv cal (if row_of (sdb s) i \<noteq> None then s
      else case create_schedule cal auth (tbl s) (sdb s) (clk s) i com srv action inp of
             Inl _ \<Rightarrow> s | Inr (_, db') \<Rightarrow> s\<lparr>sdb := db'\<rparr>)"
proof -
  have "once_inv cal (s\<lparr>sdb := db'\<rparr>)" if n: "row_of (sdb s) i = None"
    and c: "create_schedule cal auth (tbl s) (sdb s) (clk s) i com srv action inp = Inr (x, db')" for x db'
  proof (rule plain_inv [OF inv])
    note r = create_rows [OF c cal]
    show "distinct (map sch_id (sched_rows (sdb (s\<lparr>sdb := db'\<rparr>))))"
      using n once_invD(1) [OF inv] unfolding row_of_def by (auto simp: r find_None_iff)
    show "live_at (known_zone cal) (sdb (s\<lparr>sdb := db'\<rparr>)) j m \<Longrightarrow> live_at (known_zone cal) (sdb s) j m \<or> clk s < m" for j m
      by (rule live_at_mono) (use r in auto)
  qed simp_all
  then show ?thesis using inv by (auto split: sum.split prod.split)
qed

definition timely :: "sched_sys \<Rightarrow> sched_op \<Rightarrow> bool" where
  \<comment> \<open>the due instant an edit writes has not passed since its read\<close>
  "timely s op \<longleftrightarrow>
     (case op of
        EditWrite k \<Rightarrow>
          (case dget (open_edits s) k of
             None \<Rightarrow> True
           | Some x \<Rightarrow> (case next_run_at x of None \<Rightarrow> True | Some n \<Rightarrow> clk s < n))
      | _ \<Rightarrow> True)"

fun edits_timely :: "runner_config \<Rightarrow> calendar \<Rightarrow> sched_sys \<Rightarrow> sched_op list \<Rightarrow> bool" where
  "edits_timely cfg cal s [] = True"
| "edits_timely cfg cal s (op # ops) = (timely s op \<and> edits_timely cfg cal (sched_step cfg cal s op) ops)"

lemma write_edit_inv:
  assumes inv: "once_inv cal s" and due: "timely s (EditWrite k)"
  shows "once_inv cal (write_edit s k)"
proof (cases "dget (open_edits s) k")
  case (Some x)
  define db' where "db' = (case sch_update (sdb s) x of Inl _ \<Rightarrow> sdb s | Inr d \<Rightarrow> d)"
  have "db' = sdb s \<or> db' = update_rows (sdb s) (\<lambda>r. sch_id r = sch_id x)
             (\<lambda>r. x\<lparr>sch_id := sch_id r, sch_server := sch_server r, sch_created := sch_created r, created_by := created_by r\<rparr>)"
    by (auto simp: db'_def sch_update_def)
  then have ids: "map sch_id (sched_rows db') = map sch_id (sched_rows (sdb s))"
    and rows: "\<And>r. r \<in> set (sched_rows db') \<Longrightarrow> r \<in> set (sched_rows (sdb s)) \<or> next_run_at r = next_run_at x"
    by (auto simp: update_rows_ids update_rows_mem split: if_splits)
  have "once_inv cal (s\<lparr>open_edits := dpop k (open_edits s), sdb := db'\<rparr>)"
  proof (rule plain_inv [OF inv])
    show "distinct (map sch_id (sched_rows (sdb (s\<lparr>open_edits := dpop k (open_edits s), sdb := db'\<rparr>))))"
      using once_invD(1) [OF inv] ids by simp
    have "\<And>r. r \<in> set (sched_rows db') \<Longrightarrow> r \<in> set (sched_rows (sdb s)) \<or> (\<exists>n. next_run_at r = Some n \<and> clk s < n) \<or> next_run_at r = None"
      using rows due Some by (fastforce simp: timely_def split: option.splits)
    then show "live_at (known_zone cal) (sdb (s\<lparr>open_edits := dpop k (open_edits s), sdb := db'\<rparr>)) j m \<Longrightarrow>
        live_at (known_zone cal) (sdb s) j m \<or> clk s < m" for j m
      by (intro live_at_mono) simp_all
  qed simp_all
  then show ?thesis by (simp add: write_edit_def Some db'_def)
qed (use inv in \<open>simp add: write_edit_def\<close>)

lemma read_edit_inv: "once_inv cal s \<Longrightarrow> once_inv cal (read_edit cal s k auth com srv i p)"
proof -
  assume inv: "once_inv cal s"
  have "once_inv cal (s\<lparr>open_edits := es\<rparr>)" for es
    by (rule plain_inv [OF inv]) (use once_invD(1) [OF inv] in auto)
  then show ?thesis using inv unfolding read_edit_def by (simp split: sum.split)
qed

text \<open>An edit whose write follows its read at once is the use case in one step, and timely.\<close>

lemma edit_at_once:
  assumes "dget (open_edits s) k = None" "calendar_ok cal"
  shows "sdb (sched_run cfg cal s [EditRead k auth com srv i p, EditWrite k]) =
      (case update_schedule cal auth (tbl s) (sdb s) (clk s) com srv i p of Inl _ \<Rightarrow> sdb s | Inr (_, db') \<Rightarrow> db')"
    and "edits_timely cfg cal s [EditRead k auth com srv i p, EditWrite k] \<or>
      (\<exists>e. update_schedule cal auth (tbl s) (sdb s) (clk s) com srv i p = Inl e)"
proof -
  show "sdb (sched_run cfg cal s [EditRead k auth com srv i p, EditWrite k]) =
      (case update_schedule cal auth (tbl s) (sdb s) (clk s) com srv i p of Inl _ \<Rightarrow> sdb s | Inr (_, db') \<Rightarrow> db')"
    using assms(1) by (simp add: sched_run_def read_edit_def write_edit_def update_schedule_def try_then_def split: sum.split)
  show "edits_timely cfg cal s [EditRead k auth com srv i p, EditWrite k] \<or>
      (\<exists>e. update_schedule cal auth (tbl s) (sdb s) (clk s) com srv i p = Inl e)"
  proof (cases "update_schedule cal auth (tbl s) (sdb s) (clk s) com srv i p")
    case (Inr r)
    obtain x db' where r: "update_schedule cal auth (tbl s) (sdb s) (clk s) com srv i p = Inr (x, db')"
      using Inr by (cases r) simp
    then have plan: "update_schedule_plan cal auth (tbl s) (sdb s) (clk s) com srv i p = Inr x"
      unfolding update_schedule_def by (auto dest!: try_thenD)
    show ?thesis using update_rows_due [OF r assms(2)] assms(1) plan
      by (auto simp: read_edit_def timely_def split: option.split)
  qed simp
qed

lemma delete_inv:
  assumes inv: "once_inv cal s"
  shows "once_inv cal (case delete_schedule auth (tbl s) (sdb s) com srv i of Inl _ \<Rightarrow> s | Inr db' \<Rightarrow> s\<lparr>sdb := db'\<rparr>)"
proof -
  have "once_inv cal (s\<lparr>sdb := sch_delete (sdb s) i\<rparr>)"
  proof (rule plain_inv [OF inv])
    show "distinct (map sch_id (sched_rows (sdb (s\<lparr>sdb := sch_delete (sdb s) i\<rparr>))))"
      using distinct_map_filter [OF once_invD(1) [OF inv]] by (simp add: sch_delete_def)
    show "live_at (known_zone cal) (sdb (s\<lparr>sdb := sch_delete (sdb s) i\<rparr>)) j m \<Longrightarrow> live_at (known_zone cal) (sdb s) j m \<or> clk s < m" for j m
      by (rule live_at_mono) (auto simp: sch_delete_def)
  qed simp_all
  moreover have "delete_schedule auth (tbl s) (sdb s) com srv i = Inr db' \<Longrightarrow> db' = sch_delete (sdb s) i" for db'
    unfolding delete_schedule_def by (auto dest!: try_thenD)
  ultimately show ?thesis using inv by (auto split: sum.split)
qed

lemma claim_retry_inv:
  assumes inv: "once_inv cal s"
  shows "once_inv cal (claim_retry cal s i)"
proof -
  have d: "once_inv cal (log_events es (s\<lparr>rnr := rn\<rparr>))" if "list_all untracked es" for es rn by (rule untracked_log_inv [OF inv that])
  have s: "once_inv cal (s\<lparr>rnr := rn\<rparr>)" for rn using d [of "[]" rn] by (simp add: log_events_def)
  have r: "once_inv cal (s\<lparr>rnr := rn, tasks := [\<lparr>t_sched = x, t_stage = Claimed, t_retry = True\<rparr>]\<rparr>)"
    if n: "tick_now s = Some now" "tasks s = []" and x: "sch_lock (known_zone cal) (sdb s) i = Some x" for rn x now
  proof -
    let ?s = "s\<lparr>rnr := rn, tasks := [\<lparr>t_sched = x, t_stage = Claimed, t_retry = True\<rparr>]\<rparr>"
    have tr: "tracked_of ?s = tracked_of s" by (simp add: tracked_of_def)
    have "spent (known_zone cal) ?s y" if "y \<in> fst (tracked_of s) \<union> snd (tracked_of s)" for y
      using once_invD(5) [OF inv, of y] that n(2) unfolding spent_def tr by auto
    then show ?thesis using inv lock_Some [OF x] n(1) unfolding once_inv_def tr by (auto simp: task_sound_def)
  qed
  show ?thesis
  proof (cases "tick_now s")
    case (Some now)
    show ?thesis unfolding claim_retry_def Some
      using inv r [OF Some] s d [of "[Forgot i]"] by (auto simp: Let_def split: option.split)
  qed (use inv in \<open>simp add: claim_retry_def\<close>)
qed

lemma poll_warnings_inv:
  assumes inv: "once_inv cal s"
  shows "once_inv cal (poll_warnings cal s)"
proof (cases "tick_now s = None \<or> tasks s \<noteq> [] \<or> warn_queue s \<noteq> []")
  case False
  then obtain now where n: "tick_now s = Some now" by auto
  obtain found db' where p: "list_warning_candidates (known_zone cal) (sdb s) now (now + MAX_WARNING_OFFSET_MINUTES * 60000000) = (found, db')"
    by fastforce
  note rows = poll_rows [OF p [unfolded list_warning_candidates_def]]
  have "once_inv cal (s\<lparr>rnr := rn, sdb := db', warn_queue := found\<rparr>)" for rn
    by (rule plain_inv [OF inv]) (use rows once_invD(1) [OF inv] in auto)
  then show ?thesis using False n p unfolding poll_warnings_def by simp
qed (use inv in \<open>auto simp: poll_warnings_def split: option.split\<close>)

lemma warn_inv:
  assumes inv: "once_inv cal s"
  shows "once_inv cal (warn_schedule cfg s n)"
proof -
  have q: "once_inv cal (log_events es (s\<lparr>warn_queue := q, rnr := rn\<rparr>))" if "list_all untracked es" for es q rn
  proof -
    have "once_inv cal (s\<lparr>warn_queue := q, rnr := rn\<rparr>)" by (rule plain_inv [OF inv]) (use once_invD(1) [OF inv] in auto)
    from untracked_log_inv [OF this that, of rn] show ?thesis by simp
  qed
  have c: "once_inv cal (s\<lparr>warn_queue := q, rnr := rn\<rparr>)" for q rn using q [of "[]"] by (simp add: log_events_def)
  then have c': "once_inv cal (s\<lparr>warn_queue := q\<rparr>)" for q using c [of "rnr s" q] by simp
  have w: "list_all untracked (map (\<lambda>w. WarningSent j occ (offset_minutes w)) ws)" for j occ ws by (simp add: list_all_iff)
  show ?thesis unfolding warn_schedule_def
    using inv c c' q [OF w] by (auto simp: Let_def split: option.split list.split prod.split)
qed

lemma step_inv:
  assumes inv: "once_inv cal s" and cal: "calendar_ok cal" and due: "timely s op"
  shows "once_inv cal (sched_step cfg cal s op)"
proof -
  note d = once_invD(1) [OF inv]
  have task: "once_inv cal (on_task s i f)" if "\<And>t. t \<in> set (tasks s) \<Longrightarrow> once_inv cal (f t)" for i f
    using that inv unfolding on_task_def task_of_def by (auto split: option.split simp: find_Some_iff)
  show ?thesis
  proof (cases op)
    case (RetryClaim i)
    show ?thesis unfolding RetryClaim sched_step.simps by (rule claim_retry_inv [OF inv])
  next
    case WarnPoll
    show ?thesis unfolding WarnPoll sched_step.simps by (rule poll_warnings_inv [OF inv])
  next
    case (WarnNext n)
    show ?thesis unfolding WarnNext sched_step.simps by (rule warn_inv [OF inv])
  next
    case (CreateSchedule auth com srv i action inp)
    show ?thesis unfolding CreateSchedule sched_step.simps by (rule create_inv [OF inv cal])
  next
    case (EditRead k auth com srv i p)
    show ?thesis unfolding EditRead sched_step.simps by (rule read_edit_inv [OF inv])
  next
    case (EditWrite k)
    show ?thesis unfolding EditWrite sched_step.simps by (rule write_edit_inv [OF inv due [unfolded EditWrite]])
  next
    case (DeleteSchedule auth com srv i)
    show ?thesis unfolding DeleteSchedule sched_step.simps by (rule delete_inv [OF inv])
  next
    case (ClockAdvances n)
    show ?thesis unfolding ClockAdvances sched_step.simps by (rule plain_inv [OF inv]) (use d in auto)
  next
    case (ServersChange t)
    show ?thesis unfolding ServersChange sched_step.simps by (rule plain_inv [OF inv]) (use d in auto)
  next
    case TickAborted
    show ?thesis unfolding TickAborted sched_step.simps
      using plain_inv [OF inv, of "s\<lparr>rnr := (rnr s)\<lparr>last_tick_at := Some (clk s)\<rparr>\<rparr>"] d inv by simp
  next
    case EndTick
    have "once_inv cal (s\<lparr>tick_now := None\<rparr>)" if "tasks s = []"
      by (rule once_inv_rows [OF inv, of _ "[]"]) (use once_invD [OF inv] that in auto)
    then show ?thesis unfolding EndTick sched_step.simps end_tick_def using inv by simp
  qed (use cal inv in \<open>auto intro!: task begin_tick_inv skip_stale_inv claim_task_inv execute_task_inv finish_task_inv
         record_task_inv crash_inv restart_inv\<close>)
qed

text \<open>
  C12. No occurrence is replayed, as long as no edit is written after the due instant it computed has passed. In
  every such run, whatever the order of the ticks, of their tasks, of their failures and restarts and of the
  creations, deletions and edits of schedules (the unlocked read of an edit and its write being two steps with
  anything between them), no occurrence is recorded twice, no recorded occurrence is dispatched again, and
  none is dispatched twice unless its task failed or the process restarted in between. The condition is needed:
  an edit that reads before a record of its row and writes after it brings the recorded occurrence back
  (\<open>straddling_edit_replays\<close>). The cron engine answers strictly later instants and the ids of the rows are
  distinct, as their primary key makes them.
\<close>

theorem occurrences_once:
  assumes "calendar_ok cal" and "distinct (map sch_id (sched_rows db))"
    and "edits_timely cfg cal (booted db t now) ops"
  shows "replay_free ({}, {}) (evs (sched_run cfg cal (booted db t now) ops))"
proof -
  have "once_inv cal s \<Longrightarrow> edits_timely cfg cal s ops \<Longrightarrow> once_inv cal (sched_run cfg cal s ops)" for s
  proof (induction ops arbitrary: s)
    case (Cons op ops)
    then show ?case using step_inv [OF Cons.prems(1) assms(1)] by (simp add: sched_run_def)
  qed (simp add: sched_run_def)
  moreover have "once_inv cal (booted db t now)" using assms(2) by (simp add: once_inv_def booted_def tracked_of_def)
  ultimately have "once_inv cal (sched_run cfg cal (booted db t now) ops)" using assms(3) by blast
  then show ?thesis by (rule once_invD(6))
qed

end
