(* ===== verification/Schedule_Witness.thy ===== *)
theory Schedule_Witness
  imports Schedule_Once Lifecycle_Witness
begin

text \<open>
  The grid of an interval cadence, and concrete runs of the scheduler at which the theorems of the previous
  theories are applied.
\<close>

section \<open>The interval grid\<close>

lemma interval_slot:
  assumes "0 < i" "0 < n" "n \<le> i * 1000000" "(after + n - jitter_us d i) mod (i * 1000000) = 0"
  shows "next_interval_run d i after = after + n"
proof -
  define q where "q = (after + n - jitter_us d i) div (i * 1000000)"
  have "after - jitter_us d i = (i * 1000000) * (q - 1) + (i * 1000000 - n)"
    using mult_div_mod_eq [of "i * 1000000" "after + n - jitter_us d i"] assms(4) by (simp add: q_def algebra_simps)
  then have "(after - jitter_us d i) div (i * 1000000) = q - 1" using assms by (intro int_div_pos_eq) auto
  then show ?thesis
    using mult_div_mod_eq [of "i * 1000000" "after + n - jitter_us d i"] assms(4)
    unfolding next_interval_run_def Let_def q_def by (simp add: algebra_simps)
qed

lemma interval_step:
  assumes "0 < i"
  shows "next_interval_run d i after \<le> after + i * 1000000" "(next_interval_run d i after - jitter_us d i) mod (i * 1000000) = 0"
proof -
  have p: "0 < i * 1000000" using assms by simp
  show "next_interval_run d i after \<le> after + i * 1000000"
    using mult_div_mod_eq [of "i * 1000000" "after - jitter_us d i"] pos_mod_sign [OF p, of "after - jitter_us d i"]
    unfolding next_interval_run_def Let_def by (simp add: algebra_simps)
  show "(next_interval_run d i after - jitter_us d i) mod (i * 1000000) = 0" by (simp add: next_interval_run_def Let_def)
qed

text \<open>
  C40. The due instants of an interval cadence are the points of the grid anchored at the epoch and shifted by the
  jitter of the schedule: the next one is strictly after the given instant and at most one interval
  away, it lies on the grid, every instant up to it has the same next one (so a late execution
  does not shift the cadence), and the one after it is exactly one interval later.
\<close>

theorem interval_cadence_on_grid:
  assumes "0 < i"
  shows "next_interval_run d i after > after \<and> next_interval_run d i after \<le> after + i * 1000000
    \<and> (next_interval_run d i after - jitter_us d i) mod (i * 1000000) = 0
    \<and> (after \<le> u \<and> u < next_interval_run d i after \<longrightarrow> next_interval_run d i u = next_interval_run d i after)
    \<and> next_interval_run d i (next_interval_run d i after) = next_interval_run d i after + i * 1000000"
proof (intro conjI impI)
  note grid = interval_step [OF assms, of d after]
  show "next_interval_run d i after > after" by (rule next_interval_run_after [OF assms])
  show "next_interval_run d i after \<le> after + i * 1000000" "(next_interval_run d i after - jitter_us d i) mod (i * 1000000) = 0"
    by (rule grid)+
  show "next_interval_run d i u = next_interval_run d i after" if "after \<le> u \<and> u < next_interval_run d i after"
    using interval_slot [OF assms, of "next_interval_run d i after - u" u d] grid that by simp
  have "(next_interval_run d i after + i * 1000000 - jitter_us d i) mod (i * 1000000) = 0"
    using grid(2) mod_add_self2 [of "next_interval_run d i after - jitter_us d i" "i * 1000000"] by (simp add: algebra_simps)
  then show "next_interval_run d i (next_interval_run d i after) = next_interval_run d i after + i * 1000000"
    using assms by (intro interval_slot) auto
qed

lemma fl53_at: "2 ^ k \<le> m \<Longrightarrow> m < 2 ^ Suc k \<Longrightarrow> fl53 m = half_even m (k - 52) * 2 ^ (k - 52)"
proof -
  assume "2 ^ k \<le> m" "m < 2 ^ Suc k"
  then have "floorlog 2 m \<le> Suc k" "\<not> floorlog 2 m \<le> k" by (simp_all add: floorlog_le_iff)
  then have "floorlog 2 m = Suc k" by simp
  then show ?thesis by (simp add: fl53_def Let_def)
qed

text \<open>The highest digests round to the fraction 1, so that their jitter reaches its documented exclusive bound.\<close>

lemma jitter_reaches_bound: "jitter_us (2 ^ 64 - 1) 60 = 6000000"
proof -
  have "fl53 (2 ^ 64 - 1) = 2 ^ 64" by (simp add: fl53_at [of 63] half_even_def)
  moreover have "fl53 (2 ^ 64 * 60) = 2 ^ 64 * 60" by (simp add: fl53_at [of 69] half_even_def)
  moreover have "fl53 (2 ^ 64 * 60 * 3602879701896397) = 6 * 2 ^ 119" by (simp add: fl53_at [of 121] half_even_def)
  moreover have "fl53 (6 * 2 ^ 119 * 1000000) = 6 * 2 ^ 119 * 1000000" by (simp add: fl53_at [of 141] half_even_def)
  ultimately show ?thesis
    by (simp add: jitter_us_def fl_div_pow2_def fl_mul_def fl_of_int_def fl_tenth_def fl53_small fl_round_def half_even_def)
qed

theorem interval_cadence_on_grid_witness:
  "next_interval_run (2 ^ 64 - 1) 60 0 = 6000000 \<and> next_interval_run (2 ^ 64 - 1) 60 6000000 = 66000000"
proof -
  have "next_interval_run (2 ^ 64 - 1) 60 0 = 6000000" unfolding next_interval_run_def jitter_reaches_bound Let_def by simp
  with interval_cadence_on_grid [of 60 0 "2 ^ 64 - 1" 0] show ?thesis by (simp only: simp_thms)
qed

section \<open>A schedule\<close>

definition demo_calendar :: calendar where
  "demo_calendar = \<lparr>validate_cron = (\<lambda>e. True), next_after = (\<lambda>e tz t. (t div 60000000 + 1) * 60000000), digest8 = (\<lambda>i. 0), known_zone = (\<lambda>z. z = ''UTC'')\<rparr>"

definition demo_schedule :: "instant option \<Rightarrow> schedule" where
  "demo_schedule due =
     \<lparr>sch_id = ''i'', sch_server = ''s'', sch_name = ''greet'', sch_action = COMMAND,
      sch_cadence = \<lparr>cron = Some ''* * * * *'', interval_seconds = None\<rparr>, sch_enabled = True, sch_created = 0, sch_updated = 0,
      timezone = ''UTC'', sch_command = Some ''say hi'', warning_steps = [], only_when_running = None,
      next_run_at = due, last_run_at = None, created_by = None\<rparr>"

definition demo_db :: sched_db where
  "demo_db = \<lparr>sched_rows = [demo_schedule (Some 60000000)], run_rows = []\<rparr>"

definition demo_runner_config :: runner_config where
  "demo_runner_config = \<lparr>history_cap = 5, backup_retry_delay = 600000000, warning_grace = 60000000, prune_wired = True\<rparr>"

definition demo_boot :: sched_sys where
  "demo_boot = booted demo_db (demo_table RUNNING ORunning (Some ''w'')) 60000000"

definition one_tick :: "uuid \<Rightarrow> action_error option \<Rightarrow> sched_op list" where
  "one_tick rid err = [Tick, Claim ''i'', Execute ''i'', Finish ''i'' err, Record ''i'' rid, WarnPoll, EndTick]"

lemma demo_calendar_ok: "calendar_ok demo_calendar"
proof -
  have "t < (t div 60000000 + 1) * 60000000" for t :: int by presburger
  then show ?thesis by (simp add: calendar_ok_def demo_calendar_def)
qed

text \<open>Two ticks a minute apart, the first of which fails: two occurrences, a failure and a recovery.\<close>

lemma two_ticks:
  "evs (sched_run demo_runner_config demo_calendar demo_boot
     (one_tick ''r1'' (Some BackupCorruptError) @ [ClockAdvances 60000000] @ one_tick ''r2'' None))
   = [Dispatched ''i'' (Some 60000000), Recorded ''i'' (Some 60000000), Audited ''i'' FAILURE, Toasted ''i'' ScheduleFailed,
      Dispatched ''i'' (Some 120000000), Recorded ''i'' (Some 120000000), Audited ''i'' SUCCESS, Toasted ''i'' ScheduleRecovered]"
  by code_simp

definition rename_patch :: schedule_patch where
  "rename_patch = \<lparr>p_name = Some ''greetings'', p_cron = None, p_interval = None, p_timezone = None, p_enabled = None,
     p_command = None, p_warnings = None, p_only_when_running = None\<rparr>"

definition rename_read :: sched_op where
  "rename_read = EditRead ''k'' (\<lambda>p. True) ''c'' ''s'' ''i'' rename_patch"

definition edited_ticks :: "sched_op list" where
  \<comment> \<open>an edit reads before the first record and writes after it, before the next minute\<close>
  "edited_ticks = [Tick, Claim ''i'', Execute ''i'', rename_read, Finish ''i'' None, Record ''i'' ''r1'', EditWrite ''k'', WarnPoll, EndTick,
     ClockAdvances 60000000] @ one_tick ''r2'' None"

lemma edited_ticks_run:
  "evs (sched_run demo_runner_config demo_calendar demo_boot edited_ticks)
   = [Dispatched ''i'' (Some 60000000), Recorded ''i'' (Some 60000000), Audited ''i'' SUCCESS,
      Dispatched ''i'' (Some 120000000), Recorded ''i'' (Some 120000000), Audited ''i'' SUCCESS]
   \<and> map sch_name (sched_rows (sdb (sched_run demo_runner_config demo_calendar demo_boot edited_ticks))) = [''greetings'']"
  by (intro conjI; code_simp)

theorem occurrences_once_witness:
  "replay_free ({}, {}) (evs (sched_run demo_runner_config demo_calendar demo_boot edited_ticks))"
proof -
  have "distinct (map sch_id (sched_rows demo_db))" by (simp add: demo_db_def)
  moreover have "edits_timely demo_runner_config demo_calendar (booted demo_db (demo_table RUNNING ORunning (Some ''w'')) 60000000) edited_ticks"
    by code_simp
  ultimately show ?thesis unfolding demo_boot_def by (rule occurrences_once [OF demo_calendar_ok])
qed

text \<open>
  An edit whose read precedes the record of a run and whose write follows it, after the due instant it computed,
  undoes the advance: the occurrence is due again and the last run is lost.
\<close>

lemma straddling_edit_replays:
  "let ops = [rename_read, ClockAdvances 1] @ one_tick ''r1'' None @ [EditWrite ''k''];
       s = sched_run demo_runner_config demo_calendar (demo_boot\<lparr>clk := 59999999\<rparr>) ops
   in \<not> edits_timely demo_runner_config demo_calendar (demo_boot\<lparr>clk := 59999999\<rparr>) ops
      \<and> map last_run_at (sched_rows (sdb s)) = [None]
      \<and> evs (sched_run demo_runner_config demo_calendar s (one_tick ''r2'' None))
        = [Dispatched ''i'' (Some 60000000), Recorded ''i'' (Some 60000000), Audited ''i'' SUCCESS,
           Dispatched ''i'' (Some 60000000), Recorded ''i'' (Some 60000000), Audited ''i'' SUCCESS]"
  by code_simp

end
