(* ===== verification/Storage_Tree.thy ===== *)
theory Storage_Tree
  imports Version_Range "HOL-Library.Word"
begin

text \<open>
  The working set of a server as the storage holds it: plain files and directories only (the extraction of an
  upload refuses links), with the paths a caller may name (\<open>storage/domain/value_objects.py\<close>) and the file edits of
  the filesystem adapter (\<open>storage/adapters/fs.py\<close>) as functions of the tree. A name is assumed to fit the
  file system's limit on a component.
\<close>

section \<open>Trees\<close>

type_synonym blob = "8 word list"

datatype node = File blob | Folder "(string \<times> node) list"

type_synonym tree = "(string \<times> node) list"

datatype store_error =
    NotFoundError
  | PathTraversalError
  | PathOccupiedError
  | IncompleteTransferError
  | IntegrityCheckError
  | MissingRegionsError
  | StaleGenerationError nat nat
  | PrunedStoreError nat nat
  | PublisherFencedError
  | SnapshotHandleError
  | OsError

fun node_at :: "tree \<Rightarrow> string list \<Rightarrow> node option" where
  "node_at es [] = Some (Folder es)"
| "node_at es (p # ps) =
     (case dget es p of
        None \<Rightarrow> None
      | Some (File b) \<Rightarrow> if ps = [] then Some (File b) else None
      | Some (Folder ds) \<Rightarrow> node_at ds ps)"

definition file_at :: "tree \<Rightarrow> string list \<Rightarrow> blob option" where
  "file_at es ps = (case node_at es ps of Some (File b) \<Rightarrow> Some b | _ \<Rightarrow> None)"

definition folder_at :: "tree \<Rightarrow> string list \<Rightarrow> tree option" where
  "folder_at es ps = (case node_at es ps of Some (Folder ds) \<Rightarrow> Some ds | _ \<Rightarrow> None)"

fun tree_wf :: "node \<Rightarrow> bool" where
  \<comment> \<open>a directory has one entry per name\<close>
  "tree_wf (File b) = True"
| "tree_wf (Folder es) = (distinct (map fst es) \<and> (\<forall>e \<in> set es. tree_wf (snd e)))"

section \<open>Paths\<close>

definition split_path :: "string \<Rightarrow> string list" where
  \<comment> \<open>the components of a \<open>PurePosixPath\<close>, redundant separators and dots removed\<close>
  "split_path raw = filter (\<lambda>p. p \<noteq> [] \<and> p \<noteq> ''.'') (split_char (CHR ''/'') raw)"

definition control_char :: "char \<Rightarrow> bool" where
  "control_char c \<longleftrightarrow> of_char c < (32 :: nat) \<or> of_char c = (127 :: nat)"

definition rel_path :: "string \<Rightarrow> store_error + string list" where
  \<comment> \<open>\<open>RelPath\<close>\<close>
  "rel_path raw =
     (if take 1 raw = ''/'' then Inl PathTraversalError
      else let ps = split_path raw
           in if list_ex (\<lambda>p. p = ''..'' \<or> list_ex control_char p) ps then Inl PathTraversalError else Inr ps)"

section \<open>Edits\<close>

fun put_node :: "node \<Rightarrow> tree \<Rightarrow> string list \<Rightarrow> store_error + tree" where
  \<comment> \<open>create the missing parents and place the node; a file on the way blocks\<close>
  "put_node n es [] = Inl OsError"
| "put_node n es [p] = Inr (dset p n es)"
| "put_node n es (p # q # ps) =
     (case dget es p of
        Some (File b) \<Rightarrow> Inl PathOccupiedError
      | None \<Rightarrow> (case put_node n [] (q # ps) of Inl e \<Rightarrow> Inl e | Inr ds \<Rightarrow> Inr (dset p (Folder ds) es))
      | Some (Folder sub) \<Rightarrow> (case put_node n sub (q # ps) of Inl e \<Rightarrow> Inl e | Inr ds \<Rightarrow> Inr (dset p (Folder ds) es)))"

fun drop_node :: "tree \<Rightarrow> string list \<Rightarrow> tree" where
  "drop_node es [] = es"
| "drop_node es [p] = dpop p es"
| "drop_node es (p # q # ps) =
     (case dget es p of
        Some (Folder ds) \<Rightarrow> dset p (Folder (drop_node ds (q # ps))) es
      | _ \<Rightarrow> es)"

definition write_at :: "tree \<Rightarrow> string list \<Rightarrow> blob \<Rightarrow> store_error + tree" where
  "write_at es ps data =
     (if ps = [] then Inl PathTraversalError
      else if folder_at es ps \<noteq> None then Inl PathTraversalError
      else put_node (File data) es ps)"

definition delete_file_at :: "tree \<Rightarrow> string list \<Rightarrow> store_error + tree" where
  "delete_file_at es ps = (if file_at es ps = None then Inl NotFoundError else Inr (drop_node es ps))"

definition delete_dir_at :: "tree \<Rightarrow> string list \<Rightarrow> store_error + tree" where
  \<comment> \<open>the root never reaches the adapter: the use case refuses it\<close>
  "delete_dir_at es ps = (if ps = [] \<or> folder_at es ps = None then Inl NotFoundError else Inr (drop_node es ps))"

definition rename_file_at :: "tree \<Rightarrow> string list \<Rightarrow> string list \<Rightarrow> store_error + tree" where
  \<comment> \<open>\<open>mkdir -p\<close> of the destination's parent, then \<open>os.rename\<close>, over a file but not over a directory\<close>
  "rename_file_at es src dst =
     (case file_at es src of
        None \<Rightarrow> Inl NotFoundError
      | Some b \<Rightarrow>
          if dst = src then Inr es
          else if length src < length dst \<and> take (length src) dst = src then Inl PathOccupiedError
          else if folder_at es dst \<noteq> None then Inl OsError
          else put_node (File b) (drop_node es src) dst)"

definition rename_dir_at :: "tree \<Rightarrow> string list \<Rightarrow> string list \<Rightarrow> store_error + tree" where
  \<comment> \<open>over an empty directory, never into itself\<close>
  "rename_dir_at es src dst =
     (case folder_at es src of
        None \<Rightarrow> Inl NotFoundError
      | Some ds \<Rightarrow>
          if src = [] then Inl OsError
          else if dst = src then Inr es
          else if take (length src) dst = src then Inl OsError
          else if file_at es dst \<noteq> None then Inl PathOccupiedError
          else if (case folder_at es dst of None \<Rightarrow> False | Some old \<Rightarrow> old \<noteq> []) then Inl OsError
          else put_node (Folder ds) (drop_node es src) dst)"

definition make_dir_at :: "tree \<Rightarrow> string list \<Rightarrow> store_error + tree" where
  "make_dir_at es ps =
     (case node_at es ps of
        Some (Folder ds) \<Rightarrow> Inr es
      | Some (File b) \<Rightarrow> Inl PathOccupiedError
      | None \<Rightarrow> put_node (Folder []) es ps)"

datatype file_edit =
    WriteFile "string list" blob
  | DeleteFile "string list"
  | DeleteDir "string list"
  | RenameFile "string list" "string list"
  | RenameDir "string list" "string list"
  | MakeDir "string list"

fun edit_tree :: "tree \<Rightarrow> file_edit \<Rightarrow> store_error + tree" where
  "edit_tree es (WriteFile ps data) = write_at es ps data"
| "edit_tree es (DeleteFile ps) = delete_file_at es ps"
| "edit_tree es (DeleteDir ps) = delete_dir_at es ps"
| "edit_tree es (RenameFile src dst) = rename_file_at es src dst"
| "edit_tree es (RenameDir src dst) = rename_dir_at es src dst"
| "edit_tree es (MakeDir ps) = make_dir_at es ps"

fun edit_residue :: "tree \<Rightarrow> file_edit \<Rightarrow> tree" where
  \<comment> \<open>what a refused edit leaves: the parents of a destination inside the renamed directory have been created\<close>
  "edit_residue es (RenameDir src dst) =
     (if src \<noteq> [] \<and> folder_at es src \<noteq> None \<and> length src + 1 < length dst \<and> take (length src) dst = src then
        (case make_dir_at es (butlast dst) of Inl e \<Rightarrow> es | Inr es' \<Rightarrow> es')
      else es)"
| "edit_residue es _ = es"

fun versioned_path :: "tree \<Rightarrow> file_edit \<Rightarrow> (string list \<times> blob) option" where
  \<comment> \<open>the file whose content is captured before the edit\<close>
  "versioned_path es (WriteFile ps data) = map_option (Pair ps) (file_at es ps)"
| "versioned_path es (DeleteFile ps) = map_option (Pair ps) (file_at es ps)"
| "versioned_path es _ = None"

section \<open>Lookups after edits\<close>

lemma node_at_child: "node_at (dset p (Folder ds) es) (p # qs) = node_at ds qs"
  by simp

lemma put_node_at: "put_node n es ps = Inr es' \<Longrightarrow> node_at es' ps = Some n"
proof (induction n es ps arbitrary: es' rule: put_node.induct)
  case (3 n es p q ps)
  obtain sub ds where "put_node n sub (q # ps) = Inr ds" "es' = dset p (Folder ds) es"
      "dget es p = None \<and> sub = [] \<or> dget es p = Some (Folder sub)"
    using 3(3) by (auto split: option.splits node.splits sum.splits)
  with 3(1,2) have "node_at ds (q # ps) = Some n" by blast
  then show ?case unfolding \<open>es' = dset p (Folder ds) es\<close> node_at_child .
next
  case (2 n es p)
  then show ?case by (cases n) auto
qed simp

lemma put_node_other:
  assumes "put_node n es ps = Inr es'" "file_at es qs = Some b" "take (length ps) qs \<noteq> ps"
  shows "file_at es' qs = Some b"
  using assms
proof (induction n es ps arbitrary: es' qs rule: put_node.induct)
  case (2 n es p)
  then show ?case by (cases qs) (auto simp: file_at_def split: option.splits node.splits if_splits)
next
  case (3 n es p q ps)
  obtain r rs where qs: "qs = r # rs" using 3(4) by (cases qs) (auto simp: file_at_def)
  show ?case
  proof (cases "r = p")
    case False
    then show ?thesis using 3(3,4) qs by (auto simp: file_at_def split: option.splits node.splits sum.splits)
  next
    case True
    then have ne: "take (length (q # ps)) rs \<noteq> q # ps" using 3(5) qs by simp
    show ?thesis
    proof (cases "dget es p")
      case None
      then show ?thesis using 3(4) qs True by (simp add: file_at_def)
    next
      case (Some x)
      then show ?thesis
      proof (cases x)
        case (File b')
        then show ?thesis using 3(3) Some by simp
      next
        case (Folder sub)
        then obtain ds where ds: "put_node n sub (q # ps) = Inr ds" "es' = dset p (Folder ds) es"
          using 3(3) Some by (auto split: sum.splits)
        have "file_at sub rs = Some b" using 3(4) qs True Some Folder by (simp add: file_at_def)
        from 3(2) [OF Some Folder ds(1) this ne] show ?thesis using ds(2) qs True by (simp add: file_at_def)
      qed
    qed
  qed
qed simp

end
