(* ===== verification/Storage_Region.thy ===== *)
theory Storage_Region
  imports Storage_Tree
begin

text \<open>
  The structural check of Minecraft region files and the missing-region check
  (\<open>storage/integrity/region.py\<close>). A file is read while it is quiescent, so its size is the number of its bytes.
\<close>

section \<open>One region file\<close>

datatype reason_code = NOT_4096_ALIGNED | SECTOR_OUT_OF_BOUNDS | BAD_COMPRESSION | TRUNCATED_CHUNK

definition SECTOR :: nat where
  "SECTOR = 4096"

definition ENTRY_COUNT :: nat where
  "ENTRY_COUNT = 1024"

definition HEADER_SECTORS :: nat where
  "HEADER_SECTORS = 2"

definition CHUNK_PREFIX :: nat where
  "CHUNK_PREFIX = 5"

definition byte_slice :: "blob \<Rightarrow> nat \<Rightarrow> nat \<Rightarrow> blob" where
  "byte_slice f start n = take n (drop start f)"

definition be_nat :: "blob \<Rightarrow> nat" where
  \<comment> \<open>\<open>int.from_bytes(..., "big")\<close>\<close>
  "be_nat = foldl (\<lambda>n b. n * 256 + unat b) 0"

definition entry_offset :: "blob \<Rightarrow> nat \<Rightarrow> nat" where
  "entry_offset f i = be_nat (byte_slice f (i * 4) 3)"

definition entry_sectors :: "blob \<Rightarrow> nat \<Rightarrow> nat" where
  "entry_sectors f i = be_nat (byte_slice f (i * 4 + 3) 1)"

definition chunk_scheme :: "8 word \<Rightarrow> 8 word" where
  \<comment> \<open>the external flag cleared\<close>
  "chunk_scheme c = (if and c 0x80 \<noteq> 0 then and c (not 0x80) else c)"

definition check_entry :: "blob \<Rightarrow> nat \<Rightarrow> reason_code option" where
  \<comment> \<open>one entry of the location table\<close>
  "check_entry f i =
     (let offset = entry_offset f i; sectors = entry_sectors f i
      in if offset = 0 \<and> sectors = 0 then None
         else if offset < HEADER_SECTORS \<or> sectors = 0 then Some SECTOR_OUT_OF_BOUNDS
         else if offset * SECTOR \<ge> length f then Some SECTOR_OUT_OF_BOUNDS
         else
           let prefix = byte_slice f (offset * SECTOR) CHUNK_PREFIX
           in if length prefix < CHUNK_PREFIX then Some TRUNCATED_CHUNK
              else
                let len = be_nat (take 4 prefix)
                in if chunk_scheme (prefix ! 4) \<notin> {1, 2, 3, 4} then Some BAD_COMPRESSION
                   else if len < 1 then Some TRUNCATED_CHUNK
                   else if len > sectors * SECTOR - 4 then Some TRUNCATED_CHUNK
                   else if offset * SECTOR + 4 + len > length f then Some TRUNCATED_CHUNK
                   else None)"

fun first_reason :: "blob \<Rightarrow> nat list \<Rightarrow> reason_code option" where
  "first_reason f [] = None"
| "first_reason f (i # is) = (case check_entry f i of None \<Rightarrow> first_reason f is | Some r \<Rightarrow> Some r)"

definition check_region :: "blob \<Rightarrow> reason_code option" where
  "check_region f =
     (if f = [] then None
      else if length f < HEADER_SECTORS * SECTOR then Some NOT_4096_ALIGNED
      else first_reason f [0..<ENTRY_COUNT])"

section \<open>A working set\<close>

fun node_files :: "string list \<Rightarrow> node \<Rightarrow> (string list \<times> blob) list" where
  "node_files ps (File b) = [(ps, b)]"
| "node_files ps (Folder es) = concat (map (\<lambda>e. node_files (ps @ [fst e]) (snd e)) es)"

definition is_mca :: "string list \<Rightarrow> bool" where
  "is_mca ps \<longleftrightarrow> ps \<noteq> [] \<and> 4 \<le> length (last ps) \<and> drop (length (last ps) - 4) (last ps) = ''.mca''"

definition region_files :: "tree \<Rightarrow> (string list \<times> blob) list" where
  \<comment> \<open>\<open>root.rglob("*.mca")\<close>, the files\<close>
  "region_files t = filter (\<lambda>(ps, b). is_mca ps) (node_files [] (Folder t))"

record set_report =
  scanned :: nat
  corrupt_files :: "(string list \<times> reason_code) list"

definition check_working_set :: "tree \<Rightarrow> set_report" where
  "check_working_set t =
     (let fs = sort_key fst (region_files t)
      in \<lparr>scanned = length fs,
          corrupt_files = concat (map (\<lambda>(ps, b). case check_region b of None \<Rightarrow> [] | Some r \<Rightarrow> [(ps, r)]) fs)\<rparr>)"

definition set_healthy :: "set_report \<Rightarrow> bool" where
  "set_healthy r \<longleftrightarrow> corrupt_files r = []"

definition region_sets_by_dir :: "tree \<Rightarrow> (string list, string list) dict" where
  "region_sets_by_dir t =
     fold (\<lambda>(ps, b) d. dset (butlast ps) (last ps # dget_default d (butlast ps) []) d) (region_files t) []"

definition posix_path :: "string list \<Rightarrow> string" where
  "posix_path ps = (case ps of [] \<Rightarrow> ''.'' | p # qs \<Rightarrow> p @ concat (map (\<lambda>q. CHR ''/'' # q) qs))"

definition compare_region_name_sets ::
  "(string list, string list) dict \<Rightarrow> (string list, string list) dict \<Rightarrow> (string list \<times> string list) list" where
  \<comment> \<open>the directories that lost some but not all of their region files, with the names lost\<close>
  "compare_region_name_sets new ref =
     sort_key (\<lambda>(dir, lost). posix_path dir)
       (concat (map (\<lambda>(dir, prior).
          let names = dget_default new dir []; lost = filter (\<lambda>n. n \<notin> set names) prior
          in if names = [] \<or> lost = [] then [] else [(dir, sort lost)]) ref))"

definition check_missing_regions :: "tree \<Rightarrow> tree \<Rightarrow> (string list \<times> string list) list" where
  "check_missing_regions new ref = compare_region_name_sets (region_sets_by_dir new) (region_sets_by_dir ref)"

section \<open>What the checks accept\<close>

definition chunk_present :: "blob \<Rightarrow> nat \<Rightarrow> bool" where
  "chunk_present f i \<longleftrightarrow> entry_offset f i \<noteq> 0 \<or> entry_sectors f i \<noteq> 0"

definition chunk_prefix :: "blob \<Rightarrow> nat \<Rightarrow> blob" where
  "chunk_prefix f i = byte_slice f (entry_offset f i * SECTOR) CHUNK_PREFIX"

definition chunk_end :: "blob \<Rightarrow> nat \<Rightarrow> nat" where
  \<comment> \<open>the end of the chunk an entry refers to\<close>
  "chunk_end f i = entry_offset f i * SECTOR + 4 + be_nat (take 4 (chunk_prefix f i))"

definition chunk_sound :: "blob \<Rightarrow> nat \<Rightarrow> bool" where
  "chunk_sound f i \<longleftrightarrow>
     HEADER_SECTORS \<le> entry_offset f i \<and> entry_offset f i * SECTOR + CHUNK_PREFIX \<le> length f
   \<and> chunk_scheme (chunk_prefix f i ! 4) \<in> {1, 2, 3, 4} \<and> 1 \<le> be_nat (take 4 (chunk_prefix f i))
   \<and> be_nat (take 4 (chunk_prefix f i)) + 4 \<le> entry_sectors f i * SECTOR \<and> chunk_end f i \<le> length f"

lemmas region_consts = SECTOR_def ENTRY_COUNT_def HEADER_SECTORS_def CHUNK_PREFIX_def

lemma check_entry_None: "check_entry f i = None \<longleftrightarrow> \<not> chunk_present f i \<or> chunk_sound f i"
proof -
  have len: "length (byte_slice f s n) < n \<longleftrightarrow> length f < s + n" if "s \<le> length f" for s n
    using that by (auto simp: byte_slice_def)
  consider "\<not> chunk_present f i" | "chunk_present f i" "entry_offset f i < HEADER_SECTORS \<or> entry_sectors f i = 0"
    | "chunk_present f i" "HEADER_SECTORS \<le> entry_offset f i" "entry_sectors f i \<noteq> 0" "entry_offset f i * SECTOR \<ge> length f"
    | "chunk_present f i" "HEADER_SECTORS \<le> entry_offset f i" "entry_sectors f i \<noteq> 0" "entry_offset f i * SECTOR < length f"
    by linarith
  then show ?thesis
  proof cases
    case 1
    then show ?thesis by (simp add: check_entry_def chunk_present_def)
  next
    case 2
    then show ?thesis by (auto simp: check_entry_def chunk_present_def chunk_sound_def Let_def)
  next
    case 3
    then show ?thesis by (auto simp: check_entry_def chunk_present_def chunk_sound_def Let_def region_consts)
  next
    case 4
    define l where "l = be_nat (take 4 (chunk_prefix f i))"
    have c: "check_entry f i =
        (if length (chunk_prefix f i) < CHUNK_PREFIX then Some TRUNCATED_CHUNK
         else if chunk_scheme (chunk_prefix f i ! 4) \<notin> {1, 2, 3, 4} then Some BAD_COMPRESSION
         else if l < 1 then Some TRUNCATED_CHUNK
         else if l > entry_sectors f i * SECTOR - 4 then Some TRUNCATED_CHUNK
         else if entry_offset f i * SECTOR + 4 + l > length f then Some TRUNCATED_CHUNK else None)"
      unfolding check_entry_def Let_def l_def chunk_prefix_def using 4 by (simp add: chunk_present_def)
    have s: "chunk_sound f i \<longleftrightarrow> entry_offset f i * SECTOR + CHUNK_PREFIX \<le> length f
        \<and> chunk_scheme (chunk_prefix f i ! 4) \<in> {1, 2, 3, 4} \<and> 1 \<le> l \<and> l + 4 \<le> entry_sectors f i * SECTOR
        \<and> entry_offset f i * SECTOR + 4 + l \<le> length f"
      unfolding chunk_sound_def chunk_end_def l_def using 4 by simp
    have p: "length (chunk_prefix f i) < CHUNK_PREFIX \<longleftrightarrow> length f < entry_offset f i * SECTOR + CHUNK_PREFIX"
      unfolding chunk_prefix_def by (rule len) (use 4 in simp)
    have e: "4 \<le> entry_sectors f i * SECTOR" using 4 by (simp add: SECTOR_def)
    show ?thesis unfolding c s using p e 4 by auto
  qed
qed

lemma first_reason_None: "first_reason f is = None \<longleftrightarrow> (\<forall>i \<in> set is. check_entry f i = None)"
  by (induction "is") (auto split: option.splits)

lemma check_region_None:
  "check_region f = None \<longleftrightarrow> f = [] \<or> HEADER_SECTORS * SECTOR \<le> length f \<and> (\<forall>i < ENTRY_COUNT. chunk_present f i \<longrightarrow> chunk_sound f i)"
  by (auto simp: check_region_def first_reason_None check_entry_None)

lemma byte_slice_take: "s + k \<le> n \<Longrightarrow> byte_slice (take n f) s k = byte_slice f s k"
  by (simp add: byte_slice_def drop_take min_def)

lemma entry_take:
  assumes "i < ENTRY_COUNT" "SECTOR \<le> n"
  shows "entry_offset (take n f) i = entry_offset f i" "entry_sectors (take n f) i = entry_sectors f i"
  using assms by (simp_all add: entry_offset_def entry_sectors_def byte_slice_take region_consts)

text \<open>
  C19. A torn save of a sound region file is caught exactly when it loses something: of a file that passes, a prefix of
  \<open>n\<close> bytes passes if and only if it is empty (the empty container Minecraft writes) or it still holds both header
  sectors and reaches the end of every chunk the location table refers to.
\<close>

theorem torn_save_caught:
  assumes "check_region f = None" and "n \<le> length f"
  shows "check_region (take n f) = None
    \<longleftrightarrow> n = 0 \<or> HEADER_SECTORS * SECTOR \<le> n \<and> (\<forall>i < ENTRY_COUNT. chunk_present f i \<longrightarrow> chunk_end f i \<le> n)"
proof (cases "n = 0")
  case False
  have len: "length (take n f) = n" "take n f \<noteq> []" using assms(2) False by auto
  show ?thesis
  proof (cases "HEADER_SECTORS * SECTOR \<le> n")
    case True
    have "f \<noteq> []" using len(2) by auto
    then have sound: "chunk_present f i \<Longrightarrow> chunk_sound f i" if "i < ENTRY_COUNT" for i
      using assms(1) that unfolding check_region_None by blast
    have n: "SECTOR \<le> n" using True by (simp add: region_consts)
    have "chunk_sound (take n f) i \<longleftrightarrow> chunk_end f i \<le> n" if i: "i < ENTRY_COUNT" and p: "chunk_present f i" for i
    proof (cases "entry_offset f i * SECTOR + CHUNK_PREFIX \<le> n")
      case True
      then have "chunk_prefix (take n f) i = chunk_prefix f i"
        unfolding chunk_prefix_def entry_take [OF i n] by (rule byte_slice_take)
      then show ?thesis using sound [OF i p] True
        unfolding chunk_sound_def chunk_end_def entry_take [OF i n] len(1) by auto
    next
      case False
      then have "\<not> chunk_end f i \<le> n" using sound [OF i p] unfolding chunk_end_def chunk_sound_def CHUNK_PREFIX_def by simp
      moreover have "\<not> chunk_sound (take n f) i" using False unfolding chunk_sound_def entry_take [OF i n] len(1) by simp
      ultimately show ?thesis by simp
    qed
    moreover have "chunk_present (take n f) i \<longleftrightarrow> chunk_present f i" if "i < ENTRY_COUNT" for i
      unfolding chunk_present_def entry_take [OF that n] ..
    ultimately show ?thesis using True len False unfolding check_region_None len(1) by simp
  qed (use len False in \<open>auto simp: check_region_None\<close>)
qed (simp add: check_region_def)

section \<open>Lost regions\<close>

definition region_names :: "tree \<Rightarrow> string list \<Rightarrow> string set" where
  "region_names t dir = {last ps | ps b. (ps, b) \<in> set (region_files t) \<and> butlast ps = dir}"

definition names_in :: "(string list \<times> blob) list \<Rightarrow> string list \<Rightarrow> string set" where
  "names_in fs dir = {last ps | ps b. (ps, b) \<in> set fs \<and> butlast ps = dir}"

lemma fold_by_dir:
  "set (dget_default (fold (\<lambda>(ps, b) d. dset (butlast ps) (last ps # dget_default d (butlast ps) []) d) fs d) dir [])
   = names_in fs dir \<union> set (dget_default d dir [])"
proof (induction fs arbitrary: d)
  case (Cons x fs)
  obtain ps b where x: "x = (ps, b)" by fastforce
  have "names_in (x # fs) dir = (if butlast ps = dir then {last ps} else {}) \<union> names_in fs dir" by (auto simp: names_in_def x)
  then show ?case using Cons by (auto simp: x dget_default_def)
qed (simp add: names_in_def)

lemma by_dir_wf: "dwf d \<Longrightarrow> dwf (fold (\<lambda>(ps, b) d. dset (butlast ps) (last ps # dget_default d (butlast ps) []) d) fs d)"
  by (induction fs arbitrary: d) (auto intro: wf_intros dwf_dset)

lemma region_sets_names: "set (dget_default (region_sets_by_dir t) dir []) = region_names t dir"
  unfolding region_sets_by_dir_def fold_by_dir by (simp add: region_names_def names_in_def dget_default_def)

lemma sort_key_Nil: "sort_key f xs = [] \<longleftrightarrow> xs = []"
  by (metis length_0_conv length_sort)

lemma lost_regions:
  "check_missing_regions new ref = [] \<longleftrightarrow> (\<forall>dir. region_names new dir \<noteq> {} \<longrightarrow> region_names ref dir \<subseteq> region_names new dir)"
proof -
  let ?n = "region_sets_by_dir new" and ?r = "region_sets_by_dir ref"
  have wf: "dwf ?r" unfolding region_sets_by_dir_def by (rule by_dir_wf) simp
  have "check_missing_regions new ref = [] \<longleftrightarrow>
      (\<forall>(dir, prior) \<in> set ?r. dget_default ?n dir [] = [] \<or> set prior \<subseteq> set (dget_default ?n dir []))"
    unfolding check_missing_regions_def compare_region_name_sets_def sort_key_Nil concat_eq_Nil_conv Let_def
    by (auto simp: split_beta filter_empty_conv subset_iff simp del: if_image_distrib)
  also have "\<dots> \<longleftrightarrow> (\<forall>dir. dget_default ?n dir [] = [] \<or> set (dget_default ?r dir []) \<subseteq> set (dget_default ?n dir []))"
  proof (intro iffI allI)
    fix dir
    assume a: "\<forall>(dir, prior) \<in> set ?r. dget_default ?n dir [] = [] \<or> set prior \<subseteq> set (dget_default ?n dir [])"
    show "dget_default ?n dir [] = [] \<or> set (dget_default ?r dir []) \<subseteq> set (dget_default ?n dir [])"
    proof (cases "dget ?r dir")
      case (Some prior)
      then show ?thesis using a map_of_SomeD [OF Some] by (auto simp: dget_default_def)
    qed (simp add: dget_default_def)
  next
    assume a: "\<forall>dir. dget_default ?n dir [] = [] \<or> set (dget_default ?r dir []) \<subseteq> set (dget_default ?n dir [])"
    have "dget ?r dir = Some prior" if "(dir, prior) \<in> set ?r" for dir prior
      using wf that by (simp add: dwf_def)
    then show "\<forall>(dir, prior) \<in> set ?r. dget_default ?n dir [] = [] \<or> set prior \<subseteq> set (dget_default ?n dir [])"
      using a by (fastforce simp: dget_default_def split: option.splits)
  qed
  finally have "check_missing_regions new ref = [] \<longleftrightarrow> (\<forall>dir. dget_default ?n dir [] = [] \<or> set (dget_default ?r dir []) \<subseteq> set (dget_default ?n dir []))" .
  moreover have "dget_default ?n dir [] = [] \<longleftrightarrow> region_names new dir = {}" for dir by (simp flip: region_sets_names)
  ultimately show ?thesis unfolding region_sets_names by blast
qed

end
