(* ===== verification/Storage_Fs.thy ===== *)
theory Storage_Fs
  imports Storage_Region
begin

text \<open>
  The storage of one server on a file system (\<open>storage/adapters/fs.py\<close>) and the publish route of the data plane
  (\<open>publish_snapshot\<close> of \<open>dataplane/api/transfers.py\<close>) as a machine. The disk survives a crash, the process
  state does not. Each step is one file-system action, one decision or one stretch of code under the lock of the
  server that nothing outside the lock can observe; the sections under the lock are the phases of
  \<open>lock_holder\<close>, in between which a crash, a fault, a sweep, a reader or an upload can come.
\<close>

section \<open>The disk\<close>

record disk =
  snapshots :: "(uuid, tree) dict"
  incoming :: "(uuid, tree) dict"
  current_link :: "uuid option" \<comment> \<open>the target of the symlink, which may dangle\<close>
  gen_marker :: "(nat \<times> string option) option"
  final_archive :: "tree option"
  versions :: "(string list, (string, blob) dict) dict"

definition read_marker :: "disk \<Rightarrow> nat \<times> string option" where
  "read_marker d = (case gen_marker d of None \<Rightarrow> (0, None) | Some m \<Rightarrow> m)"

definition read_generation :: "disk \<Rightarrow> nat" where
  "read_generation d = fst (read_marker d)"

definition read_publisher :: "disk \<Rightarrow> string option" where
  "read_publisher d = snd (read_marker d)"

definition write_marker :: "nat \<Rightarrow> string option \<Rightarrow> disk \<Rightarrow> disk" where
  "write_marker g p d = d\<lparr>gen_marker := Some (g, p)\<rparr>"

definition bump_marker :: "string option \<Rightarrow> disk \<Rightarrow> disk" where
  "bump_marker p d = write_marker (read_generation d + 1) p d"

definition drop_publisher :: "disk \<Rightarrow> disk" where
  "drop_publisher d =
     (let (g, p) = read_marker d in if p \<noteq> None then write_marker g None d else d)"

definition current_dir :: "disk \<Rightarrow> store_error + uuid \<times> tree" where
  "current_dir d =
     (case current_link d of
        None \<Rightarrow> Inl NotFoundError
      | Some i \<Rightarrow> (case dget (snapshots d) i of None \<Rightarrow> Inl NotFoundError | Some t \<Rightarrow> Inr (i, t)))"

definition API_EDIT_PUBLISHER :: string where
  "API_EDIT_PUBLISHER = ''api-edit''"

definition RESTORE_PUBLISHER :: string where
  "RESTORE_PUBLISHER = ''api-restore''"

section \<open>Retained versions\<close>

definition prune_versions :: "nat \<Rightarrow> (string, blob) dict \<Rightarrow> (string, blob) dict" where
  "prune_versions keep ring =
     (let names = sort (map fst ring) in filter (\<lambda>(i, b). i \<notin> set (take (length names - keep) names)) ring)"

definition capture_version :: "nat \<Rightarrow> string list \<Rightarrow> string \<Rightarrow> blob \<Rightarrow> disk \<Rightarrow> disk" where
  "capture_version keep ps vid b d =
     d\<lparr>versions := dset ps (prune_versions keep (dset vid b (dget_default (versions d) ps []))) (versions d)\<rparr>"

definition matches_newest_version :: "disk \<Rightarrow> string list \<Rightarrow> blob \<Rightarrow> bool" where
  "matches_newest_version d ps b =
     (let ring = dget_default (versions d) ps []; names = sort (map fst ring)
      in names \<noteq> [] \<and> dget ring (last names) = Some b)"

definition retain_file_version :: "nat \<Rightarrow> string \<Rightarrow> string list \<Rightarrow> disk \<Rightarrow> disk" where
  "retain_file_version keep vid ps d =
     (case current_dir d of
        Inl e \<Rightarrow> d
      | Inr (i, t) \<Rightarrow> (case file_at t ps of
            None \<Rightarrow> d
          | Some b \<Rightarrow> if matches_newest_version d ps b then d else capture_version keep ps vid b d))"

definition list_file_versions :: "disk \<Rightarrow> string list \<Rightarrow> string list" where
  "list_file_versions d ps = rev (sort (map fst (dget_default (versions d) ps [])))"

definition read_file_version :: "disk \<Rightarrow> string list \<Rightarrow> string \<Rightarrow> store_error + blob" where
  "read_file_version d ps vid =
     (case dget (dget_default (versions d) ps []) vid of None \<Rightarrow> Inl NotFoundError | Some b \<Rightarrow> Inr b)"

section \<open>Edits of the live working set\<close>

definition edit_disk :: "nat \<Rightarrow> string \<Rightarrow> file_edit \<Rightarrow> disk \<Rightarrow> store_error option \<times> disk" where
  \<comment> \<open>an edit of the live snapshot up to the advance of the marker\<close>
  "edit_disk keep vid e d =
     (case current_dir d of
        Inl err \<Rightarrow> (Some err, d)
      | Inr (i, t) \<Rightarrow>
          (case edit_tree t e of
             Inl err \<Rightarrow> (Some err, d\<lparr>snapshots := dset i (edit_residue t e) (snapshots d)\<rparr>)
           | Inr t' \<Rightarrow>
               (None, (case versioned_path t e of None \<Rightarrow> d | Some (ps, b) \<Rightarrow> capture_version keep ps vid b d)
                        \<lparr>snapshots := dset i t' (snapshots d)\<rparr>)))"

section \<open>The publish guards\<close>

definition stale_publish :: "disk \<Rightarrow> string option \<Rightarrow> nat option \<Rightarrow> string option \<Rightarrow> bool" where
  \<comment> \<open>the refusal before the upload: publisher, declared base and assigned worker\<close>
  "stale_publish d pub declared assigned =
     (case declared of
        None \<Rightarrow> False
      | Some b \<Rightarrow>
          b < read_generation d
          \<and> (case (read_publisher d, pub) of (Some q, Some p) \<Rightarrow> q \<noteq> p \<and> assigned \<noteq> Some p | _ \<Rightarrow> False))"

definition assignment_fence :: "string option \<Rightarrow> string option \<Rightarrow> bool" where
  "assignment_fence assigned pub =
     (case (assigned, pub) of (Some w, Some p) \<Rightarrow> w = p | _ \<Rightarrow> True)"

definition commit_check :: "disk \<Rightarrow> tree \<Rightarrow> nat option \<Rightarrow> bool \<Rightarrow> bool \<Rightarrow> store_error option" where
  \<comment> \<open>the checks under the lock: the base, the missing regions, the fence\<close>
  "commit_check d t expected_base gate_missing_regions fence =
     (let stale = (case expected_base of
            Some b \<Rightarrow> if read_generation d = b then None
                      else if current_link d = None then Some (PrunedStoreError b (read_generation d))
                      else Some (StaleGenerationError b (read_generation d))
          | None \<Rightarrow> None)
      in if stale \<noteq> None then stale
         else if gate_missing_regions \<and> (case current_dir d of Inl e \<Rightarrow> False | Inr (i, prior) \<Rightarrow> check_missing_regions t prior \<noteq> [])
         then Some MissingRegionsError
         else if \<not> fence then Some PublisherFencedError
         else None)"

section \<open>The process\<close>

record upload =
  up_publisher :: "string option"
  up_base :: "nat option" \<comment> \<open>the generation the guard read, \<open>None\<close> for a restore\<close>
  up_verified :: bool

datatype reader = Picked uuid | Taken uuid | Reading uuid

datatype phase =
  \<comment> \<open>a publish: transfer, publisher, snapshot\<close>
    Ready uuid "string option"
  | Moved uuid "string option" uuid
  | Flipped uuid "string option" uuid "uuid option"
  | Settled uuid "string option" uuid
  \<comment> \<open>an edit\<close>
  | Edited
  \<comment> \<open>a prune: packed, marker advanced, link gone, tree gone, or nothing to pack\<close>
  | Packed
  | Advanced
  | Unlinked
  | Cleared
  | Collected

record fs =
  dsk :: disk
  leases :: "uuid list"
  staged :: "uuid list"
  uploads :: "(uuid, upload) dict"
  readers :: "(uuid, reader) dict"
  lock_holder :: "phase option"
  doomed :: "uuid list" \<comment> \<open>the snapshots a sweep or a reclaim has decided to remove\<close>
  minted :: "uuid list" \<comment> \<open>every snapshot id there has been\<close>
  deleted :: bool \<comment> \<open>a prune has started\<close>

datatype fs_op =
    Guard uuid "string option" "nat option" "string option"
  | Stage uuid
  | Pin uuid
  | WriteStaging uuid tree
  | Verify uuid
  | Restore uuid tree bool
  | Commit uuid "string option"
  | Move uuid
  | Flip
  | Settle
  | Mark
  | AbortEntry uuid "string list"
  | Abort uuid
  | Edit string file_edit
  | InitialWrite uuid "string list" blob
  | EditBump
  | PruneStart
  | PruneAdvance
  | PruneUnlink
  | PruneClear
  | PruneFinish
  | Pick uuid
  | Take uuid
  | Recheck uuid
  | Hydrate uuid
  | Release uuid
  | SweepCheck uuid
  | SweepStaging uuid
  | Remove uuid
  | Fault
  | Crash

definition discard :: "uuid \<Rightarrow> fs \<Rightarrow> fs" where
  \<comment> \<open>remove the staging, release its lease, consume the handle\<close>
  "discard tid s = s\<lparr>dsk := (dsk s)\<lparr>incoming := dpop tid (incoming (dsk s))\<rparr>, staged := removeAll tid (staged s),
                     uploads := dpop tid (uploads s)\<rparr>"

definition busy_with :: "fs \<Rightarrow> uuid \<Rightarrow> bool" where
  \<comment> \<open>the section under the lock belongs to this transfer\<close>
  "busy_with s tid \<longleftrightarrow>
     (case lock_holder s of
        Some (Ready t p) \<Rightarrow> t = tid | Some (Moved t p i) \<Rightarrow> t = tid
      | Some (Flipped t p i old) \<Rightarrow> t = tid | Some (Settled t p i) \<Rightarrow> t = tid | _ \<Rightarrow> False)"

definition lease :: "uuid \<Rightarrow> uuid \<Rightarrow> fs \<Rightarrow> fs" where
  "lease r i s = s\<lparr>leases := i # leases s, readers := dset r (Reading i) (readers s)\<rparr>"

definition unlease :: "uuid \<Rightarrow> uuid \<Rightarrow> fs \<Rightarrow> fs" where
  "unlease r i s = s\<lparr>leases := remove1 i (leases s), readers := dpop r (readers s)\<rparr>"

section \<open>Uploads and restores\<close>

definition guard_upload :: "fs \<Rightarrow> uuid \<Rightarrow> string option \<Rightarrow> nat option \<Rightarrow> string option \<Rightarrow> fs" where
  "guard_upload s tid pub declared assigned =
     (if dget (uploads s) tid \<noteq> None \<or> dget (incoming (dsk s)) tid \<noteq> None then s
      else if stale_publish (dsk s) pub declared assigned then s
      else s\<lparr>uploads := dset tid \<lparr>up_publisher = pub, up_base = Some (read_generation (dsk s)), up_verified = False\<rparr> (uploads s)\<rparr>)"

definition verify_upload :: "fs \<Rightarrow> uuid \<Rightarrow> fs" where
  \<comment> \<open>the gates of a commit before the lock: not empty, no corrupt region\<close>
  "verify_upload s tid =
     (case (dget (uploads s) tid, dget (incoming (dsk s)) tid) of
        (Some u, Some t) \<Rightarrow>
          if t = [] \<or> \<not> set_healthy (check_working_set t) then discard tid s
          else s\<lparr>uploads := dset tid (u\<lparr>up_verified := True\<rparr>) (uploads s)\<rparr>
      | (Some u, None) \<Rightarrow> discard tid s
      | _ \<Rightarrow> s)"

definition restore_backup :: "fs \<Rightarrow> uuid \<Rightarrow> tree \<Rightarrow> bool \<Rightarrow> fs" where
  \<comment> \<open>a restore up to the lock: what its archive extracts to, gated unless forced\<close>
  "restore_backup s tid t force =
     (if dget (uploads s) tid \<noteq> None \<or> dget (incoming (dsk s)) tid \<noteq> None then s
      else if \<not> set_healthy (check_working_set t) \<and> \<not> force then s
      else s\<lparr>dsk := (dsk s)\<lparr>incoming := dset tid t (incoming (dsk s))\<rparr>, staged := tid # staged s,
             uploads := dset tid \<lparr>up_publisher = Some RESTORE_PUBLISHER, up_base = None, up_verified = True\<rparr> (uploads s)\<rparr>)"

definition commit_upload :: "fs \<Rightarrow> uuid \<Rightarrow> string option \<Rightarrow> fs" where
  \<comment> \<open>the checks under the lock, with the assignment the fence reads; a restore has neither base nor gate\<close>
  "commit_upload s tid assigned =
     (case (lock_holder s, dget (uploads s) tid, dget (incoming (dsk s)) tid) of
        (None, Some u, Some t) \<Rightarrow>
          if \<not> up_verified u then s
          else (case commit_check (dsk s) t (up_base u) (up_base u \<noteq> None)
                       (up_base u = None \<or> assignment_fence assigned (up_publisher u)) of
                  Some e \<Rightarrow> discard tid s
                | None \<Rightarrow> s\<lparr>lock_holder := Some (Ready tid (up_publisher u))\<rparr>)
      | (None, Some u, None) \<Rightarrow> if up_verified u then discard tid s else s
      | _ \<Rightarrow> s)"

definition abort_entry :: "fs \<Rightarrow> uuid \<Rightarrow> string list \<Rightarrow> fs" where
  \<comment> \<open>\<open>abort_snapshot\<close>, one removal of its \<open>rmtree\<close>: the handler of the transfer has given up, and no lock is held\<close>
  "abort_entry s tid ps =
     s\<lparr>uploads := dpop tid (uploads s),
       dsk := (case dget (incoming (dsk s)) tid of
                 None \<Rightarrow> dsk s
               | Some t \<Rightarrow> (dsk s)\<lparr>incoming := dset tid (drop_node t ps) (incoming (dsk s))\<rparr>)\<rparr>"

section \<open>The publish\<close>

definition move_staging :: "fs \<Rightarrow> uuid \<Rightarrow> fs" where
  "move_staging s i =
     (case lock_holder s of
        Some (Ready tid pub) \<Rightarrow>
          if i \<in> set (minted s) then s
          else (case dget (incoming (dsk s)) tid of
                  None \<Rightarrow> (discard tid s)\<lparr>lock_holder := None\<rparr>
                | Some t \<Rightarrow> s\<lparr>dsk := (dsk s)\<lparr>snapshots := dset i t (snapshots (dsk s)), incoming := dpop tid (incoming (dsk s))\<rparr>,
                             minted := i # minted s, lock_holder := Some (Moved tid pub i)\<rparr>)
      | _ \<Rightarrow> s)"

definition flip_current :: "fs \<Rightarrow> fs" where
  "flip_current s =
     (case lock_holder s of
        Some (Moved tid pub i) \<Rightarrow>
          s\<lparr>dsk := (dsk s)\<lparr>current_link := Some i\<rparr>, lock_holder := Some (Flipped tid pub i (current_link (dsk s)))\<rparr>
      | _ \<Rightarrow> s)"

definition settle_old :: "fs \<Rightarrow> fs" where
  \<comment> \<open>the superseded snapshot is reclaimed unless a reader holds it\<close>
  "settle_old s =
     (case lock_holder s of
        Some (Flipped tid pub i old) \<Rightarrow>
          s\<lparr>doomed := (case old of None \<Rightarrow> doomed s | Some o' \<Rightarrow> if o' \<noteq> i \<and> o' \<notin> set (leases s) then o' # doomed s else doomed s),
            lock_holder := Some (Settled tid pub i)\<rparr>
      | _ \<Rightarrow> s)"

definition mark_publish :: "fs \<Rightarrow> fs" where
  "mark_publish s =
     (case lock_holder s of
        Some (Settled tid pub i) \<Rightarrow> discard tid (s\<lparr>dsk := bump_marker pub (dsk s), lock_holder := None\<rparr>)
      | _ \<Rightarrow> s)"

section \<open>Edits\<close>

definition edit_current :: "nat \<Rightarrow> fs \<Rightarrow> string \<Rightarrow> file_edit \<Rightarrow> fs" where
  "edit_current keep s vid e =
     (if lock_holder s \<noteq> None then s
      else let (err, d) = edit_disk keep vid e (dsk s)
           in s\<lparr>dsk := d, lock_holder := (if err = None then Some Edited else None)\<rparr>)"

definition initial_write :: "fs \<Rightarrow> uuid \<Rightarrow> string list \<Rightarrow> blob \<Rightarrow> fs" where
  \<comment> \<open>\<open>write_file\<close> of a server without a working set, up to its publish\<close>
  "initial_write s tid ps data =
     (if lock_holder s \<noteq> None \<or> current_link (dsk s) \<noteq> None \<or> dget (incoming (dsk s)) tid \<noteq> None \<or> dget (uploads s) tid \<noteq> None then s
      else (case write_at [] ps data of
              Inl e \<Rightarrow> s
            | Inr t \<Rightarrow> s\<lparr>dsk := (dsk s)\<lparr>incoming := dset tid t (incoming (dsk s))\<rparr>, staged := tid # staged s,
                         lock_holder := Some (Ready tid (Some API_EDIT_PUBLISHER))\<rparr>))"

section \<open>The prune of a delete\<close>

definition prune_start :: "fs \<Rightarrow> fs" where
  "prune_start s =
     (if lock_holder s \<noteq> None then s
      else (case current_dir (dsk s) of
              Inl e \<Rightarrow> s\<lparr>dsk := (dsk s)\<lparr>snapshots := [], incoming := [], versions := [], current_link := None\<rparr>,
                        lock_holder := Some Collected, deleted := True\<rparr>
            | Inr (i, t) \<Rightarrow> s\<lparr>dsk := (dsk s)\<lparr>final_archive := Some t\<rparr>, lock_holder := Some Packed, deleted := True\<rparr>))"

definition prune_step :: "phase \<Rightarrow> fs \<Rightarrow> fs" where
  \<comment> \<open>the action that follows a phase of the prune\<close>
  "prune_step p s =
     (if lock_holder s \<noteq> Some p then s
      else (case p of
              Packed \<Rightarrow> s\<lparr>dsk := bump_marker (read_publisher (dsk s)) (dsk s), lock_holder := Some Advanced\<rparr>
            | Advanced \<Rightarrow> s\<lparr>dsk := (dsk s)\<lparr>current_link := None\<rparr>, lock_holder := Some Unlinked\<rparr>
            | Unlinked \<Rightarrow> s\<lparr>dsk := (dsk s)\<lparr>snapshots := [], incoming := [], versions := []\<rparr>, lock_holder := Some Cleared\<rparr>
            | Cleared \<Rightarrow> s\<lparr>dsk := drop_publisher (dsk s), lock_holder := None\<rparr>
            | Collected \<Rightarrow> s\<lparr>dsk := bump_marker None (dsk s), lock_holder := None\<rparr>
            | _ \<Rightarrow> s))"

section \<open>Readers and the sweep\<close>

definition pick_current :: "fs \<Rightarrow> uuid \<Rightarrow> fs" where
  "pick_current s r =
     (case (dget (readers s) r, current_dir (dsk s)) of
        (None, Inr (i, t)) \<Rightarrow> s\<lparr>readers := dset r (Picked i) (readers s)\<rparr>
      | _ \<Rightarrow> s)"

definition take_lease :: "fs \<Rightarrow> uuid \<Rightarrow> fs" where
  "take_lease s r =
     (case dget (readers s) r of
        Some (Picked i) \<Rightarrow> s\<lparr>leases := i # leases s, readers := dset r (Taken i) (readers s)\<rparr>
      | _ \<Rightarrow> s)"

definition recheck_lease :: "fs \<Rightarrow> uuid \<Rightarrow> fs" where
  \<comment> \<open>the lease stands if \<open>current\<close> still resolves to the picked snapshot\<close>
  "recheck_lease s r =
     (case dget (readers s) r of
        Some (Taken i) \<Rightarrow>
          (case current_dir (dsk s) of
             Inl e \<Rightarrow> unlease r i s
           | Inr (j, t) \<Rightarrow> if j = i then s\<lparr>readers := dset r (Reading i) (readers s)\<rparr> else unlease r i s)
      | _ \<Rightarrow> s)"

definition open_hydrate :: "fs \<Rightarrow> uuid \<Rightarrow> fs" where
  \<comment> \<open>the lease of a hydrate is taken under the lock\<close>
  "open_hydrate s r =
     (case (lock_holder s, dget (readers s) r, current_dir (dsk s)) of
        (None, None, Inr (i, t)) \<Rightarrow> lease r i s
      | _ \<Rightarrow> s)"

definition release_lease :: "fs \<Rightarrow> uuid \<Rightarrow> fs" where
  "release_lease s r = (case dget (readers s) r of Some (Reading i) \<Rightarrow> unlease r i s | _ \<Rightarrow> s)"

definition sweep_check :: "fs \<Rightarrow> uuid \<Rightarrow> fs" where
  \<comment> \<open>a candidate of the sweep, with the link read again\<close>
  "sweep_check s i =
     (if dget (snapshots (dsk s)) i \<noteq> None \<and> current_link (dsk s) \<noteq> Some i \<and> i \<notin> set (leases s)
      then s\<lparr>doomed := i # doomed s\<rparr> else s)"

definition sweep_staging :: "fs \<Rightarrow> uuid \<Rightarrow> fs" where
  "sweep_staging s tid =
     (if tid \<in> set (staged s) then s else s\<lparr>dsk := (dsk s)\<lparr>incoming := dpop tid (incoming (dsk s))\<rparr>\<rparr>)"

definition remove_doomed :: "fs \<Rightarrow> uuid \<Rightarrow> fs" where
  "remove_doomed s i =
     (if i \<in> set (doomed s) then s\<lparr>dsk := (dsk s)\<lparr>snapshots := dpop i (snapshots (dsk s))\<rparr>, doomed := removeAll i (doomed s)\<rparr> else s)"

section \<open>Steps\<close>

definition fail_section :: "fs \<Rightarrow> fs" where
  \<comment> \<open>an exception in the section under the lock: a publish discards its staging\<close>
  "fail_section s =
     (case lock_holder s of
        None \<Rightarrow> s
      | Some (Ready tid p) \<Rightarrow> (discard tid s)\<lparr>lock_holder := None\<rparr>
      | Some (Moved tid p i) \<Rightarrow> (discard tid s)\<lparr>lock_holder := None\<rparr>
      | Some (Flipped tid p i old) \<Rightarrow> (discard tid s)\<lparr>lock_holder := None\<rparr>
      | Some (Settled tid p i) \<Rightarrow> (discard tid s)\<lparr>lock_holder := None\<rparr>
      | Some _ \<Rightarrow> s\<lparr>lock_holder := None\<rparr>)"

fun fs_step :: "nat \<Rightarrow> fs \<Rightarrow> fs_op \<Rightarrow> fs" where
  "fs_step keep s (Guard tid pub declared assigned) = guard_upload s tid pub declared assigned"
| "fs_step keep s (Stage tid) =
     (if (case dget (uploads s) tid of None \<Rightarrow> False | Some u \<Rightarrow> \<not> up_verified u) \<and> dget (incoming (dsk s)) tid = None
      then s\<lparr>dsk := (dsk s)\<lparr>incoming := dset tid [] (incoming (dsk s))\<rparr>\<rparr> else s)"
| "fs_step keep s (Pin tid) = (if dget (uploads s) tid \<noteq> None then s\<lparr>staged := tid # staged s\<rparr> else s)"
| "fs_step keep s (WriteStaging tid t) =
     (case (dget (uploads s) tid, dget (incoming (dsk s)) tid) of
        (Some u, Some old) \<Rightarrow> if up_verified u then s else s\<lparr>dsk := (dsk s)\<lparr>incoming := dset tid t (incoming (dsk s))\<rparr>\<rparr>
      | _ \<Rightarrow> s)"
| "fs_step keep s (Verify tid) = (if busy_with s tid then s else verify_upload s tid)"
| "fs_step keep s (Restore tid t force) = restore_backup s tid t force"
| "fs_step keep s (Commit tid assigned) = commit_upload s tid assigned"
| "fs_step keep s (Move i) = move_staging s i"
| "fs_step keep s Flip = flip_current s"
| "fs_step keep s Settle = settle_old s"
| "fs_step keep s Mark = mark_publish s"
| "fs_step keep s (AbortEntry tid ps) = abort_entry s tid ps"
| "fs_step keep s (Abort tid) = discard tid s"
| "fs_step keep s (Edit vid e) = edit_current keep s vid e"
| "fs_step keep s (InitialWrite tid ps data) = initial_write s tid ps data"
| "fs_step keep s EditBump =
     (if lock_holder s = Some Edited then s\<lparr>dsk := bump_marker (Some API_EDIT_PUBLISHER) (dsk s), lock_holder := None\<rparr> else s)"
| "fs_step keep s PruneStart = prune_start s"
| "fs_step keep s PruneAdvance = prune_step Packed s"
| "fs_step keep s PruneUnlink = prune_step Advanced s"
| "fs_step keep s PruneClear = prune_step Unlinked s"
| "fs_step keep s PruneFinish = prune_step Collected (prune_step Cleared s)"
| "fs_step keep s (Pick r) = pick_current s r"
| "fs_step keep s (Take r) = take_lease s r"
| "fs_step keep s (Recheck r) = recheck_lease s r"
| "fs_step keep s (Hydrate r) = open_hydrate s r"
| "fs_step keep s (Release r) = release_lease s r"
| "fs_step keep s (SweepCheck i) = sweep_check s i"
| "fs_step keep s (SweepStaging tid) = sweep_staging s tid"
| "fs_step keep s (Remove i) = remove_doomed s i"
| "fs_step keep s Fault = fail_section s"
| "fs_step keep s Crash = s\<lparr>leases := [], staged := [], uploads := [], readers := [], lock_holder := None, doomed := []\<rparr>"

definition fs_boot :: "disk \<Rightarrow> fs" where
  \<comment> \<open>the process has started on this disk\<close>
  "fs_boot d = \<lparr>dsk = d, leases = [], staged = [], uploads = [], readers = [], lock_holder = None, doomed = [],
                minted = map fst (snapshots d), deleted = False\<rparr>"

definition fs_run :: "nat \<Rightarrow> fs \<Rightarrow> fs_op list \<Rightarrow> fs" where
  "fs_run keep = foldl (fs_step keep)"

end
