(* ===== verification/Storage_Fs_Inv.thy ===== *)
theory Storage_Fs_Inv
  imports Storage_Fs
begin

text \<open>
  The invariants of the storage machine: the live link resolves, nothing that is to be removed is live or about to
  be, and a leased snapshot stays.
\<close>

section \<open>The live link\<close>

fun moved_to :: "phase option \<Rightarrow> uuid option" where
  "moved_to (Some (Moved t p i)) = Some i"
| "moved_to _ = None"

fun flipped_to :: "phase option \<Rightarrow> uuid option" where
  "flipped_to (Some (Flipped t p i old)) = Some i"
| "flipped_to _ = None"

fun flipped_from :: "phase option \<Rightarrow> uuid option" where
  "flipped_from (Some (Flipped t p i old)) = old"
| "flipped_from _ = None"

definition unlinked :: "phase option \<Rightarrow> bool" where
  "unlinked h \<longleftrightarrow> h \<in> {Some Unlinked, Some Cleared, Some Collected}"

definition link_ok :: "(uuid \<Rightarrow> bool) \<Rightarrow> uuid option \<Rightarrow> uuid set \<Rightarrow> uuid set \<Rightarrow> phase option \<Rightarrow> bool" where
  "link_ok S c D M h \<longleftrightarrow>
     (\<forall>i. c = Some i \<longrightarrow> S i \<and> i \<notin> D)
   \<and> (\<forall>i. moved_to h = Some i \<longrightarrow> S i \<and> c \<noteq> Some i \<and> i \<notin> D)
   \<and> (\<forall>i. flipped_to h = Some i \<longrightarrow> c = Some i)
   \<and> (\<forall>i. flipped_from h = Some i \<longrightarrow> i \<in> M)
   \<and> (\<forall>i. S i \<longrightarrow> i \<in> M) \<and> D \<subseteq> M
   \<and> (unlinked h \<longrightarrow> c = None)"

definition stored :: "disk \<Rightarrow> uuid \<Rightarrow> bool" where
  "stored d i \<longleftrightarrow> dget (snapshots d) i \<noteq> None"

definition link_inv :: "fs \<Rightarrow> bool" where
  "link_inv s \<longleftrightarrow> link_ok (stored (dsk s)) (current_link (dsk s)) (set (doomed s)) (set (minted s)) (lock_holder s)"

lemma link_ok_idle:
  "link_ok S c D M h \<Longrightarrow> moved_to h' = None \<Longrightarrow> flipped_to h' = None \<Longrightarrow> flipped_from h' = None \<Longrightarrow> \<not> unlinked h' \<Longrightarrow>
   link_ok S c D M h'"
  unfolding link_ok_def by simp

fun clear_of_publish :: "fs \<Rightarrow> fs_op \<Rightarrow> bool" where
  \<comment> \<open>the sweep does not judge the snapshot of a publish between its move and its flip\<close>
  "clear_of_publish s (SweepCheck i) = (case lock_holder s of Some (Moved t p j) \<Rightarrow> j \<noteq> i | _ \<Rightarrow> True)"
| "clear_of_publish s _ = True"

fun runs_clear :: "nat \<Rightarrow> fs \<Rightarrow> fs_op list \<Rightarrow> bool" where
  "runs_clear keep s [] = True"
| "runs_clear keep s (op # ops) = (clear_of_publish s op \<and> runs_clear keep (fs_step keep s op) ops)"

lemma discard_fields [simp]:
  "snapshots (dsk (discard tid s)) = snapshots (dsk s)" "current_link (dsk (discard tid s)) = current_link (dsk s)"
  "gen_marker (dsk (discard tid s)) = gen_marker (dsk s)" "doomed (discard tid s) = doomed s" "minted (discard tid s) = minted s"
  "lock_holder (discard tid s) = lock_holder s" "leases (discard tid s) = leases s" "readers (discard tid s) = readers s"
  "deleted (discard tid s) = deleted s"
  by (simp_all add: discard_def)

lemma abort_entry_fields [simp]:
  "snapshots (dsk (abort_entry s tid ps)) = snapshots (dsk s)" "current_link (dsk (abort_entry s tid ps)) = current_link (dsk s)"
  "gen_marker (dsk (abort_entry s tid ps)) = gen_marker (dsk s)" "doomed (abort_entry s tid ps) = doomed s"
  "minted (abort_entry s tid ps) = minted s" "lock_holder (abort_entry s tid ps) = lock_holder s"
  "leases (abort_entry s tid ps) = leases s" "readers (abort_entry s tid ps) = readers s" "deleted (abort_entry s tid ps) = deleted s"
  by (simp_all add: abort_entry_def split: option.split)

lemma marker_fields [simp]:
  "snapshots (write_marker g p d) = snapshots d" "current_link (write_marker g p d) = current_link d"
  "snapshots (bump_marker p d) = snapshots d" "current_link (bump_marker p d) = current_link d"
  "snapshots (drop_publisher d) = snapshots d" "current_link (drop_publisher d) = current_link d"
  "incoming (bump_marker p d) = incoming d"
  by (simp_all add: write_marker_def bump_marker_def drop_publisher_def split: prod.split)

lemma capture_fields [simp]:
  "snapshots (capture_version keep ps vid b d) = snapshots d" "current_link (capture_version keep ps vid b d) = current_link d"
  "gen_marker (capture_version keep ps vid b d) = gen_marker d" "incoming (capture_version keep ps vid b d) = incoming d"
  by (simp_all add: capture_version_def)

lemma stored_fields [simp]:
  "stored (write_marker g p d) = stored d" "stored (bump_marker p d) = stored d" "stored (drop_publisher d) = stored d"
  "stored (capture_version keep ps vid b d) = stored d" "stored (dsk (discard tid s)) = stored (dsk s)"
  "stored (dsk (abort_entry s tid ps)) = stored (dsk s)"
  "stored (d\<lparr>snapshots := dset i t (snapshots d)\<rparr>) = (stored d)(i := True)"
  "stored (d\<lparr>snapshots := dpop i (snapshots d)\<rparr>) = (stored d)(i := False)"
  "stored (d\<lparr>current_link := c\<rparr>) = stored d" "stored (d\<lparr>incoming := x\<rparr>) = stored d" "stored (d\<lparr>final_archive := f\<rparr>) = stored d"
  by (auto simp: stored_def fun_eq_iff)

lemma current_dir_stored: "current_dir d = Inr (i, t) \<Longrightarrow> current_link d = Some i \<and> stored d i \<and> dget (snapshots d) i = Some t"
  by (auto simp: current_dir_def stored_def split: option.splits)

lemma edit_disk_fields:
  assumes "edit_disk keep vid e d = (err, d')"
  shows "current_link d' = current_link d" "gen_marker d' = gen_marker d" "incoming d' = incoming d" "stored d' = stored d"
proof -
  show "current_link d' = current_link d" "gen_marker d' = gen_marker d" "incoming d' = incoming d"
    using assms unfolding edit_disk_def by (auto split: sum.splits option.splits prod.splits)
  have st: "stored (d0\<lparr>snapshots := dset i t S\<rparr>) j \<longleftrightarrow> j = i \<or> dget S j \<noteq> None" for d0 i t S j by (simp add: stored_def)
  show "stored d' = stored d"
  proof (cases "current_dir d")
    case (Inr x)
    obtain i t where x: "x = (i, t)" by fastforce
    then have i: "dget (snapshots d) i = Some t" using current_dir_stored [of d i t] Inr by simp
    have "stored d' j \<longleftrightarrow> j = i \<or> dget (snapshots d) j \<noteq> None" for j
      using assms Inr x unfolding edit_disk_def by (auto split: sum.splits option.splits prod.splits simp: st simp del: stored_fields)
    then show ?thesis using i by (auto simp: fun_eq_iff stored_def)
  qed (use assms in \<open>simp add: edit_disk_def\<close>)
qed

lemma link_inv_edit:
  assumes inv: "link_inv s"
  shows "link_inv (edit_current keep s vid e)"
proof -
  obtain err d where d: "edit_disk keep vid e (dsk s) = (err, d)" by fastforce
  have "link_ok (stored (dsk s)) (current_link (dsk s)) (set (doomed s)) (set (minted s)) h"
    if "h = Some Edited \<or> h = None" for h
    using link_ok_idle [OF inv [unfolded link_inv_def], of h] that by (auto simp: unlinked_def)
  then show ?thesis using inv edit_disk_fields [OF d] unfolding edit_current_def link_inv_def by (simp add: d)
qed

lemma link_inv_move:
  assumes "link_inv s"
  shows "link_inv (move_staging s i)"
proof (cases "\<exists>t p. lock_holder s = Some (Ready t p)")
  case True
  then obtain t p where "lock_holder s = Some (Ready t p)" by blast
  then show ?thesis using assms
    by (auto simp: move_staging_def link_inv_def link_ok_def unlinked_def split: option.split)
next
  case False
  then have "move_staging s i = s" unfolding move_staging_def by (auto split: option.split phase.split)
  then show ?thesis using assms by simp
qed

lemma link_inv_flip:
  assumes "link_inv s"
  shows "link_inv (flip_current s)"
proof (cases "\<exists>t p i. lock_holder s = Some (Moved t p i)")
  case True
  then show ?thesis using assms by (auto simp: flip_current_def link_inv_def link_ok_def unlinked_def)
next
  case False
  then have "flip_current s = s" unfolding flip_current_def by (auto split: option.split phase.split)
  then show ?thesis using assms by simp
qed

lemma link_inv_settle:
  assumes "link_inv s"
  shows "link_inv (settle_old s)"
proof (cases "\<exists>t p i old. lock_holder s = Some (Flipped t p i old)")
  case True
  then obtain t p i old where h: "lock_holder s = Some (Flipped t p i old)" by blast
  show ?thesis using assms by (cases old) (auto simp: h settle_old_def link_inv_def link_ok_def unlinked_def)
next
  case False
  then have "settle_old s = s" unfolding settle_old_def by (auto split: option.split phase.split)
  then show ?thesis using assms by simp
qed

lemma link_inv_idle:
  \<comment> \<open>a step that leaves the snapshots, the link and the decisions alone and ends a section or enters an idle phase\<close>
  assumes "link_inv s" "stored (dsk s') = stored (dsk s)" "current_link (dsk s') = current_link (dsk s)" "doomed s' = doomed s"
    "minted s' = minted s" "moved_to (lock_holder s') = None" "flipped_to (lock_holder s') = None"
    "flipped_from (lock_holder s') = None" "\<not> unlinked (lock_holder s')"
  shows "link_inv s'"
  using assms link_ok_idle unfolding link_inv_def by metis

lemma link_inv_same:
  assumes "link_inv s" "stored (dsk s') = stored (dsk s)" "current_link (dsk s') = current_link (dsk s)" "doomed s' = doomed s"
    "minted s' = minted s" "lock_holder s' = lock_holder s"
  shows "link_inv s'"
  using assms unfolding link_inv_def by simp

lemma link_inv_prune: "link_inv s \<Longrightarrow> link_inv (prune_step p s)"
  by (cases p) (auto simp: prune_step_def link_inv_def link_ok_def unlinked_def stored_def [abs_def])

lemma link_inv_fail: "link_inv s \<Longrightarrow> link_inv (fail_section s)"
  unfolding fail_section_def
  by (auto split: option.split phase.split intro: link_inv_idle simp: unlinked_def)

lemma link_inv_mark:
  assumes "link_inv s"
  shows "link_inv (mark_publish s)"
proof (cases "\<exists>t p i. lock_holder s = Some (Settled t p i)")
  case True
  then show ?thesis by (auto simp: mark_publish_def unlinked_def intro: link_inv_idle [OF assms])
next
  case False
  then have "mark_publish s = s" unfolding mark_publish_def by (auto split: option.split phase.split)
  then show ?thesis using assms by simp
qed

lemma link_inv_prune_start: "link_inv s \<Longrightarrow> link_inv (prune_start s)"
  unfolding prune_start_def
  by (auto simp: link_inv_def link_ok_def unlinked_def stored_def [abs_def] split: sum.split)

lemma link_inv_commit: "link_inv s \<Longrightarrow> link_inv (commit_upload s tid assigned)"
  unfolding commit_upload_def
  by (auto split: option.split intro: link_inv_same link_inv_idle simp: unlinked_def)

lemma link_inv_step:
  assumes inv: "link_inv s" and clear: "clear_of_publish s op"
  shows "link_inv (fs_step keep s op)"
proof (cases op)
  case (SweepCheck i)
  have "moved_to (lock_holder s) \<noteq> Some i"
    using clear SweepCheck by (cases "lock_holder s"; cases "the (lock_holder s)") auto
  then show ?thesis using inv SweepCheck
    by (auto simp: sweep_check_def link_inv_def link_ok_def stored_def [abs_def])
next
  case (Remove i)
  then show ?thesis using inv by (auto simp: remove_doomed_def link_inv_def link_ok_def)
next
  case Crash
  then show ?thesis using link_ok_idle [OF inv [unfolded link_inv_def], of None]
    by (auto simp: link_inv_def unlinked_def link_ok_def)
next
  case (InitialWrite tid ps data)
  then show ?thesis
    by (auto simp: initial_write_def unlinked_def inv split: sum.split intro: link_inv_idle [OF inv])
next
  case EditBump
  then show ?thesis by (auto simp: unlinked_def inv intro: link_inv_idle [OF inv])
qed (auto simp: link_inv_edit link_inv_fail link_inv_move link_inv_flip link_inv_settle link_inv_mark link_inv_prune_start link_inv_commit
       link_inv_prune inv guard_upload_def verify_upload_def restore_backup_def Let_def
       pick_current_def take_lease_def recheck_lease_def open_hydrate_def release_lease_def lease_def unlease_def sweep_staging_def
       split: option.split sum.split reader.split intro: link_inv_same [OF inv])

lemma runs_clear_link_inv: "link_inv s \<Longrightarrow> runs_clear keep s ops \<Longrightarrow> link_inv (fs_run keep s ops)"
proof (induction ops arbitrary: s)
  case (Cons op ops)
  then show ?case using link_inv_step by (simp add: fs_run_def)
qed (simp add: fs_run_def)

end
