(* ===== verification/Storage_Fs_Readers.thy ===== *)
theory Storage_Fs_Readers
  imports Storage_Fs_Inv
begin

text \<open>
  A reader that holds a verified lease keeps its snapshot: the count of leases is the number of readers, a decision to
  remove a snapshot is made only without a lease, and a lease stands only on the snapshot that is live.
\<close>

section \<open>Counting leases\<close>

fun holds_lease :: "uuid \<Rightarrow> reader \<Rightarrow> bool" where
  "holds_lease i (Picked j) = False"
| "holds_lease i (Taken j) = (j = i)"
| "holds_lease i (Reading j) = (j = i)"

definition lease_holders :: "(uuid, reader) dict \<Rightarrow> uuid \<Rightarrow> nat" where
  "lease_holders rs i = length (filter (\<lambda>x. holds_lease i (snd x)) rs)"

lemma holders_dset:
  "dwf rs \<Longrightarrow> lease_holders (dset r x rs) i + (case dget rs r of None \<Rightarrow> 0 | Some y \<Rightarrow> of_bool (holds_lease i y))
     = lease_holders rs i + of_bool (holds_lease i x)"
proof (induction rs)
  case (Cons a rs)
  obtain q y where a: "a = (q, y)" by fastforce
  show ?case
  proof (cases "q = r")
    case True
    then have "dget rs r = None" using Cons.prems a by (auto simp: dwf_def map_of_eq_None_iff)
    then show ?thesis by (simp add: a True lease_holders_def)
  next
    case False
    then show ?thesis using Cons by (auto simp: a lease_holders_def dwf_def split: option.split)
  qed
qed (simp add: lease_holders_def)

lemma holders_dpop:
  "dwf rs \<Longrightarrow> lease_holders (dpop r rs) i + (case dget rs r of None \<Rightarrow> 0 | Some y \<Rightarrow> of_bool (holds_lease i y)) = lease_holders rs i"
proof (induction rs)
  case (Cons a rs)
  obtain q y where a: "a = (q, y)" by fastforce
  show ?case
  proof (cases "q = r")
    case True
    then have "r \<notin> fst ` set rs" using Cons.prems a by (auto simp: dwf_def)
    then have "dpop r rs = rs" "dget rs r = None" by (auto simp: delete_notin_dom map_of_eq_None_iff)
    then show ?thesis by (simp add: a True lease_holders_def)
  next
    case False
    then show ?thesis using Cons by (auto simp: a lease_holders_def dwf_def split: option.split)
  qed
qed (simp add: lease_holders_def)

lemma holder_exists: "dget rs r = Some (Reading i) \<or> dget rs r = Some (Taken i) \<Longrightarrow> 0 < lease_holders rs i"
proof -
  assume a: "dget rs r = Some (Reading i) \<or> dget rs r = Some (Taken i)"
  then have "(r, Reading i) \<in> set rs \<or> (r, Taken i) \<in> set rs" by (auto dest: map_of_SomeD)
  then have "\<exists>x \<in> set rs. holds_lease i (snd x)" by force
  then show ?thesis by (auto simp: lease_holders_def filter_empty_conv)
qed

section \<open>The invariant\<close>

definition leases_ok :: "uuid list \<Rightarrow> (uuid, reader) dict \<Rightarrow> bool" where
  "leases_ok ls rs \<longleftrightarrow> dwf rs \<and> (\<forall>i. count_list ls i = lease_holders rs i)"

definition reads_ok :: "(uuid \<Rightarrow> bool) \<Rightarrow> uuid set \<Rightarrow> (uuid, reader) dict \<Rightarrow> bool" where
  "reads_ok S D rs \<longleftrightarrow> (\<forall>r i. dget rs r = Some (Reading i) \<longrightarrow> S i \<and> i \<notin> D)"

definition pruning :: "phase option \<Rightarrow> bool" where
  "pruning h \<longleftrightarrow> h \<in> {Some Packed, Some Advanced, Some Unlinked, Some Cleared, Some Collected}"

definition reader_inv :: "fs \<Rightarrow> bool" where
  "reader_inv s \<longleftrightarrow> leases_ok (leases s) (readers s) \<and> (pruning (lock_holder s) \<longrightarrow> deleted s)
     \<and> (deleted s \<or> reads_ok (stored (dsk s)) (set (doomed s)) (readers s))"

lemma leased: "leases_ok ls rs \<Longrightarrow> dget rs r = Some (Reading i) \<Longrightarrow> i \<in> set ls"
  using holder_exists [of rs r i] unfolding leases_ok_def by (metis count_list_0_iff less_numeral_extra(3))

lemma count_remove1: "count_list (remove1 i ls) j = (if j = i then count_list ls j - 1 else count_list ls j)"
proof (induction ls)
  case (Cons x ls)
  then show ?case using count_list_0_iff [of ls i] by (cases "count_list ls i") auto
qed simp

lemma leases_pick: "leases_ok ls rs \<Longrightarrow> dget rs r = None \<Longrightarrow> leases_ok ls (dset r (Picked i) rs)"
  using holders_dset [of rs r "Picked i"] unfolding leases_ok_def by (auto intro: dwf_dset)

lemma leases_take: "leases_ok ls rs \<Longrightarrow> dget rs r = Some (Picked i) \<Longrightarrow> leases_ok (i # ls) (dset r (Taken i) rs)"
  using holders_dset [of rs r "Taken i"] unfolding leases_ok_def by (auto intro: dwf_dset)

lemma leases_read: "leases_ok ls rs \<Longrightarrow> dget rs r = Some (Taken i) \<Longrightarrow> leases_ok ls (dset r (Reading i) rs)"
  using holders_dset [of rs r "Reading i"] unfolding leases_ok_def by (auto intro: dwf_dset)

lemma leases_open: "leases_ok ls rs \<Longrightarrow> dget rs r = None \<Longrightarrow> leases_ok (i # ls) (dset r (Reading i) rs)"
  using holders_dset [of rs r "Reading i"] unfolding leases_ok_def by (auto intro: dwf_dset)

lemma leases_drop:
  assumes "leases_ok ls rs" "dget rs r = Some x" "holds_lease i x"
  shows "leases_ok (remove1 i ls) (dpop r rs)"
proof -
  have "holds_lease j x \<longleftrightarrow> j = i" for j using assms(3) by (cases x) auto
  then have "lease_holders (dpop r rs) j = (if j = i then lease_holders rs j - 1 else lease_holders rs j)" for j
    using holders_dpop [of rs r j] assms(1,2) unfolding leases_ok_def by auto
  then show ?thesis using assms(1) unfolding leases_ok_def by (auto simp: count_remove1 intro: dwf_dpop)
qed

lemma reader_inv_same:
  assumes "reader_inv s" "leases s' = leases s" "readers s' = readers s" "deleted s \<Longrightarrow> deleted s'"
    "pruning (lock_holder s') \<Longrightarrow> pruning (lock_holder s) \<or> deleted s'"
    "\<And>i. stored (dsk s) i \<Longrightarrow> stored (dsk s') i \<or> deleted s'" "set (doomed s') \<subseteq> set (doomed s) \<union> - set (leases s)"
  shows "reader_inv s'"
  using assms(1,4-7) leased [of "leases s" "readers s"] unfolding reader_inv_def assms(2,3) reads_ok_def by blast

lemma reader_inv_recheck:
  assumes inv: "reader_inv s" and link: "link_inv s"
  shows "reader_inv (recheck_lease s r)"
proof (cases "dget (readers s) r")
  case (Some x)
  show ?thesis
  proof (cases x)
    case (Taken i)
    have drop: "reader_inv (unlease r i s)"
      using inv leases_drop [of "leases s" "readers s" r "Taken i" i] Some Taken
      unfolding reader_inv_def unlease_def reads_ok_def by auto
    have "reader_inv (s\<lparr>readers := dset r (Reading i) (readers s)\<rparr>)" if "current_dir (dsk s) = Inr (i, t)" for t
      using inv link leases_read [of "leases s" "readers s" r i] Some Taken current_dir_stored [OF that]
      unfolding reader_inv_def reads_ok_def link_inv_def link_ok_def by auto
    with drop show ?thesis unfolding recheck_lease_def Some Taken by (auto split: sum.split)
  qed (use inv Some in \<open>simp_all add: recheck_lease_def\<close>)
qed (use inv in \<open>simp add: recheck_lease_def\<close>)

lemma reader_inv_hydrate:
  assumes inv: "reader_inv s" and link: "link_inv s"
  shows "reader_inv (open_hydrate s r)"
proof -
  have "reader_inv (lease r i s)" if "dget (readers s) r = None" "current_dir (dsk s) = Inr (i, t)" for i t
    using inv link leases_open [of "leases s" "readers s" r i] that(1) current_dir_stored [OF that(2)]
    unfolding reader_inv_def reads_ok_def link_inv_def link_ok_def lease_def by auto
  then show ?thesis using inv unfolding open_hydrate_def by (auto split: option.split sum.split)
qed

lemma reader_inv_release: "reader_inv s \<Longrightarrow> reader_inv (release_lease s r)"
  using leases_drop [of "leases s" "readers s" r _]
  unfolding release_lease_def reader_inv_def unlease_def reads_ok_def
  by (auto split: option.split reader.split)

lemma reader_inv_take: "reader_inv s \<Longrightarrow> reader_inv (take_lease s r)"
  using leases_take unfolding take_lease_def reader_inv_def reads_ok_def
  by (auto split: option.split reader.split)

lemma reader_inv_pick: "reader_inv s \<Longrightarrow> reader_inv (pick_current s r)"
  using leases_pick unfolding pick_current_def reader_inv_def reads_ok_def
  by (auto split: option.split sum.split)

lemma reader_inv_settle: "reader_inv s \<Longrightarrow> reader_inv (settle_old s)"
  unfolding settle_old_def by (auto simp: pruning_def split: option.split phase.split intro: reader_inv_same)

lemma reader_inv_publish: "reader_inv s \<Longrightarrow> reader_inv (move_staging s i)" "reader_inv s \<Longrightarrow> reader_inv (flip_current s)"
  "reader_inv s \<Longrightarrow> reader_inv (mark_publish s)" "reader_inv s \<Longrightarrow> reader_inv (fail_section s)"
  unfolding move_staging_def flip_current_def mark_publish_def fail_section_def
  by (auto simp: pruning_def split: option.split phase.split intro: reader_inv_same)

lemma reader_inv_edit: "reader_inv s \<Longrightarrow> reader_inv (edit_current keep s vid e)"
proof -
  assume inv: "reader_inv s"
  obtain err d where d: "edit_disk keep vid e (dsk s) = (err, d)" by fastforce
  show ?thesis unfolding edit_current_def d using edit_disk_fields(4) [OF d] inv
    by (auto simp: pruning_def intro: reader_inv_same [OF inv])
qed

lemma reader_inv_prune: "reader_inv s \<Longrightarrow> reader_inv (prune_start s)" "reader_inv s \<Longrightarrow> reader_inv (prune_step p s)"
proof -
  assume inv: "reader_inv s"
  show "reader_inv (prune_start s)" unfolding prune_start_def
    by (auto simp: inv split: sum.split intro: reader_inv_same [OF inv])
  have "pruning (lock_holder s) \<Longrightarrow> deleted s" using inv by (simp add: reader_inv_def)
  then show "reader_inv (prune_step p s)" unfolding prune_step_def
    by (cases p) (auto simp: inv pruning_def stored_def intro: reader_inv_same [OF inv])
qed

lemma reader_inv_commit: "reader_inv s \<Longrightarrow> reader_inv (commit_upload s tid assigned)"
  unfolding commit_upload_def by (auto simp: pruning_def split: option.split intro: reader_inv_same)

lemma reader_inv_step:
  assumes inv: "reader_inv s" and link: "link_inv s"
  shows "reader_inv (fs_step keep s op)"
proof (cases op)
  case (SweepCheck i)
  then show ?thesis by (auto simp: sweep_check_def inv intro: reader_inv_same [OF inv])
next
  case (Remove i)
  have "reader_inv (remove_doomed s i)"
    using inv unfolding remove_doomed_def reader_inv_def reads_ok_def by (auto simp: stored_def)
  then show ?thesis using Remove by simp
next
  case Crash
  then show ?thesis using inv by (auto simp: reader_inv_def leases_ok_def lease_holders_def reads_ok_def pruning_def dwf_def)
next
  case (InitialWrite tid ps data)
  then show ?thesis by (auto simp: initial_write_def inv pruning_def split: sum.split intro: reader_inv_same [OF inv])
next
  case EditBump
  then show ?thesis by (auto simp: inv pruning_def intro: reader_inv_same [OF inv])
qed (auto simp: inv link reader_inv_recheck reader_inv_hydrate reader_inv_release reader_inv_take reader_inv_pick reader_inv_settle
       reader_inv_publish reader_inv_edit reader_inv_prune reader_inv_commit guard_upload_def verify_upload_def restore_backup_def Let_def
       sweep_staging_def split: option.split intro: reader_inv_same [OF inv])

text \<open>
  C10. The live working set is always there. From a disk whose link resolves, whatever uploads, aborts,
  restores, edits, readers, deletes, sweeps, faults and crashes interleave, the link of the server names a
  stored snapshot or there is no link at all; and as long as no delete of the server has started, a reader
  whose lease stands has its snapshot until it releases it (the prune of a delete removes the snapshots
  without asking for leases). Provided only that no sweep judges the snapshot of a publish between its move
  and its flip.
\<close>

theorem live_set_stays:
  assumes "current_dir d = Inr (i, t) \<or> current_link d = None" and "runs_clear keep (fs_boot d) ops"
  shows "(current_link (dsk (fs_run keep (fs_boot d) ops)) = Some j \<longrightarrow> dget (snapshots (dsk (fs_run keep (fs_boot d) ops))) j \<noteq> None)
    \<and> (dget (readers (fs_run keep (fs_boot d) ops)) r = Some (Reading k) \<longrightarrow>
         deleted (fs_run keep (fs_boot d) ops) \<or> dget (snapshots (dsk (fs_run keep (fs_boot d) ops))) k \<noteq> None)"
proof -
  have "link_inv s \<Longrightarrow> reader_inv s \<Longrightarrow> runs_clear keep s os \<Longrightarrow> link_inv (fs_run keep s os) \<and> reader_inv (fs_run keep s os)" for s os
  proof (induction os arbitrary: s)
    case (Cons op os)
    then show ?case using link_inv_step reader_inv_step by (simp add: fs_run_def)
  qed (simp add: fs_run_def)
  moreover have "link_inv (fs_boot d)"
    using assms(1) current_dir_stored [of d i t] map_of_eq_None_iff [of "snapshots d"]
    by (auto simp: link_inv_def link_ok_def fs_boot_def unlinked_def stored_def)
  moreover have "reader_inv (fs_boot d)"
    by (simp add: reader_inv_def fs_boot_def leases_ok_def lease_holders_def reads_ok_def pruning_def dwf_def)
  ultimately have "link_inv (fs_run keep (fs_boot d) ops) \<and> reader_inv (fs_run keep (fs_boot d) ops)" using assms(2) by blast
  then show ?thesis unfolding link_inv_def link_ok_def reader_inv_def reads_ok_def stored_def by blast
qed

end
