(* ===== verification/Storage_Fs_Props.thy ===== *)
theory Storage_Fs_Props
  imports Storage_Fs_Readers
begin

text \<open>
  What a generation stands for: it never drops, two moments of the same generation have the same working set, and a
  publish that passes its checks replaces the working set its guard saw.
\<close>

section \<open>The generation\<close>

definition contents :: "fs \<Rightarrow> tree option" where
  \<comment> \<open>the live working set\<close>
  "contents s = (case current_dir (dsk s) of Inl e \<Rightarrow> None | Inr (i, t) \<Rightarrow> Some t)"

abbreviation generation :: "fs \<Rightarrow> nat" where
  "generation s \<equiv> read_generation (dsk s)"

fun changing :: "phase option \<Rightarrow> bool" where
  \<comment> \<open>the working set has changed and the marker has not been advanced\<close>
  "changing (Some (Flipped t p i old)) = True"
| "changing (Some (Settled t p i)) = True"
| "changing (Some Edited) = True"
| "changing _ = False"

fun undisturbed :: "fs \<Rightarrow> fs_op \<Rightarrow> bool" where
  \<comment> \<open>no crash or fault between a change and its marker, no refused edit that leaves something behind\<close>
  "undisturbed s Crash = (\<not> changing (lock_holder s))"
| "undisturbed s Fault = (\<not> changing (lock_holder s))"
| "undisturbed s (Edit vid e) =
     (case current_dir (dsk s) of Inl err \<Rightarrow> True | Inr (i, t) \<Rightarrow> \<not> isl (edit_tree t e) \<or> edit_residue t e = t)"
| "undisturbed s op = clear_of_publish s op"

fun runs_undisturbed :: "nat \<Rightarrow> fs \<Rightarrow> fs_op list \<Rightarrow> bool" where
  "runs_undisturbed keep s [] = True"
| "runs_undisturbed keep s (op # ops) = (undisturbed s op \<and> runs_undisturbed keep (fs_step keep s op) ops)"

lemma undisturbed_clear: "undisturbed s op \<Longrightarrow> clear_of_publish s op"
  by (cases op) auto

lemma generation_fields [simp]:
  "read_generation (write_marker g p d) = g" "read_generation (bump_marker p d) = read_generation d + 1"
  "read_generation (drop_publisher d) = read_generation d" "read_generation (capture_version keep ps vid b d) = read_generation d"
  "read_generation (d\<lparr>snapshots := x\<rparr>) = read_generation d" "read_generation (d\<lparr>incoming := y\<rparr>) = read_generation d"
  "read_generation (d\<lparr>current_link := c\<rparr>) = read_generation d" "read_generation (d\<lparr>final_archive := f\<rparr>) = read_generation d"
  "read_generation (d\<lparr>versions := v\<rparr>) = read_generation d" "generation (discard tid s) = generation s"
  "generation (abort_entry s tid ps) = generation s"
  by (auto simp: read_generation_def read_marker_def write_marker_def bump_marker_def drop_publisher_def capture_version_def discard_def
      split: option.split prod.split)

lemma contents_same:
  "current_link (dsk s') = current_link (dsk s) \<Longrightarrow>
   (\<And>i. current_link (dsk s) = Some i \<Longrightarrow> dget (snapshots (dsk s')) i = dget (snapshots (dsk s)) i) \<Longrightarrow> contents s' = contents s"
  unfolding contents_def current_dir_def by (auto split: option.split)

definition stamped :: "nat \<Rightarrow> tree option \<Rightarrow> fs \<Rightarrow> bool" where
  \<comment> \<open>relative to an earlier moment with this generation and this working set\<close>
  "stamped g c s \<longleftrightarrow> g \<le> generation s \<and> (generation s = g \<longrightarrow> contents s = c \<or> changing (lock_holder s))
     \<and> (lock_holder s = Some Advanced \<longrightarrow> g < generation s)"

lemma stamped_same:
  "stamped g c s \<Longrightarrow> generation s' = generation s \<Longrightarrow> contents s' = contents s \<Longrightarrow>
   lock_holder s' \<noteq> Some Advanced \<or> lock_holder s = Some Advanced \<Longrightarrow>
   changing (lock_holder s) \<Longrightarrow> changing (lock_holder s') \<Longrightarrow> stamped g c s'"
  "stamped g c s \<Longrightarrow> generation s' = generation s \<Longrightarrow> contents s' = contents s \<Longrightarrow>
   lock_holder s' \<noteq> Some Advanced \<or> lock_holder s = Some Advanced \<Longrightarrow> \<not> changing (lock_holder s) \<Longrightarrow> stamped g c s'"
  unfolding stamped_def by auto

lemma stamped_bumped: "stamped g c s \<Longrightarrow> generation s' = generation s + 1 \<Longrightarrow> stamped g c s'"
  unfolding stamped_def by auto

lemma stamped_quiet:
  assumes "stamped g c s" "generation s' = generation s" "contents s' = contents s" "lock_holder s' = lock_holder s"
  shows "stamped g c s'"
  using assms unfolding stamped_def by simp

lemma stamped_changed:
  assumes "stamped g c s" "generation s' = generation s" "changing (lock_holder s')"
  shows "stamped g c s'"
  using assms unfolding stamped_def by auto

lemma edit_disk_generation: "edit_disk keep vid e d = (err, d') \<Longrightarrow> read_generation d' = read_generation d"
  using edit_disk_fields(2) unfolding read_generation_def read_marker_def by metis

lemma edit_refused_same:
  assumes "edit_disk keep vid e (dsk s) = (Some err, d)" "undisturbed s (Edit vid e)"
  shows "contents (s\<lparr>dsk := d\<rparr>) = contents s"
  using assms unfolding edit_disk_def contents_def undisturbed.simps current_dir_def by (auto split: sum.splits option.splits prod.splits)

lemma stamped_edit:
  assumes st: "stamped g c s" and u: "undisturbed s (Edit vid e)"
  shows "stamped g c (edit_current keep s vid e)"
proof (cases "lock_holder s")
  case None
  obtain err d where d: "edit_disk keep vid e (dsk s) = (err, d)" by fastforce
  show ?thesis
  proof (cases err)
    case None
    show ?thesis by (rule stamped_changed [OF st])
      (use d None \<open>lock_holder s = None\<close> edit_disk_generation [OF d] in \<open>simp_all add: edit_current_def\<close>)
  next
    case (Some x)
    have c: "contents (s\<lparr>dsk := d\<rparr>) = contents s" by (rule edit_refused_same) (use d Some u in simp_all)
    have "edit_current keep s vid e = s\<lparr>dsk := d\<rparr>" using d Some \<open>lock_holder s = None\<close> by (simp add: edit_current_def)
    then show ?thesis using stamped_quiet [OF st _ c] edit_disk_generation [OF d] by simp
  qed
qed (simp add: edit_current_def st)

lemma stamped_section:
  \<comment> \<open>a step of a section that leaves the working set alone and does not end a change\<close>
  assumes "stamped g c s" "generation s' = generation s" "contents s' = contents s" "changing (lock_holder s) \<Longrightarrow> changing (lock_holder s')"
    "lock_holder s' \<noteq> Some Advanced"
  shows "stamped g c s'"
  using assms unfolding stamped_def by auto

lemma stamped_publish:
  assumes st: "stamped g c s" and link: "link_inv s"
  shows "stamped g c (move_staging s i)" "stamped g c (flip_current s)" "stamped g c (settle_old s)" "stamped g c (mark_publish s)"
proof -
  show "stamped g c (move_staging s i)"
  proof (cases "\<exists>t p. lock_holder s = Some (Ready t p)")
    case True
    then obtain t p where h: "lock_holder s = Some (Ready t p)" by blast
    have n: "\<And>j. current_link (dsk s) = Some j \<Longrightarrow> i \<notin> set (minted s) \<Longrightarrow> j \<noteq> i"
      using link unfolding link_inv_def link_ok_def by blast
    show ?thesis unfolding move_staging_def h
      by (auto simp: st h split: option.split intro!: stamped_section [OF st] contents_same dest: n)
  next
    case False
    then have "move_staging s i = s" unfolding move_staging_def by (auto split: option.split phase.split)
    then show ?thesis using st by simp
  qed
  show "stamped g c (flip_current s)" unfolding flip_current_def
    by (auto simp: st split: option.split phase.split intro: stamped_changed [OF st])
  show "stamped g c (settle_old s)" unfolding settle_old_def
    by (auto simp: st split: option.split phase.split intro: stamped_changed [OF st])
  show "stamped g c (mark_publish s)" unfolding mark_publish_def
    by (auto simp: st split: option.split phase.split intro: stamped_bumped [OF st])
qed

lemma stamped_prune:
  assumes st: "stamped g c s" and link: "link_inv s"
  shows "stamped g c (prune_start s)" "stamped g c (prune_step p s)"
proof -
  show "stamped g c (prune_start s)"
  proof (cases "current_dir (dsk s)")
    case (Inl e)
    then have n: "contents s = None" by (simp add: contents_def)
    have "contents (s\<lparr>dsk := (dsk s)\<lparr>snapshots := [], incoming := [], versions := [], current_link := None\<rparr>,
                        lock_holder := Some Collected, deleted := True\<rparr>) = contents s"
      unfolding n by (simp add: contents_def current_dir_def)
    then show ?thesis unfolding prune_start_def using st Inl by (auto intro: stamped_section [OF st])
  next
    case (Inr x)
    then show ?thesis unfolding prune_start_def using st
      by (auto split: prod.split intro!: stamped_section [OF st] contents_same)
  qed
  have un: "unlinked (lock_holder s) \<Longrightarrow> current_link (dsk s) = None" using link by (simp add: link_inv_def link_ok_def)
  show "stamped g c (prune_step p s)"
  proof (cases "lock_holder s = Some p")
    case h: True
    show ?thesis
    proof (cases p)
      case Advanced
      then have "g < generation s" using st h by (simp add: stamped_def)
      then show ?thesis using h Advanced unfolding stamped_def prune_step_def by simp
    next
      case Unlinked
      then have "current_link (dsk s) = None" using un h by (simp add: unlinked_def)
      then show ?thesis using h Unlinked unfolding prune_step_def by (auto intro!: stamped_section [OF st] contents_same)
    next
      case Cleared
      then show ?thesis using h unfolding prune_step_def by (auto intro!: stamped_section [OF st] contents_same)
    next
      case Packed
      then show ?thesis using h unfolding prune_step_def by (auto intro: stamped_bumped [OF st])
    next
      case Collected
      then show ?thesis using h unfolding prune_step_def by (auto intro: stamped_bumped [OF st])
    qed (use h st in \<open>simp_all add: prune_step_def\<close>)
  qed (simp add: prune_step_def st)
qed

lemma stamped_step:
  assumes st: "stamped g c s" and link: "link_inv s" and u: "undisturbed s op"
  shows "stamped g c (fs_step keep s op)"
proof (cases op)
  case Crash
  then show ?thesis using u by (auto intro!: stamped_section [OF st] contents_same)
next
  case Fault
  have "generation (fail_section s) = generation s" "contents (fail_section s) = contents s" "lock_holder (fail_section s) = None"
    unfolding fail_section_def by (auto split: option.split phase.split intro!: contents_same)
  then show ?thesis using u Fault by (auto intro: stamped_section [OF st])
next
  case (Edit vid e)
  then show ?thesis using stamped_edit [OF st] u by simp
next
  case EditBump
  then show ?thesis using st by (auto intro: stamped_bumped [OF st])
next
  case (Remove i)
  have "\<And>j. current_link (dsk s) = Some j \<Longrightarrow> i \<in> set (doomed s) \<Longrightarrow> j \<noteq> i"
    using link unfolding link_inv_def link_ok_def by blast
  then show ?thesis using Remove st by (auto simp: remove_doomed_def intro!: stamped_quiet [OF st] contents_same)
next
  case (Commit tid a)
  then show ?thesis unfolding commit_upload_def
    by (auto simp: st commit_upload_def split: option.split intro!: stamped_section [OF st] contents_same)
next
  case (InitialWrite tid ps data)
  then show ?thesis
    by (auto simp: st initial_write_def split: sum.split intro!: stamped_section [OF st] contents_same)
qed (auto simp: st stamped_publish [OF st link] stamped_prune link_inv_prune link guard_upload_def verify_upload_def restore_backup_def Let_def
       pick_current_def take_lease_def recheck_lease_def open_hydrate_def release_lease_def lease_def unlease_def sweep_check_def sweep_staging_def
       split: option.split sum.split reader.split intro!: stamped_quiet [OF st] contents_same)

lemma run_stamped:
  "stamped g c s \<Longrightarrow> link_inv s \<Longrightarrow> runs_undisturbed keep s ops \<Longrightarrow> stamped g c (fs_run keep s ops) \<and> link_inv (fs_run keep s ops)"
proof (induction ops arbitrary: s)
  case (Cons op ops)
  then show ?case using stamped_step link_inv_step undisturbed_clear by (simp add: fs_run_def)
qed (simp add: fs_run_def)

lemma generation_step: "generation s \<le> generation (fs_step keep s op)"
proof (cases op)
  case (Edit vid e)
  obtain err d where "edit_disk keep vid e (dsk s) = (err, d)" by fastforce
  then show ?thesis using edit_disk_generation Edit by (simp add: edit_current_def)
next
  case PruneFinish
  have "generation s \<le> generation (prune_step p s)" for p s by (cases p) (simp_all add: prune_step_def)
  from order.trans [OF this this] show ?thesis using PruneFinish by simp
next
  case Fault
  then show ?thesis by (simp add: fail_section_def split: option.split phase.split)
qed (auto simp: guard_upload_def verify_upload_def restore_backup_def commit_upload_def move_staging_def flip_current_def settle_old_def
       mark_publish_def initial_write_def prune_start_def prune_step_def pick_current_def take_lease_def recheck_lease_def open_hydrate_def
       release_lease_def lease_def unlease_def sweep_check_def sweep_staging_def remove_doomed_def Let_def
       split: option.split sum.split phase.split reader.split)

lemma generation_run: "generation s \<le> generation (fs_run keep s ops)"
proof (induction ops arbitrary: s)
  case (Cons op ops)
  show ?case using order.trans [OF generation_step Cons] by (simp add: fs_run_def)
qed (simp add: fs_run_def)

definition disk_ok :: "disk \<Rightarrow> bool" where
  \<comment> \<open>the link, if any, names a stored snapshot\<close>
  "disk_ok d \<longleftrightarrow> (\<exists>x. current_dir d = Inr x) \<or> current_link d = None"

lemma boot_link_inv: "disk_ok d \<Longrightarrow> link_inv (fs_boot d)"
  using current_dir_stored [of d] map_of_eq_None_iff [of "snapshots d"]
  by (force simp: disk_ok_def link_inv_def link_ok_def fs_boot_def unlinked_def stored_def)

lemma same_set:
  assumes "disk_ok d" and "runs_clear keep (fs_boot d) before" and "s = fs_run keep (fs_boot d) before"
    and "lock_holder s \<noteq> Some Advanced" and "runs_undisturbed keep s ops"
    and "lock_holder (fs_run keep s ops) = None" and "generation (fs_run keep s ops) = generation s"
  shows "contents (fs_run keep s ops) = contents s"
proof -
  have "link_inv s" using runs_clear_link_inv [OF boot_link_inv [OF assms(1)] assms(2)] assms(3) by simp
  moreover have "stamped (generation s) (contents s) s" using assms(4) by (simp add: stamped_def)
  ultimately have "stamped (generation s) (contents s) (fs_run keep s ops)" using run_stamped assms(5) by blast
  then show ?thesis using assms(6,7) unfolding stamped_def by simp
qed

text \<open>
  C13. A generation stands for one working set. It never drops, through every crash, fault and delete; and if two
  moments have the same generation, the later one outside every section of the lock and the earlier one not between
  the two steps of a delete that advance the marker and remove the link, then the working set is the same,
  unless a crash or a fault came between a change and its marker or an edit failed halfway.
\<close>

theorem generation_identifies_set:
  assumes "disk_ok d" and "runs_clear keep (fs_boot d) before" and "s = fs_run keep (fs_boot d) before"
    and "lock_holder s \<noteq> Some Advanced" and "runs_undisturbed keep s ops"
    and "lock_holder (fs_run keep s ops) = None" and "generation (fs_run keep s ops) = generation s"
  shows "contents (fs_run keep s ops) = contents s \<and> generation s \<le> generation (fs_run keep s anything)"
  using same_set [OF assms] generation_run by simp

section \<open>What a publish replaces\<close>

definition gated :: "tree \<Rightarrow> bool" where
  "gated t \<longleftrightarrow> t \<noteq> [] \<and> set_healthy (check_working_set t)"

definition uploads_ok :: "(uuid, upload) dict \<Rightarrow> (uuid, tree) dict \<Rightarrow> bool" where
  "uploads_ok us ts \<longleftrightarrow>
     (\<forall>tid u t. dget us tid = Some u \<and> up_verified u \<and> up_base u \<noteq> None \<and> dget ts tid = Some t \<longrightarrow> gated t)"

abbreviation upload_inv :: "fs \<Rightarrow> bool" where
  "upload_inv s \<equiv> uploads_ok (uploads s) (incoming (dsk s))"

lemma uploads_ok_pop:
  "uploads_ok us ts \<Longrightarrow> uploads_ok us (dpop tid ts)" "uploads_ok us ts \<Longrightarrow> uploads_ok (dpop tid us) ts"
  "uploads_ok us []" "uploads_ok [] ts"
  unfolding uploads_ok_def by (auto split: if_splits)

lemma upload_inv_same: "upload_inv s \<Longrightarrow> uploads s' = uploads s \<Longrightarrow> incoming (dsk s') = incoming (dsk s) \<Longrightarrow> upload_inv s'"
  by simp

lemma upload_inv_discard: "upload_inv s \<Longrightarrow> upload_inv (discard tid s)"
  by (simp add: discard_def uploads_ok_pop)

lemma upload_inv_step:
  assumes inv: "upload_inv s"
  shows "upload_inv (fs_step keep s op)"
proof (cases op)
  case (Edit vid e)
  obtain err d where d: "edit_disk keep vid e (dsk s) = (err, d)" by fastforce
  then show ?thesis using Edit edit_disk_fields(3) [OF d] inv by (simp add: edit_current_def)
next
  case PruneFinish
  have "upload_inv s \<Longrightarrow> upload_inv (prune_step p s)" for p s
    by (cases p) (auto simp: prune_step_def uploads_ok_pop drop_publisher_def write_marker_def split: prod.split)
  then show ?thesis using PruneFinish inv by simp
next
  case (Guard tid pub declared assigned)
  then show ?thesis using inv by (auto simp: guard_upload_def uploads_ok_def)
next
  case (Stage tid)
  then show ?thesis using inv by (auto simp: uploads_ok_def split: option.splits if_splits)
next
  case (WriteStaging tid t)
  then show ?thesis using inv by (auto simp: uploads_ok_def split: option.splits if_splits)
next
  case (Verify tid)
  then show ?thesis using inv upload_inv_discard [OF inv]
    by (auto simp: verify_upload_def uploads_ok_def gated_def split: option.splits if_splits)
next
  case (Restore tid t force)
  then show ?thesis using inv by (auto simp: restore_backup_def uploads_ok_def split: if_splits)
next
  case (AbortEntry tid ps)
  then show ?thesis using inv by (auto simp: abort_entry_def uploads_ok_def split: option.split if_splits)
next
  case (InitialWrite tid ps data)
  then show ?thesis using inv by (auto simp: initial_write_def uploads_ok_def split: if_splits sum.split)
next
  case (Move i)
  then show ?thesis using inv upload_inv_discard [OF inv]
    by (auto simp: move_staging_def uploads_ok_pop discard_def split: option.split phase.split)
qed (auto simp: inv uploads_ok_pop commit_upload_def flip_current_def settle_old_def
       mark_publish_def prune_start_def prune_step_def pick_current_def take_lease_def recheck_lease_def open_hydrate_def
       release_lease_def lease_def unlease_def sweep_check_def sweep_staging_def remove_doomed_def fail_section_def Let_def discard_def
       split: option.split sum.split phase.split reader.split)

lemma upload_inv_run: "upload_inv s \<Longrightarrow> upload_inv (fs_run keep s ops)"
proof (induction ops arbitrary: s)
  case (Cons op ops)
  then show ?case using upload_inv_step by (simp add: fs_run_def)
qed (simp add: fs_run_def)

lemma commit_accepted:
  assumes "lock_holder s = None" "lock_holder (commit_upload s tid a) = Some (Ready tid p)"
  obtains u t where "dget (uploads s) tid = Some u" "dget (incoming (dsk s)) tid = Some t" "up_verified u"
    "commit_check (dsk s) t (up_base u) (up_base u \<noteq> None) (up_base u = None \<or> assignment_fence a (up_publisher u)) = None"
    "commit_upload s tid a = s\<lparr>lock_holder := Some (Ready tid (up_publisher u))\<rparr>"
  using assms unfolding commit_upload_def by (auto split: option.splits if_splits)

lemma publish_run:
  assumes "lock_holder s = Some (Ready tid p)" "dget (incoming (dsk s)) tid = Some t" "i \<notin> set (minted s)"
  shows "contents (fs_run keep s [Move i, Flip, Settle, Mark]) = Some t"
    "gen_marker (dsk (fs_run keep s [Move i, Flip, Settle, Mark])) = Some (generation s + 1, p)"
  using assms
  by (simp_all add: fs_run_def move_staging_def flip_current_def settle_old_def mark_publish_def contents_def current_dir_def
      bump_marker_def write_marker_def)

text \<open>
  C9. No update is lost to an upload, on an undisturbed run. When a worker's commit passes its checks, the
  working set it is about to replace is the very one of the moment its guard read the generation: no edit,
  restore, other publish or delete came in between. Its staging is not empty, holds no torn region file and
  has lost no region of a dimension it keeps; no other worker is assigned, unless the upload declares no
  publisher; and the publish, when nothing else runs during it, makes exactly the staging live, under the
  next generation and in the name of its publisher. Undisturbed means: no sweep judges the snapshot of a
  publish between its move and its flip, the guard does not read between the two steps of a delete that
  advance the marker and remove the link, and from the guard on no crash or fault comes between a change of
  the working set and its marker and no edit fails halfway.
\<close>

theorem no_update_lost:
  assumes "disk_ok d" and "runs_clear keep (fs_boot d) before" and "s = fs_run keep (fs_boot d) before"
    and "lock_holder s \<noteq> Some Advanced" and "runs_undisturbed keep s ops" and "s' = fs_run keep s ops"
    and "dget (uploads s') tid = Some u" and "up_base u = Some (generation s)"
    and "lock_holder s' = None" and "lock_holder (fs_step keep s' (Commit tid assigned)) = Some (Ready tid p)"
    and "i \<notin> set (minted s')"
  shows "contents s' = contents s
    \<and> (\<exists>t. dget (incoming (dsk s')) tid = Some t \<and> t \<noteq> [] \<and> set_healthy (check_working_set t)
         \<and> (\<forall>prior dir. contents s' = Some prior \<and> region_names t dir \<noteq> {} \<longrightarrow> region_names prior dir \<subseteq> region_names t dir)
         \<and> (assigned = None \<or> up_publisher u = None \<or> assigned = up_publisher u)
         \<and> contents (fs_run keep s' [Commit tid assigned, Move i, Flip, Settle, Mark]) = Some t
         \<and> gen_marker (dsk (fs_run keep s' [Commit tid assigned, Move i, Flip, Settle, Mark])) = Some (generation s + 1, up_publisher u))"
proof -
  obtain u' t where t: "dget (uploads s') tid = Some u'" "dget (incoming (dsk s')) tid = Some t" "up_verified u'"
    "commit_check (dsk s') t (up_base u') (up_base u' \<noteq> None) (up_base u' = None \<or> assignment_fence assigned (up_publisher u')) = None"
    "commit_upload s' tid assigned = s'\<lparr>lock_holder := Some (Ready tid (up_publisher u'))\<rparr>"
    by (rule commit_accepted [of s' tid assigned p]) (use assms(9,10) in simp_all)
  have u: "u' = u" using t(1) assms(7) by simp
  have g: "generation s' = generation s" and m: "\<And>j prior. current_dir (dsk s') = Inr (j, prior) \<Longrightarrow> check_missing_regions t prior = []"
    and f: "assignment_fence assigned (up_publisher u)"
    using t(4) assms(8) u unfolding commit_check_def by (auto simp: Let_def split: if_splits option.splits sum.splits)
  have c: "contents s' = contents s"
    using same_set [OF assms(1-5)] assms(6,9) g by simp
  have "upload_inv (fs_boot d)" by (simp add: fs_boot_def uploads_ok_pop)
  then have "gated t" using upload_inv_run t(1-3) assms(3,6,8) u unfolding uploads_ok_def by (metis option.distinct(1))
  moreover have "region_names prior dir \<subseteq> region_names t dir" if q: "contents s' = Some prior" "region_names t dir \<noteq> {}" for prior dir
  proof -
    obtain j where "current_dir (dsk s') = Inr (j, prior)" using q(1) unfolding contents_def by (auto split: sum.splits)
    from m [OF this] q(2) show ?thesis by (simp add: lost_regions)
  qed
  moreover have "assigned = None \<or> up_publisher u = None \<or> assigned = up_publisher u"
    using f unfolding assignment_fence_def by (auto split: option.splits)
  moreover have "fs_run keep s' [Commit tid assigned, Move i, Flip, Settle, Mark]
      = fs_run keep (s'\<lparr>lock_holder := Some (Ready tid (up_publisher u))\<rparr>) [Move i, Flip, Settle, Mark]"
    using t(5) u by (simp add: fs_run_def)
  ultimately show ?thesis
    using c g t(2) publish_run [of "s'\<lparr>lock_holder := Some (Ready tid (up_publisher u))\<rparr>" tid "up_publisher u" t i keep] assms(11)
    unfolding gated_def by simp
qed

end
