(* ===== verification/Storage_Edits.thy ===== *)
theory Storage_Edits
  imports Storage_Fs_Props "HOL-Library.Multiset"
begin

text \<open>
  What the edits of a working set keep: every name in it is a legal component, one entry per name, and a write can be
  taken back from the retained versions.
\<close>

section \<open>Legal names\<close>

definition legal_name :: "string \<Rightarrow> bool" where
  "legal_name p \<longleftrightarrow> p \<noteq> [] \<and> p \<noteq> ''.'' \<and> p \<noteq> ''..'' \<and> CHR ''/'' \<notin> set p \<and> \<not> list_ex control_char p"

fun legal_node :: "node \<Rightarrow> bool" where
  \<comment> \<open>a directory has one entry per name, and each name is one component\<close>
  "legal_node (File b) = True"
| "legal_node (Folder es) = (distinct (map fst es) \<and> (\<forall>e \<in> set es. legal_name (fst e) \<and> legal_node (snd e)))"

fun edit_paths :: "file_edit \<Rightarrow> string list list" where
  "edit_paths (WriteFile ps data) = [ps]"
| "edit_paths (DeleteFile ps) = [ps]"
| "edit_paths (DeleteDir ps) = [ps]"
| "edit_paths (RenameFile src dst) = [src, dst]"
| "edit_paths (RenameDir src dst) = [src, dst]"
| "edit_paths (MakeDir ps) = [ps]"

abbreviation legal :: "tree \<Rightarrow> bool" where
  "legal es \<equiv> legal_node (Folder es)"

lemma split_on_free: "list_all (list_all (\<lambda>x. \<not> P x)) (split_on P s)"
  by (induction P s rule: split_on.induct) (auto split: list.split)

lemma rel_path_legal:
  assumes "rel_path raw = Inr ps"
  shows "list_all legal_name ps"
proof -
  have "CHR ''/'' \<notin> set p" if "p \<in> set (split_char (CHR ''/'') raw)" for p
    using that split_on_free [of "\<lambda>x. x = CHR ''/''" raw] unfolding split_char_def list_all_iff by blast
  then show ?thesis using assms unfolding rel_path_def split_path_def legal_name_def
    by (auto simp: Let_def list_ex_iff list_all_iff split: if_splits)
qed

lemma legal_iff: "legal es \<longleftrightarrow> dwf es \<and> (\<forall>p n. dget es p = Some n \<longrightarrow> legal_name p \<and> legal_node n)"
proof
  assume "legal es"
  then show "dwf es \<and> (\<forall>p n. dget es p = Some n \<longrightarrow> legal_name p \<and> legal_node n)" by (force simp: dwf_def dest: map_of_SomeD)
next
  assume a: "dwf es \<and> (\<forall>p n. dget es p = Some n \<longrightarrow> legal_name p \<and> legal_node n)"
  then have "legal_name (fst e) \<and> legal_node (snd e)" if "e \<in> set es" for e
    using that a map_of_is_SomeI [of es "fst e" "snd e"] unfolding dwf_def by (metis prod.collapse)
  then show "legal es" using a by (simp add: dwf_def)
qed

declare legal_node.simps(2) [simp del]

lemma legal_Nil [simp]: "legal []"
  by (simp add: legal_node.simps(2))

lemma legal_dset: "legal es \<Longrightarrow> legal_name p \<Longrightarrow> legal_node n \<Longrightarrow> legal (dset p n es)"
  unfolding legal_iff by (simp add: dwf_dset)

lemma legal_dpop: "legal es \<Longrightarrow> legal (dpop p es)"
  unfolding legal_iff by (simp add: dwf_dpop)

lemma legal_child: "legal es \<Longrightarrow> dget es p = Some n \<Longrightarrow> legal_node n"
  unfolding legal_iff by blast

lemma legal_at: "legal es \<Longrightarrow> node_at es ps = Some n \<Longrightarrow> legal_node n"
proof (induction es ps rule: node_at.induct)
  case (2 es p ps)
  then show ?case using legal_child [of es p] by (auto split: option.splits node.splits if_splits)
qed auto

lemma legal_put: "put_node n es ps = Inr es' \<Longrightarrow> legal es \<Longrightarrow> legal_node n \<Longrightarrow> list_all legal_name ps \<Longrightarrow> legal es'"
proof (induction n es ps arbitrary: es' rule: put_node.induct)
  case (2 n es p)
  then show ?case using legal_dset by auto
next
  case (3 n es p q ps)
  obtain sub ds where ds: "put_node n sub (q # ps) = Inr ds" "es' = dset p (Folder ds) es"
      and sub: "dget es p = None \<and> sub = [] \<or> dget es p = Some (Folder sub)"
    using 3(3) by (auto split: option.splits node.splits sum.splits)
  have "legal sub" using sub legal_child [OF 3(4), of p "Folder sub"] by auto
  moreover have ps: "list_all legal_name (q # ps)" "legal_name p" using 3(6) by auto
  ultimately have "legal ds" using sub 3(1) [of ds] 3(2) [of "Folder sub" sub ds] ds(1) 3(5) by auto
  then show ?case unfolding ds(2) by (rule legal_dset [OF 3(4) ps(2)])
qed simp

lemma legal_drop: "legal es \<Longrightarrow> list_all legal_name ps \<Longrightarrow> legal (drop_node es ps)"
proof (induction es ps rule: drop_node.induct)
  case (2 es p)
  then show ?case using legal_dpop by simp
next
  case (3 es p q ps)
  show ?case
  proof (cases "\<exists>ds. dget es p = Some (Folder ds)")
    case True
    then obtain ds where d: "dget es p = Some (Folder ds)" by blast
    have "legal (drop_node ds (q # ps))" using 3(1) [OF d refl] legal_child [OF 3(2) d] 3(3) by simp
    then show ?thesis using d 3(2,3) legal_dset by simp
  next
    case False
    then show ?thesis using 3(2) by (auto split: option.split node.split)
  qed
qed simp

lemma legal_make: "make_dir_at es ps = Inr es' \<Longrightarrow> legal es \<Longrightarrow> list_all legal_name ps \<Longrightarrow> legal es'"
  unfolding make_dir_at_def using legal_put [of "Folder []" es ps es'] by (auto split: option.splits node.splits)

lemma legal_rename:
  assumes "legal es" "legal_node n" "put_node n (drop_node es src) dst = Inr es'" "list_all (list_all legal_name) [src, dst]"
  shows "legal es'"
  by (rule legal_put [OF assms(3) legal_drop]) (use assms in simp_all)

lemma legal_edit:
  assumes e: "edit_tree es e = Inr es'" and es: "legal es" and ps: "list_all (list_all legal_name) (edit_paths e)"
  shows "legal es'"
proof (cases e)
  case (WriteFile qs data)
  then show ?thesis using e es ps legal_put [of "File data" es qs es'] by (simp add: write_at_def split: if_splits)
next
  case (DeleteFile qs)
  then show ?thesis using e es ps legal_drop [of es qs] by (simp add: delete_file_at_def split: if_splits)
next
  case (DeleteDir qs)
  then show ?thesis using e es ps legal_drop [of es qs] by (simp add: delete_dir_at_def split: if_splits)
next
  case (RenameFile src dst)
  then have "es' = es \<or> (\<exists>b. put_node (File b) (drop_node es src) dst = Inr es')"
    using e by (auto simp: rename_file_at_def split: option.splits if_splits)
  then show ?thesis using legal_rename [OF es, of "File _"] es ps RenameFile by auto
next
  case (RenameDir src dst)
  then have "es' = es \<or> (\<exists>ds. folder_at es src = Some ds \<and> put_node (Folder ds) (drop_node es src) dst = Inr es')"
    using e by (auto simp: rename_dir_at_def split: option.splits if_splits)
  moreover have "legal ds" if "folder_at es src = Some ds" for ds
    using that legal_at [OF es, of src "Folder ds"] by (auto simp: folder_at_def split: option.splits node.splits)
  ultimately show ?thesis using legal_rename [OF es] es ps RenameDir by auto
next
  case (MakeDir qs)
  then show ?thesis using e es ps legal_make [of es qs] by simp
qed

lemma legal_residue:
  assumes "legal es" "list_all (list_all legal_name) (edit_paths e)"
  shows "legal (edit_residue es e)"
proof (cases e)
  case (RenameDir src dst)
  have "list_all legal_name (butlast dst)" using assms(2) RenameDir by (auto simp: list_all_iff dest: in_set_butlastD)
  then show ?thesis using RenameDir assms(1) legal_make [of es "butlast dst"] by (auto split: sum.split)
qed (use assms in simp_all)

text \<open>
  C21. Whatever a caller names, the working set keeps its shape: if every path of a file operation is what \<open>rel_path\<close>
  accepts of some string, then the operation, granted or refused halfway, leaves a tree in which each directory has one
  entry per name and no name is empty, a dot or a double dot, or contains a separator or a control character.
\<close>

theorem edits_keep_legal_tree:
  assumes "legal_node (Folder es)" and "map rel_path raws = map Inr (edit_paths e)"
  shows "legal_node (Folder (edit_residue es e)) \<and> (edit_tree es e = Inr es' \<longrightarrow> legal_node (Folder es'))"
proof -
  have "list_all (list_all legal_name) (edit_paths e)" unfolding list_all_iff
  proof
    fix ps
    assume "ps \<in> set (edit_paths e)"
    then have "Inr ps \<in> set (map rel_path raws)" unfolding assms(2) by simp
    then obtain raw where "rel_path raw = Inr ps" by auto
    from rel_path_legal [OF this] show "\<forall>p \<in> set ps. legal_name p" by (simp add: list_all_iff)
  qed
  then show ?thesis using legal_edit legal_residue assms(1) by blast
qed

section \<open>Taking a write back\<close>

lemma file_at_Cons:
  "file_at es (p # q # ps) = (case dget es p of Some (Folder ds) \<Rightarrow> file_at ds (q # ps) | _ \<Rightarrow> None)"
  by (simp add: file_at_def split: option.split node.split)

lemma put_node_over: "file_at es ps = Some b \<Longrightarrow> \<exists>es'. put_node n es ps = Inr es'"
proof (induction n es ps rule: put_node.induct)
  case (3 n es p q ps)
  then obtain ds where d: "dget es p = Some (Folder ds)" "file_at ds (q # ps) = Some b"
    unfolding file_at_Cons by (auto split: option.splits node.splits)
  from 3(2) [OF d(1) refl d(2)] d(1) show ?case by auto
qed (simp_all add: file_at_def)

lemma file_not_folder: "file_at es ps = Some b \<Longrightarrow> folder_at es ps = None \<and> ps \<noteq> []"
  unfolding file_at_def folder_at_def by (cases ps) (auto split: option.splits node.splits)

lemma write_over:
  assumes "file_at es ps = Some b"
  obtains es' where "write_at es ps data = Inr es'" "file_at es' ps = Some data"
    "\<And>qs c. file_at es qs = Some c \<Longrightarrow> take (length ps) qs \<noteq> ps \<Longrightarrow> file_at es' qs = Some c"
proof -
  obtain es' where p: "put_node (File data) es ps = Inr es'" using put_node_over [OF assms] by blast
  have "write_at es ps data = Inr es'" using p file_not_folder [OF assms] by (simp add: write_at_def)
  moreover have "file_at es' ps = Some data" using put_node_at [OF p] by (simp add: file_at_def)
  ultimately show ?thesis using put_node_other [OF p] by (rule that)
qed

lemma dget_keys_out: "dget (filter (\<lambda>(i, b). i \<notin> S) r) k = (if k \<in> S then None else dget r k)"
  by (induction r) auto

lemma sort_snoc_max: "list_all (\<lambda>x. x < v) xs \<Longrightarrow> sort (xs @ [v]) = sort xs @ [v]"
  by (rule properties_for_sort) (auto simp: sorted_append list_all_iff)

lemma prune_length: "length (prune_versions keep ring) \<le> keep"
proof -
  define names where "names = sort (map fst ring)"
  define S where "S = set (take (length names - keep) names)"
  have "length (filter (\<lambda>(i, b). i \<notin> S) ring) = length (filter (\<lambda>i. i \<notin> S) (map fst ring))"
    by (simp add: filter_map comp_def case_prod_unfold)
  also have "\<dots> = length (filter (\<lambda>i. i \<notin> S) names)"
    unfolding names_def by (metis mset_filter mset_sort size_mset)
  also have "filter (\<lambda>i. i \<notin> S) names = filter (\<lambda>i. i \<notin> S) (drop (length names - keep) names)"
    using append_take_drop_id [of "length names - keep" names, symmetric] filter_append [of "\<lambda>i. i \<notin> S"]
    by (metis (mono_tags, lifting) S_def append_Nil filter_False)
  also have "length \<dots> \<le> length (drop (length names - keep) names)" by (rule length_filter_le)
  also have "\<dots> \<le> keep" by simp
  finally show ?thesis by (simp add: prune_versions_def Let_def names_def S_def)
qed

lemma newest_kept:
  assumes "list_all (\<lambda>v. v < vid) (map fst ring)" "1 \<le> keep"
  shows "dget (prune_versions keep (dset vid b ring)) vid = Some b"
proof -
  have n: "vid \<notin> set (map fst ring)" using assms(1) by (auto simp: list_all_iff)
  then have "map fst (dset vid b ring) = map fst ring @ [vid]" by (simp add: update_keys)
  then have "sort (map fst (dset vid b ring)) = sort (map fst ring) @ [vid]" using sort_snoc_max assms(1) by simp
  moreover have "vid \<notin> set (take (length (map fst ring) + 1 - keep) (sort (map fst ring) @ [vid]))"
    using n assms(2) by (auto dest: in_set_takeD)
  ultimately show ?thesis unfolding prune_versions_def Let_def dget_keys_out by simp
qed

lemma write_run:
  assumes "lock_holder s = None" "current_dir (dsk s) = Inr (i, t)" "file_at t ps = Some old" "write_at t ps data = Inr t'"
    and "s' = fs_run keep s [Edit vid (WriteFile ps data), EditBump]"
  shows "current_dir (dsk s') = Inr (i, t')" "lock_holder s' = None" "generation s' = generation s + 1"
    "versions (dsk s') = dset ps (prune_versions keep (dset vid old (dget_default (versions (dsk s)) ps []))) (versions (dsk s))"
  using assms current_dir_stored [OF assms(2)]
  by (auto simp: fs_run_def edit_current_def edit_disk_def bump_marker_def read_generation_def read_marker_def write_marker_def capture_version_def current_dir_def
      split: option.splits)

text \<open>
  C20. A write of a file can be taken back. Overwriting a file keeps its old content as the version of the
  edit, under a retention of at least one and an id later than the ones there are; the ring of the file never holds
  more than the retention; and writing that version again gives the file its old content, with every other file of the
  working set as it was before the two edits and the generation advanced by each.
\<close>

theorem rollback_restores:
  assumes "lock_holder s = None" and "current_dir (dsk s) = Inr (i, t)" and "file_at t ps = Some old"
    and "1 \<le> keep" and "list_all (\<lambda>v. v < vid) (map fst (dget_default (versions (dsk s)) ps []))"
    and "s1 = fs_run keep s [Edit vid (WriteFile ps new), EditBump]"
    and "s2 = fs_run keep s1 [Edit vid' (WriteFile ps old), EditBump]"
  shows "(\<exists>t1. contents s1 = Some t1 \<and> file_at t1 ps = Some new)
    \<and> read_file_version (dsk s1) ps vid = Inr old
    \<and> length (list_file_versions (dsk s1) ps) \<le> keep
    \<and> (\<exists>t2. contents s2 = Some t2 \<and> file_at t2 ps = Some old
         \<and> (\<forall>qs c. file_at t qs = Some c \<and> take (length ps) qs \<noteq> ps \<longrightarrow> file_at t2 qs = Some c))
    \<and> generation s2 = generation s + 2"
proof -
  obtain t1 where t1: "write_at t ps new = Inr t1" "file_at t1 ps = Some new"
      "\<And>qs c. file_at t qs = Some c \<Longrightarrow> take (length ps) qs \<noteq> ps \<Longrightarrow> file_at t1 qs = Some c"
    using write_over [OF assms(3)] by blast
  obtain t2 where t2: "write_at t1 ps old = Inr t2" "file_at t2 ps = Some old"
      "\<And>qs c. file_at t1 qs = Some c \<Longrightarrow> take (length ps) qs \<noteq> ps \<Longrightarrow> file_at t2 qs = Some c"
    using write_over [OF t1(2)] by blast
  note r1 = write_run [OF assms(1-3) t1(1) assms(6)]
  note r2 = write_run [OF r1(2,1) t1(2) t2(1) assms(7)]
  show ?thesis
    using t1 t2 r1 r2 newest_kept [OF assms(5,4)]
    by (simp add: contents_def read_file_version_def list_file_versions_def dget_default_def prune_length)
qed

end
