(* ===== verification/Storage_Witness.thy ===== *)
theory Storage_Witness
  imports Storage_Edits
begin

text \<open>
  Concrete files, disks and runs at which the theorems on the storage are applied, and the runs in which the code
  itself leaves what the invariants exclude.
\<close>

section \<open>A region file of one chunk\<close>

definition one_chunk :: blob where
  \<comment> \<open>entry 0 refers to sector 2, where a chunk of five bytes in the zlib scheme ends the file\<close>
  "one_chunk = [0, 0, 2, 1] @ replicate 8188 0 @ [0, 0, 0, 5, 2, 9, 9, 9, 9]"

lemma one_chunk_slice:
  "1 \<le> i \<Longrightarrow> i < 1024 \<Longrightarrow> byte_slice one_chunk (i * 4) 3 = [0, 0, 0]"
  "1 \<le> i \<Longrightarrow> i < 1024 \<Longrightarrow> byte_slice one_chunk (i * 4 + 3) 1 = [0]"
  "byte_slice one_chunk 0 3 = [0, 0, 2]" "byte_slice one_chunk 3 1 = [1]" "byte_slice one_chunk 8192 5 = [0, 0, 0, 5, 2]"
  by (simp_all add: byte_slice_def one_chunk_def drop_Cons' numeral_3_eq_3)

lemma one_chunk_entries:
  "1 \<le> i \<Longrightarrow> i < 1024 \<Longrightarrow> \<not> chunk_present one_chunk i" "entry_offset one_chunk 0 = 2" "entry_sectors one_chunk 0 = 1"
  "chunk_prefix one_chunk 0 = [0, 0, 0, 5, 2]" "chunk_end one_chunk 0 = 8201" "length one_chunk = 8201" "chunk_present one_chunk 0"
proof -
  show o: "entry_offset one_chunk 0 = 2" "entry_sectors one_chunk 0 = 1"
    using one_chunk_slice(3,4) by (simp_all add: entry_offset_def entry_sectors_def be_nat_def)
  then show p: "chunk_prefix one_chunk 0 = [0, 0, 0, 5, 2]" "chunk_present one_chunk 0"
    by (simp_all add: chunk_prefix_def region_consts one_chunk_slice chunk_present_def)
  show "chunk_end one_chunk 0 = 8201" unfolding chunk_end_def o p by (simp add: region_consts be_nat_def)
  show "length one_chunk = 8201" by (simp add: one_chunk_def)
  show "\<not> chunk_present one_chunk i" if "1 \<le> i" "i < 1024"
    using one_chunk_slice(1,2) [OF that] by (simp add: chunk_present_def entry_offset_def entry_sectors_def be_nat_def)
qed

lemma one_chunk_passes: "check_region one_chunk = None"
proof -
  have "chunk_sound one_chunk 0"
    unfolding chunk_sound_def one_chunk_entries by (simp add: region_consts chunk_scheme_def be_nat_def)
  then have "chunk_present one_chunk i \<longrightarrow> chunk_sound one_chunk i" if "i < 1024" for i
    using one_chunk_entries(1) [of i] that by (cases i) auto
  then show ?thesis unfolding check_region_None by (simp add: one_chunk_entries region_consts)
qed

lemma torn_save_caught_witness: "check_region one_chunk = None \<and> check_region (take 8200 one_chunk) \<noteq> None"
proof -
  have "\<not> (chunk_present one_chunk 0 \<longrightarrow> chunk_end one_chunk 0 \<le> 8200)" by (simp add: one_chunk_entries)
  then have "\<not> (\<forall>i < ENTRY_COUNT. chunk_present one_chunk i \<longrightarrow> chunk_end one_chunk i \<le> 8200)" by (force simp: ENTRY_COUNT_def)
  then show ?thesis using torn_save_caught [OF one_chunk_passes, of 8200] one_chunk_passes by (simp add: one_chunk_entries)
qed

section \<open>Runs\<close>

definition first_disk :: disk where
  "first_disk = \<lparr>snapshots = [(''s0'', [(''a'', File [1])])], incoming = [], current_link = Some ''s0'',
                 gen_marker = Some (1, Some ''w''), final_archive = None, versions = []\<rparr>"

definition upload_ops :: "fs_op list" where
  "upload_ops = [Guard ''t'' (Some ''w'') (Some 1) (Some ''w''), Stage ''t'', Pin ''t'',
                 WriteStaging ''t'' [(''a'', File [2])], Verify ''t'']"

definition read_during_publish :: "fs_op list" where
  \<comment> \<open>a reader holds the old snapshot while an upload replaces it and a sweep runs\<close>
  "read_during_publish = [Pick ''r'', Take ''r'', Recheck ''r''] @ upload_ops
     @ [Commit ''t'' (Some ''w''), Move ''s1'', Flip, Settle, Mark, SweepCheck ''s0'', Remove ''s0'']"

lemma live_set_stays_witness:
  "dget (snapshots (dsk (fs_run 3 (fs_boot first_disk) read_during_publish))) ''s1'' \<noteq> None
   \<and> dget (snapshots (dsk (fs_run 3 (fs_boot first_disk) read_during_publish))) ''s0'' \<noteq> None"
proof -
  have a: "current_dir first_disk = Inr (''s0'', [(''a'', File [1])])" by code_simp
  have b: "runs_clear 3 (fs_boot first_disk) read_during_publish" by code_simp
  have "current_link (dsk (fs_run 3 (fs_boot first_disk) read_during_publish)) = Some ''s1''"
    "dget (readers (fs_run 3 (fs_boot first_disk) read_during_publish)) ''r'' = Some (Reading ''s0'')"
    "\<not> deleted (fs_run 3 (fs_boot first_disk) read_during_publish)" by code_simp+
  then show ?thesis
    using live_set_stays [OF disjI1 [OF a] b, of "''s1''" "''r''" "''s0''"] by blast
qed

definition refused_write :: "fs_op list" where
  "refused_write = upload_ops @ [Edit ''v'' (WriteFile [''a'', ''b''] [7]), Abort ''t'']"

lemma generation_identifies_set_witness:
  "contents (fs_run 3 (fs_run 3 (fs_boot first_disk) [Pick ''r'']) refused_write) = contents (fs_run 3 (fs_boot first_disk) [Pick ''r''])"
proof -
  have d: "disk_ok first_disk" unfolding disk_ok_def by (rule disjI1, rule exI [of _ "(''s0'', [(''a'', File [1])])"]) code_simp
  have "runs_clear 3 (fs_boot first_disk) [Pick ''r'']" "lock_holder (fs_run 3 (fs_boot first_disk) [Pick ''r'']) \<noteq> Some Advanced"
    "runs_undisturbed 3 (fs_run 3 (fs_boot first_disk) [Pick ''r'']) refused_write"
    "lock_holder (fs_run 3 (fs_run 3 (fs_boot first_disk) [Pick ''r'']) refused_write) = None"
    "read_generation (dsk (fs_run 3 (fs_run 3 (fs_boot first_disk) [Pick ''r'']) refused_write))
      = read_generation (dsk (fs_run 3 (fs_boot first_disk) [Pick ''r'']))" by code_simp+
  from generation_identifies_set [OF d this(1) refl this(2-5)] show ?thesis by blast
qed

lemma no_update_lost_witness:
  "contents (fs_run 3 (fs_run 3 (fs_boot first_disk) upload_ops) [Commit ''t'' (Some ''w''), Move ''s1'', Flip, Settle, Mark])
     = Some [(''a'', File [2])]"
proof -
  let ?s = "fs_run 3 (fs_boot first_disk) []"
  let ?s' = "fs_run 3 ?s upload_ops"
  have d: "disk_ok first_disk" unfolding disk_ok_def by (rule disjI1, rule exI [of _ "(''s0'', [(''a'', File [1])])"]) code_simp
  have "runs_clear 3 (fs_boot first_disk) []" "lock_holder ?s \<noteq> Some Advanced" "runs_undisturbed 3 ?s upload_ops"
    "dget (uploads ?s') ''t'' = Some \<lparr>up_publisher = Some ''w'', up_base = Some 1, up_verified = True\<rparr>"
    "lock_holder ?s' = None" "lock_holder (fs_step 3 ?s' (Commit ''t'' (Some ''w''))) = Some (Ready ''t'' (Some ''w''))"
    "''s1'' \<notin> set (minted ?s')" by code_simp+
  moreover have "1 = read_generation (dsk ?s)" "dget (incoming (dsk ?s')) ''t'' = Some [(''a'', File [2])]" by code_simp+
  ultimately show ?thesis
    using no_update_lost [OF d, of 3 "[]" ?s upload_ops ?s' "''t''" "\<lparr>up_publisher = Some ''w'', up_base = Some 1, up_verified = True\<rparr>"
        "Some ''w''" "Some ''w''" "''s1''"] by (simp add: fs_run_def)
qed

lemma edits_keep_legal_tree_witness:
  "legal_node (Folder [(''b'', Folder [(''c'', File [1])])])"
proof -
  have "legal_node (Folder [(''a'', File [1])])" "map rel_path [''./a'', ''b//c''] = map Inr (edit_paths (RenameFile [''a''] [''b'', ''c'']))"
    "edit_tree [(''a'', File [1])] (RenameFile [''a''] [''b'', ''c'']) = Inr [(''b'', Folder [(''c'', File [1])])]" by code_simp+
  from edits_keep_legal_tree [OF this(1,2)] this(3) show ?thesis by blast
qed

lemma rollback_restores_witness:
  "read_file_version (dsk (fs_run 3 (fs_boot first_disk) [Edit ''v1'' (WriteFile [''a''] [7]), EditBump])) [''a''] ''v1'' = Inr [1]"
proof -
  have "lock_holder (fs_boot first_disk) = None" "current_dir (dsk (fs_boot first_disk)) = Inr (''s0'', [(''a'', File [1])])"
    "file_at [(''a'', File [1])] [''a''] = Some [1]" "1 \<le> (3 :: nat)"
    "list_all (\<lambda>v. v < ''v1'') (map fst (dget_default (versions (dsk (fs_boot first_disk))) [''a''] []))" by code_simp+
  from rollback_restores [OF this refl refl] show ?thesis by blast
qed

section \<open>Where the code falls short\<close>

text \<open>
  A sweep that judges the snapshot of a publish between its move and its flip removes it: the publish then flips the
  link onto nothing and reclaims the working set it replaced.
\<close>

definition sweep_during_publish :: "fs_op list" where
  "sweep_during_publish = upload_ops @ [Commit ''t'' (Some ''w''), Move ''s1'', SweepCheck ''s1'', Remove ''s1'', Flip, Settle, Remove ''s0'', Mark]"

lemma sweep_during_publish_loses_set:
  "let s = fs_run 3 (fs_boot first_disk) sweep_during_publish
   in current_link (dsk s) = Some ''s1'' \<and> snapshots (dsk s) = [] \<and> incoming (dsk s) = [] \<and> lock_holder s = None"
  by code_simp

text \<open>
  A request cancelled while its publish runs aborts the transfer, and the abort takes no lock: it removes a file of the
  staging after the checks and before the move, and the publish makes the rest live under the next generation.
\<close>

definition abort_during_publish :: "fs_op list" where
  "abort_during_publish = [Guard ''t'' (Some ''w'') (Some 1) (Some ''w''), Stage ''t'', Pin ''t'',
     WriteStaging ''t'' [(''a'', File [2]), (''b'', File [3])], Verify ''t'', Commit ''t'' (Some ''w''),
     AbortEntry ''t'' [''b''], Move ''s1'', Abort ''t'', Flip, Settle, Mark]"

lemma abort_during_publish_tears:
  "let s = fs_run 3 (fs_boot first_disk) abort_during_publish
   in contents s = Some [(''a'', File [2])] \<and> read_generation (dsk s) = 2 \<and> lock_holder s = None"
  by code_simp

text \<open>A directory renamed into itself is refused after the parents of the destination have been made, and no generation tells.\<close>

definition nested_disk :: disk where
  "nested_disk = first_disk\<lparr>snapshots := [(''s0'', [(''d'', Folder [])])]\<rparr>"

lemma refused_rename_leaves_folders:
  "let s = fs_run 3 (fs_boot nested_disk) [Edit ''v'' (RenameDir [''d''] [''d'', ''x'', ''y''])]
   in contents s = Some [(''d'', Folder [(''x'', Folder [])])] \<and> read_generation (dsk s) = read_generation nested_disk"
  by code_simp

end
