(* ===== verification/Group_Sync.thy ===== *)
theory Group_Sync
  imports Player_Groups Server_Model
begin

text \<open>
  The use cases of player groups with their deferred file sync (\<open>servers/application/groups.py\<close>) over the tables
  of \<open>servers/adapters/group_repository.py\<close>, as a machine. A step is one transaction or one access to the storage: an
  edit of a group reads the group in one step and writes it in another, a sync and a start read the groups before they
  write the file, and both hold the lifecycle lock of the server, so everything else can come in between. The statements
  of one commit are one step: the row lock an edit takes keeps attaches out from the listing of its servers to its commit.
  A worker publishes only while the row names one, and only the commit of a start makes the row name one.
\<close>

section \<open>Tables\<close>

datatype group_uc_error =
    GroupFieldError group_error
  | InvalidGroupKindError
  | GroupNameAlreadyExistsError
  | GroupNotFoundError
  | GroupServerNotFoundError
  | GroupAttachmentNotFoundError

record group_db =
  groups :: "(uuid, player_group) dict"
  attachments :: "(uuid \<times> uuid) list" \<comment> \<open>group and server\<close>
  marks :: "(uuid \<times> group_kind, uuid) dict"
  rows :: "(uuid, server) dict"

definition parse_kind :: "string \<Rightarrow> group_uc_error + group_kind" where
  "parse_kind k =
     (if k = ''op'' then Inr OP else if k = ''whitelist'' then Inr WHITELIST else Inl InvalidGroupKindError)"

definition find_group :: "group_db \<Rightarrow> uuid \<Rightarrow> group_kind \<Rightarrow> string \<Rightarrow> player_group option" where
  \<comment> \<open>\<open>get_by_community_kind_name\<close>\<close>
  "find_group d cid k name = List.find (\<lambda>g. g_community g = cid \<and> g_kind g = k \<and> g_name g = name) (dvalues (groups d))"

definition load_group :: "group_db \<Rightarrow> uuid \<Rightarrow> uuid \<Rightarrow> group_uc_error + player_group" where
  "load_group d cid gid =
     (case dget (groups d) gid of
        None \<Rightarrow> Inl GroupNotFoundError
      | Some g \<Rightarrow> if g_community g = cid then Inr g else Inl GroupNotFoundError)"

definition require_group_server :: "group_db \<Rightarrow> uuid \<Rightarrow> uuid \<Rightarrow> group_uc_error + server" where
  "require_group_server d cid sid =
     (case dget (rows d) sid of
        None \<Rightarrow> Inl GroupServerNotFoundError
      | Some r \<Rightarrow> if s_community r = cid then Inr r else Inl GroupServerNotFoundError)"

definition list_groups :: "group_db \<Rightarrow> uuid \<Rightarrow> player_group list" where
  "list_groups d cid = sort_key g_id (filter (\<lambda>g. g_community g = cid) (dvalues (groups d)))"

definition group_servers :: "group_db \<Rightarrow> uuid \<Rightarrow> uuid list" where
  \<comment> \<open>\<open>list_server_ids_for_group\<close>\<close>
  "group_servers d gid = sort (map snd (filter (\<lambda>(g, s). g = gid) (attachments d)))"

definition server_group_ids :: "group_db \<Rightarrow> uuid \<Rightarrow> uuid list" where
  "server_group_ids d sid = sort (map fst (filter (\<lambda>(g, s). s = sid) (attachments d)))"

definition groups_for_server :: "group_db \<Rightarrow> uuid \<Rightarrow> player_group list" where
  "groups_for_server d sid =
     concat (map (\<lambda>gid. case dget (groups d) gid of None \<Rightarrow> [] | Some g \<Rightarrow> [g]) (server_group_ids d sid))"

definition groups_for_server_kind :: "group_db \<Rightarrow> uuid \<Rightarrow> group_kind \<Rightarrow> player_group list" where
  "groups_for_server_kind d sid k = filter (\<lambda>g. g_kind g = k) (groups_for_server d sid)"

definition add_group :: "player_group \<Rightarrow> group_db \<Rightarrow> group_uc_error + group_db" where
  "add_group g d =
     (if find_group d (g_community g) (g_kind g) (g_name g) \<noteq> None then Inl GroupNameAlreadyExistsError
      else Inr (d\<lparr>groups := dset (g_id g) g (groups d)\<rparr>))"

definition save_group :: "player_group \<Rightarrow> group_db \<Rightarrow> group_uc_error + group_db" where
  \<comment> \<open>the name and the player set are replaced by those of the aggregate\<close>
  "save_group g d =
     (case dget (groups d) (g_id g) of
        None \<Rightarrow> Inl GroupNotFoundError
      | Some cur \<Rightarrow>
          if list_ex (\<lambda>h. g_id h \<noteq> g_id g \<and> g_community h = g_community cur \<and> g_kind h = g_kind cur \<and> g_name h = g_name g)
               (dvalues (groups d))
          then Inl GroupNameAlreadyExistsError
          else Inr (d\<lparr>groups := dset (g_id g) (cur\<lparr>g_name := g_name g, players := players g\<rparr>) (groups d)\<rparr>))"

definition drop_group :: "uuid \<Rightarrow> group_db \<Rightarrow> group_db" where
  \<comment> \<open>its attachments cascade\<close>
  "drop_group gid d = d\<lparr>groups := dpop gid (groups d), attachments := filter (\<lambda>(g, s). g \<noteq> gid) (attachments d)\<rparr>"

definition attach :: "uuid \<Rightarrow> uuid \<Rightarrow> group_db \<Rightarrow> group_uc_error + group_db" where
  "attach gid sid d =
     (if dget (groups d) gid = None then Inl GroupNotFoundError
      else if dget (rows d) sid = None then Inl GroupServerNotFoundError
      else Inr (if (gid, sid) \<in> set (attachments d) then d else d\<lparr>attachments := attachments d @ [(gid, sid)]\<rparr>))"

definition detach :: "uuid \<Rightarrow> uuid \<Rightarrow> group_db \<Rightarrow> bool \<times> group_db" where
  "detach gid sid d = ((gid, sid) \<in> set (attachments d), d\<lparr>attachments := filter (\<lambda>a. a \<noteq> (gid, sid)) (attachments d)\<rparr>)"

definition mark_sync_pending :: "uuid list \<Rightarrow> group_kind \<Rightarrow> uuid \<Rightarrow> group_db \<Rightarrow> group_db" where
  \<comment> \<open>one token for the statement; a server that is gone is skipped\<close>
  "mark_sync_pending sids k t d =
     d\<lparr>marks := fold (\<lambda>sid m. if dget (rows d) sid = None then m else dset (sid, k) t m) sids (marks d)\<rparr>"

definition list_sync_pending :: "group_db \<Rightarrow> uuid \<Rightarrow> pending_group_sync list" where
  "list_sync_pending d sid =
     concat (map (\<lambda>k. case dget (marks d) (sid, k) of None \<Rightarrow> [] | Some t \<Rightarrow> [\<lparr>sync_kind = k, token = t\<rparr>]) [OP, WHITELIST])"

definition clear_sync_pending :: "uuid \<Rightarrow> pending_group_sync list \<Rightarrow> group_db \<Rightarrow> group_db" where
  "clear_sync_pending sid applied d =
     d\<lparr>marks := fold (\<lambda>p m. if dget m (sid, sync_kind p) = Some (token p) then dpop (sid, sync_kind p) m else m) applied (marks d)\<rparr>"

section \<open>Use cases\<close>

definition create_group :: "group_db \<Rightarrow> uuid \<Rightarrow> uuid \<Rightarrow> string \<Rightarrow> string \<Rightarrow> group_uc_error + group_db" where
  "create_group d cid gid name kind =
     (case parse_kind kind of
        Inl e \<Rightarrow> Inl e
      | Inr k \<Rightarrow> (case mk_group_name name of
            Inl e \<Rightarrow> Inl (GroupFieldError e)
          | Inr n \<Rightarrow> add_group \<lparr>g_id = gid, g_community = cid, g_name = n, g_kind = k, players = []\<rparr> d))"

definition delete_group :: "group_db \<Rightarrow> uuid \<Rightarrow> uuid \<Rightarrow> uuid \<Rightarrow> group_uc_error + group_db" where
  "delete_group d cid gid t =
     (case load_group d cid gid of
        Inl e \<Rightarrow> Inl e
      | Inr g \<Rightarrow> Inr (mark_sync_pending (group_servers d gid) (g_kind g) t (drop_group gid d)))"

definition attach_group :: "group_db \<Rightarrow> uuid \<Rightarrow> uuid \<Rightarrow> uuid \<Rightarrow> uuid \<Rightarrow> group_uc_error + group_db" where
  "attach_group d cid gid sid t =
     (case load_group d cid gid of
        Inl e \<Rightarrow> Inl e
      | Inr g \<Rightarrow> (case require_group_server d cid sid of
            Inl e \<Rightarrow> Inl e
          | Inr r \<Rightarrow> (case attach gid sid d of
                Inl e \<Rightarrow> Inl e
              | Inr d' \<Rightarrow> Inr (mark_sync_pending [sid] (g_kind g) t d'))))"

definition detach_group :: "group_db \<Rightarrow> uuid \<Rightarrow> uuid \<Rightarrow> uuid \<Rightarrow> uuid \<Rightarrow> group_uc_error + group_db" where
  "detach_group d cid gid sid t =
     (case load_group d cid gid of
        Inl e \<Rightarrow> Inl e
      | Inr g \<Rightarrow> (case require_group_server d cid sid of
            Inl e \<Rightarrow> Inl e
          | Inr r \<Rightarrow> (case detach gid sid d of
                (removed, d') \<Rightarrow> if removed then Inr (mark_sync_pending [sid] (g_kind g) t d') else Inl GroupAttachmentNotFoundError)))"

datatype group_change = PutPlayer player | DropPlayer uuid | Rename string

fun apply_change :: "player_group \<Rightarrow> group_change \<Rightarrow> player_group" where
  "apply_change g (PutPlayer p) = upsert_player g p"
| "apply_change g (DropPlayer u) = snd (remove_player g u)"
| "apply_change g (Rename n) = g\<lparr>g_name := n\<rparr>"

record group_edit =
  loaded :: player_group
  change :: group_change

definition begin_player :: "group_db \<Rightarrow> uuid \<Rightarrow> uuid \<Rightarrow> uuid \<Rightarrow> string \<Rightarrow> group_uc_error + group_edit" where
  \<comment> \<open>\<open>AddPlayer\<close> up to the row lock\<close>
  "begin_player d cid gid u name =
     (case mk_player u name of
        Inl e \<Rightarrow> Inl (GroupFieldError e)
      | Inr p \<Rightarrow> (case load_group d cid gid of Inl e \<Rightarrow> Inl e | Inr g \<Rightarrow> Inr \<lparr>loaded = g, change = PutPlayer p\<rparr>))"

definition begin_removal :: "group_db \<Rightarrow> uuid \<Rightarrow> uuid \<Rightarrow> uuid \<Rightarrow> group_uc_error + group_edit" where
  "begin_removal d cid gid u =
     (case load_group d cid gid of Inl e \<Rightarrow> Inl e | Inr g \<Rightarrow> Inr \<lparr>loaded = g, change = DropPlayer u\<rparr>)"

definition begin_rename :: "group_db \<Rightarrow> uuid \<Rightarrow> uuid \<Rightarrow> string \<Rightarrow> group_uc_error + group_edit" where
  "begin_rename d cid gid name =
     (case mk_group_name name of
        Inl e \<Rightarrow> Inl (GroupFieldError e)
      | Inr n \<Rightarrow> (case load_group d cid gid of
            Inl e \<Rightarrow> Inl e
          | Inr g \<Rightarrow> (case find_group d cid (g_kind g) n of
                None \<Rightarrow> Inr \<lparr>loaded = g, change = Rename n\<rparr>
              | Some h \<Rightarrow> if g_id h \<noteq> g_id g then Inl GroupNameAlreadyExistsError else Inr \<lparr>loaded = g, change = Rename n\<rparr>)))"

fun marks_servers :: "group_change \<Rightarrow> bool" where
  "marks_servers (Rename n) = False"
| "marks_servers _ = True"

definition commit_edit :: "group_db \<Rightarrow> group_edit \<Rightarrow> uuid \<Rightarrow> group_uc_error + group_db" where
  \<comment> \<open>the lock, the save of the aggregate read before it, the marks\<close>
  "commit_edit d e t =
     (let g = apply_change (loaded e) (change e)
      in case save_group g d of
           Inl err \<Rightarrow> Inl err
         | Inr d' \<Rightarrow> Inr (if marks_servers (change e) then mark_sync_pending (group_servers d (g_id g)) (g_kind g) t d' else d'))"

section \<open>The machine\<close>

datatype holder =
    Syncing group_kind string
  | Starting desired_state "pending_group_sync list" "pending_group_sync list" "string option"
    \<comment> \<open>the intent it starts from, the marks it has read, those left, the content of the next file\<close>

record group_sys =
  db :: group_db
  store :: "(uuid \<times> string, string) dict"
  edits :: "(uuid, group_edit) dict"
  holders :: "(uuid, holder) dict" \<comment> \<open>who holds the lifecycle lock of a server\<close>
  issued :: "uuid list"
  regenerated :: "(uuid \<times> group_kind, string) dict" \<comment> \<open>history: the content of the last regeneration\<close>

definition union_file :: "group_db \<Rightarrow> uuid \<Rightarrow> group_kind \<Rightarrow> string" where
  "union_file d sid k = render_group_file k (merge_players (groups_for_server_kind d sid k))"

definition last_union :: "group_sys \<Rightarrow> uuid \<Rightarrow> group_kind \<Rightarrow> string" where
  \<comment> \<open>a server no group was ever attached to counts as regenerated from none\<close>
  "last_union s sid k = dget_default (regenerated s) (sid, k) (render_group_file k [])"

datatype group_op =
    CreateGroup uuid uuid string string
  | DeleteGroup uuid uuid uuid
  | BeginPlayer uuid uuid uuid uuid string
  | BeginRemoval uuid uuid uuid uuid
  | BeginRename uuid uuid uuid string
  | CommitEdit uuid uuid
  | CancelEdit uuid
  | AttachGroup uuid uuid uuid uuid
  | DetachGroup uuid uuid uuid uuid
  | AddServer server
  | RemoveServer uuid
  | ChangeRow uuid server
  | SyncRead uuid uuid group_kind
  | SyncWrite uuid
  | StartRead uuid uuid desired_state
  | StartUnion uuid
  | StartWrite uuid
  | StartCommit uuid uuid
  | LetGo uuid
  | WriteAtRest uuid string string
  | PublishFile uuid string string
  | ProcessLoss

definition try_db :: "group_sys \<Rightarrow> uuid list \<Rightarrow> group_uc_error + group_db \<Rightarrow> group_sys" where
  \<comment> \<open>a transaction that draws these fresh uuids\<close>
  "try_db s drawn r =
     (if list_ex (\<lambda>t. t \<in> set (issued s)) drawn then s
      else case r of Inl e \<Rightarrow> s | Inr d \<Rightarrow> s\<lparr>db := d, issued := drawn @ issued s\<rparr>)"

definition try_begin :: "group_sys \<Rightarrow> uuid \<Rightarrow> group_uc_error + group_edit \<Rightarrow> group_sys" where
  "try_begin s eid r = (case r of Inl e \<Rightarrow> s | Inr e \<Rightarrow> s\<lparr>edits := dset eid e (edits s)\<rparr>)"

definition sync_read :: "group_sys \<Rightarrow> uuid \<Rightarrow> uuid \<Rightarrow> group_kind \<Rightarrow> group_sys" where
  \<comment> \<open>\<open>_sync_server_file\<close> up to the write\<close>
  "sync_read s cid sid k =
     (if dget (holders s) sid \<noteq> None then s
      else case require_group_server (db s) cid sid of
             Inl e \<Rightarrow> s
           | Inr r \<Rightarrow> if is_at_rest r then s\<lparr>holders := dset sid (Syncing k (union_file (db s) sid k)) (holders s)\<rparr> else s)"

definition put_file :: "group_sys \<Rightarrow> uuid \<Rightarrow> group_kind \<Rightarrow> string \<Rightarrow> group_sys" where
  "put_file s sid k c = s\<lparr>store := dset (sid, target_file k) c (store s), regenerated := dset (sid, k) c (regenerated s)\<rparr>"

definition sync_write :: "group_sys \<Rightarrow> uuid \<Rightarrow> group_sys" where
  "sync_write s sid =
     (case dget (holders s) sid of
        Some (Syncing k c) \<Rightarrow> (put_file s sid k c)\<lparr>holders := dpop sid (holders s)\<rparr>
      | _ \<Rightarrow> s)"

definition start_read :: "group_sys \<Rightarrow> uuid \<Rightarrow> uuid \<Rightarrow> desired_state \<Rightarrow> group_sys" where
  \<comment> \<open>a start of a stopped server, or the placement of an unassigned one that should run\<close>
  "start_read s cid sid from =
     (if dget (holders s) sid \<noteq> None then s
      else case require_group_server (db s) cid sid of
             Inl e \<Rightarrow> s
           | Inr r \<Rightarrow>
               if desired r = from \<and> assigned r = None
               then s\<lparr>holders := dset sid (Starting from (list_sync_pending (db s) sid) (list_sync_pending (db s) sid) None) (holders s)\<rparr>
               else s)"

definition start_union :: "group_sys \<Rightarrow> uuid \<Rightarrow> group_sys" where
  "start_union s sid =
     (case dget (holders s) sid of
        Some (Starting from all (p # todo) None) \<Rightarrow>
          s\<lparr>holders := dset sid (Starting from all (p # todo) (Some (union_file (db s) sid (sync_kind p)))) (holders s)\<rparr>
      | _ \<Rightarrow> s)"

definition start_write :: "group_sys \<Rightarrow> uuid \<Rightarrow> group_sys" where
  \<comment> \<open>a file that is current already is not written again\<close>
  "start_write s sid =
     (case dget (holders s) sid of
        Some (Starting from all (p # todo) (Some c)) \<Rightarrow>
          (if dget (store s) (sid, target_file (sync_kind p)) = Some c
           then s\<lparr>regenerated := dset (sid, sync_kind p) c (regenerated s)\<rparr> else put_file s sid (sync_kind p) c)
            \<lparr>holders := dset sid (Starting from all todo None) (holders s)\<rparr>
      | _ \<Rightarrow> s)"

definition commit_start :: "group_sys \<Rightarrow> uuid \<Rightarrow> uuid \<Rightarrow> group_sys" where
  \<comment> \<open>the compare-and-set of the row with the clearing of the marks that were read\<close>
  "commit_start s sid w =
     (case (dget (holders s) sid, dget (rows (db s)) sid) of
        (Some (Starting from all [] cur), Some r) \<Rightarrow>
          (if desired r = from \<and> assigned r = None
           then s\<lparr>db := clear_sync_pending sid all
                    ((db s)\<lparr>rows := dset sid (r\<lparr>desired := RUNNING, assigned := Some w\<rparr>) (rows (db s))\<rparr>)\<rparr>
           else s)\<lparr>holders := dpop sid (holders s)\<rparr>
      | _ \<Rightarrow> s)"

definition change_row :: "group_sys \<Rightarrow> uuid \<Rightarrow> server \<Rightarrow> group_sys" where
  \<comment> \<open>any other statement on the row: it may release the assignment, not make one\<close>
  "change_row s sid r' =
     (case dget (rows (db s)) sid of
        None \<Rightarrow> s
      | Some r \<Rightarrow> if assigned r' = assigned r \<or> assigned r' = None
                 then s\<lparr>db := (db s)\<lparr>rows := dset sid r' (rows (db s))\<rparr>\<rparr> else s)"

definition add_server :: "group_sys \<Rightarrow> server \<Rightarrow> group_sys" where
  "add_server s r =
     (if s_id r \<in> set (issued s) then s
      else s\<lparr>db := (db s)\<lparr>rows := dset (s_id r) r (rows (db s))\<rparr>, issued := s_id r # issued s\<rparr>)"

definition remove_server :: "group_sys \<Rightarrow> uuid \<Rightarrow> group_sys" where
  \<comment> \<open>under the lifecycle lock; attachments and marks cascade\<close>
  "remove_server s sid =
     (if dget (holders s) sid \<noteq> None then s
      else s\<lparr>db := (db s)\<lparr>rows := dpop sid (rows (db s)), attachments := filter (\<lambda>(g, s). s \<noteq> sid) (attachments (db s)),
                        marks := dpop (sid, OP) (dpop (sid, WHITELIST) (marks (db s)))\<rparr>\<rparr>)"

definition publish_file :: "group_sys \<Rightarrow> uuid \<Rightarrow> string \<Rightarrow> string \<Rightarrow> group_sys" where
  "publish_file s sid path c =
     (case dget (rows (db s)) sid of
        None \<Rightarrow> s
      | Some r \<Rightarrow> if assigned r \<noteq> None then s\<lparr>store := dset (sid, path) c (store s)\<rparr> else s)"

fun group_step :: "group_sys \<Rightarrow> group_op \<Rightarrow> group_sys" where
  "group_step s (CreateGroup cid gid name kind) = try_db s [gid] (create_group (db s) cid gid name kind)"
| "group_step s (DeleteGroup cid gid t) = try_db s [t] (delete_group (db s) cid gid t)"
| "group_step s (BeginPlayer eid cid gid u name) = try_begin s eid (begin_player (db s) cid gid u name)"
| "group_step s (BeginRemoval eid cid gid u) = try_begin s eid (begin_removal (db s) cid gid u)"
| "group_step s (BeginRename eid cid gid name) = try_begin s eid (begin_rename (db s) cid gid name)"
| "group_step s (CommitEdit eid t) =
     (case dget (edits s) eid of
        None \<Rightarrow> s
      | Some e \<Rightarrow> (try_db s [t] (commit_edit (db s) e t))\<lparr>edits := dpop eid (edits s)\<rparr>)"
| "group_step s (CancelEdit eid) = s\<lparr>edits := dpop eid (edits s)\<rparr>"
| "group_step s (AttachGroup cid gid sid t) = try_db s [t] (attach_group (db s) cid gid sid t)"
| "group_step s (DetachGroup cid gid sid t) = try_db s [t] (detach_group (db s) cid gid sid t)"
| "group_step s (AddServer r) = add_server s r"
| "group_step s (RemoveServer sid) = remove_server s sid"
| "group_step s (ChangeRow sid r) = change_row s sid r"
| "group_step s (SyncRead cid sid k) = sync_read s cid sid k"
| "group_step s (SyncWrite sid) = sync_write s sid"
| "group_step s (StartRead cid sid from) = start_read s cid sid from"
| "group_step s (StartUnion sid) = start_union s sid"
| "group_step s (StartWrite sid) = start_write s sid"
| "group_step s (StartCommit sid w) = commit_start s sid w"
| "group_step s (LetGo sid) = s\<lparr>holders := dpop sid (holders s)\<rparr>"
| "group_step s (WriteAtRest sid path c) =
     (if dget (holders s) sid \<noteq> None then s else s\<lparr>store := dset (sid, path) c (store s)\<rparr>)"
| "group_step s (PublishFile sid path c) = publish_file s sid path c"
| "group_step s ProcessLoss = s\<lparr>edits := [], holders := []\<rparr>"

definition empty_groups :: group_sys where
  "empty_groups = \<lparr>db = \<lparr>groups = [], attachments = [], marks = [], rows = []\<rparr>, store = [], edits = [], holders = [],
                   issued = [], regenerated = []\<rparr>"

definition group_run :: "group_op list \<Rightarrow> group_sys" where
  "group_run = foldl group_step empty_groups"

end
