(* ===== verification/Group_Marks.thy ===== *)
theory Group_Marks
  imports Group_Sync
begin

text \<open>
  A change of a group reaches the file of every server it concerns: until a regeneration has read the groups after the
  change, the server's file is marked.
\<close>

section \<open>What the file of a server depends on\<close>

definition contribution :: "group_db \<Rightarrow> group_kind \<Rightarrow> uuid \<Rightarrow> player list" where
  "contribution d k gid = (case dget (groups d) gid of None \<Rightarrow> [] | Some g \<Rightarrow> if g_kind g = k then players g else [])"

lemma union_file_contributions:
  "union_file d sid k = render_group_file k (merge_players [\<lparr>g_id = [], g_community = [], g_name = [], g_kind = k,
     players = concat (map (contribution d k) (server_group_ids d sid))\<rparr>])"
proof -
  have "all_players (filter (\<lambda>g. g_kind g = k) (concat (map (\<lambda>gid. case dget (groups d) gid of None \<Rightarrow> [] | Some g \<Rightarrow> [g]) is)))
      = concat (map (contribution d k) is)" for "is"
    by (induction "is") (auto simp: contribution_def split: option.split)
  then have "all_players (groups_for_server_kind d sid k) = concat (map (contribution d k) (server_group_ids d sid))"
    unfolding groups_for_server_kind_def groups_for_server_def .
  then show ?thesis unfolding union_file_def merge_players_def merge_fold_concat by simp
qed

lemma union_file_cong:
  assumes "server_group_ids d' sid = server_group_ids d sid"
    and "\<And>gid. gid \<in> set (server_group_ids d sid) \<Longrightarrow> contribution d' k gid = contribution d k gid"
  shows "union_file d' sid k = union_file d sid k"
  using assms unfolding union_file_contributions by (simp cong: map_cong)

lemma union_file_skip:
  assumes "filter (\<lambda>i. i \<noteq> gid) (server_group_ids d' sid) = filter (\<lambda>i. i \<noteq> gid) (server_group_ids d sid)"
    and "\<And>i. i \<noteq> gid \<Longrightarrow> contribution d' k i = contribution d k i"
    and "gid \<notin> set (server_group_ids d' sid) \<or> contribution d' k gid = []"
    and "gid \<notin> set (server_group_ids d sid) \<or> contribution d k gid = []"
  shows "union_file d' sid k = union_file d sid k"
proof -
  have skip: "concat (map f ys) = concat (map f (filter (\<lambda>i. i \<noteq> gid) ys))" if "gid \<notin> set ys \<or> f gid = []" for f :: "uuid \<Rightarrow> player list" and ys
    using that by (induction ys) auto
  have "concat (map (contribution d' k) (server_group_ids d' sid)) = concat (map (contribution d' k) (filter (\<lambda>i. i \<noteq> gid) (server_group_ids d' sid)))"
    by (rule skip) (rule assms(3))
  also have "\<dots> = concat (map (contribution d k) (filter (\<lambda>i. i \<noteq> gid) (server_group_ids d sid)))"
    unfolding assms(1) by (intro arg_cong [of _ _ concat] map_cong) (simp_all add: assms(2))
  also have "\<dots> = concat (map (contribution d k) (server_group_ids d sid))" by (rule skip [symmetric]) (rule assms(4))
  finally show ?thesis unfolding union_file_contributions by simp
qed

lemma union_file_fields [simp]:
  "union_file (d\<lparr>marks := m\<rparr>) sid k = union_file d sid k" "union_file (d\<lparr>rows := r\<rparr>) sid k = union_file d sid k"
  "union_file (mark_sync_pending sids k' t d) sid k = union_file d sid k" "union_file (clear_sync_pending sid' ps d) sid k = union_file d sid k"
  by (rule union_file_cong; simp add: server_group_ids_def contribution_def mark_sync_pending_def clear_sync_pending_def)+

lemma union_file_none: "server_group_ids d sid = [] \<Longrightarrow> union_file d sid k = render_group_file k []"
  by (simp add: union_file_def groups_for_server_kind_def groups_for_server_def merge_players_def dvalues_def)

lemma in_server_group_ids: "gid \<in> set (server_group_ids d sid) \<longleftrightarrow> (gid, sid) \<in> set (attachments d)"
  by (force simp: server_group_ids_def)

lemma in_group_servers: "sid \<in> set (group_servers d gid) \<longleftrightarrow> (gid, sid) \<in> set (attachments d)"
  by (force simp: group_servers_def)

section \<open>Marks\<close>

lemma mark_fields [simp]:
  "rows (mark_sync_pending sids k t d) = rows d" "groups (mark_sync_pending sids k t d) = groups d"
  "attachments (mark_sync_pending sids k t d) = attachments d" "rows (clear_sync_pending sid ps d) = rows d"
  "groups (clear_sync_pending sid ps d) = groups d" "attachments (clear_sync_pending sid ps d) = attachments d"
  by (simp_all add: mark_sync_pending_def clear_sync_pending_def)

lemma ex_kind: "(\<exists>k. P k) \<longleftrightarrow> P OP \<or> P WHITELIST"
  by (metis group_kind.exhaust)

abbreviation mark_of :: "group_db \<Rightarrow> uuid \<Rightarrow> group_kind \<Rightarrow> uuid option" where
  "mark_of d sid k \<equiv> dget (marks d) (sid, k)"

lemma mark_of_pending:
  "mark_of (mark_sync_pending sids k' t d) sid k = (if sid \<in> set sids \<and> k = k' \<and> dget (rows d) sid \<noteq> None then Some t else mark_of d sid k)"
proof -
  have "dget (fold (\<lambda>sid m. if dget (rows d) sid = None then m else dset (sid, k') t m) sids m) (sid, k)
      = (if sid \<in> set sids \<and> k = k' \<and> dget (rows d) sid \<noteq> None then Some t else dget m (sid, k))" for m
    by (induction sids arbitrary: m) auto
  then show ?thesis by (simp add: mark_sync_pending_def)
qed

lemma clear_fold:
  "dget (fold (\<lambda>p m. if dget m (sid', sync_kind p) = Some (token p) then dpop (sid', sync_kind p) m else m) ps m) (sid, k)
     = (if sid = sid' \<and> (\<exists>p \<in> set ps. sync_kind p = k \<and> dget m (sid, k) = Some (token p)) then None else dget m (sid, k))"
  by (induction ps arbitrary: m) auto

lemma mark_of_clear:
  "mark_of (clear_sync_pending sid' ps d) sid k
     = (if sid = sid' \<and> (\<exists>p \<in> set ps. sync_kind p = k \<and> mark_of d sid k = Some (token p)) then None else mark_of d sid k)"
  unfolding clear_sync_pending_def by (simp add: clear_fold)

lemma pending_listed:
  "p \<in> set (list_sync_pending d sid) \<longleftrightarrow> mark_of d sid (sync_kind p) = Some (token p)"
  "distinct (map sync_kind (list_sync_pending d sid))"
proof -
  have "p \<in> set (list_sync_pending d sid) \<longleftrightarrow> (\<exists>k t. mark_of d sid k = Some t \<and> p = \<lparr>sync_kind = k, token = t\<rparr>)"
    unfolding list_sync_pending_def by (simp add: ex_kind) (auto split: option.splits)
  then show "p \<in> set (list_sync_pending d sid) \<longleftrightarrow> mark_of d sid (sync_kind p) = Some (token p)" by (cases p) auto
qed (simp add: list_sync_pending_def split: option.splits)

section \<open>Transactions\<close>

definition known :: "uuid list \<Rightarrow> group_db \<Rightarrow> bool" where
  \<comment> \<open>every id and token in the tables has been issued, and an attachment names a group\<close>
  "known used d \<longleftrightarrow>
     (\<forall>gid g. dget (groups d) gid = Some g \<longrightarrow> gid \<in> set used \<and> g_id g = gid)
   \<and> (\<forall>sid r. dget (rows d) sid = Some r \<longrightarrow> sid \<in> set used)
   \<and> (\<forall>gid sid. (gid, sid) \<in> set (attachments d) \<longrightarrow> dget (groups d) gid \<noteq> None \<and> dget (rows d) sid \<noteq> None)
   \<and> (\<forall>sid k t. mark_of d sid k = Some t \<longrightarrow> t \<in> set used \<and> dget (rows d) sid \<noteq> None)"

definition marks_changes :: "uuid \<Rightarrow> group_db \<Rightarrow> group_db \<Rightarrow> bool" where
  \<comment> \<open>the rows are kept, a mark stays or gets this token, and a server whose union changes gets it\<close>
  "marks_changes t d d' \<longleftrightarrow>
     rows d' = rows d
   \<and> (\<forall>sid k. mark_of d' sid k = mark_of d sid k \<or> mark_of d' sid k = Some t)
   \<and> (\<forall>sid k. dget (rows d) sid \<noteq> None \<longrightarrow> mark_of d' sid k = Some t \<or> union_file d' sid k = union_file d sid k)"

lemma load_group_Inr: "load_group d cid gid = Inr g \<longleftrightarrow> dget (groups d) gid = Some g \<and> g_community g = cid"
  by (auto simp: load_group_def split: option.split)

lemma require_group_server_Inr: "require_group_server d cid sid = Inr r \<longleftrightarrow> dget (rows d) sid = Some r \<and> s_community r = cid"
  by (auto simp: require_group_server_def split: option.split)

lemma marks_changesI:
  assumes "\<And>sid k. dget (rows d) sid \<noteq> None \<Longrightarrow> sid \<notin> set sids \<or> k \<noteq> k' \<Longrightarrow> union_file d' sid k = union_file d sid k"
    and "rows d' = rows d" "marks d' = marks d"
  shows "marks_changes t d (mark_sync_pending sids k' t d')"
  using assms unfolding marks_changes_def by (auto simp: mark_of_pending)

lemma create_marks:
  assumes "create_group d cid gid name kind = Inr d'" "known used d" "gid \<notin> set used"
  shows "marks_changes t d d'"
proof -
  obtain g where d': "d' = d\<lparr>groups := dset gid g (groups d)\<rparr>"
    using assms(1) by (auto simp: create_group_def add_group_def split: sum.splits if_splits)
  have "gid' \<noteq> gid" if "gid' \<in> set (server_group_ids d sid)" for gid' sid
    using that assms(2,3) unfolding in_server_group_ids known_def by (metis option.exhaust)
  then have "union_file d' sid k = union_file d sid k" for sid k
    unfolding d' by (intro union_file_cong) (auto simp: server_group_ids_def contribution_def)
  then show ?thesis by (simp add: marks_changes_def d')
qed

lemma delete_marks:
  assumes "delete_group d cid gid t = Inr d'"
  shows "marks_changes t d d'"
proof -
  obtain g where g: "dget (groups d) gid = Some g" and d': "d' = mark_sync_pending (group_servers d gid) (g_kind g) t (drop_group gid d)"
    using assms by (auto simp: delete_group_def load_group_Inr split: sum.splits)
  show ?thesis unfolding d'
  proof (rule marks_changesI)
    fix sid k
    assume a: "sid \<notin> set (group_servers d gid) \<or> k \<noteq> g_kind g"
    show "union_file (drop_group gid d) sid k = union_file d sid k"
    proof (rule union_file_skip [of gid])
      show "filter (\<lambda>i. i \<noteq> gid) (server_group_ids (drop_group gid d) sid) = filter (\<lambda>i. i \<noteq> gid) (server_group_ids d sid)"
        unfolding server_group_ids_def drop_group_def filter_sort by (auto simp: filter_map comp_def case_prod_unfold intro!: arg_cong [of _ _ sort] arg_cong [of _ _ "map fst"] filter_cong)
    qed (use a in \<open>auto simp: contribution_def drop_group_def in_group_servers in_server_group_ids g\<close>)
  qed (simp_all add: drop_group_def)
qed

lemma attach_marks:
  assumes "attach_group d cid gid sid t = Inr d'"
  shows "marks_changes t d d'"
proof -
  obtain g d1 where g: "dget (groups d) gid = Some g" and d1: "attach gid sid d = Inr d1" and d': "d' = mark_sync_pending [sid] (g_kind g) t d1"
    using assms by (auto simp: attach_group_def load_group_Inr split: sum.splits)
  have eq: "d1 = d \<or> d1 = d\<lparr>attachments := attachments d @ [(gid, sid)]\<rparr>" using d1 by (auto simp: attach_def split: if_splits)
  show ?thesis unfolding d'
  proof (rule marks_changesI)
    fix sid' k
    assume a: "sid' \<notin> set [sid] \<or> k \<noteq> g_kind g"
    show "union_file d1 sid' k = union_file d sid' k"
    proof (cases "sid' = sid")
      case True
      then show ?thesis using eq a g
        by (intro union_file_skip [of gid]) (auto simp: server_group_ids_def contribution_def filter_sort filter_map)
    next
      case False
      then show ?thesis using eq by (intro union_file_cong) (auto simp: server_group_ids_def contribution_def)
    qed
  qed (use eq in auto)
qed

lemma detach_marks:
  assumes "detach_group d cid gid sid t = Inr d'"
  shows "marks_changes t d d'"
proof -
  obtain g where g: "dget (groups d) gid = Some g"
      and d': "d' = mark_sync_pending [sid] (g_kind g) t (d\<lparr>attachments := filter (\<lambda>a. a \<noteq> (gid, sid)) (attachments d)\<rparr>)"
    using assms by (auto simp: detach_group_def detach_def load_group_Inr split: sum.splits if_splits)
  have ids: "map fst (filter (\<lambda>(g, s). s = sid') (filter (\<lambda>a. a \<noteq> (gid, sid)) as))
      = (if sid' = sid then filter (\<lambda>i. i \<noteq> gid) (map fst (filter (\<lambda>(g, s). s = sid') as)) else map fst (filter (\<lambda>(g, s). s = sid') as))"
    for sid' and as :: "(uuid \<times> uuid) list"
    by (induction as) auto
  show ?thesis unfolding d'
  proof (rule marks_changesI)
    fix sid' k
    assume a: "sid' \<notin> set [sid] \<or> k \<noteq> g_kind g"
    show "union_file (d\<lparr>attachments := filter (\<lambda>a. a \<noteq> (gid, sid)) (attachments d)\<rparr>) sid' k = union_file d sid' k"
    proof (cases "sid' = sid")
      case True
      then show ?thesis using a g
        by (intro union_file_skip [of gid]) (auto simp: server_group_ids_def contribution_def ids filter_sort simp del: filter_filter)
    next
      case False
      then show ?thesis by (intro union_file_cong) (auto simp: server_group_ids_def contribution_def ids simp del: filter_filter)
    qed
  qed simp_all
qed

definition settled_rename :: "group_db \<Rightarrow> group_edit \<Rightarrow> bool" where
  \<comment> \<open>a rename writes back the players the group still has\<close>
  "settled_rename d e \<longleftrightarrow>
     (case change e of
        Rename n \<Rightarrow> (case dget (groups d) (g_id (loaded e)) of None \<Rightarrow> True | Some cur \<Rightarrow> players (loaded e) = players cur)
      | _ \<Rightarrow> True)"

lemma apply_change_id [simp]: "g_id (apply_change g c) = g_id g" "g_kind (apply_change g c) = g_kind g"
  by (cases c; simp add: upsert_player_def remove_player_def split: prod.split)+

lemma save_group_Inr:
  "save_group g d = Inr d' \<Longrightarrow>
   \<exists>cur. dget (groups d) (g_id g) = Some cur \<and> d' = d\<lparr>groups := dset (g_id g) (cur\<lparr>g_name := g_name g, players := players g\<rparr>) (groups d)\<rparr>"
  by (auto simp: save_group_def split: option.splits if_splits)

lemma commit_marks:
  assumes e: "commit_edit d e t = Inr d'" and s: "settled_rename d e"
    and k: "\<And>cur. dget (groups d) (g_id (loaded e)) = Some cur \<Longrightarrow> g_kind cur = g_kind (loaded e)"
  shows "marks_changes t d d'"
proof -
  define g where "g = apply_change (loaded e) (change e)"
  obtain d1 where d1: "save_group g d = Inr d1"
      and d': "d' = (if marks_servers (change e) then mark_sync_pending (group_servers d (g_id g)) (g_kind g) t d1 else d1)"
    using e by (auto simp: commit_edit_def g_def Let_def split: sum.splits)
  obtain cur where cur: "dget (groups d) (g_id g) = Some cur"
      and d1': "d1 = d\<lparr>groups := dset (g_id g) (cur\<lparr>g_name := g_name g, players := players g\<rparr>) (groups d)\<rparr>"
    using save_group_Inr [OF d1] by blast
  have kind: "g_kind cur = g_kind g" using k cur by (simp add: g_def)
  have u: "union_file d1 sid k = union_file d sid k" if "(g_id g, sid) \<notin> set (attachments d) \<or> k \<noteq> g_kind g \<or> players g = players cur" for sid k
    by (rule union_file_cong) (use that cur kind in \<open>auto simp: server_group_ids_def contribution_def d1'\<close>)
  show ?thesis
  proof (cases "marks_servers (change e)")
    case True
    have "marks_changes t d (mark_sync_pending (group_servers d (g_id g)) (g_kind g) t d1)"
      by (rule marks_changesI) (use u in \<open>auto simp: in_group_servers d1'\<close>)
    then show ?thesis by (simp add: d' True)
  next
    case False
    then have "players g = players cur" using s cur by (cases "change e") (simp_all add: settled_rename_def g_def)
    then show ?thesis using u False by (auto simp: d' marks_changes_def d1')
  qed
qed

end
