(* ===== verification/Group_Sync_Props.thy ===== *)
theory Group_Sync_Props
  imports Group_Marks
begin

text \<open>
  The invariant of the group sync: every server whose last regeneration is not the union of its groups is marked, a
  writer that holds the lifecycle lock of a server has what the groups were unless the server has been marked
  since, and a start has the files of the marks it has worked off in the store.
\<close>

section \<open>Transactions keep the tables\<close>

definition group_kinds_kept :: "uuid list \<Rightarrow> group_db \<Rightarrow> group_db \<Rightarrow> bool" where
  "group_kinds_kept used d d' \<longleftrightarrow>
     (\<forall>gid g'. gid \<in> set used \<and> dget (groups d') gid = Some g' \<longrightarrow> (\<exists>g. dget (groups d) gid = Some g \<and> g_kind g' = g_kind g))"

definition transaction :: "uuid list \<Rightarrow> uuid \<Rightarrow> group_db \<Rightarrow> group_db \<Rightarrow> bool" where
  "transaction used t d d' \<longleftrightarrow> marks_changes t d d' \<and> known (t # used) d' \<and> group_kinds_kept used d d'"

lemma known_marked: "known used d \<Longrightarrow> t \<in> set used \<Longrightarrow> known used (mark_sync_pending sids k t d)"
  unfolding known_def by (auto simp: mark_of_pending)

lemma known_more: "known used d \<Longrightarrow> known (t # used) d"
  unfolding known_def by auto

lemma create_transaction:
  assumes "create_group d cid gid name kind = Inr d'" "known used d" "gid \<notin> set used"
  shows "transaction used gid d d'"
proof -
  obtain g where g: "d' = d\<lparr>groups := dset gid g (groups d)\<rparr>" "g_id g = gid"
    using assms(1) by (auto simp: create_group_def add_group_def split: sum.splits if_splits)
  have "known (gid # used) d'" using assms(2) unfolding known_def g(1) using g(2) by auto
  then show ?thesis using create_marks [OF assms] assms(3) by (auto simp: transaction_def group_kinds_kept_def g(1))
qed

lemma delete_transaction:
  assumes "delete_group d cid gid t = Inr d'" "known used d"
  shows "transaction used t d d'"
proof -
  obtain g where d': "dget (groups d) gid = Some g" "d' = mark_sync_pending (group_servers d gid) (g_kind g) t (drop_group gid d)"
    using assms(1) by (auto simp: delete_group_def load_group_Inr split: sum.splits)
  have "known (t # used) (drop_group gid d)" using assms(2) unfolding known_def drop_group_def by auto
  then have "known (t # used) d'" unfolding d'(2) by (rule known_marked) simp
  then show ?thesis using delete_marks [OF assms(1)] by (auto simp: transaction_def group_kinds_kept_def d'(2) drop_group_def split: if_splits)
qed

lemma attach_transaction:
  assumes "attach_group d cid gid sid t = Inr d'" "known used d"
  shows "transaction used t d d'"
proof -
  obtain g d1 where "dget (groups d) gid = Some g" and d': "attach gid sid d = Inr d1" "d' = mark_sync_pending [sid] (g_kind g) t d1"
    using assms(1) by (auto simp: attach_group_def load_group_Inr split: sum.splits)
  have "known (t # used) d1" "groups d1 = groups d" using assms(2) d'(1) unfolding known_def attach_def by (auto split: if_splits)
  moreover from this(1) have "known (t # used) d'" unfolding d'(2) by (rule known_marked) simp
  ultimately show ?thesis using attach_marks [OF assms(1)] by (auto simp: transaction_def group_kinds_kept_def d'(2))
qed

lemma detach_transaction:
  assumes "detach_group d cid gid sid t = Inr d'" "known used d"
  shows "transaction used t d d'"
proof -
  obtain g where "dget (groups d) gid = Some g" and d': "d' = mark_sync_pending [sid] (g_kind g) t (d\<lparr>attachments := filter (\<lambda>a. a \<noteq> (gid, sid)) (attachments d)\<rparr>)"
    using assms(1) by (auto simp: detach_group_def detach_def load_group_Inr split: sum.splits if_splits)
  have "known (t # used) (d\<lparr>attachments := filter (\<lambda>a. a \<noteq> (gid, sid)) (attachments d)\<rparr>)" using assms(2) unfolding known_def by auto
  then have "known (t # used) d'" unfolding d' by (rule known_marked) simp
  then show ?thesis using detach_marks [OF assms(1)] by (auto simp: transaction_def group_kinds_kept_def d')
qed

lemma commit_transaction:
  assumes "commit_edit d e t = Inr d'" "known used d" "settled_rename d e"
    and "\<And>cur. dget (groups d) (g_id (loaded e)) = Some cur \<Longrightarrow> g_kind cur = g_kind (loaded e)"
  shows "transaction used t d d'"
proof -
  let ?g = "apply_change (loaded e) (change e)"
  obtain d1 where d1: "save_group ?g d = Inr d1"
      and d': "d' = (if marks_servers (change e) then mark_sync_pending (group_servers d (g_id ?g)) (g_kind ?g) t d1 else d1)"
    using assms(1) by (auto simp: commit_edit_def Let_def split: sum.splits)
  obtain cur where cur: "dget (groups d) (g_id ?g) = Some cur"
      and d1': "d1 = d\<lparr>groups := dset (g_id ?g) (cur\<lparr>g_name := g_name ?g, players := players ?g\<rparr>) (groups d)\<rparr>"
    using save_group_Inr [OF d1] by blast
  have "g_id cur = g_id (loaded e)" using cur assms(2) unfolding known_def by simp
  then have "known (t # used) d1" using assms(2) cur unfolding known_def d1' by auto
  then have "known (t # used) d'" unfolding d' by (simp add: known_marked)
  moreover have "group_kinds_kept used d d'" using cur by (auto simp: group_kinds_kept_def d' d1' split: if_splits)
  ultimately show ?thesis using commit_marks [OF assms(1,3,4)] by (simp add: transaction_def)
qed

section \<open>The invariant\<close>

definition covered :: "group_sys \<Rightarrow> bool" where
  "covered s \<longleftrightarrow>
     (\<forall>sid k. dget (rows (db s)) sid \<noteq> None \<longrightarrow> mark_of (db s) sid k \<noteq> None \<or> last_union s sid k = union_file (db s) sid k)"

definition worked_off :: "group_sys \<Rightarrow> uuid \<Rightarrow> pending_group_sync \<Rightarrow> bool" where
  "worked_off s sid p \<longleftrightarrow>
     dget (store s) (sid, target_file (sync_kind p)) = Some (last_union s sid (sync_kind p))
   \<and> (mark_of (db s) sid (sync_kind p) \<noteq> Some (token p) \<or> last_union s sid (sync_kind p) = union_file (db s) sid (sync_kind p))"

fun holder_ok :: "group_sys \<Rightarrow> uuid \<Rightarrow> holder \<Rightarrow> bool" where
  "holder_ok s sid (Syncing k c) = (mark_of (db s) sid k \<noteq> None \<or> c = union_file (db s) sid k)"
| "holder_ok s sid (Starting st all todo cur) =
     (distinct (map sync_kind all)
    \<and> (\<forall>p \<in> set all. token p \<in> set (issued s) \<and> mark_of (db s) sid (sync_kind p) \<noteq> None)
    \<and> (\<exists>ready. all = ready @ todo \<and> (\<forall>p \<in> set ready. worked_off s sid p))
    \<and> (\<forall>r. dget (rows (db s)) sid = Some r \<longrightarrow> assigned r = None)
    \<and> (\<forall>c. cur = Some c \<longrightarrow> (\<exists>p ps. todo = p # ps
          \<and> (mark_of (db s) sid (sync_kind p) \<noteq> Some (token p) \<or> c = union_file (db s) sid (sync_kind p)))))"

definition holders_ok :: "group_sys \<Rightarrow> bool" where
  "holders_ok s \<longleftrightarrow> (\<forall>sid h. dget (holders s) sid = Some h \<longrightarrow> dget (rows (db s)) sid \<noteq> None \<and> holder_ok s sid h)"

definition loaded_ok :: "group_sys \<Rightarrow> bool" where
  "loaded_ok s \<longleftrightarrow> (\<forall>eid e. dget (edits s) eid = Some e \<longrightarrow> g_id (loaded e) \<in> set (issued s)
     \<and> (\<forall>cur. dget (groups (db s)) (g_id (loaded e)) = Some cur \<longrightarrow> g_kind cur = g_kind (loaded e)))"

definition sync_inv :: "group_sys \<Rightarrow> bool" where
  "sync_inv s \<longleftrightarrow> known (issued s) (db s) \<and> covered s \<and> holders_ok s \<and> loaded_ok s
     \<and> (\<forall>sid k. dget (regenerated s) (sid, k) \<noteq> None \<longrightarrow> sid \<in> set (issued s))"

lemma sync_invD:
  assumes "sync_inv s"
  shows "known (issued s) (db s)" "covered s" "holders_ok s" "loaded_ok s"
  using assms unfolding sync_inv_def by blast+

lemma last_union_fields [simp]:
  "last_union (s\<lparr>db := d\<rparr>) sid k = last_union s sid k" "last_union (s\<lparr>issued := u\<rparr>) sid k = last_union s sid k"
  "last_union (s\<lparr>store := f\<rparr>) sid k = last_union s sid k" "last_union (s\<lparr>edits := e\<rparr>) sid k = last_union s sid k"
  "last_union (s\<lparr>holders := h\<rparr>) sid k = last_union s sid k"
  "last_union (s\<lparr>regenerated := dset (sid', k') c (regenerated s)\<rparr>) sid k = (if sid = sid' \<and> k = k' then c else last_union s sid k)"
  "last_union (put_file s sid' k' c) sid k = (if sid = sid' \<and> k = k' then c else last_union s sid k)"
  by (auto simp: last_union_def put_file_def dget_default_def)

lemma holder_ok_frame:
  assumes "holder_ok s sid h"
    and "\<And>k. mark_of (db s') sid k = mark_of (db s) sid k \<and> union_file (db s') sid k = union_file (db s) sid k
           \<or> (\<exists>t. mark_of (db s') sid k = Some t \<and> t \<notin> set (issued s))"
    and "\<And>k. last_union s' sid k = last_union s sid k" and "\<And>k. dget (store s') (sid, target_file k) = dget (store s) (sid, target_file k)"
    and "\<And>r. dget (rows (db s')) sid = Some r \<Longrightarrow> \<exists>r0. dget (rows (db s)) sid = Some r0 \<and> (assigned r0 = None \<longrightarrow> assigned r = None)"
    and "set (issued s) \<subseteq> set (issued s')"
  shows "holder_ok s' sid h"
proof (cases h)
  case (Syncing k c)
  then show ?thesis using assms(1) assms(2) [of k] by auto
next
  case (Starting st all todo cur)
  have old: "token p \<in> set (issued s) \<and> mark_of (db s) sid (sync_kind p) \<noteq> None" if "p \<in> set all" for p
    using assms(1) that Starting by simp
  have "mark_of (db s') sid k \<noteq> None" if "mark_of (db s) sid k \<noteq> None" for k using assms(2) [of k] that by auto
  moreover have tok: "mark_of (db s') sid (sync_kind p) \<noteq> Some (token p) \<or> c = union_file (db s') sid (sync_kind p)"
    if "p \<in> set all" "mark_of (db s) sid (sync_kind p) \<noteq> Some (token p) \<or> c = union_file (db s) sid (sync_kind p)" for p c
    using assms(2) [of "sync_kind p"] old [OF that(1)] that(2) by auto
  moreover obtain ready where "all = ready @ todo" "\<forall>p \<in> set ready. worked_off s sid p" using assms(1) Starting by auto
  moreover from this have "\<forall>p \<in> set ready. worked_off s' sid p" unfolding worked_off_def using tok by (auto simp: assms(3,4))
  ultimately show ?thesis using assms(1) old assms(5,6) unfolding Starting by auto blast
qed

lemma transaction_inv:
  assumes inv: "sync_inv s" and t: "transaction (issued s) t (db s) d" "t \<notin> set (issued s)"
  shows "sync_inv (s\<lparr>db := d, issued := t # issued s\<rparr>)"
proof -
  have m: "rows d = rows (db s)" "\<And>sid k. mark_of d sid k = mark_of (db s) sid k \<or> mark_of d sid k = Some t"
    "\<And>sid k. dget (rows (db s)) sid \<noteq> None \<Longrightarrow> mark_of d sid k = Some t \<or> union_file d sid k = union_file (db s) sid k"
    using t(1) unfolding transaction_def marks_changes_def by blast+
  let ?s = "s\<lparr>db := d, issued := t # issued s\<rparr>"
  have "covered ?s" unfolding covered_def
  proof (intro allI impI)
    fix sid k
    assume "dget (rows (db ?s)) sid \<noteq> None"
    then have "dget (rows (db s)) sid \<noteq> None" by (simp add: m(1))
    then have "mark_of (db s) sid k \<noteq> None \<or> last_union s sid k = union_file (db s) sid k"
      "mark_of d sid k = Some t \<or> union_file d sid k = union_file (db s) sid k"
      using sync_invD(2) [OF inv] m(3) unfolding covered_def by blast+
    then show "mark_of (db ?s) sid k \<noteq> None \<or> last_union ?s sid k = union_file (db ?s) sid k" using m(2) [of sid k] by auto
  qed
  moreover have "holders_ok ?s" unfolding holders_ok_def
  proof (intro allI impI)
    fix sid h
    assume "dget (holders ?s) sid = Some h"
    then have h: "dget (rows (db s)) sid \<noteq> None" "holder_ok s sid h" using sync_invD(3) [OF inv] unfolding holders_ok_def by auto
    have "holder_ok ?s sid h"
      by (rule holder_ok_frame [OF h(2)]) (use m(2,3) [of sid] h(1) t(2) in \<open>auto simp: m(1)\<close>)
    then show "dget (rows (db ?s)) sid \<noteq> None \<and> holder_ok ?s sid h" using h(1) by (simp add: m(1))
  qed
  moreover have "loaded_ok ?s" using sync_invD(4) [OF inv] t(1) unfolding loaded_ok_def transaction_def group_kinds_kept_def by fastforce
  moreover have "known (issued ?s) (db ?s)" using t(1) by (simp add: transaction_def)
  ultimately show ?thesis using inv unfolding sync_inv_def by (simp add: last_union_def)
qed

lemma try_db_inv:
  assumes "sync_inv s" "\<And>d. r = Inr d \<Longrightarrow> t \<notin> set (issued s) \<Longrightarrow> transaction (issued s) t (db s) d"
  shows "sync_inv (try_db s [t] r)"
  using assms transaction_inv unfolding try_db_def by (auto split: sum.split)

lemma holder_ok_fields [simp]:
  "holder_ok (s\<lparr>edits := e\<rparr>) sid h = holder_ok s sid h" "holder_ok (s\<lparr>holders := hs\<rparr>) sid h = holder_ok s sid h"
  by (cases h; simp add: worked_off_def)+

lemma loaded_inv: "sync_inv s \<Longrightarrow> loaded_ok (s\<lparr>edits := e\<rparr>) \<Longrightarrow> sync_inv (s\<lparr>edits := e\<rparr>)"
  unfolding sync_inv_def covered_def holders_ok_def by simp

lemma pop_edit_inv: "sync_inv s \<Longrightarrow> sync_inv (s\<lparr>edits := dpop eid (edits s)\<rparr>)"
  using sync_invD(4) [of s] by (auto simp: loaded_ok_def intro: loaded_inv)

lemma begin_inv:
  assumes inv: "sync_inv s" and r: "\<And>e. r = Inr e \<Longrightarrow> dget (groups (db s)) (g_id (loaded e)) = Some (loaded e)"
  shows "sync_inv (try_begin s eid r)"
proof (cases r)
  case (Inr e)
  have g: "dget (groups (db s)) (g_id (loaded e)) = Some (loaded e)" by (rule r [OF Inr])
  then have "g_id (loaded e) \<in> set (issued s)" using sync_invD(1) [OF inv] unfolding known_def by blast
  then have "loaded_ok (s\<lparr>edits := dset eid e (edits s)\<rparr>)"
    using g sync_invD(4) [OF inv] unfolding loaded_ok_def by simp
  then show ?thesis using loaded_inv [OF inv] Inr by (simp add: try_begin_def)
qed (simp add: try_begin_def inv)

lemma begin_loaded:
  assumes "sync_inv s"
  shows "begin_player (db s) cid gid u name = Inr e \<Longrightarrow> dget (groups (db s)) (g_id (loaded e)) = Some (loaded e)"
    "begin_removal (db s) cid gid u = Inr e \<Longrightarrow> dget (groups (db s)) (g_id (loaded e)) = Some (loaded e)"
    "begin_rename (db s) cid gid name = Inr e \<Longrightarrow> dget (groups (db s)) (g_id (loaded e)) = Some (loaded e)"
proof -
  have "g_id g = gid" if "dget (groups (db s)) gid = Some g" for g
    using sync_invD(1) [OF assms] that unfolding known_def by blast
  then show "begin_player (db s) cid gid u name = Inr e \<Longrightarrow> dget (groups (db s)) (g_id (loaded e)) = Some (loaded e)"
    "begin_removal (db s) cid gid u = Inr e \<Longrightarrow> dget (groups (db s)) (g_id (loaded e)) = Some (loaded e)"
    "begin_rename (db s) cid gid name = Inr e \<Longrightarrow> dget (groups (db s)) (g_id (loaded e)) = Some (loaded e)"
    by (auto simp: begin_player_def begin_removal_def begin_rename_def load_group_Inr split: sum.splits option.splits if_splits)
qed

section \<open>Writers\<close>

lemma sync_invI:
  \<comment> \<open>a step that neither issues an id nor touches an edit\<close>
  assumes inv: "sync_inv s" and same: "issued s' = issued s" "edits s' = edits s" "groups (db s') = groups (db s)"
    and known: "known (issued s) (db s')"
    and cov: "\<And>sid k. dget (rows (db s')) sid \<noteq> None \<Longrightarrow> mark_of (db s') sid k \<noteq> None \<or> last_union s' sid k = union_file (db s') sid k"
    and hold: "\<And>sid h. dget (holders s') sid = Some h \<Longrightarrow> dget (rows (db s')) sid \<noteq> None \<and> holder_ok s' sid h"
    and reg: "\<And>sid k. dget (regenerated s') (sid, k) \<noteq> None \<Longrightarrow> dget (regenerated s) (sid, k) \<noteq> None \<or> sid \<in> set (issued s)"
  shows "sync_inv s'"
proof -
  have "loaded_ok s'" using sync_invD(4) [OF inv] by (simp add: loaded_ok_def same)
  moreover have "sid \<in> set (issued s')" if "dget (regenerated s') (sid, k) \<noteq> None" for sid k
    using reg [OF that] inv same(1) unfolding sync_inv_def by auto
  ultimately show ?thesis using known cov hold same(1) unfolding sync_inv_def covered_def holders_ok_def by simp
qed

lemma holderD: "sync_inv s \<Longrightarrow> dget (holders s) sid = Some h \<Longrightarrow> dget (rows (db s)) sid \<noteq> None \<and> holder_ok s sid h"
  using sync_invD(3) unfolding holders_ok_def by blast

lemma coveredD:
  "sync_inv s \<Longrightarrow> dget (rows (db s)) sid \<noteq> None \<Longrightarrow> mark_of (db s) sid k \<noteq> None \<or> last_union s sid k = union_file (db s) sid k"
  using sync_invD(2) unfolding covered_def by blast

lemma row_issued: "sync_inv s \<Longrightarrow> dget (rows (db s)) sid \<noteq> None \<Longrightarrow> sid \<in> set (issued s)"
  using sync_invD(1) unfolding known_def by blast

lemma target_file_inj [simp]: "target_file k = target_file k' \<longleftrightarrow> k = k'"
  by (cases k; cases k') auto

lemma let_go_inv: "sync_inv s \<Longrightarrow> sync_inv (s\<lparr>holders := dpop sid (holders s)\<rparr>)"
  by (rule sync_invI) (auto simp: sync_invD(1) dest: holderD coveredD split: if_splits)

lemma holder_ok_elsewhere:
  \<comment> \<open>a step on the files of one server is none of the business of another's holder\<close>
  assumes "holder_ok s sid' h" "sid' \<noteq> sid"
  shows "holder_ok (put_file s sid k c) sid' h" "holder_ok (s\<lparr>regenerated := dset (sid, k) c (regenerated s)\<rparr>) sid' h"
    "holder_ok (s\<lparr>store := dset (sid, path) c (store s)\<rparr>) sid' h"
  by (rule holder_ok_frame [OF assms(1)]; use assms(2) in \<open>simp add: put_file_def last_union_def dget_default_def\<close>)+

lemma sync_read_inv:
  assumes inv: "sync_inv s"
  shows "sync_inv (sync_read s cid sid k)"
proof -
  have "sync_inv (s\<lparr>holders := dset sid (Syncing k (union_file (db s) sid k)) (holders s)\<rparr>)" if "dget (rows (db s)) sid \<noteq> None"
    by (rule sync_invI [OF inv])
      (use that coveredD [OF inv] in \<open>force simp: sync_invD(1) [OF inv] dest: holderD [OF inv] split: if_splits\<close>)+
  then show ?thesis using inv unfolding sync_read_def by (auto simp: require_group_server_Inr split: sum.split)
qed

lemma put_fields [simp]:
  "db (put_file s sid k c) = db s" "issued (put_file s sid k c) = issued s" "edits (put_file s sid k c) = edits s"
  "holders (put_file s sid k c) = holders s" "dget (store (put_file s sid k c)) (sid', path) = (if sid' = sid \<and> path = target_file k then Some c else dget (store s) (sid', path))"
  "dget (regenerated (put_file s sid k c)) (sid', k') = (if sid' = sid \<and> k' = k then Some c else dget (regenerated s) (sid', k'))"
  by (simp_all add: put_file_def)

lemma sync_write_inv:
  assumes inv: "sync_inv s"
  shows "sync_inv (sync_write s sid)"
proof (cases "\<exists>k c. dget (holders s) sid = Some (Syncing k c)")
  case True
  then obtain k c where h: "dget (holders s) sid = Some (Syncing k c)" by blast
  have ok: "dget (rows (db s)) sid \<noteq> None" "mark_of (db s) sid k \<noteq> None \<or> c = union_file (db s) sid k" using holderD [OF inv h] by auto
  have "sync_inv ((put_file s sid k c)\<lparr>holders := dpop sid (holders s)\<rparr>)"
  proof (rule sync_invI [OF inv])
    fix sid' k'
    assume "dget (rows (db ((put_file s sid k c)\<lparr>holders := dpop sid (holders s)\<rparr>))) sid' \<noteq> None"
    then show "mark_of (db ((put_file s sid k c)\<lparr>holders := dpop sid (holders s)\<rparr>)) sid' k' \<noteq> None
        \<or> last_union ((put_file s sid k c)\<lparr>holders := dpop sid (holders s)\<rparr>) sid' k' = union_file (db ((put_file s sid k c)\<lparr>holders := dpop sid (holders s)\<rparr>)) sid' k'"
      using coveredD [OF inv, of sid' k'] ok(2) by auto
  qed (use sync_invD(1) [OF inv] row_issued [OF inv ok(1)] holderD [OF inv] holder_ok_elsewhere(1) in \<open>auto split: if_splits\<close>)
  then show ?thesis by (simp add: sync_write_def h)
next
  case False
  then show ?thesis using inv by (auto simp: sync_write_def split: option.split holder.split)
qed

lemma start_read_inv:
  assumes inv: "sync_inv s"
  shows "sync_inv (start_read s cid sid st)"
proof -
  let ?all = "list_sync_pending (db s) sid"
  have "sync_inv (s\<lparr>holders := dset sid (Starting st ?all ?all None) (holders s)\<rparr>)" if "dget (rows (db s)) sid = Some r" "assigned r = None" for r
  proof (rule sync_invI [OF inv])
    fix sid' h
    assume h: "dget (holders (s\<lparr>holders := dset sid (Starting st ?all ?all None) (holders s)\<rparr>)) sid' = Some h"
    have "token p \<in> set (issued s) \<and> mark_of (db s) sid (sync_kind p) \<noteq> None" if "p \<in> set ?all" for p
      using that sync_invD(1) [OF inv] unfolding pending_listed(1) known_def by fastforce
    then show "dget (rows (db (s\<lparr>holders := dset sid (Starting st ?all ?all None) (holders s)\<rparr>))) sid' \<noteq> None
        \<and> holder_ok (s\<lparr>holders := dset sid (Starting st ?all ?all None) (holders s)\<rparr>) sid' h"
      using h that holderD [OF inv, of sid' h] pending_listed(2) by (auto split: if_splits)
  qed (use coveredD [OF inv] sync_invD(1) [OF inv] in simp_all)
  then show ?thesis using inv unfolding start_read_def by (auto simp: require_group_server_Inr split: sum.split)
qed

lemma start_union_inv:
  assumes inv: "sync_inv s"
  shows "sync_inv (start_union s sid)"
proof (cases "\<exists>st all p todo. dget (holders s) sid = Some (Starting st all (p # todo) None)")
  case True
  then obtain st all p todo where h: "dget (holders s) sid = Some (Starting st all (p # todo) None)" by blast
  let ?h = "Starting st all (p # todo) (Some (union_file (db s) sid (sync_kind p)))"
  have "sync_inv (s\<lparr>holders := dset sid ?h (holders s)\<rparr>)"
    by (rule sync_invI [OF inv])
      (use holderD [OF inv h] coveredD [OF inv] sync_invD(1) [OF inv] holderD [OF inv] in \<open>auto split: if_splits\<close>)
  then show ?thesis by (simp add: start_union_def h)
next
  case False
  then have "start_union s sid = s" unfolding start_union_def by (auto split: option.split holder.split list.split)
  then show ?thesis using inv by simp
qed

lemma start_write_eq:
  assumes "dget (holders s) sid = Some (Starting st all (p # todo) (Some c))"
  obtains f where "start_write s sid = s\<lparr>store := f, regenerated := dset (sid, sync_kind p) c (regenerated s), holders := dset sid (Starting st all todo None) (holders s)\<rparr>"
    "\<And>q. dget f q = (if q = (sid, target_file (sync_kind p)) then Some c else dget (store s) q)"
proof (cases "dget (store s) (sid, target_file (sync_kind p)) = Some c")
  case True
  then show ?thesis using assms by (intro that [of "store s"]) (simp_all add: start_write_def)
next
  case False
  then show ?thesis using assms by (intro that [of "dset (sid, target_file (sync_kind p)) c (store s)"]) (simp_all add: start_write_def put_file_def)
qed

lemma start_write_inv:
  assumes inv: "sync_inv s"
  shows "sync_inv (start_write s sid)"
proof (cases "\<exists>st all p todo c. dget (holders s) sid = Some (Starting st all (p # todo) (Some c))")
  case True
  then obtain st all p todo c where h: "dget (holders s) sid = Some (Starting st all (p # todo) (Some c))" by blast
  obtain f where e: "start_write s sid = s\<lparr>store := f, regenerated := dset (sid, sync_kind p) c (regenerated s), holders := dset sid (Starting st all todo None) (holders s)\<rparr>"
    and f: "\<And>q. dget f q = (if q = (sid, target_file (sync_kind p)) then Some c else dget (store s) q)"
    using start_write_eq [OF h] by blast
  obtain ready where ready: "all = ready @ p # todo" "\<And>q. q \<in> set ready \<Longrightarrow> worked_off s sid q"
    and ok: "dget (rows (db s)) sid \<noteq> None" "distinct (map sync_kind all)"
      "\<And>q. q \<in> set all \<Longrightarrow> token q \<in> set (issued s) \<and> mark_of (db s) sid (sync_kind q) \<noteq> None"
      "\<And>r. dget (rows (db s)) sid = Some r \<Longrightarrow> assigned r = None"
      "mark_of (db s) sid (sync_kind p) \<noteq> Some (token p) \<or> c = union_file (db s) sid (sync_kind p)"
    using holderD [OF inv h] by auto
  have lu: "last_union (start_write s sid) sid' k = (if sid' = sid \<and> k = sync_kind p then c else last_union s sid' k)" for sid' k
    by (simp add: e last_union_def dget_default_def)
  have "worked_off (start_write s sid) sid q" if "q \<in> set (ready @ [p])" for q
  proof (cases "q = p")
    case True
    then show ?thesis using ok(5) unfolding worked_off_def lu by (simp add: e f)
  next
    case False
    then have "q \<in> set ready" using that by simp
    moreover have "sync_kind q \<noteq> sync_kind p" using ok(2) ready(1) imageI [OF \<open>q \<in> set ready\<close>, of sync_kind] by auto
    ultimately show ?thesis using ready(2) [of q] unfolding worked_off_def lu by (simp add: e f)
  qed
  then have mine: "holder_ok (start_write s sid) sid (Starting st all todo None)"
    using ok ready(1) by (auto simp: e intro!: exI [of _ "ready @ [p]"])
  show ?thesis
  proof (rule sync_invI [OF inv])
    fix sid' h'
    assume h': "dget (holders (start_write s sid)) sid' = Some h'"
    show "dget (rows (db (start_write s sid))) sid' \<noteq> None \<and> holder_ok (start_write s sid) sid' h'"
    proof (cases "sid' = sid")
      case True
      then show ?thesis using h' mine ok(1) by (simp add: e)
    next
      case False
      then have old: "dget (rows (db s)) sid' \<noteq> None \<and> holder_ok s sid' h'" using h' holderD [OF inv] by (simp add: e)
      have "holder_ok (start_write s sid) sid' h'"
        by (rule holder_ok_frame [OF conjunct2 [OF old]]) (use False in \<open>simp_all add: lu\<close>, simp_all add: e f)
      then show ?thesis using old by (simp add: e)
    qed
  next
    fix sid' k
    assume "dget (rows (db (start_write s sid))) sid' \<noteq> None"
    then show "mark_of (db (start_write s sid)) sid' k \<noteq> None \<or> last_union (start_write s sid) sid' k = union_file (db (start_write s sid)) sid' k"
      using coveredD [OF inv, of sid' k] ok(3) [of p] ready(1) unfolding lu by (auto simp: e)
  qed (use sync_invD(1) [OF inv] row_issued [OF inv ok(1)] in \<open>auto simp: e split: if_splits\<close>)
next
  case False
  then have "start_write s sid = s" unfolding start_write_def by (auto split: option.split holder.split list.split)
  then show ?thesis using inv by simp
qed

lemma known_row: "known used d \<Longrightarrow> dget (rows d) sid \<noteq> None \<Longrightarrow> known used (d\<lparr>rows := dset sid r (rows d)\<rparr>)"
  unfolding known_def by auto

lemma known_clear: "known used d \<Longrightarrow> known used (clear_sync_pending sid ps d)"
  unfolding known_def by (auto simp: mark_of_clear split: if_splits)

lemma commit_start_inv:
  assumes inv: "sync_inv s"
  shows "sync_inv (commit_start s sid w)"
proof (cases "\<exists>st all cur r. dget (holders s) sid = Some (Starting st all [] cur) \<and> dget (rows (db s)) sid = Some r \<and> desired r = st \<and> assigned r = None")
  case True
  then obtain st all cur r where h: "dget (holders s) sid = Some (Starting st all [] cur)" and r: "dget (rows (db s)) sid = Some r"
      "desired r = st" "assigned r = None" by blast
  define d where "d = clear_sync_pending sid all ((db s)\<lparr>rows := dset sid (r\<lparr>desired := RUNNING, assigned := Some w\<rparr>) (rows (db s))\<rparr>)"
  have e: "commit_start s sid w = s\<lparr>db := d, holders := dpop sid (holders s)\<rparr>" using h r by (simp add: commit_start_def d_def)
  have worked: "worked_off s sid p" if "p \<in> set all" for p using holderD [OF inv h] that by auto
  have u: "union_file d sid' k = union_file (db s) sid' k" for sid' k by (simp add: d_def)
  have m: "mark_of d sid' k = (if sid' = sid \<and> (\<exists>p \<in> set all. sync_kind p = k \<and> mark_of (db s) sid k = Some (token p)) then None else mark_of (db s) sid' k)" for sid' k
    unfolding d_def mark_of_clear by auto
  show ?thesis
  proof (rule sync_invI [OF inv])
    show "known (issued s) (db (commit_start s sid w))"
      using sync_invD(1) [OF inv] r by (simp add: e d_def known_clear known_row)
    show "mark_of (db (commit_start s sid w)) sid' k \<noteq> None \<or> last_union (commit_start s sid w) sid' k = union_file (db (commit_start s sid w)) sid' k"
      if "dget (rows (db (commit_start s sid w))) sid' \<noteq> None" for sid' k
    proof (cases "sid' = sid \<and> (\<exists>p \<in> set all. sync_kind p = k \<and> mark_of (db s) sid k = Some (token p))")
      case True
      then show ?thesis using worked unfolding worked_off_def by (auto simp: e u)
    next
      case False
      have "dget (rows (db s)) sid' \<noteq> None" using that r(1) by (auto simp: e d_def split: if_splits)
      from coveredD [OF inv this, of k] False show ?thesis by (auto simp: e u m)
    qed
    show "dget (rows (db (commit_start s sid w))) sid' \<noteq> None \<and> holder_ok (commit_start s sid w) sid' h'"
      if "dget (holders (commit_start s sid w)) sid' = Some h'" for sid' h'
    proof -
      have n: "sid' \<noteq> sid" and old: "dget (rows (db s)) sid' \<noteq> None \<and> holder_ok s sid' h'"
        using that holderD [OF inv] by (auto simp: e split: if_splits)
      have "holder_ok (commit_start s sid w) sid' h'"
        by (rule holder_ok_frame [OF conjunct2 [OF old]]) (use n in \<open>simp_all add: e u m\<close>, simp_all add: d_def)
      then show ?thesis using old n by (simp add: e d_def)
    qed
  qed (simp_all add: e d_def)
next
  case False
  then have "commit_start s sid w = s \<or> commit_start s sid w = s\<lparr>holders := dpop sid (holders s)\<rparr>"
    unfolding commit_start_def by (auto split: option.split holder.split list.split)
  then show ?thesis using inv let_go_inv [OF inv, of sid] by auto
qed

section \<open>Rows and files\<close>

lemma change_row_inv:
  assumes inv: "sync_inv s"
  shows "sync_inv (change_row s sid r')"
proof -
  have "sync_inv (s\<lparr>db := (db s)\<lparr>rows := dset sid r' (rows (db s))\<rparr>\<rparr>)"
    if r: "dget (rows (db s)) sid = Some r" "assigned r' = assigned r \<or> assigned r' = None" for r
  proof (rule sync_invI [OF inv])
    fix sid' h
    assume "dget (holders (s\<lparr>db := (db s)\<lparr>rows := dset sid r' (rows (db s))\<rparr>\<rparr>)) sid' = Some h"
    then have old: "dget (rows (db s)) sid' \<noteq> None \<and> holder_ok s sid' h" using holderD [OF inv] by simp
    have "holder_ok (s\<lparr>db := (db s)\<lparr>rows := dset sid r' (rows (db s))\<rparr>\<rparr>) sid' h"
      by (rule holder_ok_frame [OF conjunct2 [OF old]]) (use r in \<open>auto split: if_splits\<close>)
    then show "dget (rows (db (s\<lparr>db := (db s)\<lparr>rows := dset sid r' (rows (db s))\<rparr>\<rparr>))) sid' \<noteq> None
        \<and> holder_ok (s\<lparr>db := (db s)\<lparr>rows := dset sid r' (rows (db s))\<rparr>\<rparr>) sid' h" using old by simp
  qed (use r coveredD [OF inv] known_row [OF sync_invD(1) [OF inv]] in \<open>auto split: if_splits\<close>)
  then show ?thesis using inv unfolding change_row_def by (auto split: option.split)
qed

lemma no_groups:
  assumes "known used d" "sid \<notin> set used"
  shows "server_group_ids d sid = []"
proof -
  have "gid \<notin> set (server_group_ids d sid)" for gid using assms unfolding in_server_group_ids known_def by blast
  then show ?thesis by (metis list.set_intros(1) neq_Nil_conv)
qed

lemma add_server_inv:
  assumes inv: "sync_inv s"
  shows "sync_inv (add_server s r)"
proof (cases "s_id r \<in> set (issued s)")
  case False
  let ?s = "s\<lparr>db := (db s)\<lparr>rows := dset (s_id r) r (rows (db s))\<rparr>, issued := s_id r # issued s\<rparr>"
  have new: "server_group_ids (db s) (s_id r) = []" by (rule no_groups [OF sync_invD(1) [OF inv] False])
  have "dget (regenerated s) (s_id r, k) = None" for k using inv False unfolding sync_inv_def by blast
  then have fresh: "last_union s (s_id r) k = union_file (db s) (s_id r) k" for k
    using union_file_none [OF new] by (simp add: last_union_def dget_default_def)
  have "known (issued ?s) (db ?s)" using sync_invD(1) [OF inv] unfolding known_def by auto
  moreover have "covered ?s" unfolding covered_def using fresh coveredD [OF inv] by (auto split: if_splits)
  moreover have "holders_ok ?s" unfolding holders_ok_def
  proof (intro allI impI)
    fix sid h
    assume "dget (holders ?s) sid = Some h"
    then have old: "dget (rows (db s)) sid \<noteq> None \<and> holder_ok s sid h" using holderD [OF inv] by simp
    then have "sid \<noteq> s_id r" using row_issued [OF inv] False by blast
    then have "holder_ok ?s sid h" by (intro holder_ok_frame [OF conjunct2 [OF old]]) auto
    then show "dget (rows (db ?s)) sid \<noteq> None \<and> holder_ok ?s sid h" using old by simp
  qed
  moreover have "loaded_ok ?s" using sync_invD(4) [OF inv] by (simp add: loaded_ok_def)
  ultimately show ?thesis using inv False unfolding sync_inv_def add_server_def by simp
qed (simp add: add_server_def inv)

lemma remove_server_inv:
  assumes inv: "sync_inv s"
  shows "sync_inv (remove_server s sid)"
proof (cases "dget (holders s) sid = None")
  case True
  define d where "d = (db s)\<lparr>rows := dpop sid (rows (db s)), attachments := filter (\<lambda>(g, s). s \<noteq> sid) (attachments (db s)),
                        marks := dpop (sid, OP) (dpop (sid, WHITELIST) (marks (db s)))\<rparr>"
  have e: "remove_server s sid = s\<lparr>db := d\<rparr>" using True by (simp add: remove_server_def d_def)
  have m: "mark_of d sid' k = (if sid' = sid then None else mark_of (db s) sid' k)" for sid' k by (cases k) (simp_all add: d_def)
  have u: "union_file d sid' k = union_file (db s) sid' k" if "sid' \<noteq> sid" for sid' k
  proof (rule union_file_cong)
    have "filter (\<lambda>(g, s). s = sid') (filter (\<lambda>(g, s). s \<noteq> sid) as) = filter (\<lambda>(g, s). s = sid') as" for as :: "(uuid \<times> uuid) list"
      using that by (induction as) auto
    then show "server_group_ids d sid' = server_group_ids (db s) sid'" unfolding server_group_ids_def d_def by simp
  qed (simp add: contribution_def d_def)
  show ?thesis
  proof (rule sync_invI [OF inv])
    show "known (issued s) (db (remove_server s sid))"
      using sync_invD(1) [OF inv] unfolding known_def e by (simp add: m) (auto simp: d_def)
    fix sid' h
    assume h: "dget (holders (remove_server s sid)) sid' = Some h"
    then have n: "sid' \<noteq> sid" and old: "dget (rows (db s)) sid' \<noteq> None \<and> holder_ok s sid' h" using True holderD [OF inv] by (auto simp: e)
    have "holder_ok (remove_server s sid) sid' h"
      by (rule holder_ok_frame [OF conjunct2 [OF old]]) (use n in \<open>simp_all add: e u m\<close>, simp_all add: d_def)
    then show "dget (rows (db (remove_server s sid))) sid' \<noteq> None \<and> holder_ok (remove_server s sid) sid' h"
      using old n by (simp add: e d_def)
  next
    fix sid' k
    assume "dget (rows (db (remove_server s sid))) sid' \<noteq> None"
    then have "sid' \<noteq> sid" "dget (rows (db s)) sid' \<noteq> None" by (auto simp: e d_def split: if_splits)
    then show "mark_of (db (remove_server s sid)) sid' k \<noteq> None \<or> last_union (remove_server s sid) sid' k = union_file (db (remove_server s sid)) sid' k"
      using coveredD [OF inv, of sid' k] by (simp add: e u m)
  qed (simp_all add: e d_def)
qed (simp add: remove_server_def inv)

lemma store_inv:
  assumes inv: "sync_inv s" and free: "dget (holders s) sid = None \<or> (\<exists>r. dget (rows (db s)) sid = Some r \<and> assigned r \<noteq> None)"
  shows "sync_inv (s\<lparr>store := dset (sid, path) c (store s)\<rparr>)"
proof (rule sync_invI [OF inv])
  fix sid' h
  assume "dget (holders (s\<lparr>store := dset (sid, path) c (store s)\<rparr>)) sid' = Some h"
  then have h: "dget (holders s) sid' = Some h" by simp
  note old = holderD [OF inv h]
  have "holder_ok (s\<lparr>store := dset (sid, path) c (store s)\<rparr>) sid' h"
  proof (cases "sid' = sid")
    case True
    then obtain r where "dget (rows (db s)) sid = Some r" "assigned r \<noteq> None" using free h by auto
    then obtain k x where "h = Syncing k x" using old True by (cases h) auto
    then show ?thesis using old by simp
  next
    case False
    then show ?thesis using holder_ok_elsewhere(3) old by blast
  qed
  then show "dget (rows (db (s\<lparr>store := dset (sid, path) c (store s)\<rparr>))) sid' \<noteq> None \<and> holder_ok (s\<lparr>store := dset (sid, path) c (store s)\<rparr>) sid' h"
    using old by simp
qed (use coveredD [OF inv] sync_invD(1) [OF inv] in simp_all)

section \<open>Runs\<close>

fun renames_settled :: "group_sys \<Rightarrow> group_op list \<Rightarrow> bool" where
  \<comment> \<open>no rename writes back players that another edit has changed since it read them\<close>
  "renames_settled s [] = True"
| "renames_settled s (op # ops) =
     ((case op of
         CommitEdit eid t \<Rightarrow> (case dget (edits s) eid of None \<Rightarrow> True | Some e \<Rightarrow> settled_rename (db s) e)
       | _ \<Rightarrow> True)
      \<and> renames_settled (group_step s op) ops)"

lemma commit_inv:
  assumes inv: "sync_inv s" and e: "dget (edits s) eid = Some e" and set: "settled_rename (db s) e"
  shows "sync_inv ((try_db s [t] (commit_edit (db s) e t))\<lparr>edits := dpop eid (edits s)\<rparr>)"
proof -
  have "sync_inv (try_db s [t] (commit_edit (db s) e t))"
    using try_db_inv [OF inv] commit_transaction [OF _ sync_invD(1) [OF inv] set] sync_invD(4) [OF inv] e
    unfolding loaded_ok_def by blast
  moreover have "edits (try_db s [t] (commit_edit (db s) e t)) = edits s" by (simp add: try_db_def split: sum.split)
  ultimately show ?thesis using pop_edit_inv [of "try_db s [t] (commit_edit (db s) e t)" eid] by simp
qed

lemma group_step_inv:
  assumes inv: "sync_inv s" and set: "renames_settled s [op]"
  shows "sync_inv (group_step s op)"
proof (cases op)
  case (CommitEdit eid t)
  then show ?thesis using commit_inv [OF inv] set inv by (auto split: option.splits)
next
  case (CreateGroup cid gid name kind)
  then show ?thesis using try_db_inv [OF inv] create_transaction [OF _ sync_invD(1) [OF inv]] by simp
next
  case (DeleteGroup cid gid t)
  then show ?thesis using try_db_inv [OF inv] delete_transaction [OF _ sync_invD(1) [OF inv]] by simp
next
  case (AttachGroup cid gid sid t)
  then show ?thesis using try_db_inv [OF inv] attach_transaction [OF _ sync_invD(1) [OF inv]] by simp
next
  case (DetachGroup cid gid sid t)
  then show ?thesis using try_db_inv [OF inv] detach_transaction [OF _ sync_invD(1) [OF inv]] by simp
next
  case ProcessLoss
  have "sync_inv (s\<lparr>edits := [], holders := []\<rparr>)"
    using inv unfolding sync_inv_def covered_def holders_ok_def loaded_ok_def by simp
  then show ?thesis using ProcessLoss by simp
next
  case (PublishFile sid path c)
  then show ?thesis using store_inv [OF inv] inv by (auto simp: publish_file_def split: option.split)
next
  case (WriteAtRest sid path c)
  then show ?thesis using store_inv [OF inv] inv by simp
qed (simp_all add: inv pop_edit_inv begin_inv begin_loaded sync_read_inv sync_write_inv start_read_inv start_union_inv start_write_inv
      commit_start_inv let_go_inv change_row_inv add_server_inv remove_server_inv)

lemma group_run_inv:
  "sync_inv s \<Longrightarrow> renames_settled s ops \<Longrightarrow> sync_inv (foldl group_step s ops)"
  by (induction ops arbitrary: s) (auto simp: group_step_inv)

lemma empty_groups_inv: "sync_inv empty_groups"
  by (simp add: sync_inv_def empty_groups_def known_def covered_def holders_ok_def loaded_ok_def)

text \<open>
  C11. No change of a group is forgotten, as long as no rename writes back a player set that changed since
  the rename read it (such a rename undoes the change and marks nothing). In every such run, however edits,
  attaches, deletes, file syncs, starts, publishes and process losses interleave, a server whose last
  regeneration of a player file is not the union of its groups is marked for one; and a start that has
  worked off its marks commits with each file it was owed equal to the union of that moment, or with the
  server marked again.
\<close>

theorem group_changes_reach_servers:
  assumes "renames_settled empty_groups ops" and "s = group_run ops" and "dget (rows (db s)) sid \<noteq> None"
  shows "(mark_of (db s) sid k \<noteq> None \<or> last_union s sid k = union_file (db s) sid k)
    \<and> (dget (holders s) sid = Some (Starting st owed [] cur) \<and> p \<in> set owed \<longrightarrow>
         mark_of (db (commit_start s sid w)) sid (sync_kind p) \<noteq> None
         \<or> dget (store (commit_start s sid w)) (sid, target_file (sync_kind p))
             = Some (union_file (db (commit_start s sid w)) sid (sync_kind p)))"
proof -
  have inv: "sync_inv s" using group_run_inv [OF empty_groups_inv assms(1)] assms(2) by (simp add: group_run_def)
  have inv': "sync_inv (commit_start s sid w)" by (rule commit_start_inv [OF inv])
  obtain r where r: "dget (rows (db s)) sid = Some r" using assms(3) by blast
  have kept: "dget (rows (db (commit_start s sid w))) sid \<noteq> None" "store (commit_start s sid w) = store s" "last_union (commit_start s sid w) sid k' = last_union s sid k'" for k'
    using r by (auto simp: commit_start_def split: option.split holder.split list.split)
  have "dget (store s) (sid, target_file (sync_kind p)) = Some (last_union s sid (sync_kind p))"
    if "dget (holders s) sid = Some (Starting st owed [] cur)" "p \<in> set owed"
    using holderD [OF inv that(1)] that(2) by (auto simp: worked_off_def)
  then show ?thesis using coveredD [OF inv assms(3)] coveredD [OF inv' kept(1)] unfolding kept(2,3) by auto
qed

end
