(* ===== verification/Group_Sync_Witness.thy ===== *)
theory Group_Sync_Witness
  imports Group_Sync_Props
begin

text \<open>
  Concrete runs of the group sync: a start that applies an owed change, and the two races in which an edit writes back
  the group it has read before another edit.
\<close>

definition group_server :: server where
  "group_server = \<lparr>s_id = ''s'', s_community = ''c'', s_name = ''survival'', mc_edition = ''java'', mc_version = ''1.21'',
     s_type = VANILLA, s_config = [], desired = STOPPED, observed = OStopped, observed_at = None, assigned = None,
     created_at = 0, updated_at = 0, game_port = None, bedrock_port = None, slug = ''survival'', backup_retention = None\<rparr>"

definition op_group :: "group_op list" where
  \<comment> \<open>one operator in a group that is attached to one server\<close>
  "op_group = [CreateGroup ''c'' ''g'' ''admins'' ''op'', BeginPlayer ''e'' ''c'' ''g'' ''x'' ''eve'', CommitEdit ''e'' ''t1'',
               AddServer group_server, AttachGroup ''c'' ''g'' ''s'' ''t2'']"

definition start_ops :: "group_op list" where
  "start_ops = [StartRead ''c'' ''s'' STOPPED, StartUnion ''s'', StartWrite ''s'']"

lemma group_changes_reach_servers_witness:
  "dget (store (commit_start (group_run (op_group @ start_ops)) ''s'' ''w'')) (''s'', ''ops.json'')
     = Some (render_group_file OP [\<lparr>p_uuid = ''x'', username = ''eve''\<rparr>])"
proof -
  let ?s = "group_run (op_group @ start_ops)"
  have "renames_settled empty_groups (op_group @ start_ops)" "dget (rows (db ?s)) ''s'' \<noteq> None"
    "dget (holders ?s) ''s'' = Some (Starting STOPPED [\<lparr>sync_kind = OP, token = ''t2''\<rparr>] [] None)" by code_simp+
  moreover have "mark_of (db (commit_start ?s ''s'' ''w'')) ''s'' OP = None" by code_simp
  moreover have "union_file (db (commit_start ?s ''s'' ''w'')) ''s'' OP = render_group_file OP [\<lparr>p_uuid = ''x'', username = ''eve''\<rparr>]" by code_simp
  ultimately show ?thesis
    using group_changes_reach_servers [OF _ refl, of "op_group @ start_ops" "''s''" OP STOPPED "[\<lparr>sync_kind = OP, token = ''t2''\<rparr>]" None
        "\<lparr>sync_kind = OP, token = ''t2''\<rparr>" "''w''"] by simp
qed

section \<open>Edits that write back what they read\<close>

text \<open>
  An addition that has read the group before a removal commits puts the removed operator back: the row lock an edit
  takes comes after its read.
\<close>

lemma addition_undoes_removal:
  "let d = db (group_run (op_group @ [BeginPlayer ''e1'' ''c'' ''g'' ''y'' ''bob'', BeginRemoval ''e2'' ''c'' ''g'' ''x'',
                          CommitEdit ''e2'' ''t3'', CommitEdit ''e1'' ''t4'']))
   in map p_uuid (all_players (groups_for_server_kind d ''s'' OP)) = [''x'', ''y'']"
  by code_simp

text \<open>A rename in the same position does so without marking the servers, so no start ever writes what the group says.\<close>

lemma rename_forgets_servers:
  "let s = group_run (op_group @ [BeginRename ''e1'' ''c'' ''g'' ''ops'', BeginRemoval ''e2'' ''c'' ''g'' ''x'', CommitEdit ''e2'' ''t3'']
             @ start_ops @ [StartCommit ''s'' ''w'', CommitEdit ''e1'' ''t4''])
   in map p_uuid (all_players (groups_for_server_kind (db s) ''s'' OP)) = [''x''] \<and> mark_of (db s) ''s'' OP = None
    \<and> dget (store s) (''s'', ''ops.json'') = Some (render_group_file OP [])"
  by code_simp

end
