(* ===== verification/Backup_Retention.thy ===== *)
theory Backup_Retention
  imports Server_Model
begin

text \<open>
  The retention of scheduled backups (\<open>servers/domain/backup_retention.py\<close> with \<open>servers/domain/backup.py\<close>): the
  policy and its persisted shape, and the selection of the rows it prunes. A date is its proleptic Gregorian ordinal
  (1 is the first of January of the year 1), as \<open>datetime.date\<close> counts.
\<close>

section \<open>Dates\<close>

definition ordinal_of :: "instant \<Rightarrow> int" where
  \<comment> \<open>the UTC date of an instant\<close>
  "ordinal_of t = t div 86400000000 + 719163"

definition days_before_year :: "int \<Rightarrow> int" where
  "days_before_year y = (let p = y - 1 in p * 365 + p div 4 - p div 100 + p div 400)"

definition year_day :: "int \<Rightarrow> int \<times> int" where
  \<comment> \<open>the year of an ordinal and the days of it that have passed\<close>
  "year_day d =
     (let n = d - 1; n400 = n div 146097; a = n mod 146097; n100 = a div 36524; b = a mod 36524; n4 = b div 1461; c = b mod 1461;
          n1 = c div 365; y = n400 * 400 + n100 * 100 + n4 * 4 + n1 + 1
      in if n1 = 4 \<or> n100 = 4 then (y - 1, 365) else (y, c mod 365))"

definition leap :: "int \<Rightarrow> bool" where
  "leap y \<longleftrightarrow> y mod 4 = 0 \<and> (y mod 100 \<noteq> 0 \<or> y mod 400 = 0)"

definition month_ends :: "bool \<Rightarrow> int list" where
  "month_ends l = (if l then [31, 60, 91, 121, 152, 182, 213, 244, 274, 305, 335, 366]
                   else [31, 59, 90, 120, 151, 181, 212, 243, 273, 304, 334, 365])"

definition year_month :: "int \<Rightarrow> int \<times> int" where
  "year_month d =
     (let (y, n) = year_day d in (y, 1 + int (length (takeWhile (\<lambda>e. e \<le> n) (month_ends (leap y))))))"

definition monday_of :: "int \<Rightarrow> int" where
  \<comment> \<open>\<open>d - timedelta(days=d.isoweekday() - 1)\<close>: ordinal 1 is a Monday\<close>
  "monday_of d = d - (d - 1) mod 7"

definition iso_week :: "int \<Rightarrow> int \<times> int" where
  \<comment> \<open>\<open>d.isocalendar()[:2]\<close>: the year of the week's Thursday and the number of that Thursday in it\<close>
  "iso_week d = (let t = monday_of d + 3; y = fst (year_day t) in (y, (t - days_before_year y - 1) div 7 + 1))"

section \<open>Policies\<close>

datatype retention_error = InvalidRetentionPolicyError | RetentionOverflowError

record retention_policy =
  keep_last :: "int option"
  daily :: int
  weekly :: int
  monthly :: int

definition mk_policy :: "int option \<Rightarrow> int \<Rightarrow> int \<Rightarrow> int \<Rightarrow> retention_error + retention_policy" where
  "mk_policy n d w m =
     (if d < 0 \<or> w < 0 \<or> m < 0 then Inl InvalidRetentionPolicyError
      else case n of
          Some k \<Rightarrow> if k < 1 then Inl InvalidRetentionPolicyError
                    else if d \<noteq> 0 \<or> w \<noteq> 0 \<or> m \<noteq> 0 then Inl InvalidRetentionPolicyError
                    else Inr \<lparr>keep_last = n, daily = d, weekly = w, monthly = m\<rparr>
        | None \<Rightarrow> if d = 0 \<and> w = 0 \<and> m = 0 then Inl InvalidRetentionPolicyError
                  else Inr \<lparr>keep_last = n, daily = d, weekly = w, monthly = m\<rparr>)"

definition policy_from_fields ::
  "int option \<Rightarrow> int option \<Rightarrow> int option \<Rightarrow> int option \<Rightarrow> retention_error + retention_policy" where
  "policy_from_fields n d w m =
     (let tiers = d \<noteq> None \<or> w \<noteq> None \<or> m \<noteq> None
      in if n \<noteq> None \<and> tiers then Inl InvalidRetentionPolicyError
         else if n = None \<and> \<not> tiers then Inl InvalidRetentionPolicyError
         else if n \<noteq> None then mk_policy n 0 0 0
         else mk_policy None (case d of None \<Rightarrow> 0 | Some x \<Rightarrow> x) (case w of None \<Rightarrow> 0 | Some x \<Rightarrow> x)
                (case m of None \<Rightarrow> 0 | Some x \<Rightarrow> x))"

definition policy_int :: "(string, json) dict \<Rightarrow> string \<Rightarrow> int option" where
  \<comment> \<open>\<open>_require_int\<close>: a boolean is not a count\<close>
  "policy_int d k = (case dget d k of Some (JInt n) \<Rightarrow> Some n | _ \<Rightarrow> None)"

definition policy_from_json :: "(string, json) dict \<Rightarrow> retention_error + retention_policy" where
  "policy_from_json d =
     (if dkeys d = {''keep_last''} then
        (case policy_int d ''keep_last'' of None \<Rightarrow> Inl InvalidRetentionPolicyError | Some n \<Rightarrow> mk_policy (Some n) 0 0 0)
      else if dkeys d = {''daily'', ''weekly'', ''monthly''} then
        (case (policy_int d ''daily'', policy_int d ''weekly'', policy_int d ''monthly'') of
           (Some x, Some y, Some z) \<Rightarrow> mk_policy None x y z
         | _ \<Rightarrow> Inl InvalidRetentionPolicyError)
      else Inl InvalidRetentionPolicyError)"

definition policy_to_json :: "retention_policy \<Rightarrow> (string, json) dict" where
  "policy_to_json p =
     (case keep_last p of
        Some n \<Rightarrow> [(''keep_last'', JInt n)]
      | None \<Rightarrow> [(''daily'', JInt (daily p)), (''weekly'', JInt (weekly p)), (''monthly'', JInt (monthly p))])"

section \<open>Backups\<close>

datatype backup_source = MANUAL | SCHEDULED | EVENT | UPLOADED

datatype backup_health = HEALTHY | QUARANTINED | UNREADABLE | UNKNOWN_HEALTH

record backup =
  bk_id :: uuid
  bk_server :: uuid
  storage_ref :: string
  size_bytes :: "int option"
  bk_source :: backup_source
  bk_health :: backup_health
  bk_created_by :: "uuid option"
  bk_created_at :: instant

definition backup_key :: "backup \<Rightarrow> instant \<times> uuid" where
  "backup_key b = (bk_created_at b, bk_id b)"

definition newest_backups_first :: "backup list \<Rightarrow> backup list" where
  \<comment> \<open>\<open>sorted(..., reverse=True)\<close> keeps the order of equal keys\<close>
  "newest_backups_first bs = rev (sort_key backup_key (rev bs))"

section \<open>Windows\<close>

definition window_days :: "int \<Rightarrow> int \<Rightarrow> retention_error + int list" where
  \<comment> \<open>a date before the first of the calendar overflows\<close>
  "window_days now n = (if n > now then Inl RetentionOverflowError else Inr (map (\<lambda>i. now - i) [0..n - 1]))"

definition window_weeks :: "int \<Rightarrow> int \<Rightarrow> retention_error + (int \<times> int) list" where
  "window_weeks now n =
     (let monday = monday_of now
      in if monday - 7 * (n - 1) < 1 then Inl RetentionOverflowError
         else Inr (map (\<lambda>i. iso_week (monday - 7 * i)) [0..n - 1]))"

fun window_months_from :: "nat \<Rightarrow> int \<times> int \<Rightarrow> (int \<times> int) list" where
  "window_months_from 0 ym = []"
| "window_months_from (Suc n) (y, m) = (y, m) # window_months_from n (if m - 1 = 0 then (y - 1, 12) else (y, m - 1))"

definition window_months :: "int \<Rightarrow> int \<Rightarrow> (int \<times> int) list" where
  "window_months now n = window_months_from (nat n) (year_month now)"

section \<open>Selection\<close>

fun prune_walk ::
  "int list \<Rightarrow> (int \<times> int) list \<Rightarrow> (int \<times> int) list \<Rightarrow> int list \<Rightarrow> (int \<times> int) list \<Rightarrow> (int \<times> int) list \<Rightarrow> backup list \<Rightarrow> backup list" where
  "prune_walk days weeks months cd cw cm [] = []"
| "prune_walk days weeks months cd cw cm (b # bs) =
     (let d = ordinal_of (bk_created_at b); w = iso_week d; m = year_month d;
          by_day = d \<in> set days \<and> d \<notin> set cd; by_week = w \<in> set weeks \<and> w \<notin> set cw; by_month = m \<in> set months \<and> m \<notin> set cm;
          rest = prune_walk days weeks months (if by_day then d # cd else cd) (if by_week then w # cw else cw)
                   (if by_month then m # cm else cm) bs
      in if by_day \<or> by_week \<or> by_month then rest else b # rest)"

definition backups_to_prune :: "retention_policy \<Rightarrow> backup list \<Rightarrow> instant \<Rightarrow> retention_error + backup list" where
  "backups_to_prune p bs now =
     (let scheduled = newest_backups_first (filter (\<lambda>b. bk_source b = SCHEDULED) bs)
      in case keep_last p of
           Some n \<Rightarrow> Inr (drop (nat n) scheduled)
         | None \<Rightarrow>
             (case window_days (ordinal_of now) (daily p) of
                Inl e \<Rightarrow> Inl e
              | Inr days \<Rightarrow> (case window_weeks (ordinal_of now) (weekly p) of
                    Inl e \<Rightarrow> Inl e
                  | Inr weeks \<Rightarrow>
                      Inr (prune_walk days weeks (window_months (ordinal_of now) (monthly p)) [] [] [] scheduled))))"

end
