(* ===== verification/Backup_Pruning.thy ===== *)
theory Backup_Pruning
  imports Backup_Retention
begin

text \<open>
  Which scheduled backups the retention keeps: the newest ones, or the newest of each day, ISO week and month of its
  windows.
\<close>

section \<open>Buckets of the calendar\<close>

definition month_index :: "int \<times> int \<Rightarrow> int" where
  "month_index ym = 12 * fst ym + snd ym"

lemma monday_week: "d - 6 \<le> monday_of d" "monday_of d \<le> d" "(monday_of d - 1) mod 7 = 0"
proof -
  have "0 \<le> (d - 1) mod 7" "(d - 1) mod 7 < 7" by simp_all
  then show "d - 6 \<le> monday_of d" "monday_of d \<le> d" by (simp_all add: monday_of_def)
  have "monday_of d - 1 = 7 * ((d - 1) div 7)" unfolding monday_of_def using mult_div_mod_eq [of 7 "d - 1"] by linarith
  then show "(monday_of d - 1) mod 7 = 0" by simp
qed

lemma iso_week_iff: "iso_week d = iso_week e \<longleftrightarrow> monday_of d = monday_of e"
proof
  assume eq: "iso_week d = iso_week e"
  define b where "b = days_before_year (fst (year_day (monday_of d + 3)))"
  have b': "b = days_before_year (fst (year_day (monday_of e + 3)))" using eq by (simp add: iso_week_def Let_def b_def)
  have q: "(monday_of d + 3 - b - 1) div 7 = (monday_of e + 3 - b - 1) div 7"
    using eq unfolding iso_week_def Let_def b_def [symmetric] b' [symmetric] by simp
  have "(monday_of d - 1 + (3 - b)) mod 7 = (monday_of e - 1 + (3 - b)) mod 7"
    using monday_week(3) [of d] monday_week(3) [of e] by (metis mod_add_cong)
  then have "(monday_of d + 3 - b - 1) mod 7 = (monday_of e + 3 - b - 1) mod 7" by (simp add: algebra_simps)
  then show "monday_of d = monday_of e"
    using q mult_div_mod_eq [of 7 "monday_of d + 3 - b - 1"] mult_div_mod_eq [of 7 "monday_of e + 3 - b - 1"] by linarith
qed (simp add: iso_week_def)

lemma year_day_bounds:
  assumes "year_day d = (y, n)"
  shows "0 \<le> n \<and> n < (if leap y then 366 else 365)"
proof -
  define m where "m = d - 1"
  define q where "q = m div 146097"
  define a where "a = m mod 146097"
  define r where "r = a div 36524"
  define b where "b = a mod 36524"
  define s where "s = b div 1461"
  define c where "c = b mod 1461"
  define t where "t = c div 365"
  note defs = t_def c_def s_def b_def r_def a_def q_def m_def
  have y: "(y, n) = (if t = 4 \<or> r = 4 then (q * 400 + r * 100 + s * 4 + t, 365) else (q * 400 + r * 100 + s * 4 + t + 1, c mod 365))"
    using assms unfolding year_day_def Let_def defs by (auto split: if_splits)
  have ranges: "0 \<le> a" "a < 146097" "0 \<le> b" "b < 36524" "0 \<le> c" "c < 1461" "a = 36524 * r + b" "b = 1461 * s + c" "c = 365 * t + c mod 365"
    unfolding defs by simp_all
  show ?thesis
  proof (cases "t = 4 \<or> r = 4")
    case False
    have "0 \<le> c mod 365 \<and> c mod 365 < 365" by simp
    then show ?thesis using y False by (cases "leap y") auto
  next
    case True
    have "leap y"
    proof (cases "r = 4")
      case True
      then have "b = 0" using ranges by linarith
      then have "s = 0" "c = 0" unfolding s_def c_def by simp_all
      then have "s = 0 \<and> t = 0" unfolding t_def by simp
      then show ?thesis using y True by (simp add: leap_def)
    next
      case False
      then have t: "t = 4" using True by simp
      have cm: "0 \<le> c mod 365" by simp
      have "s \<le> 23" using ranges t cm by linarith
      moreover have "0 \<le> s" using ranges(3) unfolding s_def by (simp add: pos_imp_zdiv_nonneg_iff)
      moreover have y4: "y = 4 * (s + 1) + (4 * q + r) * 100" using y t by simp
      ultimately have "y mod 100 = 4 * (s + 1)" by (simp only: mod_mult_self1) simp
      moreover have "y = 4 * (s + 1 + (4 * q + r) * 25)" using y4 by simp
      then have "y mod 4 = 0" by (simp only: mod_mult_self1_is_0)
      ultimately show ?thesis using \<open>0 \<le> s\<close> by (simp add: leap_def)
    qed
    then show ?thesis using y True by simp
  qed
qed

lemma month_range: "1 \<le> snd (year_month d) \<and> snd (year_month d) \<le> 12"
proof -
  obtain y n where yn: "year_day d = (y, n)" by fastforce
  have "length (takeWhile (\<lambda>e. e \<le> n) (month_ends (leap y))) \<le> 11"
    using year_day_bounds [OF yn] by (auto simp: month_ends_def split: if_splits)
  then show ?thesis by (simp add: year_month_def yn)
qed

lemma month_inj:
  fixes a b a' b' :: int
  assumes "1 \<le> b" "b \<le> 12" "1 \<le> b'" "b' \<le> 12"
  shows "12 * a + b = 12 * a' + b' \<longleftrightarrow> a = a' \<and> b = b'"
proof
  assume e: "12 * a + b = 12 * a' + b'"
  then have "a = a'" using assms by linarith
  then show "a = a' \<and> b = b'" using e by simp
qed simp

lemma year_month_iff: "year_month d = year_month e \<longleftrightarrow> month_index (year_month d) = month_index (year_month e)"
  using month_inj [of "snd (year_month d)" "snd (year_month e)" "fst (year_month d)" "fst (year_month e)"] month_range [of d] month_range [of e]
  by (auto simp: month_index_def prod_eq_iff split_beta)

lemma window_months_mem:
  "1 \<le> snd ym \<Longrightarrow> snd ym \<le> 12 \<Longrightarrow> 1 \<le> snd from' \<Longrightarrow> snd from' \<le> 12 \<Longrightarrow>
   ym \<in> set (window_months_from n from') \<longleftrightarrow> 0 \<le> month_index from' - month_index ym \<and> month_index from' - month_index ym < int n"
proof (induction n from' rule: window_months_from.induct)
  case (2 n y m)
  obtain a b where ym: "ym = (a, b)" by fastforce
  define next_m where "next_m = (if m - 1 = 0 then (y - 1, 12) else (y, m - 1))"
  have i: "month_index next_m = month_index (y, m) - 1" by (simp add: next_m_def month_index_def)
  have r: "1 \<le> snd next_m \<and> snd next_m \<le> 12" using 2(4,5) by (simp add: next_m_def)
  have "ym \<in> set (window_months_from (Suc n) (y, m)) \<longleftrightarrow> ym = (y, m) \<or> ym \<in> set (window_months_from n next_m)"
    by (simp add: next_m_def)
  also have "ym = (y, m) \<longleftrightarrow> month_index ym = month_index (y, m)"
    using 2(2-5) month_inj [of b m a y] by (simp add: ym month_index_def)
  also have "ym \<in> set (window_months_from n next_m) \<longleftrightarrow> 0 \<le> month_index next_m - month_index ym \<and> month_index next_m - month_index ym < int n"
    unfolding next_m_def by (rule 2(1)) (use r 2(2,3) in \<open>simp_all add: next_m_def\<close>)
  finally show ?case unfolding i by auto
qed simp

section \<open>The walk\<close>

definition first_of :: "(backup \<Rightarrow> 'k) \<Rightarrow> backup list \<Rightarrow> backup \<Rightarrow> bool" where
  "first_of f bs b \<longleftrightarrow> (\<forall>a \<in> set (takeWhile (\<lambda>x. x \<noteq> b) bs). f a \<noteq> f b)"

definition day_of :: "backup \<Rightarrow> int" where
  "day_of b = ordinal_of (bk_created_at b)"

lemma first_of_Cons: "b \<noteq> x \<Longrightarrow> first_of f (x # bs) b \<longleftrightarrow> f x \<noteq> f b \<and> first_of f bs b"
  by (auto simp: first_of_def)

lemma first_of_hd [simp]: "first_of f (b # bs) b"
  by (simp add: first_of_def)

definition claims :: "(backup \<Rightarrow> 'k) \<Rightarrow> 'k list \<Rightarrow> 'k list \<Rightarrow> backup list \<Rightarrow> backup \<Rightarrow> bool" where
  "claims f S c bs b \<longleftrightarrow> f b \<in> set S \<and> f b \<notin> set c \<and> first_of f bs b"

lemma claims_Cons:
  "b \<noteq> x \<Longrightarrow> claims f S (if f x \<in> set S \<and> f x \<notin> set c then f x # c else c) bs b \<longleftrightarrow> claims f S c (x # bs) b"
  by (auto simp: claims_def first_of_Cons)

lemma claims_hd: "claims f S c (x # bs) x \<longleftrightarrow> f x \<in> set S \<and> f x \<notin> set c"
  by (simp add: claims_def)

abbreviation week_of :: "backup \<Rightarrow> int \<times> int" where
  "week_of b \<equiv> iso_week (day_of b)"

abbreviation month_of :: "backup \<Rightarrow> int \<times> int" where
  "month_of b \<equiv> year_month (day_of b)"

lemma prune_walk_set:
  "distinct bs \<Longrightarrow> set (prune_walk days weeks months cd cw cm bs)
     = {b \<in> set bs. \<not> (claims day_of days cd bs b \<or> claims week_of weeks cw bs b \<or> claims month_of months cm bs b)}"
proof (induction bs arbitrary: cd cw cm)
  case (Cons x bs)
  have ne: "b \<noteq> x" if "b \<in> set bs" for b using that Cons.prems by auto
  define d where "d = (if day_of x \<in> set days \<and> day_of x \<notin> set cd then day_of x # cd else cd)"
  define w where "w = (if week_of x \<in> set weeks \<and> week_of x \<notin> set cw then week_of x # cw else cw)"
  define m where "m = (if month_of x \<in> set months \<and> month_of x \<notin> set cm then month_of x # cm else cm)"
  have "set (prune_walk days weeks months d w m bs)
      = {b \<in> set bs. \<not> (claims day_of days d bs b \<or> claims week_of weeks w bs b \<or> claims month_of months m bs b)}"
    using Cons.IH Cons.prems by simp
  also have "\<dots> = {b \<in> set bs. \<not> (claims day_of days cd (x # bs) b \<or> claims week_of weeks cw (x # bs) b \<or> claims month_of months cm (x # bs) b)}"
    unfolding d_def w_def m_def using ne claims_Cons [of _ x day_of] claims_Cons [of _ x week_of] claims_Cons [of _ x month_of] by blast
  finally have rest: "set (prune_walk days weeks months d w m bs) = \<dots>" .
  have "prune_walk days weeks months cd cw cm (x # bs)
      = (if claims day_of days cd (x # bs) x \<or> claims week_of weeks cw (x # bs) x \<or> claims month_of months cm (x # bs) x
         then prune_walk days weeks months d w m bs else x # prune_walk days weeks months d w m bs)"
    unfolding prune_walk.simps Let_def claims_hd d_def w_def m_def day_of_def ..
  then show ?case using rest ne by auto
qed simp

section \<open>Newest first\<close>

definition newer :: "backup \<Rightarrow> backup \<Rightarrow> bool" where
  "newer a b \<longleftrightarrow> backup_key b < backup_key a"

lemma newest_backups_sorted:
  assumes "distinct (map bk_id bs)"
  shows "sorted_wrt newer (newest_backups_first bs)" "distinct (newest_backups_first bs)" "set (newest_backups_first bs) = set bs"
proof -
  have "distinct (map backup_key bs)"
    using assms by (auto simp: distinct_map backup_key_def inj_on_def)
  then have "distinct (map backup_key (sort_key backup_key (rev bs)))" by (simp add: distinct_map)
  then have "sorted_wrt (<) (map backup_key (sort_key backup_key (rev bs)))" using strict_sorted_iff by (metis sorted_sort_key)
  then show "sorted_wrt newer (newest_backups_first bs)"
    unfolding newest_backups_first_def newer_def by (simp add: sorted_wrt_map sorted_wrt_rev)
  show "distinct (newest_backups_first bs)" using assms by (simp add: newest_backups_first_def distinct_map)
  show "set (newest_backups_first bs) = set bs" by (simp add: newest_backups_first_def)
qed

lemma before_newer: "sorted_wrt newer bs \<Longrightarrow> b \<in> set bs \<Longrightarrow> set (takeWhile (\<lambda>x. x \<noteq> b) bs) = {a \<in> set bs. newer a b}"
proof (induction bs)
  case (Cons x bs)
  have irr: "\<not> newer b b" for b by (simp add: newer_def)
  have asym: "newer x a \<Longrightarrow> \<not> newer a x" for a by (simp add: newer_def less_imp_not_less)
  show ?case
  proof (cases "b = x")
    case True
    then show ?thesis using Cons.prems(1) irr asym by auto
  next
    case False
    then show ?thesis using Cons by auto
  qed
qed simp

lemma drop_behind: "distinct bs \<Longrightarrow> b \<in> set (drop n bs) \<longleftrightarrow> b \<in> set bs \<and> n \<le> length (takeWhile (\<lambda>x. x \<noteq> b) bs)"
proof (induction bs arbitrary: n)
  case (Cons x bs)
  then show ?case by (cases n) (auto dest: in_set_dropD)
qed simp

end
