(* ===== verification/Backup_Props.thy ===== *)
theory Backup_Props
  imports Backup_Pruning
begin

text \<open>
  The contract of the retention: which scheduled backups a policy keeps, stated without the windows, the claims or the
  order of the walk, and the proof that the selection prunes exactly the others.
\<close>

section \<open>What a policy retains\<close>

definition scheduled_after :: "backup list \<Rightarrow> backup \<Rightarrow> backup set" where
  "scheduled_after bs b = {a \<in> set bs. bk_source a = SCHEDULED \<and> newer a b}"

definition newest_by :: "(backup \<Rightarrow> int) \<Rightarrow> backup list \<Rightarrow> backup \<Rightarrow> bool" where
  "newest_by f bs b \<longleftrightarrow> (\<forall>a \<in> scheduled_after bs b. f a \<noteq> f b)"

definition in_window :: "int \<Rightarrow> int \<Rightarrow> int \<Rightarrow> bool" where
  "in_window now n x \<longleftrightarrow> 0 \<le> now - x \<and> now - x < n"

definition monday_in :: "backup \<Rightarrow> int" where
  "monday_in b = monday_of (day_of b)"

definition month_in :: "backup \<Rightarrow> int" where
  "month_in b = month_index (month_of b)"

definition retained :: "retention_policy \<Rightarrow> backup list \<Rightarrow> instant \<Rightarrow> backup \<Rightarrow> bool" where
  "retained p bs now b \<longleftrightarrow>
     (case keep_last p of
        Some n \<Rightarrow> int (card (scheduled_after bs b)) < n
      | None \<Rightarrow> in_window (ordinal_of now) (daily p) (day_of b) \<and> newest_by day_of bs b
          \<or> in_window (monday_of (ordinal_of now)) (7 * weekly p) (monday_in b) \<and> newest_by monday_in bs b
          \<or> in_window (month_index (year_month (ordinal_of now))) (monthly p) (month_in b) \<and> newest_by month_in bs b)"

section \<open>The windows\<close>

lemma window_days_mem: "window_days now n = Inr ds \<Longrightarrow> d \<in> set ds \<longleftrightarrow> in_window now n d"
  by (auto simp: window_days_def in_window_def image_iff split: if_splits intro: bexI [of _ "now - d"])

lemma monday_of_back [simp]: "monday_of (monday_of d - 7 * i) = monday_of d - 7 * i"
proof -
  have "(monday_of d - 7 * i - 1) mod 7 = (monday_of d - 1 + 7 * (- i)) mod 7" by (simp add: algebra_simps)
  also have "\<dots> = 0" using monday_week(3) [of d] by (simp only: mod_mult_self2)
  finally show ?thesis by (simp add: monday_of_def [of "monday_of d - 7 * i"])
qed

lemma mondays_apart: "\<exists>i. monday_of d - monday_of e = 7 * i"
proof -
  have "(monday_of d - monday_of e) mod 7 = 0"
    using monday_week(3) [of d] monday_week(3) [of e] mod_eq_dvd_iff [of "monday_of d - 1" 7 "monday_of e - 1"] by simp
  then show ?thesis by (auto simp: mod_eq_0_iff_dvd)
qed

lemma window_weeks_mem:
  assumes "window_weeks now n = Inr ws"
  shows "iso_week d \<in> set ws \<longleftrightarrow> in_window (monday_of now) (7 * n) (monday_of d)"
proof -
  have "iso_week d \<in> set ws \<longleftrightarrow> (\<exists>i \<in> {0..n - 1}. monday_of d = monday_of now - 7 * i)"
    using assms by (auto simp: window_weeks_def Let_def iso_week_iff split: if_splits)
  also have "\<dots> \<longleftrightarrow> in_window (monday_of now) (7 * n) (monday_of d)"
  proof -
    obtain i where i: "monday_of now - monday_of d = 7 * i" using mondays_apart by blast
    then have "monday_of d = monday_of now - 7 * j \<longleftrightarrow> j = i" for j by linarith
    then have "(\<exists>j \<in> {0..n - 1}. monday_of d = monday_of now - 7 * j) \<longleftrightarrow> 0 \<le> i \<and> i < n" by auto
    then show ?thesis by (simp add: in_window_def i)
  qed
  finally show ?thesis .
qed

lemma window_months_index: "month_of b \<in> set (window_months now n) \<longleftrightarrow> in_window (month_index (year_month now)) n (month_in b)"
  using window_months_mem [of "month_of b" "year_month now" "nat n"] month_range [of "day_of b"] month_range [of now]
  by (auto simp: window_months_def in_window_def month_in_def)

section \<open>The selection\<close>

lemma scheduled_walk:
  assumes "distinct (map bk_id bs)"
  defines "xs \<equiv> newest_backups_first (filter (\<lambda>b. bk_source b = SCHEDULED) bs)"
  shows "distinct xs" "set xs = {b \<in> set bs. bk_source b = SCHEDULED}"
    "b \<in> set xs \<Longrightarrow> set (takeWhile (\<lambda>x. x \<noteq> b) xs) = scheduled_after bs b"
    "b \<in> set xs \<Longrightarrow> length (takeWhile (\<lambda>x. x \<noteq> b) xs) = card (scheduled_after bs b)"
proof -
  have d: "distinct (map bk_id (filter (\<lambda>b. bk_source b = SCHEDULED) bs))" using assms(1) by (rule distinct_map_filter)
  show distinct: "distinct xs" and mem: "set xs = {b \<in> set bs. bk_source b = SCHEDULED}"
    using newest_backups_sorted(2,3) [OF d] by (simp_all add: xs_def)
  show before: "set (takeWhile (\<lambda>x. x \<noteq> b) xs) = scheduled_after bs b" if "b \<in> set xs"
    using before_newer [OF newest_backups_sorted(1) [OF d], of b] that mem by (auto simp: xs_def scheduled_after_def)
  show "length (takeWhile (\<lambda>x. x \<noteq> b) xs) = card (scheduled_after bs b)" if "b \<in> set xs"
    using before [OF that] distinct_card [OF distinct_takeWhile [OF distinct, of "\<lambda>x. x \<noteq> b"]] by simp
qed

lemma first_newest:
  assumes "distinct (map bk_id bs)" "b \<in> set (newest_backups_first (filter (\<lambda>b. bk_source b = SCHEDULED) bs))"
    and "\<And>a. f a = f b \<longleftrightarrow> g a = g b"
  shows "first_of f (newest_backups_first (filter (\<lambda>b. bk_source b = SCHEDULED) bs)) b \<longleftrightarrow> newest_by g bs b"
  using scheduled_walk(3) [OF assms(1,2)] assms(3) by (simp add: first_of_def newest_by_def)

text \<open>
  C14. A retention policy prunes exactly the scheduled backups it does not retain, whatever order the rows come in.
  A keep-last policy retains a row when fewer than that many scheduled rows are newer. A tiered policy retains a row
  when it is the newest of its UTC day within the last days of the window, or the newest of its ISO week within the
  last weeks, or the newest of its calendar month within the last months. Rows of any other source are never pruned.
\<close>
theorem prunes_what_is_not_retained:
  assumes "distinct (map bk_id bs)" "backups_to_prune p bs now = Inr pruned"
  shows "set pruned = {b \<in> set bs. bk_source b = SCHEDULED \<and> \<not> retained p bs now b}"
proof -
  define xs where "xs = newest_backups_first (filter (\<lambda>b. bk_source b = SCHEDULED) bs)"
  note walk = scheduled_walk [OF assms(1), folded xs_def]
  show ?thesis
  proof (cases "keep_last p")
    case (Some n)
    then have "pruned = drop (nat n) xs" using assms(2) by (simp add: backups_to_prune_def xs_def Let_def)
    then have "b \<in> set pruned \<longleftrightarrow> b \<in> set xs \<and> nat n \<le> card (scheduled_after bs b)" for b
      using drop_behind [OF walk(1)] walk(4) by auto
    then show ?thesis using walk(2) Some by (auto simp: retained_def)
  next
    case None
    then obtain ds ws where w: "window_days (ordinal_of now) (daily p) = Inr ds" "window_weeks (ordinal_of now) (weekly p) = Inr ws"
      and pr: "pruned = prune_walk ds ws (window_months (ordinal_of now) (monthly p)) [] [] [] xs"
      using assms(2) by (auto simp: backups_to_prune_def xs_def Let_def split: sum.splits)
    have "claims day_of ds [] xs b \<longleftrightarrow> in_window (ordinal_of now) (daily p) (day_of b) \<and> newest_by day_of bs b"
      "claims week_of ws [] xs b \<longleftrightarrow> in_window (monday_of (ordinal_of now)) (7 * weekly p) (monday_in b) \<and> newest_by monday_in bs b"
      "claims month_of (window_months (ordinal_of now) (monthly p)) [] xs b
        \<longleftrightarrow> in_window (month_index (year_month (ordinal_of now))) (monthly p) (month_in b) \<and> newest_by month_in bs b"
      if "b \<in> set xs" for b
      using window_days_mem [OF w(1)] window_weeks_mem [OF w(2)] window_months_index
        first_newest [OF assms(1) that [unfolded xs_def], of day_of day_of]
        first_newest [OF assms(1) that [unfolded xs_def], of "\<lambda>b. week_of b" monday_in]
        first_newest [OF assms(1) that [unfolded xs_def], of "\<lambda>b. month_of b" month_in]
      by (simp_all add: claims_def xs_def iso_week_iff year_month_iff monday_in_def month_in_def)
    then show ?thesis using prune_walk_set [OF walk(1)] walk(2) None by (auto simp: pr retained_def)
  qed
qed

section \<open>Policies\<close>

definition valid_policy :: "retention_policy \<Rightarrow> bool" where
  "valid_policy p \<longleftrightarrow> mk_policy (keep_last p) (daily p) (weekly p) (monthly p) = Inr p"

lemma mk_policy_valid: "mk_policy n d w m = Inr p \<Longrightarrow> valid_policy p"
  by (auto simp: mk_policy_def valid_policy_def split: if_splits option.splits)

lemma from_fields_valid: "policy_from_fields n d w m = Inr p \<Longrightarrow> valid_policy p"
  by (auto simp: policy_from_fields_def Let_def split: if_splits intro: mk_policy_valid)

text \<open>
  What is stored for a retention policy reads back as that policy, for every policy the input accepts.
\<close>
theorem policy_round_trip:
  assumes "policy_from_fields n d w m = Inr p"
  shows "policy_from_json (policy_to_json p) = Inr p"
proof (cases "keep_last p")
  case None
  then have "mk_policy None (daily p) (weekly p) (monthly p) = Inr p" using from_fields_valid [OF assms] by (simp add: valid_policy_def)
  moreover have "{''daily'', ''weekly'', ''monthly''} \<noteq> {''keep_last''}" by auto
  ultimately show ?thesis using None by (simp add: policy_from_json_def policy_to_json_def policy_int_def dkeys_def)
next
  case (Some k)
  then have "mk_policy (Some k) (daily p) (weekly p) (monthly p) = Inr p" using from_fields_valid [OF assms] by (simp add: valid_policy_def)
  moreover from this have "daily p = 0 \<and> weekly p = 0 \<and> monthly p = 0" unfolding mk_policy_def by (simp split: if_splits)
  ultimately show ?thesis using Some by (simp add: policy_from_json_def policy_to_json_def policy_int_def dkeys_def)
qed

text \<open>
  A tier that reaches before the first day of the calendar is an accepted policy, under which every selection of the
  server's backups fails with an overflow.
\<close>
theorem huge_tier_overflows:
  assumes "ordinal_of now < d" "0 < d"
  shows "\<exists>p. policy_from_fields None (Some d) None None = Inr p \<and> (\<forall>bs. backups_to_prune p bs now = Inl RetentionOverflowError)"
  using assms by (simp add: policy_from_fields_def mk_policy_def backups_to_prune_def window_days_def)

section \<open>Witnesses\<close>

definition backup_row :: "uuid \<Rightarrow> backup_source \<Rightarrow> int \<Rightarrow> backup" where
  "backup_row k src hour = \<lparr>bk_id = k, bk_server = ''s'', storage_ref = ''a'', size_bytes = None, bk_source = src, bk_health = HEALTHY,
     bk_created_by = None, bk_created_at = hour * 3600000000\<rparr>"

definition sample_rows :: "backup list" where
  \<comment> \<open>the first is a day after the epoch, the next two the day before, and one is an operator's\<close>
  "sample_rows = [backup_row ''1'' SCHEDULED 30, backup_row ''2'' SCHEDULED 2, backup_row ''3'' MANUAL 3, backup_row ''4'' SCHEDULED 5]"

theorem prunes_what_is_not_retained_witness:
  "set [backup_row ''2'' SCHEDULED 2]
    = {b \<in> set sample_rows. bk_source b = SCHEDULED \<and> \<not> retained \<lparr>keep_last = None, daily = 2, weekly = 0, monthly = 1\<rparr> sample_rows 108000000000 b}"
proof (rule prunes_what_is_not_retained)
  show "distinct (map bk_id sample_rows)" by (simp add: sample_rows_def backup_row_def)
  show "backups_to_prune \<lparr>keep_last = None, daily = 2, weekly = 0, monthly = 1\<rparr> sample_rows 108000000000 = Inr [backup_row ''2'' SCHEDULED 2]"
    by code_simp
qed

theorem policy_round_trip_witness:
  "policy_from_json (policy_to_json \<lparr>keep_last = None, daily = 7, weekly = 0, monthly = 2\<rparr>) = Inr \<lparr>keep_last = None, daily = 7, weekly = 0, monthly = 2\<rparr>"
  by (rule policy_round_trip [of None "Some 7" None "Some 2"]) (simp add: policy_from_fields_def mk_policy_def)

theorem huge_tier_overflows_witness:
  "\<exists>p. policy_from_fields None (Some 1000000) None None = Inr p \<and> (\<forall>bs. backups_to_prune p bs 0 = Inl RetentionOverflowError)"
  by (rule huge_tier_overflows) (simp_all add: ordinal_of_def)

end
