(* ===== verification/Backup_Archive.thy ===== *)
theory Backup_Archive
  imports Storage_Region
begin

text \<open>
  Backup archives: the members a gzip tar yields, the validation of an upload (\<open>servers/application/backups.py\<close> with the
  guards of \<open>files.py\<close>), and how the filesystem adapter packs a working set and extracts an archive
  (\<open>storage/adapters/fs.py\<close> with \<open>storage/integrity/archive.py\<close>). The tar and gzip codecs of the standard library are not
  modelled: an archive is what reading it yields, members first and then possibly a failure to read on.
\<close>

section \<open>Archives\<close>

datatype member_kind = RegularFile | Directory | SpecialMember

record tar_member =
  tm_name :: string
  tm_kind :: member_kind
  tm_body :: blob

datatype read_fault =
    TarReadError \<comment> \<open>a \<open>tarfile.TarError\<close>\<close>
  | StreamError \<comment> \<open>\<open>EOFError\<close>, \<open>zlib.error\<close> or \<open>BadGzipFile\<close>\<close>

record archive =
  members :: "tar_member list"
  read_fault_after :: "read_fault option"

definition is_absolute :: "string \<Rightarrow> bool" where
  "is_absolute s \<longleftrightarrow> s \<noteq> [] \<and> hd s = CHR ''/''"

definition GENERATION_MARKER_PREFIX :: string where
  "GENERATION_MARKER_PREFIX = ''.mcsd_generation''"

definition PROPERTIES_REL_PATH :: string where
  "PROPERTIES_REL_PATH = ''server.properties''"

definition reserved_name :: "string \<Rightarrow> bool" where
  "reserved_name p \<longleftrightarrow> take (length GENERATION_MARKER_PREFIX) p = GENERATION_MARKER_PREFIX"

section \<open>Validation of an upload\<close>

datatype upload_error =
    InvalidBackupArchiveError
  | InvalidFilePathError \<comment> \<open>\<open>platform_managed_path\<close> or \<open>reserved_name\<close>\<close>
  | UncaughtReadError \<comment> \<open>not a \<open>TarError\<close>: it leaves the use case as it is\<close>

definition is_unsafe_member_name :: "string \<Rightarrow> bool" where
  "is_unsafe_member_name s \<longleftrightarrow> is_absolute s \<or> ''..'' \<in> set (split_on (\<lambda>c. c = CHR ''/'' \<or> c = CHR 0x5C) s)"

definition refuse_dir_at_root_properties :: "string list \<Rightarrow> bool" where
  \<comment> \<open>the path itself or anything under it; the callers pass relative paths\<close>
  "refuse_dir_at_root_properties ps \<longleftrightarrow> ps \<noteq> [] \<and> hd ps = PROPERTIES_REL_PATH"

definition refuse_reserved_root_name :: "string list \<Rightarrow> bool" where
  "refuse_reserved_root_name ps \<longleftrightarrow> ps \<noteq> [] \<and> reserved_name (hd ps)"

fun validate_members :: "nat \<Rightarrow> nat \<Rightarrow> nat \<Rightarrow> nat \<Rightarrow> tar_member list \<Rightarrow> upload_error option" where
  \<comment> \<open>\<open>count\<close> and \<open>drained\<close> before the next member\<close>
  "validate_members max_entries max_bytes count drained [] = None"
| "validate_members max_entries max_bytes count drained (m # ms) =
     (let ps = split_path (tm_name m);
          drained' = (if tm_kind m = RegularFile then drained + length (tm_body m) else drained)
      in if max_entries < count + 1 then Some InvalidBackupArchiveError
         else if tm_kind m = SpecialMember then Some InvalidBackupArchiveError
         else if is_unsafe_member_name (tm_name m) then Some InvalidBackupArchiveError
         else if refuse_dir_at_root_properties (if tm_kind m = Directory then ps else butlast ps) then Some InvalidFilePathError
         else if refuse_reserved_root_name ps then Some InvalidFilePathError
         else if max_bytes < drained' then Some InvalidBackupArchiveError
         else validate_members max_entries max_bytes (count + 1) drained' ms)"

definition validate_backup_archive :: "nat \<Rightarrow> nat \<Rightarrow> archive \<Rightarrow> upload_error option" where
  "validate_backup_archive max_entries max_bytes a =
     (case validate_members max_entries max_bytes 0 0 (members a) of
        Some e \<Rightarrow> Some e
      | None \<Rightarrow> (case read_fault_after a of
            None \<Rightarrow> None
          | Some TarReadError \<Rightarrow> Some InvalidBackupArchiveError
          | Some StreamError \<Rightarrow> Some UncaughtReadError))"

section \<open>Extraction of a restore\<close>

datatype archive_error =
    ArchiveUnreadableError
  | ArchiveTooLargeError
  | ArchiveOsError \<comment> \<open>the plain \<open>OSError\<close> of a member that collides with another\<close>

definition refuse_unrestorable_member :: "tar_member \<Rightarrow> bool" where
  "refuse_unrestorable_member m \<longleftrightarrow>
     tm_kind m = SpecialMember \<or> is_absolute (tm_name m) \<or> ''..'' \<in> set (split_path (tm_name m))"

definition is_reserved_root_member :: "string list \<Rightarrow> bool" where
  \<comment> \<open>of the components of a name that passed \<open>refuse_unrestorable_member\<close>, for which normalisation only drops dots\<close>
  "is_reserved_root_member ps \<longleftrightarrow> ps \<noteq> [] \<and> reserved_name (hd ps)"

definition extract_member_capped :: "nat \<Rightarrow> tar_member \<Rightarrow> tree \<Rightarrow> nat \<Rightarrow> archive_error + tree \<times> nat" where
  "extract_member_capped max_bytes m es drained =
     (let ps = split_path (tm_name m)
      in if tm_kind m = RegularFile then
           (case write_at es ps (tm_body m) of
              Inl _ \<Rightarrow> Inl ArchiveOsError
            | Inr es' \<Rightarrow> if max_bytes < drained + length (tm_body m) then Inl ArchiveTooLargeError
                         else Inr (es', drained + length (tm_body m)))
         else (case make_dir_at es ps of Inl _ \<Rightarrow> Inl ArchiveOsError | Inr es' \<Rightarrow> Inr (es', drained)))"

fun extract_members :: "nat \<Rightarrow> tar_member list \<Rightarrow> tree \<Rightarrow> nat \<Rightarrow> nat \<Rightarrow> archive_error + tree \<times> nat \<times> nat" where
  \<comment> \<open>the tree, the bytes written and the reserved members dropped\<close>
  "extract_members max_bytes [] es drained dropped = Inr (es, drained, dropped)"
| "extract_members max_bytes (m # ms) es drained dropped =
     (if refuse_unrestorable_member m then Inl ArchiveUnreadableError
      else if is_reserved_root_member (split_path (tm_name m)) then extract_members max_bytes ms es drained (dropped + 1)
      else (case extract_member_capped max_bytes m es drained of
              Inl e \<Rightarrow> Inl e
            | Inr (es', drained') \<Rightarrow> extract_members max_bytes ms es' drained' dropped))"

definition extract_tar_gz :: "nat \<Rightarrow> archive \<Rightarrow> archive_error + tree \<times> nat" where
  "extract_tar_gz max_bytes a =
     (case extract_members max_bytes (members a) [] 0 0 of
        Inl e \<Rightarrow> Inl e
      | Inr (t, _, dropped) \<Rightarrow> if read_fault_after a = None then Inr (t, dropped) else Inl ArchiveUnreadableError)"

section \<open>Packing\<close>

fun sorted_node :: "node \<Rightarrow> node" where
  \<comment> \<open>each directory in the order it is packed\<close>
  "sorted_node (File b) = File b"
| "sorted_node (Folder es) = Folder (sort_key fst (map (\<lambda>e. (fst e, sorted_node (snd e))) es))"

fun add_plain :: "string list \<Rightarrow> node \<Rightarrow> tar_member list" where
  "add_plain ps (File b) = [\<lparr>tm_name = posix_path ps, tm_kind = RegularFile, tm_body = b\<rparr>]"
| "add_plain ps (Folder es) =
     \<lparr>tm_name = posix_path ps, tm_kind = Directory, tm_body = []\<rparr> # concat (map (\<lambda>e. add_plain (ps @ [fst e]) (snd e)) es)"

definition sorted_tree :: "tree \<Rightarrow> tree" where
  "sorted_tree t = (case sorted_node (Folder t) of Folder es \<Rightarrow> es | File b \<Rightarrow> [])"

definition write_tar_gz :: "tree \<Rightarrow> archive" where
  "write_tar_gz t =
     \<lparr>members = concat (map (\<lambda>e. add_plain [fst e] (snd e)) (sorted_tree t)), read_fault_after = None\<rparr>"

end
