(* ===== verification/Backup_Pack.thy ===== *)
theory Backup_Pack
  imports Backup_Archive
begin

text \<open>
  An upload that the validation accepts is not refused by the extraction, except where two of its members collide.
\<close>

section \<open>Names\<close>

definition plain_name :: "string \<Rightarrow> bool" where
  "plain_name p \<longleftrightarrow> p \<noteq> [] \<and> p \<noteq> ''.'' \<and> p \<noteq> ''..'' \<and> CHR ''/'' \<notin> set p"

fun plain_node :: "node \<Rightarrow> bool" where
  "plain_node (File b) = True"
| "plain_node (Folder es) = (distinct (map fst es) \<and> (\<forall>e \<in> set es. plain_name (fst e) \<and> plain_node (snd e)))"

lemma split_on_free_append: "list_all (\<lambda>c. \<not> P c) p \<Longrightarrow> split_on P p = [p]"
  by (induction p) auto

lemma split_on_sep: "list_all (\<lambda>c. \<not> P c) p \<Longrightarrow> P c \<Longrightarrow> split_on P (p @ c # s) = p # split_on P s"
  by (induction p) auto

lemma split_posix_path:
  assumes "list_all plain_name ps"
  shows "split_path (posix_path ps) = ps"
proof -
  have free: "list_all (\<lambda>c. \<not> c = CHR ''/'') p" if "plain_name p" for p
    using that by (auto simp: plain_name_def list_all_iff)
  have "split_on (\<lambda>c. c = CHR ''/'') (p @ concat (map (\<lambda>q. CHR ''/'' # q) qs)) = p # qs" if "list_all plain_name (p # qs)" for p qs
    using that
  proof (induction qs arbitrary: p)
    case Nil
    then show ?case using split_on_free_append [OF free] by simp
  next
    case (Cons q qs)
    then show ?case using split_on_sep [OF free, of p "CHR ''/''"] by simp
  qed
  moreover have "filter (\<lambda>p. p \<noteq> [] \<and> p \<noteq> ''.'') ps = ps" using assms by (induction ps) (auto simp: plain_name_def)
  ultimately show ?thesis using assms
    by (cases ps) (simp_all add: split_path_def split_char_def posix_path_def)
qed

lemma posix_path_relative: "list_all plain_name ps \<Longrightarrow> \<not> is_absolute (posix_path ps)"
  by (cases ps) (auto simp: is_absolute_def posix_path_def plain_name_def neq_Nil_conv)

lemma split_on_refine:
  assumes "p \<in> set (split_on P s)" "list_all (\<lambda>c. \<not> Q c) p"
  shows "p \<in> set (split_on (\<lambda>c. P c \<or> Q c) s)"
proof -
  have "(\<forall>p \<in> set (tl (split_on P s)). list_all (\<lambda>c. \<not> Q c) p \<longrightarrow> p \<in> set (tl (split_on (\<lambda>c. P c \<or> Q c) s)))
      \<and> (list_all (\<lambda>c. \<not> Q c) (hd (split_on P s)) \<longrightarrow> hd (split_on (\<lambda>c. P c \<or> Q c) s) = hd (split_on P s))
      \<and> split_on P s \<noteq> [] \<and> split_on (\<lambda>c. P c \<or> Q c) s \<noteq> []"
    by (induction s) (auto split: list.splits)
  then show ?thesis using assms by (cases "split_on P s"; cases "split_on (\<lambda>c. P c \<or> Q c) s") auto
qed

lemma unrestorable_unsafe:
  assumes "\<not> is_unsafe_member_name s"
  shows "\<not> is_absolute s" "''..'' \<notin> set (split_path s)"
proof -
  have "list_all (\<lambda>c. \<not> c = CHR 0x5C) ''..''" by simp
  then show "\<not> is_absolute s" "''..'' \<notin> set (split_path s)"
    using assms split_on_refine [of "''..''" "\<lambda>c. c = CHR ''/''" s "\<lambda>c. c = CHR 0x5C"]
    by (auto simp: is_unsafe_member_name_def split_path_def split_char_def)
qed

section \<open>An accepted upload\<close>

definition restorable_tree :: "tree \<Rightarrow> bool" where
  \<comment> \<open>no directory stands where the platform keeps \<open>server.properties\<close>, and no root entry is the Worker's\<close>
  "restorable_tree t \<longleftrightarrow> folder_at t [PROPERTIES_REL_PATH] = None \<and> (\<forall>p. dget t p \<noteq> None \<longrightarrow> \<not> reserved_name p)"

lemma put_node_root:
  assumes "put_node n es (p # ps) = Inr es'"
  shows "dget es' q = (if q = p then dget es' p else dget es q)" "dget es' p \<noteq> None"
    "ps = [] \<Longrightarrow> dget es' p = Some n" "ps \<noteq> [] \<Longrightarrow> \<exists>ds. dget es' p = Some (Folder ds)"
  using assms by (cases ps; auto split: option.splits node.splits sum.splits)+

lemma put_node_restorable:
  assumes "restorable_tree es" "put_node n es ps = Inr es'" "\<not> refuse_reserved_root_name ps"
    and "ps \<noteq> [PROPERTIES_REL_PATH] \<or> (\<exists>b. n = File b)" "\<not> refuse_dir_at_root_properties (butlast ps)"
  shows "restorable_tree es'"
proof -
  obtain p qs where ps: "ps = p # qs" using assms(2) by (cases ps) auto
  note root = put_node_root [OF assms(2) [unfolded ps]]
  have deep: "qs = [] \<or> p \<noteq> PROPERTIES_REL_PATH" using assms(5) by (auto simp: ps refuse_dir_at_root_properties_def split: if_splits)
  have old: "folder_at es [PROPERTIES_REL_PATH] = None" using assms(1) by (simp add: restorable_tree_def)
  have "folder_at es' [PROPERTIES_REL_PATH] = None"
  proof (cases "p = PROPERTIES_REL_PATH")
    case True
    then have "qs = []" using deep by simp
    then show ?thesis using assms(4) root(3) True by (auto simp: folder_at_def ps)
  next
    case False
    then show ?thesis using old root(1) [of PROPERTIES_REL_PATH] by (simp add: folder_at_def)
  qed
  moreover have "\<not> reserved_name q" if "dget es' q \<noteq> None" for q
    using that root(1) [of q] assms(1,3) by (cases "q = p") (auto simp: restorable_tree_def ps refuse_reserved_root_name_def)
  ultimately show ?thesis by (simp add: restorable_tree_def)
qed

lemma extract_accepted:
  assumes "validate_members k max_bytes count drained ms = None" "max_bytes \<le> cap" "restorable_tree es"
  shows "case extract_members cap ms es drained dropped of
      Inl e \<Rightarrow> e = ArchiveOsError
    | Inr (t, _, d) \<Rightarrow> d = dropped \<and> restorable_tree t"
  using assms
proof (induction ms arbitrary: count drained es)
  case (Cons m ms)
  define ps where "ps = split_path (tm_name m)"
  define drained' where "drained' = (if tm_kind m = RegularFile then drained + length (tm_body m) else drained)"
  note v = Cons.prems(1) [unfolded validate_members.simps Let_def, folded ps_def drained'_def]
  have ok: "tm_kind m \<noteq> SpecialMember" "\<not> is_unsafe_member_name (tm_name m)" "drained' \<le> max_bytes"
    "\<not> refuse_dir_at_root_properties (if tm_kind m = Directory then ps else butlast ps)" "\<not> refuse_reserved_root_name ps"
    and rest: "validate_members k max_bytes (count + 1) drained' ms = None"
    using v by (auto split: if_splits)
  have keep: "\<not> refuse_unrestorable_member m" "\<not> is_reserved_root_member ps"
    using ok(1,5) unrestorable_unsafe [OF ok(2)]
    by (auto simp: refuse_unrestorable_member_def is_reserved_root_member_def refuse_reserved_root_name_def)
  have root: "\<not> refuse_dir_at_root_properties (butlast ps)"
    using ok(4) by (cases ps rule: rev_cases) (auto simp: refuse_dir_at_root_properties_def hd_append split: if_splits)
  show ?case
  proof (cases "extract_member_capped cap m es drained")
    case (Inl e)
    then have "e = ArchiveOsError" using ok(3) Cons.prems(2) unfolding extract_member_capped_def Let_def drained'_def
      by (auto split: if_splits sum.splits)
    then show ?thesis using keep Inl by (simp add: ps_def)
  next
    case (Inr r)
    then obtain es' where r: "r = (es', drained')"
      and put: "es' = es \<or> (\<exists>b. put_node (File b) es ps = Inr es') \<or> put_node (Folder []) es ps = Inr es' \<and> (ps = [] \<or> hd ps \<noteq> PROPERTIES_REL_PATH)"
      using ok(1,4) unfolding extract_member_capped_def Let_def drained'_def write_at_def make_dir_at_def ps_def [symmetric]
      by (cases "tm_kind m") (auto simp: refuse_dir_at_root_properties_def split: if_splits sum.splits option.splits node.splits)
    have "ps = [] \<or> hd ps \<noteq> PROPERTIES_REL_PATH \<Longrightarrow> ps \<noteq> [PROPERTIES_REL_PATH]" by auto
    then have "restorable_tree es'" using put put_node_restorable [OF Cons.prems(3) _ ok(5) _ root] Cons.prems(3) by blast
    then show ?thesis using Cons.IH [OF rest Cons.prems(2), of es'] keep Inr r by (simp add: ps_def)
  qed
qed simp

text \<open>
  An uploaded archive that the validation accepts is never one a restore must call unreadable or too large, and no
  member of it is dropped: it restores to a working set that has no directory in the place of the platform's
  \<open>server.properties\<close> and no entry under the Worker's reserved name, unless two of its members collide.
\<close>
lemma accepted_upload_restores:
  assumes "validate_backup_archive max_entries max_bytes a = None" "max_bytes \<le> cap"
  shows "extract_tar_gz cap a = Inl ArchiveOsError
    \<or> (\<exists>t. extract_tar_gz cap a = Inr (t, 0) \<and> restorable_tree t)"
proof -
  have v: "validate_members max_entries max_bytes 0 0 (members a) = None" "read_fault_after a = None"
    using assms(1) by (auto simp: validate_backup_archive_def split: option.splits read_fault.splits)
  have "restorable_tree []" by (simp add: restorable_tree_def folder_at_def)
  from extract_accepted [OF v(1) assms(2) this, of 0] show ?thesis
    by (auto simp: extract_tar_gz_def v(2) split: sum.splits prod.splits)
qed

end
