(* ===== verification/Backup_Roundtrip.thy ===== *)
theory Backup_Roundtrip
  imports Backup_Pack "HOL-Library.Multiset"
begin

text \<open>
  An archive the platform packed restores to the working set it was packed from.
\<close>

section \<open>Restoring a packed working set\<close>

fun node_bytes :: "node \<Rightarrow> nat" where
  "node_bytes (File b) = length b"
| "node_bytes (Folder es) = sum_list (map (\<lambda>e. node_bytes (snd e)) es)"

lemma dset_fresh: "dget d k = None \<Longrightarrow> dset k v d = d @ [(k, v)]"
  by (induction d) auto

lemma put_put:
  assumes "put_node (Folder ds) es ps = Inr es1"
  shows "put_node n es1 (ps @ [p]) = put_node (Folder (dset p n ds)) es ps"
  using assms
proof (induction "Folder ds" es ps arbitrary: es1 rule: put_node.induct)
  case (3 es a b ps)
  then obtain sub ds1 where d: "put_node (Folder ds) sub (b # ps) = Inr ds1" "es1 = dset a (Folder ds1) es"
    and sub: "dget es a = None \<and> sub = [] \<or> dget es a = Some (Folder sub)"
    by (auto split: option.splits node.splits sum.splits)
  have "put_node n ds1 ((b # ps) @ [p]) = put_node (Folder (dset p n ds)) sub (b # ps)" using 3 sub d(1) by blast
  then show ?case using sub d(2) by (auto split: sum.splits)
qed auto

lemma put_node_total: "put_node n es ps = Inr es' \<Longrightarrow> \<exists>es''. put_node n' es ps = Inr es''"
proof (induction n es ps arbitrary: es' rule: put_node.induct)
  case (3 n es p q ps)
  obtain sub ds where "put_node n sub (q # ps) = Inr ds" and sub: "dget es p = None \<and> sub = [] \<or> dget es p = Some (Folder sub)"
    using 3(3) by (auto split: option.splits node.splits sum.splits)
  then obtain ds' where "put_node n' sub (q # ps) = Inr ds'" using 3(1,2) by blast
  then show ?case using sub by auto
qed auto

lemma node_at_append: "node_at es ps = Some (Folder ds) \<Longrightarrow> node_at es (ps @ qs) = node_at ds qs"
  by (induction es ps rule: node_at.induct) (auto split: option.splits node.splits if_splits)

lemma node_at_under: "put_node (Folder ds) es ps = Inr es' \<Longrightarrow> node_at es' (ps @ [p]) = dget ds p"
  using node_at_append [OF put_node_at] by (auto split: option.split node.split)

lemma extract_append:
  "extract_members cap (xs @ ys) es n d =
     (case extract_members cap xs es n d of Inl e \<Rightarrow> Inl e | Inr (es', n', d') \<Rightarrow> extract_members cap ys es' n' d')"
  by (induction xs arbitrary: es n d) (auto split: sum.splits)

lemma extract_add_plain:
  assumes "plain_node m" "list_all plain_name ps" "ps \<noteq> []" "\<not> reserved_name (hd ps)" "node_at es ps = None"
    and "put_node m es ps = Inr es'" "n + node_bytes m \<le> cap"
  shows "extract_members cap (add_plain ps m) es n d = Inr (es', n + node_bytes m, d)"
  using assms
proof (induction ps m arbitrary: es es' n rule: add_plain.induct)
  case (1 ps b)
  have "folder_at es ps = None" using 1(5) by (simp add: folder_at_def)
  then show ?case using 1 split_posix_path [OF 1(2)] posix_path_relative [OF 1(2)]
    by (auto simp: refuse_unrestorable_member_def is_reserved_root_member_def extract_member_capped_def write_at_def plain_name_def list_all_iff)
next
  case (2 ps cs)
  note sp = split_posix_path [OF 2(3)] posix_path_relative [OF 2(3)]
  obtain es0 where es0: "put_node (Folder []) es ps = Inr es0" using put_node_total [OF 2(7)] by blast
  have kids: "extract_members cap (concat (map (\<lambda>e. add_plain (ps @ [fst e]) (snd e)) xs)) es1 k d
      = Inr (es2, k + sum_list (map (\<lambda>e. node_bytes (snd e)) xs), d)"
    if "cs = ds @ xs" "put_node (Folder ds) es ps = Inr es1" "put_node (Folder cs) es ps = Inr es2"
      "k + sum_list (map (\<lambda>e. node_bytes (snd e)) xs) \<le> cap" for ds xs es1 es2 k
    using that
  proof (induction xs arbitrary: ds es1 k)
    case (Cons x xs)
    obtain p m where x: "x = (p, m)" by fastforce
    have m: "x \<in> set cs" "plain_name p" "plain_node m" using 2(2) Cons.prems(1) x by auto
    have p: "dget ds p = None" using 2(2) Cons.prems(1) x by (force simp: map_of_eq_None_iff)
    then have app: "dset p m ds = ds @ [x]" using x by (simp add: dset_fresh)
    obtain es3 where es3: "put_node (Folder (ds @ [x])) es ps = Inr es3" using put_node_total [OF 2(7)] by blast
    have "extract_members cap (add_plain (ps @ [fst x]) (snd x)) es1 k d = Inr (es3, k + node_bytes (snd x), d)"
    proof (rule 2(1) [OF m(1)])
      show "put_node (snd x) es1 (ps @ [fst x]) = Inr es3" using put_put [OF Cons.prems(2), of m p] es3 x app by simp
      show "node_at es1 (ps @ [fst x]) = None" using node_at_under [OF Cons.prems(2)] p x by simp
    qed (use m x 2(3,4,5) Cons.prems(4) in auto)
    then show ?case using Cons.IH [of "ds @ [x]" es3 "k + node_bytes (snd x)"] Cons.prems es3
      by (simp add: extract_append add.assoc)
  qed simp
  have dir: "make_dir_at es ps = Inr es0" using 2(6) es0 by (simp add: make_dir_at_def)
  have "extract_members cap (add_plain ps (Folder cs)) es n d
      = extract_members cap (concat (map (\<lambda>e. add_plain (ps @ [fst e]) (snd e)) cs)) es0 n d"
    using sp 2(3-5) dir by (auto simp: refuse_unrestorable_member_def is_reserved_root_member_def extract_member_capped_def plain_name_def list_all_iff)
  also have "\<dots> = Inr (es', n + node_bytes (Folder cs), d)" using kids [of "[]" cs es0 es' n] es0 2(7,8) by simp
  finally show ?case .
qed

lemma add_plain_names: "m \<in> set (add_plain ps n) \<Longrightarrow> \<exists>qs. tm_name m = posix_path (ps @ qs) \<and> tm_kind m \<noteq> SpecialMember
    \<and> (plain_node n \<longrightarrow> list_all plain_name qs)"
proof (induction ps n rule: add_plain.induct)
  case (1 ps b)
  then show ?case by (auto intro: exI [of _ "[]"])
next
  case (2 ps es)
  show ?case
  proof (cases "tm_name m = posix_path ps \<and> tm_kind m = Directory")
    case True
    then show ?thesis by (auto intro: exI [of _ "[]"])
  next
    case False
    then obtain e where e: "e \<in> set es" "m \<in> set (add_plain (ps @ [fst e]) (snd e))" using 2(2) by auto
    from 2(1) [OF this] obtain qs where "tm_name m = posix_path ((ps @ [fst e]) @ qs) \<and> tm_kind m \<noteq> SpecialMember
      \<and> (plain_node (snd e) \<longrightarrow> list_all plain_name qs)" by blast
    then show ?thesis using e(1) by (intro exI [of _ "fst e # qs"]) auto
  qed
qed

lemma extract_dropped:
  "(\<And>m. m \<in> set ms \<Longrightarrow> \<not> refuse_unrestorable_member m \<and> is_reserved_root_member (split_path (tm_name m))) \<Longrightarrow>
   extract_members cap ms es n d = Inr (es, n, d + length ms)"
  by (induction ms arbitrary: d) auto

definition kept_entries :: "tree \<Rightarrow> tree" where
  "kept_entries t = filter (\<lambda>e. \<not> reserved_name (fst e)) t"

lemma extract_roots:
  assumes "plain_node (Folder (ds @ xs))" "n + node_bytes (Folder xs) \<le> cap"
  shows "\<exists>k d'. extract_members cap (concat (map (\<lambda>e. add_plain [fst e] (snd e)) xs)) (kept_entries ds) n d
    = Inr (kept_entries (ds @ xs), k, d') \<and> k \<le> n + node_bytes (Folder xs)"
  using assms
proof (induction xs arbitrary: ds n d)
  case (Cons x xs)
  obtain p m where x: "x = (p, m)" by fastforce
  have m: "plain_name p" "plain_node m" using Cons.prems(1) x by auto
  define n' where "n' = (if reserved_name p then n else n + node_bytes m)"
  have first: "\<exists>d'. extract_members cap (add_plain [p] m) (kept_entries ds) n d = Inr (kept_entries (ds @ [x]), n', d')"
  proof (cases "reserved_name p")
    case True
    have "\<not> refuse_unrestorable_member a \<and> is_reserved_root_member (split_path (tm_name a))" if a: "a \<in> set (add_plain [p] m)" for a
    proof -
      obtain qs where qs: "tm_name a = posix_path (p # qs)" "tm_kind a \<noteq> SpecialMember" "list_all plain_name qs"
        using add_plain_names [OF a] m(2) by auto
      then have "list_all plain_name (p # qs)" using m(1) by simp
      then show ?thesis using qs(1,2) split_posix_path [of "p # qs"] posix_path_relative [of "p # qs"] True
        by (auto simp: refuse_unrestorable_member_def is_reserved_root_member_def plain_name_def list_all_iff)
    qed
    then show ?thesis using extract_dropped [of "add_plain [p] m"] True by (simp add: kept_entries_def n'_def x)
  next
    case False
    have "dget ds p = None" using Cons.prems(1) x by (force simp: map_of_eq_None_iff)
    then have p: "dget (kept_entries ds) p = None" by (auto simp: kept_entries_def map_of_eq_None_iff)
    then have "dset p m (kept_entries ds) = kept_entries ds @ [x]" using x by (simp add: dset_fresh)
    then have "put_node m (kept_entries ds) [p] = Inr (kept_entries (ds @ [x]))" using False by (simp add: kept_entries_def x)
    then show ?thesis using extract_add_plain [of m "[p]" "kept_entries ds" _ n cap d] m False p Cons.prems(2) x
      by (simp add: n'_def)
  qed
  then obtain d' where d': "extract_members cap (add_plain [p] m) (kept_entries ds) n d = Inr (kept_entries (ds @ [x]), n', d')" ..
  have le: "n' + node_bytes (Folder xs) \<le> n + node_bytes (Folder (x # xs))" by (simp add: n'_def x)
  obtain k d'' where "extract_members cap (concat (map (\<lambda>e. add_plain [fst e] (snd e)) xs)) (kept_entries (ds @ [x])) n' d'
      = Inr (kept_entries ((ds @ [x]) @ xs), k, d'')" "k \<le> n' + node_bytes (Folder xs)"
    using Cons.IH [of "ds @ [x]" n' d'] Cons.prems le by auto
  then show ?case using d' le by (auto simp: extract_append x)
qed simp

lemma sorted_keys: "map fst (sort_key fst xs) = sort (map fst xs)"
  by (metis properties_for_sort mset_map mset_sort sorted_sort_key)

lemma sorted_node_plain: "plain_node m \<Longrightarrow> plain_node (sorted_node m)"
proof (induction m rule: sorted_node.induct)
  case (2 es)
  define ys where "ys = map (\<lambda>e. (fst e, sorted_node (snd e))) es"
  have "map fst ys = map fst es" by (simp add: ys_def)
  then have "distinct (map fst (sort_key fst ys))" using 2(2) by (simp only: sorted_keys distinct_sort plain_node.simps)
  moreover have "plain_name (fst e) \<and> plain_node (snd e)" if "e \<in> set (sort_key fst ys)" for e
    using that 2 by (auto simp: ys_def)
  ultimately show ?case by (simp add: ys_def)
qed simp

lemma sorted_node_bytes: "node_bytes (sorted_node m) = node_bytes m"
proof (induction m rule: sorted_node.induct)
  case (2 es)
  have "sum_list (map (\<lambda>e. node_bytes (snd e)) (sort_key fst xs)) = sum_list (map (\<lambda>e. node_bytes (snd e)) xs)" for xs :: "(string \<times> node) list"
    by (simp flip: sum_mset_sum_list)
  then have "node_bytes (sorted_node (Folder es)) = sum_list (map (\<lambda>e. node_bytes (sorted_node (snd e))) es)" by (simp add: o_def)
  moreover have "map (\<lambda>e. node_bytes (sorted_node (snd e))) es = map (\<lambda>e. node_bytes (snd e)) es" using 2 by simp
  ultimately show ?case by simp
qed simp

lemma sorted_files: "set (node_files ps (sorted_node m)) = set (node_files ps m)"
proof (induction m arbitrary: ps rule: sorted_node.induct)
  case (2 es)
  then show ?case by auto
qed simp

lemma dget_sorted: "distinct (map fst es) \<Longrightarrow> dget (sort_key fst (map (\<lambda>e. (fst e, f (snd e))) es)) p = map_option f (dget es p)"
proof -
  define xs where "xs = map (\<lambda>e. (fst e, f (snd e))) es"
  assume d: "distinct (map fst es)"
  have keys: "distinct (map fst xs)" using d by (simp add: xs_def o_def)
  then have "distinct (map fst (sort_key fst xs))" by (simp add: sorted_keys)
  then have "dget (sort_key fst xs) p = Some v \<longleftrightarrow> dget xs p = Some v" for v using keys by (simp add: map_of_eq_Some_iff)
  then have "dget (sort_key fst xs) p = dget xs p" by (metis not_Some_eq)
  also have "\<dots> = map_option f (dget es p)" unfolding xs_def by (induction es) auto
  finally show "dget (sort_key fst (map (\<lambda>e. (fst e, f (snd e))) es)) p = map_option f (dget es p)" by (simp add: xs_def)
qed

lemma node_at_sorted:
  "plain_node (Folder es) \<Longrightarrow> Folder es' = sorted_node (Folder es) \<Longrightarrow> node_at es' ps = map_option sorted_node (node_at es ps)"
proof (induction es ps arbitrary: es' rule: node_at.induct)
  case (1 es)
  then show ?case by simp
next
  case (2 es p ps)
  have es': "es' = sort_key fst (map (\<lambda>e. (fst e, sorted_node (snd e))) es)" using 2(3) by simp
  have lookup: "dget es' p = map_option sorted_node (dget es p)" unfolding es' by (rule dget_sorted) (use 2(2) in simp)
  show ?case
  proof (cases "dget es p")
    case None
    then show ?thesis using lookup by simp
  next
    case (Some n)
    then have pn: "plain_node n" using 2(2) by (auto dest: map_of_SomeD)
    show ?thesis
    proof (cases n)
      case (File b)
      then show ?thesis using lookup Some by simp
    next
      case (Folder ds)
      then obtain ds' where ds': "sorted_node n = Folder ds'" by simp
      then have "node_at ds' ps = map_option sorted_node (node_at ds ps)" using 2(1) [OF Some Folder, of ds'] pn Folder by simp
      then show ?thesis using lookup Some Folder ds' by simp
    qed
  qed
qed

lemma sorted_tree_Folder: "sorted_node (Folder t) = Folder (sorted_tree t)"
  by (simp add: sorted_tree_def)

lemma node_at_kept: "node_at (kept_entries es) (p # ps) = (if reserved_name p then None else node_at es (p # ps))"
  by (simp add: kept_entries_def dget_filter [of "\<lambda>p. \<not> reserved_name p", simplified case_prod_unfold])

lemma extract_packed:
  assumes "plain_node (Folder t)" "node_bytes (Folder t) \<le> cap"
  shows "\<exists>d. extract_tar_gz cap (write_tar_gz t) = Inr (kept_entries (sorted_tree t), d)"
proof -
  have "plain_node (Folder ([] @ sorted_tree t))" "0 + node_bytes (Folder (sorted_tree t)) \<le> cap"
    using sorted_node_plain [OF assms(1)] sorted_node_bytes [of "Folder t"] assms(2) unfolding sorted_tree_Folder by simp_all
  from extract_roots [OF this, of 0] show ?thesis
    by (auto simp: extract_tar_gz_def write_tar_gz_def kept_entries_def)
qed

lemma kept_lookup:
  assumes "plain_node (Folder t)"
  shows "node_at (kept_entries (sorted_tree t)) ps
    = (if ps \<noteq> [] \<and> reserved_name (hd ps) then None
       else if ps = [] then Some (Folder (kept_entries (sorted_tree t))) else map_option sorted_node (node_at t ps))"
  using node_at_sorted [OF assms sorted_tree_Folder [symmetric], of ps] by (cases ps) (simp_all add: node_at_kept del: node_at.simps(2))

lemma kept_files: "set (node_files [] (Folder (kept_entries (sorted_tree t)))) \<subseteq> set (node_files [] (Folder t))"
  using sorted_files [of "[]" "Folder t"] unfolding sorted_tree_Folder by (auto simp: kept_entries_def)

text \<open>
  C22. A backup is worth what it was made of: the archive packed from a working set that fits the restore cap extracts to
  a tree with exactly the files and directories of that working set, byte for byte, the entries under the Worker's
  reserved root name excepted.
\<close>
theorem backup_restores_working_set:
  assumes "plain_node (Folder t)" "node_bytes (Folder t) \<le> cap"
  shows "\<exists>t' d. extract_tar_gz cap (write_tar_gz t) = Inr (t', d)
    \<and> (\<forall>ps. file_at t' ps = (if ps \<noteq> [] \<and> reserved_name (hd ps) then None else file_at t ps))
    \<and> (\<forall>ps. folder_at t' ps = None \<longleftrightarrow> ps \<noteq> [] \<and> reserved_name (hd ps) \<or> folder_at t ps = None)"
proof -
  obtain d where d: "extract_tar_gz cap (write_tar_gz t) = Inr (kept_entries (sorted_tree t), d)" using extract_packed [OF assms] ..
  have "file_at (kept_entries (sorted_tree t)) ps = (if ps \<noteq> [] \<and> reserved_name (hd ps) then None else file_at t ps)" for ps
    using kept_lookup [OF assms(1), of ps] by (auto simp: file_at_def split: option.splits node.splits)
  moreover have "folder_at (kept_entries (sorted_tree t)) ps = None
      \<longleftrightarrow> ps \<noteq> [] \<and> reserved_name (hd ps) \<or> folder_at t ps = None" for ps
    using kept_lookup [OF assms(1), of ps] by (auto simp: folder_at_def split: option.splits node.splits)
  ultimately show ?thesis using d by blast
qed

definition archived_set :: tree where
  "archived_set = [(''world'', Folder [(''level.dat'', File [10, 0]), (''empty'', Folder []), (''region'', Folder [(''r.0.0.mca'', File [])])]),
     (''.mcsd_generation'', File [7]), (''server.properties'', File [97, 61, 98])]"

lemma backup_restores_working_set_witness:
  "\<exists>t' d. extract_tar_gz 6 (write_tar_gz archived_set) = Inr (t', d)
    \<and> file_at t' [''world'', ''level.dat''] = Some [10, 0] \<and> folder_at t' [''world'', ''empty''] \<noteq> None
    \<and> file_at t' [''.mcsd_generation''] = None \<and> file_at t' [''server.properties''] = Some [97, 61, 98]"
proof -
  have "plain_node (Folder archived_set)" "node_bytes (Folder archived_set) \<le> 6" by (simp_all add: archived_set_def plain_name_def)
  from backup_restores_working_set [OF this] obtain t' d where r: "extract_tar_gz 6 (write_tar_gz archived_set) = Inr (t', d)"
    and f: "file_at t' ps = (if ps \<noteq> [] \<and> reserved_name (hd ps) then None else file_at archived_set ps)"
    and g: "folder_at t' ps = None \<longleftrightarrow> ps \<noteq> [] \<and> reserved_name (hd ps) \<or> folder_at archived_set ps = None" for ps
    by blast
  have names: "\<not> reserved_name ''world''" "reserved_name ''.mcsd_generation''" "\<not> reserved_name ''server.properties''"
    by (simp_all add: reserved_name_def GENERATION_MARKER_PREFIX_def)
  have "file_at archived_set [''world'', ''level.dat''] = Some [10, 0]" "folder_at archived_set [''world'', ''empty''] = Some []"
    "file_at archived_set [''server.properties''] = Some [97, 61, 98]"
    by (simp_all add: archived_set_def file_at_def folder_at_def)
  then show ?thesis using r by (simp add: f g names del: not_None_eq)
qed

section \<open>Uploads that no restore can use\<close>

definition colliding_upload :: archive where
  "colliding_upload =
     \<lparr>members = [\<lparr>tm_name = ''a'', tm_kind = RegularFile, tm_body = [1]\<rparr>, \<lparr>tm_name = ''a/b'', tm_kind = RegularFile, tm_body = [2]\<rparr>],
      read_fault_after = None\<rparr>"

text \<open>
  The validation accepts an archive with two members of which one stands where the other needs a directory; every restore
  of it fails with the plain error of the file system, which no caller translates.
\<close>
lemma colliding_upload_never_restores:
  "validate_backup_archive 10 10 colliding_upload = None" "extract_tar_gz 10 colliding_upload = Inl ArchiveOsError"
  by code_simp+

text \<open>
  An upload whose gzip stream breaks off is not refused as an invalid archive: the failure of the codec leaves the use case.
\<close>
lemma truncated_upload_uncaught:
  "validate_backup_archive 10 10 \<lparr>members = [], read_fault_after = Some StreamError\<rparr> = Some UncaughtReadError"
  by code_simp

end
