(* ===== verification/Spec2Isabelle.thy ===== *)
theory Spec2Isabelle
  imports Prelude Placement Registry_Props Control_Plane Player_Groups Lifecycle_Witness Stop_Guard
    Reconciler_Witness Community_Witness Properties_Props Identity_Witness Plugin_Witness Schedule_Witness
    Storage_Witness Group_Sync_Witness Backup_Props Backup_Roundtrip
begin

text \<open>
  Verification of the API service of a Minecraft server dashboard. All paths below are under
  \<open>src/api/src/mc_server_dashboard_api\<close> unless they start with \<open>src/\<close>.

  The service manages Minecraft servers that run on remote worker hosts. A request names a server of a community; the
  community context decides whether its user may do it, the servers context keeps the row of the server and drives its
  life through commands to a worker, the fleet context knows the workers and chooses one, the storage context keeps the
  working set a worker hydrates from and publishes back to, and the identity context issues the sessions. A background
  reconciler and a scheduler drive servers without a request.

  PARTS AND THEORIES

  Shared. \<open>Prelude\<close>: identifiers and instants, Python dictionaries as association lists in insertion order (locales
  \<open>key_value_store\<close> and \<open>pydict\<close>, interpreted on the dictionary operations of the model), results with an error value,
  \<open>min_by\<close> and the other list operations of the standard library, and \<open>safe_system\<close>, the induction over the steps of a
  machine that the invariants of the registry and the placement slots interpret (those of the identity context interpret
  \<open>kept_invariant\<close> of \<open>Identity_Machine\<close>). \<open>Prog\<close>: a coroutine as the
  calls it makes of its ports, with the relation \<open>runs\<close> between a program, the answers of its environment and its result.
  \<open>Py_Float\<close>: the double-precision operations the program uses, with their error bounds.

  Fleet. \<open>Placement\<close> (\<open>fleet/domain/value_objects.py\<close>, \<open>entities.py\<close>, \<open>placement.py\<close>): the candidate, its memory reserve
  and the greedy choice. \<open>Registry\<close>, \<open>Registry_Inv\<close>, \<open>Registry_Props\<close> (\<open>fleet/adapters/registry.py\<close>): the in-memory
  registry with its reservations and the epochs of a rebuild; its representation invariant; no operation raises, a rebuild
  agrees with what raced it. \<open>Control_Plane\<close> (\<open>servers/adapters/control_plane.py\<close>): placement and slots seen from the
  servers context; no worker is oversubscribed.

  Servers. \<open>Server_Model\<close> (\<open>servers/domain\<close>: value objects, the row, settings, outcomes) and \<open>Server_Repo\<close>
  (\<open>servers/adapters/repositories.py\<close>, each statement as an update of the table). \<open>Lifecycle\<close>
  (\<open>servers/application/lifecycle.py\<close>) translates start, stop, restart, the releases of wedged stops and their helpers as
  programs over port calls. \<open>Lifecycle_Rules\<close> holds the proof rules, \<open>Lifecycle_Start\<close>, \<open>Lifecycle_Slots\<close>,
  \<open>Lifecycle_Fresh\<close>, \<open>Lifecycle_Stop\<close> and \<open>Lifecycle_Load\<close> the safety of every run (assignment, reservation, freshness of
  the working set, release of the assignment, load), \<open>Lifecycle_Db\<close> the programs against the table and
  \<open>Lifecycle_Witness\<close> concrete runs. \<open>Stop_Guard\<close> (\<open>stop_convergence.py\<close>, \<open>stop_dispatch_refusals.py\<close>) is the in-process
  exclusion of stop flows. \<open>Reconciler\<close>, \<open>Reconciler_Props\<close>, \<open>Reconciler_Witness\<close> (\<open>reconciler.py\<close>) are the tick, its
  backoff and what it may do when.

  Player groups. \<open>Player_Groups\<close> (\<open>servers/domain/groups.py\<close>) is the aggregate with the files it renders; \<open>Group_Sync\<close>
  (\<open>servers/application/groups.py\<close>, \<open>servers/adapters/group_repository.py\<close>) the use cases and the deferred sync as one
  machine with the lifecycle locks; \<open>Group_Marks\<close>, \<open>Group_Sync_Props\<close>, \<open>Group_Sync_Witness\<close> show that no change is
  forgotten as long as no rename writes back an outdated player set, and the races that break the rest.

  \<open>server.properties\<close>. \<open>Server_Properties\<close> (\<open>servers/domain/server_properties.py\<close>) has every compiled pattern as the scanner
  it is, the reader and the rewrites. \<open>Properties_Reader\<close> proves the bulk reader equal to a line-at-a-time one,
  \<open>Properties_Escape\<close> the escapes, \<open>Properties_Rewrite\<close> the rewrites and \<open>Properties_Props\<close> the properties.

  Plugins. \<open>Version_Range\<close> (\<open>version_range.py\<close>), \<open>Plugin_Validation\<close> (\<open>plugin_validation.py\<close>, \<open>catalog_deps.py\<close>,
  \<open>servers/domain/plugin.py\<close>), \<open>Plugin_Resolution\<close> (\<open>plugin_resolution.py\<close>, \<open>servers/domain/catalog_provider.py\<close>);
  \<open>Version_Order\<close>, \<open>Plugin_Walk\<close>, \<open>Plugin_Props\<close>, \<open>Plugin_Witness\<close>: the comparison is a total preorder, the walk ends
  and is the classified closure, what blocking promises, and runs that show where it stops short.

  Scheduler. \<open>Schedule\<close> (\<open>servers/domain/schedule.py\<close>, \<open>schedule_repository.py\<close>, \<open>servers/application/schedules.py\<close>),
  \<open>Schedule_Runner\<close> (\<open>schedule_runner.py\<close>) and \<open>Schedule_Machine\<close>, in which every transaction and every stretch between two
  awaits is a step; \<open>Schedule_Notify\<close>, \<open>Schedule_Once\<close>, \<open>Schedule_Witness\<close>: notifications, no replay, the interval grid.

  Backups. \<open>Backup_Retention\<close>, \<open>Backup_Pruning\<close>, \<open>Backup_Props\<close> (\<open>servers/domain/backup_retention.py\<close>): the selection of
  the rows to prune against a contract without windows or order. \<open>Backup_Archive\<close>, \<open>Backup_Pack\<close>, \<open>Backup_Roundtrip\<close>
  (\<open>servers/application/backups.py\<close>, guards of \<open>files.py\<close>, \<open>storage/adapters/fs.py\<close>, \<open>storage/integrity/archive.py\<close>): the
  validation of an upload, packing and extraction; a packed working set restores to itself.

  Community. \<open>Community\<close> (\<open>community/\<close>, \<open>identity/adapters/community_ownership.py\<close>) has the catalog, the tables, each
  use case as a transaction and the checker; \<open>Community_Inv\<close>, \<open>Community_Props\<close>, \<open>Community_Witness\<close>: no collusion
  raises a permission, the last owner stays, the introspection is what is enforced. The account deletion runs as the two
  transactions it is (\<open>deletion_run\<close>).

  Identity. \<open>Identity\<close>, \<open>Password_Policy\<close>, \<open>Identity_Ops\<close> (\<open>identity/\<close>) have the rows, the policy and the use cases, a
  login and a password change cut where they verify a password outside a transaction; \<open>Identity_Machine\<close> interleaves
  them; \<open>Identity_Inv\<close>, \<open>Identity_Props\<close>, \<open>Identity_Lockout\<close>, \<open>Identity_Witness\<close>: ended sessions, password changes,
  the last administrator, the lockout.

  Storage. \<open>Storage_Tree\<close> (paths and edits of a working set), \<open>Storage_Region\<close> (\<open>storage/integrity/region.py\<close>, on bytes)
  and \<open>Storage_Fs\<close> (\<open>storage/adapters/fs.py\<close>, the publish route of \<open>dataplane/api/transfers.py\<close>): one server on a disk,
  with uploads, publishes in their phases, restores, edits, versions, readers with leases, the prune of a delete, the
  sweep, aborts, faults and crashes. \<open>Storage_Fs_Inv\<close>, \<open>Storage_Fs_Readers\<close>, \<open>Storage_Fs_Props\<close>, \<open>Storage_Edits\<close>,
  \<open>Storage_Witness\<close>: the live link, leases, generations, lost updates, rollback, and the runs the code does not survive.

  READING THE MODELS

  A record is a class or a row, a datatype an enum or the errors of a context; a use case that raises answers
  \<open>Inl\<close> of the error. Identifiers are strings standing for uuids, an instant is an integer number of
  microseconds, a digest or a password check is a parameter. Python integers are \<open>int\<close>, region files are lists of
  8-bit words, a \<open>str\<close> of the properties editor is a list of code points.

  Two styles of concurrency are used. In the lifecycle programs the answers of all calls are arbitrary, so that a property
  of every run covers whatever other tasks, workers and losses of connection do between two calls. In the machines
  (registry, groups, identity, scheduler, storage, guard) the steps are the stretches the code runs without being
  interleaved: a transaction under the locks it takes, or the code between two awaits. A unique key, a foreign key and a
  row lock of the database are taken as documented; a statement of a read-committed transaction that the code does not
  protect by a lock is a step of its own where a property depends on it (the read and the write of an edit of a schedule
  or a group, the check and the delete of an account deletion, the check and the store of a login). An invariant is a
  predicate on the state that every step keeps; the properties follow by induction over the run.

  TERMINATION AND BOUNDS

  No definition uses fuel. The loops of the plugin resolution, which the code bounds by its set of visited ids and by a
  depth of ten, are \<open>partial_function (option)\<close> and proved to return for every catalog; the scanners and the
  decoders of the properties editor consume their input (\<open>termination\<close> by its length); a re-hydrating launch tries at
  most once more (its measure is the number of attempts left). The memory reserve is exact for capacities below \<open>2 ^ 50\<close> MiB, beyond
  which the double product of the code may round.

  WHAT IS NOT MODELLED

  Routers, wiring, transports (HTTP, gRPC, the relay), database drivers and the libraries for JWT, argon2, cron, time zones, gzip and
  tar: they are input and output around the models, or parameters of them. The S3 object store is a second
  implementation of the storage port. Creating and editing a server with its port and slug, the file use cases, the
  backup use cases, the snapshot scheduler, the JAR pool and the catalogs of versions are left out. Durability below an
  action of the file system, links inside a working set, and a removal of an aborted upload that goes on inside the directory
  after the publish has renamed it are outside the storage machine. The Go worker and the relay and the TypeScript user
  interface are not under these models; the worker is the environment of the lifecycle programs.
\<close>

end
